(* ===== verification/Prelude.thy ===== *)
theory Prelude
  imports Main "HOL-Library.Word" "HOL-Library.AList" "HOL-Library.List_Lexorder"
    "HOL-Library.Sublist" "HOL-Library.Product_Lexorder"
begin

text \<open>
  Shared ground of the development: JavaScript values (bytes, strings of UTF-16 code units,
  numbers), thrown errors as the left injection of a sum, insertion-ordered maps, and the
  generic facts the component theories share.

  \<^item> A byte of a \<^verbatim>\<open>Uint8Array\<close> is an \<open>8 word\<close>; a \<^verbatim>\<open>string\<close> is a list of 16-bit code units,
    written \<open>str ''abc''\<close> for a literal of the source.
  \<^item> A function that can throw returns \<open>js_error + 'a\<close>; \<open>bindE\<close> is the sequencing of
    statements, stopping at the first throw.
  \<^item> \<open>jsnumber\<close> is the part of the IEEE double format that \<^verbatim>\<open>Number.parseInt\<close> can return.
  \<^item> A \<^verbatim>\<open>Map\<close> is an association list with distinct keys: \<^const>\<open>AList.update\<close> overwrites in place
    and appends a new key at the end, which is the iteration order of the language.
\<close>

section \<open>Values\<close>

type_synonym byte = "8 word"
type_synonym code_unit = "16 word"
type_synonym jsstring = "code_unit list"

text \<open>A string literal of the source, and an ASCII literal as bytes.\<close>

definition str :: "string \<Rightarrow> jsstring" where
  "str s = map of_char s"

definition asc :: "string \<Rightarrow> byte list" where
  "asc s = map of_char s"

lemma str_simps [simp]:
  "str [] = []" "str (c # s) = of_char c # str s"
  by (simp_all add: str_def)

lemma asc_simps [simp]:
  "asc [] = []" "asc (c # s) = of_char c # asc s"
  by (simp_all add: asc_def)

lemma length_str [simp]: "length (str s) = length s"
  by (simp add: str_def)

lemma length_asc [simp]: "length (asc s) = length s"
  by (simp add: asc_def)

lemma literal_eq_Nil [simp]: "str s = [] \<longleftrightarrow> s = []" "asc s = [] \<longleftrightarrow> s = []"
  by (simp_all add: str_def asc_def)

text \<open>\<^verbatim>\<open>String.fromCharCode\<close> of one byte.\<close>

definition fromCharCode :: "byte \<Rightarrow> code_unit" where
  "fromCharCode b = ucast b"

lemma unat_fromCharCode [simp]: "unat (fromCharCode b) = unat b"
proof -
  have "unat b < 2 ^ 8" using unsigned_less [of b] by simp
  then show ?thesis by (simp add: fromCharCode_def unsigned_ucast_eq take_bit_nat_eq_self)
qed

definition latin1 :: "byte list \<Rightarrow> jsstring" where
  "latin1 bs = map fromCharCode bs"

lemma latin1_simps [simp]:
  "latin1 [] = []" "latin1 (b # bs) = fromCharCode b # latin1 bs"
  "latin1 (bs @ cs) = latin1 bs @ latin1 cs" "length (latin1 bs) = length bs"
  "latin1 bs = [] \<longleftrightarrow> bs = []"
  by (simp_all add: latin1_def)

lemma fromCharCode_inj [simp]: "fromCharCode b = fromCharCode c \<longleftrightarrow> b = c"
proof
  assume "fromCharCode b = fromCharCode c"
  then have "uint (ucast b :: code_unit) = uint (ucast c :: code_unit)"
    by (simp add: fromCharCode_def)
  then have "uint b = uint c" by (simp add: uint_up_ucast is_up)
  then show "b = c" by (simp add: word_uint_eq_iff)
qed simp

lemma latin1_inj [simp]: "latin1 bs = latin1 cs \<longleftrightarrow> bs = cs"
  by (simp add: latin1_def inj_def)

lemma in_latin1 [simp]: "fromCharCode b \<in> set (latin1 bs) \<longleftrightarrow> b \<in> set bs"
  by (auto simp: latin1_def)

lemma fromCharCode_space [simp]: "fromCharCode 0x20 = 0x20"
  by (simp add: fromCharCode_def)

lemma list_all_latin1: "list_all P (latin1 bs) \<longleftrightarrow> list_all (\<lambda>b. P (fromCharCode b)) bs"
  by (simp add: latin1_def list_all_length)

lemma unat_of_char [simp]:
  "unat (of_char c :: byte) = of_char c" "unat (of_char c :: code_unit) = of_char c"
proof -
  have c: "(of_char c :: nat) < 256" by (rule nat_of_char_less_256)
  have "unat (of_nat (of_char c) :: byte) = of_char c" "unat (of_nat (of_char c) :: code_unit) = of_char c"
    using c less_trans [OF c, of 65536] by (simp_all only: unat_of_nat) simp_all
  then show "unat (of_char c :: byte) = of_char c" "unat (of_char c :: code_unit) = of_char c"
    by (simp_all add: of_nat_of_char)
qed

lemma fromCharCode_of_char [simp]: "fromCharCode (of_char c) = of_char c"
  by (simp add: word_unat_eq_iff)

lemma latin1_asc: "latin1 (asc s) = str s"
  by (simp add: latin1_def asc_def str_def)

lemma latin1_eq_str: "latin1 v = str s \<longleftrightarrow> v = asc s"
  by (simp flip: latin1_asc)

lemma of_char_word_inj:
  "(of_char c :: byte) = of_char d \<longleftrightarrow> c = d" "(of_char c :: code_unit) = of_char d \<longleftrightarrow> c = d"
  by (simp_all add: word_unat_eq_iff)

lemma str_inj: "str s = str t \<longleftrightarrow> s = t"
  unfolding str_def by (rule inj_map_eq_map) (simp add: inj_def of_char_word_inj)

lemma asc_inj: "asc s = asc t \<longleftrightarrow> s = t"
  unfolding asc_def by (rule inj_map_eq_map) (simp add: inj_def of_char_word_inj)

text \<open>\<^verbatim>\<open>startsWith\<close> and \<^verbatim>\<open>endsWith\<close>; \<^verbatim>\<open>s.slice(n)\<close> is \<open>drop n s\<close>.\<close>

definition startsWith :: "'a list \<Rightarrow> 'a list \<Rightarrow> bool" where
  "startsWith s p \<longleftrightarrow> take (length p) s = p"

definition endsWith :: "'a list \<Rightarrow> 'a list \<Rightarrow> bool" where
  "endsWith s p \<longleftrightarrow> length p \<le> length s \<and> drop (length s - length p) s = p"

lemma startsWith_append [simp]: "startsWith (p @ s) p"
  by (simp add: startsWith_def)

lemma startsWith_iff: "startsWith s p \<longleftrightarrow> (\<exists>t. s = p @ t)"
  by (metis append_eq_conv_conj append_take_drop_id startsWith_def)

lemma endsWith_append [simp]: "endsWith (s @ p) p"
  by (simp add: endsWith_def)

lemma endsWith_iff: "endsWith s p \<longleftrightarrow> (\<exists>t. s = t @ p)"
  by (metis append_take_drop_id endsWith_append endsWith_def)

text \<open>\<^verbatim>\<open>xs[i]\<close>, which is \<^verbatim>\<open>undefined\<close> out of range.\<close>

definition at :: "'a list \<Rightarrow> nat \<Rightarrow> 'a option" where
  "at xs i = (if i < length xs then Some (xs ! i) else None)"

lemma at_simps [simp]:
  "at [] i = None" "at (x # xs) 0 = Some x" "at (x # xs) (Suc i) = at xs i"
  by (simp_all add: at_def)

lemma at_length_append [simp]: "at (xs @ ys) (length xs) = (case ys of [] \<Rightarrow> None | y # _ \<Rightarrow> Some y)"
  by (auto simp: at_def nth_append split: list.splits)

lemma at_eq_SomeD: "at xs i = Some x \<Longrightarrow> x \<in> set xs"
  by (auto simp: at_def split: if_splits)

text \<open>\<^verbatim>\<open>subarray(start, end)\<close>, clamped to the array.\<close>

definition subarray :: "'a list \<Rightarrow> nat \<Rightarrow> nat \<Rightarrow> 'a list" where
  "subarray xs i j = take (j - i) (drop i xs)"

lemma subarray_0 [simp]: "subarray xs 0 j = take j xs"
  by (simp add: subarray_def)

lemma subarray_full [simp]: "subarray xs i (length xs) = drop i xs"
  by (simp add: subarray_def)

lemma set_subarray_subset: "set (subarray xs i j) \<subseteq> set xs"
  by (auto simp: subarray_def dest: in_set_takeD in_set_dropD)

text \<open>\<^verbatim>\<open>indexOf\<close>: the first position of an element, \<^verbatim>\<open>-1\<close> being \<open>None\<close>.\<close>

fun indexOf :: "'a list \<Rightarrow> 'a \<Rightarrow> nat option" where
  "indexOf [] y = None"
| "indexOf (x # xs) y = (if x = y then Some 0 else map_option Suc (indexOf xs y))"

lemma indexOf_None [simp]: "indexOf xs y = None \<longleftrightarrow> y \<notin> set xs"
  by (induction xs) auto

lemma indexOf_SomeD: "indexOf xs y = Some i \<Longrightarrow> i < length xs \<and> xs ! i = y \<and> y \<notin> set (take i xs)"
  by (induction xs arbitrary: i) (auto split: if_splits)

lemma indexOf_append:
  "indexOf (xs @ ys) y = (case indexOf xs y of Some i \<Rightarrow> Some i
     | None \<Rightarrow> map_option (\<lambda>i. i + length xs) (indexOf ys y))"
proof (induction xs)
  case Nil
  then show ?case by (simp add: option.map_ident)
next
  case (Cons x xs)
  then show ?case
    by (auto split: option.splits simp: option.map_comp comp_def indexOf_None [symmetric] simp del: indexOf_None)
qed

lemma indexOf_first [simp]: "y \<notin> set xs \<Longrightarrow> indexOf (xs @ y # ys) y = Some (length xs)"
  by (induction xs) auto

text \<open>\<^verbatim>\<open>text.split(c)\<close> for a separator of one unit: always at least one piece.\<close>

fun splitOn :: "'a \<Rightarrow> 'a list \<Rightarrow> 'a list list" where
  "splitOn c [] = [[]]"
| "splitOn c (x # xs) =
     (if x = c then [] # splitOn c xs
      else (case splitOn c xs of [] \<Rightarrow> [[x]] | p # ps \<Rightarrow> (x # p) # ps))"

lemma splitOn_not_Nil [simp]: "splitOn c xs \<noteq> []"
  by (induction xs) (auto split: list.splits)

lemma splitOn_piece [simp]: "c \<notin> set xs \<Longrightarrow> splitOn c xs = [xs]"
  by (induction xs) auto

lemma splitOn_sep [simp]: "c \<notin> set xs \<Longrightarrow> splitOn c (xs @ c # ys) = xs # splitOn c ys"
  by (induction xs) auto

lemma splitOn_join: "concat (map (\<lambda>p. p @ [c]) (splitOn c xs)) = xs @ [c]"
  by (induction xs) (auto split: list.splits)

lemma splitOn_pieces: "p \<in> set (splitOn c xs) \<Longrightarrow> c \<notin> set p"
  by (induction xs arbitrary: p) (auto split: list.splits if_splits)

section \<open>Thrown errors\<close>

text \<open>
  \<^verbatim>\<open>GitOutputParseError\<close> carries the format it was parsing, the fixed part of its message and
  the byte offset, when one is given. The interpolated parts of messages are not modelled.
\<close>

datatype js_error =
    GitOutputParseError (format_of: string) (message_of: string) (offset_of: "nat option")
  | RangeError
  | PlainError string

fun bindE :: "'e + 'a \<Rightarrow> ('a \<Rightarrow> 'e + 'b) \<Rightarrow> 'e + 'b" where
  "bindE (Inl e) f = Inl e"
| "bindE (Inr x) f = f x"

lemma bindE_assoc: "bindE (bindE m f) g = bindE m (\<lambda>x. bindE (f x) g)"
  by (cases m) auto

lemma bindE_Inr_id: "bindE m (\<lambda>(x, y). Inr (x, y)) = m" "bindE m Inr = m"
  by (cases m; simp)+

lemma bindE_Inr_iff: "bindE m f = Inr y \<longleftrightarrow> (\<exists>x. m = Inr x \<and> f x = Inr y)"
  by (cases m) auto

lemma bindE_Inl_iff: "bindE m f = Inl e \<longleftrightarrow> m = Inl e \<or> (\<exists>x. m = Inr x \<and> f x = Inl e)"
  by (cases m) auto

lemma bindE_InrE [elim!]:
  assumes "bindE m f = Inr y"
  obtains x where "m = Inr x" and "f x = Inr y"
  using assms by (auto simp: bindE_Inr_iff)

lemma bindE_cong [fundef_cong]:
  "m = m' \<Longrightarrow> (\<And>x. m' = Inr x \<Longrightarrow> f x = f' x) \<Longrightarrow> bindE m f = bindE m' f'"
  by (cases m) auto

text \<open>\<^verbatim>\<open>if (!c) throw e\<close>.\<close>

definition guardE :: "bool \<Rightarrow> 'e \<Rightarrow> 'e + unit" where
  "guardE c e = (if c then Inr () else Inl e)"

lemma guardE_simps [simp]:
  "guardE True e = Inr ()" "guardE False e = Inl e"
  "guardE c e = Inr u \<longleftrightarrow> c" "guardE c e = Inl e' \<longleftrightarrow> \<not> c \<and> e = e'"
  by (auto simp: guardE_def)

text \<open>\<^verbatim>\<open>xs.map(f)\<close> for a callback that may throw.\<close>

fun mapE :: "('a \<Rightarrow> 'e + 'b) \<Rightarrow> 'a list \<Rightarrow> 'e + 'b list" where
  "mapE f [] = Inr []"
| "mapE f (x # xs) = bindE (f x) (\<lambda>y. bindE (mapE f xs) (\<lambda>ys. Inr (y # ys)))"

lemma mapE_cong [fundef_cong]:
  "xs = ys \<Longrightarrow> (\<And>x. x \<in> set ys \<Longrightarrow> f x = g x) \<Longrightarrow> mapE f xs = mapE g ys"
  by (induction ys arbitrary: xs) auto

lemma mapE_Inr_iff: "mapE f xs = Inr ys \<longleftrightarrow> list_all2 (\<lambda>x y. f x = Inr y) xs ys"
proof (induction xs arbitrary: ys)
  case Nil
  then show ?case by auto
next
  case (Cons x xs)
  then show ?case by (auto simp: bindE_Inr_iff list_all2_Cons1)
qed

lemma mapE_map [simp]: "(\<And>x. x \<in> set xs \<Longrightarrow> f (g x) = Inr (h x)) \<Longrightarrow> mapE f (map g xs) = Inr (map h xs)"
  by (induction xs) auto

text \<open>
  What holds of the value of a statement that did not throw. The rules in \<open>vc\<close> take such a goal
  apart statement by statement; \<open>(rule vc | assumption)+\<close> runs them.
\<close>

named_theorems vc

definition okE :: "'e + 'a \<Rightarrow> ('a \<Rightarrow> bool) \<Rightarrow> bool" where
  "okE m P \<longleftrightarrow> (case m of Inl _ \<Rightarrow> True | Inr x \<Rightarrow> P x)"

lemma okED: "okE m P \<Longrightarrow> m = Inr x \<Longrightarrow> P x"
  by (simp add: okE_def)

lemma okEI: "(\<And>x. m = Inr x \<Longrightarrow> P x) \<Longrightarrow> okE m P"
  by (cases m) (auto simp: okE_def)

lemma okE_Inl [vc]: "okE (Inl e) P"
  by (simp add: okE_def)

lemma okE_bind_prod [vc]:
  assumes "okE m (\<lambda>(x, r). Q x r)" and "\<And>x r. Q x r \<Longrightarrow> okE (f x r) P"
  shows "okE (bindE m (\<lambda>(x, r). f x r)) P"
  using assms by (cases m) (auto simp: okE_def split: prod.splits)

lemma okE_bind:
  assumes "okE m Q" and "\<And>x. Q x \<Longrightarrow> okE (f x) P"
  shows "okE (bindE m f) P"
  using assms by (cases m) (auto simp: okE_def)

lemma okE_if [vc]: "(b \<Longrightarrow> okE m P) \<Longrightarrow> (\<not> b \<Longrightarrow> okE n P) \<Longrightarrow> okE (if b then m else n) P"
  by simp

lemma okE_case_prod [vc]: "(\<And>a b. okE (f a b) P) \<Longrightarrow> okE (case_prod f x) P"
  by (cases x) simp

lemma okE_case_prod1 [vc]: "(\<And>a b. okE (f a b y) P) \<Longrightarrow> okE (case_prod f x y) P"
  by (cases x) simp

lemma okE_Let [vc]: "okE (f x) P \<Longrightarrow> okE (Let x f) P"
  by simp

lemma okE_Inr [vc]: "P x \<Longrightarrow> okE (Inr x) P"
  by (simp add: okE_def)

section \<open>Numbers\<close>

text \<open>
  The results of \<^verbatim>\<open>Number.parseInt(text, 10)\<close>: the integer the digits denote, rounded to the
  nearest double (ties to even), or \<^verbatim>\<open>NaN\<close> when there is no digit. Negative zero is not told
  apart from zero.
\<close>

datatype jsnumber = NaN | PosInf | NegInf | Fin int

fun bit_length :: "nat \<Rightarrow> nat" where
  "bit_length n = (if n = 0 then 0 else Suc (bit_length (n div 2)))"

declare bit_length.simps [simp del]

lemma bit_length_le: "n < 2 ^ k \<Longrightarrow> bit_length n \<le> k"
proof (induction k arbitrary: n)
  case 0
  then show ?case by (simp add: bit_length.simps [of 0])
next
  case (Suc k)
  have "n div 2 < 2 ^ k" using Suc.prems by auto
  then have "bit_length (n div 2) \<le> k" by (rule Suc.IH)
  then show ?case by (simp add: bit_length.simps [of n])
qed

definition round53 :: "nat \<Rightarrow> nat" where
  "round53 n =
     (let k = bit_length n - 53; q = n div 2 ^ k; r = n mod 2 ^ k
      in if k = 0 then n
         else (if r > 2 ^ (k - 1) \<or> (r = 2 ^ (k - 1) \<and> odd q) then q + 1 else q) * 2 ^ k)"

definition toNumber :: "int \<Rightarrow> jsnumber" where
  "toNumber n =
     (let m = round53 (nat \<bar>n\<bar>)
      in if m \<ge> 2 ^ 1024 then (if n < 0 then NegInf else PosInf) else Fin (sgn n * int m))"

lemma round53_exact: "n < 2 ^ 53 \<Longrightarrow> round53 n = n"
  using bit_length_le [of n 53] by (simp add: round53_def)

lemma toNumber_exact: "\<bar>n\<bar> < 2 ^ 53 \<Longrightarrow> toNumber n = Fin n"
proof -
  assume n: "\<bar>n\<bar> < 2 ^ 53"
  then have lt: "nat \<bar>n\<bar> < 2 ^ 53" by (simp add: nat_less_iff)
  have "(2::nat) ^ 53 \<le> 2 ^ 1024" by (rule power_increasing) auto
  with lt have "\<not> (2::nat) ^ 1024 \<le> nat \<bar>n\<bar>" by linarith
  with lt show ?thesis by (simp add: toNumber_def round53_exact sgn_mult_abs)
qed

definition isDigit :: "'a::len word \<Rightarrow> bool" where
  "isDigit c \<longleftrightarrow> 0x30 \<le> c \<and> c \<le> 0x39"

definition digits_value :: "jsstring \<Rightarrow> nat" where
  "digits_value ds = foldl (\<lambda>n c. 10 * n + (unat c - 0x30)) 0 ds"

text \<open>\<^verbatim>\<open>WhiteSpace\<close> and \<^verbatim>\<open>LineTerminator\<close> of the language definition.\<close>

definition is_js_space :: "code_unit \<Rightarrow> bool" where
  "is_js_space c \<longleftrightarrow>
     (0x09 \<le> c \<and> c \<le> 0x0d) \<or> c = 0x20 \<or> c = 0xa0 \<or> c = 0x1680 \<or> (0x2000 \<le> c \<and> c \<le> 0x200a) \<or>
     c = 0x2028 \<or> c = 0x2029 \<or> c = 0x202f \<or> c = 0x205f \<or> c = 0x3000 \<or> c = 0xfeff"

text \<open>\<^verbatim>\<open>trim()\<close> and \<^verbatim>\<open>trimEnd()\<close>.\<close>

definition js_trimEnd :: "jsstring \<Rightarrow> jsstring" where
  "js_trimEnd s = rev (dropWhile is_js_space (rev s))"

definition js_trim :: "jsstring \<Rightarrow> jsstring" where
  "js_trim s = rev (dropWhile is_js_space (rev (dropWhile is_js_space s)))"

definition parseInt10 :: "jsstring \<Rightarrow> jsnumber" where
  "parseInt10 s =
     (let s = dropWhile is_js_space s;
          neg = (s \<noteq> [] \<and> hd s = 0x2d);
          s = (if s \<noteq> [] \<and> (hd s = 0x2d \<or> hd s = 0x2b) then tl s else s);
          ds = takeWhile isDigit s
      in if ds = [] then NaN
         else toNumber (if neg then - int (digits_value ds) else int (digits_value ds)))"

text \<open>\<^verbatim>\<open>/^\d+$/\<close>: not empty, all digits.\<close>

definition all_digits :: "jsstring \<Rightarrow> bool" where
  "all_digits s \<longleftrightarrow> s \<noteq> [] \<and> list_all isDigit s"

lemma isDigit_not_space: "isDigit c \<Longrightarrow> \<not> is_js_space c \<and> c \<noteq> 0x2d \<and> c \<noteq> 0x2b"
  unfolding isDigit_def is_js_space_def by unat_arith

lemma parseInt10_digits:
  assumes "all_digits s"
  shows "parseInt10 s = toNumber (int (digits_value s))"
proof -
  obtain c cs where s: "s = c # cs" using assms by (cases s) (auto simp: all_digits_def)
  with assms have c: "isDigit c" by (simp add: all_digits_def)
  have "takeWhile isDigit s = s"
    using assms by (simp add: all_digits_def list_all_iff takeWhile_eq_all_conv)
  then show ?thesis
    using isDigit_not_space [OF c] s by (simp add: parseInt10_def)
qed

text \<open>The decimal numeral of a number, the inverse of reading one.\<close>

fun decimal :: "nat \<Rightarrow> jsstring" where
  "decimal n = (if n < 10 then [0x30 + of_nat n] else decimal (n div 10) @ [0x30 + of_nat (n mod 10)])"

declare decimal.simps [simp del]

lemma unat_digit: "d < 10 \<Longrightarrow> unat (0x30 + of_nat d :: code_unit) = 0x30 + d"
  by (subst unat_add_lem [THEN iffD1]) (auto simp: unat_of_nat)

lemma isDigit_digit: "d < 10 \<Longrightarrow> isDigit (0x30 + of_nat d :: code_unit)"
  by (simp add: isDigit_def word_le_nat_alt unat_digit)

lemma decimal_all_digits [simp]: "all_digits (decimal n)"
proof (induction n rule: decimal.induct)
  case (1 n)
  then show ?case
    by (subst decimal.simps) (auto simp: all_digits_def isDigit_digit)
qed

lemma digits_value_decimal [simp]: "digits_value (decimal n) = n"
proof (induction n rule: decimal.induct)
  case (1 n)
  show ?case
  proof (cases "n < 10")
    case True
    then show ?thesis by (subst decimal.simps) (simp add: digits_value_def unat_digit)
  next
    case False
    with 1 have "digits_value (decimal (n div 10)) = n div 10" by simp
    with False show ?thesis
      by (subst decimal.simps) (simp add: digits_value_def unat_digit)
  qed
qed

lemma parseInt10_decimal: "parseInt10 (decimal n) = toNumber (int n)"
  by (simp add: parseInt10_digits)

section \<open>Transition systems\<close>

text \<open>A component with state: its initial states, its steps, and an invariant its steps keep.\<close>

locale transition_system =
  fixes init :: "'s \<Rightarrow> bool" and step :: "'s \<Rightarrow> 's \<Rightarrow> bool" and inv :: "'s \<Rightarrow> bool"
  assumes init_inv: "init s \<Longrightarrow> inv s"
    and step_inv: "step s t \<Longrightarrow> inv s \<Longrightarrow> inv t"
begin

lemma steps_inv: "step\<^sup>*\<^sup>* s t \<Longrightarrow> inv s \<Longrightarrow> inv t"
  by (induction rule: rtranclp_induct) (auto intro: step_inv)

lemma reachable_inv: "init s \<Longrightarrow> step\<^sup>*\<^sup>* s t \<Longrightarrow> inv t"
  by (blast intro: steps_inv init_inv)

end

end
