(* ===== verification/Bytes.thy ===== *)
theory Bytes
  imports Prelude
begin

text \<open>
  Bounded byte scanning: \<^verbatim>\<open>packages/git-core/src/bytes/nul-framing.ts\<close>. The record \<open>reader\<close> is the
  class \<^verbatim>\<open>FrameReader\<close> (a frame and an offset), with one definition per method; the record
  \<open>framer\<close> is the class \<^verbatim>\<open>NulFramer\<close>. The locale \<open>reader_op\<close> is the contract every reader
  method keeps (it never leaves the frame and only moves forward); the locale
  \<open>stream_decoder\<close> is the contract of an incremental decoder whose result does not depend on
  how the stream was cut into chunks.
\<close>

section \<open>Byte helpers\<close>

definition byteAt :: "byte list \<Rightarrow> nat \<Rightarrow> js_error + byte" where
  "byteAt bytes index = (case at bytes index of None \<Rightarrow> Inl RangeError | Some v \<Rightarrow> Inr v)"

definition isHexDigit :: "'a::len word \<Rightarrow> bool" where
  "isHexDigit code \<longleftrightarrow> isDigit code \<or> (0x61 \<le> code \<and> code \<le> 0x66)"

definition isAsciiSpace :: "byte \<Rightarrow> bool" where
  "isAsciiSpace code \<longleftrightarrow> code = 0x20"

definition isControl :: "byte \<Rightarrow> bool" where
  "isControl code \<longleftrightarrow> code < 0x20 \<or> code = 0x7f"

definition is_ascii :: "byte list \<Rightarrow> bool" where
  "is_ascii bs \<longleftrightarrow> list_all (\<lambda>b. b \<le> 0x7f) bs"

text \<open>The loop of \<^verbatim>\<open>decodeAscii\<close>, on the index and the number of bytes still to read.\<close>

fun decodeAscii :: "byte list \<Rightarrow> nat \<Rightarrow> nat \<Rightarrow> js_error + jsstring" where
  "decodeAscii bytes index 0 = Inr []"
| "decodeAscii bytes index (Suc n) =
     (case at bytes index of
        None \<Rightarrow> Inl RangeError
      | Some code \<Rightarrow>
          if code > 0x7f
          then Inl (GitOutputParseError ''ascii'' ''expected an ASCII field but found a byte above 0x7f'' (Some index))
          else bindE (decodeAscii bytes (Suc index) n) (\<lambda>text. Inr (fromCharCode code # text)))"

lemma is_ascii_simps [simp]:
  "is_ascii []" "is_ascii (b # bs) \<longleftrightarrow> b \<le> 0x7f \<and> is_ascii bs"
  "is_ascii (bs @ cs) \<longleftrightarrow> is_ascii bs \<and> is_ascii cs"
  by (simp_all add: is_ascii_def)

lemma decodeAscii_Inr_iff:
  "i + n \<le> length bs \<Longrightarrow>
   decodeAscii bs i n = Inr t \<longleftrightarrow> is_ascii (take n (drop i bs)) \<and> t = latin1 (take n (drop i bs))"
proof (induction bs i n arbitrary: t rule: decodeAscii.induct)
  case (1 bs i)
  then show ?case by auto
next
  case (2 bs i n)
  then have "drop i bs = bs ! i # drop (Suc i) bs" by (simp add: Cons_nth_drop_Suc)
  with 2 show ?case by (auto simp: at_def bindE_Inr_iff not_le [symmetric])
qed

lemma decodeAscii_ascii:
  "i + n \<le> length bs \<Longrightarrow> is_ascii (take n (drop i bs)) \<Longrightarrow>
   decodeAscii bs i n = Inr (latin1 (take n (drop i bs)))"
  by (simp add: decodeAscii_Inr_iff)

lemma isDigit_fromCharCode [simp]: "isDigit (fromCharCode b) \<longleftrightarrow> isDigit b"
  by (simp add: isDigit_def word_le_nat_alt)

text \<open>ASCII digits of a number, as bytes.\<close>

definition decimal_bytes :: "nat \<Rightarrow> byte list" where
  "decimal_bytes n = map ucast (decimal n)"

lemma ucast_digit: "isDigit (c :: code_unit) \<Longrightarrow> fromCharCode (ucast c) = c \<and> isDigit (ucast c :: byte)"
proof -
  assume "isDigit c"
  then have "unat c < 256" by (simp add: isDigit_def word_le_nat_alt)
  then have c: "unat (ucast c :: byte) = unat c"
    by (simp add: unsigned_ucast_eq take_bit_nat_eq_self)
  then have "unat (fromCharCode (ucast c)) = unat c" by simp
  moreover have "isDigit (ucast c :: byte)"
    using \<open>isDigit c\<close> c by (simp add: isDigit_def word_le_nat_alt)
  ultimately show ?thesis by (simp add: word_unat_eq_iff)
qed

lemma latin1_decimal_bytes [simp]: "latin1 (decimal_bytes n) = decimal n"
proof -
  have "\<forall>c\<in>set (decimal n). fromCharCode (ucast c) = c"
    using decimal_all_digits [of n] by (auto simp: all_digits_def list_all_iff dest: ucast_digit)
  then show ?thesis by (simp add: latin1_def decimal_bytes_def comp_def map_idI)
qed

lemma isDigit_ascii: "isDigit (b :: byte) \<Longrightarrow> b \<le> 0x7f \<and> b \<noteq> 0x20 \<and> b \<noteq> 0 \<and> b \<noteq> 0x0a"
  unfolding isDigit_def by unat_arith

lemma decimal_bytes_digits: "decimal_bytes n \<noteq> []" "list_all isDigit (decimal_bytes n)"
  using decimal_all_digits [of n]
  by (auto simp: decimal_bytes_def all_digits_def list_all_iff dest: ucast_digit)

lemma decimal_bytes_field:
  "decimal_bytes n \<noteq> [] \<and> is_ascii (decimal_bytes n) \<and> 0x20 \<notin> set (decimal_bytes n) \<and>
   0 \<notin> set (decimal_bytes n) \<and> 0x0a \<notin> set (decimal_bytes n)"
  using decimal_bytes_digits [of n] by (auto simp: is_ascii_def list_all_iff dest!: isDigit_ascii)

text \<open>Object names: 40 or 64 lowercase hexadecimal digits.\<close>

definition isObjectName :: "jsstring \<Rightarrow> bool" where
  "isObjectName text \<longleftrightarrow> (length text = 40 \<or> length text = 64) \<and> list_all isHexDigit text"

datatype object_format = Sha1 | Sha256

fun oidLengthForFormat :: "object_format \<Rightarrow> nat" where
  "oidLengthForFormat Sha256 = 64"
| "oidLengthForFormat Sha1 = 40"

text \<open>\<^verbatim>\<open>concatBytes\<close>: sum the lengths, then copy each chunk at its offset.\<close>

definition set_at :: "byte list \<Rightarrow> byte list \<Rightarrow> nat \<Rightarrow> byte list" where
  "set_at target src offset = take offset target @ src @ drop (offset + length src) target"

fun copy_chunks :: "byte list list \<Rightarrow> nat \<Rightarrow> byte list \<Rightarrow> byte list" where
  "copy_chunks [] offset merged = merged"
| "copy_chunks (c # cs) offset merged = copy_chunks cs (offset + length c) (set_at merged c offset)"

definition concatBytes :: "byte list list \<Rightarrow> byte list" where
  "concatBytes chunks = copy_chunks chunks 0 (replicate (sum_list (map length chunks)) 0)"

lemma copy_chunks_append:
  "copy_chunks cs (length pre) (pre @ replicate (sum_list (map length cs)) 0) = pre @ concat cs"
proof (induction cs arbitrary: pre)
  case (Cons c cs)
  have "set_at (pre @ replicate (sum_list (map length (c # cs))) 0) c (length pre)
      = (pre @ c) @ replicate (sum_list (map length cs)) 0"
    by (simp add: set_at_def)
  with Cons [of "pre @ c"] show ?case by simp
qed simp

lemma concatBytes_concat [simp]: "concatBytes chunks = concat chunks"
  using copy_chunks_append [of chunks "[]"] by (simp add: concatBytes_def)

fun bytesEqual_from :: "byte list \<Rightarrow> byte list \<Rightarrow> bool" where
  "bytesEqual_from (x # xs) (y # ys) = (if x \<noteq> y then False else bytesEqual_from xs ys)"
| "bytesEqual_from _ _ = True"

definition bytesEqual :: "byte list \<Rightarrow> byte list \<Rightarrow> bool" where
  "bytesEqual a b = (if length a \<noteq> length b then False else bytesEqual_from a b)"

lemma bytesEqual_iff: "bytesEqual a b \<longleftrightarrow> a = b"
proof -
  have "length a = length b \<Longrightarrow> bytesEqual_from a b \<longleftrightarrow> a = b"
    by (induction a b rule: list_induct2) auto
  then show ?thesis by (auto simp: bytesEqual_def)
qed

section \<open>Splitting on a separator byte\<close>

text \<open>
  The scanning loop every splitter of the package runs: \<open>acc\<close> holds the bytes since \<^verbatim>\<open>start\<close>;
  a separator closes the piece. The result is the closed pieces and the bytes left over.
\<close>

fun split_loop :: "byte \<Rightarrow> byte list \<Rightarrow> byte list \<Rightarrow> byte list list \<times> byte list" where
  "split_loop sep acc [] = ([], acc)"
| "split_loop sep acc (b # bs) =
     (if b = sep then (let (parts, rest) = split_loop sep [] bs in (acc # parts, rest))
      else split_loop sep (acc @ [b]) bs)"

definition splitOnByte :: "byte \<Rightarrow> byte list \<Rightarrow> byte list list" where
  "splitOnByte sep bytes =
     (let (parts, rest) = split_loop sep [] bytes in if rest \<noteq> [] then parts @ [rest] else parts)"

lemma split_loop_append:
  "split_loop sep acc (xs @ ys) =
     (let (ps, t) = split_loop sep acc xs; (qs, u) = split_loop sep t ys in (ps @ qs, u))"
  by (induction sep acc xs rule: split_loop.induct) (auto split: prod.splits)

lemma split_loop_no_sep: "sep \<notin> set xs \<Longrightarrow> split_loop sep acc xs = ([], acc @ xs)"
  by (induction sep acc xs rule: split_loop.induct) auto

lemma split_loop_piece [simp]:
  "sep \<notin> set xs \<Longrightarrow> split_loop sep acc (xs @ sep # ys) =
     (let (ps, t) = split_loop sep [] ys in ((acc @ xs) # ps, t))"
  by (simp add: split_loop_append split_loop_no_sep split: prod.split)

lemma split_loop_sound:
  "split_loop sep acc bs = (ps, t) \<Longrightarrow> sep \<notin> set acc \<Longrightarrow>
   acc @ bs = concat (map (\<lambda>p. p @ [sep]) ps) @ t \<and> (\<forall>p\<in>set ps. sep \<notin> set p) \<and> sep \<notin> set t"
proof (induction sep acc bs arbitrary: ps t rule: split_loop.induct)
  case (1 sep acc)
  then show ?case by auto
next
  case (2 sep acc b bs)
  show ?case
  proof (cases "b = sep")
    case True
    obtain qs u where q: "split_loop sep [] bs = (qs, u)" by fastforce
    with 2 True show ?thesis by auto
  next
    case False
    with 2 show ?thesis by auto
  qed
qed

lemma split_loop_complete:
  "\<forall>p\<in>set ps. sep \<notin> set p \<Longrightarrow> sep \<notin> set t \<Longrightarrow>
   split_loop sep [] (concat (map (\<lambda>p. p @ [sep]) ps) @ t) = (ps, t)"
  by (induction ps) (auto simp: split_loop_no_sep)

section \<open>Incremental decoders\<close>

text \<open>
  A caller feeds the chunks it reads, in order, and collects what each push returned; a throw
  ends the run.
\<close>

fun feed :: "('s \<Rightarrow> 'b list \<Rightarrow> 'e + 's \<times> 'o list) \<Rightarrow> 's \<Rightarrow> 'b list list \<Rightarrow> 'e + 's \<times> 'o list" where
  "feed push s [] = Inr (s, [])"
| "feed push s (c # cs) =
     bindE (push s c) (\<lambda>(t, xs). bindE (feed push t cs) (\<lambda>(u, ys). Inr (u, xs @ ys)))"

locale stream_decoder =
  fixes push :: "'s \<Rightarrow> 'b list \<Rightarrow> 'e + 's \<times> 'o list" and inv :: "'s \<Rightarrow> bool"
  assumes push_inv: "inv s \<Longrightarrow> push s bs = Inr (t, xs) \<Longrightarrow> inv t"
    and push_nil: "inv s \<Longrightarrow> push s [] = Inr (s, [])"
    and push_append: "inv s \<Longrightarrow> push s (bs @ cs) =
      bindE (push s bs) (\<lambda>(t, xs). bindE (push t cs) (\<lambda>(u, ys). Inr (u, xs @ ys)))"
begin

text \<open>How the stream was cut does not matter: neither to the output nor to a failure.\<close>

lemma feed_concat: "inv s \<Longrightarrow> feed push s chunks = push s (concat chunks)"
proof (induction chunks arbitrary: s)
  case Nil
  then show ?case by (simp add: push_nil)
next
  case (Cons c cs)
  show ?case
  proof (cases "push s c")
    case (Inl e)
    with Cons.prems show ?thesis by (simp add: push_append)
  next
    case (Inr p)
    obtain t xs where p: "p = (t, xs)" by fastforce
    with Inr Cons.prems have "inv t" by (auto intro: push_inv)
    then have "feed push t cs = push t (concat cs)" by (rule Cons.IH)
    with Inr p Cons.prems show ?thesis by (simp add: push_append)
  qed
qed

lemma feed_rechunk: "inv s \<Longrightarrow> concat cs = concat ds \<Longrightarrow> feed push s cs = feed push s ds"
  by (simp add: feed_concat)

lemma feed_inv: "inv s \<Longrightarrow> feed push s cs = Inr (t, xs) \<Longrightarrow> inv t"
  by (auto simp: feed_concat intro: push_inv)

end

section \<open>NUL-terminated frames\<close>

record framer =
  fr_format :: string
  fr_pending :: "byte list"

definition newFramer :: "string \<Rightarrow> framer" where
  "newFramer fmt = \<lparr>fr_format = fmt, fr_pending = []\<rparr>"

definition framer_combine :: "byte list \<Rightarrow> byte list \<Rightarrow> byte list" where
  "framer_combine left right =
     (if left = [] then right else if right = [] then left else concatBytes [left, right])"

definition framer_push :: "framer \<Rightarrow> byte list \<Rightarrow> framer \<times> byte list list" where
  "framer_push f chunk =
     (let combined = framer_combine (fr_pending f) chunk;
          (frames, rest) = split_loop 0 [] combined
      in (f\<lparr>fr_pending := rest\<rparr>, frames))"

definition framer_finish :: "framer \<Rightarrow> js_error + unit" where
  "framer_finish f =
     guardE (fr_pending f = [])
       (GitOutputParseError (fr_format f) ''stream ended after the last NUL terminator'' None)"

definition splitNulFrames :: "byte list \<Rightarrow> string \<Rightarrow> bool \<Rightarrow> js_error + byte list list" where
  "splitNulFrames bytes fmt requireTerminator =
     (let (framer, frames) = framer_push (newFramer fmt) bytes
      in if requireTerminator then bindE (framer_finish framer) (\<lambda>_. Inr frames) else Inr frames)"

lemma framer_combine_append [simp]: "framer_combine xs ys = xs @ ys"
  by (simp add: framer_combine_def)

text \<open>The pending bytes never hold a terminator: that is what makes pushes compose.\<close>

definition framer_inv :: "framer \<Rightarrow> bool" where
  "framer_inv f \<longleftrightarrow> 0 \<notin> set (fr_pending f)"

definition framer_step :: "framer \<Rightarrow> byte list \<Rightarrow> js_error + framer \<times> byte list list" where
  "framer_step f chunk = Inr (framer_push f chunk)"

lemma framer_push_eq:
  "framer_inv f \<Longrightarrow> framer_push f chunk =
     (let (frames, rest) = split_loop 0 (fr_pending f) chunk in (f\<lparr>fr_pending := rest\<rparr>, frames))"
  by (simp add: framer_push_def framer_inv_def split_loop_append split_loop_no_sep split: prod.split)

lemma framer_push_inv: "framer_push f chunk = (g, frames) \<Longrightarrow> framer_inv g"
  using split_loop_sound [of 0 "[]" "fr_pending f @ chunk"]
  by (auto simp: framer_push_def framer_inv_def Let_def split: prod.splits)

interpretation nul: stream_decoder framer_step framer_inv
proof
  fix f g :: framer and bs :: "byte list" and xs
  assume "framer_step f bs = Inr (g, xs)"
  then show "framer_inv g" by (auto simp: framer_step_def intro: framer_push_inv)
next
  fix f :: framer assume "framer_inv f"
  then show "framer_step f [] = Inr (f, [])"
    by (simp add: framer_step_def framer_push_eq)
next
  fix f :: framer and bs cs :: "byte list" assume inv: "framer_inv f"
  obtain g xs where g: "framer_push f bs = (g, xs)" by fastforce
  then have "framer_inv g" by (rule framer_push_inv)
  with inv g show "framer_step f (bs @ cs) =
      bindE (framer_step f bs) (\<lambda>(t, xs). bindE (framer_step t cs) (\<lambda>(u, ys). Inr (u, xs @ ys)))"
    by (auto simp: framer_step_def framer_push_eq split_loop_append split: prod.splits)
qed

lemma splitNulFrames_Inr_iff:
  "splitNulFrames bs fmt True = Inr fs \<longleftrightarrow>
     bs = concat (map (\<lambda>f. f @ [0]) fs) \<and> (\<forall>f\<in>set fs. 0 \<notin> set f)"
proof
  assume "splitNulFrames bs fmt True = Inr fs"
  then have "split_loop 0 [] bs = (fs, [])"
    by (auto simp: splitNulFrames_def framer_push_def newFramer_def framer_finish_def split: prod.splits)
  then show "bs = concat (map (\<lambda>f. f @ [0]) fs) \<and> (\<forall>f\<in>set fs. 0 \<notin> set f)"
    by (auto dest: split_loop_sound)
next
  assume "bs = concat (map (\<lambda>f. f @ [0]) fs) \<and> (\<forall>f\<in>set fs. 0 \<notin> set f)"
  then have "split_loop 0 [] bs = (fs, [])"
    using split_loop_complete [of fs 0 "[]"] by simp
  then show "splitNulFrames bs fmt True = Inr fs"
    by (simp add: splitNulFrames_def framer_push_def newFramer_def framer_finish_def)
qed

end
