(* ===== verification/Reader.thy ===== *)
theory Reader
  imports Bytes
begin

text \<open>
  The class \<^verbatim>\<open>FrameReader\<close> of \<^verbatim>\<open>packages/git-core/src/bytes/nul-framing.ts\<close>: positional reading
  of one record. Each method is a function from the reader to a thrown error or a value with the
  advanced reader. \<open>reader_at fmt pre rest\<close> is a reader that has consumed \<open>pre\<close> and still
  holds \<open>rest\<close>; the \<open>reader_simps\<close> evaluate every method on it.
\<close>

named_theorems reader_simps

record reader =
  rd_bytes :: "byte list"
  rd_format :: string
  rd_offset :: nat

type_synonym 'a read = "reader \<Rightarrow> js_error + 'a \<times> reader"

definition newReader :: "byte list \<Rightarrow> string \<Rightarrow> nat \<Rightarrow> nat \<Rightarrow> reader" where
  "newReader bytes fmt offset end =
     \<lparr>rd_bytes = (if offset = 0 \<and> end = length bytes then bytes else subarray bytes offset end),
      rd_format = fmt, rd_offset = 0\<rparr>"

definition remaining :: "reader \<Rightarrow> nat" where
  "remaining r = length (rd_bytes r) - rd_offset r"

definition exhausted :: "reader \<Rightarrow> bool" where
  "exhausted r \<longleftrightarrow> remaining r = 0"

definition rest :: "reader \<Rightarrow> byte list" where
  "rest r = drop (rd_offset r) (rd_bytes r)"

definition fail :: "reader \<Rightarrow> string \<Rightarrow> js_error" where
  "fail r msg = GitOutputParseError (rd_format r) msg (Some (rd_offset r))"

definition expectSpace :: "unit read" where
  "expectSpace r =
     (if at (rd_bytes r) (rd_offset r) \<noteq> Some 0x20 then Inl (fail r ''expected a space separator'')
      else Inr ((), r\<lparr>rd_offset := rd_offset r + 1\<rparr>))"

text \<open>The inner loop of \<^verbatim>\<open>takeField\<close> and \<^verbatim>\<open>takeUntil\<close>: the end of the run without \<open>sep\<close>.\<close>

function scan_until :: "byte \<Rightarrow> byte list \<Rightarrow> nat \<Rightarrow> nat" where
  "scan_until sep bytes end =
     (if end < length bytes \<and> bytes ! end \<noteq> sep then scan_until sep bytes (end + 1) else end)"
  by pat_completeness auto
termination
  by (relation "measure (\<lambda>(sep, bytes, end). length bytes - end)") auto

declare scan_until.simps [simp del]

definition takeField :: "jsstring read" where
  "takeField r =
     (let start = rd_offset r; end = scan_until 0x20 (rd_bytes r) start
      in if end = start then Inl (fail r ''expected a field but found a separator'')
         else bindE (decodeAscii (rd_bytes r) start (end - start)) (\<lambda>field.
              Inr (field, r\<lparr>rd_offset := end\<rparr>)))"

definition takeUntil :: "byte \<Rightarrow> byte list read" where
  "takeUntil separator r =
     (let start = rd_offset r; end = scan_until separator (rd_bytes r) start
      in Inr (subarray (rd_bytes r) start end, r\<lparr>rd_offset := end\<rparr>))"

definition expectByte :: "byte \<Rightarrow> string \<Rightarrow> unit read" where
  "expectByte expected name r =
     (if at (rd_bytes r) (rd_offset r) \<noteq> Some expected then Inl (fail r (''expected '' @ name))
      else Inr ((), r\<lparr>rd_offset := rd_offset r + 1\<rparr>))"

definition takeBytes :: "nat \<Rightarrow> byte list read" where
  "takeBytes count r =
     (if remaining r < count then Inl (fail r ''expected more bytes'')
      else Inr (subarray (rd_bytes r) (rd_offset r) (rd_offset r + count),
                r\<lparr>rd_offset := rd_offset r + count\<rparr>))"

definition takeFixedString :: "nat \<Rightarrow> jsstring read" where
  "takeFixedString count r =
     bindE (takeBytes count r) (\<lambda>(bytes, r).
     bindE (decodeAscii bytes 0 count) (\<lambda>text. Inr (text, r)))"

definition takeRest :: "byte list read" where
  "takeRest r = Inr (rest r, r\<lparr>rd_offset := length (rd_bytes r)\<rparr>)"

definition takeRestAscii :: "jsstring read" where
  "takeRestAscii r =
     bindE (takeRest r) (\<lambda>(bytes, r).
     bindE (decodeAscii bytes 0 (length bytes)) (\<lambda>text. Inr (text, r)))"

definition takeNumber :: "jsnumber read" where
  "takeNumber r =
     bindE (takeField r) (\<lambda>(field, r).
     if field = [] then Inl (fail r ''expected a number'')
     else if \<not> list_all isDigit field then Inl (fail r ''expected a decimal number'')
     else Inr (parseInt10 field, r))"

definition takeOid :: "jsstring read" where
  "takeOid r =
     bindE (takeField r) (\<lambda>(field, r).
     if \<not> isObjectName field then Inl (fail r ''expected a Git object name'')
     else Inr (field, r))"

section \<open>The contract of a reader method\<close>

definition reader_wf :: "reader \<Rightarrow> bool" where
  "reader_wf r \<longleftrightarrow> rd_offset r \<le> length (rd_bytes r)"

locale reader_op =
  fixes op :: "'a read"
  assumes op_wf: "reader_wf r \<Longrightarrow> op r = Inr (x, r') \<Longrightarrow> reader_wf r'"
    and op_frame: "reader_wf r \<Longrightarrow> op r = Inr (x, r') \<Longrightarrow>
      rd_bytes r' = rd_bytes r \<and> rd_format r' = rd_format r"
    and op_forward: "reader_wf r \<Longrightarrow> op r = Inr (x, r') \<Longrightarrow> rd_offset r \<le> rd_offset r'"
begin

text \<open>What is left after a method is a suffix of what was left before it.\<close>

lemma op_suffix:
  assumes "reader_wf r" and "op r = Inr (x, r')"
  shows "suffix (rest r') (rest r)"
proof -
  have "rest r' = drop (rd_offset r' - rd_offset r) (rest r)"
    using op_frame [OF assms] op_forward [OF assms] by (simp add: rest_def)
  then show ?thesis by (simp add: suffix_drop)
qed

lemma op_bytes: "reader_wf r \<Longrightarrow> op r = Inr (x, r') \<Longrightarrow> set (rest r') \<subseteq> set (rest r)"
  by (meson op_suffix set_mono_suffix)

end

text \<open>A reader that has only taken bytes off the front of \<open>X\<close>.\<close>

definition inside :: "byte list \<Rightarrow> reader \<Rightarrow> bool" where
  "inside X r \<longleftrightarrow> reader_wf r \<and> suffix (rest r) X"

lemma inside_suffix: "inside X r \<Longrightarrow> suffix (rest r) X"
  by (simp add: inside_def)

context reader_op
begin

lemma op_inside: "op r = Inr (x, r') \<Longrightarrow> inside X r \<Longrightarrow> inside X r'"
  unfolding inside_def using op_wf op_suffix suffix_order.trans by blast

lemma op_vc: "inside X r \<Longrightarrow> okE (op r) (\<lambda>(x, r'). inside X r')"
  by (rule okEI) (auto dest: op_inside)

end

text \<open>Sequencing two methods keeps the contract.\<close>

lemma reader_op_bind:
  assumes p: "reader_op p" and q: "\<And>x. reader_op (q x)"
  shows "reader_op (\<lambda>r. bindE (p r) (\<lambda>(x, r). q x r))"
proof
  fix r y r'' assume wf: "reader_wf r"
    and run: "bindE (p r) (\<lambda>(x, r). q x r) = Inr (y, r'')"
  obtain x r' where step: "p r = Inr (x, r')" "q x r' = Inr (y, r'')"
    using run by (auto split: prod.splits)
  note wf' = reader_op.op_wf [OF p wf step(1)]
  show "reader_wf r''"
    by (rule reader_op.op_wf [OF q wf' step(2)])
  show "rd_bytes r'' = rd_bytes r \<and> rd_format r'' = rd_format r"
    using reader_op.op_frame [OF q wf' step(2)] reader_op.op_frame [OF p wf step(1)] by simp
  show "rd_offset r \<le> rd_offset r''"
    using reader_op.op_forward [OF q wf' step(2)] reader_op.op_forward [OF p wf step(1)] by simp
qed

section \<open>Every method keeps the contract\<close>

lemma scan_until_takeWhile:
  "i \<le> length bs \<Longrightarrow> scan_until sep bs i = i + length (takeWhile (\<lambda>b. b \<noteq> sep) (drop i bs))"
proof (induction sep bs i rule: scan_until.induct)
  case (1 sep bs i)
  show ?case
  proof (cases "i < length bs \<and> bs ! i \<noteq> sep")
    case True
    then have "drop i bs = bs ! i # drop (i + 1) bs" by (simp add: Cons_nth_drop_Suc)
    with True 1 show ?thesis by (subst scan_until.simps) auto
  next
    case False
    then show ?thesis
    proof (cases "i < length bs")
      case True
      then have "drop i bs = bs ! i # drop (i + 1) bs" by (simp add: Cons_nth_drop_Suc)
      with True False show ?thesis by (subst scan_until.simps) auto
    next
      case False
      with 1 show ?thesis by (subst scan_until.simps) auto
    qed
  qed
qed

lemma scan_until_bounds:
  "i \<le> length bs \<Longrightarrow> i \<le> scan_until sep bs i \<and> scan_until sep bs i \<le> length bs"
  using length_takeWhile_le [of "\<lambda>b. b \<noteq> sep" "drop i bs"] by (simp add: scan_until_takeWhile)

interpretation expectSpace: reader_op expectSpace
  by unfold_locales (auto simp: expectSpace_def reader_wf_def at_def split: if_splits)

interpretation expectByte: reader_op "expectByte b name" for b name
  by unfold_locales (auto simp: expectByte_def reader_wf_def at_def split: if_splits)

interpretation takeField: reader_op takeField
  by unfold_locales
    (auto simp: takeField_def reader_wf_def Let_def scan_until_bounds split: if_splits)

interpretation takeUntil: reader_op "takeUntil sep" for sep
  by unfold_locales
    (auto simp: takeUntil_def reader_wf_def Let_def scan_until_bounds split: if_splits)

interpretation takeBytes: reader_op "takeBytes n" for n
  by unfold_locales (auto simp: takeBytes_def reader_wf_def remaining_def split: if_splits)

interpretation takeRest: reader_op takeRest
  by unfold_locales (auto simp: takeRest_def reader_wf_def)

lemma reader_op_pure: "reader_op (\<lambda>r. bindE (f x) (\<lambda>y. Inr (y, r)))"
  by unfold_locales auto

interpretation takeFixedString: reader_op "takeFixedString n" for n
  unfolding takeFixedString_def
  by (rule reader_op_bind [OF takeBytes.reader_op_axioms reader_op_pure])

interpretation takeRestAscii: reader_op takeRestAscii
  unfolding takeRestAscii_def
  by (rule reader_op_bind [OF takeRest.reader_op_axioms reader_op_pure])

interpretation takeNumber: reader_op takeNumber
proof -
  have "reader_op (\<lambda>r. if field = [] then Inl (fail r ''expected a number'')
     else if \<not> list_all isDigit field then Inl (fail r ''expected a decimal number'')
     else Inr (parseInt10 field, r))" for field
    by unfold_locales (auto split: if_splits)
  then show "reader_op takeNumber"
    unfolding takeNumber_def by (rule reader_op_bind [OF takeField.reader_op_axioms])
qed

interpretation takeOid: reader_op takeOid
proof -
  have "reader_op (\<lambda>r. if \<not> isObjectName field then Inl (fail r ''expected a Git object name'')
     else Inr (field, r))" for field
    by unfold_locales (auto split: if_splits)
  then show "reader_op takeOid"
    unfolding takeOid_def by (rule reader_op_bind [OF takeField.reader_op_axioms])
qed

section \<open>Evaluating the methods\<close>

definition reader_at :: "string \<Rightarrow> byte list \<Rightarrow> byte list \<Rightarrow> reader" where
  "reader_at fmt pre later = \<lparr>rd_bytes = pre @ later, rd_format = fmt, rd_offset = length pre\<rparr>"

lemma newReader_at [reader_simps]: "newReader bs fmt 0 (length bs) = reader_at fmt [] bs"
  by (simp add: newReader_def reader_at_def)

lemma rest_at [reader_simps]: "rest (reader_at fmt pre later) = later"
  by (simp add: rest_def reader_at_def)

lemma reader_wf_at [simp]: "reader_wf (reader_at fmt pre later)"
  by (simp add: reader_wf_def reader_at_def)

lemma expectSpace_at [reader_simps]:
  "expectSpace (reader_at fmt pre (0x20 # later)) = Inr ((), reader_at fmt (pre @ [0x20]) later)"
  by (simp add: expectSpace_def reader_at_def)

lemma expectByte_at [reader_simps]:
  "expectByte b name (reader_at fmt pre (b # later)) = Inr ((), reader_at fmt (pre @ [b]) later)"
  by (simp add: expectByte_def reader_at_def)

lemma takeBytes_at [reader_simps]:
  "n \<le> length later \<Longrightarrow>
   takeBytes n (reader_at fmt pre later) = Inr (take n later, reader_at fmt (pre @ take n later) (drop n later))"
  by (simp add: takeBytes_def reader_at_def remaining_def subarray_def)

lemma takeFixedString_at [reader_simps]:
  "n \<le> length later \<Longrightarrow> is_ascii (take n later) \<Longrightarrow>
   takeFixedString n (reader_at fmt pre later) =
     Inr (latin1 (take n later), reader_at fmt (pre @ take n later) (drop n later))"
  by (simp add: takeFixedString_def takeBytes_at decodeAscii_ascii min_def)

lemma takeUntil_at [reader_simps]:
  "takeUntil sep (reader_at fmt pre later) =
     (let v = takeWhile (\<lambda>b. b \<noteq> sep) later
      in Inr (v, reader_at fmt (pre @ v) (dropWhile (\<lambda>b. b \<noteq> sep) later)))"
  by (simp add: takeUntil_def reader_at_def scan_until_takeWhile subarray_def Let_def
      takeWhile_eq_take [symmetric])

lemma takeField_at [reader_simps]:
  "xs \<noteq> [] \<Longrightarrow> 0x20 \<notin> set xs \<Longrightarrow> is_ascii xs \<Longrightarrow> later = [] \<or> hd later = 0x20 \<Longrightarrow>
   takeField (reader_at fmt pre (xs @ later)) = Inr (latin1 xs, reader_at fmt (pre @ xs) later)"
proof -
  assume xs: "xs \<noteq> []" "0x20 \<notin> set xs" "is_ascii xs" and later: "later = [] \<or> hd later = 0x20"
  have "takeWhile (\<lambda>b. b \<noteq> 0x20) (xs @ later) = xs"
    using xs later by (cases later) (auto simp: takeWhile_append)
  with xs show ?thesis
    by (simp add: takeField_def reader_at_def scan_until_takeWhile decodeAscii_ascii)
qed

lemma takeRest_at [reader_simps]:
  "takeRest (reader_at fmt pre later) = Inr (later, reader_at fmt (pre @ later) [])"
  by (simp add: takeRest_def reader_at_def rest_def)

lemma takeRestAscii_at [reader_simps]:
  "is_ascii later \<Longrightarrow>
   takeRestAscii (reader_at fmt pre later) = Inr (latin1 later, reader_at fmt (pre @ later) [])"
  by (simp add: takeRestAscii_def takeRest_at decodeAscii_ascii)

text \<open>An object name, as bytes and as the text it decodes to.\<close>

definition oid_bytes :: "byte list \<Rightarrow> bool" where
  "oid_bytes bs \<longleftrightarrow> (length bs = 40 \<or> length bs = 64) \<and> list_all isHexDigit bs"

lemma isHexDigit_fromCharCode [simp]: "isHexDigit (fromCharCode b) \<longleftrightarrow> isHexDigit b"
  by (simp add: isHexDigit_def isDigit_def word_le_nat_alt)

lemma isObjectName_latin1 [simp]: "isObjectName (latin1 bs) \<longleftrightarrow> oid_bytes bs"
  by (simp add: isObjectName_def oid_bytes_def latin1_def list_all_length)

lemma isHexDigit_ascii: "isHexDigit (b :: byte) \<Longrightarrow> b \<le> 0x7f \<and> b \<noteq> 0x20 \<and> b \<noteq> 0 \<and> b \<noteq> 0x0a"
  unfolding isHexDigit_def isDigit_def by unat_arith

lemma oid_bytes_field:
  "oid_bytes bs \<Longrightarrow> bs \<noteq> [] \<and> 0x20 \<notin> set bs \<and> 0 \<notin> set bs \<and> 0x0a \<notin> set bs \<and> is_ascii bs"
  by (auto simp: oid_bytes_def is_ascii_def list_all_iff dest!: isHexDigit_ascii)

lemma takeOid_at [reader_simps]:
  "oid_bytes xs \<Longrightarrow> later = [] \<or> hd later = 0x20 \<Longrightarrow>
   takeOid (reader_at fmt pre (xs @ later)) = Inr (latin1 xs, reader_at fmt (pre @ xs) later)"
  using oid_bytes_field [of xs] by (simp add: takeOid_def takeField_at)

lemma inside_at [simp]: "inside X (reader_at fmt pre later) \<longleftrightarrow> suffix later X"
  by (simp add: inside_def rest_at)

text \<open>The methods, as rules for the runs of a whole record parser.\<close>

lemmas reader_vc =
  expectSpace.op_vc expectByte.op_vc takeField.op_vc takeUntil.op_vc takeBytes.op_vc
  takeFixedString.op_vc takeRestAscii.op_vc takeNumber.op_vc

declare reader_vc [vc]

lemma takeRest_value: "takeRest r = Inr (v, r') \<Longrightarrow> v = rest r"
  by (simp add: takeRest_def)

lemma takeOid_vc [vc]: "inside X r \<Longrightarrow> okE (takeOid r) (\<lambda>(oid, r'). isObjectName oid \<and> inside X r')"
  by (rule okEI) (auto simp: takeOid_def split: if_splits prod.splits dest: takeField.op_inside)

lemma takeRest_vc [vc]: "inside X r \<Longrightarrow> okE (takeRest r) (\<lambda>(v, r'). suffix v X \<and> inside X r')"
  by (rule okEI) (auto dest: takeRest.op_inside takeRest_value simp: inside_suffix)

end
