(* ===== verification/Status.thy ===== *)
theory Status
  imports Reader
begin

text \<open>
  The parser of \<^verbatim>\<open>git status --porcelain=v2 --branch -z\<close>:
  \<^verbatim>\<open>packages/git-core/src/parse/status.ts\<close>. One definition per function of the file; the switch
  over the record type is \<open>status_loop\<close>, on the list of frames still to read, with the locals of
  \<^verbatim>\<open>parseStatus\<close> in the record \<open>status_state\<close>.
\<close>

section \<open>Data\<close>

datatype status_kind = Ordinary | Renamed | Copied | Unmerged | Untracked | Ignored

record unmerged_stage =
  us_stage :: nat
  us_mode :: jsstring
  us_oid :: jsstring

record status_modes =
  mode_head :: "jsstring option"
  mode_index :: "jsstring option"
  mode_worktree :: "jsstring option"

record status_oids =
  oid_head :: "jsstring option"
  oid_index :: "jsstring option"

record status_record =
  sr_kind :: status_kind
  sr_indexStatus :: jsstring
  sr_worktreeStatus :: jsstring
  sr_submoduleField :: jsstring
  sr_modes :: status_modes
  sr_oids :: status_oids
  sr_path :: "byte list"
  sr_originalPath :: "byte list option"
  sr_score :: "jsnumber option"
  sr_stages :: "unmerged_stage list"
  sr_commitChanged :: bool
  sr_modified :: bool
  sr_untracked :: bool

record status_branch =
  br_seen :: bool
  br_initial :: bool
  br_detached :: bool
  br_oid :: "jsstring option"
  br_head :: "jsstring option"

text \<open>The locals of \<^verbatim>\<open>parseStatus\<close>, which are also the fields of its result.\<close>

record status_state =
  ss_branch :: status_branch
  ss_upstream :: "jsstring option"
  ss_aheadBehind :: "(jsnumber \<times> jsnumber) option"
  ss_stashCount :: "jsnumber option"
  ss_records :: "status_record list"

definition STATUS_FORMAT :: string where
  "STATUS_FORMAT = ''status --porcelain=v2 -z''"

definition statusMaxEntries :: nat where
  "statusMaxEntries = 100000"

section \<open>Fields\<close>

definition readSignedCount :: "jsstring \<Rightarrow> jsstring \<Rightarrow> js_error + jsnumber" where
  "readSignedCount field sign =
     (if \<not> startsWith field sign
      then Inl (GitOutputParseError STATUS_FORMAT ''expected a signed count'' None)
      else let digits = drop 1 field
           in if \<not> list_all isDigit digits
              then Inl (GitOutputParseError STATUS_FORMAT ''expected a count after the sign'' None)
              else Inr (parseInt10 digits))"

definition parseCommonFields :: "(jsstring \<times> jsstring) read" where
  "parseCommonFields r =
     bindE (takeFixedString 2 r) (\<lambda>(xy, r).
     Inr ((case at xy 0 of Some c \<Rightarrow> [c] | None \<Rightarrow> str ''.'',
           case at xy 1 of Some c \<Rightarrow> [c] | None \<Rightarrow> str ''.''), r))"

text \<open>\<^verbatim>\<open>/^0+$/\<close>\<close>

definition all_zero :: "jsstring \<Rightarrow> bool" where
  "all_zero s \<longleftrightarrow> s \<noteq> [] \<and> list_all (\<lambda>c. c = 0x30) s"

definition readZeroedOid :: "jsstring \<Rightarrow> jsstring option" where
  "readZeroedOid value = (if all_zero value then None else Some value)"

definition decodeMode :: "byte list \<Rightarrow> jsstring option" where
  "decodeMode bytes = (let text = latin1 bytes in if all_zero text then None else Some text)"

definition submoduleFlags :: "jsstring \<Rightarrow> bool \<times> bool \<times> bool" where
  "submoduleFlags sub =
     (if length sub \<noteq> 4 \<or> at sub 0 \<noteq> Some (of_char CHR ''S'') then (False, False, False)
      else (at sub 1 = Some (of_char CHR ''C''),
            at sub 2 = Some (of_char CHR ''M''),
            at sub 3 = Some (of_char CHR ''U'')))"

definition frame_reader :: "byte list \<Rightarrow> reader" where
  "frame_reader frame = (let b = drop 1 frame in newReader b STATUS_FORMAT 0 (length b))"

definition empty_path_error :: "string \<Rightarrow> js_error" where
  "empty_path_error what = GitOutputParseError STATUS_FORMAT (what @ '' has an empty path'') None"

section \<open>Records\<close>

definition parseOrdinary :: "byte list \<Rightarrow> js_error + status_record" where
  "parseOrdinary frame =
     bindE (expectSpace (frame_reader frame)) (\<lambda>(_, r).
     bindE (parseCommonFields r) (\<lambda>((indexStatus, worktreeStatus), r).
     bindE (expectSpace r) (\<lambda>(_, r).
     bindE (takeFixedString 4 r) (\<lambda>(sub, r).
     bindE (expectSpace r) (\<lambda>(_, r).
     bindE (takeBytes 6 r) (\<lambda>(modeHead, r).
     bindE (expectSpace r) (\<lambda>(_, r).
     bindE (takeBytes 6 r) (\<lambda>(modeIndex, r).
     bindE (expectSpace r) (\<lambda>(_, r).
     bindE (takeBytes 6 r) (\<lambda>(modeWorktree, r).
     bindE (expectSpace r) (\<lambda>(_, r).
     bindE (takeOid r) (\<lambda>(headOid, r).
     bindE (expectSpace r) (\<lambda>(_, r).
     bindE (takeOid r) (\<lambda>(indexOid, r).
     bindE (expectSpace r) (\<lambda>(_, r).
     bindE (takeRest r) (\<lambda>(path, r).
     if path = [] then Inl (empty_path_error ''ordinary entry'')
     else let (commitChanged, modified, untracked) = submoduleFlags sub
          in Inr \<lparr>sr_kind = Ordinary, sr_indexStatus = indexStatus, sr_worktreeStatus = worktreeStatus,
               sr_submoduleField = sub,
               sr_modes = \<lparr>mode_head = decodeMode modeHead, mode_index = decodeMode modeIndex,
                           mode_worktree = decodeMode modeWorktree\<rparr>,
               sr_oids = \<lparr>oid_head = readZeroedOid headOid, oid_index = readZeroedOid indexOid\<rparr>,
               sr_path = path, sr_originalPath = None, sr_score = None, sr_stages = [],
               sr_commitChanged = commitChanged, sr_modified = modified,
               sr_untracked = untracked\<rparr>))))))))))))))))"

text \<open>The \<^verbatim>\<open>for (;;)\<close> loop that reads the similarity score up to the next space.\<close>

function score_loop :: "jsstring \<Rightarrow> jsstring read" where
  "score_loop scoreText r =
     (case rest r of
        [] \<Rightarrow> Inr (scoreText, r)
      | b # _ \<Rightarrow>
          if b = 0x20 then Inr (scoreText, r)
          else bindE (takeBytes 1 r) (\<lambda>(_, r). score_loop (scoreText @ [fromCharCode b]) r))"
  by pat_completeness auto
termination
  by (relation "measure (\<lambda>(t, r). remaining r)")
    (auto simp: takeBytes_def remaining_def rest_def split: if_splits)

declare score_loop.simps [simp del]

definition parseRename :: "byte list \<Rightarrow> byte list \<Rightarrow> js_error + status_record" where
  "parseRename frame originalFrame =
     bindE (expectSpace (frame_reader frame)) (\<lambda>(_, r).
     bindE (parseCommonFields r) (\<lambda>((indexStatus, worktreeStatus), r).
     bindE (expectSpace r) (\<lambda>(_, r).
     bindE (takeFixedString 4 r) (\<lambda>(sub, r).
     bindE (expectSpace r) (\<lambda>(_, r).
     bindE (takeBytes 6 r) (\<lambda>(modeHead, r).
     bindE (expectSpace r) (\<lambda>(_, r).
     bindE (takeBytes 6 r) (\<lambda>(modeIndex, r).
     bindE (expectSpace r) (\<lambda>(_, r).
     bindE (takeBytes 6 r) (\<lambda>(modeWorktree, r).
     bindE (expectSpace r) (\<lambda>(_, r).
     bindE (takeOid r) (\<lambda>(headOid, r).
     bindE (expectSpace r) (\<lambda>(_, r).
     bindE (takeOid r) (\<lambda>(indexOid, r).
     bindE (expectSpace r) (\<lambda>(_, r).
     bindE (takeFixedString 1 r) (\<lambda>(scoreKind, r).
     bindE (score_loop [] r) (\<lambda>(scoreText, r).
     if scoreText = []
     then Inl (GitOutputParseError STATUS_FORMAT ''rename/copy entry has no similarity score'' None)
     else
     bindE (expectSpace r) (\<lambda>(_, r).
     bindE (takeRest r) (\<lambda>(path, r).
     if path = [] then Inl (empty_path_error ''rename/copy entry'')
     else if originalFrame = []
     then Inl (GitOutputParseError STATUS_FORMAT ''rename/copy entry has an empty original path'' None)
     else let (commitChanged, modified, untracked) = submoduleFlags sub
          in Inr \<lparr>sr_kind = (if scoreKind = str ''C'' then Copied else Renamed),
               sr_indexStatus = indexStatus, sr_worktreeStatus = worktreeStatus,
               sr_submoduleField = sub,
               sr_modes = \<lparr>mode_head = decodeMode modeHead, mode_index = decodeMode modeIndex,
                           mode_worktree = decodeMode modeWorktree\<rparr>,
               sr_oids = \<lparr>oid_head = readZeroedOid headOid, oid_index = readZeroedOid indexOid\<rparr>,
               sr_path = path, sr_originalPath = Some originalFrame,
               sr_score = Some (parseInt10 scoreText), sr_stages = [],
               sr_commitChanged = commitChanged, sr_modified = modified,
               sr_untracked = untracked\<rparr>)))))))))))))))))))"

text \<open>The two loops over the three stages of an unmerged entry.\<close>

fun read_stage_modes :: "nat \<Rightarrow> jsstring list read" where
  "read_stage_modes 0 r = Inr ([], r)"
| "read_stage_modes (Suc n) r =
     bindE (takeBytes 6 r) (\<lambda>(b, r).
     bindE (expectSpace r) (\<lambda>(_, r).
     bindE (read_stage_modes n r) (\<lambda>(ms, r).
     Inr ((case decodeMode b of Some m \<Rightarrow> m | None \<Rightarrow> str ''000000'') # ms, r))))"

fun read_stage_oids :: "nat \<Rightarrow> jsstring list read" where
  "read_stage_oids 0 r = Inr ([], r)"
| "read_stage_oids (Suc n) r =
     bindE (takeOid r) (\<lambda>(oid, r).
     bindE (expectSpace r) (\<lambda>(_, r).
     bindE (read_stage_oids n r) (\<lambda>(os, r). Inr (oid # os, r))))"

fun collect_stages :: "nat \<Rightarrow> jsstring list \<Rightarrow> jsstring list \<Rightarrow> unmerged_stage list" where
  "collect_stages stage (m # ms) (oid # os) =
     (if m = str ''000000'' then collect_stages (stage + 1) ms os
      else \<lparr>us_stage = stage, us_mode = m, us_oid = oid\<rparr> # collect_stages (stage + 1) ms os)"
| "collect_stages stage _ _ = []"

definition parseUnmerged :: "byte list \<Rightarrow> js_error + status_record" where
  "parseUnmerged frame =
     bindE (expectSpace (frame_reader frame)) (\<lambda>(_, r).
     bindE (parseCommonFields r) (\<lambda>((indexStatus, worktreeStatus), r).
     bindE (expectSpace r) (\<lambda>(_, r).
     bindE (takeFixedString 4 r) (\<lambda>(sub, r).
     bindE (expectSpace r) (\<lambda>(_, r).
     bindE (read_stage_modes 3 r) (\<lambda>(stageModes, r).
     bindE (takeBytes 6 r) (\<lambda>(worktreeMode, r).
     bindE (expectSpace r) (\<lambda>(_, r).
     bindE (read_stage_oids 3 r) (\<lambda>(oids, r).
     bindE (takeRest r) (\<lambda>(path, r).
     if path = [] then Inl (empty_path_error ''unmerged entry'')
     else Inr \<lparr>sr_kind = Unmerged, sr_indexStatus = indexStatus, sr_worktreeStatus = worktreeStatus,
               sr_submoduleField = sub,
               sr_modes = \<lparr>mode_head = None, mode_index = None, mode_worktree = decodeMode worktreeMode\<rparr>,
               sr_oids = \<lparr>oid_head = None, oid_index = None\<rparr>,
               sr_path = path, sr_originalPath = None, sr_score = None,
               sr_stages = collect_stages 1 stageModes oids,
               sr_commitChanged = False, sr_modified = False, sr_untracked = False\<rparr>))))))))))"

definition parsePathOnly :: "byte list \<Rightarrow> status_kind \<Rightarrow> js_error + status_record" where
  "parsePathOnly frame kind =
     bindE (expectSpace (frame_reader frame)) (\<lambda>(_, r).
     bindE (takeRest r) (\<lambda>(path, r).
     if path = [] then Inl (empty_path_error (if kind = Untracked then ''untracked entry'' else ''ignored entry''))
     else let mark = (if kind = Untracked then str ''?'' else str ''!'')
          in Inr \<lparr>sr_kind = kind, sr_indexStatus = mark, sr_worktreeStatus = mark,
               sr_submoduleField = str ''N...'',
               sr_modes = \<lparr>mode_head = None, mode_index = None, mode_worktree = None\<rparr>,
               sr_oids = \<lparr>oid_head = None, oid_index = None\<rparr>,
               sr_path = path, sr_originalPath = None, sr_score = None, sr_stages = [],
               sr_commitChanged = False, sr_modified = False, sr_untracked = False\<rparr>))"

section \<open>The loop over the frames\<close>

definition parseHeader :: "byte list \<Rightarrow> status_state \<Rightarrow> js_error + status_state" where
  "parseHeader frame st =
     bindE (expectSpace (frame_reader frame)) (\<lambda>(_, header).
     bindE (takeField header) (\<lambda>(key, header).
     if key = str ''branch.oid'' then
       bindE (expectSpace header) (\<lambda>(_, header).
       bindE (takeRestAscii header) (\<lambda>(value, header).
       let initial = (value = str ''(initial)'')
       in Inr (st\<lparr>ss_branch := (ss_branch st)\<lparr>br_seen := True, br_initial := initial,
                    br_oid := (if initial then None else Some value)\<rparr>\<rparr>)))
     else if key = str ''branch.head'' then
       bindE (expectSpace header) (\<lambda>(_, header).
       bindE (takeRestAscii header) (\<lambda>(value, header).
       let detached = (value = str ''(detached)'')
       in Inr (st\<lparr>ss_branch := (ss_branch st)\<lparr>br_seen := True, br_detached := detached,
                    br_head := (if detached then None else Some value)\<rparr>\<rparr>)))
     else if key = str ''branch.upstream'' then
       bindE (expectSpace header) (\<lambda>(_, header).
       bindE (takeRestAscii header) (\<lambda>(value, header).
       Inr (st\<lparr>ss_upstream := Some value\<rparr>)))
     else if key = str ''branch.ab'' then
       bindE (expectSpace header) (\<lambda>(_, header).
       bindE (takeField header) (\<lambda>(a, header).
       bindE (readSignedCount a (str ''+'')) (\<lambda>ahead.
       bindE (expectSpace header) (\<lambda>(_, header).
       bindE (takeField header) (\<lambda>(b, header).
       bindE (readSignedCount b (str ''-'')) (\<lambda>behind.
       Inr (st\<lparr>ss_aheadBehind := Some (ahead, behind)\<rparr>)))))))
     else if key = str ''stash'' then
       bindE (expectSpace header) (\<lambda>(_, header).
       bindE (takeNumber header) (\<lambda>(n, header).
       Inr (st\<lparr>ss_stashCount := Some n\<rparr>)))
     else Inr st))"

definition push_record :: "status_record \<Rightarrow> status_state \<Rightarrow> status_state" where
  "push_record rec st = st\<lparr>ss_records := ss_records st @ [rec]\<rparr>"

definition status_overflow :: js_error where
  "status_overflow = GitOutputParseError STATUS_FORMAT ''status exceeded maxEntries entries'' None"

fun status_loop :: "nat \<Rightarrow> byte list list \<Rightarrow> status_state \<Rightarrow> js_error + status_state" where
  "status_loop maxEntries [] st = Inr st"
| "status_loop maxEntries (frame # frames) st =
     (if frame = [] then status_loop maxEntries frames st
      else if hd frame = 0x23 then
        bindE (parseHeader frame st) (\<lambda>st. status_loop maxEntries frames st)
      else if hd frame = 0x31 then
        (if maxEntries \<le> length (ss_records st) then Inl status_overflow
         else bindE (parseOrdinary frame) (\<lambda>rec. status_loop maxEntries frames (push_record rec st)))
      else if hd frame = 0x32 then
        (if maxEntries \<le> length (ss_records st) then Inl status_overflow
         else (case frames of
             [] \<Rightarrow> Inl (GitOutputParseError STATUS_FORMAT
                    ''rename record was not followed by its original path frame'' (Some (length frame)))
           | originalFrame # frames' \<Rightarrow>
               bindE (parseRename frame originalFrame) (\<lambda>rec.
                 status_loop maxEntries frames' (push_record rec st))))
      else if hd frame = 0x75 then
        (if maxEntries \<le> length (ss_records st) then Inl status_overflow
         else bindE (parseUnmerged frame) (\<lambda>rec. status_loop maxEntries frames (push_record rec st)))
      else if hd frame = 0x3f then
        bindE (parsePathOnly frame Untracked) (\<lambda>rec. status_loop maxEntries frames (push_record rec st))
      else if hd frame = 0x21 then
        bindE (parsePathOnly frame Ignored) (\<lambda>rec. status_loop maxEntries frames (push_record rec st))
      else Inl (GitOutputParseError STATUS_FORMAT ''unknown record type'' (Some 0)))"

definition init_status :: status_state where
  "init_status =
     \<lparr>ss_branch = \<lparr>br_seen = False, br_initial = False, br_detached = False, br_oid = None, br_head = None\<rparr>,
      ss_upstream = None, ss_aheadBehind = None, ss_stashCount = None, ss_records = []\<rparr>"

definition parseStatus :: "byte list \<Rightarrow> nat option \<Rightarrow> js_error + status_state" where
  "parseStatus bytes maxEntriesOption =
     (let maxEntries = (case maxEntriesOption of Some n \<Rightarrow> n | None \<Rightarrow> statusMaxEntries)
      in bindE (splitNulFrames bytes STATUS_FORMAT True) (\<lambda>frames.
         status_loop maxEntries frames init_status))"

declare status_loop.simps [simp del]

lemmas status_loop_simps [simp] = status_loop.simps(1)

section \<open>The format, as Git documents it\<close>

text \<open>
  The records of porcelain v2, as data and as frames. A renamed or copied entry is two frames.
  \<open>entry_record\<close> is what a reader of the format must get back.
\<close>

datatype git_entry =
    GOrdinary "byte list" "byte list" "byte list" "byte list" "byte list" "byte list" "byte list" "byte list"
  | GRenamed byte "byte list" "byte list" "byte list" "byte list" "byte list" "byte list" "byte list" "byte list" "byte list" "byte list"
  | GUnmerged "byte list" "byte list" "byte list" "byte list" "byte list" "byte list" "byte list" "byte list" "byte list" "byte list"
  | GUntracked "byte list"
  | GIgnored "byte list"

fun entry_frames :: "git_entry \<Rightarrow> byte list list" where
  "entry_frames (GOrdinary xy sub mh mi mw oh oi path) =
     [0x31 # 0x20 # xy @ 0x20 # sub @ 0x20 # mh @ 0x20 # mi @ 0x20 # mw @ 0x20 # oh @ 0x20 # oi @ 0x20 # path]"
| "entry_frames (GRenamed k score xy sub mh mi mw oh oi path orig) =
     [0x32 # 0x20 # xy @ 0x20 # sub @ 0x20 # mh @ 0x20 # mi @ 0x20 # mw @ 0x20 # oh @ 0x20 # oi @ 0x20 #
        k # score @ 0x20 # path, orig]"
| "entry_frames (GUnmerged xy sub m1 m2 m3 mw o1 o2 o3 path) =
     [0x75 # 0x20 # xy @ 0x20 # sub @ 0x20 # m1 @ 0x20 # m2 @ 0x20 # m3 @ 0x20 # mw @ 0x20 #
        o1 @ 0x20 # o2 @ 0x20 # o3 @ 0x20 # path]"
| "entry_frames (GUntracked path) = [0x3f # 0x20 # path]"
| "entry_frames (GIgnored path) = [0x21 # 0x20 # path]"

text \<open>A field of a fixed number of ASCII bytes; a mode is six bytes; a path is anything without NUL.\<close>

definition ascii_field :: "nat \<Rightarrow> byte list \<Rightarrow> bool" where
  "ascii_field n bs \<longleftrightarrow> length bs = n \<and> is_ascii bs \<and> 0 \<notin> set bs"

definition mode_bytes :: "byte list \<Rightarrow> bool" where
  "mode_bytes bs \<longleftrightarrow> length bs = 6 \<and> 0 \<notin> set bs"

definition path_bytes :: "byte list \<Rightarrow> bool" where
  "path_bytes bs \<longleftrightarrow> bs \<noteq> [] \<and> 0 \<notin> set bs"

fun entry_ok :: "git_entry \<Rightarrow> bool" where
  "entry_ok (GOrdinary xy sub mh mi mw oh oi path) \<longleftrightarrow>
     ascii_field 2 xy \<and> ascii_field 4 sub \<and> list_all mode_bytes [mh, mi, mw] \<and>
     list_all oid_bytes [oh, oi] \<and> path_bytes path"
| "entry_ok (GRenamed k score xy sub mh mi mw oh oi path orig) \<longleftrightarrow>
     (k = 0x52 \<or> k = 0x43) \<and> score \<noteq> [] \<and> list_all isDigit score \<and>
     ascii_field 2 xy \<and> ascii_field 4 sub \<and> list_all mode_bytes [mh, mi, mw] \<and>
     list_all oid_bytes [oh, oi] \<and> path_bytes path \<and> path_bytes orig"
| "entry_ok (GUnmerged xy sub m1 m2 m3 mw o1 o2 o3 path) \<longleftrightarrow>
     ascii_field 2 xy \<and> ascii_field 4 sub \<and> list_all mode_bytes [m1, m2, m3, mw] \<and>
     list_all oid_bytes [o1, o2, o3] \<and> path_bytes path"
| "entry_ok (GUntracked path) \<longleftrightarrow> path_bytes path"
| "entry_ok (GIgnored path) \<longleftrightarrow> path_bytes path"

text \<open>Whether the entry counts against the entry bound of the parser.\<close>

fun entry_counted :: "git_entry \<Rightarrow> bool" where
  "entry_counted (GUntracked path) = False"
| "entry_counted (GIgnored path) = False"
| "entry_counted _ = True"

definition stage_mode :: "byte list \<Rightarrow> jsstring" where
  "stage_mode m = (case decodeMode m of Some t \<Rightarrow> t | None \<Rightarrow> str ''000000'')"

definition plain_record :: "status_kind \<Rightarrow> byte list \<Rightarrow> status_record" where
  "plain_record kind path =
     \<lparr>sr_kind = kind,
      sr_indexStatus = (if kind = Untracked then str ''?'' else str ''!''),
      sr_worktreeStatus = (if kind = Untracked then str ''?'' else str ''!''),
      sr_submoduleField = str ''N...'',
      sr_modes = \<lparr>mode_head = None, mode_index = None, mode_worktree = None\<rparr>,
      sr_oids = \<lparr>oid_head = None, oid_index = None\<rparr>,
      sr_path = path, sr_originalPath = None, sr_score = None, sr_stages = [],
      sr_commitChanged = False, sr_modified = False, sr_untracked = False\<rparr>"

definition changed_record ::
  "status_kind \<Rightarrow> byte list \<Rightarrow> byte list \<Rightarrow> byte list \<Rightarrow> byte list \<Rightarrow> byte list \<Rightarrow> byte list \<Rightarrow>
   byte list \<Rightarrow> byte list \<Rightarrow> byte list option \<Rightarrow> jsnumber option \<Rightarrow> status_record" where
  "changed_record kind xy sub mh mi mw oh oi path orig score =
     (let (commitChanged, modified, untracked) = submoduleFlags (latin1 sub)
      in \<lparr>sr_kind = kind,
          sr_indexStatus = latin1 (take 1 xy), sr_worktreeStatus = latin1 (drop 1 xy),
          sr_submoduleField = latin1 sub,
          sr_modes = \<lparr>mode_head = decodeMode mh, mode_index = decodeMode mi, mode_worktree = decodeMode mw\<rparr>,
          sr_oids = \<lparr>oid_head = readZeroedOid (latin1 oh), oid_index = readZeroedOid (latin1 oi)\<rparr>,
          sr_path = path, sr_originalPath = orig, sr_score = score, sr_stages = [],
          sr_commitChanged = commitChanged, sr_modified = modified, sr_untracked = untracked\<rparr>)"

fun entry_record :: "git_entry \<Rightarrow> status_record" where
  "entry_record (GOrdinary xy sub mh mi mw oh oi path) =
     changed_record Ordinary xy sub mh mi mw oh oi path None None"
| "entry_record (GRenamed k score xy sub mh mi mw oh oi path orig) =
     changed_record (if k = 0x43 then Copied else Renamed) xy sub mh mi mw oh oi path (Some orig)
       (Some (toNumber (int (digits_value (latin1 score)))))"
| "entry_record (GUnmerged xy sub m1 m2 m3 mw o1 o2 o3 path) =
     \<lparr>sr_kind = Unmerged,
      sr_indexStatus = latin1 (take 1 xy), sr_worktreeStatus = latin1 (drop 1 xy),
      sr_submoduleField = latin1 sub,
      sr_modes = \<lparr>mode_head = None, mode_index = None, mode_worktree = decodeMode mw\<rparr>,
      sr_oids = \<lparr>oid_head = None, oid_index = None\<rparr>,
      sr_path = path, sr_originalPath = None, sr_score = None,
      sr_stages = collect_stages 1 (map stage_mode [m1, m2, m3]) (map latin1 [o1, o2, o3]),
      sr_commitChanged = False, sr_modified = False, sr_untracked = False\<rparr>"
| "entry_record (GUntracked path) = plain_record Untracked path"
| "entry_record (GIgnored path) = plain_record Ignored path"

lemma frame_reader_at [reader_simps]: "frame_reader (b # frame) = reader_at STATUS_FORMAT [] frame"
  by (simp add: frame_reader_def reader_simps)

lemma parseCommonFields_at [reader_simps]:
  assumes "ascii_field 2 xy"
  shows "parseCommonFields (reader_at fmt pre (xy @ later)) =
    Inr ((latin1 (take 1 xy), latin1 (drop 1 xy)), reader_at fmt (pre @ xy) later)"
proof -
  obtain x y where "xy = [x, y]"
    using assms by (auto simp: ascii_field_def numeral_2_eq_2 length_Suc_conv)
  with assms show ?thesis
    by (simp add: parseCommonFields_def takeFixedString_at ascii_field_def)
qed

lemma score_loop_at [reader_simps]:
  "list_all isDigit score \<Longrightarrow>
   score_loop t (reader_at fmt pre (score @ 0x20 # later)) =
     Inr (t @ latin1 score, reader_at fmt (pre @ score) (0x20 # later))"
proof (induction score arbitrary: t pre)
  case Nil
  then show ?case by (subst score_loop.simps) (simp add: reader_simps)
next
  case (Cons b bs)
  then have "b \<noteq> 0x20" by (auto simp: isDigit_def)
  with Cons show ?case by (subst score_loop.simps) (simp add: reader_simps)
qed

lemma ordinary_roundtrip:
  "entry_ok (GOrdinary xy sub mh mi mw oh oi path) \<Longrightarrow>
   parseOrdinary (hd (entry_frames (GOrdinary xy sub mh mi mw oh oi path))) =
     Inr (entry_record (GOrdinary xy sub mh mi mw oh oi path))"
  by (simp add: parseOrdinary_def reader_simps ascii_field_def [of 4] mode_bytes_def path_bytes_def
      changed_record_def split: prod.split)

lemma fromCharCode_RC: "fromCharCode 0x52 = 0x52" "fromCharCode 0x43 = 0x43"
  by (simp_all add: fromCharCode_def)

lemma rename_roundtrip:
  "entry_ok (GRenamed k score xy sub mh mi mw oh oi path orig) \<Longrightarrow>
   parseRename (hd (entry_frames (GRenamed k score xy sub mh mi mw oh oi path orig))) orig =
     Inr (entry_record (GRenamed k score xy sub mh mi mw oh oi path orig))"
  by (auto simp: parseRename_def reader_simps ascii_field_def [of 4] mode_bytes_def path_bytes_def
      changed_record_def parseInt10_digits all_digits_def list_all_latin1 fromCharCode_RC
      split: prod.split)

lemma unmerged_roundtrip:
  "entry_ok (GUnmerged xy sub m1 m2 m3 mw o1 o2 o3 path) \<Longrightarrow>
   parseUnmerged (hd (entry_frames (GUnmerged xy sub m1 m2 m3 mw o1 o2 o3 path))) =
     Inr (entry_record (GUnmerged xy sub m1 m2 m3 mw o1 o2 o3 path))"
  by (simp add: parseUnmerged_def reader_simps ascii_field_def [of 4] mode_bytes_def path_bytes_def
      numeral_3_eq_3 stage_mode_def)

lemma plain_roundtrip:
  "path_bytes path \<Longrightarrow> parsePathOnly (b # 0x20 # path) kind = Inr (plain_record kind path)"
  by (simp add: parsePathOnly_def reader_simps path_bytes_def plain_record_def Let_def)

text \<open>One entry of the format is one record of the result, whatever follows it.\<close>

lemma status_loop_entry:
  assumes "entry_ok e" and "entry_counted e \<Longrightarrow> length (ss_records st) < mx"
  shows "status_loop mx (entry_frames e @ frames) st = status_loop mx frames (push_record (entry_record e) st)"
proof (cases e)
  case (GOrdinary xy sub mh mi mw oh oi path)
  with assms ordinary_roundtrip [of xy sub mh mi mw oh oi path] show ?thesis
    by (simp add: status_loop.simps(2))
next
  case (GRenamed k score xy sub mh mi mw oh oi path orig)
  with assms rename_roundtrip [of k score xy sub mh mi mw oh oi path orig] show ?thesis
    by (simp add: status_loop.simps(2))
next
  case (GUnmerged xy sub m1 m2 m3 mw o1 o2 o3 path)
  with assms unmerged_roundtrip [of xy sub m1 m2 m3 mw o1 o2 o3 path] show ?thesis
    by (simp add: status_loop.simps(2))
next
  case (GUntracked path)
  with assms show ?thesis by (simp add: status_loop.simps(2) plain_roundtrip)
next
  case (GIgnored path)
  with assms show ?thesis by (simp add: status_loop.simps(2) plain_roundtrip)
qed

section \<open>Headers\<close>

datatype git_header =
    HOid "byte list"
  | HHead "byte list"
  | HUpstream "byte list"
  | HAheadBehind nat nat
  | HStash nat
  | HOther "byte list" "byte list"

fun header_body :: "git_header \<Rightarrow> byte list" where
  "header_body (HOid v) = asc ''branch.oid'' @ 0x20 # v"
| "header_body (HHead v) = asc ''branch.head'' @ 0x20 # v"
| "header_body (HUpstream v) = asc ''branch.upstream'' @ 0x20 # v"
| "header_body (HAheadBehind a b) =
     asc ''branch.ab'' @ 0x20 # (0x2b # decimal_bytes a) @ 0x20 # (0x2d # decimal_bytes b)"
| "header_body (HStash n) = asc ''stash'' @ 0x20 # decimal_bytes n"
| "header_body (HOther k v) = k @ 0x20 # v"

definition known_headers :: "byte list set" where
  "known_headers = asc ` {''branch.oid'', ''branch.head'', ''branch.upstream'', ''branch.ab'', ''stash''}"

fun header_ok :: "git_header \<Rightarrow> bool" where
  "header_ok (HOid v) \<longleftrightarrow> is_ascii v \<and> 0 \<notin> set v"
| "header_ok (HHead v) \<longleftrightarrow> is_ascii v \<and> 0 \<notin> set v"
| "header_ok (HUpstream v) \<longleftrightarrow> is_ascii v \<and> 0 \<notin> set v"
| "header_ok (HAheadBehind a b) \<longleftrightarrow> True"
| "header_ok (HStash n) \<longleftrightarrow> True"
| "header_ok (HOther k v) \<longleftrightarrow>
     k \<noteq> [] \<and> is_ascii k \<and> 0x20 \<notin> set k \<and> 0 \<notin> set k \<and> 0 \<notin> set v \<and> k \<notin> known_headers"

fun header_effect :: "git_header \<Rightarrow> status_state \<Rightarrow> status_state" where
  "header_effect (HOid v) st =
     st\<lparr>ss_branch := (ss_branch st)\<lparr>br_seen := True, br_initial := (v = asc ''(initial)''),
          br_oid := (if v = asc ''(initial)'' then None else Some (latin1 v))\<rparr>\<rparr>"
| "header_effect (HHead v) st =
     st\<lparr>ss_branch := (ss_branch st)\<lparr>br_seen := True, br_detached := (v = asc ''(detached)''),
          br_head := (if v = asc ''(detached)'' then None else Some (latin1 v))\<rparr>\<rparr>"
| "header_effect (HUpstream v) st = st\<lparr>ss_upstream := Some (latin1 v)\<rparr>"
| "header_effect (HAheadBehind a b) st = st\<lparr>ss_aheadBehind := Some (toNumber (int a), toNumber (int b))\<rparr>"
| "header_effect (HStash n) st = st\<lparr>ss_stashCount := Some (toNumber (int n))\<rparr>"
| "header_effect (HOther k v) st = st"

lemma readSignedCount_decimal:
  "readSignedCount (c # decimal n) [c] = Inr (toNumber (int n))"
  using decimal_all_digits [of n]
  by (simp add: readSignedCount_def startsWith_def parseInt10_decimal all_digits_def)

lemma header_roundtrip:
  assumes "header_ok h"
  shows "parseHeader (0x23 # 0x20 # header_body h) st = Inr (header_effect h st)"
proof (cases h)
  case (HOther k v)
  with assms have "latin1 k \<notin> str ` {''branch.oid'', ''branch.head'', ''branch.upstream'', ''branch.ab'', ''stash''}"
    by (auto simp: known_headers_def simp del: str_simps asc_simps simp flip: latin1_asc)
  with HOther assms show ?thesis
    by (simp add: parseHeader_def reader_simps del: str_simps)
next
  case (HAheadBehind a b)
  have "parseHeader (0x23 # 0x20 # header_body h) st =
      bindE (readSignedCount (0x2b # decimal a) (str ''+'')) (\<lambda>ahead.
      bindE (readSignedCount (0x2d # decimal b) (str ''-'')) (\<lambda>behind.
      Inr (st\<lparr>ss_aheadBehind := Some (ahead, behind)\<rparr>)))"
  proof -
    have key: "asc ''branch.ab'' \<noteq> []" "is_ascii (asc ''branch.ab'')" "0x20 \<notin> set (asc ''branch.ab'')"
      by simp_all
    have sign: "fromCharCode 0x2b = 0x2b" "fromCharCode 0x2d = 0x2d" by (simp_all add: fromCharCode_def)
    note fields = takeField_at [of "0x2b # decimal_bytes a" "0x20 # 0x2d # decimal_bytes b", simplified]
      takeField_at [of "0x2d # decimal_bytes b" "[]", simplified]
    from HAheadBehind show ?thesis
      using decimal_bytes_field [of a] decimal_bytes_field [of b] key
      by (simp add: parseHeader_def reader_simps fields sign latin1_asc str_inj del: str_simps asc_simps)
  qed
  then show ?thesis by (simp add: readSignedCount_decimal HAheadBehind)
next
  case (HStash n)
  have key: "is_ascii (asc ''stash'')" "0x20 \<notin> set (asc ''stash'')" by simp_all
  from HStash show ?thesis
    using decimal_bytes_field [of n] key decimal_all_digits [of n] takeField_at [of "decimal_bytes n" "[]"]
    by (simp add: parseHeader_def reader_simps takeNumber_def latin1_asc str_inj all_digits_def
        parseInt10_decimal del: str_simps asc_simps)
next
  case (HOid v)
  have key: "is_ascii (asc ''branch.oid'')" "0x20 \<notin> set (asc ''branch.oid'')" by simp_all
  from HOid assms key show ?thesis
    by (simp add: parseHeader_def reader_simps latin1_asc str_inj latin1_eq_str Let_def
        del: str_simps asc_simps)
next
  case (HHead v)
  have key: "is_ascii (asc ''branch.head'')" "0x20 \<notin> set (asc ''branch.head'')" by simp_all
  from HHead assms key show ?thesis
    by (simp add: parseHeader_def reader_simps latin1_asc str_inj latin1_eq_str Let_def
        del: str_simps asc_simps)
next
  case (HUpstream v)
  have key: "is_ascii (asc ''branch.upstream'')" "0x20 \<notin> set (asc ''branch.upstream'')" by simp_all
  from HUpstream assms key show ?thesis
    by (simp add: parseHeader_def reader_simps latin1_asc str_inj del: str_simps asc_simps)
qed

text \<open>A status output: headers and entries in any order.\<close>

datatype status_item = Header git_header | Entry git_entry

fun item_frames :: "status_item \<Rightarrow> byte list list" where
  "item_frames (Header h) = [0x23 # 0x20 # header_body h]"
| "item_frames (Entry e) = entry_frames e"

fun item_ok :: "status_item \<Rightarrow> bool" where
  "item_ok (Header h) = header_ok h"
| "item_ok (Entry e) = entry_ok e"

fun item_effect :: "status_item \<Rightarrow> status_state \<Rightarrow> status_state" where
  "item_effect (Header h) = header_effect h"
| "item_effect (Entry e) = push_record (entry_record e)"

definition status_output :: "status_item list \<Rightarrow> byte list" where
  "status_output items = concat (map (\<lambda>f. f @ [0]) (concat (map item_frames items)))"

definition entry_count :: "status_item list \<Rightarrow> nat" where
  "entry_count items = length (filter (\<lambda>i. case i of Entry e \<Rightarrow> True | Header h \<Rightarrow> False) items)"

lemma header_effect_records [simp]: "ss_records (header_effect h st) = ss_records st"
  by (cases h) simp_all

lemma push_record_records [simp]: "ss_records (push_record rec st) = ss_records st @ [rec]"
  by (simp add: push_record_def)

lemma status_loop_items:
  "list_all item_ok items \<Longrightarrow> length (ss_records st) + entry_count items \<le> mx \<Longrightarrow>
   status_loop mx (concat (map item_frames items)) st = Inr (fold item_effect items st)"
proof (induction items arbitrary: st)
  case Nil
  then show ?case by simp
next
  case (Cons i items)
  show ?case
  proof (cases i)
    case (Header h)
    with Cons header_roundtrip [of h st] show ?thesis
      by (simp add: status_loop.simps(2) entry_count_def)
  next
    case (Entry e)
    with Cons show ?thesis
      by (simp add: status_loop_entry entry_count_def)
  qed
qed

lemma oid_bytes_nul: "oid_bytes bs \<Longrightarrow> 0 \<notin> set bs"
  using oid_bytes_field by blast

lemma digits_nul: "list_all isDigit (bs :: byte list) \<Longrightarrow> 0 \<notin> set bs"
  by (auto simp: list_all_iff dest!: isDigit_ascii)

lemma entry_frames_nul: "entry_ok e \<Longrightarrow> f \<in> set (entry_frames e) \<Longrightarrow> 0 \<notin> set f"
  by (cases e) (auto simp: ascii_field_def mode_bytes_def path_bytes_def dest: oid_bytes_nul digits_nul)

lemma header_body_nul: "header_ok h \<Longrightarrow> 0 \<notin> set (header_body h)"
  using decimal_bytes_field by (cases h) auto

lemma item_frames_nul: "item_ok i \<Longrightarrow> f \<in> set (item_frames i) \<Longrightarrow> 0 \<notin> set f"
  by (cases i) (auto dest: entry_frames_nul header_body_nul)

lemma parseStatus_output:
  assumes "list_all item_ok items" and "entry_count items \<le> maxEntries"
  shows "parseStatus (status_output items) (Some maxEntries) = Inr (fold item_effect items init_status)"
proof -
  have "splitNulFrames (status_output items) STATUS_FORMAT True = Inr (concat (map item_frames items))"
    using assms(1)
    by (auto simp: splitNulFrames_Inr_iff status_output_def list_all_iff dest: item_frames_nul)
  with status_loop_items [of items init_status maxEntries] assms show ?thesis
    by (simp add: parseStatus_def init_status_def)
qed


definition sample_items :: "status_item list" where
  "sample_items =
     [Header (HOid (asc ''(initial)'')), Entry (GUntracked (asc ''a b'')),
      Entry (GRenamed 0x52 (asc ''100'') (asc ''R.'') (asc ''N...'') (asc ''100644'') (asc ''100644'')
        (asc ''100644'') (replicate 40 0x61) (replicate 40 0x62) (asc ''new'') (asc ''old''))]"

lemma sample_items_ok: "list_all item_ok sample_items" "entry_count sample_items \<le> 2"
  by code_simp+


section \<open>What every successful parse satisfies\<close>

definition oid_opt_ok :: "jsstring option \<Rightarrow> bool" where
  "oid_opt_ok v \<longleftrightarrow> (case v of None \<Rightarrow> True | Some t \<Rightarrow> isObjectName t \<and> \<not> all_zero t)"

definition stages_ok :: "unmerged_stage list \<Rightarrow> bool" where
  "stages_ok ss \<longleftrightarrow>
     sorted_wrt (<) (map us_stage ss) \<and>
     (\<forall>s\<in>set ss. us_stage s \<in> {1..3} \<and> isObjectName (us_oid s) \<and> us_mode s \<noteq> str ''000000'')"

definition record_wf :: "status_record \<Rightarrow> bool" where
  "record_wf rec \<longleftrightarrow>
     sr_path rec \<noteq> [] \<and>
     (sr_kind rec \<in> {Renamed, Copied} \<longleftrightarrow> sr_originalPath rec \<noteq> None) \<and>
     (sr_originalPath rec \<noteq> None \<longleftrightarrow> sr_score rec \<noteq> None) \<and>
     sr_originalPath rec \<noteq> Some [] \<and>
     oid_opt_ok (oid_head (sr_oids rec)) \<and> oid_opt_ok (oid_index (sr_oids rec)) \<and>
     (sr_stages rec \<noteq> [] \<longrightarrow> sr_kind rec = Unmerged) \<and> stages_ok (sr_stages rec)"

lemma oid_opt_ok_readZeroedOid: "isObjectName t \<Longrightarrow> oid_opt_ok (readZeroedOid t)"
  by (simp add: oid_opt_ok_def readZeroedOid_def)

lemma oid_opt_ok_None [simp]: "oid_opt_ok None"
  by (simp add: oid_opt_ok_def)

lemma stages_ok_Nil [simp]: "stages_ok []"
  by (simp add: stages_ok_def)

lemma inside_frame_reader: "inside (drop 1 frame) (frame_reader frame)"
  by (simp add: frame_reader_def reader_simps Let_def)

lemma suffix_drop_trans: "suffix xs (drop n ys) \<Longrightarrow> suffix xs ys"
  by (meson suffix_drop suffix_order.trans)

text \<open>The common head of every entry: a space, XY, a space, the submodule field, a space.\<close>

lemma parseCommonFields_vc [vc]: "inside X r \<Longrightarrow> okE (parseCommonFields r) (\<lambda>(v, r'). inside X r')"
  unfolding parseCommonFields_def by (rule vc | assumption)+ simp

lemma frame_reader_vc [vc]: "inside (drop 1 frame) (frame_reader frame)"
  by (rule inside_frame_reader)

definition entry_post :: "status_kind set \<Rightarrow> byte list \<Rightarrow> status_record \<Rightarrow> bool" where
  "entry_post kinds frame rec \<longleftrightarrow>
     record_wf rec \<and> sr_kind rec \<in> kinds \<and> suffix (sr_path rec) (drop 1 frame)"

lemma parseOrdinary_vc: "okE (parseOrdinary frame) (entry_post {Ordinary} frame)"
  unfolding parseOrdinary_def
  apply (rule vc | assumption | erule conjE)+
  by (simp add: entry_post_def record_wf_def oid_opt_ok_readZeroedOid)

lemma score_loop_vc [vc]: "inside X r \<Longrightarrow> okE (score_loop t r) (\<lambda>(v, r'). inside X r')"
proof (induction t r rule: score_loop.induct)
  case (1 t r)
  show ?case
  proof (cases "rest r")
    case Nil
    with 1 show ?thesis by (subst score_loop.simps) (simp add: okE_def)
  next
    case (Cons b bs)
    show ?thesis
    proof (cases "b = 0x20")
      case True
      with 1 Cons show ?thesis by (subst score_loop.simps) (simp add: okE_def)
    next
      case False
      have "okE (bindE (takeBytes 1 r) (\<lambda>(_, r). score_loop (t @ [fromCharCode b]) r)) (\<lambda>(v, r'). inside X r')"
        using 1 Cons False by (auto intro!: okEI dest: okED [OF "1.IH"] takeBytes.op_inside split: prod.splits)
      with False Cons show ?thesis by (subst score_loop.simps) simp
    qed
  qed
qed

lemma parseRename_vc:
  "okE (parseRename frame orig) (\<lambda>rec. entry_post {Renamed, Copied} frame rec \<and> sr_originalPath rec = Some orig)"
  unfolding parseRename_def
  apply (rule vc | assumption | erule conjE)+
  by (simp add: entry_post_def record_wf_def oid_opt_ok_readZeroedOid)

lemma read_stage_modes_vc [vc]: "inside X r \<Longrightarrow> okE (read_stage_modes n r) (\<lambda>(v, r'). inside X r')"
proof (induction n arbitrary: r)
  case 0
  then show ?case by (simp add: okE_def)
next
  case (Suc n)
  show ?case
    unfolding read_stage_modes.simps by (rule vc Suc.IH Suc.prems | assumption)+ simp
qed

lemma read_stage_oids_vc [vc]:
  "inside X r \<Longrightarrow>
   okE (read_stage_oids n r) (\<lambda>(os, r'). (length os = n \<and> (\<forall>oid\<in>set os. isObjectName oid)) \<and> inside X r')"
proof (induction n arbitrary: r)
  case 0
  then show ?case by (simp add: okE_def)
next
  case (Suc n)
  show ?case
    unfolding read_stage_oids.simps by (rule vc Suc.IH Suc.prems | assumption | erule conjE)+ simp
qed

lemma collect_stages_props:
  "s \<in> set (collect_stages k ms os) \<Longrightarrow>
   k \<le> us_stage s \<and> us_stage s < k + length os \<and> us_oid s \<in> set os \<and> us_mode s \<noteq> str ''000000''"
  by (induction k ms os rule: collect_stages.induct) (auto split: if_splits)

lemma collect_stages_sorted: "sorted_wrt (<) (map us_stage (collect_stages k ms os))"
  by (induction k ms os rule: collect_stages.induct) (auto dest: collect_stages_props)

lemma collect_stages_ok: "length os = 3 \<Longrightarrow> \<forall>oid\<in>set os. isObjectName oid \<Longrightarrow> stages_ok (collect_stages 1 ms os)"
  by (auto simp: stages_ok_def collect_stages_sorted dest: collect_stages_props)

lemma parseUnmerged_vc: "okE (parseUnmerged frame) (entry_post {Unmerged} frame)"
  unfolding parseUnmerged_def
  apply (rule vc | assumption | erule conjE)+
  by (simp add: entry_post_def record_wf_def collect_stages_ok [unfolded One_nat_def])

lemma parsePathOnly_vc: "kind \<in> {Untracked, Ignored} \<Longrightarrow> okE (parsePathOnly frame kind) (entry_post {kind} frame)"
  unfolding parsePathOnly_def
  apply (rule vc | assumption | erule conjE)+
  by (auto simp: entry_post_def record_wf_def)

lemma parseHeader_records: "parseHeader frame st = Inr st' \<Longrightarrow> ss_records st' = ss_records st"
  by (auto simp: parseHeader_def Let_def split: if_splits prod.splits)

text \<open>The loop, by induction on the frames it consumes: every record it adds has the entry's shape.\<close>

definition counted :: "status_record \<Rightarrow> bool" where
  "counted rec \<longleftrightarrow> sr_kind rec \<noteq> Untracked \<and> sr_kind rec \<noteq> Ignored"

definition loop_inv :: "nat \<Rightarrow> byte list list \<Rightarrow> status_state \<Rightarrow> bool" where
  "loop_inv mx frames st \<longleftrightarrow>
     (\<forall>rec\<in>set (ss_records st). record_wf rec \<and>
        (\<exists>f\<in>set frames. suffix (sr_path rec) (drop 1 f)) \<and>
        (sr_originalPath rec \<noteq> None \<longrightarrow> the (sr_originalPath rec) \<in> set frames)) \<and>
     length (filter counted (ss_records st)) \<le> mx"

lemma loop_inv_push:
  assumes "loop_inv mx F st" and "entry_post kinds f rec" and "f \<in> set F"
    and "sr_originalPath rec \<noteq> None \<longrightarrow> the (sr_originalPath rec) \<in> set F"
    and "counted rec \<Longrightarrow> length (ss_records st) < mx"
  shows "loop_inv mx F (push_record rec st)"
proof -
  have "length (filter counted (ss_records st @ [rec])) \<le> mx"
  proof (cases "counted rec")
    case True
    then have "length (filter counted (ss_records st)) < mx"
      by (intro le_less_trans [OF length_filter_le] assms(5))
    with True show ?thesis by simp
  next
    case False
    with assms(1) show ?thesis by (simp add: loop_inv_def)
  qed
  with assms(1-4) show ?thesis by (auto simp: loop_inv_def entry_post_def)
qed

lemma entry_post_plain: "entry_post K f rec \<Longrightarrow> K \<inter> {Renamed, Copied} = {} \<Longrightarrow> sr_originalPath rec = None"
  by (auto simp: entry_post_def record_wf_def)

lemma header_keeps: "loop_inv mx F st \<Longrightarrow> okE (parseHeader frame st) (loop_inv mx F)"
  by (rule okEI) (simp add: loop_inv_def parseHeader_records)

lemma entry_adds:
  assumes "okE m (entry_post K frame)" and "K \<inter> {Renamed, Copied} = {}"
    and "K \<subseteq> {Untracked, Ignored} \<or> length (ss_records st) < mx"
    and "loop_inv mx F st" and "frame \<in> set F"
  shows "okE m (\<lambda>rec. loop_inv mx F (push_record rec st))"
proof (rule okEI)
  fix rec assume "m = Inr rec"
  with assms(1) have post: "entry_post K frame rec" by (rule okED)
  then have "counted rec \<Longrightarrow> length (ss_records st) < mx"
    using assms(3) by (auto simp: entry_post_def counted_def)
  with post show "loop_inv mx F (push_record rec st)"
    using assms entry_post_plain [OF post assms(2)] by (intro loop_inv_push) auto
qed

lemma rename_adds:
  assumes "length (ss_records st) < mx" and "loop_inv mx F st" and "frame \<in> set F" and "orig \<in> set F"
  shows "okE (parseRename frame orig) (\<lambda>rec. loop_inv mx F (push_record rec st))"
  using assms by (auto intro!: okEI loop_inv_push dest!: okED [OF parseRename_vc])

lemma ordinary_adds:
  "length (ss_records st) < mx \<Longrightarrow> loop_inv mx F st \<Longrightarrow> frame \<in> set F \<Longrightarrow>
   okE (parseOrdinary frame) (\<lambda>rec. loop_inv mx F (push_record rec st))"
  by (rule entry_adds [OF parseOrdinary_vc]) auto

lemma unmerged_adds:
  "length (ss_records st) < mx \<Longrightarrow> loop_inv mx F st \<Longrightarrow> frame \<in> set F \<Longrightarrow>
   okE (parseUnmerged frame) (\<lambda>rec. loop_inv mx F (push_record rec st))"
  by (rule entry_adds [OF parseUnmerged_vc]) auto

lemma untracked_adds:
  "loop_inv mx F st \<Longrightarrow> frame \<in> set F \<Longrightarrow>
   okE (parsePathOnly frame Untracked) (\<lambda>rec. loop_inv mx F (push_record rec st))"
  by (rule entry_adds [OF parsePathOnly_vc]) auto

lemma ignored_adds:
  "loop_inv mx F st \<Longrightarrow> frame \<in> set F \<Longrightarrow>
   okE (parsePathOnly frame Ignored) (\<lambda>rec. loop_inv mx F (push_record rec st))"
  by (rule entry_adds [OF parsePathOnly_vc]) auto

lemma status_loop_inv:
  "loop_inv mx F st \<Longrightarrow> set frames \<subseteq> set F \<Longrightarrow> okE (status_loop mx frames st) (loop_inv mx F)"
proof (induction frames arbitrary: st rule: length_induct)
  case (1 frames)
  then have IH: "okE (status_loop mx fs t) (loop_inv mx F)"
    if "length fs < length frames" "loop_inv mx F t" "set fs \<subseteq> set F" for fs t
    using that by blast
  show ?case
  proof (cases frames)
    case Nil
    with 1 show ?thesis by (simp add: okE_def)
  next
    case (Cons frame fs)
    with "1.prems" have F: "frame \<in> set F" "set fs \<subseteq> set F" by auto
    have IH1: "loop_inv mx F t \<Longrightarrow> okE (status_loop mx fs t) (loop_inv mx F)" for t
      using IH [of fs] Cons F by simp
    note binds = okE_bind [OF header_keeps IH1] okE_bind [OF ordinary_adds [where st = st and mx = mx] IH1]
      okE_bind [OF unmerged_adds [where st = st and mx = mx] IH1]
      okE_bind [OF untracked_adds [where st = st and mx = mx] IH1]
      okE_bind [OF ignored_adds [where st = st and mx = mx] IH1]
    have two: "okE (case fs of [] \<Rightarrow> Inl e
        | orig # fs' \<Rightarrow> bindE (parseRename frame orig) (\<lambda>rec. status_loop mx fs' (push_record rec st))) (loop_inv mx F)"
      if "length (ss_records st) < mx" for e
      using that F "1.prems"(1) Cons IH
      by (auto simp: okE_Inl split: list.split intro!: okE_bind [OF rename_adds])
    show ?thesis
      unfolding Cons status_loop.simps(2)
      using "1.prems"(1) F(1) IH1 two
      by (auto simp: okE_Inl intro!: okE_if binds)
  qed
qed


lemma frame_slice:
  assumes "f \<in> set fs"
  shows "\<exists>pre post. concat (map (\<lambda>f. f @ [0]) fs) = pre @ f @ 0 # post"
proof -
  from assms obtain fs1 fs2 where "fs = fs1 @ f # fs2" by (auto simp: in_set_conv_decomp)
  then have "concat (map (\<lambda>f. f @ [0]) fs) =
      concat (map (\<lambda>f. f @ [0]) fs1) @ f @ 0 # concat (map (\<lambda>f. f @ [0]) fs2)" by simp
  then show ?thesis by blast
qed

lemma suffix_frame_slice:
  assumes "f \<in> set fs" and "suffix p (drop 1 f)"
  shows "\<exists>pre post. concat (map (\<lambda>f. f @ [0]) fs) = pre @ p @ 0 # post"
proof -
  obtain q where "f = q @ p" using assms(2) suffix_drop_trans by (blast elim: suffixE)
  with frame_slice [OF assms(1)] show ?thesis by (metis append.assoc)
qed

lemma parseStatus_frames:
  assumes "parseStatus bytes mx = Inr st"
  obtains F where "bytes = concat (map (\<lambda>f. f @ [0]) F)" and "\<forall>f\<in>set F. 0 \<notin> set f"
    and "loop_inv (case mx of Some n \<Rightarrow> n | None \<Rightarrow> statusMaxEntries) F st"
proof -
  let ?mx = "case mx of Some n \<Rightarrow> n | None \<Rightarrow> statusMaxEntries"
  from assms obtain F where F: "splitNulFrames bytes STATUS_FORMAT True = Inr F"
    and loop: "status_loop ?mx F init_status = Inr st"
    by (auto simp: parseStatus_def Let_def)
  have "loop_inv ?mx F init_status" by (simp add: loop_inv_def init_status_def)
  then have "okE (status_loop ?mx F init_status) (loop_inv ?mx F)" by (rule status_loop_inv) simp
  from okED [OF this loop] F show ?thesis by (auto simp: splitNulFrames_Inr_iff intro: that)
qed

text \<open>
  C29. Every record of a successful parse is well formed (a path that is not empty; an original path
  and a score exactly on renames and copies; object names that are object names and not the zero
  name; unmerged stages in increasing order 1..3), its path is a slice of the output read
  verbatim up to the NUL that ends it, free of NUL, and so is the original path of a rename.
\<close>

theorem parseStatus_sound:
  assumes "parseStatus bytes mx = Inr st" and "rec \<in> set (ss_records st)"
  shows "record_wf rec \<and> 0 \<notin> set (sr_path rec) \<and>
    (\<exists>pre post. bytes = pre @ sr_path rec @ 0 # post) \<and>
    (\<forall>orig. sr_originalPath rec = Some orig \<longrightarrow> (\<exists>pre post. bytes = pre @ orig @ 0 # post))"
proof -
  from assms(1) obtain F where F: "bytes = concat (map (\<lambda>f. f @ [0]) F)" "\<forall>f\<in>set F. 0 \<notin> set f"
    and inv: "loop_inv (case mx of Some n \<Rightarrow> n | None \<Rightarrow> statusMaxEntries) F st"
    by (rule parseStatus_frames)
  from inv assms(2) obtain f where wf: "record_wf rec" and f: "f \<in> set F" "suffix (sr_path rec) (drop 1 f)"
    and orig: "sr_originalPath rec \<noteq> None \<Longrightarrow> the (sr_originalPath rec) \<in> set F"
    unfolding loop_inv_def by blast
  have "0 \<notin> set (sr_path rec)"
    using f F(2) set_mono_suffix [OF suffix_drop_trans [OF f(2)]] by blast
  with wf orig f show ?thesis unfolding F(1) by (auto intro: suffix_frame_slice frame_slice)
qed

lemma sample_parses:
  "parseStatus (status_output sample_items) (Some 2) = Inr (fold item_effect sample_items init_status)"
  by (rule parseStatus_output [OF sample_items_ok])

lemma sample_records:
  "ss_records (fold item_effect sample_items init_status) =
     [plain_record Untracked (asc ''a b''),
      changed_record Renamed (asc ''R.'') (asc ''N...'') (asc ''100644'') (asc ''100644'')
        (asc ''100644'') (replicate 40 0x61) (replicate 40 0x62) (asc ''new'') (Some (asc ''old''))
        (Some (toNumber (int (digits_value (latin1 (asc ''100''))))))]"
  by (simp add: sample_items_def init_status_def del: asc_simps)

lemma parseStatus_sound_witness:
  "\<exists>st. parseStatus (status_output sample_items) (Some 2) = Inr st \<and> length (ss_records st) = 2 \<and>
     list_all record_wf (ss_records st)"
  using parseStatus_sound [OF sample_parses] sample_parses sample_records by (simp add: list_all_iff)

text \<open>
  The entry bound: whatever the input, a successful parse returns at most the bound of ordinary,
  renamed, copied and unmerged records.
\<close>

theorem parseStatus_bounded:
  assumes "parseStatus bytes mx = Inr st"
  shows "length (filter counted (ss_records st)) \<le> (case mx of Some n \<Rightarrow> n | None \<Rightarrow> statusMaxEntries)"
  using assms by (rule parseStatus_frames) (simp add: loop_inv_def)

lemma parseStatus_bounded_witness:
  "\<exists>st. parseStatus (status_output sample_items) (Some 2) = Inr st \<and>
     length (filter counted (ss_records st)) \<le> 2"
  using parseStatus_bounded [OF sample_parses] sample_parses by simp

text \<open>
  Unlike the other entries, untracked and ignored ones are not held to the bound: any number of
  them parses even with a bound of zero.
\<close>

lemma status_loop_untracked:
  "list_all path_bytes ps \<Longrightarrow>
   status_loop mx (map (\<lambda>p. 0x3f # 0x20 # p) ps) st =
     Inr (fold push_record (map (plain_record Untracked) ps) st)"
proof (induction ps arbitrary: st)
  case (Cons p ps)
  then have "parsePathOnly (0x3f # 0x20 # p) Untracked = Inr (plain_record Untracked p)"
    by (simp add: parsePathOnly_def reader_simps path_bytes_def plain_record_def Let_def)
  with Cons show ?case by (simp add: status_loop.simps(2))
qed simp

lemma parseStatus_untracked_unbounded:
  assumes "list_all path_bytes ps"
  shows "parseStatus (concat (map (\<lambda>p. (0x3f # 0x20 # p) @ [0]) ps)) (Some 0) =
    Inr (fold push_record (map (plain_record Untracked) ps) init_status)"
proof -
  have "splitNulFrames (concat (map (\<lambda>p. (0x3f # 0x20 # p) @ [0]) ps)) STATUS_FORMAT True =
      Inr (map (\<lambda>p. 0x3f # 0x20 # p) ps)"
    using assms by (auto simp: splitNulFrames_Inr_iff comp_def list_all_iff path_bytes_def)
  with status_loop_untracked [OF assms] show ?thesis by (simp add: parseStatus_def)
qed

lemma status_loop_unknown:
  assumes "list_all item_ok items" and "length (ss_records st) + entry_count items \<le> mx"
    and "frame \<noteq> []" and "hd frame \<notin> {0x23, 0x31, 0x32, 0x75, 0x3f, 0x21}"
  shows "status_loop mx (concat (map item_frames items) @ frame # later) st =
    Inl (GitOutputParseError STATUS_FORMAT ''unknown record type'' (Some 0))"
  using assms
proof (induction items arbitrary: st)
  case Nil
  then show ?case by (simp add: status_loop.simps(2))
next
  case (Cons i items)
  show ?case
  proof (cases i)
    case (Header h)
    with Cons header_roundtrip [of h st] show ?thesis
      by (simp add: status_loop.simps(2) entry_count_def)
  next
    case (Entry e)
    with Cons show ?thesis
      by (simp add: status_loop_entry entry_count_def)
  qed
qed

text \<open>
  A record type the parser does not know fails the whole parse, wherever it stands in an
  otherwise valid output: no change is dropped silently.
\<close>

theorem parseStatus_unknown_record:
  assumes "list_all item_ok items" and "entry_count items \<le> maxEntries"
    and "t \<notin> {0, 0x23, 0x31, 0x32, 0x75, 0x3f, 0x21}" and "0 \<notin> set body"
    and "list_all (\<lambda>f. 0 \<notin> set f) later"
  shows "parseStatus (status_output items @ concat (map (\<lambda>f. f @ [0]) ((t # body) # later))) (Some maxEntries) =
    Inl (GitOutputParseError STATUS_FORMAT ''unknown record type'' (Some 0))"
proof -
  have "splitNulFrames (status_output items @ concat (map (\<lambda>f. f @ [0]) ((t # body) # later))) STATUS_FORMAT True =
      Inr (concat (map item_frames items) @ (t # body) # later)"
    using assms
    by (auto simp: splitNulFrames_Inr_iff status_output_def list_all_iff dest: item_frames_nul)
  with status_loop_unknown [of items init_status maxEntries "t # body" later] assms show ?thesis
    by (simp add: parseStatus_def init_status_def)
qed

lemma parseStatus_unknown_record_witness:
  "parseStatus (status_output sample_items @ concat (map (\<lambda>f. f @ [0]) [0x33 # asc '' x'', [0x3f]])) (Some 2) =
     Inl (GitOutputParseError STATUS_FORMAT ''unknown record type'' (Some 0))"
  by (rule parseStatus_unknown_record [OF sample_items_ok]) simp_all

end
