(* ===== verification/CatFile.thy ===== *)
theory CatFile
  imports Reader
begin

text \<open>
  The framing of \<^verbatim>\<open>git cat-file --batch\<close> and the commit and tag objects it returns:
  \<^verbatim>\<open>packages/git-core/src/parse/cat-file.ts\<close>. The record \<open>cat_state\<close> holds the private fields of
  the class \<^verbatim>\<open>CatFileDecoder\<close>, \<open>cat_loop\<close> is the \<^verbatim>\<open>for (;;)\<close> of its \<^verbatim>\<open>push\<close>. The decoder is an
  interpretation of \<open>stream_decoder\<close>, so what it returns does not depend on how the pipe cut the
  stream; the second half parses the bodies and reads back what Git wrote.
\<close>

section \<open>Header lines\<close>

datatype object_type = CommitType | TreeType | BlobType | TagType

datatype cat_entry =
    CatFileObject jsstring object_type "byte list"
  | CatFileMissing jsstring

datatype parsed_header =
    ObjectHeader jsstring object_type nat
  | MissingHeader jsstring

definition CAT_FORMAT :: string where
  "CAT_FORMAT = ''cat-file --batch''"

definition objectMaxBytes :: nat where
  "objectMaxBytes = 16 * 1024 * 1024"

definition cat_error :: "string \<Rightarrow> js_error" where
  "cat_error msg = GitOutputParseError CAT_FORMAT msg None"

definition indexOfNewline :: "byte list \<Rightarrow> nat option" where
  "indexOfNewline bytes = indexOf bytes 0x0a"

fun decodeAsciiLine :: "byte list \<Rightarrow> js_error + jsstring" where
  "decodeAsciiLine [] = Inr []"
| "decodeAsciiLine (b # bytes) =
     (if b > 0x7f then Inl (cat_error ''unexpected non-ASCII byte in a header'')
      else bindE (decodeAsciiLine bytes) (\<lambda>text. Inr (fromCharCode b # text)))"

definition object_type_of :: "jsstring \<Rightarrow> object_type option" where
  "object_type_of text =
     (if text = str ''commit'' then Some CommitType
      else if text = str ''tree'' then Some TreeType
      else if text = str ''blob'' then Some BlobType
      else if text = str ''tag'' then Some TagType
      else None)"

text \<open>
  \<^verbatim>\<open>size > objectMaxBytes\<close> on the number read. The size text is all digits, so the number is a
  natural one or infinite, and the last two cases of \<open>header_size\<close> are never reached.
\<close>

fun header_size :: "jsnumber \<Rightarrow> js_error + nat" where
  "header_size (Fin n) =
     (if n > int objectMaxBytes then Inl (cat_error ''object exceeds the byte limit'') else Inr (nat n))"
| "header_size PosInf = Inl (cat_error ''object exceeds the byte limit'')"
| "header_size NegInf = Inr 0"
| "header_size NaN = Inr 0"

definition parseHeaderLine :: "byte list \<Rightarrow> js_error + parsed_header" where
  "parseHeaderLine line =
     bindE (decodeAsciiLine line) (\<lambda>text.
     (case indexOf text 0x20 of
        None \<Rightarrow> Inl (cat_error ''unrecognised header line'')
      | Some space \<Rightarrow>
          (let first = take space text; rest' = drop (space + 1) text
           in if rest' = str ''missing'' \<or> startsWith rest' (str ''missing '') then Inr (MissingHeader first)
              else if startsWith rest' (str ''ambiguous'') then Inl (cat_error ''object name is ambiguous'')
              else (case splitOn 0x20 rest' of
                  [typeText, sizeText] \<Rightarrow>
                    if \<not> all_digits sizeText then Inl (cat_error ''unrecognised object size'')
                    else (case object_type_of typeText of
                        None \<Rightarrow> Inl (cat_error ''unexpected object type'')
                      | Some ty \<Rightarrow>
                          bindE (header_size (parseInt10 sizeText)) (\<lambda>size. Inr (ObjectHeader first ty size)))
                | _ \<Rightarrow> Inl (cat_error ''unrecognised header line'')))))"

section \<open>The decoder\<close>

record cat_state =
  cf_buffer :: "byte list"
  cf_expectedBody :: "nat option"
  cf_headerLine :: "byte list"

definition newCatFileDecoder :: cat_state where
  "newCatFileDecoder = \<lparr>cf_buffer = [], cf_expectedBody = None, cf_headerLine = []\<rparr>"

definition materialize :: "byte list \<Rightarrow> byte list \<Rightarrow> js_error + cat_entry" where
  "materialize header body =
     bindE (parseHeaderLine header) (\<lambda>parsed.
     (case parsed of
        MissingHeader _ \<Rightarrow> Inl (cat_error ''internal: missing-object header reached materialisation'')
      | ObjectHeader oid ty _ \<Rightarrow> Inr (CatFileObject oid ty body)))"

text \<open>
  One turn of the loop of \<^verbatim>\<open>push\<close>: \<open>None\<close> is the \<^verbatim>\<open>break\<close>, otherwise the fields after the turn
  and the entries it pushed.
\<close>

definition cat_turn :: "cat_state \<Rightarrow> js_error + (cat_state \<times> cat_entry list) option" where
  "cat_turn s =
     (case cf_expectedBody s of
        Some n \<Rightarrow>
          if length (cf_buffer s) < n + 1 then Inr None
          else if at (cf_buffer s) n \<noteq> Some 0x0a
          then Inl (GitOutputParseError CAT_FORMAT ''object body was not followed by a newline'' (Some n))
          else if length (take n (cf_buffer s)) > objectMaxBytes
          then Inl (cat_error ''object body exceeds the byte limit'')
          else bindE (materialize (cf_headerLine s) (take n (cf_buffer s))) (\<lambda>entry.
               Inr (Some (\<lparr>cf_buffer = drop (n + 1) (cf_buffer s), cf_expectedBody = None,
                           cf_headerLine = []\<rparr>, [entry])))
      | None \<Rightarrow>
          (case indexOfNewline (cf_buffer s) of
             None \<Rightarrow> Inr None
           | Some lineEnd \<Rightarrow>
               (let line = concatBytes [cf_headerLine s, take lineEnd (cf_buffer s)];
                    buffer = drop (lineEnd + 1) (cf_buffer s)
                in bindE (parseHeaderLine line) (\<lambda>parsed.
                   (case parsed of
                      MissingHeader input \<Rightarrow>
                        Inr (Some (\<lparr>cf_buffer = buffer, cf_expectedBody = None, cf_headerLine = []\<rparr>,
                                   [CatFileMissing input]))
                    | ObjectHeader oid ty expected \<Rightarrow>
                        Inr (Some (\<lparr>cf_buffer = buffer, cf_expectedBody = Some expected,
                                    cf_headerLine = line\<rparr>, [])))))))"

lemma cat_turn_shrinks:
  "cat_turn s = Inr (Some (t, es)) \<Longrightarrow> length (cf_buffer t) < length (cf_buffer s)"
  by (auto simp: cat_turn_def indexOfNewline_def Let_def
      split: option.splits if_splits parsed_header.splits dest!: indexOf_SomeD)

function cat_loop :: "cat_state \<Rightarrow> js_error + cat_state \<times> cat_entry list" where
  "cat_loop s =
     bindE (cat_turn s) (\<lambda>r.
     (case r of
        None \<Rightarrow> Inr (s, [])
      | Some (t, es) \<Rightarrow> bindE (cat_loop t) (\<lambda>(u, es'). Inr (u, es @ es'))))"
  by pat_completeness auto
termination
  by (relation "measure (\<lambda>s. length (cf_buffer s))") (auto dest: cat_turn_shrinks)

declare cat_loop.simps [simp del]

definition cat_push :: "cat_state \<Rightarrow> byte list \<Rightarrow> js_error + cat_state \<times> cat_entry list" where
  "cat_push s chunk =
     cat_loop (s\<lparr>cf_buffer := (if cf_buffer s = [] then chunk else concatBytes [cf_buffer s, chunk])\<rparr>)"

definition cat_finish :: "cat_state \<Rightarrow> js_error + unit" where
  "cat_finish s =
     (if cf_expectedBody s \<noteq> None then Inl (cat_error ''stream ended inside an object body'')
      else if cf_buffer s \<noteq> [] then Inl (cat_error ''stream ended with bytes of an unfinished header'')
      else Inr ())"

section \<open>Chunks do not matter\<close>

lemma cat_push_eq: "cat_push s chunk = cat_loop (s\<lparr>cf_buffer := cf_buffer s @ chunk\<rparr>)"
  by (simp add: cat_push_def)

text \<open>Between pushes the loop has stopped: no whole line, or not yet the whole body.\<close>

definition cat_inv :: "cat_state \<Rightarrow> bool" where
  "cat_inv s \<longleftrightarrow>
     (case cf_expectedBody s of
        None \<Rightarrow> cf_headerLine s = [] \<and> 0x0a \<notin> set (cf_buffer s)
      | Some n \<Rightarrow> length (cf_buffer s) < n + 1 \<and> (\<exists>oid ty. parseHeaderLine (cf_headerLine s) = Inr (ObjectHeader oid ty n)))"

text \<open>What holds before each turn of the loop.\<close>

definition cat_ready :: "cat_state \<Rightarrow> bool" where
  "cat_ready s \<longleftrightarrow>
     (case cf_expectedBody s of
        None \<Rightarrow> cf_headerLine s = []
      | Some n \<Rightarrow> (\<exists>oid ty. parseHeaderLine (cf_headerLine s) = Inr (ObjectHeader oid ty n)))"

lemma cat_inv_ready: "cat_inv s \<Longrightarrow> cat_ready (s\<lparr>cf_buffer := b\<rparr>)"
  by (auto simp: cat_inv_def cat_ready_def split: option.splits)

lemma cat_turn_stop: "cat_ready s \<Longrightarrow> cat_turn s = Inr None \<longleftrightarrow> cat_inv s"
  by (auto simp: cat_turn_def cat_ready_def cat_inv_def indexOfNewline_def Let_def
      split: option.splits parsed_header.splits simp flip: indexOf_None)

lemma cat_turn_ready: "cat_turn s = Inr (Some (t, es)) \<Longrightarrow> cat_ready t"
  by (auto simp: cat_turn_def cat_ready_def Let_def split: option.splits if_splits parsed_header.splits)

text \<open>A turn only looks at what it consumes: bytes behind it change nothing.\<close>

fun more_after :: "byte list \<Rightarrow> (cat_state \<times> cat_entry list) option \<Rightarrow> (cat_state \<times> cat_entry list) option" where
  "more_after c None = None"
| "more_after c (Some (t, es)) = Some (t\<lparr>cf_buffer := cf_buffer t @ c\<rparr>, es)"

lemma cat_turn_more:
  assumes "cat_turn s \<noteq> Inr None"
  shows "cat_turn (s\<lparr>cf_buffer := cf_buffer s @ c\<rparr>) = bindE (cat_turn s) (\<lambda>r. Inr (more_after c r))"
proof (cases "cf_expectedBody s")
  case None
  with assms obtain i where i: "indexOf (cf_buffer s) 0x0a = Some i"
    by (auto simp: cat_turn_def indexOfNewline_def split: option.splits)
  with None indexOf_SomeD [OF i] show ?thesis
    by (cases "parseHeaderLine (cf_headerLine s @ take i (cf_buffer s))")
      (simp_all add: cat_turn_def indexOfNewline_def indexOf_append Let_def split: parsed_header.split)
next
  case (Some n)
  with assms have "n < length (cf_buffer s)" by (auto simp: cat_turn_def split: if_splits)
  with Some show ?thesis
    by (cases "materialize (cf_headerLine s) (take n (cf_buffer s))")
      (simp_all add: cat_turn_def at_def nth_append)
qed

lemma cat_loop_stop: "cat_inv s \<Longrightarrow> cat_loop s = Inr (s, [])"
  using cat_turn_stop [of s] cat_inv_ready [of s "cf_buffer s"] by (subst cat_loop.simps) simp

lemma cat_loop_inv: "cat_ready s \<Longrightarrow> cat_loop s = Inr (t, es) \<Longrightarrow> cat_inv t"
proof (induction s arbitrary: t es rule: cat_loop.induct)
  case (1 s)
  from "1.prems"(2) consider "cat_turn s = Inr None" "t = s"
    | u xs ys where "cat_turn s = Inr (Some (u, xs))" "cat_loop u = Inr (t, ys)"
    by (subst (asm) cat_loop.simps) (auto split: option.splits prod.splits)
  then show ?case
  proof cases
    case 1
    then show ?thesis using "1.prems"(1) cat_turn_stop by simp
  next
    case 2
    then show ?thesis using "1.IH" [OF 2(1) refl refl cat_turn_ready [OF 2(1)]] by blast
  qed
qed

lemma cat_loop_append:
  "cat_ready s \<Longrightarrow> cat_loop (s\<lparr>cf_buffer := cf_buffer s @ c\<rparr>) =
     bindE (cat_loop s) (\<lambda>(t, xs).
     bindE (cat_loop (t\<lparr>cf_buffer := cf_buffer t @ c\<rparr>)) (\<lambda>(u, ys). Inr (u, xs @ ys)))"
proof (induction s rule: cat_loop.induct)
  case (1 s)
  show ?case
  proof (cases "cat_turn s")
    case (Inl e)
    then show ?thesis
      using cat_turn_more [of s c] by (simp add: cat_loop.simps [of s] cat_loop.simps [of "s\<lparr>cf_buffer := x\<rparr>" for x])
  next
    case (Inr r)
    show ?thesis
    proof (cases r)
      case None
      with Inr 1 cat_turn_stop have "cat_loop s = Inr (s, [])" by (auto intro: cat_loop_stop)
      then show ?thesis by (cases "cat_loop (s\<lparr>cf_buffer := cf_buffer s @ c\<rparr>)") auto
    next
      case (Some p)
      obtain t es where p: "p = (t, es)" by fastforce
      with Inr Some have turn: "cat_turn s = Inr (Some (t, es))" by simp
      from "1.IH" [OF turn refl refl cat_turn_ready [OF turn]] show ?thesis
        using cat_turn_more [of s c]
        by (simp add: cat_loop.simps [of s] cat_loop.simps [of "s\<lparr>cf_buffer := cf_buffer s @ c\<rparr>"] turn
            bindE_assoc case_prod_unfold)
    qed
  qed
qed

interpretation cat: stream_decoder cat_push cat_inv
proof
  fix s t :: cat_state and bs xs
  assume "cat_inv s" "cat_push s bs = Inr (t, xs)"
  then show "cat_inv t" by (auto simp: cat_push_eq intro: cat_loop_inv cat_inv_ready)
next
  fix s :: cat_state assume "cat_inv s"
  then show "cat_push s [] = Inr (s, [])" by (simp add: cat_push_eq cat_loop_stop)
next
  fix s :: cat_state and bs cs assume "cat_inv s"
  then show "cat_push s (bs @ cs) =
      bindE (cat_push s bs) (\<lambda>(t, xs). bindE (cat_push t cs) (\<lambda>(u, ys). Inr (u, xs @ ys)))"
    using cat_loop_append [OF cat_inv_ready [of s "cf_buffer s @ bs"], of cs]
    by (simp add: cat_push_eq)
qed

section \<open>What Git writes is read back\<close>

text \<open>The stream of \<^verbatim>\<open>git cat-file --batch\<close>, as data and as bytes.\<close>

datatype git_object = GObject "byte list" object_type "byte list" | GMissing "byte list"

fun type_bytes :: "object_type \<Rightarrow> byte list" where
  "type_bytes CommitType = asc ''commit''"
| "type_bytes TreeType = asc ''tree''"
| "type_bytes BlobType = asc ''blob''"
| "type_bytes TagType = asc ''tag''"

fun object_line :: "git_object \<Rightarrow> byte list" where
  "object_line (GObject oid ty body) =
     oid @ 0x20 # type_bytes ty @ 0x20 # decimal_bytes (length body)"
| "object_line (GMissing name) = name @ 0x20 # asc ''missing''"

fun object_bytes :: "git_object \<Rightarrow> byte list" where
  "object_bytes (GObject oid ty body) = object_line (GObject oid ty body) @ 0x0a # body @ [0x0a]"
| "object_bytes (GMissing name) = object_line (GMissing name) @ [0x0a]"

fun object_entry :: "git_object \<Rightarrow> cat_entry" where
  "object_entry (GObject oid ty body) = CatFileObject (latin1 oid) ty body"
| "object_entry (GMissing name) = CatFileMissing (latin1 name)"

definition name_ok :: "byte list \<Rightarrow> bool" where
  "name_ok v \<longleftrightarrow> is_ascii v \<and> 0x20 \<notin> set v \<and> 0x0a \<notin> set v"

fun object_ok :: "git_object \<Rightarrow> bool" where
  "object_ok (GObject oid ty body) \<longleftrightarrow> name_ok oid \<and> length body \<le> objectMaxBytes"
| "object_ok (GMissing name) \<longleftrightarrow> name_ok name"

lemma decodeAsciiLine_eq: "decodeAsciiLine bs =
    (if is_ascii bs then Inr (latin1 bs) else Inl (cat_error ''unexpected non-ASCII byte in a header''))"
  by (induction bs) (auto simp: not_le)

lemma type_bytes_facts [simp]:
  "is_ascii (type_bytes ty)" "0x20 \<notin> set (type_bytes ty)" "0x0a \<notin> set (type_bytes ty)"
  by (cases ty; simp)+

lemma object_type_of_type_bytes [simp]: "object_type_of (latin1 (type_bytes ty)) = Some ty"
  by (cases ty) (simp_all add: object_type_of_def latin1_asc str_inj del: asc_simps str_simps)

lemma type_bytes_not_marker:
  "latin1 (type_bytes ty @ after) \<noteq> str ''missing''"
  "\<not> startsWith (latin1 (type_bytes ty @ after)) (str ''missing '')"
  "\<not> startsWith (latin1 (type_bytes ty @ after)) (str ''ambiguous'')"
  by (cases ty; simp add: startsWith_def fromCharCode_def)+

lemma space_latin1: "0x20 \<notin> set bs \<Longrightarrow> 0x20 \<notin> set (latin1 bs)"
  using in_latin1 [of "0x20" bs] by simp

lemma parseHeaderLine_missing:
  "name_ok name \<Longrightarrow> parseHeaderLine (object_line (GMissing name)) = Inr (MissingHeader (latin1 name))"
  using space_latin1 [of name] indexOf_first [of "0x20" "latin1 name"]
  by (simp add: parseHeaderLine_def decodeAsciiLine_eq name_ok_def fromCharCode_def)

lemma header_size_number:
  assumes "n \<le> objectMaxBytes"
  shows "header_size (toNumber (int n)) = Inr n"
proof -
  have "\<bar>int n\<bar> < 2 ^ 53" using assms by (simp add: objectMaxBytes_def)
  from toNumber_exact [OF this] assms show ?thesis by simp
qed

lemma parseHeaderLine_object:
  assumes "name_ok oid" and "n \<le> objectMaxBytes"
  shows "parseHeaderLine (oid @ 0x20 # type_bytes ty @ 0x20 # decimal_bytes n) =
    Inr (ObjectHeader (latin1 oid) ty n)"
proof -
  let ?rest = "latin1 (type_bytes ty @ 0x20 # decimal_bytes n)"
  have "indexOf (latin1 oid @ 0x20 # ?rest) 0x20 = Some (length oid)"
    using assms(1) indexOf_first [of "0x20" "latin1 oid" ?rest] by (simp add: name_ok_def space_latin1)
  moreover have "splitOn 0x20 ?rest = [latin1 (type_bytes ty), decimal n]"
    using space_latin1 [of "decimal_bytes n"] space_latin1 [of "type_bytes ty"] decimal_bytes_field [of n]
    by simp
  moreover note type_bytes_not_marker [of ty "0x20 # decimal_bytes n"]
  ultimately show ?thesis
    using assms decimal_bytes_field [of n] header_size_number [OF assms(2)]
    by (simp add: parseHeaderLine_def decodeAsciiLine_eq name_ok_def parseInt10_decimal)
qed

lemma object_line_newline: "object_ok obj \<Longrightarrow> 0x0a \<notin> set (object_line obj)"
  using decimal_bytes_field by (cases obj) (auto simp: name_ok_def)

lemma cat_loop_line:
  assumes "0x0a \<notin> set line"
  shows "cat_loop \<lparr>cf_buffer = line @ 0x0a # later, cf_expectedBody = None, cf_headerLine = []\<rparr> =
    bindE (parseHeaderLine line) (\<lambda>parsed. (case parsed of
      MissingHeader input \<Rightarrow>
        bindE (cat_loop \<lparr>cf_buffer = later, cf_expectedBody = None, cf_headerLine = []\<rparr>)
          (\<lambda>(u, es). Inr (u, CatFileMissing input # es))
    | ObjectHeader oid ty n \<Rightarrow>
        cat_loop \<lparr>cf_buffer = later, cf_expectedBody = Some n, cf_headerLine = line\<rparr>))"
proof -
  let ?s = "\<lparr>cf_buffer = line @ 0x0a # later, cf_expectedBody = None, cf_headerLine = []\<rparr>"
  have "cat_turn ?s = bindE (parseHeaderLine line) (\<lambda>parsed. (case parsed of
      MissingHeader input \<Rightarrow>
        Inr (Some (\<lparr>cf_buffer = later, cf_expectedBody = None, cf_headerLine = []\<rparr>, [CatFileMissing input]))
    | ObjectHeader oid ty n \<Rightarrow>
        Inr (Some (\<lparr>cf_buffer = later, cf_expectedBody = Some n, cf_headerLine = line\<rparr>, []))))"
    using assms by (simp add: cat_turn_def indexOfNewline_def)
  then have "cat_loop ?s = bindE (parseHeaderLine line) (\<lambda>parsed. (case parsed of
      MissingHeader input \<Rightarrow>
        bindE (cat_loop \<lparr>cf_buffer = later, cf_expectedBody = None, cf_headerLine = []\<rparr>)
          (\<lambda>(u, es). Inr (u, [CatFileMissing input] @ es))
    | ObjectHeader oid ty n \<Rightarrow>
        bindE (cat_loop \<lparr>cf_buffer = later, cf_expectedBody = Some n, cf_headerLine = line\<rparr>)
          (\<lambda>(u, es). Inr (u, [] @ es))))"
    by (subst cat_loop.simps) (cases "parseHeaderLine line"; simp split: parsed_header.split)
  then show ?thesis by (simp add: bindE_Inr_id cong: parsed_header.case_cong)
qed

lemma cat_loop_body:
  assumes "parseHeaderLine line = Inr (ObjectHeader oid ty (length body))"
    and "length body \<le> objectMaxBytes"
  shows "cat_loop \<lparr>cf_buffer = body @ 0x0a # later, cf_expectedBody = Some (length body), cf_headerLine = line\<rparr> =
    bindE (cat_loop \<lparr>cf_buffer = later, cf_expectedBody = None, cf_headerLine = []\<rparr>)
      (\<lambda>(u, es). Inr (u, CatFileObject oid ty body # es))"
  using assms by (subst cat_loop.simps) (simp add: cat_turn_def materialize_def)

lemma cat_loop_object:
  assumes "object_ok obj"
  shows "cat_loop \<lparr>cf_buffer = object_bytes obj @ later, cf_expectedBody = None, cf_headerLine = []\<rparr> =
    bindE (cat_loop \<lparr>cf_buffer = later, cf_expectedBody = None, cf_headerLine = []\<rparr>)
      (\<lambda>(u, es). Inr (u, object_entry obj # es))"
proof (cases obj)
  case (GObject oid ty body)
  with assms parseHeaderLine_object [of oid "length body" ty] object_line_newline [OF assms] show ?thesis
    by (simp add: cat_loop_line [of "object_line obj" "body @ 0x0a # later", unfolded GObject, simplified]
        cat_loop_body)
next
  case (GMissing name)
  with assms parseHeaderLine_missing [of name] object_line_newline [OF assms] show ?thesis
    by (simp add: cat_loop_line [of "object_line obj" later, unfolded GMissing, simplified])
qed

lemma cat_loop_objects:
  "list_all object_ok objs \<Longrightarrow>
   cat_loop \<lparr>cf_buffer = concat (map object_bytes objs) @ later, cf_expectedBody = None, cf_headerLine = []\<rparr> =
     bindE (cat_loop \<lparr>cf_buffer = later, cf_expectedBody = None, cf_headerLine = []\<rparr>)
       (\<lambda>(u, es). Inr (u, map object_entry objs @ es))"
proof (induction objs)
  case Nil
  then show ?case by (cases "cat_loop \<lparr>cf_buffer = later, cf_expectedBody = None, cf_headerLine = []\<rparr>") auto
next
  case (Cons obj objs)
  then show ?case by (simp add: cat_loop_object bindE_assoc case_prod_unfold)
qed

lemma cat_inv_new: "cat_inv newCatFileDecoder"
  by (simp add: cat_inv_def newCatFileDecoder_def)

lemma cat_push_objects:
  assumes "list_all object_ok objs"
  shows "cat_push newCatFileDecoder (concat (map object_bytes objs)) =
    Inr (newCatFileDecoder, map object_entry objs)"
  using cat_loop_objects [OF assms, of "[]"] cat_loop_stop [OF cat_inv_new]
  by (simp add: cat_push_eq newCatFileDecoder_def)

text \<open>
  C22. However the stream of \<^verbatim>\<open>git cat-file --batch\<close> is cut into chunks, the incremental decoder
  returns exactly the objects and missing names Git wrote, in order, with their bodies verbatim,
  and ends with nothing pending, for all bodies within the 16 MiB limit.
\<close>

theorem cat_file_roundtrip:
  assumes "list_all object_ok objs" and "concat chunks = concat (map object_bytes objs)"
  shows "feed cat_push newCatFileDecoder chunks = Inr (newCatFileDecoder, map object_entry objs) \<and>
    cat_finish newCatFileDecoder = Inr ()"
  using assms cat.feed_concat [OF cat_inv_new, of chunks]
  by (simp add: cat_push_objects) (simp add: cat_finish_def newCatFileDecoder_def)

definition sample_objects :: "git_object list" where
  "sample_objects = [GObject (asc ''ab12'') BlobType [0x0a, 0xff, 0x0a], GMissing (asc ''HEAD''), GObject (asc ''c0'') TreeType []]"

lemma sample_objects_ok: "list_all object_ok sample_objects"
  by (simp add: sample_objects_def name_ok_def objectMaxBytes_def)

lemma cat_file_roundtrip_witness:
  "feed cat_push newCatFileDecoder (map (\<lambda>b. [b]) (concat (map object_bytes sample_objects))) =
     Inr (newCatFileDecoder, map object_entry sample_objects)"
  using cat_file_roundtrip [OF sample_objects_ok, of "map (\<lambda>b. [b]) (concat (map object_bytes sample_objects))"]
  by simp

section \<open>Every byte is accounted for\<close>

text \<open>A decoded frame: the header line that announced it, and the entry.\<close>

fun frame_bytes :: "byte list \<times> cat_entry \<Rightarrow> byte list" where
  "frame_bytes (line, CatFileObject oid ty body) = line @ 0x0a # body @ [0x0a]"
| "frame_bytes (line, CatFileMissing input) = line @ [0x0a]"

fun frame_ok :: "byte list \<times> cat_entry \<Rightarrow> bool" where
  "frame_ok (line, CatFileObject oid ty body) \<longleftrightarrow>
     parseHeaderLine line = Inr (ObjectHeader oid ty (length body)) \<and> length body \<le> objectMaxBytes"
| "frame_ok (line, CatFileMissing input) \<longleftrightarrow> parseHeaderLine line = Inr (MissingHeader input)"

definition cat_pending :: "cat_state \<Rightarrow> byte list" where
  "cat_pending s =
     (case cf_expectedBody s of None \<Rightarrow> cf_buffer s | Some n \<Rightarrow> cf_headerLine s @ 0x0a # cf_buffer s)"

lemma split_at: "at xs n = Some x \<Longrightarrow> xs = take n xs @ x # drop (Suc n) xs"
  by (auto simp: at_def id_take_nth_drop split: if_splits)

lemma indexOf_split: "indexOf xs y = Some n \<Longrightarrow> xs = take n xs @ y # drop (Suc n) xs"
  using indexOf_SomeD [of xs y n] by (intro split_at) (simp add: at_def)

lemma cat_turn_frames:
  assumes "cat_ready s" and "cat_turn s = Inr (Some (t, es))"
  shows "\<exists>fs. map snd fs = es \<and> list_all frame_ok fs \<and>
    cat_pending s = concat (map frame_bytes fs) @ cat_pending t"
proof (cases "cf_expectedBody s")
  case (Some n)
  from assms(2) Some have "at (cf_buffer s) n = Some 0x0a"
    by (auto simp: cat_turn_def split: if_splits)
  note buf = split_at [OF this]
  from assms Some obtain oid ty where
    h: "parseHeaderLine (cf_headerLine s) = Inr (ObjectHeader oid ty n)"
    by (auto simp: cat_ready_def)
  with assms(2) Some have turn: "es = [CatFileObject oid ty (take n (cf_buffer s))]"
    "t = \<lparr>cf_buffer = drop (Suc n) (cf_buffer s), cf_expectedBody = None, cf_headerLine = []\<rparr>"
    "\<not> length (cf_buffer s) < n + 1" "length (take n (cf_buffer s)) \<le> objectMaxBytes"
    by (auto simp: cat_turn_def materialize_def split: if_splits)
  have "cat_pending s = frame_bytes (cf_headerLine s, hd es) @ cat_pending t"
    using Some buf by (simp add: cat_pending_def turn)
  moreover have "frame_ok (cf_headerLine s, hd es)" using h turn by simp
  ultimately show ?thesis by (intro exI [of _ "[(cf_headerLine s, hd es)]"]) (simp add: turn)
next
  case None
  then have s: "cf_headerLine s = []" using assms(1) by (simp add: cat_ready_def)
  from assms(2) None obtain n where "indexOf (cf_buffer s) 0x0a = Some n"
    by (auto simp: cat_turn_def indexOfNewline_def split: option.splits)
  note n = this indexOf_split [OF this]
  let ?line = "take n (cf_buffer s)"
  from assms(2) None s n(1) consider
      input where "parseHeaderLine ?line = Inr (MissingHeader input)" "es = [CatFileMissing input]"
        "cat_pending t = drop (Suc n) (cf_buffer s)"
    | "es = []" "cat_pending t = ?line @ 0x0a # drop (Suc n) (cf_buffer s)"
    by (auto simp: cat_turn_def indexOfNewline_def cat_pending_def Let_def split: parsed_header.splits)
  then show ?thesis
  proof cases
    case 1
    with None n show ?thesis by (intro exI [of _ "[(?line, hd es)]"]) (simp add: cat_pending_def)
  next
    case 2
    with None n show ?thesis by (simp add: cat_pending_def)
  qed
qed

lemma cat_loop_frames:
  "cat_ready s \<Longrightarrow> cat_loop s = Inr (t, es) \<Longrightarrow>
   \<exists>fs. map snd fs = es \<and> list_all frame_ok fs \<and>
     cat_pending s = concat (map frame_bytes fs) @ cat_pending t"
proof (induction s arbitrary: t es rule: cat_loop.induct)
  case (1 s)
  from "1.prems"(2) consider "t = s" "es = []"
    | u xs ys where "cat_turn s = Inr (Some (u, xs))" "cat_loop u = Inr (t, ys)" "es = xs @ ys"
    by (subst (asm) cat_loop.simps) (auto split: option.splits prod.splits)
  then show ?case
  proof cases
    case 1
    then show ?thesis by simp
  next
    case 2
    from "1.IH" [OF 2(1) refl refl cat_turn_ready [OF 2(1)] 2(2)] obtain gs where
      "map snd gs = ys \<and> list_all frame_ok gs \<and> cat_pending u = concat (map frame_bytes gs) @ cat_pending t"
      by blast
    moreover from cat_turn_frames [OF "1.prems"(1) 2(1)] obtain fs where
      "map snd fs = xs \<and> list_all frame_ok fs \<and> cat_pending s = concat (map frame_bytes fs) @ cat_pending u"
      by blast
    ultimately show ?thesis using 2(3) by (intro exI [of _ "fs @ gs"]) simp
  qed
qed

text \<open>
  Whatever the input, as long as no push fails: the bytes received are exactly the header lines
  and bodies of the entries returned followed by what is still pending; each body has the length
  its header line announced and is within the limit; and \<^verbatim>\<open>finish\<close> succeeds exactly when nothing is
  pending, so a truncated object is reported and never dropped.
\<close>

theorem cat_decoder_sound:
  assumes "feed cat_push newCatFileDecoder chunks = Inr (t, es)"
  shows "\<exists>fs. map snd fs = es \<and> list_all frame_ok fs \<and>
    concat chunks = concat (map frame_bytes fs) @ cat_pending t \<and>
    (cat_finish t = Inr () \<longleftrightarrow> cat_pending t = [])"
proof -
  let ?s = "newCatFileDecoder\<lparr>cf_buffer := concat chunks\<rparr>"
  have run: "cat_loop ?s = Inr (t, es)"
    using assms by (simp add: cat.feed_concat [OF cat_inv_new] cat_push_eq) (simp add: newCatFileDecoder_def)
  have "cat_ready ?s" by (rule cat_inv_ready [OF cat_inv_new])
  from cat_loop_frames [OF this run] show ?thesis
    by (auto simp: cat_pending_def newCatFileDecoder_def cat_finish_def split: option.splits)
qed

lemma cat_decoder_sound_witness:
  "\<exists>fs. map snd fs = map object_entry sample_objects \<and> list_all frame_ok fs \<and>
     concat (map object_bytes sample_objects) = concat (map frame_bytes fs)"
proof -
  have "feed cat_push newCatFileDecoder [concat (map object_bytes sample_objects)] =
      Inr (newCatFileDecoder, map object_entry sample_objects)"
    using cat_push_objects [OF sample_objects_ok] by simp
  from cat_decoder_sound [OF this] show ?thesis by (auto simp: cat_pending_def newCatFileDecoder_def)
qed

section \<open>Object bodies\<close>

record commit_identity =
  ci_nameBytes :: "byte list"
  ci_emailBytes :: "byte list"
  ci_timestamp :: jsnumber
  ci_timezoneOffset :: jsstring

record commit_object =
  co_treeOid :: jsstring
  co_parentOids :: "jsstring list"
  co_author :: commit_identity
  co_committer :: commit_identity
  co_encoding :: "jsstring option"
  co_signed :: bool
  co_messageBytes :: "byte list"

record tag_object =
  to_objectOid :: jsstring
  to_objectType :: jsstring
  to_tagName :: jsstring
  to_tagger :: "commit_identity option"
  to_signed :: bool
  to_messageBytes :: "byte list"

text \<open>
  The loop of \<^verbatim>\<open>splitObjectBody\<close>: the index, the start of the current line, and the headers read.
\<close>

function split_body ::
  "byte list \<Rightarrow> string \<Rightarrow> nat \<Rightarrow> nat \<Rightarrow> byte list list \<Rightarrow> js_error + byte list list \<times> nat" where
  "split_body body fmt index lineStart headers =
     (if index \<ge> length body then
        (if lineStart = length body then Inr (headers, length body)
         else Inl (GitOutputParseError fmt ''object body has a trailing header line without a newline'' None))
      else if body ! index \<noteq> 0x0a then split_body body fmt (index + 1) lineStart headers
      else (let line = subarray body lineStart index
            in if line = [] then Inr (headers, index + 1)
               else if at body lineStart = Some 0x20 \<and> headers \<noteq> []
               then split_body body fmt (index + 1) (index + 1)
                      (butlast headers @ [concatBytes [last headers, [0x0a], line]])
               else split_body body fmt (index + 1) (index + 1) (headers @ [line])))"
  by pat_completeness auto
termination
  by (relation "measure (\<lambda>(body, fmt, index, lineStart, headers). length body - index)") auto

declare split_body.simps [simp del]

definition splitObjectBody :: "byte list \<Rightarrow> string \<Rightarrow> js_error + byte list list \<times> nat" where
  "splitObjectBody body fmt = split_body body fmt 0 0 []"

fun headerValue :: "byte list list \<Rightarrow> string \<Rightarrow> byte list option" where
  "headerValue [] key = None"
| "headerValue (header # headers) key =
     (if startsWith header (asc key @ [0x20]) then Some (drop (length key + 1) header)
      else headerValue headers key)"

fun headerValues :: "byte list list \<Rightarrow> string \<Rightarrow> byte list list" where
  "headerValues [] key = []"
| "headerValues (header # headers) key =
     (if length header < length key + 1 then headerValues headers key
      else if startsWith header (asc key @ [0x20])
      then drop (length key + 1) header # headerValues headers key
      else headerValues headers key)"

definition hasHeader :: "byte list list \<Rightarrow> string \<Rightarrow> bool" where
  "hasHeader headers key \<longleftrightarrow> headerValue headers key \<noteq> None"

fun lastIndex_loop :: "byte list \<Rightarrow> byte \<Rightarrow> nat \<Rightarrow> nat option" where
  "lastIndex_loop bytes b 0 = None"
| "lastIndex_loop bytes b (Suc i) = (if at bytes i = Some b then Some i else lastIndex_loop bytes b i)"

definition lastIndexOfByte :: "byte list \<Rightarrow> byte \<Rightarrow> nat \<Rightarrow> nat option" where
  "lastIndexOfByte bytes b before = lastIndex_loop bytes b (min before (length bytes))"

text \<open>\<^verbatim>\<open>/^ (\d+) ([+-]\d{4})$/\<close>, with its two groups.\<close>

definition match_tail :: "jsstring \<Rightarrow> (jsstring \<times> jsstring) option" where
  "match_tail text =
     (case text of
        [] \<Rightarrow> None
      | c # t \<Rightarrow>
          (let digits = takeWhile isDigit t; after = dropWhile isDigit t
           in if c = 0x20 \<and> digits \<noteq> [] \<and> length after = 6 \<and> after ! 0 = 0x20 \<and>
                 (after ! 1 = 0x2b \<or> after ! 1 = 0x2d) \<and> list_all isDigit (drop 2 after)
              then Some (digits, drop 1 after) else None))"

definition parseIdentity :: "byte list \<Rightarrow> string \<Rightarrow> js_error + commit_identity" where
  "parseIdentity bytes fmt =
     (case lastIndexOfByte bytes 0x3e (length bytes) of
        None \<Rightarrow> Inl (GitOutputParseError fmt ''identity line has no >'' None)
      | Some gt \<Rightarrow>
          (case lastIndexOfByte bytes 0x3c gt of
             None \<Rightarrow> Inl (GitOutputParseError fmt ''identity line has no < before its >'' None)
           | Some lt \<Rightarrow>
               (let nameEnd = (if lt > 0 \<and> at bytes (lt - 1) = Some 0x20 then lt - 1 else lt)
                in bindE (decodeAsciiLine (drop (gt + 1) bytes)) (\<lambda>restText.
                   (case match_tail restText of
                      None \<Rightarrow> Inl (GitOutputParseError fmt ''unrecognised identity tail'' None)
                    | Some (digits, offset) \<Rightarrow>
                        Inr \<lparr>ci_nameBytes = take nameEnd bytes,
                             ci_emailBytes = subarray bytes (lt + 1) gt,
                             ci_timestamp = parseInt10 digits,
                             ci_timezoneOffset = offset\<rparr>)))))"

definition object_name_line :: "string \<Rightarrow> string \<Rightarrow> byte list \<Rightarrow> js_error + jsstring" where
  "object_name_line fmt msg bytes =
     bindE (decodeAsciiLine bytes) (\<lambda>text.
     if isObjectName text then Inr text else Inl (GitOutputParseError fmt msg None))"

definition decode_optional :: "byte list option \<Rightarrow> js_error + jsstring option" where
  "decode_optional v =
     (case v of None \<Rightarrow> Inr None | Some bytes \<Rightarrow> bindE (decodeAsciiLine bytes) (\<lambda>t. Inr (Some t)))"

definition parseCommitObject :: "byte list \<Rightarrow> js_error + commit_object" where
  "parseCommitObject body =
     bindE (splitObjectBody body ''commit object'') (\<lambda>(headers, messageOffset).
     (case headerValue headers ''tree'' of
        None \<Rightarrow> Inl (GitOutputParseError ''commit object'' ''commit has no tree header'' None)
      | Some tree \<Rightarrow>
     (case (headerValue headers ''author'', headerValue headers ''committer'') of
        (Some authorBytes, Some committerBytes) \<Rightarrow>
          bindE (mapE (object_name_line ''commit object'' ''unexpected parent object name'')
                  (headerValues headers ''parent'')) (\<lambda>parents.
          bindE (object_name_line ''commit object'' ''unexpected tree object name'' tree) (\<lambda>treeText.
          bindE (parseIdentity authorBytes ''commit object'') (\<lambda>author.
          bindE (parseIdentity committerBytes ''commit object'') (\<lambda>committer.
          bindE (decode_optional (headerValue headers ''encoding'')) (\<lambda>encoding.
          Inr \<lparr>co_treeOid = treeText, co_parentOids = parents, co_author = author,
               co_committer = committer, co_encoding = encoding,
               co_signed = hasHeader headers ''gpgsig'',
               co_messageBytes = drop messageOffset body\<rparr>)))))
      | _ \<Rightarrow> Inl (GitOutputParseError ''commit object'' ''commit has no author or committer header'' None))))"

definition parseTagObject :: "byte list \<Rightarrow> js_error + tag_object" where
  "parseTagObject body =
     bindE (splitObjectBody body ''tag object'') (\<lambda>(headers, messageOffset).
     (case (headerValue headers ''object'', headerValue headers ''type'', headerValue headers ''tag'') of
        (Some objectOid, Some objectType, Some tagName) \<Rightarrow>
          bindE (object_name_line ''tag object'' ''unexpected target object name'' objectOid) (\<lambda>oidText.
          bindE (decodeAsciiLine objectType) (\<lambda>typeText.
          bindE (decodeAsciiLine tagName) (\<lambda>nameText.
          bindE (case headerValue headers ''tagger'' of
                   None \<Rightarrow> Inr None
                 | Some bytes \<Rightarrow> bindE (parseIdentity bytes ''tag object'') (\<lambda>i. Inr (Some i))) (\<lambda>tagger.
          Inr \<lparr>to_objectOid = oidText, to_objectType = typeText, to_tagName = nameText,
               to_tagger = tagger, to_signed = hasHeader headers ''gpgsig'',
               to_messageBytes = drop messageOffset body\<rparr>))))
      | _ \<Rightarrow> Inl (GitOutputParseError ''tag object'' ''annotated tag is missing object, type or tag'' None)))"

text \<open>The first line of a message.\<close>

definition firstLineBytes :: "byte list \<Rightarrow> byte list" where
  "firstLineBytes messageBytes =
     (case indexOf messageBytes 0x0a of None \<Rightarrow> messageBytes | Some i \<Rightarrow> take i messageBytes)"

section \<open>Splitting a body\<close>

text \<open>The headers, each with the newline that ended it: nothing of the body is lost.\<close>

definition header_bytes :: "byte list list \<Rightarrow> byte list" where
  "header_bytes hs = concat (map (\<lambda>h. h @ [0x0a]) hs)"

lemma header_bytes_simps [simp]:
  "header_bytes [] = []" "header_bytes (h # hs) = h @ 0x0a # header_bytes hs"
  "header_bytes (hs @ gs) = header_bytes hs @ header_bytes gs"
  by (simp_all add: header_bytes_def)

lemma header_bytes_last: "hs \<noteq> [] \<Longrightarrow> header_bytes (butlast hs) @ last hs @ [0x0a] = header_bytes hs"
  by (cases hs rule: rev_cases) simp_all

lemma split_body_sound:
  "split_body body fmt i ls hs = Inr (gs, off) \<Longrightarrow> ls \<le> i \<Longrightarrow> i \<le> length body \<Longrightarrow>
   take ls body = header_bytes hs \<Longrightarrow>
   (off = length body \<and> body = header_bytes gs) \<or>
   (off \<le> length body \<and> take off body = header_bytes gs @ [0x0a])"
proof (induction body fmt i ls hs rule: split_body.induct)
  case (1 body fmt i ls hs)
  show ?case
  proof (cases "i \<ge> length body")
    case True
    with 1 show ?thesis by (subst (asm) split_body.simps) (auto split: if_splits)
  next
    case False
    let ?line = "subarray body ls i"
    have step: "take (Suc i) body = take ls body @ ?line @ [body ! i]"
      using False "1.prems"(2)
      by (metis append.assoc le_add_diff_inverse not_le subarray_def take_Suc_conv_app_nth take_add)
    consider "body ! i \<noteq> 0x0a" | "body ! i = 0x0a" "?line = []"
      | "body ! i = 0x0a" "?line \<noteq> []" "at body ls = Some 0x20 \<and> hs \<noteq> []"
      | "body ! i = 0x0a" "?line \<noteq> []" "\<not> (at body ls = Some 0x20 \<and> hs \<noteq> [])"
      by blast
    then show ?thesis
    proof cases
      case 1
      with "1.prems" False show ?thesis
        by (intro "1.IH"(1)) (auto simp: split_body.simps [of body fmt i])
    next
      case 2
      with "1.prems" False step have "gs = hs" "off = Suc i"
        by (auto simp: split_body.simps [of body fmt i])
      with 2 False step "1.prems" show ?thesis by simp
    next
      case 3
      with "1.prems" False step show ?thesis
        by (intro "1.IH"(2) [OF _ _ refl]) (auto simp: split_body.simps [of body fmt i] header_bytes_last)
    next
      case 4
      with "1.prems" False step show ?thesis
        by (intro "1.IH"(3) [OF _ _ refl]) (auto simp: split_body.simps [of body fmt i])
    qed
  qed
qed

lemma splitObjectBody_sound:
  assumes "splitObjectBody body fmt = Inr (hs, off)"
  shows "(off = length body \<and> body = header_bytes hs) \<or>
    (off \<le> length body \<and> body = header_bytes hs @ 0x0a # drop off body)"
proof -
  have "take off body = header_bytes hs @ [0x0a] \<Longrightarrow> body = header_bytes hs @ 0x0a # drop off body"
    by (metis append_Cons append_Nil append_assoc append_take_drop_id)
  then show ?thesis
    using split_body_sound [OF assms [unfolded splitObjectBody_def]] by auto
qed

text \<open>A header line, and the lines that continue it.\<close>

lemma split_body_scan:
  "0x0a \<notin> set line \<Longrightarrow> k \<le> length line \<Longrightarrow>
   split_body (pre @ line @ later) fmt (length pre) (length pre) hs =
   split_body (pre @ line @ later) fmt (length pre + k) (length pre) hs"
proof (induction k)
  case (Suc k)
  then have "(pre @ line @ later) ! (length pre + k) \<noteq> 0x0a"
    by (auto simp: nth_append) (metis Suc_le_eq nth_mem)
  with Suc show ?case
    by (simp add: split_body.simps [of "pre @ line @ later" fmt "length pre + k"])
qed simp

lemma split_body_line:
  assumes "0x0a \<notin> set line" and "line \<noteq> []"
  shows "split_body (pre @ line @ 0x0a # later) fmt (length pre) (length pre) hs =
    split_body (pre @ line @ 0x0a # later) fmt (length (pre @ line @ [0x0a])) (length (pre @ line @ [0x0a]))
      (if hd line = 0x20 \<and> hs \<noteq> [] then butlast hs @ [last hs @ 0x0a # line] else hs @ [line])"
  using split_body_scan [OF assms(1) order_refl, of pre "0x0a # later" fmt hs] assms(2)
  by (subst (asm) (2) split_body.simps)
    (cases line; simp add: nth_append subarray_def at_def Let_def)

lemma split_body_blank:
  "split_body (pre @ 0x0a # later) fmt (length pre) (length pre) hs = Inr (hs, Suc (length pre))"
  by (subst split_body.simps) (simp add: nth_append subarray_def)

text \<open>A logical header: a line that does not begin with a space, and continuation lines.\<close>

definition folded :: "byte list \<Rightarrow> byte list list \<Rightarrow> byte list" where
  "folded line conts = line @ concat (map (\<lambda>c. 0x0a # 0x20 # c) conts)"

lemma folded_Nil [simp]: "folded line [] = line"
  by (simp add: folded_def)

lemma split_body_folded:
  assumes "0x0a \<notin> set line" and "line \<noteq> []" and "hd line \<noteq> 0x20"
    and "list_all (\<lambda>c. 0x0a \<notin> set c) conts"
  shows "split_body (pre @ folded line conts @ 0x0a # later) fmt (length pre) (length pre) hs =
    split_body (pre @ folded line conts @ 0x0a # later) fmt
      (length (pre @ folded line conts @ [0x0a])) (length (pre @ folded line conts @ [0x0a]))
      (hs @ [folded line conts])"
  using assms(4)
proof (induction conts arbitrary: later rule: rev_induct)
  case Nil
  with assms show ?case using split_body_line [of line pre later fmt hs] by simp
next
  case (snoc c cs)
  let ?pre = "pre @ folded line cs @ [0x0a]"
  have "split_body (pre @ folded line cs @ 0x0a # (0x20 # c) @ 0x0a # later) fmt (length pre) (length pre) hs =
      split_body (?pre @ (0x20 # c) @ 0x0a # later) fmt (length ?pre) (length ?pre) (hs @ [folded line cs])"
    using snoc by simp
  also have "\<dots> = split_body (?pre @ (0x20 # c) @ 0x0a # later) fmt
      (length (?pre @ (0x20 # c) @ [0x0a])) (length (?pre @ (0x20 # c) @ [0x0a]))
      (hs @ [folded line (cs @ [c])])"
    using split_body_line [of "0x20 # c" ?pre later fmt "hs @ [folded line cs]"] snoc.prems
    by (simp add: folded_def)
  finally show ?case by (simp add: folded_def)
qed


lemma split_body_headers:
  assumes "list_all (\<lambda>(line, conts). 0x0a \<notin> set line \<and> line \<noteq> [] \<and> hd line \<noteq> 0x20 \<and>
      list_all (\<lambda>c. 0x0a \<notin> set c) conts) hs"
  shows "split_body (pre @ header_bytes (map (\<lambda>(l, cs). folded l cs) hs) @ 0x0a # message) fmt
      (length pre) (length pre) gs =
    Inr (gs @ map (\<lambda>(l, cs). folded l cs) hs,
         length (pre @ header_bytes (map (\<lambda>(l, cs). folded l cs) hs)) + 1)"
  using assms
proof (induction hs arbitrary: pre gs)
  case Nil
  then show ?case using split_body_blank [of pre message fmt gs] by simp
next
  case (Cons h hs)
  obtain l cs where h: "h = (l, cs)" by fastforce
  with Cons.prems have ok: "0x0a \<notin> set l" "l \<noteq> []" "hd l \<noteq> 0x20" "list_all (\<lambda>c. 0x0a \<notin> set c) cs"
    by auto
  show ?case
    using Cons.IH [of "pre @ folded l cs @ [0x0a]" "gs @ [folded l cs]"] Cons.prems
      split_body_folded [OF ok, of pre "header_bytes (map (\<lambda>(l, cs). folded l cs) hs) @ 0x0a # message" fmt gs]
    by (simp add: h)
qed

lemma splitObjectBody_headers:
  assumes "list_all (\<lambda>(line, conts). 0x0a \<notin> set line \<and> line \<noteq> [] \<and> hd line \<noteq> 0x20 \<and>
      list_all (\<lambda>c. 0x0a \<notin> set c) conts) hs"
  shows "splitObjectBody (header_bytes (map (\<lambda>(l, cs). folded l cs) hs) @ 0x0a # message) fmt =
    Inr (map (\<lambda>(l, cs). folded l cs) hs, length (header_bytes (map (\<lambda>(l, cs). folded l cs) hs)) + 1)"
  using split_body_headers [OF assms, of "[]" message fmt "[]"] by (simp add: splitObjectBody_def)

section \<open>Commits and tags are read back\<close>

text \<open>Identities: \<^verbatim>\<open>name <email> seconds zone\<close>.\<close>

record git_identity =
  gi_name :: "byte list"
  gi_email :: "byte list"
  gi_time :: nat
  gi_zone :: "byte list"

definition identity_bytes :: "git_identity \<Rightarrow> byte list" where
  "identity_bytes i =
     gi_name i @ [0x20, 0x3c] @ gi_email i @ [0x3e, 0x20] @ decimal_bytes (gi_time i) @ 0x20 # gi_zone i"

definition identity_ok :: "git_identity \<Rightarrow> bool" where
  "identity_ok i \<longleftrightarrow>
     0x0a \<notin> set (gi_name i) \<and> set (gi_email i) \<inter> {0x0a, 0x3c, 0x3e} = {} \<and>
     length (gi_zone i) = 5 \<and> hd (gi_zone i) \<in> {0x2b, 0x2d} \<and> list_all isDigit (tl (gi_zone i))"

definition identity_value :: "git_identity \<Rightarrow> commit_identity" where
  "identity_value i =
     \<lparr>ci_nameBytes = gi_name i, ci_emailBytes = gi_email i,
      ci_timestamp = toNumber (int (gi_time i)), ci_timezoneOffset = latin1 (gi_zone i)\<rparr>"

lemma lastIndex_loop_here:
  "b \<notin> set later \<Longrightarrow> n \<le> length later \<Longrightarrow>
   lastIndex_loop (pre @ b # later @ behind) b (Suc (length pre + n)) = Some (length pre)"
proof (induction n)
  case 0
  then show ?case by (simp add: at_def)
next
  case (Suc n)
  then have "(pre @ b # later @ behind) ! (Suc (length pre + n)) \<noteq> b"
    by (auto simp: nth_append)
  with Suc show ?case by (simp add: at_def)
qed

lemma lastIndexOfByte_here:
  "b \<notin> set later \<Longrightarrow>
   lastIndexOfByte (pre @ b # later @ behind) b (length pre + 1 + length later) = Some (length pre)"
  using lastIndex_loop_here [of b later "length later" pre behind] by (simp add: lastIndexOfByte_def)

lemma zone_facts:
  assumes "identity_ok i"
  shows "set (gi_zone i) \<inter> {0x0a, 0x3c, 0x3e, 0x20} = {}" "is_ascii (gi_zone i)"
proof -
  from assms obtain s z where z: "gi_zone i = s # z" "s \<in> {0x2b, 0x2d}" "list_all isDigit z"
    by (cases "gi_zone i") (auto simp: identity_ok_def)
  then have "\<forall>b\<in>set z. 0x30 \<le> b \<and> b \<le> 0x39" by (simp add: list_all_iff isDigit_def)
  with z show "set (gi_zone i) \<inter> {0x0a, 0x3c, 0x3e, 0x20} = {}" "is_ascii (gi_zone i)"
    by (auto simp: is_ascii_def list_all_iff dest: bspec) (force | unat_arith)+
qed

lemma decimal_bytes_gt: "0x3e \<notin> set (decimal_bytes n)"
  using decimal_bytes_digits(2) [of n] by (auto simp: list_all_iff isDigit_def)

lemma match_tail_printed:
  assumes "identity_ok i"
  shows "match_tail (latin1 (0x20 # decimal_bytes n @ 0x20 # gi_zone i)) = Some (decimal n, latin1 (gi_zone i))"
proof -
  from assms obtain s z where z: "gi_zone i = s # z" "s \<in> {0x2b, 0x2d}" "list_all isDigit z" "length z = 4"
    by (cases "gi_zone i") (auto simp: identity_ok_def)
  have "takeWhile isDigit (decimal n @ 0x20 # latin1 (s # z)) = decimal n"
    "dropWhile isDigit (decimal n @ 0x20 # latin1 (s # z)) = 0x20 # latin1 (s # z)"
    using decimal_all_digits [of n]
    by (auto simp: all_digits_def list_all_iff takeWhile_append dropWhile_append isDigit_def)
  moreover have "fromCharCode 0x2b = 0x2b" "fromCharCode 0x2d = 0x2d" by (simp_all add: fromCharCode_def)
  ultimately show ?thesis
    using z decimal_all_digits [of n] by (auto simp: match_tail_def list_all_latin1 all_digits_def)
qed

lemma drop_after: "drop (length xs + 1) (xs @ x # ys) = ys"
  by simp

lemma parseIdentity_printed:
  assumes "identity_ok i"
  shows "parseIdentity (identity_bytes i) fmt = Inr (identity_value i)"
proof -
  let ?tail = "0x20 # decimal_bytes (gi_time i) @ 0x20 # gi_zone i"
  let ?head = "gi_name i @ [0x20, 0x3c] @ gi_email i"
  let ?pre = "gi_name i @ [0x20]"
  have tail: "0x3e \<notin> set ?tail" "is_ascii ?tail"
    using zone_facts [OF assms] decimal_bytes_field [of "gi_time i"] decimal_bytes_gt [of "gi_time i"] by auto
  have email: "0x3c \<notin> set (gi_email i)" using assms by (auto simp: identity_ok_def)
  have bytes: "identity_bytes i = ?head @ 0x3e # ?tail"
    "identity_bytes i = ?pre @ 0x3c # gi_email i @ 0x3e # ?tail"
    by (simp_all add: identity_bytes_def)
  have gt: "lastIndexOfByte (identity_bytes i) 0x3e (length (identity_bytes i)) = Some (length ?head)"
    using lastIndexOfByte_here [OF tail(1), of ?head "[]"] by (simp add: bytes(1) add.assoc)
  have lt: "lastIndexOfByte (identity_bytes i) 0x3c (length ?head) = Some (length ?pre)"
    using lastIndexOfByte_here [OF email, of ?pre "0x3e # ?tail"] by (simp add: bytes(2))
  have nameEnd: "(if length ?pre > 0 \<and> at (identity_bytes i) (length ?pre - 1) = Some 0x20
      then length ?pre - 1 else length ?pre) = length (gi_name i)"
    by (simp add: identity_bytes_def)
  have after_gt: "drop (length ?head + 1) (identity_bytes i) = ?tail"
    unfolding bytes(1) by (rule drop_after)
  have parts: "take (length (gi_name i)) (identity_bytes i) = gi_name i"
    "subarray (identity_bytes i) (length ?pre + 1) (length ?head) = gi_email i"
    by (simp_all add: identity_bytes_def subarray_def)
  have "parseIdentity (identity_bytes i) fmt = bindE (decodeAsciiLine ?tail) (\<lambda>restText.
      (case match_tail restText of
         None \<Rightarrow> Inl (GitOutputParseError fmt ''unrecognised identity tail'' None)
       | Some (digits, offset) \<Rightarrow>
           Inr \<lparr>ci_nameBytes = gi_name i, ci_emailBytes = gi_email i,
                ci_timestamp = parseInt10 digits, ci_timezoneOffset = offset\<rparr>))"
    by (simp only: parseIdentity_def gt lt option.case Let_def nameEnd after_gt parts)
  with tail match_tail_printed [OF assms, of "gi_time i"] show ?thesis
    by (simp add: decodeAsciiLine_eq parseInt10_decimal identity_value_def)
qed

text \<open>Header lines by key: finding the key's value, and no other's.\<close>

definition keyed :: "string \<Rightarrow> byte list \<Rightarrow> byte list" where
  "keyed key v = asc key @ 0x20 # v"

lemma startsWith_keyed:
  assumes "0x20 \<notin> set (asc k)" and "0x20 \<notin> set (asc k')"
  shows "startsWith (keyed k v) (asc k' @ [0x20]) \<longleftrightarrow> k = k'"
proof
  assume "startsWith (keyed k v) (asc k' @ [0x20])"
  then obtain t where "asc k @ 0x20 # v = asc k' @ 0x20 # t" by (auto simp: startsWith_iff keyed_def)
  then have "hd (splitOn 0x20 (asc k @ 0x20 # v)) = hd (splitOn 0x20 (asc k' @ 0x20 # t))" by simp
  with assms show "k = k'" by (simp add: asc_inj)
qed (auto simp: startsWith_iff keyed_def)

lemma headerValue_keyed:
  assumes "0x20 \<notin> set (asc k)" and "0x20 \<notin> set (asc k')"
  shows "headerValue (keyed k v # hs) k' = (if k = k' then Some v else headerValue hs k')"
    and "headerValues (keyed k v # hs) k' = (if k = k' then v # headerValues hs k' else headerValues hs k')"
  using startsWith_keyed [OF assms, of v] by (auto simp: keyed_def startsWith_iff)

declare headerValue.simps(2) [simp del] headerValues.simps(2) [simp del]

record git_commit =
  gc_tree :: "byte list"
  gc_parents :: "byte list list"
  gc_author :: git_identity
  gc_committer :: git_identity
  gc_encoding :: "byte list option"
  gc_gpgsig :: "(byte list \<times> byte list list) option"
  gc_message :: "byte list"

definition plain_header :: "string \<Rightarrow> byte list \<Rightarrow> byte list \<times> byte list list" where
  "plain_header key v = (keyed key v, [])"

definition optional_headers :: "byte list option \<Rightarrow> (byte list \<times> byte list list) option \<Rightarrow> (byte list \<times> byte list list) list" where
  "optional_headers encoding gpgsig =
     (case encoding of None \<Rightarrow> [] | Some e \<Rightarrow> [plain_header ''encoding'' e]) @
     (case gpgsig of None \<Rightarrow> [] | Some (l, cs) \<Rightarrow> [(keyed ''gpgsig'' l, cs)])"

definition commit_headers :: "git_commit \<Rightarrow> (byte list \<times> byte list list) list" where
  "commit_headers c =
     plain_header ''tree'' (gc_tree c) # map (plain_header ''parent'') (gc_parents c) @
     [plain_header ''author'' (identity_bytes (gc_author c)),
      plain_header ''committer'' (identity_bytes (gc_committer c))] @
     optional_headers (gc_encoding c) (gc_gpgsig c)"

definition commit_bytes :: "git_commit \<Rightarrow> byte list" where
  "commit_bytes c = header_bytes (map (\<lambda>(l, cs). folded l cs) (commit_headers c)) @ 0x0a # gc_message c"

definition no_newline :: "byte list \<Rightarrow> bool" where
  "no_newline v \<longleftrightarrow> 0x0a \<notin> set v"

lemma list_all_no_newline: "list_all no_newline cs \<longleftrightarrow> list_all (\<lambda>c. 0x0a \<notin> set c) cs"
  by (simp add: list_all_iff no_newline_def)

definition gpgsig_ok :: "(byte list \<times> byte list list) option \<Rightarrow> bool" where
  "gpgsig_ok g \<longleftrightarrow> (case g of None \<Rightarrow> True | Some (l, cs) \<Rightarrow> no_newline l \<and> list_all no_newline cs)"

definition encoding_ok :: "byte list option \<Rightarrow> bool" where
  "encoding_ok e \<longleftrightarrow> (case e of None \<Rightarrow> True | Some v \<Rightarrow> is_ascii v \<and> no_newline v)"

definition commit_ok :: "git_commit \<Rightarrow> bool" where
  "commit_ok c \<longleftrightarrow>
     oid_bytes (gc_tree c) \<and> list_all oid_bytes (gc_parents c) \<and>
     identity_ok (gc_author c) \<and> identity_ok (gc_committer c) \<and>
     encoding_ok (gc_encoding c) \<and> gpgsig_ok (gc_gpgsig c)"

definition commit_value :: "git_commit \<Rightarrow> commit_object" where
  "commit_value c =
     \<lparr>co_treeOid = latin1 (gc_tree c), co_parentOids = map latin1 (gc_parents c),
      co_author = identity_value (gc_author c), co_committer = identity_value (gc_committer c),
      co_encoding = map_option latin1 (gc_encoding c), co_signed = (gc_gpgsig c \<noteq> None),
      co_messageBytes = gc_message c\<rparr>"

lemma oid_bytes_line: "oid_bytes bs \<Longrightarrow> is_ascii bs \<and> no_newline bs"
  by (simp add: no_newline_def oid_bytes_field)

lemma object_name_line_hex: "oid_bytes bs \<Longrightarrow> object_name_line fmt msg bs = Inr (latin1 bs)"
  using oid_bytes_line [of bs]
  by (simp add: object_name_line_def decodeAsciiLine_eq)

lemma identity_no_newline: "identity_ok i \<Longrightarrow> no_newline (identity_bytes i)"
  using zone_facts [of i] decimal_bytes_field [of "gi_time i"]
  by (auto simp: identity_bytes_def no_newline_def identity_ok_def)

lemma keyed_line:
  "no_newline v \<Longrightarrow> no_newline (asc k) \<Longrightarrow> k \<noteq> [] \<Longrightarrow> hd (asc k) \<noteq> 0x20 \<Longrightarrow>
   0x0a \<notin> set (keyed k v) \<and> keyed k v \<noteq> [] \<and> hd (keyed k v) \<noteq> 0x20"
  by (auto simp: keyed_def no_newline_def)


lemma optional_headers_ok:
  "encoding_ok e \<Longrightarrow> gpgsig_ok g \<Longrightarrow>
   list_all (\<lambda>(line, conts). 0x0a \<notin> set line \<and> line \<noteq> [] \<and> hd line \<noteq> 0x20 \<and>
     list_all (\<lambda>c. 0x0a \<notin> set c) conts) (optional_headers e g)"
  by (auto simp: optional_headers_def plain_header_def encoding_ok_def gpgsig_ok_def keyed_def
      list_all_no_newline no_newline_def split: option.splits)

lemma commit_headers_ok:
  assumes "commit_ok c"
  shows "list_all (\<lambda>(line, conts). 0x0a \<notin> set line \<and> line \<noteq> [] \<and> hd line \<noteq> 0x20 \<and>
     list_all (\<lambda>c. 0x0a \<notin> set c) conts) (commit_headers c)"
  using assms oid_bytes_line identity_no_newline optional_headers_ok [of "gc_encoding c" "gc_gpgsig c"]
  by (auto simp: commit_headers_def commit_ok_def plain_header_def keyed_def no_newline_def list_all_iff)

definition logical :: "(byte list \<times> byte list list) list \<Rightarrow> byte list list" where
  "logical hs = map (\<lambda>(l, cs). folded l cs) hs"

lemma logical_simps [simp]:
  "logical [] = []" "logical ((l, cs) # hs) = folded l cs # logical hs"
  "logical (hs @ gs) = logical hs @ logical gs"
  "logical (plain_header k v # hs) = keyed k v # logical hs"
  "logical (map (plain_header k) vs) = map (keyed k) vs"
  by (simp_all add: logical_def plain_header_def comp_def)

lemma folded_keyed: "folded (keyed k v) cs = keyed k (folded v cs)"
  by (simp add: folded_def keyed_def)

lemma headerValue_map_keyed:
  assumes "0x20 \<notin> set (asc k)" and "0x20 \<notin> set (asc k')"
  shows "k \<noteq> k' \<Longrightarrow> headerValue (map (keyed k) vs @ hs) k' = headerValue hs k'"
    and "headerValues (map (keyed k) vs @ hs) k' = (if k = k' then vs else []) @ headerValues hs k'"
  by (induction vs) (auto simp: headerValue_keyed [OF assms])

lemma optional_headers_values:
  assumes "0x20 \<notin> set (asc k)"
  shows "k \<notin> {''encoding'', ''gpgsig''} \<Longrightarrow> headerValue (logical (optional_headers e g)) k = None"
    and "k \<notin> {''encoding'', ''gpgsig''} \<Longrightarrow> headerValues (logical (optional_headers e g)) k = []"
  using assms
  by (auto simp: optional_headers_def folded_keyed headerValue_keyed split: option.splits)

lemma optional_headers_found:
  "headerValue (logical (optional_headers e g)) ''encoding'' = e"
  "headerValue (logical (optional_headers e g)) ''gpgsig'' = map_option (\<lambda>(l, cs). folded l cs) g"
  by (auto simp: optional_headers_def folded_keyed headerValue_keyed split: option.splits)

lemma split_printed:
  assumes "list_all (\<lambda>(line, conts). 0x0a \<notin> set line \<and> line \<noteq> [] \<and> hd line \<noteq> 0x20 \<and>
      list_all (\<lambda>c. 0x0a \<notin> set c) conts) hs"
  obtains off where "splitObjectBody (header_bytes (logical hs) @ 0x0a # message) fmt = Inr (logical hs, off)"
    and "drop off (header_bytes (logical hs) @ 0x0a # message) = message"
  using splitObjectBody_headers [OF assms, of message fmt] by (intro that) (auto simp: logical_def)

lemma decode_optional_ok: "encoding_ok e \<Longrightarrow> decode_optional e = Inr (map_option latin1 e)"
  by (auto simp: decode_optional_def encoding_ok_def decodeAsciiLine_eq split: option.splits)

lemma parse_printed_commit:
  assumes "commit_ok c"
  shows "parseCommitObject (commit_bytes c) = Inr (commit_value c)"
proof -
  let ?hs = "commit_headers c"
  have body: "commit_bytes c = header_bytes (logical ?hs) @ 0x0a # gc_message c"
    by (simp add: commit_bytes_def logical_def)
  obtain off where split: "splitObjectBody (commit_bytes c) ''commit object'' = Inr (logical ?hs, off)"
    and off: "drop off (commit_bytes c) = gc_message c"
    unfolding body by (rule split_printed [OF commit_headers_ok [OF assms]])
  have vals: "headerValue (logical ?hs) ''tree'' = Some (gc_tree c)"
    "headerValue (logical ?hs) ''author'' = Some (identity_bytes (gc_author c))"
    "headerValue (logical ?hs) ''committer'' = Some (identity_bytes (gc_committer c))"
    "headerValue (logical ?hs) ''encoding'' = gc_encoding c"
    "headerValue (logical ?hs) ''gpgsig'' = map_option (\<lambda>(l, cs). folded l cs) (gc_gpgsig c)"
    "headerValues (logical ?hs) ''parent'' = gc_parents c"
    by (simp_all add: commit_headers_def headerValue_keyed headerValue_map_keyed optional_headers_values
        optional_headers_found)
  have "mapE (object_name_line fmt msg) (gc_parents c) = Inr (map latin1 (gc_parents c))" for fmt msg
    using assms mapE_map [of "gc_parents c" "object_name_line fmt msg" id latin1]
    by (simp add: commit_ok_def list_all_iff object_name_line_hex)
  with assms show ?thesis
    by (simp add: parseCommitObject_def split off vals commit_ok_def object_name_line_hex
        parseIdentity_printed decode_optional_ok hasHeader_def commit_value_def)
qed

text \<open>
  C30. A commit object reads back as the commit Git wrote: tree, all parents in order, both
  identities with arbitrary name and e-mail bytes, the declared encoding, whether it is signed
  (with a signature of any number of continuation lines), and the message verbatim.
\<close>

theorem commit_roundtrip:
  assumes "commit_ok c"
  shows "parseCommitObject (commit_bytes c) = Inr (commit_value c)"
  using assms by (rule parse_printed_commit)

definition sample_identity :: git_identity where
  "sample_identity =
     \<lparr>gi_name = [0xe9, 0x20, 0x3e], gi_email = asc ''a@b'', gi_time = 1700000000, gi_zone = asc ''+0800''\<rparr>"

definition sample_commit :: git_commit where
  "sample_commit =
     \<lparr>gc_tree = replicate 40 0x61, gc_parents = [replicate 40 0x62, replicate 40 0x63],
      gc_author = sample_identity, gc_committer = sample_identity, gc_encoding = Some (asc ''latin1''),
      gc_gpgsig = Some (asc ''-----BEGIN'', [[], asc ''-----END'']), gc_message = [0x0a, 0xe9, 0x0a]\<rparr>"

lemma sample_identity_ok: "identity_ok sample_identity"
  by (simp add: identity_ok_def sample_identity_def isDigit_def)

lemma oid_bytes_replicate: "oid_bytes (replicate 40 b) \<longleftrightarrow> isHexDigit b" "oid_bytes (replicate 64 b) \<longleftrightarrow> isHexDigit b"
  by (simp_all add: oid_bytes_def list_all_iff)

lemma sample_commit_ok: "commit_ok sample_commit"
  using sample_identity_ok
  by (simp add: commit_ok_def sample_commit_def oid_bytes_replicate isHexDigit_def isDigit_def
      encoding_ok_def gpgsig_ok_def no_newline_def)

lemma commit_roundtrip_witness:
  "parseCommitObject (commit_bytes sample_commit) = Inr (commit_value sample_commit) \<and>
   co_signed (commit_value sample_commit)"
  using commit_roundtrip [OF sample_commit_ok] by (simp add: commit_value_def sample_commit_def)

record git_tag =
  gt_object :: "byte list"
  gt_type :: object_type
  gt_name :: "byte list"
  gt_tagger :: "git_identity option"
  gt_gpgsig :: "(byte list \<times> byte list list) option"
  gt_message :: "byte list"

definition tag_headers :: "git_tag \<Rightarrow> (byte list \<times> byte list list) list" where
  "tag_headers t =
     plain_header ''object'' (gt_object t) # plain_header ''type'' (type_bytes (gt_type t)) #
     plain_header ''tag'' (gt_name t) #
     (case gt_tagger t of None \<Rightarrow> [] | Some i \<Rightarrow> [plain_header ''tagger'' (identity_bytes i)]) @
     optional_headers None (gt_gpgsig t)"

definition tag_bytes :: "git_tag \<Rightarrow> byte list" where
  "tag_bytes t = header_bytes (logical (tag_headers t)) @ 0x0a # gt_message t"

definition tag_ok :: "git_tag \<Rightarrow> bool" where
  "tag_ok t \<longleftrightarrow>
     oid_bytes (gt_object t) \<and> is_ascii (gt_name t) \<and> no_newline (gt_name t) \<and>
     (case gt_tagger t of None \<Rightarrow> True | Some i \<Rightarrow> identity_ok i) \<and> gpgsig_ok (gt_gpgsig t)"

definition tag_value :: "git_tag \<Rightarrow> tag_object" where
  "tag_value t =
     \<lparr>to_objectOid = latin1 (gt_object t), to_objectType = latin1 (type_bytes (gt_type t)),
      to_tagName = latin1 (gt_name t), to_tagger = map_option identity_value (gt_tagger t),
      to_signed = (gt_gpgsig t \<noteq> None), to_messageBytes = gt_message t\<rparr>"

lemma tag_headers_ok:
  assumes "tag_ok t"
  shows "list_all (\<lambda>(line, conts). 0x0a \<notin> set line \<and> line \<noteq> [] \<and> hd line \<noteq> 0x20 \<and>
     list_all (\<lambda>c. 0x0a \<notin> set c) conts) (tag_headers t)"
  using assms oid_bytes_line identity_no_newline optional_headers_ok [of None "gt_gpgsig t"]
  by (auto simp: tag_headers_def tag_ok_def plain_header_def keyed_def no_newline_def encoding_ok_def
      split: option.splits)

text \<open>
  An annotated tag reads back as the tag Git wrote: target, its type, the name, the tagger when
  there is one, whether it is signed, and the message verbatim.
\<close>

theorem tag_roundtrip:
  assumes "tag_ok t"
  shows "parseTagObject (tag_bytes t) = Inr (tag_value t)"
proof -
  let ?hs = "tag_headers t"
  obtain off where split: "splitObjectBody (tag_bytes t) ''tag object'' = Inr (logical ?hs, off)"
    and off: "drop off (tag_bytes t) = gt_message t"
    unfolding tag_bytes_def by (rule split_printed [OF tag_headers_ok [OF assms]])
  have vals: "headerValue (logical ?hs) ''object'' = Some (gt_object t)"
    "headerValue (logical ?hs) ''type'' = Some (type_bytes (gt_type t))"
    "headerValue (logical ?hs) ''tag'' = Some (gt_name t)"
    "headerValue (logical ?hs) ''tagger'' = map_option identity_bytes (gt_tagger t)"
    "headerValue (logical ?hs) ''gpgsig'' = map_option (\<lambda>(l, cs). folded l cs) (gt_gpgsig t)"
    by (simp_all add: tag_headers_def headerValue_keyed optional_headers_values optional_headers_found
        split: option.split)
  from assms show ?thesis
    by (cases "gt_tagger t")
      (simp_all add: parseTagObject_def split off vals tag_ok_def object_name_line_hex
        parseIdentity_printed decodeAsciiLine_eq hasHeader_def tag_value_def)
qed

definition sample_tag :: git_tag where
  "sample_tag =
     \<lparr>gt_object = replicate 64 0x66, gt_type = CommitType, gt_name = asc ''v1.0'',
      gt_tagger = Some sample_identity, gt_gpgsig = None, gt_message = asc ''msg''\<rparr>"

lemma sample_tag_ok: "tag_ok sample_tag"
  using sample_identity_ok
  by (simp add: tag_ok_def sample_tag_def oid_bytes_replicate isHexDigit_def isDigit_def
      gpgsig_ok_def no_newline_def)

lemma tag_roundtrip_witness: "parseTagObject (tag_bytes sample_tag) = Inr (tag_value sample_tag)"
  by (rule tag_roundtrip [OF sample_tag_ok])

text \<open>
  Splitting an object body loses nothing, for any input: the headers (continuation lines joined
  to the header they continue), each with its newline, then the blank line and the message are the
  body again.
\<close>

theorem splitObjectBody_lossless:
  assumes "splitObjectBody body fmt = Inr (hs, off)"
  shows "(off = length body \<and> body = header_bytes hs) \<or>
    (off \<le> length body \<and> body = header_bytes hs @ 0x0a # drop off body)"
  by (rule splitObjectBody_sound [OF assms])

lemma splitObjectBody_lossless_witness:
  "splitObjectBody (asc ''a'' @ 0x0a # asc '' b'' @ [0x0a, 0x0a, 0x63]) ''x'' = Inr ([asc ''a'' @ 0x0a # asc '' b''], 6) \<and>
   (6::nat) \<le> length (asc ''a'' @ 0x0a # asc '' b'' @ [0x0a, 0x0a, 0x63])"
proof -
  have s: "splitObjectBody (asc ''a'' @ 0x0a # asc '' b'' @ [0x0a, 0x0a, 0x63]) ''x'' =
      Inr ([asc ''a'' @ 0x0a # asc '' b''], 6)"
    using splitObjectBody_headers [of "[(asc ''a'', [asc ''b''])]" "[0x63]" "''x''"]
    by (simp add: folded_def)
  from splitObjectBody_lossless [OF s] s show ?thesis by auto
qed

end
