(* ===== verification/Graph.thy ===== *)
theory Graph
  imports Prelude "HOL-Library.Multiset"
begin

text \<open>
  The commit graph layout: \<^verbatim>\<open>packages/git-graph/src/layout.ts\<close> and \<^verbatim>\<open>pages.ts\<close>. A \<open>lane_ref\<close> is the
  lane a caller passes in (its position may be missing), a \<open>lane\<close> is one inside the layout.
  \<open>layout_row\<close> is one turn of the loop of \<^verbatim>\<open>layoutGraph\<close>, \<open>layout_rows\<close> the loop. The lemmas show
  that tracks never collide or move, that no parent is lost, and that a page boundary is
  invisible.
\<close>

section \<open>Data\<close>

record graph_commit =
  gc_id :: jsstring
  gc_parentIds :: "jsstring list"
  gc_refNames :: "jsstring list option"

record lane_ref =
  lr_id :: jsstring
  lr_color :: jsstring
  lr_position :: "nat option"

record lane =
  ln_id :: jsstring
  ln_color :: jsstring
  ln_position :: nat

record graph_row =
  gr_id :: jsstring
  gr_parentIds :: "jsstring list"
  gr_refNames :: "jsstring list"
  gr_laneIndex :: nat
  gr_laneColor :: jsstring
  gr_inputLanes :: "lane list"
  gr_outputLanes :: "lane list"
  gr_isMerge :: bool
  gr_isRoot :: bool

record layout_options =
  lo_palette :: "jsstring list option"
  lo_colorForRef :: "(graph_commit \<Rightarrow> jsstring option) option"
  lo_defaultColor :: "jsstring option"
  lo_continuation :: "lane_ref list option"

record layout_result =
  lt_rows :: "graph_row list"
  lt_continuation :: "lane_ref list"
  lt_laneCount :: nat

definition DEFAULT_PALETTE :: "jsstring list" where
  "DEFAULT_PALETTE =
     [str ''lane-1'', str ''lane-2'', str ''lane-3'', str ''lane-4'',
      str ''lane-5'', str ''lane-6'', str ''lane-7'', str ''lane-8'']"

text \<open>\<^verbatim>\<open>a ?? b\<close>\<close>

fun orElse :: "'a option \<Rightarrow> 'a option \<Rightarrow> 'a option" where
  "orElse (Some x) y = Some x"
| "orElse None y = y"

section \<open>One row\<close>

text \<open>
  \<^verbatim>\<open>freeSlot\<close>: the \<^verbatim>\<open>while\<close> loop over the occupied positions. It ends because only finitely many
  are occupied: each turn leaves fewer of them at or above the position.
\<close>

function free_slot :: "nat list \<Rightarrow> nat \<Rightarrow> nat" where
  "free_slot occupied position =
     (if position \<in> set occupied then free_slot occupied (position + 1) else position)"
  by pat_completeness auto
termination
proof (relation "measure (\<lambda>(occupied, position). length (filter (\<lambda>p. position \<le> p) occupied))", goal_cases)
  case (2 occupied position)
  have "length (filter (\<lambda>p. position + 1 \<le> p) occupied) < length (filter (\<lambda>p. position \<le> p) occupied)"
    using 2
  proof (induction occupied)
    case (Cons x xs)
    have "length (filter (\<lambda>p. position + 1 \<le> p) xs) \<le> length (filter (\<lambda>p. position \<le> p) xs)"
      by (induction xs) auto
    with Cons show ?case by (cases "x = position") auto
  qed simp
  then show ?case by simp
qed simp

declare free_slot.simps [simp del]

text \<open>\<^verbatim>\<open>palette[i % palette.length]\<close>, which is \<^verbatim>\<open>undefined\<close> for an empty palette.\<close>

definition palette_color :: "jsstring list \<Rightarrow> nat \<Rightarrow> jsstring option" where
  "palette_color palette i = (if palette = [] then None else Some (palette ! (i mod length palette)))"

text \<open>The loop over the additional parents: the output lanes and the occupied positions.\<close>

fun add_parents ::
  "jsstring list \<Rightarrow> jsstring \<Rightarrow> jsstring list \<Rightarrow> lane list \<Rightarrow> nat list \<Rightarrow> lane list" where
  "add_parents palette defaultColor [] outputLanes occupied = outputLanes"
| "add_parents palette defaultColor (parentId # parents) outputLanes occupied =
     (if parentId \<in> ln_id ` set outputLanes
      then add_parents palette defaultColor parents outputLanes occupied
      else (let position = free_slot occupied 0
            in add_parents palette defaultColor parents
                 (outputLanes @ [\<lparr>ln_id = parentId,
                    ln_color = (case palette_color palette position of Some c \<Rightarrow> c | None \<Rightarrow> defaultColor),
                    ln_position = position\<rparr>])
                 (position # occupied)))"

definition is_branch_ref :: "jsstring \<Rightarrow> bool" where
  "is_branch_ref name \<longleftrightarrow> startsWith name (str ''refs/heads/'') \<or> startsWith name (str ''refs/remotes/'')"

definition ref_color :: "layout_options \<Rightarrow> graph_commit \<Rightarrow> jsstring option" where
  "ref_color options commit =
     (case lo_colorForRef options of None \<Rightarrow> None | Some f \<Rightarrow> f commit)"

definition option_palette :: "layout_options \<Rightarrow> jsstring list" where
  "option_palette options = (case lo_palette options of Some p \<Rightarrow> p | None \<Rightarrow> DEFAULT_PALETTE)"

definition default_color :: "layout_options \<Rightarrow> jsstring" where
  "default_color options =
     (case lo_defaultColor options of
        Some c \<Rightarrow> c
      | None \<Rightarrow> (case at (option_palette options) 0 of Some c \<Rightarrow> c | None \<Rightarrow> str ''lane-1''))"

definition layout_row :: "layout_options \<Rightarrow> lane list \<Rightarrow> graph_commit \<Rightarrow> graph_row" where
  "layout_row options inputLanes commit =
     (let palette = option_palette options;
          defaultColor = default_color options;
          awaited = find (\<lambda>l. ln_id l = gc_id commit) inputLanes;
          occupied0 = map ln_position inputLanes;
          (laneIndex, occupied) =
            (case awaited of
               Some l \<Rightarrow> (ln_position l, occupied0)
             | None \<Rightarrow> (let p = free_slot occupied0 0 in (p, p # occupied0)));
          tipColor =
            (if (case gc_refNames commit of None \<Rightarrow> False | Some names \<Rightarrow> list_ex is_branch_ref names)
             then ref_color options commit else None);
          laneColor =
            (case orElse tipColor (orElse (map_option ln_color awaited)
                    (orElse (ref_color options commit) (palette_color palette laneIndex))) of
               Some c \<Rightarrow> c | None \<Rightarrow> defaultColor);
          survivors = filter (\<lambda>l. ln_id l \<noteq> gc_id commit) inputLanes;
          withFirst =
            (case at (gc_parentIds commit) 0 of
               None \<Rightarrow> survivors
             | Some firstParent \<Rightarrow>
                 survivors @ [\<lparr>ln_id = firstParent, ln_color = laneColor, ln_position = laneIndex\<rparr>]);
          outputLanes = add_parents palette defaultColor (drop 1 (gc_parentIds commit)) withFirst occupied
      in \<lparr>gr_id = gc_id commit, gr_parentIds = gc_parentIds commit,
          gr_refNames = (case gc_refNames commit of None \<Rightarrow> [] | Some names \<Rightarrow> names),
          gr_laneIndex = laneIndex, gr_laneColor = laneColor,
          gr_inputLanes = inputLanes, gr_outputLanes = sort_key ln_position outputLanes,
          gr_isMerge = length (gc_parentIds commit) > 1,
          gr_isRoot = (gc_parentIds commit = [])\<rparr>)"

section \<open>The layout\<close>

fun layout_rows :: "layout_options \<Rightarrow> lane list \<Rightarrow> graph_commit list \<Rightarrow> graph_row list \<times> lane list" where
  "layout_rows options previousOut [] = ([], previousOut)"
| "layout_rows options previousOut (commit # commits) =
     (let row = layout_row options previousOut commit;
          (rows, out) = layout_rows options (gr_outputLanes row) commits
      in (row # rows, out))"

definition lanes_width :: "lane list \<Rightarrow> nat" where
  "lanes_width lanes = foldl (\<lambda>count l. max count (ln_position l + 1)) 0 lanes"

definition row_width :: "graph_row \<Rightarrow> nat" where
  "row_width row =
     foldl max (gr_laneIndex row + 1) (map (\<lambda>l. ln_position l + 1) (gr_outputLanes row))"

definition enter_lanes :: "lane_ref list \<Rightarrow> lane list" where
  "enter_lanes refs =
     map (\<lambda>(index, l). \<lparr>ln_id = lr_id l, ln_color = lr_color l,
            ln_position = (case lr_position l of Some p \<Rightarrow> p | None \<Rightarrow> index)\<rparr>)
       (enumerate 0 refs)"

definition leave_lanes :: "lane list \<Rightarrow> lane_ref list" where
  "leave_lanes lanes =
     map (\<lambda>l. \<lparr>lr_id = ln_id l, lr_color = ln_color l, lr_position = Some (ln_position l)\<rparr>) lanes"

definition entering :: "layout_options \<Rightarrow> lane list" where
  "entering options = enter_lanes (case lo_continuation options of Some c \<Rightarrow> c | None \<Rightarrow> [])"

definition layoutGraph :: "graph_commit list \<Rightarrow> layout_options \<Rightarrow> layout_result" where
  "layoutGraph commits options =
     (let (rows, out) = layout_rows options (entering options) commits
      in \<lparr>lt_rows = rows, lt_continuation = leave_lanes out,
          lt_laneCount = foldl (\<lambda>count row. max count (row_width row)) (lanes_width (entering options)) rows\<rparr>)"

text \<open>The loop of \<^verbatim>\<open>layoutPages\<close>: the rows, the continuation and the lane count so far.\<close>

fun pages_loop ::
  "graph_commit list list \<Rightarrow> layout_options \<Rightarrow> graph_row list \<Rightarrow> lane_ref list \<Rightarrow> nat \<Rightarrow> graph_row list \<times> nat" where
  "pages_loop [] options rows continuation laneCount = (rows, laneCount)"
| "pages_loop (page # pages) options rows continuation laneCount =
     (let layout = layoutGraph page (options\<lparr>lo_continuation := Some continuation\<rparr>)
      in pages_loop pages options (rows @ lt_rows layout) (lt_continuation layout)
           (max laneCount (lt_laneCount layout)))"

definition layoutPages :: "graph_commit list list \<Rightarrow> layout_options \<Rightarrow> graph_row list \<times> nat" where
  "layoutPages pages options =
     pages_loop pages options [] (case lo_continuation options of Some c \<Rightarrow> c | None \<Rightarrow> []) 0"

section \<open>Colours of refs\<close>

text \<open>\<^verbatim>\<open>x | 0\<close> on an exact integer.\<close>

definition to_int32 :: "int \<Rightarrow> int" where
  "to_int32 x = signed_take_bit 31 x"

definition strip_ref_prefix :: "jsstring \<Rightarrow> jsstring" where
  "strip_ref_prefix key =
     (if startsWith key (str ''refs/heads/'') then drop 11 key
      else if startsWith key (str ''refs/remotes/'') then drop 13 key
      else if startsWith key (str ''refs/tags/'') then drop 10 key
      else key)"

definition ref_hash :: "jsstring \<Rightarrow> int" where
  "ref_hash normalized = foldl (\<lambda>hash c. to_int32 (hash * 31 + uint c)) 0 normalized"

definition refColorFor :: "jsstring list \<Rightarrow> jsstring list \<Rightarrow> jsstring option" where
  "refColorFor refNames palette =
     (if refNames = [] \<or> palette = [] then None
      else (let key = (case at (sort refNames) 0 of Some k \<Rightarrow> k | None \<Rightarrow> []);
                hash = ref_hash (strip_ref_prefix key)
            in at palette (nat \<bar>hash\<bar> mod length palette)))"

section \<open>A free slot is the smallest free slot\<close>

lemma free_slot_not_occupied: "free_slot occ p \<notin> set occ"
  by (induction occ p rule: free_slot.induct) (subst free_slot.simps, simp)

lemma free_slot_smallest: "p \<le> q \<Longrightarrow> q < free_slot occ p \<Longrightarrow> q \<in> set occ"
proof (induction occ p rule: free_slot.induct)
  case (1 occ p)
  show ?case
  proof (cases "p \<in> set occ")
    case True
    with 1 show ?thesis by (cases "p = q") (auto simp: free_slot.simps [of occ p])
  next
    case False
    with 1 show ?thesis by (simp add: free_slot.simps [of occ p])
  qed
qed

lemma free_slot_le_length: "free_slot occ 0 \<le> length occ"
proof -
  have "{0..<free_slot occ 0} \<subseteq> set occ" by (auto intro: free_slot_smallest)
  then have "card {0..<free_slot occ 0} \<le> card (set occ)" by (intro card_mono) auto
  with card_length [of occ] show ?thesis by simp
qed

section \<open>One row\<close>

text \<open>The lanes added for the additional parents.\<close>

definition extra_lanes ::
  "jsstring list \<Rightarrow> jsstring \<Rightarrow> jsstring list \<Rightarrow> lane list \<Rightarrow> nat list \<Rightarrow> lane list \<Rightarrow> bool" where
  "extra_lanes palette defaultColor parents out occ extra \<longleftrightarrow>
     distinct (map ln_position extra) \<and> ln_position ` set extra \<inter> set occ = {} \<and>
     ln_id ` set extra \<subseteq> set parents \<and> set parents \<subseteq> ln_id ` (set out \<union> set extra) \<and>
     (\<forall>l\<in>set extra. ln_color l =
        (case palette_color palette (ln_position l) of Some c \<Rightarrow> c | None \<Rightarrow> defaultColor))"

lemma add_parents_extra:
  "\<exists>extra. add_parents palette defaultColor parents out occ = out @ extra \<and>
     extra_lanes palette defaultColor parents out occ extra"
proof (induction parents arbitrary: out occ)
  case Nil
  then show ?case by (simp add: extra_lanes_def)
next
  case (Cons q qs)
  show ?case
  proof (cases "q \<in> ln_id ` set out")
    case True
    from Cons.IH [of out occ] obtain extra where
      "add_parents palette defaultColor qs out occ = out @ extra"
      "extra_lanes palette defaultColor qs out occ extra" by blast
    with True show ?thesis by (intro exI [of _ extra]) (auto simp: extra_lanes_def)
  next
    case False
    let ?p = "free_slot occ 0"
    let ?l = "\<lparr>ln_id = q, ln_color = (case palette_color palette ?p of Some c \<Rightarrow> c | None \<Rightarrow> defaultColor),
        ln_position = ?p\<rparr>"
    from Cons.IH [of "out @ [?l]" "?p # occ"] obtain extra where
      "add_parents palette defaultColor qs (out @ [?l]) (?p # occ) = (out @ [?l]) @ extra"
      "extra_lanes palette defaultColor qs (out @ [?l]) (?p # occ) extra" by blast
    with False free_slot_not_occupied [of occ 0] show ?thesis
      by (intro exI [of _ "?l # extra"]) (auto simp: extra_lanes_def Let_def)
  qed
qed

text \<open>The parts of a row: what survives, the lane of the first parent, the lanes added.\<close>

definition awaited_lane :: "lane list \<Rightarrow> graph_commit \<Rightarrow> lane option" where
  "awaited_lane lanes commit = find (\<lambda>l. ln_id l = gc_id commit) lanes"

definition survivors :: "lane list \<Rightarrow> graph_commit \<Rightarrow> lane list" where
  "survivors lanes commit = filter (\<lambda>l. ln_id l \<noteq> gc_id commit) lanes"

definition first_lane :: "graph_row \<Rightarrow> graph_commit \<Rightarrow> lane list" where
  "first_lane row commit =
     (case gc_parentIds commit of
        [] \<Rightarrow> []
      | p # _ \<Rightarrow> [\<lparr>ln_id = p, ln_color = gr_laneColor row, ln_position = gr_laneIndex row\<rparr>])"

lemma layout_row_fields [simp]:
  "gr_id (layout_row options lanes commit) = gc_id commit"
  "gr_parentIds (layout_row options lanes commit) = gc_parentIds commit"
  "gr_inputLanes (layout_row options lanes commit) = lanes"
  by (simp_all add: layout_row_def Let_def split: prod.split)

lemma layout_row_index:
  "gr_laneIndex (layout_row options lanes commit) =
     (case awaited_lane lanes commit of
        Some l \<Rightarrow> ln_position l
      | None \<Rightarrow> free_slot (map ln_position lanes) 0)"
  by (simp add: layout_row_def Let_def awaited_lane_def split: option.split)

lemma layout_row_output:
  obtains extra occ where
    "gr_outputLanes (layout_row options lanes commit) =
       sort_key ln_position
         (survivors lanes commit @ first_lane (layout_row options lanes commit) commit @ extra)"
    and "extra_lanes (option_palette options) (default_color options) (drop 1 (gc_parentIds commit))
         (survivors lanes commit @ first_lane (layout_row options lanes commit) commit) occ extra"
    and "set occ = insert (gr_laneIndex (layout_row options lanes commit)) (ln_position ` set lanes)"
proof -
  let ?row = "layout_row options lanes commit"
  let ?base = "survivors lanes commit @ first_lane ?row commit"
  let ?occ = "if awaited_lane lanes commit = None then gr_laneIndex ?row # map ln_position lanes
      else map ln_position lanes"
  from add_parents_extra [of "option_palette options" "default_color options"
      "drop 1 (gc_parentIds commit)" ?base ?occ] obtain extra where
    extra: "add_parents (option_palette options) (default_color options) (drop 1 (gc_parentIds commit)) ?base ?occ =
        ?base @ extra"
      "extra_lanes (option_palette options) (default_color options) (drop 1 (gc_parentIds commit)) ?base ?occ extra"
    by blast
  show ?thesis
  proof (rule that [OF _ extra(2)])
    show "gr_outputLanes ?row = sort_key ln_position (survivors lanes commit @ first_lane ?row commit @ extra)"
      using extra(1)
      by (cases "gc_parentIds commit"; cases "awaited_lane lanes commit")
        (simp_all add: layout_row_def Let_def awaited_lane_def survivors_def first_lane_def)
    show "set ?occ = insert (gr_laneIndex ?row) (ln_position ` set lanes)"
    proof (cases "awaited_lane lanes commit")
      case (Some l)
      then have "l \<in> set lanes" by (auto simp: awaited_lane_def find_Some_iff)
      with Some show ?thesis by (auto simp: layout_row_index)
    qed simp
  qed
qed


text \<open>Lanes with slots of their own, from left to right.\<close>

definition lanes_ok :: "lane list \<Rightarrow> bool" where
  "lanes_ok lanes \<longleftrightarrow> distinct (map ln_position lanes) \<and> sorted (map ln_position lanes)"

lemma awaited_facts:
  "awaited_lane lanes commit = Some l \<Longrightarrow> l \<in> set lanes \<and> ln_id l = gc_id commit"
  "awaited_lane lanes commit = None \<Longrightarrow> gc_id commit \<notin> ln_id ` set lanes"
  by (auto simp: awaited_lane_def find_Some_iff find_None_iff)

text \<open>The circle of a commit is never drawn in the slot of a surviving track.\<close>

lemma index_free:
  assumes "distinct (map ln_position lanes)" and "l \<in> set (survivors lanes commit)"
  shows "ln_position l \<noteq> gr_laneIndex (layout_row options lanes commit)"
proof (cases "awaited_lane lanes commit")
  case None
  have "free_slot (map ln_position lanes) 0 \<notin> ln_position ` set lanes"
    using free_slot_not_occupied [of "map ln_position lanes" 0] by simp
  with None assms(2) show ?thesis by (auto simp: layout_row_index survivors_def image_iff)
next
  case (Some a)
  with awaited_facts(1) [OF Some] assms show ?thesis
    by (auto simp: layout_row_index survivors_def distinct_map dest: inj_onD)
qed

lemma distinct_map_sort_key: "distinct (map f (sort_key g xs)) \<longleftrightarrow> distinct (map f xs)"
  by (metis mset_eq_imp_distinct_iff mset_map mset_sort)

lemma layout_row_lanes_ok:
  assumes "distinct (map ln_position lanes)"
  shows "lanes_ok (gr_outputLanes (layout_row options lanes commit))"
proof -
  let ?row = "layout_row options lanes commit"
  obtain extra occ where out: "gr_outputLanes ?row =
      sort_key ln_position (survivors lanes commit @ first_lane ?row commit @ extra)"
    and extra: "extra_lanes (option_palette options) (default_color options) (drop 1 (gc_parentIds commit))
      (survivors lanes commit @ first_lane ?row commit) occ extra"
    and occ: "set occ = insert (gr_laneIndex ?row) (ln_position ` set lanes)"
    by (rule layout_row_output)
  have "distinct (map ln_position (survivors lanes commit))"
    using assms by (simp add: survivors_def distinct_map_filter)
  moreover have "gr_laneIndex ?row \<notin> ln_position ` set (survivors lanes commit)"
    using index_free [OF assms, of _ commit options] by (metis imageE)
  moreover have "distinct (map ln_position extra)" "ln_position ` set extra \<inter> set occ = {}"
    using extra by (simp_all add: extra_lanes_def)
  ultimately have "distinct (map ln_position (survivors lanes commit @ first_lane ?row commit @ extra))"
    unfolding occ first_lane_def by (auto simp: survivors_def split: list.split)
  then show ?thesis
    unfolding out lanes_ok_def by (simp add: distinct_map_sort_key del: map_append)
qed

lemma layout_row_survivors: "set (survivors lanes commit) \<subseteq> set (gr_outputLanes (layout_row options lanes commit))"
  by (rule layout_row_output [of options lanes commit]) auto

lemma layout_row_parents: "set (gc_parentIds commit) \<subseteq> ln_id ` set (gr_outputLanes (layout_row options lanes commit))"
proof -
  let ?row = "layout_row options lanes commit"
  obtain extra occ where out: "gr_outputLanes ?row =
      sort_key ln_position (survivors lanes commit @ first_lane ?row commit @ extra)"
    and extra: "extra_lanes (option_palette options) (default_color options) (drop 1 (gc_parentIds commit))
      (survivors lanes commit @ first_lane ?row commit) occ extra"
    by (rule layout_row_output)
  show ?thesis
    using extra unfolding out by (cases "gc_parentIds commit") (auto simp: extra_lanes_def first_lane_def)
qed

lemma layout_row_ids:
  "ln_id ` set (gr_outputLanes (layout_row options lanes commit)) \<subseteq>
     (ln_id ` set lanes - {gc_id commit}) \<union> set (gc_parentIds commit)"
proof -
  let ?row = "layout_row options lanes commit"
  obtain extra occ where out: "gr_outputLanes ?row =
      sort_key ln_position (survivors lanes commit @ first_lane ?row commit @ extra)"
    and extra: "extra_lanes (option_palette options) (default_color options) (drop 1 (gc_parentIds commit))
      (survivors lanes commit @ first_lane ?row commit) occ extra"
    by (rule layout_row_output)
  show ?thesis
    using extra unfolding out
    by (cases "gc_parentIds commit") (auto simp: extra_lanes_def first_lane_def survivors_def image_iff)
qed

section \<open>All rows\<close>

lemma layout_rows_append:
  "layout_rows options lanes (xs @ ys) =
     (let (rows, out) = layout_rows options lanes xs;
          (rows', out') = layout_rows options out ys
      in (rows @ rows', out'))"
  by (induction xs arbitrary: lanes) (auto simp: Let_def split: prod.splits)

text \<open>Each row is the row of one commit, laid out from the output of the row above.\<close>

lemma layout_rows_inv:
  assumes "layout_rows options lanes commits = (rows, out)" and "Q lanes"
    and "\<And>lanes commit. Q lanes \<Longrightarrow> Q (gr_outputLanes (layout_row options lanes commit))"
  shows "Q out \<and> (\<forall>row\<in>set rows. Q (gr_inputLanes row) \<and>
    (\<exists>commit\<in>set commits. row = layout_row options (gr_inputLanes row) commit))"
  using assms(1,2)
proof (induction commits arbitrary: lanes rows out)
  case (Cons c cs)
  obtain rows' out' where "layout_rows options (gr_outputLanes (layout_row options lanes c)) cs = (rows', out')"
    by fastforce
  with Cons.IH [OF this assms(3) [OF Cons.prems(2)]] Cons.prems show ?case
    by (auto simp: Let_def)
qed simp


lemma layout_rows_lanes_ok:
  assumes "layout_rows options lanes commits = (rows, out)" and "distinct (map ln_position lanes)"
  shows "row \<in> set rows \<Longrightarrow> distinct (map ln_position (gr_inputLanes row)) \<and> lanes_ok (gr_outputLanes row)"
    and "distinct (map ln_position out)"
proof -
  have keep: "distinct (map ln_position (gr_outputLanes (layout_row options ls c)))"
    if "distinct (map ln_position ls)" for ls c
    using layout_row_lanes_ok [OF that] by (simp add: lanes_ok_def)
  note inv = layout_rows_inv [OF assms(1), of "\<lambda>ls. distinct (map ln_position ls)", OF assms(2) keep]
  then show "distinct (map ln_position out)" by blast
  assume "row \<in> set rows"
  with inv obtain c where d: "distinct (map ln_position (gr_inputLanes row))"
    and row: "row = layout_row options (gr_inputLanes row) c" by blast
  have "lanes_ok (gr_outputLanes (layout_row options (gr_inputLanes row) c))"
    by (rule layout_row_lanes_ok [OF d])
  with d row show "distinct (map ln_position (gr_inputLanes row)) \<and> lanes_ok (gr_outputLanes row)"
    by simp
qed

lemma layoutGraph_rows: "layout_rows options (entering options) commits = (lt_rows (layoutGraph commits options), snd (layout_rows options (entering options) commits))"
  by (simp add: layoutGraph_def Let_def split: prod.split)

text \<open>
  Tracks never collide: when the lanes of the continuation stand in slots of their own (none at
  all, the positions of a previous page, or missing positions), then in every row the lanes
  leaving it have pairwise distinct slots, listed from left to right, and the commit's circle is
  in no slot of a track that passes by.
\<close>

theorem layout_no_collision:
  assumes "distinct (map ln_position (entering options))"
    and "row \<in> set (lt_rows (layoutGraph commits options))"
  shows "distinct (map ln_position (gr_outputLanes row)) \<and> sorted (map ln_position (gr_outputLanes row)) \<and>
    (\<forall>l\<in>set (gr_inputLanes row). ln_id l \<noteq> gr_id row \<longrightarrow> ln_position l \<noteq> gr_laneIndex row)"
proof -
  note rows = layout_rows_lanes_ok [OF layoutGraph_rows assms(1)]
  have "\<exists>c. row = layout_row options (gr_inputLanes row) c"
    using layout_rows_inv [OF layoutGraph_rows, of "\<lambda>_. True"] assms(2) by blast
  then obtain c where c: "row = layout_row options (gr_inputLanes row) c" by blast
  then have id: "gr_id row = gc_id c" by (metis layout_row_fields(1))
  have "l \<in> set (gr_inputLanes row) \<Longrightarrow> ln_id l \<noteq> gr_id row \<Longrightarrow> ln_position l \<noteq> gr_laneIndex row" for l
    using index_free [of "gr_inputLanes row" l c options] rows(1) [OF assms(2)] c id
    by (simp add: survivors_def)
  with rows(1) [OF assms(2)] show ?thesis by (auto simp: lanes_ok_def)
qed

text \<open>
  Tracks never move: a lane that enters a row and does not wait for its commit leaves it with
  the same slot and the same colour.
\<close>

theorem layout_tracks_stable:
  assumes "row \<in> set (lt_rows (layoutGraph commits options))"
    and "l \<in> set (gr_inputLanes row)" and "ln_id l \<noteq> gr_id row"
  shows "l \<in> set (gr_outputLanes row)"
proof -
  obtain c where c: "row = layout_row options (gr_inputLanes row) c"
    using layout_rows_inv [OF layoutGraph_rows, of "\<lambda>_. True"] assms(1) by blast
  then have "gr_id row = gc_id c" by (metis layout_row_fields(1))
  with assms(2,3) have "l \<in> set (survivors (gr_inputLanes row) c)" by (simp add: survivors_def)
  with layout_row_survivors [of "gr_inputLanes row" c options] c show ?thesis by auto
qed

definition sample_history :: "graph_commit list" where
  "sample_history =
     [\<lparr>gc_id = str ''m'', gc_parentIds = [str ''a'', str ''b''], gc_refNames = None\<rparr>,
      \<lparr>gc_id = str ''x'', gc_parentIds = [str ''a''], gc_refNames = Some [str ''refs/heads/x'']\<rparr>,
      \<lparr>gc_id = str ''b'', gc_parentIds = [str ''a''], gc_refNames = None\<rparr>,
      \<lparr>gc_id = str ''a'', gc_parentIds = [], gc_refNames = None\<rparr>]"

definition no_options :: layout_options where
  "no_options = \<lparr>lo_palette = None, lo_colorForRef = None, lo_defaultColor = None, lo_continuation = None\<rparr>"

lemma entering_no_options [simp]: "entering no_options = []"
  by (simp add: entering_def no_options_def enter_lanes_def)

lemma sample_first_row:
  "layout_row no_options [] (hd sample_history) \<in> set (lt_rows (layoutGraph sample_history no_options))"
  by (simp add: layoutGraph_def sample_history_def Let_def split: prod.split)

lemma layout_no_collision_witness:
  "distinct (map ln_position (gr_outputLanes (layout_row no_options [] (hd sample_history))))"
  using layout_no_collision [OF _ sample_first_row] by simp

lemma sample_second_row:
  "layout_row no_options (gr_outputLanes (layout_row no_options [] (hd sample_history))) (sample_history ! 1)
     \<in> set (lt_rows (layoutGraph sample_history no_options))"
  by (simp add: layoutGraph_def sample_history_def Let_def split: prod.split)

lemma sample_lanes:
  "gr_outputLanes (layout_row no_options [] (hd sample_history)) =
     [\<lparr>ln_id = str ''a'', ln_color = str ''lane-1'', ln_position = 0\<rparr>,
      \<lparr>ln_id = str ''b'', ln_color = str ''lane-2'', ln_position = 1\<rparr>]"
  by (simp add: layout_row_def sample_history_def no_options_def option_palette_def ref_color_def
      palette_color_def DEFAULT_PALETTE_def free_slot.simps Let_def)

lemma layout_tracks_stable_witness:
  "\<lparr>ln_id = str ''b'', ln_color = str ''lane-2'', ln_position = 1\<rparr> \<in>
     set (gr_outputLanes (layout_row no_options (gr_outputLanes (layout_row no_options [] (hd sample_history)))
       (sample_history ! 1)))"
  using layout_tracks_stable [OF sample_second_row, of "\<lparr>ln_id = str ''b'', ln_color = str ''lane-2'', ln_position = 1\<rparr>"]
  by (simp add: sample_lanes) (simp add: sample_history_def)

section \<open>Pages\<close>

lemma foldl_max_le:
  "foldl (\<lambda>c x. max c (f x)) a xs \<le> (k::nat) \<longleftrightarrow> a \<le> k \<and> (\<forall>x\<in>set xs. f x \<le> k)"
  by (induction xs arbitrary: a) auto

lemma foldl_max_start: "foldl (\<lambda>c x. max c (f x)) (max a b) xs = max a (foldl (\<lambda>c x. max c (f x)) (b::nat) xs)"
  by (induction xs arbitrary: b) (simp_all add: max.assoc)

lemma row_width_eq: "row_width row = foldl (\<lambda>c l. max c (ln_position l + 1)) (gr_laneIndex row + 1) (gr_outputLanes row)"
  by (simp add: row_width_def foldl_map)

lemma row_width_le:
  "row_width row \<le> k \<longleftrightarrow> gr_laneIndex row < k \<and> (\<forall>l\<in>set (gr_outputLanes row). ln_position l < k)"
  by (auto simp: row_width_eq foldl_max_le Suc_le_eq)

lemma lanes_width_le: "lanes_width lanes \<le> k \<longleftrightarrow> (\<forall>l\<in>set lanes. ln_position l < k)"
  by (auto simp: lanes_width_def foldl_max_le Suc_le_eq)

lemma enter_leave [simp]: "enter_lanes (leave_lanes lanes) = lanes"
proof -
  have "map (\<lambda>(i, l). \<lparr>ln_id = lr_id l, ln_color = lr_color l,
      ln_position = (case lr_position l of Some p \<Rightarrow> p | None \<Rightarrow> i)\<rparr>) (enumerate n (leave_lanes lanes)) = lanes" for n
    by (induction lanes arbitrary: n) (auto simp: leave_lanes_def)
  then show ?thesis by (simp add: enter_lanes_def)
qed

lemma layout_row_continuation [simp]:
  "layout_row (options\<lparr>lo_continuation := c\<rparr>) lanes commit = layout_row options lanes commit"
proof -
  let ?options = "options\<lparr>lo_continuation := c\<rparr>"
  have p: "option_palette ?options = option_palette options" by (simp add: option_palette_def)
  then have "default_color ?options = default_color options" by (simp add: default_color_def split: option.split)
  moreover have "ref_color ?options commit = ref_color options commit" by (simp add: ref_color_def)
  ultimately show ?thesis using p by (simp add: layout_row_def)
qed

lemma layout_rows_continuation [simp]:
  "layout_rows (options\<lparr>lo_continuation := c\<rparr>) lanes commits = layout_rows options lanes commits"
  by (induction commits arbitrary: lanes) (simp_all add: Let_def)

definition rows_width :: "nat \<Rightarrow> graph_row list \<Rightarrow> nat" where
  "rows_width n rows = foldl (\<lambda>count row. max count (row_width row)) n rows"

lemma rows_width_append: "rows_width n (xs @ ys) = rows_width (rows_width n xs) ys"
  by (simp add: rows_width_def)

lemma rows_width_max: "rows_width (max a b) rows = max a (rows_width b rows)"
  by (simp add: rows_width_def foldl_max_start)

lemma rows_width_ge: "n \<le> rows_width n rows"
  using foldl_max_le [of row_width n rows "rows_width n rows"] by (simp add: rows_width_def)

lemma layout_rows_width:
  "layout_rows options lanes commits = (rows, out) \<Longrightarrow> lanes_width lanes \<le> n \<Longrightarrow>
   lanes_width out \<le> rows_width n rows"
proof (induction commits arbitrary: lanes rows n)
  case (Cons c cs)
  let ?row = "layout_row options lanes c"
  obtain rows' where r: "layout_rows options (gr_outputLanes ?row) cs = (rows', out)" "rows = ?row # rows'"
    using Cons.prems(1) by (auto simp: Let_def split: prod.splits)
  have "lanes_width (gr_outputLanes ?row) \<le> row_width ?row"
    using row_width_le [of ?row "row_width ?row"] by (simp add: lanes_width_le)
  then have "lanes_width (gr_outputLanes ?row) \<le> max n (row_width ?row)" by simp
  from Cons.IH [OF r(1) this] r(2) show ?case by (simp add: rows_width_def)
qed (simp add: rows_width_def)

lemma layoutGraph_eq:
  assumes "layout_rows options (entering options) commits = (rows, out)"
  shows "layoutGraph commits options =
    \<lparr>lt_rows = rows, lt_continuation = leave_lanes out,
     lt_laneCount = rows_width (lanes_width (entering options)) rows\<rparr>"
  using assms by (simp add: layoutGraph_def rows_width_def)

lemma entering_continuation [simp]:
  "entering (options\<lparr>lo_continuation := Some refs\<rparr>) = enter_lanes refs"
  by (simp add: entering_def)

lemma pages_loop_eq:
  "lanes_width (enter_lanes refs) \<le> n \<Longrightarrow>
   pages_loop pages options rows refs n =
     (let rows' = fst (layout_rows options (enter_lanes refs) (concat pages))
      in (rows @ rows', rows_width n rows'))"
proof (induction pages arbitrary: rows refs n)
  case Nil
  then show ?case by (simp add: rows_width_def)
next
  case (Cons page pages)
  let ?options = "options\<lparr>lo_continuation := Some refs\<rparr>"
  obtain rs out where rs: "layout_rows options (enter_lanes refs) page = (rs, out)" by fastforce
  then have page: "layoutGraph page ?options =
      \<lparr>lt_rows = rs, lt_continuation = leave_lanes out,
       lt_laneCount = rows_width (lanes_width (enter_lanes refs)) rs\<rparr>"
    by (subst layoutGraph_eq [where options = ?options]) simp_all
  have n: "max n (rows_width (lanes_width (enter_lanes refs)) rs) = rows_width n rs"
    using Cons.prems by (simp flip: rows_width_max add: max_absorb1)
  have "lanes_width out \<le> rows_width n rs" by (rule layout_rows_width [OF rs Cons.prems])
  with Cons.IH [of "leave_lanes out" "rows_width n rs" "rows @ rs"] rs page n show ?case
    by (simp add: layout_rows_append rows_width_append Let_def split: prod.split)
qed

lemma layoutPages_eq:
  assumes "pages \<noteq> []"
  shows "layoutPages pages options =
    (lt_rows (layoutGraph (concat pages) options), lt_laneCount (layoutGraph (concat pages) options))"
proof -
  obtain page more where p: "pages = page # more" using assms by (cases pages) auto
  define refs where "refs = (case lo_continuation options of Some c \<Rightarrow> c | None \<Rightarrow> [])"
  let ?options = "options\<lparr>lo_continuation := Some refs\<rparr>"
  have enter: "entering options = enter_lanes refs" by (simp add: entering_def refs_def)
  obtain rs out where rs: "layout_rows options (enter_lanes refs) page = (rs, out)" by fastforce
  then have page: "layoutGraph page ?options =
      \<lparr>lt_rows = rs, lt_continuation = leave_lanes out,
       lt_laneCount = rows_width (lanes_width (enter_lanes refs)) rs\<rparr>"
    by (subst layoutGraph_eq [where options = ?options]) simp_all
  have le: "lanes_width out \<le> rows_width (lanes_width (enter_lanes refs)) rs"
    by (rule layout_rows_width [OF rs order_refl])
  obtain rs' out' where rs': "layout_rows options out (concat more) = (rs', out')" by fastforce
  have "layout_rows options (entering options) (concat pages) = (rs @ rs', out')"
    using rs rs' by (simp add: p enter layout_rows_append)
  from layoutGraph_eq [OF this] pages_loop_eq [of "leave_lanes out" _ more options rs] le rs' page show ?thesis
    by (simp add: layoutPages_def p rows_width_append enter flip: refs_def)
qed

text \<open>
  C27. A page boundary is invisible: laying out the history page by page, each from the lanes the
  previous page left, gives the rows and the width of laying out the whole history at once.
\<close>

theorem layoutPages_seamless:
  assumes "pages \<noteq> []"
  shows "layoutPages pages options =
    (lt_rows (layoutGraph (concat pages) options), lt_laneCount (layoutGraph (concat pages) options))"
  using assms by (rule layoutPages_eq)

lemma layoutPages_seamless_witness:
  "layoutPages [take 2 sample_history, drop 2 sample_history] no_options =
     (lt_rows (layoutGraph sample_history no_options), lt_laneCount (layoutGraph sample_history no_options))"
  using layoutPages_seamless [of "[take 2 sample_history, drop 2 sample_history]" no_options] by simp

section \<open>No line is cut\<close>

lemma layout_rows_ids:
  "layout_rows options lanes commits = (rows, out) \<Longrightarrow> map gr_id rows = map gc_id commits"
  by (induction commits arbitrary: lanes rows) (auto simp: Let_def split: prod.splits)

lemma layout_rows_lost:
  "layout_rows options lanes commits = (rows, out) \<Longrightarrow> p \<in> ln_id ` set lanes \<Longrightarrow>
   p \<in> gc_id ` set commits \<or> p \<in> ln_id ` set out"
proof (induction commits arbitrary: lanes rows)
  case (Cons c cs)
  let ?row = "layout_row options lanes c"
  show ?case
  proof (cases "p = gc_id c")
    case False
    with Cons.prems(2) have "p \<in> ln_id ` set (survivors lanes c)" by (auto simp: survivors_def)
    then have "p \<in> ln_id ` set (gr_outputLanes ?row)"
      using layout_row_survivors [of lanes c options] by auto
    with Cons show ?thesis by (auto simp: Let_def split: prod.splits)
  qed simp
qed auto

text \<open>
  No line is cut, however history is paged: every parent of a laid-out commit is laid out in a
  later row, or is a lane of the continuation handed to the next page.
\<close>

theorem layout_no_line_cut:
  assumes "p \<in> set (gc_parentIds commit)"
  shows "p \<in> gc_id ` set later \<or>
    p \<in> lr_id ` set (lt_continuation (layoutGraph (earlier @ commit # later) options))"
proof -
  obtain rs mid where rs: "layout_rows options (entering options) earlier = (rs, mid)" by fastforce
  let ?row = "layout_row options mid commit"
  obtain rs' out where rs': "layout_rows options (gr_outputLanes ?row) later = (rs', out)" by fastforce
  have "layout_rows options (entering options) (earlier @ commit # later) = (rs @ ?row # rs', out)"
    using rs rs' by (simp add: layout_rows_append Let_def)
  note all = layoutGraph_eq [OF this]
  have "p \<in> ln_id ` set (gr_outputLanes ?row)" using layout_row_parents assms by blast
  from layout_rows_lost [OF rs' this] show ?thesis
    by (auto simp: all leave_lanes_def image_image)
qed

lemma layout_no_line_cut_witness:
  "str ''b'' \<in> lr_id ` set (lt_continuation (layoutGraph (take 2 sample_history) no_options))"
proof -
  have "str ''b'' \<in> set (gc_parentIds (sample_history ! 0))" by (simp add: sample_history_def)
  from layout_no_line_cut [OF this, of "[sample_history ! 1]" "[]" no_options] show ?thesis
    by (simp add: sample_history_def)
qed

text \<open>
  The width of the layout bounds every slot drawn: the commit's circle and every track leaving a
  row lie in slots below it.
\<close>

theorem layout_width:
  assumes "row \<in> set (lt_rows (layoutGraph commits options))"
  shows "gr_laneIndex row < lt_laneCount (layoutGraph commits options) \<and>
    (\<forall>l\<in>set (gr_outputLanes row). ln_position l < lt_laneCount (layoutGraph commits options))"
proof -
  obtain rows out where r: "layout_rows options (entering options) commits = (rows, out)" by fastforce
  note g = layoutGraph_eq [OF r]
  have "row_width row \<le> rows_width (lanes_width (entering options)) rows"
    using foldl_max_le [of row_width "lanes_width (entering options)" rows
        "rows_width (lanes_width (entering options)) rows"] assms
    by (simp add: rows_width_def g)
  then show ?thesis by (simp add: g row_width_le)
qed

lemma layout_width_witness:
  "gr_laneIndex (layout_row no_options [] (hd sample_history)) < lt_laneCount (layoutGraph sample_history no_options)"
  using layout_width [OF sample_first_row] by simp

section \<open>Colours of refs\<close>

lemma to_int32_bounds: "- (2 ^ 31) \<le> to_int32 x" "to_int32 x < 2 ^ 31"
  using signed_take_bit_int_greater_eq_minus_exp [of 31 x] signed_take_bit_int_less_exp [of 31 x]
  by (simp_all add: to_int32_def)

lemma ref_hash_bounds: "- (2 ^ 31) \<le> ref_hash s" "ref_hash s < 2 ^ 31"
proof -
  have "- (2 ^ 31) \<le> foldl (\<lambda>h c. to_int32 (h * 31 + uint c)) h s \<and> foldl (\<lambda>h c. to_int32 (h * 31 + uint c)) h s < 2 ^ 31"
    if "- (2 ^ 31) \<le> h \<and> h < 2 ^ 31" for h :: int
    using that
  proof (induction s arbitrary: h)
    case (Cons c s)
    then show ?case by (simp only: foldl_Cons to_int32_bounds simp_thms)
  qed simp
  from this [of 0] show "- (2 ^ 31) \<le> ref_hash s" "ref_hash s < 2 ^ 31" by (simp_all add: ref_hash_def)
qed

text \<open>
  The colour of a ref is a colour of the palette for every non-empty list of refs and every
  non-empty palette, whatever the hash wraps to; it depends only on which refs there are, not on
  their order; and a ref has the same colour under its full name and its short name.
\<close>

theorem refColorFor_stable:
  assumes "refNames \<noteq> []" and "palette \<noteq> []"
  shows "(\<exists>c\<in>set palette. refColorFor refNames palette = Some c) \<and>
    (mset refNames' = mset refNames \<longrightarrow> refColorFor refNames' palette = refColorFor refNames palette) \<and>
    (strip_ref_prefix name = name \<longrightarrow> refColorFor [str ''refs/heads/'' @ name] palette = refColorFor [name] palette)"
proof -
  have "\<exists>c\<in>set palette. refColorFor refNames palette = Some c"
    using assms by (simp add: refColorFor_def at_def Let_def)
  moreover have "refColorFor refNames' palette = refColorFor refNames palette" if "mset refNames' = mset refNames"
  proof -
    have "sort refNames' = sort refNames" by (rule properties_for_sort) (simp_all add: that)
    moreover have "refNames' = [] \<longleftrightarrow> refNames = []" using that by (metis mset_zero_iff)
    ultimately show ?thesis by (simp add: refColorFor_def)
  qed
  moreover have "refColorFor [str ''refs/heads/'' @ name] palette = refColorFor [name] palette"
    if "strip_ref_prefix name = name"
  proof -
    have "strip_ref_prefix (str ''refs/heads/'' @ name) = name"
      by (simp add: strip_ref_prefix_def startsWith_def)
    with that show ?thesis by (simp add: refColorFor_def del: str_simps)
  qed
  ultimately show ?thesis by blast
qed

lemma refColorFor_stable_witness:
  "refColorFor [str ''refs/heads/main''] DEFAULT_PALETTE = refColorFor [str ''main''] DEFAULT_PALETTE \<and>
   (\<exists>c\<in>set DEFAULT_PALETTE. refColorFor [str ''main''] DEFAULT_PALETTE = Some c)"
  using refColorFor_stable [of "[str ''main'']" DEFAULT_PALETTE "[str ''main'']" "str ''main''"]
  by (simp add: DEFAULT_PALETTE_def strip_ref_prefix_def startsWith_def)

end
