(* ===== verification/Queue.thy ===== *)
theory Queue
  imports Prelude "HOL-Library.Multiset"
begin

text \<open>
  The bounded work queue: \<^verbatim>\<open>packages/host-node/src/coordinator/queue.ts\<close>. The record \<open>queue\<close> holds the
  variables the closures of \<^verbatim>\<open>createQueue\<close> share; \<open>q_handles\<close> lists the \<^verbatim>\<open>release\<close> functions made so
  far, each with its ticket and its \<^verbatim>\<open>released\<close> flag. The steps of the component (a client calling
  \<^verbatim>\<open>enqueue\<close>, \<^verbatim>\<open>cancel\<close> or \<^verbatim>\<open>release\<close>, and the turns of the loop of \<^verbatim>\<open>run\<close>) are the relation \<open>q_step\<close>; the
  limits are invariants of every reachable state.
\<close>

section \<open>State and operations\<close>

datatype queue_mode = ReadMode | WriteMode

record queue_limits =
  maxQueuedPerActor :: nat
  maxGlobalGitProcesses :: nat
  maxReadersPerRepository :: nat

definition DEFAULT_QUEUE_LIMITS :: queue_limits where
  "DEFAULT_QUEUE_LIMITS =
     \<lparr>maxQueuedPerActor = 32, maxGlobalGitProcesses = 4, maxReadersPerRepository = 2\<rparr>"

record 'job ticket =
  tk_id :: jsstring
  tk_actor :: jsstring
  tk_repositoryId :: jsstring
  tk_mode :: queue_mode
  tk_positionAtEnqueue :: nat
  tk_job :: 'job

record 'job queue =
  q_pending :: "'job ticket list"
  q_running :: "(jsstring \<times> nat) list"
  q_globalRunning :: int
  q_readers :: "(jsstring \<times> nat) list"
  q_writers :: "jsstring list"
  q_handles :: "('job ticket \<times> bool) list"

datatype 'job enqueue_result = Enqueued "'job ticket" | QueueFull | ActorBusy

definition createQueue :: "'job queue" where
  "createQueue =
     \<lparr>q_pending = [], q_running = [], q_globalRunning = 0, q_readers = [], q_writers = [], q_handles = []\<rparr>"

definition readers_of :: "'job queue \<Rightarrow> jsstring \<Rightarrow> nat" where
  "readers_of q repo = (case map_of (q_readers q) repo of Some n \<Rightarrow> n | None \<Rightarrow> 0)"

definition canStart :: "queue_limits \<Rightarrow> 'job queue \<Rightarrow> 'job ticket \<Rightarrow> bool" where
  "canStart limits q t =
     (if q_globalRunning q \<ge> int (maxGlobalGitProcesses limits) then False
      else if tk_mode t = WriteMode then tk_repositoryId t \<notin> set (q_writers q)
      else if tk_repositoryId t \<in> set (q_writers q) then False
      else readers_of q (tk_repositoryId t) < maxReadersPerRepository limits)"

text \<open>\<^verbatim>\<open>Set.add\<close> keeps the insertion order.\<close>

definition set_add :: "'a \<Rightarrow> 'a list \<Rightarrow> 'a list" where
  "set_add x xs = (if x \<in> set xs then xs else xs @ [x])"

text \<open>\<^verbatim>\<open>start\<close> up to the call of the executor; the new handle is the last one.\<close>

definition queue_start :: "'job ticket \<Rightarrow> 'job queue \<Rightarrow> 'job queue" where
  "queue_start t q =
     (let q = q\<lparr>q_globalRunning := q_globalRunning q + 1\<rparr>;
          q = (if tk_mode t = WriteMode
               then q\<lparr>q_writers := set_add (tk_repositoryId t) (q_writers q)\<rparr>
               else q\<lparr>q_readers := AList.update (tk_repositoryId t) (readers_of q (tk_repositoryId t) + 1) (q_readers q)\<rparr>)
      in q\<lparr>q_running := AList.update (tk_id t) (length (q_handles q)) (q_running q),
           q_handles := q_handles q @ [(t, False)]\<rparr>)"

definition queue_release :: "nat \<Rightarrow> 'job queue \<Rightarrow> 'job queue" where
  "queue_release h q =
     (case at (q_handles q) h of
        None \<Rightarrow> q
      | Some (t, released) \<Rightarrow>
          if released then q
          else (let q = q\<lparr>q_handles := (q_handles q)[h := (t, True)],
                          q_running := AList.delete (tk_id t) (q_running q),
                          q_globalRunning := q_globalRunning q - 1\<rparr>
                in if tk_mode t = WriteMode
                   then q\<lparr>q_writers := removeAll (tk_repositoryId t) (q_writers q)\<rparr>
                   else (let current = readers_of q (tk_repositoryId t)
                         in if current \<le> 1
                            then q\<lparr>q_readers := AList.delete (tk_repositoryId t) (q_readers q)\<rparr>
                            else q\<lparr>q_readers := AList.update (tk_repositoryId t) (current - 1) (q_readers q)\<rparr>)))"

definition depthFor :: "'job queue \<Rightarrow> jsstring \<Rightarrow> nat" where
  "depthFor q actor = length (filter (\<lambda>t. tk_actor t = actor) (q_pending q))"

definition queue_enqueue ::
  "queue_limits \<Rightarrow> jsstring \<Rightarrow> jsstring \<Rightarrow> jsstring \<Rightarrow> queue_mode \<Rightarrow> 'job \<Rightarrow> 'job queue \<Rightarrow>
   'job queue \<times> 'job enqueue_result" where
  "queue_enqueue limits i actor repositoryId md job q =
     (if depthFor q actor \<ge> maxQueuedPerActor limits then (q, QueueFull)
      else (let existingWrite = list_ex (\<lambda>t. tk_repositoryId t = repositoryId \<and> tk_mode t = md \<and> md = WriteMode)
                                  (q_pending q)
            in if existingWrite \<and> list_ex (\<lambda>t. tk_id t = i) (q_pending q) then (q, ActorBusy)
               else (let t = \<lparr>tk_id = i, tk_actor = actor, tk_repositoryId = repositoryId, tk_mode = md,
                              tk_positionAtEnqueue = length (q_pending q), tk_job = job\<rparr>
                     in (q\<lparr>q_pending := q_pending q @ [t]\<rparr>, Enqueued t))))"

fun remove_first :: "('a \<Rightarrow> bool) \<Rightarrow> 'a list \<Rightarrow> 'a list option" where
  "remove_first P [] = None"
| "remove_first P (x # xs) = (if P x then Some xs else map_option ((#) x) (remove_first P xs))"

definition queue_cancel :: "jsstring \<Rightarrow> 'job queue \<Rightarrow> 'job queue \<times> bool" where
  "queue_cancel i q =
     (case remove_first (\<lambda>t. tk_id t = i) (q_pending q) of
        None \<Rightarrow> (q, False)
      | Some pending \<Rightarrow> (q\<lparr>q_pending := pending\<rparr>, True))"

definition remove_at :: "nat \<Rightarrow> 'a list \<Rightarrow> 'a list" where
  "remove_at i xs = take i xs @ drop (i + 1) xs"

text \<open>
  \<^verbatim>\<open>run\<close>: one pass in queue order. The executor is called with the ticket and its \<^verbatim>\<open>release\<close>; of what
  it does before it returns, \<open>at_once\<close> says whether it released (the rest happens later, through
  \<^verbatim>\<open>release\<close>). The tickets started are returned in the order they were started.
\<close>

definition run_turn :: "('job ticket \<Rightarrow> bool) \<Rightarrow> nat \<Rightarrow> 'job queue \<Rightarrow> 'job queue" where
  "run_turn at_once index q =
     (let t = q_pending q ! index;
          q' = queue_start t (q\<lparr>q_pending := remove_at index (q_pending q)\<rparr>)
      in if at_once t then queue_release (length (q_handles q)) q' else q')"

function run_loop ::
  "queue_limits \<Rightarrow> ('job ticket \<Rightarrow> bool) \<Rightarrow> nat \<Rightarrow> 'job queue \<Rightarrow> 'job queue \<times> 'job ticket list" where
  "run_loop limits at_once index q =
     (if index < length (q_pending q) then
        (if \<not> canStart limits q (q_pending q ! index) then run_loop limits at_once (index + 1) q
         else (let (q', started) = run_loop limits at_once index (run_turn at_once index q)
               in (q', q_pending q ! index # started)))
      else (q, []))"
  by pat_completeness auto

lemma queue_start_pending [simp]: "q_pending (queue_start t q) = q_pending q"
  by (simp add: queue_start_def Let_def)

lemma queue_release_pending [simp]: "q_pending (queue_release h q) = q_pending q"
  by (auto simp: queue_release_def Let_def split: option.split prod.split)

lemma run_turn_pending [simp]: "q_pending (run_turn at_once index q) = remove_at index (q_pending q)"
  by (simp add: run_turn_def Let_def)

termination run_loop
  by (relation "measure (\<lambda>(limits, at_once, index, q). length (q_pending q) - index)")
    (auto simp: remove_at_def)

declare run_loop.simps [simp del]

definition queue_run :: "queue_limits \<Rightarrow> ('job ticket \<Rightarrow> bool) \<Rightarrow> 'job queue \<Rightarrow> 'job queue \<times> 'job ticket list" where
  "queue_run limits at_once q = run_loop limits at_once 0 q"

definition isRunning :: "'job queue \<Rightarrow> jsstring \<Rightarrow> bool" where
  "isRunning q i \<longleftrightarrow> i \<in> fst ` set (q_running q)"

definition pendingCount :: "'job queue \<Rightarrow> nat" where
  "pendingCount q = length (q_pending q)"

definition runningCount :: "'job queue \<Rightarrow> nat" where
  "runningCount q = length (q_running q)"

definition queue_state :: "'job queue \<Rightarrow> jsstring list \<times> jsstring list \<times> jsstring list" where
  "queue_state q = (map tk_id (q_pending q), map fst (q_running q), q_writers q)"

section \<open>Steps\<close>

inductive q_step :: "queue_limits \<Rightarrow> 'job queue \<Rightarrow> 'job queue \<Rightarrow> bool" for limits where
  enqueue: "q_step limits q (fst (queue_enqueue limits i actor repo md job q))"
| cancel: "q_step limits q (fst (queue_cancel i q))"
| start: "i < length (q_pending q) \<Longrightarrow> canStart limits q (q_pending q ! i) \<Longrightarrow>
    q_step limits q (queue_start (q_pending q ! i) (q\<lparr>q_pending := remove_at i (q_pending q)\<rparr>))"
| release: "q_step limits q (queue_release h q)"

text \<open>A pass of \<^verbatim>\<open>run\<close> is a sequence of such steps.\<close>

lemma run_turn_steps:
  assumes "index < length (q_pending q)" and "canStart limits q (q_pending q ! index)"
  shows "(q_step limits)\<^sup>*\<^sup>* q (run_turn at_once index q)"
proof -
  let ?q = "queue_start (q_pending q ! index) (q\<lparr>q_pending := remove_at index (q_pending q)\<rparr>)"
  have s: "q_step limits q ?q" using assms by (rule q_step.start)
  show ?thesis
  proof (cases "at_once (q_pending q ! index)")
    case True
    then have "q_step limits ?q (run_turn at_once index q)"
      by (simp add: run_turn_def q_step.release)
    with s show ?thesis by (meson converse_rtranclp_into_rtranclp rtranclp.rtrancl_refl)
  next
    case False
    with s show ?thesis by (simp add: run_turn_def r_into_rtranclp)
  qed
qed

lemma run_loop_steps: "(q_step limits)\<^sup>*\<^sup>* q (fst (run_loop limits at_once index q))"
proof (induction limits at_once index q rule: run_loop.induct)
  case (1 limits at_once index q)
  show ?case
  proof (cases "index < length (q_pending q) \<and> canStart limits q (q_pending q ! index)")
    case False
    with 1 show ?thesis by (subst run_loop.simps) auto
  next
    case True
    then have "(q_step limits)\<^sup>*\<^sup>* q (fst (run_loop limits at_once index (run_turn at_once index q)))"
      using "1.IH"(2) run_turn_steps [of index q limits at_once] by (meson rtranclp_trans)
    with True show ?thesis by (subst run_loop.simps) (simp add: case_prod_unfold Let_def)
  qed
qed

lemma queue_run_steps: "(q_step limits)\<^sup>*\<^sup>* q (fst (queue_run limits at_once q))"
  by (simp add: queue_run_def run_loop_steps)

section \<open>The limits hold\<close>

text \<open>The tickets of the handles that are not released: the work under way.\<close>

definition under_way :: "'job queue \<Rightarrow> 'job ticket list" where
  "under_way q = map fst (filter (\<lambda>(t, released). \<not> released) (q_handles q))"

definition busy :: "queue_mode \<Rightarrow> jsstring \<Rightarrow> 'job queue \<Rightarrow> nat" where
  "busy md repo q =
     length (filter (\<lambda>t. tk_mode t = md \<and> tk_repositoryId t = repo) (under_way q))"

definition q_inv :: "queue_limits \<Rightarrow> 'job queue \<Rightarrow> bool" where
  "q_inv limits q \<longleftrightarrow>
     q_globalRunning q = int (length (under_way q)) \<and>
     length (under_way q) \<le> maxGlobalGitProcesses limits \<and>
     distinct (q_writers q) \<and>
     (\<forall>repo. busy WriteMode repo q = (if repo \<in> set (q_writers q) then 1 else 0)) \<and>
     (\<forall>repo. busy ReadMode repo q = readers_of q repo \<and> readers_of q repo \<le> maxReadersPerRepository limits) \<and>
     (\<forall>repo. map_of (q_readers q) repo \<noteq> Some 0) \<and>
     (\<forall>actor. depthFor q actor \<le> maxQueuedPerActor limits)"

lemma q_inv_pending:
  assumes "q_inv limits q" and "\<And>actor. depthFor (q\<lparr>q_pending := p\<rparr>) actor \<le> maxQueuedPerActor limits"
  shows "q_inv limits (q\<lparr>q_pending := p\<rparr>)"
  using assms by (simp add: q_inv_def under_way_def busy_def readers_of_def)

lemma remove_first_subseq: "remove_first P xs = Some ys \<Longrightarrow> subseq ys xs"
  by (induction xs arbitrary: ys) (auto split: if_splits)

lemma remove_at_subseq: "subseq (remove_at i xs) xs"
proof -
  have "subseq (drop 1 (drop i xs)) (drop i xs)"
    by (intro suffix_imp_subseq suffix_drop)
  then have "subseq (take i xs @ drop (i + 1) xs) (take i xs @ drop i xs)"
    by (intro list_emb_append_mono) (simp_all add: add.commute)
  then show ?thesis by (simp add: remove_at_def)
qed

lemma q_inv_subseq:
  assumes "q_inv limits q" and "subseq p (q_pending q)"
  shows "q_inv limits (q\<lparr>q_pending := p\<rparr>)"
proof (rule q_inv_pending [OF assms(1)])
  fix actor
  have "depthFor (q\<lparr>q_pending := p\<rparr>) actor \<le> depthFor q actor"
    using subseq_filter_left assms(2) by (auto simp: depthFor_def intro!: list_emb_length subseq_filter)
  also have "\<dots> \<le> maxQueuedPerActor limits" using assms(1) by (simp add: q_inv_def)
  finally show "depthFor (q\<lparr>q_pending := p\<rparr>) actor \<le> maxQueuedPerActor limits" .
qed

lemma enqueue_inv:
  assumes "q_inv limits q"
  shows "q_inv limits (fst (queue_enqueue limits i actor repo md job q))"
proof (cases "queue_enqueue limits i actor repo md job q")
  case (Pair q' r)
  show ?thesis
  proof (cases "q' = q")
    case False
    with Pair obtain t where q': "q' = q\<lparr>q_pending := q_pending q @ [t]\<rparr>" "tk_actor t = actor"
        "depthFor q actor < maxQueuedPerActor limits"
      by (auto simp: queue_enqueue_def Let_def split: if_splits)
    with assms have "depthFor (q\<lparr>q_pending := q_pending q @ [t]\<rparr>) a \<le> maxQueuedPerActor limits" for a
      by (auto simp: q_inv_def depthFor_def)
    with assms show ?thesis unfolding Pair fst_conv q'(1) by (rule q_inv_pending)
  qed (use assms Pair in simp)
qed

lemma cancel_inv: "q_inv limits q \<Longrightarrow> q_inv limits (fst (queue_cancel i q))"
  by (auto simp: queue_cancel_def split: option.split intro: q_inv_subseq remove_first_subseq)

lemma under_way_start: "under_way (queue_start t q) = under_way q @ [t]"
  by (simp add: under_way_def queue_start_def Let_def)

lemma busy_start:
  "busy md repo (queue_start t q) =
     busy md repo q + (if tk_mode t = md \<and> tk_repositoryId t = repo then 1 else 0)"
  by (simp add: busy_def under_way_start)

lemma set_set_add [simp]: "set (set_add x xs) = insert x (set xs)"
  by (auto simp: set_add_def)

lemma distinct_set_add [simp]: "distinct xs \<Longrightarrow> distinct (set_add x xs)"
  by (simp add: set_add_def)

lemma start_fields:
  "q_globalRunning (queue_start t q) = q_globalRunning q + 1"
  "q_writers (queue_start t q) =
     (if tk_mode t = WriteMode then set_add (tk_repositoryId t) (q_writers q) else q_writers q)"
  "map_of (q_readers (queue_start t q)) =
     (if tk_mode t = WriteMode then map_of (q_readers q)
      else (map_of (q_readers q))(tk_repositoryId t \<mapsto> readers_of q (tk_repositoryId t) + 1))"
  by (simp_all add: queue_start_def Let_def readers_of_def AList.update_conv')

lemma mode_cases: "md \<noteq> WriteMode \<longleftrightarrow> md = ReadMode" "md \<noteq> ReadMode \<longleftrightarrow> md = WriteMode"
  by (cases md; simp)+

lemma canStart_pending [simp]: "canStart limits (q\<lparr>q_pending := p\<rparr>) t = canStart limits q t"
  by (simp add: canStart_def readers_of_def)

lemma start_inv:
  assumes inv: "q_inv limits q" and can: "canStart limits q t"
  shows "q_inv limits (queue_start t q)"
proof -
  have free: "q_globalRunning q < int (maxGlobalGitProcesses limits)"
    "tk_mode t = WriteMode \<Longrightarrow> tk_repositoryId t \<notin> set (q_writers q)"
    "tk_mode t = ReadMode \<Longrightarrow> readers_of q (tk_repositoryId t) < maxReadersPerRepository limits"
    using can by (auto simp: canStart_def split: if_splits)
  have readers: "readers_of (queue_start t q) repo =
      readers_of q repo + (if tk_mode t = ReadMode \<and> tk_repositoryId t = repo then 1 else 0)" for repo
    by (cases "tk_mode t") (auto simp: readers_of_def start_fields)
  have writers: "set (q_writers (queue_start t q)) =
      (if tk_mode t = WriteMode then insert (tk_repositoryId t) (set (q_writers q)) else set (q_writers q))"
    by (simp add: start_fields)
  have depth: "depthFor (queue_start t q) = depthFor q"
    by (simp add: depthFor_def fun_eq_iff)
  show ?thesis
    using inv free unfolding q_inv_def depth busy_start readers writers under_way_start
    by (cases "tk_mode t") (auto simp: start_fields)
qed

lemma filter_update_length:
  "i < length xs \<Longrightarrow>
   length (filter P (xs[i := y])) + (if P (xs ! i) then 1 else 0) = length (filter P xs) + (if P y then 1 else 0)"
proof (induction xs arbitrary: i)
  case (Cons x xs)
  then show ?case by (cases i) auto
qed simp

text \<open>A release gives back exactly what the ticket took.\<close>

lemma busy_handles:
  "busy md repo q = length (filter (\<lambda>(t, r). \<not> r \<and> tk_mode t = md \<and> tk_repositoryId t = repo) (q_handles q))"
  by (simp add: busy_def under_way_def filter_map comp_def case_prod_unfold)

lemma release_handles:
  assumes "at (q_handles q) h = Some (t, False)"
  shows "q_handles (queue_release h q) = (q_handles q)[h := (t, True)]"
    and "q_globalRunning (queue_release h q) = q_globalRunning q - 1"
    and "q_writers (queue_release h q) =
      (if tk_mode t = WriteMode then removeAll (tk_repositoryId t) (q_writers q) else q_writers q)"
    and "map_of (q_readers (queue_release h q)) =
      (if tk_mode t = WriteMode then map_of (q_readers q)
       else if readers_of q (tk_repositoryId t) \<le> 1 then (map_of (q_readers q))(tk_repositoryId t := None)
       else (map_of (q_readers q))(tk_repositoryId t \<mapsto> readers_of q (tk_repositoryId t) - 1))"
  using assms
  by (simp_all add: queue_release_def Let_def readers_of_def AList.update_conv' AList.delete_conv')

lemma release_counts:
  assumes "at (q_handles q) h = Some (t, False)"
  shows "length (under_way (queue_release h q)) + 1 = length (under_way q)"
    and "busy md repo (queue_release h q) + (if tk_mode t = md \<and> tk_repositoryId t = repo then 1 else 0) = busy md repo q"
proof -
  have h: "h < length (q_handles q)" "q_handles q ! h = (t, False)"
    using assms by (auto simp: at_def split: if_splits)
  show "length (under_way (queue_release h q)) + 1 = length (under_way q)"
    using filter_update_length [OF h(1), of "\<lambda>(t, r). \<not> r" "(t, True)"] h(2)
    by (simp add: under_way_def release_handles [OF assms])
  show "busy md repo (queue_release h q) + (if tk_mode t = md \<and> tk_repositoryId t = repo then 1 else 0) = busy md repo q"
    using filter_update_length [OF h(1), of "\<lambda>(t, r). \<not> r \<and> tk_mode t = md \<and> tk_repositoryId t = repo" "(t, True)"] h(2)
    by (simp add: busy_handles release_handles [OF assms])
qed

lemma release_inv:
  assumes inv: "q_inv limits q"
  shows "q_inv limits (queue_release h q)"
proof (cases "\<exists>t. at (q_handles q) h = Some (t, False)")
  case False
  then have "queue_release h q = q"
    by (auto simp: queue_release_def split: option.split prod.split)
  with inv show ?thesis by simp
next
  case True
  then obtain t where t: "at (q_handles q) h = Some (t, False)" by blast
  note count = release_counts [OF t] and fields = release_handles [OF t]
  note own = count(2) [of "tk_mode t" "tk_repositoryId t"]
  have readers: "readers_of (queue_release h q) repo =
      readers_of q repo - (if tk_mode t = ReadMode \<and> tk_repositoryId t = repo then 1 else 0)" for repo
    by (cases "tk_mode t") (auto simp: readers_of_def fields)
  have busyR: "busy ReadMode repo (queue_release h q) = readers_of (queue_release h q) repo" for repo
    using count(2) [of ReadMode repo] inv unfolding readers q_inv_def by (auto split: if_splits)
  have busyW: "busy WriteMode repo (queue_release h q) = (if repo \<in> set (q_writers (queue_release h q)) then 1 else 0)" for repo
    using count(2) [of WriteMode repo] inv unfolding q_inv_def fields by (auto split: if_splits)
  have le: "readers_of (queue_release h q) repo \<le> maxReadersPerRepository limits" for repo
    using inv unfolding readers q_inv_def by (auto intro: le_trans [OF diff_le_self])
  have pos: "map_of (q_readers (queue_release h q)) repo \<noteq> Some 0" for repo
    using inv by (auto simp: fields q_inv_def)
  have depth: "depthFor (queue_release h q) = depthFor q"
    by (simp add: depthFor_def fun_eq_iff)
  show ?thesis
    using inv busyR busyW le pos count(1) unfolding q_inv_def depth
    by (auto simp: fields distinct_removeAll)
qed

interpretation queue_system: transition_system "\<lambda>q. q = createQueue" "q_step limits" "q_inv limits" for limits
proof
  fix q :: "'a queue" assume "q = createQueue"
  then show "q_inv limits q"
    by (simp add: q_inv_def createQueue_def under_way_def busy_def readers_of_def depthFor_def)
next
  fix q r :: "'a queue" assume "q_step limits q r" "q_inv limits q"
  then show "q_inv limits r"
  proof cases
    case (start i)
    have "q_inv limits (q\<lparr>q_pending := remove_at i (q_pending q)\<rparr>)"
      using \<open>q_inv limits q\<close> remove_at_subseq by (rule q_inv_subseq)
    moreover have "canStart limits (q\<lparr>q_pending := remove_at i (q_pending q)\<rparr>) (q_pending q ! i)"
      using start(3) by simp
    ultimately show ?thesis unfolding start(1) by (rule start_inv)
  qed (auto intro: enqueue_inv cancel_inv release_inv)
qed

text \<open>
  C28. In every state the queue can reach, whatever clients do and in whatever order (enqueue, cancel,
  passes of run, releases, also repeated or late ones): no more pieces of work are under way than
  the global limit, at most one writer and at most the allowed number of readers per repository,
  and no actor has more than its share queued.
\<close>

theorem queue_limits_hold:
  assumes "(q_step limits)\<^sup>*\<^sup>* createQueue q"
  shows "length (under_way q) \<le> maxGlobalGitProcesses limits \<and> busy WriteMode repo q \<le> 1 \<and>
    busy ReadMode repo q \<le> maxReadersPerRepository limits \<and> depthFor q actor \<le> maxQueuedPerActor limits"
  using queue_system.reachable_inv [OF refl assms] by (auto simp: q_inv_def)

text \<open>A small run: two reads and a write of one repository, all by one actor.\<close>

definition sample_enqueue :: "queue_mode \<Rightarrow> string \<Rightarrow> unit queue \<Rightarrow> unit queue" where
  "sample_enqueue md i q = fst (queue_enqueue DEFAULT_QUEUE_LIMITS (str i) (str ''alice'') (str ''repo'') md () q)"

definition sample_queue :: "unit queue" where
  "sample_queue = fst (queue_run DEFAULT_QUEUE_LIMITS (\<lambda>_. False)
     (sample_enqueue WriteMode ''w'' (sample_enqueue ReadMode ''b'' (sample_enqueue ReadMode ''a'' createQueue))))"

lemma sample_queue_reachable: "(q_step DEFAULT_QUEUE_LIMITS)\<^sup>*\<^sup>* createQueue sample_queue"
proof -
  have step: "(q_step DEFAULT_QUEUE_LIMITS)\<^sup>*\<^sup>* createQueue q \<Longrightarrow>
      (q_step DEFAULT_QUEUE_LIMITS)\<^sup>*\<^sup>* createQueue (sample_enqueue md i q)" for q md i
    unfolding sample_enqueue_def by (erule rtranclp.rtrancl_into_rtrancl) (rule q_step.enqueue)
  show ?thesis
    unfolding sample_queue_def by (rule rtranclp_trans [OF _ queue_run_steps]) (intro step rtranclp.rtrancl_refl)
qed

lemma queue_limits_hold_witness:
  "length (under_way sample_queue) \<le> 4 \<and> busy WriteMode (str ''repo'') sample_queue \<le> 1 \<and>
   busy ReadMode (str ''repo'') sample_queue \<le> 2 \<and> depthFor sample_queue (str ''alice'') \<le> 32"
  using queue_limits_hold [OF sample_queue_reachable, of "str ''repo''" "str ''alice''"]
  by (simp add: DEFAULT_QUEUE_LIMITS_def)

text \<open>
  The two halves of the reader/writer rule are not symmetric: no read starts while a writer is
  under way, but a writer may start while reads are.
\<close>

lemma read_waits_for_writer:
  assumes "q_inv limits q" and "tk_mode t = ReadMode" and "canStart limits q t"
  shows "busy WriteMode (tk_repositoryId t) q = 0"
  using assms by (auto simp: canStart_def q_inv_def split: if_splits)

lemma sample_queue_overlap:
  "busy ReadMode (str ''repo'') sample_queue = 2 \<and> busy WriteMode (str ''repo'') sample_queue = 1"
  by code_simp

section \<open>A pass of run\<close>

text \<open>A pass appends one handle per ticket started and splits the queue, as a multiset.\<close>

lemma start_handles: "q_handles (queue_start t q) = q_handles q @ [(t, False)]"
  by (simp add: queue_start_def Let_def)

lemma run_turn_handles:
  "q_handles (run_turn at_once index q) = q_handles q @ [(q_pending q ! index, at_once (q_pending q ! index))]"
proof (cases "at_once (q_pending q ! index)")
  case True
  let ?q = "queue_start (q_pending q ! index) (q\<lparr>q_pending := remove_at index (q_pending q)\<rparr>)"
  have "at (q_handles ?q) (length (q_handles q)) = Some (q_pending q ! index, False)"
    by (simp add: start_handles at_def)
  from release_handles(1) [OF this] True show ?thesis by (simp add: run_turn_def start_handles)
qed (simp add: run_turn_def start_handles)

lemma remove_at_mset: "index < length xs \<Longrightarrow> mset xs = add_mset (xs ! index) (mset (remove_at index xs))"
  using arg_cong [OF id_take_nth_drop [of index xs], of mset] by (simp add: remove_at_def)

lemma run_loop_parts:
  "run_loop limits at_once index q = (q', started) \<Longrightarrow>
   q_handles q' = q_handles q @ map (\<lambda>t. (t, at_once t)) started \<and>
   mset (q_pending q) = mset started + mset (q_pending q')"
proof (induction limits at_once index q arbitrary: q' started rule: run_loop.induct)
  case (1 limits at_once index q)
  show ?case
  proof (cases "index < length (q_pending q) \<and> canStart limits q (q_pending q ! index)")
    case False
    with "1.prems" "1.IH"(1) show ?thesis by (subst (asm) run_loop.simps) (auto split: if_splits)
  next
    case True
    with "1.prems" obtain more where r: "started = q_pending q ! index # more"
      "run_loop limits at_once index (run_turn at_once index q) = (q', more)"
      by (subst (asm) run_loop.simps) (auto split: prod.splits)
    with "1.IH"(2) True show ?thesis
      using remove_at_mset [of index "q_pending q"] by (simp add: run_turn_handles)
  qed
qed

lemma queue_run_parts:
  "queue_run limits at_once q = (q', started) \<Longrightarrow>
   q_handles q' = q_handles q @ map (\<lambda>t. (t, at_once t)) started \<and>
   mset (q_pending q) = mset started + mset (q_pending q')"
  unfolding queue_run_def by (rule run_loop_parts)

lemma canStart_after_start:
  assumes inv: "q_inv limits q" and "canStart limits (queue_start t q) u"
  shows "canStart limits q u"
proof -
  have "readers_of q repo \<le> readers_of (queue_start t q) repo" for repo
    by (cases "tk_mode t") (auto simp: readers_of_def start_fields)
  then show ?thesis
    using assms(2) by (auto simp: canStart_def start_fields split: if_splits intro: le_less_trans)
qed

lemma run_loop_keeps_order:
  "run_loop limits at_once index q = (q', started) \<Longrightarrow>
   take index (q_pending q) = take index (q_pending q') \<and> subseq started (drop index (q_pending q)) \<and>
   subseq (q_pending q') (q_pending q) \<and>
   length (q_pending q) = length (q_pending q') + length started"
proof (induction limits at_once index q arbitrary: q' started rule: run_loop.induct)
  case (1 limits at_once index q)
  show ?case
  proof (cases "index < length (q_pending q)")
    case False
    with "1.prems" show ?thesis by (subst (asm) run_loop.simps) auto
  next
    case True
    then have p: "drop index (q_pending q) = q_pending q ! index # drop (index + 1) (q_pending q)"
      by (simp add: Cons_nth_drop_Suc)
    show ?thesis
    proof (cases "canStart limits q (q_pending q ! index)")
      case False
      with True "1.prems" have "run_loop limits at_once (index + 1) q = (q', started)"
        by (subst (asm) run_loop.simps) simp
      with "1.IH"(1) [OF True] False have IH: "take (index + 1) (q_pending q) = take (index + 1) (q_pending q')"
        "subseq started (drop (index + 1) (q_pending q))" "subseq (q_pending q') (q_pending q)"
        "length (q_pending q) = length (q_pending q') + length started" by auto
      from IH(1) have "take index (q_pending q) = take index (q_pending q')"
        by (metis add.commute le_add2 min.absorb1 take_take)
      with IH p show ?thesis by auto
    next
      case can: True
      with True "1.prems" obtain rest where r: "started = q_pending q ! index # rest"
        "run_loop limits at_once index (run_turn at_once index q) = (q', rest)"
        by (subst (asm) run_loop.simps) (auto split: prod.splits)
      with "1.IH"(2) [OF True] can have IH:
        "take index (remove_at index (q_pending q)) = take index (q_pending q')"
        "subseq rest (drop index (remove_at index (q_pending q)))"
        "subseq (q_pending q') (remove_at index (q_pending q))"
        "length (remove_at index (q_pending q)) = length (q_pending q') + length rest" by auto
      from True have "take index (remove_at index (q_pending q)) = take index (q_pending q)"
        "drop index (remove_at index (q_pending q)) = drop (index + 1) (q_pending q)"
        "length (remove_at index (q_pending q)) + 1 = length (q_pending q)"
        by (simp_all add: remove_at_def min_absorb2)
      with IH r p subseq_order.trans [OF IH(3) remove_at_subseq] show ?thesis by auto
    qed
  qed
qed

lemma run_turn_start: "\<not> at_once (q_pending q ! index) \<Longrightarrow>
    run_turn at_once index q = queue_start (q_pending q ! index) (q\<lparr>q_pending := remove_at index (q_pending q)\<rparr>)"
  by (simp add: run_turn_def)

lemma run_loop_maximal:
  "run_loop limits at_once index q = (q', started) \<Longrightarrow> \<forall>t. \<not> at_once t \<Longrightarrow> q_inv limits q \<Longrightarrow>
   list_all (\<lambda>t. \<not> canStart limits q t) (take index (q_pending q)) \<Longrightarrow>
   list_all (\<lambda>t. \<not> canStart limits q' t) (q_pending q')"
proof (induction limits at_once index q arbitrary: q' started rule: run_loop.induct)
  case (1 limits at_once index q)
  show ?case
  proof (cases "index < length (q_pending q)")
    case False
    with "1.prems" show ?thesis by (subst (asm) run_loop.simps) auto
  next
    case True
    show ?thesis
    proof (cases "canStart limits q (q_pending q ! index)")
      case False
      with True "1.prems" have "run_loop limits at_once (index + 1) q = (q', started)"
        by (subst (asm) run_loop.simps) simp
      note IH = "1.IH"(1) [OF True False this "1.prems"(2,3)]
      show ?thesis
        by (rule IH) (use "1.prems"(4) True False in \<open>simp add: take_Suc_conv_app_nth\<close>)
    next
      case can: True
      then have can': "\<not> \<not> canStart limits q (q_pending q ! index)" by simp
      let ?p = "q\<lparr>q_pending := remove_at index (q_pending q)\<rparr>"
      from can True "1.prems"(1) obtain rs where r:
        "run_loop limits at_once index (run_turn at_once index q) = (q', rs)"
        by (subst (asm) run_loop.simps) (auto split: prod.splits)
      have turn: "run_turn at_once index q = queue_start (q_pending q ! index) ?p"
        using "1.prems"(2) by (simp add: run_turn_start)
      have inv: "q_inv limits ?p"
        using "1.prems"(3) remove_at_subseq by (rule q_inv_subseq)
      then have "q_inv limits (run_turn at_once index q)"
        unfolding turn using can by (intro start_inv) simp_all
      moreover have "list_all (\<lambda>t. \<not> canStart limits (run_turn at_once index q) t)
          (take index (q_pending (run_turn at_once index q)))"
        using "1.prems"(4) canStart_after_start [OF inv, of "q_pending q ! index"] True
        by (auto simp: turn list_all_iff remove_at_def min_absorb2)
      ultimately show ?thesis
        by (rule "1.IH"(2) [OF True can' r "1.prems"(2)])
    qed
  qed
qed

text \<open>
  A pass of run starts everything it can: afterwards no queued ticket could start, nothing is
  lost or duplicated, and what is started and what stays queued each keep the queue order; so a
  busy repository never stalls another one.
\<close>

theorem queue_run_starts_all:
  assumes "(q_step limits)\<^sup>*\<^sup>* createQueue q" and "queue_run limits (\<lambda>_. False) q = (q', started)"
  shows "(\<forall>t\<in>set (q_pending q'). \<not> canStart limits q' t) \<and>
    subseq started (q_pending q) \<and> subseq (q_pending q') (q_pending q) \<and>
    length (q_pending q) = length (q_pending q') + length started"
  using run_loop_maximal [OF assms(2) [unfolded queue_run_def]] queue_system.reachable_inv [OF refl assms(1)]
    run_loop_keeps_order [OF assms(2) [unfolded queue_run_def]]
  by (simp add: list_all_iff)

lemma queue_run_starts_all_witness:
  "list_all (\<lambda>t. \<not> canStart DEFAULT_QUEUE_LIMITS (fst (queue_run DEFAULT_QUEUE_LIMITS (\<lambda>_. False) sample_queue)) t)
     (q_pending (fst (queue_run DEFAULT_QUEUE_LIMITS (\<lambda>_. False) sample_queue)))"
  using queue_run_starts_all [OF sample_queue_reachable,
      of "fst (queue_run DEFAULT_QUEUE_LIMITS (\<lambda>_. False) sample_queue)"
         "snd (queue_run DEFAULT_QUEUE_LIMITS (\<lambda>_. False) sample_queue)"] by (simp add: list_all_iff)

text \<open>
  C33. No stall: when all work has been released (each release called at least once, in any order)
  the counters are back at zero, and the next pass starts the oldest queued ticket.
\<close>

theorem queue_makes_progress:
  assumes "(q_step limits)\<^sup>*\<^sup>* createQueue q" and "list_all snd (q_handles q)"
    and "0 < maxGlobalGitProcesses limits" and "0 < maxReadersPerRepository limits"
  shows "q_globalRunning q = 0 \<and> q_writers q = [] \<and> q_readers q = [] \<and>
    (q_pending q \<noteq> [] \<longrightarrow> (\<exists>more. snd (queue_run limits at_once q) = hd (q_pending q) # more))"
proof -
  have inv: "q_inv limits q" using queue_system.reachable_inv [OF refl assms(1)] .
  have none: "under_way q = []"
    using assms(2) by (auto simp: under_way_def list_all_iff filter_empty_conv)
  then have busy: "busy md repo q = 0" for md repo by (simp add: busy_def)
  have zero: "q_globalRunning q = 0" using inv none by (simp add: q_inv_def)
  have readers: "readers_of q repo = 0" "map_of (q_readers q) repo \<noteq> Some 0" for repo
    using inv busy [of ReadMode repo] unfolding q_inv_def by metis+
  have "map_of (q_readers q) = Map.empty"
  proof
    fix repo
    show "map_of (q_readers q) repo = None"
      using readers [of repo] by (cases "map_of (q_readers q) repo") (auto simp: readers_of_def)
  qed
  then have "q_readers q = []" by simp
  moreover have writers: "q_writers q = []"
  proof -
    have "repo \<notin> set (q_writers q)" for repo
      using inv busy [of WriteMode repo] unfolding q_inv_def by (metis zero_neq_one)
    then show ?thesis by (metis list.set_intros(1) neq_Nil_conv)
  qed
  moreover have "\<exists>more. snd (queue_run limits at_once q) = hd (q_pending q) # more" if "q_pending q \<noteq> []"
  proof -
    have "canStart limits q (q_pending q ! 0)"
      using zero readers writers assms(3,4) by (simp add: canStart_def)
    with that show ?thesis
      unfolding queue_run_def
      by (subst run_loop.simps) (auto simp: hd_conv_nth split: prod.split)
  qed
  ultimately show ?thesis using zero by blast
qed

lemma queue_makes_progress_witness:
  "q_globalRunning (sample_enqueue WriteMode ''w'' createQueue) = 0 \<and>
   (\<exists>more. snd (queue_run DEFAULT_QUEUE_LIMITS (\<lambda>_. False) (sample_enqueue WriteMode ''w'' createQueue)) =
     hd (q_pending (sample_enqueue WriteMode ''w'' createQueue)) # more)"
proof -
  let ?q = "sample_enqueue WriteMode ''w'' createQueue"
  have "(q_step DEFAULT_QUEUE_LIMITS)\<^sup>*\<^sup>* createQueue ?q"
    unfolding sample_enqueue_def by (rule r_into_rtranclp) (rule q_step.enqueue)
  moreover have "list_all snd (q_handles ?q)" "q_pending ?q \<noteq> []" by code_simp+
  ultimately show ?thesis
    using queue_makes_progress [of DEFAULT_QUEUE_LIMITS ?q "\<lambda>_. False"]
    by (simp add: DEFAULT_QUEUE_LIMITS_def)
qed

text \<open>
  Cancelling only ever removes a ticket that has not started: the work under way and all counters
  stay as they are, the call succeeds exactly when the id is queued, and then it takes out one
  ticket of that id.
\<close>

theorem queue_cancel_only_queued:
  "snd (queue_cancel i q) = (i \<in> tk_id ` set (q_pending q)) \<and>
   q_handles (fst (queue_cancel i q)) = q_handles q \<and> q_running (fst (queue_cancel i q)) = q_running q \<and>
   q_globalRunning (fst (queue_cancel i q)) = q_globalRunning q \<and>
   length (q_pending (fst (queue_cancel i q))) + (if snd (queue_cancel i q) then 1 else 0) = length (q_pending q) \<and>
   filter (\<lambda>t. tk_id t \<noteq> i) (q_pending (fst (queue_cancel i q))) = filter (\<lambda>t. tk_id t \<noteq> i) (q_pending q)"
proof -
  have none: "remove_first P xs = None \<longleftrightarrow> (\<forall>x\<in>set xs. \<not> P x)" for P and xs :: "'a ticket list"
    by (induction xs) auto
  have some: "remove_first P xs = Some ys \<Longrightarrow>
      length ys + 1 = length xs \<and> filter (\<lambda>x. \<not> P x) ys = filter (\<lambda>x. \<not> P x) xs"
    for P and xs ys :: "'a ticket list"
    by (induction xs arbitrary: ys) (auto split: if_splits)
  show ?thesis
    using none [of "\<lambda>t. tk_id t = i" "q_pending q"] some [of "\<lambda>t. tk_id t = i" "q_pending q"]
    by (auto simp: queue_cancel_def split: option.split)
qed

end
