(* ===== verification/Json.thy ===== *)
theory Json
  imports Prelude "HOL-Library.Multiset"
begin

text \<open>
  JSON values and their texts. \<open>stringify\<close> is the \<^verbatim>\<open>JSON.stringify\<close> of the language on such values
  (numbers are the integers the service writes), \<open>canonicalJson\<close> is the deterministic text of
  \<^verbatim>\<open>packages/host-node/src/journal/store.ts\<close> that payload digests are made from. The lemmas show
  that the order of keys does not matter to it, at any depth.
\<close>

datatype jsvalue =
    JUndefined
  | JNull
  | JBool bool
  | JNumber int
  | JString jsstring
  | JArray "jsvalue list"
  | JObject "(jsstring \<times> jsvalue) list"

section \<open>Texts\<close>

definition hex_digit :: "nat \<Rightarrow> code_unit" where
  "hex_digit n = (if n < 10 then of_nat (0x30 + n) else of_nat (0x57 + n))"

definition is_surrogate :: "code_unit \<Rightarrow> bool" where
  "is_surrogate c \<longleftrightarrow> 0xd800 \<le> c \<and> c \<le> 0xdfff"

definition unicode_escape :: "code_unit \<Rightarrow> jsstring" where
  "unicode_escape c =
     (let n = unat c
      in str [CHR 0x5c] @ str ''u'' @
         [hex_digit (n div 4096), hex_digit (n div 256 mod 16), hex_digit (n div 16 mod 16), hex_digit (n mod 16)])"

text \<open>\<^verbatim>\<open>QuoteJSONString\<close>: the two-character escapes, control characters and lone surrogates.\<close>

fun quote_units :: "jsstring \<Rightarrow> jsstring" where
  "quote_units [] = []"
| "quote_units (c # cs) =
     (if c = 0x08 then [0x5c, 0x62] @ quote_units cs
      else if c = 0x09 then [0x5c, 0x74] @ quote_units cs
      else if c = 0x0a then [0x5c, 0x6e] @ quote_units cs
      else if c = 0x0c then [0x5c, 0x66] @ quote_units cs
      else if c = 0x0d then [0x5c, 0x72] @ quote_units cs
      else if c = 0x22 \<or> c = 0x5c then [0x5c, c] @ quote_units cs
      else if c < 0x20 then unicode_escape c @ quote_units cs
      else if 0xd800 \<le> c \<and> c \<le> 0xdbff then
        (case cs of
           d # ds \<Rightarrow> if 0xdc00 \<le> d \<and> d \<le> 0xdfff then c # d # quote_units ds
                     else unicode_escape c @ quote_units cs
         | [] \<Rightarrow> unicode_escape c)
      else if is_surrogate c then unicode_escape c @ quote_units cs
      else c # quote_units cs)"

definition quote :: "jsstring \<Rightarrow> jsstring" where
  "quote s = [0x22] @ quote_units s @ [0x22]"

definition number_text :: "int \<Rightarrow> jsstring" where
  "number_text n = (if n < 0 then 0x2d # decimal (nat (- n)) else decimal (nat n))"

fun atom_text :: "jsvalue \<Rightarrow> jsstring" where
  "atom_text JNull = str ''null''"
| "atom_text (JBool b) = (if b then str ''true'' else str ''false'')"
| "atom_text (JNumber n) = number_text n"
| "atom_text (JString s) = quote s"
| "atom_text _ = str ''null''"

text \<open>\<^verbatim>\<open>texts.join(",")\<close>\<close>

fun join_comma :: "jsstring list \<Rightarrow> jsstring" where
  "join_comma [] = []"
| "join_comma [t] = t"
| "join_comma (t # ts) = t @ 0x2c # join_comma ts"

definition member_text :: "jsstring \<Rightarrow> jsstring \<Rightarrow> jsstring" where
  "member_text key text = quote key @ 0x3a # text"

text \<open>
  \<^verbatim>\<open>JSON.stringify\<close>: members keep the order of the object, \<^verbatim>\<open>undefined\<close> members are left out and an
  \<^verbatim>\<open>undefined\<close> element of an array is \<^verbatim>\<open>null\<close>.
\<close>

fun stringify :: "jsvalue \<Rightarrow> jsstring" where
  "stringify (JArray vs) = 0x5b # join_comma (map stringify vs) @ [0x5d]"
| "stringify (JObject ms) =
     0x7b # join_comma (map (\<lambda>(k, v). member_text k (stringify v)) (filter (\<lambda>(k, v). v \<noteq> JUndefined) ms)) @ [0x7d]"
| "stringify v = atom_text v"

text \<open>\<^verbatim>\<open>canonicalJson\<close>: the same, with the members of every object sorted by key.\<close>

lemma size_member: "(k, v) \<in> set ms \<Longrightarrow> size v < Suc (size_list (size_prod (\<lambda>_. 0) size) ms)"
  by (induction ms) auto

function canonicalJson :: "jsvalue \<Rightarrow> jsstring" where
  "canonicalJson (JArray vs) = 0x5b # join_comma (map canonicalJson vs) @ [0x5d]"
| "canonicalJson (JObject ms) =
     0x7b # join_comma (map (\<lambda>(k, v). member_text k (canonicalJson v))
              (sort_key fst (filter (\<lambda>(k, v). v \<noteq> JUndefined) ms))) @ [0x7d]"
| "canonicalJson JUndefined = atom_text JUndefined"
| "canonicalJson JNull = atom_text JNull"
| "canonicalJson (JBool b) = atom_text (JBool b)"
| "canonicalJson (JNumber n) = atom_text (JNumber n)"
| "canonicalJson (JString s) = atom_text (JString s)"
  by pat_completeness auto
termination
  by (relation "measure size") (auto simp: less_Suc_eq_le size_list_estimation' dest: size_member)

section \<open>The order of keys does not matter\<close>

text \<open>The same value up to the order of members, at any depth; keys are distinct, as in an object.\<close>

inductive same_json :: "jsvalue \<Rightarrow> jsvalue \<Rightarrow> bool" where
  same_refl: "same_json v v"
| same_array: "list_all2 same_json vs ws \<Longrightarrow> same_json (JArray vs) (JArray ws)"
| same_object: "list_all2 (\<lambda>m n. fst m = fst n \<and> same_json (snd m) (snd n) \<and> (snd m = JUndefined \<longleftrightarrow> snd n = JUndefined)) ms ns \<Longrightarrow>
    mset ns = mset ns' \<Longrightarrow> distinct (map fst ms) \<Longrightarrow> same_json (JObject ms) (JObject ns')"

lemma sort_key_map_fst_unique:
  assumes "mset xs = mset ys" and "distinct (map fst xs)"
  shows "sort_key fst xs = sort_key fst ys"
proof (rule map_sorted_distinct_set_unique [where f = fst])
  have eq: "set (sort_key fst xs) = set (sort_key fst ys)" using mset_eq_setD [OF assms(1)] by simp
  then show "set (sort_key fst xs) = set (sort_key fst ys)" .
  show "inj_on fst (set (sort_key fst xs) \<union> set (sort_key fst ys))"
    using assms(2) eq by (simp add: distinct_map)
  have "distinct (map fst ys)"
    using assms by (metis mset_eq_imp_distinct_iff mset_map)
  then show "distinct (map fst (sort_key fst ys))" "distinct (map fst (sort_key fst xs))"
    using assms(2) mset_eq_imp_distinct_iff [of "map fst (sort_key fst xs)" "map fst xs"]
      mset_eq_imp_distinct_iff [of "map fst (sort_key fst ys)" "map fst ys"] by simp_all
qed simp_all

lemma list_all2_filter:
  "list_all2 R xs ys \<Longrightarrow> (\<And>x y. R x y \<Longrightarrow> P x \<longleftrightarrow> Q y) \<Longrightarrow> list_all2 R (filter P xs) (filter Q ys)"
  by (induction rule: list_all2_induct) auto

lemma list_all2_insort_key:
  "list_all2 R xs ys \<Longrightarrow> R x y \<Longrightarrow> (\<And>x y. R x y \<Longrightarrow> f x = g y) \<Longrightarrow>
   list_all2 R (insort_key f x xs) (insort_key g y ys)"
  by (induction rule: list_all2_induct) auto

lemma list_all2_sort_key:
  "list_all2 R xs ys \<Longrightarrow> (\<And>x y. R x y \<Longrightarrow> f x = g y) \<Longrightarrow> list_all2 R (sort_key f xs) (sort_key g ys)"
proof (induction rule: list_all2_induct)
  case (Cons x xs y ys)
  then show ?case by (simp add: list_all2_insort_key)
qed simp

lemma list_all2_map_eq: "list_all2 R xs ys \<Longrightarrow> (\<And>x y. R x y \<Longrightarrow> f x = g y) \<Longrightarrow> map f xs = map g ys"
  by (induction rule: list_all2_induct) auto

lemma canonicalJson_same: "same_json v w \<Longrightarrow> canonicalJson v = canonicalJson w"
proof (induction rule: same_json.induct)
  case (same_array vs ws)
  then have "list_all2 (\<lambda>v w. canonicalJson v = canonicalJson w) vs ws"
    by (rule list_all2_mono) auto
  then have "map canonicalJson vs = map canonicalJson ws" by (rule list_all2_map_eq) simp
  then show ?case by simp
next
  case (same_object ms ns ns')
  let ?R = "\<lambda>m n. fst m = fst n \<and> canonicalJson (snd m) = canonicalJson (snd n) \<and> (snd m = JUndefined \<longleftrightarrow> snd n = JUndefined)"
  let ?def = "\<lambda>(k :: jsstring, v). v \<noteq> JUndefined"
  have R: "list_all2 ?R ms ns" using same_object(1) by (rule list_all2_mono) auto
  then have "list_all2 ?R (sort_key fst (filter ?def ms)) (sort_key fst (filter ?def ns))"
    by (intro list_all2_sort_key list_all2_filter) auto
  then have "map (\<lambda>(k, v). member_text k (canonicalJson v)) (sort_key fst (filter ?def ms)) =
      map (\<lambda>(k, v). member_text k (canonicalJson v)) (sort_key fst (filter ?def ns))"
    by (rule list_all2_map_eq) auto
  moreover have "map fst ms = map fst ns" using R by (rule list_all2_map_eq) auto
  then have "distinct (map fst ns)" using same_object(3) by simp
  then have "sort_key fst (filter ?def ns) = sort_key fst (filter ?def ns')"
    using same_object(2) by (intro sort_key_map_fst_unique) (simp_all add: distinct_map_filter)
  ultimately show ?case by simp
qed simp

text \<open>
  Two requests that differ only in the order in which a client wrote the keys, at any depth, have
  the same canonical text, so a retry is recognised whatever the client's serialiser does.
\<close>

theorem canonicalJson_key_order:
  assumes "same_json v w"
  shows "canonicalJson v = canonicalJson w"
  using assms by (rule canonicalJson_same)

lemma canonicalJson_key_order_witness:
  "canonicalJson (JObject [(str ''b'', JArray [JNull]), (str ''a'', JNumber (- 3)), (str ''u'', JUndefined)]) =
   canonicalJson (JObject [(str ''a'', JNumber (- 3)), (str ''u'', JUndefined), (str ''b'', JArray [JNull])])"
proof (rule canonicalJson_key_order, rule same_object)
  show "list_all2 (\<lambda>m n. fst m = fst n \<and> same_json (snd m) (snd n) \<and> (snd m = JUndefined \<longleftrightarrow> snd n = JUndefined))
      [(str ''b'', JArray [JNull]), (str ''a'', JNumber (- 3)), (str ''u'', JUndefined)]
      [(str ''b'', JArray [JNull]), (str ''a'', JNumber (- 3)), (str ''u'', JUndefined)]"
    by (simp add: same_refl)
qed simp_all

end
