(* ===== verification/Journal.thy ===== *)
theory Journal
  imports Json
begin

text \<open>
  The operation journal: \<^verbatim>\<open>packages/host-node/src/journal/retention.ts\<close> and \<^verbatim>\<open>store.ts\<close>. The record
  \<open>store\<close> holds the variables of \<^verbatim>\<open>createJournalStore\<close> and the journal file; each definition is the code
  between two \<^verbatim>\<open>await\<close>s, and \<open>journal_append\<close> and \<open>journal_compact\<close> compose them the way a caller that
  waits does. \<^verbatim>\<open>JSON.parse\<close> and the two date conversions of the platform are the fields of \<open>runtime\<close>.
\<close>

section \<open>Entries and retention\<close>

record journal_entry =
  je_operationId :: jsstring
  je_clientRequestId :: jsstring
  je_actor :: jsstring
  je_kind :: jsstring
  je_target :: jsvalue
  je_status :: jsstring
  je_sequence :: int
  je_acceptedAtMs :: jsnumber
  je_startedAtMs :: "int option"
  je_finishedAtMs :: "int option"
  je_payloadDigest :: jsstring
  je_repositoryId :: jsstring
  je_result :: jsvalue
  je_problem :: jsvalue
  je_unknownReason :: "jsstring option"

record retention_policy =
  rp_ttlMs :: int
  rp_maxEntries :: nat
  rp_maxBytes :: nat

definition DEFAULT_RETENTION :: retention_policy where
  "DEFAULT_RETENTION =
     \<lparr>rp_ttlMs = 24 * 60 * 60 * 1000, rp_maxEntries = 2000, rp_maxBytes = 16 * 1024 * 1024\<rparr>"

definition isTerminalStatus :: "jsstring \<Rightarrow> bool" where
  "isTerminalStatus status \<longleftrightarrow>
     status = str ''succeeded'' \<or> status = str ''failed'' \<or> status = str ''needsAttention'' \<or>
     status = str ''unknown'' \<or> status = str ''cancelled''"

text \<open>\<^verbatim>\<open>nowMs - finishedAt >= ttlMs\<close>, false for a time that is not a number.\<close>

fun aged :: "int \<Rightarrow> jsnumber \<Rightarrow> int \<Rightarrow> bool" where
  "aged nowMs (Fin t) ttl = (nowMs - t \<ge> ttl)"
| "aged nowMs NegInf ttl = True"
| "aged nowMs _ ttl = False"

definition mayPruneRecord :: "journal_entry \<Rightarrow> int \<Rightarrow> retention_policy \<Rightarrow> bool" where
  "mayPruneRecord entry nowMs policy =
     (if \<not> isTerminalStatus (je_status entry) then False
      else aged nowMs (case je_finishedAtMs entry of Some t \<Rightarrow> Fin t | None \<Rightarrow> je_acceptedAtMs entry)
             (rp_ttlMs policy))"

datatype retention_reason = Unfinished | WithinTtl | ExpiredTerminal

definition decideRetention :: "journal_entry \<Rightarrow> int \<Rightarrow> retention_policy \<Rightarrow> bool \<times> retention_reason" where
  "decideRetention entry nowMs policy =
     (if \<not> isTerminalStatus (je_status entry) then (True, Unfinished)
      else if mayPruneRecord entry nowMs policy then (False, ExpiredTerminal)
      else (True, WithinTtl))"

definition exceedsEntryBound :: "nat \<Rightarrow> retention_policy \<Rightarrow> bool" where
  "exceedsEntryBound n policy \<longleftrightarrow> n > rp_maxEntries policy"

section \<open>Lines\<close>

record runtime =
  rt_parse :: "jsstring \<Rightarrow> jsvalue option"
  rt_iso :: "int \<Rightarrow> jsstring option"
  rt_dateParse :: "jsstring \<Rightarrow> jsnumber"

text \<open>\<^verbatim>\<open>new Date(ms).toISOString()\<close> throws a \<^verbatim>\<open>RangeError\<close> for a time that is no date.\<close>

fun iso_time :: "runtime \<Rightarrow> jsnumber \<Rightarrow> js_error + jsvalue" where
  "iso_time rt (Fin t) = (case rt_iso rt t of Some s \<Rightarrow> Inr (JString s) | None \<Rightarrow> Inl RangeError)"
| "iso_time rt _ = Inl RangeError"

definition iso_optional :: "runtime \<Rightarrow> int option \<Rightarrow> js_error + jsvalue" where
  "iso_optional rt t = (case t of None \<Rightarrow> Inr JNull | Some n \<Rightarrow> iso_time rt (Fin n))"

definition entry_json :: "runtime \<Rightarrow> journal_entry \<Rightarrow> js_error + jsvalue" where
  "entry_json rt e =
     bindE (iso_time rt (je_acceptedAtMs e)) (\<lambda>acceptedAt.
     bindE (iso_optional rt (je_startedAtMs e)) (\<lambda>startedAt.
     bindE (iso_optional rt (je_finishedAtMs e)) (\<lambda>finishedAt.
     Inr (JObject
       [(str ''operationId'', JString (je_operationId e)),
        (str ''clientRequestId'', JString (je_clientRequestId e)),
        (str ''actor'', JString (je_actor e)),
        (str ''kind'', JString (je_kind e)),
        (str ''target'', je_target e),
        (str ''status'', JString (je_status e)),
        (str ''sequence'', JNumber (je_sequence e)),
        (str ''acceptedAt'', acceptedAt),
        (str ''startedAt'', startedAt),
        (str ''finishedAt'', finishedAt),
        (str ''payloadDigest'', JString (je_payloadDigest e)),
        (str ''repositoryId'', JString (je_repositoryId e)),
        (str ''result'', je_result e),
        (str ''problem'', je_problem e),
        (str ''unknownReason'', (case je_unknownReason e of None \<Rightarrow> JNull | Some r \<Rightarrow> JString r))]))))"

definition serialize :: "runtime \<Rightarrow> journal_entry \<Rightarrow> js_error + jsstring" where
  "serialize rt e = bindE (entry_json rt e) (\<lambda>v. Inr (stringify v @ [0x0a]))"

text \<open>\<^verbatim>\<open>candidate[key]\<close>\<close>

fun member :: "jsvalue \<Rightarrow> string \<Rightarrow> jsvalue" where
  "member (JObject ms) key = (case map_of ms (str key) of Some v \<Rightarrow> v | None \<Rightarrow> JUndefined)"
| "member _ key = JUndefined"

fun string_of :: "jsvalue \<Rightarrow> jsstring option" where
  "string_of (JString s) = Some s"
| "string_of _ = None"

fun number_of :: "jsvalue \<Rightarrow> int option" where
  "number_of (JNumber n) = Some n"
| "number_of _ = None"

text \<open>\<^verbatim>\<open>typeof v === "object" && v !== null\<close>\<close>

fun is_object :: "jsvalue \<Rightarrow> bool" where
  "is_object (JArray vs) = True"
| "is_object (JObject ms) = True"
| "is_object _ = False"

definition or_null :: "jsvalue \<Rightarrow> jsvalue" where
  "or_null v = (if v = JUndefined then JNull else v)"

definition parseTime :: "runtime \<Rightarrow> jsvalue \<Rightarrow> int option" where
  "parseTime rt v =
     (case string_of v of
        None \<Rightarrow> None
      | Some s \<Rightarrow> (case rt_dateParse rt s of Fin t \<Rightarrow> Some t | _ \<Rightarrow> None))"

definition deserialize :: "runtime \<Rightarrow> jsstring \<Rightarrow> journal_entry option" where
  "deserialize rt line =
     (case rt_parse rt line of
        None \<Rightarrow> None
      | Some c \<Rightarrow>
          if \<not> is_object c then None
          else (case (string_of (member c ''operationId''), string_of (member c ''clientRequestId''),
                      string_of (member c ''actor''), string_of (member c ''kind''),
                      string_of (member c ''status''), number_of (member c ''sequence''),
                      string_of (member c ''acceptedAt''), string_of (member c ''payloadDigest''),
                      string_of (member c ''repositoryId'')) of
              (Some operationId, Some clientRequestId, Some actor, Some kind, Some status, Some sequence,
               Some acceptedAt, Some payloadDigest, Some repositoryId) \<Rightarrow>
                if \<not> is_object (member c ''target'') then None
                else Some \<lparr>je_operationId = operationId, je_clientRequestId = clientRequestId, je_actor = actor,
                  je_kind = kind, je_target = member c ''target'', je_status = status, je_sequence = sequence,
                  je_acceptedAtMs = rt_dateParse rt acceptedAt,
                  je_startedAtMs = parseTime rt (member c ''startedAt''),
                  je_finishedAtMs = parseTime rt (member c ''finishedAt''),
                  je_payloadDigest = payloadDigest, je_repositoryId = repositoryId,
                  je_result = or_null (member c ''result''), je_problem = or_null (member c ''problem''),
                  je_unknownReason = string_of (member c ''unknownReason'')\<rparr>
            | _ \<Rightarrow> None))"

text \<open>\<^verbatim>\<open>Buffer.byteLength(text, "utf8")\<close>\<close>

fun utf8_length :: "jsstring \<Rightarrow> nat" where
  "utf8_length [] = 0"
| "utf8_length (c # cs) =
     (if c < 0x80 then 1 + utf8_length cs
      else if c < 0x800 then 2 + utf8_length cs
      else if 0xd800 \<le> c \<and> c \<le> 0xdbff then
        (case cs of
           d # ds \<Rightarrow> if 0xdc00 \<le> d \<and> d \<le> 0xdfff then 4 + utf8_length ds else 3 + utf8_length cs
         | [] \<Rightarrow> 3)
      else 3 + utf8_length cs)"

section \<open>The store\<close>

type_synonym entry_map = "(jsstring \<times> journal_entry) list"

record store =
  st_entries :: entry_map
  st_bytes :: nat
  st_file :: "jsstring option"

definition createJournalStore :: "jsstring option \<Rightarrow> store" where
  "createJournalStore file = \<lparr>st_entries = [], st_bytes = 0, st_file = file\<rparr>"

definition set_entry :: "journal_entry \<Rightarrow> entry_map \<Rightarrow> entry_map" where
  "set_entry e m = AList.update (je_operationId e) e m"

text \<open>The loop of \<^verbatim>\<open>load\<close>: only the last two pieces of the file may be unreadable.\<close>

fun load_lines :: "runtime \<Rightarrow> nat \<Rightarrow> nat \<Rightarrow> jsstring list \<Rightarrow> entry_map \<Rightarrow> js_error + entry_map" where
  "load_lines rt pieces index [] m = Inr m"
| "load_lines rt pieces index (line # lines) m =
     (if line = [] then load_lines rt pieces (index + 1) lines m
      else (case deserialize rt line of
          None \<Rightarrow>
            if index + 1 \<noteq> pieces \<and> index + 2 \<noteq> pieces
            then Inl (PlainError ''the journal has an unreadable record'')
            else load_lines rt pieces (index + 1) lines m
        | Some e \<Rightarrow> load_lines rt pieces (index + 1) lines (set_entry e m)))"

definition journal_load :: "runtime \<Rightarrow> store \<Rightarrow> js_error + store" where
  "journal_load rt st =
     (case st_file st of
        None \<Rightarrow> Inr st
      | Some text \<Rightarrow>
          (let lines = splitOn 0x0a text
           in bindE (load_lines rt (length lines) 0 lines (st_entries st)) (\<lambda>m.
              Inr (st\<lparr>st_bytes := utf8_length text, st_entries := m\<rparr>))))"

text \<open>
  \<^verbatim>\<open>compact\<close>: the plan made from the entries at that moment (records kept, number dropped, bytes
  kept), the file written and renamed, and the maps replaced after it.
\<close>

fun plan_loop ::
  "runtime \<Rightarrow> retention_policy \<Rightarrow> int \<Rightarrow> journal_entry list \<Rightarrow> js_error + journal_entry list \<times> nat \<times> nat" where
  "plan_loop rt policy current [] = Inr ([], 0, 0)"
| "plan_loop rt policy current (e # es) =
     bindE (serialize rt e) (\<lambda>line.
     bindE (plan_loop rt policy current es) (\<lambda>(kept, dropped, total).
     if \<not> isTerminalStatus (je_status e) then Inr (e # kept, dropped, utf8_length line + total)
     else if mayPruneRecord e current policy then Inr (kept, dropped + 1, total)
     else Inr (e # kept, dropped, utf8_length line + total)))"

definition compact_plan ::
  "runtime \<Rightarrow> retention_policy \<Rightarrow> int \<Rightarrow> store \<Rightarrow> js_error + journal_entry list \<times> nat \<times> nat" where
  "compact_plan rt policy current st =
     plan_loop rt policy current (sort_key je_sequence (map snd (st_entries st)))"

definition compact_write :: "runtime \<Rightarrow> journal_entry list \<Rightarrow> store \<Rightarrow> js_error + store" where
  "compact_write rt kept st =
     bindE (mapE (serialize rt) kept) (\<lambda>lines. Inr (st\<lparr>st_file := Some (concat lines)\<rparr>))"

definition compact_finish :: "journal_entry list \<Rightarrow> nat \<Rightarrow> store \<Rightarrow> store" where
  "compact_finish kept projected st = st\<lparr>st_entries := fold set_entry kept [], st_bytes := projected\<rparr>"

definition journal_compact :: "runtime \<Rightarrow> retention_policy \<Rightarrow> int \<Rightarrow> store \<Rightarrow> js_error + store \<times> nat" where
  "journal_compact rt policy current st =
     bindE (compact_plan rt policy current st) (\<lambda>(kept, dropped, projected).
     if dropped = 0 then Inr (st, 0)
     else bindE (compact_write rt kept st) (\<lambda>st. Inr (compact_finish kept projected st, dropped)))"

text \<open>\<^verbatim>\<open>append\<close>: the line appended to the file, then the entry and the byte count.\<close>

definition append_write :: "jsstring \<Rightarrow> store \<Rightarrow> store" where
  "append_write line st =
     st\<lparr>st_file := Some ((case st_file st of Some text \<Rightarrow> text | None \<Rightarrow> []) @ line)\<rparr>"

definition append_finish :: "journal_entry \<Rightarrow> nat \<Rightarrow> store \<Rightarrow> store" where
  "append_finish e lineBytes st =
     st\<lparr>st_entries := set_entry e (st_entries st), st_bytes := st_bytes st + lineBytes\<rparr>"

datatype append_outcome = Appended | JournalFull

definition journal_append ::
  "runtime \<Rightarrow> retention_policy \<Rightarrow> int \<Rightarrow> journal_entry \<Rightarrow> store \<Rightarrow> js_error + store \<times> append_outcome" where
  "journal_append rt policy current e st =
     bindE (serialize rt e) (\<lambda>line.
     let lineBytes = utf8_length line
     in if st_bytes st + lineBytes > rp_maxBytes policy
        then bindE (journal_compact rt policy current st) (\<lambda>(st, pruned).
             if pruned = 0 \<or> st_bytes st + lineBytes > rp_maxBytes policy then Inr (st, JournalFull)
             else Inr (append_finish e lineBytes (append_write line st), Appended))
        else Inr (append_finish e lineBytes (append_write line st), Appended))"

definition journal_get :: "store \<Rightarrow> jsstring \<Rightarrow> journal_entry option" where
  "journal_get st operationId = map_of (st_entries st) operationId"

definition journal_list :: "jsstring \<Rightarrow> nat \<Rightarrow> store \<Rightarrow> journal_entry list" where
  "journal_list actor limit st =
     take limit (sort_key (\<lambda>e. - je_sequence e) (filter (\<lambda>e. je_actor e = actor) (map snd (st_entries st))))"

definition journal_unfinished :: "store \<Rightarrow> journal_entry list" where
  "journal_unfinished st =
     filter (\<lambda>e. je_status e = str ''accepted'' \<or> je_status e = str ''running'') (map snd (st_entries st))"

definition sizeBytes :: "store \<Rightarrow> nat" where
  "sizeBytes st = st_bytes st"

definition entryCount :: "store \<Rightarrow> nat" where
  "entryCount st = length (st_entries st)"

section \<open>Lines are read back\<close>

text \<open>A JSON text never holds a line feed, so a line of the file is one record.\<close>

lemma hex_digit_line: "n < 16 \<Longrightarrow> hex_digit n \<noteq> 0x0a"
proof -
  assume "n < 16"
  then have "n \<in> set [0..<16]" by simp
  moreover have "list_all (\<lambda>n. hex_digit n \<noteq> 0x0a) [0..<16]"
    by (simp add: hex_digit_def upt_rec)
  ultimately show ?thesis by (auto simp only: list_all_iff)
qed

lemma unicode_escape_line: "0x0a \<notin> set (unicode_escape c)"
proof -
  have "unat c < 2 ^ 16" using unsigned_less [of c] by simp
  then have n: "unat c div 4096 < 16" by (simp add: less_mult_imp_div_less)
  have "hex_digit (unat c div 4096) \<noteq> 0x0a" "hex_digit (unat c div 256 mod 16) \<noteq> 0x0a"
    "hex_digit (unat c div 16 mod 16) \<noteq> 0x0a" "hex_digit (unat c mod 16) \<noteq> 0x0a"
    by (rule hex_digit_line; use n in simp)+
  then show ?thesis by (auto simp: unicode_escape_def Let_def)
qed

lemma quote_units_line: "0x0a \<notin> set (quote_units s)"
  by (induction s rule: quote_units.induct) (auto simp: unicode_escape_line split: list.split)

lemma quote_line: "0x0a \<notin> set (quote s)"
  using quote_units_line by (simp add: quote_def)

lemma decimal_line: "0x0a \<notin> set (decimal n)"
  using decimal_all_digits [of n] by (auto simp: all_digits_def list_all_iff isDigit_def)

lemma atom_text_line: "0x0a \<notin> set (atom_text v)"
  by (cases v) (auto simp: number_text_def decimal_line quote_line)

lemma join_comma_line: "(\<And>t. t \<in> set ts \<Longrightarrow> 0x0a \<notin> set t) \<Longrightarrow> 0x0a \<notin> set (join_comma ts)"
  by (induction ts rule: join_comma.induct) auto

lemma stringify_line: "0x0a \<notin> set (stringify v)"
proof (induction v rule: stringify.induct)
  case (1 vs)
  then have "0x0a \<notin> set (join_comma (map stringify vs))" by (intro join_comma_line) auto
  then show ?case by simp
next
  case (2 ms)
  have "0x0a \<notin> set (join_comma (map (\<lambda>(k, v). member_text k (stringify v)) (filter (\<lambda>(k, v). v \<noteq> JUndefined) ms)))"
  proof (rule join_comma_line)
    fix t assume "t \<in> set (map (\<lambda>(k, v). member_text k (stringify v)) (filter (\<lambda>(k, v). v \<noteq> JUndefined) ms))"
    then obtain k v where kv: "(k, v) \<in> set ms" "v \<noteq> JUndefined" "t = member_text k (stringify v)" by auto
    then have "0x0a \<notin> set (stringify v)" using 2 by auto
    with kv quote_line [of k] show "0x0a \<notin> set t" by (simp add: member_text_def)
  qed
  then show ?case by simp
qed (auto simp: atom_text_line simp del: atom_text.simps)

text \<open>
  What the development relies on of the platform, for the records at hand: the times are dates that
  \<^verbatim>\<open>Date.parse\<close> reads back, and \<^verbatim>\<open>JSON.parse\<close> reads back what \<^verbatim>\<open>JSON.stringify\<close> wrote.
\<close>

definition date_ok :: "runtime \<Rightarrow> int \<Rightarrow> bool" where
  "date_ok rt t \<longleftrightarrow> (case rt_iso rt t of None \<Rightarrow> False | Some s \<Rightarrow> rt_dateParse rt s = Fin t)"

definition optional_date_ok :: "runtime \<Rightarrow> int option \<Rightarrow> bool" where
  "optional_date_ok rt t \<longleftrightarrow> (case t of None \<Rightarrow> True | Some n \<Rightarrow> date_ok rt n)"

definition durable :: "runtime \<Rightarrow> journal_entry \<Rightarrow> bool" where
  "durable rt e \<longleftrightarrow>
     is_object (je_target e) \<and> je_result e \<noteq> JUndefined \<and> je_problem e \<noteq> JUndefined \<and>
     (case je_acceptedAtMs e of Fin t \<Rightarrow> date_ok rt t | _ \<Rightarrow> False) \<and>
     optional_date_ok rt (je_startedAtMs e) \<and> optional_date_ok rt (je_finishedAtMs e) \<and>
     (case entry_json rt e of Inl _ \<Rightarrow> False | Inr v \<Rightarrow> rt_parse rt (stringify v) = Some v)"

lemma iso_optional_read:
  assumes "optional_date_ok rt t"
  obtains v where "iso_optional rt t = Inr v" and "parseTime rt v = t"
proof (cases t)
  case None
  then show ?thesis by (intro that [of JNull]) (simp_all add: iso_optional_def parseTime_def)
next
  case (Some n)
  with assms obtain s where "rt_iso rt n = Some s" "rt_dateParse rt s = Fin n"
    by (auto simp: optional_date_ok_def date_ok_def split: option.splits)
  with Some show ?thesis by (intro that [of "JString s"]) (simp_all add: iso_optional_def parseTime_def)
qed

text \<open>The text of a record, without the line feed.\<close>

definition record_text :: "runtime \<Rightarrow> journal_entry \<Rightarrow> jsstring" where
  "record_text rt e = (case entry_json rt e of Inr v \<Rightarrow> stringify v | Inl _ \<Rightarrow> [])"

lemma durable_read:
  assumes "durable rt e"
  shows "serialize rt e = Inr (record_text rt e @ [0x0a])" and "deserialize rt (record_text rt e) = Some e"
    and "0x0a \<notin> set (record_text rt e)" and "record_text rt e \<noteq> []"
proof -
  from assms obtain t s where t: "je_acceptedAtMs e = Fin t" "rt_iso rt t = Some s" "rt_dateParse rt s = Fin t"
    by (auto simp: durable_def date_ok_def split: jsnumber.splits option.splits)
  from assms obtain sv where sv: "iso_optional rt (je_startedAtMs e) = Inr sv" "parseTime rt sv = je_startedAtMs e"
    by (auto simp: durable_def elim: iso_optional_read)
  from assms obtain fv where fv: "iso_optional rt (je_finishedAtMs e) = Inr fv" "parseTime rt fv = je_finishedAtMs e"
    by (auto simp: durable_def elim: iso_optional_read)
  obtain v where v: "entry_json rt e = Inr v" using t sv fv by (simp add: entry_json_def)
  with assms have parse: "rt_parse rt (stringify v) = Some v" by (simp add: durable_def)
  have obj: "\<exists>m ms. v = JObject (m # ms)" using v t sv fv by (auto simp: entry_json_def)
  show "serialize rt e = Inr (record_text rt e @ [0x0a])" by (simp add: serialize_def record_text_def v)
  show "0x0a \<notin> set (record_text rt e)" by (simp add: record_text_def v stringify_line)
  show "record_text rt e \<noteq> []" using obj by (auto simp: record_text_def v)
  have m: "is_object v" "string_of (member v ''operationId'') = Some (je_operationId e)"
    "string_of (member v ''clientRequestId'') = Some (je_clientRequestId e)"
    "string_of (member v ''actor'') = Some (je_actor e)" "string_of (member v ''kind'') = Some (je_kind e)"
    "string_of (member v ''status'') = Some (je_status e)" "number_of (member v ''sequence'') = Some (je_sequence e)"
    "string_of (member v ''acceptedAt'') = Some s" "string_of (member v ''payloadDigest'') = Some (je_payloadDigest e)"
    "string_of (member v ''repositoryId'') = Some (je_repositoryId e)" "member v ''target'' = je_target e"
    "member v ''startedAt'' = sv" "member v ''finishedAt'' = fv" "member v ''result'' = je_result e"
    "member v ''problem'' = je_problem e"
    "string_of (member v ''unknownReason'') = je_unknownReason e"
    using v t sv fv by (auto simp: entry_json_def str_inj simp del: str_simps split: option.split)
  show "deserialize rt (record_text rt e) = Some e"
    using assms by (simp add: deserialize_def record_text_def v parse m sv fv t or_null_def durable_def)
qed

section \<open>The file replays to the entries\<close>

definition replay :: "journal_entry list \<Rightarrow> entry_map" where
  "replay hs = fold set_entry hs []"

definition file_text :: "runtime \<Rightarrow> journal_entry list \<Rightarrow> jsstring" where
  "file_text rt hs = concat (map (\<lambda>e. record_text rt e @ [0x0a]) hs)"

definition disk :: "store \<Rightarrow> jsstring" where
  "disk st = (case st_file st of Some text \<Rightarrow> text | None \<Rightarrow> [])"

lemma replay_append [simp]: "replay (hs @ [e]) = set_entry e (replay hs)"
  by (simp add: replay_def)

lemma file_text_append [simp]: "file_text rt (hs @ [e]) = file_text rt hs @ record_text rt e @ [0x0a]"
  by (simp add: file_text_def)

lemma file_text_pieces:
  "list_all (durable rt) hs \<Longrightarrow> 0x0a \<notin> set torn \<Longrightarrow>
   splitOn 0x0a (file_text rt hs @ torn) = map (record_text rt) hs @ [torn]"
proof (induction hs)
  case (Cons e hs)
  then have "0x0a \<notin> set (record_text rt e)" using durable_read(3) by simp
  with Cons show ?case by (simp add: file_text_def)
qed (simp add: file_text_def)

lemma load_lines_good:
  "list_all (durable rt) hs \<Longrightarrow>
   load_lines rt pieces i (map (record_text rt) hs @ others) m =
     load_lines rt pieces (i + length hs) others (fold set_entry hs m)"
proof (induction hs arbitrary: i m)
  case (Cons e hs)
  then show ?case using durable_read [of rt e] by simp
qed simp

text \<open>A last line that is torn, or empty as after a complete line, is skipped.\<close>

lemma load_torn:
  assumes "list_all (durable rt) hs" and "0x0a \<notin> set torn" and "torn = [] \<or> deserialize rt torn = None"
  shows "journal_load rt (createJournalStore (Some (file_text rt hs @ torn))) =
    Inr \<lparr>st_entries = replay hs, st_bytes = utf8_length (file_text rt hs @ torn),
         st_file = Some (file_text rt hs @ torn)\<rparr>"
  using assms load_lines_good [OF assms(1), of "length hs + 1" 0 "[torn]" "[]"]
  by (auto simp: journal_load_def createJournalStore_def file_text_pieces replay_def Let_def)

lemma utf8_line: "utf8_length (xs @ 0x0a # ys) = utf8_length (xs @ [0x0a]) + utf8_length ys"
proof (induction xs rule: utf8_length.induct)
  case (2 c cs)
  show ?case
  proof (cases cs)
    case Nil
    then show ?thesis by (cases "0xd800 \<le> c \<and> c \<le> 0xdbff") simp_all
  next
    case (Cons d ds)
    with 2 show ?thesis
      by (auto simp: utf8_length.simps(2) [of c] simp del: utf8_length.simps(2))
  qed
qed simp

lemma utf8_file_text_line: "utf8_length (file_text rt hs @ ys) = utf8_length (file_text rt hs) + utf8_length ys"
proof (induction hs arbitrary: ys)
  case (Cons e hs)
  have "utf8_length (file_text rt (e # hs) @ ys) =
      utf8_length (record_text rt e @ [0x0a]) + utf8_length (file_text rt hs @ ys)" for ys
    using utf8_line [of "record_text rt e" "file_text rt hs @ ys"] by (simp add: file_text_def)
  from this [of ys] this [of "[]"] Cons show ?case by simp
qed (simp add: file_text_def)

section \<open>What compaction keeps\<close>

lemma plan_loop_durable:
  "list_all (durable rt) es \<Longrightarrow>
   plan_loop rt policy current es =
     Inr (filter (\<lambda>e. \<not> mayPruneRecord e current policy) es,
          length (filter (\<lambda>e. mayPruneRecord e current policy) es),
          utf8_length (file_text rt (filter (\<lambda>e. \<not> mayPruneRecord e current policy) es)))"
proof (induction es)
  case (Cons e es)
  have "\<not> isTerminalStatus (je_status e) \<Longrightarrow> \<not> mayPruneRecord e current policy"
    by (simp add: mayPruneRecord_def)
  moreover have "utf8_length (file_text rt (e # hs)) =
      utf8_length (record_text rt e @ [0x0a]) + utf8_length (file_text rt hs)" for hs
    using utf8_file_text_line [of rt "[e]" "file_text rt hs"] by (simp add: file_text_def)
  ultimately show ?case using Cons durable_read(1) [of rt e] by auto
qed (simp add: file_text_def)

lemma compact_write_durable:
  "list_all (durable rt) kept \<Longrightarrow> compact_write rt kept st = Inr (st\<lparr>st_file := Some (file_text rt kept)\<rparr>)"
proof -
  assume "list_all (durable rt) kept"
  then have "mapE (serialize rt) kept = Inr (map (\<lambda>e. record_text rt e @ [0x0a]) kept)"
    by (induction kept) (simp_all add: durable_read(1))
  then show ?thesis by (simp add: compact_write_def file_text_def)
qed

text \<open>The map holds each entry under its own id, once.\<close>

definition keyed_map :: "entry_map \<Rightarrow> bool" where
  "keyed_map m \<longleftrightarrow> distinct (map fst m) \<and> list_all (\<lambda>(k, e). k = je_operationId e) m"

lemma set_update_subset: "set (AList.update k v m) \<subseteq> insert (k, v) (set m)"
  by (induction m) auto

lemma keyed_set_entry: "keyed_map m \<Longrightarrow> keyed_map (set_entry e m)"
  using set_update_subset [of "je_operationId e" e m]
  by (auto simp: keyed_map_def set_entry_def distinct_update list_all_iff)

lemma replay_snoc_induct [case_names Nil snoc]:
  "P [] \<Longrightarrow> (\<And>hs e. P hs \<Longrightarrow> P (hs @ [e])) \<Longrightarrow> P hs"
  by (rule rev_induct)

lemma keyed_replay: "keyed_map (replay hs)"
proof (induction hs rule: replay_snoc_induct)
  case Nil
  then show ?case by (simp add: replay_def keyed_map_def)
qed (simp add: keyed_set_entry)

lemma replay_values: "snd ` set (replay hs) \<subseteq> set hs"
proof (induction hs rule: replay_snoc_induct)
  case (snoc hs e)
  with set_update_subset [of "je_operationId e" e "replay hs"] show ?case
    by (force simp: set_entry_def)
qed (simp add: replay_def)

lemma replay_get: "map_of (replay hs) k = find (\<lambda>e. je_operationId e = k) (rev hs)"
  by (induction hs rule: replay_snoc_induct) (simp_all add: set_entry_def AList.update_conv', simp add: replay_def)

lemma distinct_ids: "keyed_map m \<Longrightarrow> distinct (map je_operationId (map snd m))"
proof -
  assume "keyed_map m"
  then have ids: "map je_operationId (map snd m) = map fst m" and "distinct (map fst m)"
    by (auto simp: keyed_map_def list_all_iff)
  then show ?thesis by (simp only: ids)
qed

lemma find_distinct:
  "distinct (map je_operationId hs) \<Longrightarrow> e \<in> set hs \<Longrightarrow> find (\<lambda>x. je_operationId x = je_operationId e) hs = Some e"
  by (induction hs) auto

definition kept_records :: "retention_policy \<Rightarrow> int \<Rightarrow> store \<Rightarrow> journal_entry list" where
  "kept_records policy current st =
     filter (\<lambda>e. \<not> mayPruneRecord e current policy) (sort_key je_sequence (map snd (st_entries st)))"

lemma journal_compact_eq:
  assumes "list_all (durable rt) (map snd (st_entries st))"
  shows "journal_compact rt policy current st =
    (if list_all (\<lambda>e. \<not> mayPruneRecord e current policy) (map snd (st_entries st)) then Inr (st, 0)
     else Inr (\<lparr>st_entries = replay (kept_records policy current st),
                 st_bytes = utf8_length (file_text rt (kept_records policy current st)),
                 st_file = Some (file_text rt (kept_records policy current st))\<rparr>,
               length (filter (\<lambda>e. mayPruneRecord e current policy) (map snd (st_entries st)))))"
proof -
  let ?es = "sort_key je_sequence (map snd (st_entries st))"
  have es: "list_all (durable rt) ?es" using assms by (auto simp: list_all_iff)
  then have "list_all (durable rt) (kept_records policy current st)"
    by (auto simp: list_all_iff kept_records_def)
  note written = compact_write_durable [OF this]
  have size: "length (filter P ?es) = length (filter P (map snd (st_entries st)))" for P
    by (metis mset_filter mset_sort size_mset)
  show ?thesis
    using plan_loop_durable [OF es, of policy current] written
    by (auto simp: journal_compact_def compact_plan_def size kept_records_def [symmetric] compact_finish_def
        replay_def filter_empty_conv list_all_iff)
qed

section \<open>Steps of the journal\<close>

definition journal_inv :: "runtime \<Rightarrow> retention_policy \<Rightarrow> store \<Rightarrow> bool" where
  "journal_inv rt policy st \<longleftrightarrow>
     (\<exists>hs. list_all (durable rt) hs \<and> disk st = file_text rt hs \<and> st_entries st = replay hs \<and>
        st_bytes st = utf8_length (disk st)) \<and> st_bytes st \<le> rp_maxBytes policy"

inductive journal_step :: "runtime \<Rightarrow> retention_policy \<Rightarrow> store \<Rightarrow> store \<Rightarrow> bool" for rt policy where
  append: "durable rt e \<Longrightarrow> journal_append rt policy current e st = Inr (st', out) \<Longrightarrow> journal_step rt policy st st'"
| compact: "journal_compact rt policy current st = Inr (st', n) \<Longrightarrow> journal_step rt policy st st'"

lemma replay_durable: "list_all (durable rt) hs \<Longrightarrow> list_all (durable rt) (map snd (replay hs))"
  using replay_values [of hs] by (auto simp: list_all_iff)

lemma utf8_file_text_sum: "utf8_length (file_text rt es) = sum_list (map (\<lambda>e. utf8_length (record_text rt e @ [0x0a])) es)"
proof (induction es)
  case (Cons e es)
  have "utf8_length (file_text rt (e # es)) = utf8_length (record_text rt e @ [0x0a]) + utf8_length (file_text rt es)"
    using utf8_line [of "record_text rt e" "file_text rt es"] by (simp add: file_text_def)
  with Cons show ?case by simp
qed (simp add: file_text_def)

lemma utf8_file_text_filter:
  "utf8_length (file_text rt (filter P es)) \<le> utf8_length (file_text rt es)"
  by (simp add: utf8_file_text_sum sum_list_filter_le_nat)

text \<open>The entries of the map are some of the records of the file, each at most once.\<close>

lemma replay_mset: "mset (map snd (replay hs)) \<subseteq># mset hs"
proof (induction hs rule: replay_snoc_induct)
  case (snoc hs e)
  have "mset (map snd (AList.update k e m)) \<subseteq># add_mset e (mset (map snd m))" for k and m :: entry_map
    by (induction m) (auto simp: subset_mset.add_mono intro: subset_mset.order_trans)
  then have "mset (map snd (replay (hs @ [e]))) \<subseteq># add_mset e (mset (map snd (replay hs)))"
    by (simp add: set_entry_def)
  also have "\<dots> \<subseteq># add_mset e (mset hs)" using snoc by simp
  finally show ?case by simp
qed (simp add: replay_def)

lemma kept_bytes:
  assumes "st_entries st = replay hs" and "disk st = file_text rt hs"
  shows "utf8_length (file_text rt (kept_records policy current st)) \<le> utf8_length (disk st)"
proof -
  let ?len = "\<lambda>e. utf8_length (record_text rt e @ [0x0a])"
  let ?es = "sort_key je_sequence (map snd (st_entries st))"
  have "utf8_length (file_text rt (kept_records policy current st)) \<le> utf8_length (file_text rt ?es)"
    unfolding kept_records_def by (rule utf8_file_text_filter)
  also have "\<dots> = sum_mset (image_mset ?len (mset (map snd (replay hs))))"
    by (simp add: utf8_file_text_sum assms(1) flip: sum_mset_sum_list)
  also have "\<dots> \<le> sum_mset (image_mset ?len (mset hs))"
    using replay_mset [of hs] by (auto simp: mset_subset_eq_exists_conv)
  also have "\<dots> = utf8_length (disk st)"
    by (simp add: utf8_file_text_sum assms(2) flip: sum_mset_sum_list)
  finally show ?thesis .
qed

lemma compact_inv:
  assumes "journal_inv rt policy st" and "journal_compact rt policy current st = Inr (st', n)"
  shows "journal_inv rt policy st'"
proof -
  from assms(1) obtain hs where hs: "list_all (durable rt) hs" "disk st = file_text rt hs"
      "st_entries st = replay hs" "st_bytes st = utf8_length (disk st)" "st_bytes st \<le> rp_maxBytes policy"
    by (auto simp: journal_inv_def)
  have d: "list_all (durable rt) (map snd (st_entries st))" using replay_durable [OF hs(1)] hs(3) by simp
  then have k: "list_all (durable rt) (kept_records policy current st)"
    by (auto simp: list_all_iff kept_records_def)
  from assms(2) consider "st' = st"
    | "st' = \<lparr>st_entries = replay (kept_records policy current st),
         st_bytes = utf8_length (file_text rt (kept_records policy current st)),
         st_file = Some (file_text rt (kept_records policy current st))\<rparr>"
    unfolding journal_compact_eq [OF d] by (auto split: if_splits)
  then show ?thesis
  proof cases
    case 2
    have "utf8_length (file_text rt (kept_records policy current st)) \<le> rp_maxBytes policy"
      using kept_bytes [OF hs(3,2), of policy current] hs(4,5) by simp
    with k show ?thesis unfolding journal_inv_def disk_def 2 by auto
  qed (use assms(1) in simp)
qed

lemma append_done_inv:
  assumes "journal_inv rt policy st" and "durable rt e"
    and "st_bytes st + utf8_length (record_text rt e @ [0x0a]) \<le> rp_maxBytes policy"
  shows "journal_inv rt policy
    (append_finish e (utf8_length (record_text rt e @ [0x0a])) (append_write (record_text rt e @ [0x0a]) st))"
proof -
  from assms(1) obtain hs where hs: "list_all (durable rt) hs" "disk st = file_text rt hs"
      "st_entries st = replay hs" "st_bytes st = utf8_length (disk st)"
    by (auto simp: journal_inv_def)
  have bytes: "utf8_length (disk st @ record_text rt e @ [0x0a]) =
      st_bytes st + utf8_length (record_text rt e @ [0x0a])"
    by (simp only: hs(4)) (simp only: hs(2) utf8_file_text_line)
  have wrote: "disk (append_write l st) = disk st @ l" for l
    by (simp add: disk_def append_write_def split: option.split)
  then have disk': "disk (append_finish e n (append_write l st)) = disk st @ l" for n l
    by (simp add: disk_def append_finish_def)
  show ?thesis
    unfolding journal_inv_def disk'
    using hs assms(2,3) bytes
    by (intro conjI exI [of _ "hs @ [e]"]) (simp_all add: append_finish_def append_write_def)
qed

lemma append_cases:
  assumes "durable rt e" and "journal_append rt policy current e st = Inr (st', out)"
  obtains st1 n where "st1 = st \<and> n = 0 \<or> journal_compact rt policy current st = Inr (st1, n)"
    and "out = JournalFull \<and> st' = st1 \<or>
      out = Appended \<and> st_bytes st1 + utf8_length (record_text rt e @ [0x0a]) \<le> rp_maxBytes policy \<and>
      st' = append_finish e (utf8_length (record_text rt e @ [0x0a])) (append_write (record_text rt e @ [0x0a]) st1)"
proof (cases "st_bytes st + utf8_length (record_text rt e @ [0x0a]) > rp_maxBytes policy")
  case True
  with assms obtain st1 n where c: "journal_compact rt policy current st = Inr (st1, n)"
    and r: "(if n = 0 \<or> st_bytes st1 + utf8_length (record_text rt e @ [0x0a]) > rp_maxBytes policy
        then Inr (st1, JournalFull)
        else Inr (append_finish e (utf8_length (record_text rt e @ [0x0a])) (append_write (record_text rt e @ [0x0a]) st1), Appended))
      = (Inr (st', out) :: js_error + _)"
    using durable_read(1) [OF assms(1)] by (auto simp: journal_append_def Let_def)
  show ?thesis by (rule that [of st1 n]) (use c r in \<open>auto split: if_splits\<close>)
next
  case False
  with assms durable_read(1) [OF assms(1)] show ?thesis
    by (intro that [of st 0]) (auto simp: journal_append_def Let_def)
qed

interpretation journal_system: transition_system
  "\<lambda>st. st = createJournalStore None" "journal_step rt policy" "journal_inv rt policy" for rt policy
proof
  fix st assume "st = createJournalStore None"
  then show "journal_inv rt policy st"
    by (auto simp: journal_inv_def createJournalStore_def disk_def replay_def file_text_def intro!: exI [of _ "[]"])
next
  fix st st' assume "journal_step rt policy st st'" and inv: "journal_inv rt policy st"
  then show "journal_inv rt policy st'"
  proof cases
    case (append e current out)
    from append(1,2) show ?thesis
    proof (rule append_cases)
      fix st1 n assume "st1 = st \<and> n = 0 \<or> journal_compact rt policy current st = Inr (st1, n)"
      then have "journal_inv rt policy st1" using inv compact_inv by blast
      moreover assume "out = JournalFull \<and> st' = st1 \<or>
        out = Appended \<and> st_bytes st1 + utf8_length (record_text rt e @ [0x0a]) \<le> rp_maxBytes policy \<and>
        st' = append_finish e (utf8_length (record_text rt e @ [0x0a])) (append_write (record_text rt e @ [0x0a]) st1)"
      ultimately show ?thesis using append_done_inv append(1) by blast
    qed
  next
    case (compact current n)
    with inv show ?thesis using compact_inv by blast
  qed
qed


section \<open>Nothing is forgotten to make room\<close>

lemma keyed_get: "keyed_map m \<Longrightarrow> map_of m i = Some x \<longleftrightarrow> x \<in> snd ` set m \<and> je_operationId x = i"
proof -
  assume m: "keyed_map m"
  then have "distinct (map fst m)" "\<forall>(k, e)\<in>set m. k = je_operationId e"
    by (auto simp: keyed_map_def list_all_iff)
  then show ?thesis by (force simp: map_of_eq_Some_iff)
qed

lemma replay_distinct_get:
  assumes "distinct (map je_operationId hs)"
  shows "map_of (replay hs) i = Some x \<longleftrightarrow> x \<in> set hs \<and> je_operationId x = i"
proof
  assume "map_of (replay hs) i = Some x"
  then show "x \<in> set hs \<and> je_operationId x = i" by (auto simp: replay_get find_Some_iff) (metis nth_mem length_rev set_rev)
next
  assume "x \<in> set hs \<and> je_operationId x = i"
  moreover have "distinct (map je_operationId (rev hs))" using assms by (simp flip: rev_map)
  ultimately show "map_of (replay hs) i = Some x"
    using find_distinct [of "rev hs" x] by (auto simp: replay_get)
qed

lemma kept_get:
  assumes "keyed_map (st_entries st)"
  shows "map_of (replay (kept_records policy current st)) i = Some x \<longleftrightarrow>
    map_of (st_entries st) i = Some x \<and> \<not> mayPruneRecord x current policy"
proof -
  let ?es = "sort_key je_sequence (map snd (st_entries st))"
  have "mset (map je_operationId ?es) = mset (map je_operationId (map snd (st_entries st)))"
    by (metis mset_map mset_sort)
  then have "distinct (map je_operationId ?es)"
    using distinct_ids [OF assms] mset_eq_imp_distinct_iff by blast
  then have "distinct (map je_operationId (kept_records policy current st))"
    by (simp add: kept_records_def distinct_map_filter)
  from replay_distinct_get [OF this] show ?thesis
    unfolding keyed_get [OF assms] by (auto simp: kept_records_def)
qed

lemma compact_get:
  assumes "journal_inv rt policy st" and "journal_compact rt policy current st = Inr (st1, n)"
  shows "journal_get st1 i = Some x \<Longrightarrow> journal_get st i = Some x"
    and "journal_get st i = Some x \<Longrightarrow> \<not> mayPruneRecord x current policy \<Longrightarrow> journal_get st1 i = Some x"
proof -
  from assms(1) obtain hs where hs: "list_all (durable rt) hs" "st_entries st = replay hs"
    by (auto simp: journal_inv_def)
  then have d: "list_all (durable rt) (map snd (st_entries st))" using replay_durable by simp
  have keyed: "keyed_map (st_entries st)" using hs(2) keyed_replay by simp
  from assms(2) consider "st1 = st" | "st_entries st1 = replay (kept_records policy current st)"
    unfolding journal_compact_eq [OF d] by (auto split: if_splits)
  then show "journal_get st1 i = Some x \<Longrightarrow> journal_get st i = Some x"
    and "journal_get st i = Some x \<Longrightarrow> \<not> mayPruneRecord x current policy \<Longrightarrow> journal_get st1 i = Some x"
    by (cases; simp add: journal_get_def kept_get [OF keyed])+
qed

lemma append_keeps:
  assumes inv: "journal_inv rt policy st" and "durable rt e"
    and "journal_append rt policy current e st = Inr (st', out)"
  shows "(journal_get st i = Some x \<and> i \<noteq> je_operationId e \<and> \<not> mayPruneRecord x current policy \<longrightarrow>
      journal_get st' i = Some x) \<and>
    (out = Appended \<longrightarrow> journal_get st' (je_operationId e) = Some e) \<and>
    (out = JournalFull \<and> journal_get st' i = Some x \<longrightarrow> journal_get st i = Some x)"
proof -
  from assms(2,3) obtain st1 n where st1: "st1 = st \<and> n = 0 \<or> journal_compact rt policy current st = Inr (st1, n)"
    and out: "out = JournalFull \<and> st' = st1 \<or>
      out = Appended \<and> st_bytes st1 + utf8_length (record_text rt e @ [0x0a]) \<le> rp_maxBytes policy \<and>
      st' = append_finish e (utf8_length (record_text rt e @ [0x0a])) (append_write (record_text rt e @ [0x0a]) st1)"
    by (rule append_cases)
  have kept: "journal_get st i = Some x \<Longrightarrow> \<not> mayPruneRecord x current policy \<Longrightarrow> journal_get st1 i = Some x"
    and earlier: "journal_get st1 i = Some x \<Longrightarrow> journal_get st i = Some x"
    using st1 compact_get [OF inv] by blast+
  have get: "journal_get (append_finish e n (append_write l st1)) k =
      (if k = je_operationId e then Some e else journal_get st1 k)" for n l k
    by (simp add: journal_get_def append_finish_def append_write_def set_entry_def AList.update_conv')
  from out show ?thesis
  proof
    assume "out = JournalFull \<and> st' = st1"
    with kept earlier show ?thesis by simp
  next
    assume "out = Appended \<and> st_bytes st1 + utf8_length (record_text rt e @ [0x0a]) \<le> rp_maxBytes policy \<and>
      st' = append_finish e (utf8_length (record_text rt e @ [0x0a])) (append_write (record_text rt e @ [0x0a]) st1)"
    with kept show ?thesis by (simp add: get)
  qed
qed

text \<open>
  Recording an operation never costs another record that retention protects: whether the append
  is accepted or refused, every other record that is not an expired terminal one (in particular
  every unfinished one) is still there unchanged; an accepted record can be looked up; and a
  refused append adds nothing.
\<close>

theorem journal_append_forgets_nothing:
  assumes "(journal_step rt policy)\<^sup>*\<^sup>* (createJournalStore None) st" and "durable rt e"
    and "journal_append rt policy current e st = Inr (st', out)"
  shows "(journal_get st i = Some x \<and> i \<noteq> je_operationId e \<and> \<not> mayPruneRecord x current policy \<longrightarrow>
      journal_get st' i = Some x) \<and>
    (out = Appended \<longrightarrow> journal_get st' (je_operationId e) = Some e) \<and>
    (out = JournalFull \<and> journal_get st' i = Some x \<longrightarrow> journal_get st i = Some x)"
  using journal_system.reachable_inv [OF refl assms(1)] assms(2,3) by (rule append_keeps)

lemma unfinished_protected: "x \<in> set (journal_unfinished st) \<Longrightarrow> \<not> mayPruneRecord x current policy"
  by (auto simp: journal_unfinished_def mayPruneRecord_def isTerminalStatus_def str_inj simp del: str_simps)

section \<open>What the journal promises its clients\<close>

text \<open>
  A log of operations, one record per operation: an append is seen by the next lookup or refused,
  other records stay, and only records that are final may be forgotten to make room. \<open>follows\<close> is the
  order of the states an operation goes through; a client that appends only records that follow the
  one before moves every operation along that order (\<open>append_life\<close>).
\<close>

locale operation_log =
  fixes valid :: "'s \<Rightarrow> bool" and get :: "'s \<Rightarrow> 'k \<Rightarrow> 'e option" and key :: "'e \<Rightarrow> 'k"
    and status :: "'e \<Rightarrow> 'st" and final :: "'st \<Rightarrow> bool"
    and append :: "'t \<Rightarrow> 'e \<Rightarrow> 's \<Rightarrow> ('s \<times> bool) option"
  assumes append_valid: "valid s \<Longrightarrow> append t e s = Some (s', ok) \<Longrightarrow> valid s'"
    and append_own: "valid s \<Longrightarrow> append t e s = Some (s', True) \<Longrightarrow> get s' (key e) = Some e"
    and append_earlier: "valid s \<Longrightarrow> append t e s = Some (s', ok) \<Longrightarrow> i \<noteq> key e \<or> \<not> ok \<Longrightarrow>
      get s' i = Some x \<Longrightarrow> get s i = Some x"
    and append_keeps_open: "valid s \<Longrightarrow> append t e s = Some (s', ok) \<Longrightarrow> i \<noteq> key e \<or> \<not> ok \<Longrightarrow>
      get s i = Some x \<Longrightarrow> \<not> final (status x) \<Longrightarrow> get s' i = Some x"
begin

fun life :: "('st \<Rightarrow> bool) \<Rightarrow> ('st \<Rightarrow> 'st \<Rightarrow> bool) \<Rightarrow> 'st option \<Rightarrow> 'st option \<Rightarrow> bool" where
  "life first follows None None = True"
| "life first follows None (Some b) = first b"
| "life first follows (Some a) None = final a"
| "life first follows (Some a) (Some b) = (a = b \<or> follows a b)"

definition status_of :: "'s \<Rightarrow> 'k \<Rightarrow> 'st option" where
  "status_of s i = map_option status (get s i)"

lemma life_refl: "life first follows m m"
  by (cases m) auto

lemma append_other:
  assumes "valid s" and "append t e s = Some (s', ok)" and "i \<noteq> key e \<or> \<not> ok"
  shows "get s' i = get s i \<or> get s' i = None \<and> (\<exists>x. get s i = Some x \<and> final (status x))"
proof (cases "get s' i")
  case (Some x)
  then show ?thesis using append_earlier [OF assms] by simp
next
  case None
  then show ?thesis using append_keeps_open [OF assms] by (cases "get s i") auto
qed

lemma append_life:
  assumes "valid s" and "append t e s = Some (s', ok)"
    and "case get s (key e) of None \<Rightarrow> first (status e) | Some x \<Rightarrow> follows (status x) (status e)"
  shows "life first follows (status_of s i) (status_of s' i)"
proof (cases "i = key e \<and> ok")
  case True
  then have "get s' i = Some e" using append_own assms(1,2) by auto
  with True assms(3) show ?thesis by (auto simp: status_of_def split: option.splits)
next
  case False
  then have "i \<noteq> key e \<or> \<not> ok" by blast
  from append_other [OF assms(1,2) this] show ?thesis by (auto simp: status_of_def life_refl)
qed

end

lemma plan_loop_kept:
  "plan_loop rt policy t es = Inr (kept, d, n) \<Longrightarrow>
   kept = filter (\<lambda>e. \<not> mayPruneRecord e t policy) es \<and> d = length (filter (\<lambda>e. mayPruneRecord e t policy) es)"
proof (induction es arbitrary: kept d n)
  case (Cons e es)
  have "\<not> isTerminalStatus (je_status e) \<Longrightarrow> \<not> mayPruneRecord e t policy"
    by (simp add: mayPruneRecord_def)
  with Cons show ?case by (auto split: if_splits prod.splits)
qed simp

lemma compact_entries:
  assumes "journal_compact rt policy t st = Inr (st', n)"
  shows "st' = st \<or> st_entries st' = replay (kept_records policy t st)"
  using assms plan_loop_kept
  by (fastforce simp: journal_compact_def compact_plan_def compact_write_def compact_finish_def kept_records_def replay_def
      split: prod.splits if_splits)

lemma append_entries:
  assumes keyed: "keyed_map (st_entries st)" and "journal_append rt policy t e st = Inr (st', out)"
  shows "\<exists>st1. keyed_map (st_entries st1) \<and>
    (\<forall>i x. (journal_get st1 i = Some x \<longrightarrow> journal_get st i = Some x) \<and>
       (journal_get st i = Some x \<and> \<not> mayPruneRecord x t policy \<longrightarrow> journal_get st1 i = Some x)) \<and>
    st_entries st' = (if out = Appended then set_entry e (st_entries st1) else st_entries st1)"
proof -
  have "\<exists>st1 n. (st1 = st \<or> journal_compact rt policy t st = Inr (st1, n)) \<and>
      st_entries st' = (if out = Appended then set_entry e (st_entries st1) else st_entries st1)"
    using assms(2)
    by (fastforce simp: journal_append_def Let_def append_finish_def append_write_def split: if_splits prod.splits)
  then obtain st1 n where st1: "st1 = st \<or> journal_compact rt policy t st = Inr (st1, n)"
    and st': "st_entries st' = (if out = Appended then set_entry e (st_entries st1) else st_entries st1)" by blast
  from st1 compact_entries have "st1 = st \<or> st_entries st1 = replay (kept_records policy t st)" by metis
  then show ?thesis using st'
    by (intro exI [of _ st1]) (use keyed in \<open>auto simp: journal_get_def kept_get keyed_replay\<close>)
qed

interpretation log: operation_log "\<lambda>st. keyed_map (st_entries st)" journal_get je_operationId je_status isTerminalStatus
    "\<lambda>t e st. case journal_append rt policy t e st of Inl _ \<Rightarrow> None | Inr (st', out) \<Rightarrow> Some (st', out = Appended)"
  for rt policy
proof
  fix s s' :: store and t e ok i x
  assume valid: "keyed_map (st_entries s)"
  have open_kept: "\<not> isTerminalStatus (je_status x) \<Longrightarrow> \<not> mayPruneRecord x t policy" for x
    by (simp add: mayPruneRecord_def)
  {
    assume "(case journal_append rt policy t e s of Inl _ \<Rightarrow> None | Inr (st', out) \<Rightarrow> Some (st', out = Appended)) = Some (s', ok)"
    then obtain out where "journal_append rt policy t e s = Inr (s', out)" "ok = (out = Appended)"
      by (auto split: sum.splits prod.splits)
    with append_entries [OF valid this(1)] obtain st1 where st1: "keyed_map (st_entries st1)"
      "\<And>i x. journal_get st1 i = Some x \<Longrightarrow> journal_get s i = Some x"
      "\<And>i x. journal_get s i = Some x \<Longrightarrow> \<not> mayPruneRecord x t policy \<Longrightarrow> journal_get st1 i = Some x"
      and s': "st_entries s' = (if ok then set_entry e (st_entries st1) else st_entries st1)" by auto
    have get: "journal_get s' i = (if ok \<and> i = je_operationId e then Some e else journal_get st1 i)" for i
      using s' by (simp add: journal_get_def set_entry_def AList.update_conv')
    show "keyed_map (st_entries s')" using st1(1) s' by (simp add: keyed_set_entry)
    show "i \<noteq> je_operationId e \<or> \<not> ok \<Longrightarrow> journal_get s' i = Some x \<Longrightarrow> journal_get s i = Some x"
      using get st1(2) by auto
    show "i \<noteq> je_operationId e \<or> \<not> ok \<Longrightarrow> journal_get s i = Some x \<Longrightarrow> \<not> isTerminalStatus (je_status x) \<Longrightarrow>
        journal_get s' i = Some x"
      using get st1(3) open_kept by auto
  }
  assume "(case journal_append rt policy t e s of Inl _ \<Rightarrow> None | Inr (st', out) \<Rightarrow> Some (st', out = Appended)) = Some (s', True)"
  then have "journal_append rt policy t e s = Inr (s', Appended)"
    by (auto split: sum.splits prod.splits)
  from append_entries [OF valid this] show "journal_get s' (je_operationId e) = Some e"
    by (auto simp: journal_get_def set_entry_def AList.update_conv')
qed

section \<open>Two ways to lose a record\<close>

text \<open>
  After a crash tore a line, \<^verbatim>\<open>load\<close> skips the fragment but leaves it in the file, and the next
  append writes right behind it. The two run together into one unreadable line, so a record
  that was accepted and acknowledged is gone after the next restart.
\<close>

theorem torn_line_swallows_next_record:
  assumes "list_all (durable rt) hs" and "durable rt e"
    and "torn \<noteq> []" and "0x0a \<notin> set torn" and "deserialize rt torn = None"
    and "deserialize rt (torn @ record_text rt e) = None"
    and "utf8_length (file_text rt hs @ torn) + utf8_length (record_text rt e @ [0x0a]) \<le> rp_maxBytes policy"
  shows "\<exists>st st' st''. journal_load rt (createJournalStore (Some (file_text rt hs @ torn))) = Inr st \<and>
    journal_append rt policy current e st = Inr (st', Appended) \<and>
    journal_get st' (je_operationId e) = Some e \<and>
    journal_load rt (createJournalStore (Some (disk st'))) = Inr st'' \<and> st_entries st'' = replay hs"
proof -
  define st where st: "st = \<lparr>st_entries = replay hs, st_bytes = utf8_length (file_text rt hs @ torn),
      st_file = Some (file_text rt hs @ torn)\<rparr>"
  have "journal_load rt (createJournalStore (Some (file_text rt hs @ torn))) = Inr st"
    using load_torn [OF assms(1,4)] assms(5) by (simp add: st)
  note load = this
  let ?line = "record_text rt e @ [0x0a]"
  let ?st' = "append_finish e (utf8_length ?line) (append_write ?line st)"
  have app: "journal_append rt policy current e st = Inr (?st', Appended)"
    using durable_read(1) [OF assms(2)] assms(7) by (simp add: journal_append_def st)
  have get: "journal_get ?st' (je_operationId e) = Some e"
    by (simp add: journal_get_def append_finish_def set_entry_def AList.update_conv')
  have disk: "disk ?st' = file_text rt hs @ (torn @ record_text rt e) @ [0x0a]"
    by (simp add: disk_def append_finish_def append_write_def st)
  have "0x0a \<notin> set (torn @ record_text rt e)" using assms(4) durable_read(3) [OF assms(2)] by simp
  with assms(1) have pieces: "splitOn 0x0a (disk ?st') = map (record_text rt) hs @ [torn @ record_text rt e, []]"
    unfolding disk
  proof (induction hs)
    case (Cons h hs)
    then show ?case using durable_read(3) [of rt h] by (simp add: file_text_def)
  next
    case Nil
    then show ?case
      using splitOn_sep [of "0x0a" "torn @ record_text rt e" "[]"] by (simp add: file_text_def)
  qed
  have "load_lines rt (length hs + 2) 0 (map (record_text rt) hs @ [torn @ record_text rt e, []]) [] = Inr (replay hs)"
    using load_lines_good [OF assms(1), of "length hs + 2" 0 "[torn @ record_text rt e, []]" "[]"] assms(3,6)
    by (simp add: replay_def)
  then have reload: "journal_load rt (createJournalStore (Some (disk ?st'))) =
      Inr \<lparr>st_entries = replay hs, st_bytes = utf8_length (disk ?st'), st_file = Some (disk ?st')\<rparr>"
    by (simp add: journal_load_def createJournalStore_def pieces)
  show ?thesis
    by (intro exI conjI, rule load, rule app, rule get, rule reload) simp
qed

text \<open>
  Two appends in flight: one is over budget and waits for the compacted file to be written while
  another is appended and acknowledged; when the compaction finishes, it puts back the records it
  planned to keep, and the acknowledged one is in neither the map nor the file.
\<close>

theorem compaction_drops_concurrent_append:
  assumes "list_all (durable rt) (map snd (st_entries st))" and "durable rt b"
    and "compact_plan rt policy current st = Inr (kept, dropped, projected)"
    and "journal_append rt policy current b st = Inr (stB, Appended)"
    and "list_all (\<lambda>x. je_operationId x \<noteq> je_operationId b) kept"
  shows "journal_get stB (je_operationId b) = Some b \<and>
    (\<exists>stC. compact_write rt kept stB = Inr stC \<and>
       journal_get (compact_finish kept projected stC) (je_operationId b) = None \<and>
       disk (compact_finish kept projected stC) = file_text rt kept)"
proof -
  from assms(2,4) obtain st1 where "stB = append_finish b (utf8_length (record_text rt b @ [0x0a]))
      (append_write (record_text rt b @ [0x0a]) st1)"
    by (rule append_cases) auto
  then have "journal_get stB (je_operationId b) = Some b"
    by (simp add: journal_get_def append_finish_def set_entry_def AList.update_conv')
  moreover have "list_all (durable rt) (sort_key je_sequence (map snd (st_entries st)))"
    using assms(1) by (auto simp: list_all_iff)
  from plan_loop_durable [OF this] assms(3) have "list_all (durable rt) kept"
    using assms(1) by (auto simp: compact_plan_def list_all_iff)
  then have "compact_write rt kept stB = Inr (stB\<lparr>st_file := Some (file_text rt kept)\<rparr>)"
    by (rule compact_write_durable)
  moreover have "find (\<lambda>x. je_operationId x = je_operationId b) (rev kept) = None"
    using assms(5) by (auto simp: find_None_iff list_all_iff)
  then have "map_of (replay kept) (je_operationId b) = None" by (simp add: replay_get)
  ultimately show ?thesis
    by (simp add: journal_get_def compact_finish_def disk_def flip: replay_def)
qed

section \<open>Witnesses\<close>

definition sample_record :: "string \<Rightarrow> string \<Rightarrow> journal_entry" where
  "sample_record i status =
     \<lparr>je_operationId = str i, je_clientRequestId = [], je_actor = [], je_kind = str ''stage'',
      je_target = JObject [], je_status = str status, je_sequence = 1, je_acceptedAtMs = Fin 0,
      je_startedAtMs = None, je_finishedAtMs = Some 0, je_payloadDigest = [], je_repositoryId = str ''r'',
      je_result = JNull, je_problem = JNull, je_unknownReason = None\<rparr>"

text \<open>A platform that reads back the records of two operations.\<close>

definition sample_dates :: runtime where
  "sample_dates = \<lparr>rt_parse = (\<lambda>_. None), rt_iso = (\<lambda>_. Some (str ''1970'')), rt_dateParse = (\<lambda>_. Fin 0)\<rparr>"

fun parse_one_of :: "jsvalue list \<Rightarrow> jsstring \<Rightarrow> jsvalue option" where
  "parse_one_of [] text = None"
| "parse_one_of (v # vs) text = (if stringify v = text then Some v else parse_one_of vs text)"

definition sample_json :: "journal_entry \<Rightarrow> jsvalue" where
  "sample_json e = (case entry_json sample_dates e of Inr v \<Rightarrow> v | Inl _ \<Rightarrow> JNull)"

definition sample_old :: journal_entry where "sample_old = sample_record ''a'' ''failed''"
definition sample_new :: journal_entry where "sample_new = sample_record ''b'' ''accepted''"

definition sample_rt :: runtime where
  "sample_rt = sample_dates\<lparr>rt_parse := parse_one_of [sample_json sample_old, sample_json sample_new]\<rparr>"

lemma stringify_first:
  "\<exists>x. stringify (JObject ((k, JString s) # (l, JString t) # ms)) = (0x7b # quote k @ [0x3a]) @ quote s @ 0x2c # x"
  by (simp add: member_text_def)

lemma sample_json_eq:
  "sample_json (sample_record i status) = JObject
     ((str ''operationId'', JString (str i)) # (str ''clientRequestId'', JString []) # tl (tl
       (case sample_json (sample_record i status) of JObject ms \<Rightarrow> ms)))"
  by (simp add: sample_json_def entry_json_def sample_record_def sample_dates_def iso_optional_def del: str_simps)

lemma sample_text: "\<exists>x. stringify (sample_json (sample_record i status)) =
    (0x7b # quote (str ''operationId'') @ [0x3a]) @ quote (str i) @ 0x2c # x"
  by (subst sample_json_eq) (rule stringify_first)

lemma sample_texts_differ: "stringify (sample_json sample_old) \<noteq> stringify (sample_json sample_new)"
proof
  assume same: "stringify (sample_json sample_old) = stringify (sample_json sample_new)"
  obtain x y where "stringify (sample_json sample_old) = (0x7b # quote (str ''operationId'') @ [0x3a]) @ quote (str ''a'') @ 0x2c # x"
    and "stringify (sample_json sample_new) = (0x7b # quote (str ''operationId'') @ [0x3a]) @ quote (str ''b'') @ 0x2c # y"
    using sample_text unfolding sample_old_def sample_new_def by blast
  with same have "quote (str ''a'') @ 0x2c # x = quote (str ''b'') @ 0x2c # y" by simp
  then show False by (simp add: quote_def is_surrogate_def)
qed

lemma sample_entry_json: "entry_json (sample_dates\<lparr>rt_parse := p\<rparr>) (sample_record i status) = Inr (sample_json (sample_record i status))"
  by (simp add: sample_json_def entry_json_def sample_record_def sample_dates_def iso_optional_def del: str_simps)

lemma sample_durable: "durable sample_rt sample_old" "durable sample_rt sample_new"
  using sample_texts_differ sample_entry_json
  unfolding durable_def sample_rt_def sample_old_def sample_new_def
  by (simp_all add: sample_record_def sample_dates_def date_ok_def optional_date_ok_def del: str_simps)

definition line_size :: "journal_entry \<Rightarrow> nat" where
  "line_size e = utf8_length (record_text sample_rt e @ [0x0a])"

lemma sample_unread: "x = [] \<or> hd x \<noteq> 0x22 \<Longrightarrow> deserialize sample_rt (0x7b # x) = None"
proof -
  assume x: "x = [] \<or> hd x \<noteq> 0x22"
  have "stringify (sample_json (sample_record i status)) \<noteq> 0x7b # x" for i status
    using sample_text [of i status] x by (auto simp: quote_def)
  then show ?thesis
    by (simp add: deserialize_def sample_rt_def sample_old_def sample_new_def)
qed

definition sample_policy :: retention_policy where
  "sample_policy = \<lparr>rp_ttlMs = 10, rp_maxEntries = 5, rp_maxBytes = line_size sample_old + line_size sample_new\<rparr>"

definition sample_store :: store where
  "sample_store = append_finish sample_old (line_size sample_old)
     (append_write (record_text sample_rt sample_old @ [0x0a]) (createJournalStore None))"

lemma sample_append: "journal_append sample_rt sample_policy 0 sample_old (createJournalStore None) = Inr (sample_store, Appended)"
  by (simp add: journal_append_def durable_read(1) [OF sample_durable(1)] sample_store_def sample_policy_def
      line_size_def createJournalStore_def)

lemma sample_store_reachable: "(journal_step sample_rt sample_policy)\<^sup>*\<^sup>* (createJournalStore None) sample_store"
  by (rule r_into_rtranclp) (rule journal_step.append [OF sample_durable(1) sample_append])


definition sample_store2 :: store where
  "sample_store2 = append_finish sample_new (line_size sample_new)
     (append_write (record_text sample_rt sample_new @ [0x0a]) sample_store)"

lemma sample_append2: "journal_append sample_rt sample_policy 5 sample_new sample_store = Inr (sample_store2, Appended)"
  by (simp add: journal_append_def durable_read(1) [OF sample_durable(2)] sample_store_def sample_store2_def
      sample_policy_def line_size_def createJournalStore_def append_finish_def append_write_def)

lemma sample_ids: "je_operationId sample_old = str ''a''" "je_operationId sample_new = str ''b''"
  by (simp_all add: sample_old_def sample_new_def sample_record_def)

lemma sample_store_get: "journal_get sample_store (str ''a'') = Some sample_old"
  by (simp add: journal_get_def sample_store_def append_finish_def set_entry_def AList.update_conv' sample_ids)

lemma journal_append_forgets_nothing_witness:
  "journal_get sample_store2 (str ''a'') = Some sample_old \<and> journal_get sample_store2 (str ''b'') = Some sample_new"
proof -
  have "\<not> mayPruneRecord sample_old 5 sample_policy"
    by (simp add: mayPruneRecord_def sample_old_def sample_record_def sample_policy_def)
  then show ?thesis
    using journal_append_forgets_nothing [OF sample_store_reachable sample_durable(2) sample_append2]
      sample_store_get by (simp add: sample_ids)
qed

text \<open>A crash tears the line of \<open>sample_old\<close> after its first character.\<close>

lemma sample_record_text: "hd (record_text sample_rt sample_new) = 0x7b"
  using sample_text [of "''b''" "''accepted''"] sample_entry_json
  by (auto simp: record_text_def sample_rt_def sample_new_def)

definition torn_policy :: retention_policy where
  "torn_policy = sample_policy\<lparr>rp_maxBytes := utf8_length (file_text sample_rt [] @ str ''{'') + line_size sample_new\<rparr>"

lemma torn_line_swallows_next_record_witness:
  "\<exists>st st' st''. journal_load sample_rt (createJournalStore (Some (str ''{''))) = Inr st \<and>
     journal_append sample_rt torn_policy 5 sample_new st = Inr (st', Appended) \<and>
     journal_load sample_rt (createJournalStore (Some (disk st'))) = Inr st'' \<and> st_entries st'' = []"
proof -
  have "0x0a \<notin> set (str ''{'')" by simp
  moreover have "deserialize sample_rt (str ''{'') = None"
    "deserialize sample_rt (str ''{'' @ record_text sample_rt sample_new) = None"
    using sample_unread [of "[]"] sample_unread [of "record_text sample_rt sample_new"] sample_record_text
    by auto
  moreover have "utf8_length (file_text sample_rt [] @ str ''{'') + utf8_length (record_text sample_rt sample_new @ [0x0a])
      \<le> rp_maxBytes torn_policy"
    by (simp add: torn_policy_def line_size_def)
  moreover have "str ''{'' \<noteq> []" "file_text sample_rt [] = []" "replay [] = []"
    by (simp_all add: file_text_def replay_def)
  ultimately show ?thesis
    using torn_line_swallows_next_record [of sample_rt "[]" sample_new "str ''{''" torn_policy 5] sample_durable(2)
    by (simp del: str_simps) blast
qed

lemma compaction_drops_concurrent_append_witness:
  "journal_get sample_store2 (str ''b'') = Some sample_new \<and>
   (\<exists>stC. compact_write sample_rt [] sample_store2 = Inr stC \<and>
      journal_get (compact_finish [] 0 stC) (str ''b'') = None)"
proof -
  have d: "list_all (durable sample_rt) (map snd (st_entries sample_store))"
    by (simp add: sample_store_def append_finish_def append_write_def createJournalStore_def set_entry_def
        sample_durable)
  have "mayPruneRecord sample_old 20 sample_policy"
    by (simp add: mayPruneRecord_def sample_old_def sample_record_def sample_policy_def isTerminalStatus_def)
  then have "compact_plan sample_rt sample_policy 20 sample_store = Inr ([], 1, 0)"
    using plan_loop_durable [of sample_rt "[sample_old]" sample_policy 20] sample_durable(1)
    by (simp add: compact_plan_def sample_store_def append_finish_def append_write_def createJournalStore_def
        set_entry_def file_text_def)
  note plan = this
  have app: "journal_append sample_rt sample_policy 20 sample_new sample_store = Inr (sample_store2, Appended)"
    by (simp add: journal_append_def durable_read(1) [OF sample_durable(2)] sample_store_def sample_store2_def
        sample_policy_def line_size_def createJournalStore_def append_finish_def append_write_def)
  from compaction_drops_concurrent_append [OF d sample_durable(2) plan app] show ?thesis
    by (auto simp: sample_ids)
qed

end
