(* ===== verification/Recovery.thy ===== *)
theory Recovery
  imports Journal
begin

text \<open>
  Restart recovery: \<^verbatim>\<open>packages/host-node/src/journal/recovery.ts\<close>. The map \<^verbatim>\<open>blocks\<close> is the state;
  \<open>recovery_loop\<close> is the loop of \<^verbatim>\<open>run\<close> over the unfinished records, the readings of the
  clock numbered in the order they are taken (the record, the append, the block). The lemmas show that every operation in flight becomes \<^verbatim>\<open>unknown\<close> and blocks its
  repository, when the journal has room for the new lines, and what happens when it has not.
\<close>

record write_block =
  wb_repositoryId :: jsstring
  wb_operationIds :: "jsstring list"
  wb_reason :: string
  wb_since :: int

type_synonym block_map = "(jsstring \<times> write_block) list"

record reconciled =
  rc_operationId :: jsstring
  rc_previousStatus :: jsstring
  rc_repositoryId :: jsstring

definition in_flight_problem :: "jsstring \<Rightarrow> jsvalue" where
  "in_flight_problem operationId =
     JObject
       [(str ''code'', JString (str ''UncertainOutcome'')),
        (str ''message'', JString (str ''this service restarted while this operation was in flight; Git may have changed something, so the result is unknown and the operation will not be retried'')),
        (str ''retryable'', JBool False),
        (str ''operationId'', JString operationId)]"

definition reconciled_entry :: "int \<Rightarrow> journal_entry \<Rightarrow> journal_entry" where
  "reconciled_entry current e =
     e\<lparr>je_status := str ''unknown'', je_finishedAtMs := Some current, je_result := JNull,
       je_problem := in_flight_problem (je_operationId e),
       je_unknownReason := Some (str ''process restarted with the operation in flight'')\<rparr>"

text \<open>The entry written back: the sequence advances.\<close>

definition rewritten :: "int \<Rightarrow> journal_entry \<Rightarrow> journal_entry" where
  "rewritten current e = (reconciled_entry current e)\<lparr>je_sequence := je_sequence e + 1\<rparr>"

definition add_block :: "int \<Rightarrow> journal_entry \<Rightarrow> block_map \<Rightarrow> block_map" where
  "add_block current e blocks =
     (let existing = map_of blocks (je_repositoryId e)
      in AList.update (je_repositoryId e)
           \<lparr>wb_repositoryId = je_repositoryId e,
            wb_operationIds = (case existing of Some b \<Rightarrow> wb_operationIds b | None \<Rightarrow> []) @ [je_operationId e],
            wb_reason = (case existing of Some b \<Rightarrow> wb_reason b
              | None \<Rightarrow> ''an operation was in flight when the service stopped; confirm the repository state before writing again''),
            wb_since = (case existing of Some b \<Rightarrow> wb_since b | None \<Rightarrow> current)\<rparr> blocks)"

definition report_of :: "journal_entry \<Rightarrow> reconciled" where
  "report_of e =
     \<lparr>rc_operationId = je_operationId e,
      rc_previousStatus = (if je_status e = str ''running'' then str ''running'' else str ''accepted''),
      rc_repositoryId = je_repositoryId e\<rparr>"

text \<open>The outcome of the append is not looked at.\<close>

fun recovery_loop ::
  "runtime \<Rightarrow> retention_policy \<Rightarrow> (nat \<Rightarrow> int) \<Rightarrow> nat \<Rightarrow> journal_entry list \<Rightarrow> store \<Rightarrow> block_map \<Rightarrow> reconciled list \<Rightarrow>
   js_error + store \<times> block_map \<times> reconciled list" where
  "recovery_loop rt policy clock i [] st blocks report = Inr (st, blocks, report)"
| "recovery_loop rt policy clock i (e # es) st blocks report =
     bindE (journal_append rt policy (clock (i + 1)) (rewritten (clock i) e) st) (\<lambda>(st, outcome).
       recovery_loop rt policy clock (i + 3) es st (add_block (clock (i + 2)) e blocks) (report @ [report_of e]))"

definition recovery_run ::
  "runtime \<Rightarrow> retention_policy \<Rightarrow> (nat \<Rightarrow> int) \<Rightarrow> store \<Rightarrow> block_map \<Rightarrow> js_error + store \<times> block_map \<times> reconciled list" where
  "recovery_run rt policy clock st blocks = recovery_loop rt policy clock 0 (journal_unfinished st) st blocks []"

definition blockFor :: "block_map \<Rightarrow> jsstring \<Rightarrow> write_block option" where
  "blockFor blocks repositoryId = map_of blocks repositoryId"

definition blockedRepositories :: "block_map \<Rightarrow> jsstring list" where
  "blockedRepositories blocks = map fst blocks"

text \<open>The note is dropped.\<close>

definition resolveBlock :: "jsstring \<Rightarrow> jsstring \<Rightarrow> block_map \<Rightarrow> block_map \<times> bool" where
  "resolveBlock repositoryId note blocks =
     (case map_of blocks repositoryId of
        None \<Rightarrow> (blocks, False)
      | Some b \<Rightarrow> (AList.delete repositoryId blocks, True))"

section \<open>Every repository with work in flight is blocked\<close>

definition block_lists :: "block_map \<Rightarrow> journal_entry \<Rightarrow> bool" where
  "block_lists blocks e \<longleftrightarrow>
     (case blockFor blocks (je_repositoryId e) of None \<Rightarrow> False | Some b \<Rightarrow> je_operationId e \<in> set (wb_operationIds b))"

lemma add_block_lists: "block_lists (add_block c e blocks) e"
  by (simp add: block_lists_def blockFor_def add_block_def Let_def AList.update_conv')

lemma add_block_keeps: "block_lists blocks x \<Longrightarrow> block_lists (add_block c e blocks) x"
  by (auto simp: block_lists_def blockFor_def add_block_def Let_def AList.update_conv' split: option.splits)

lemma recovery_loop_blocks:
  "recovery_loop rt policy clock i es st blocks report = Inr (st', blocks', report') \<Longrightarrow>
   (\<forall>x. x \<in> set es \<or> block_lists blocks x \<longrightarrow> block_lists blocks' x) \<and> report' = report @ map report_of es"
proof (induction es arbitrary: i st blocks report)
  case (Cons e es)
  from Cons.prems obtain st1 where
    "recovery_loop rt policy clock (i + 3) es st1 (add_block (clock (i + 2)) e blocks) (report @ [report_of e]) = Inr (st', blocks', report')"
    by (auto split: prod.splits)
  from Cons.IH [OF this] show ?case
    using add_block_lists [of "clock (i + 2)" e blocks] add_block_keeps by auto
qed simp

text \<open>
  C32. After a restart, writes to every repository with work in flight are blocked, by a block that
  names the operation, and the report lists exactly the unfinished operations in order: this holds
  whether or not the journal had room to record it.
\<close>

theorem recovery_blocks_in_flight:
  assumes "recovery_run rt policy clock st [] = Inr (st', blocks, report)"
    and "e \<in> set (journal_unfinished st)"
  shows "(\<exists>b. blockFor blocks (je_repositoryId e) = Some b \<and> je_operationId e \<in> set (wb_operationIds b)) \<and>
    report = map report_of (journal_unfinished st)"
proof -
  note loop = recovery_loop_blocks [OF assms(1) [unfolded recovery_run_def]]
  then have "block_lists blocks e" using assms(2) by blast
  with loop show ?thesis by (auto simp: block_lists_def split: option.splits)
qed

section \<open>Every operation in flight becomes unknown\<close>

lemma append_fits:
  assumes "durable rt e" and "st_bytes st + utf8_length (record_text rt e @ [0x0a]) \<le> rp_maxBytes policy"
  shows "journal_append rt policy c e st =
    Inr (append_finish e (utf8_length (record_text rt e @ [0x0a])) (append_write (record_text rt e @ [0x0a]) st), Appended)"
  using assms durable_read(1) [OF assms(1)] by (simp add: journal_append_def)

text \<open>The bytes the rewritten records need.\<close>

fun recovery_bytes :: "runtime \<Rightarrow> (nat \<Rightarrow> int) \<Rightarrow> nat \<Rightarrow> journal_entry list \<Rightarrow> nat" where
  "recovery_bytes rt clock i [] = 0"
| "recovery_bytes rt clock i (e # es) =
     utf8_length (record_text rt (rewritten (clock i) e) @ [0x0a]) + recovery_bytes rt clock (i + 3) es"

fun all_rewritten_durable :: "runtime \<Rightarrow> (nat \<Rightarrow> int) \<Rightarrow> nat \<Rightarrow> journal_entry list \<Rightarrow> bool" where
  "all_rewritten_durable rt clock i [] = True"
| "all_rewritten_durable rt clock i (e # es) =
     (durable rt (rewritten (clock i) e) \<and> all_rewritten_durable rt clock (i + 3) es)"

definition unknown_of :: "journal_entry \<Rightarrow> journal_entry \<Rightarrow> bool" where
  "unknown_of e x \<longleftrightarrow>
     je_status x = str ''unknown'' \<and> je_unknownReason x \<noteq> None \<and> je_result x = JNull \<and>
     je_operationId x = je_operationId e \<and> je_repositoryId x = je_repositoryId e \<and>
     je_clientRequestId x = je_clientRequestId e \<and> je_payloadDigest x = je_payloadDigest e \<and>
     je_sequence x = je_sequence e + 1"

lemma rewritten_unknown: "unknown_of e (rewritten c e)"
  by (simp add: unknown_of_def rewritten_def reconciled_entry_def)

lemma rewritten_id [simp]: "je_operationId (rewritten c e) = je_operationId e"
  by (simp add: rewritten_def reconciled_entry_def)

lemma recovery_loop_rewrites:
  "all_rewritten_durable rt clock i es \<Longrightarrow> st_bytes st + recovery_bytes rt clock i es \<le> rp_maxBytes policy \<Longrightarrow>
   distinct (map je_operationId es) \<Longrightarrow>
   \<exists>st' blocks' report'. recovery_loop rt policy clock i es st blocks report = Inr (st', blocks', report') \<and>
     (\<forall>e\<in>set es. \<exists>x. journal_get st' (je_operationId e) = Some x \<and> unknown_of e x) \<and>
     (\<forall>k. k \<notin> je_operationId ` set es \<longrightarrow> journal_get st' k = journal_get st k)"
proof (induction es arbitrary: i st blocks report)
  case (Cons e es)
  let ?r = "rewritten (clock i) e"
  let ?st = "append_finish ?r (utf8_length (record_text rt ?r @ [0x0a])) (append_write (record_text rt ?r @ [0x0a]) st)"
  have app: "journal_append rt policy (clock (i + 1)) ?r st = Inr (?st, Appended)"
    using Cons.prems by (intro append_fits) auto
  have get: "journal_get ?st k = (if k = je_operationId e then Some ?r else journal_get st k)" for k
    by (simp add: journal_get_def append_finish_def append_write_def set_entry_def AList.update_conv')
  have "st_bytes ?st = st_bytes st + utf8_length (record_text rt ?r @ [0x0a])"
    by (simp add: append_finish_def append_write_def)
  with Cons.prems have prems: "all_rewritten_durable rt clock (i + 3) es"
    "st_bytes ?st + recovery_bytes rt clock (i + 3) es \<le> rp_maxBytes policy" "distinct (map je_operationId es)"
    "je_operationId e \<notin> je_operationId ` set es" by auto
  from Cons.IH [OF prems(1-3), of "add_block (clock (i + 2)) e blocks" "report @ [report_of e]"] obtain st' b' r' where
    loop: "recovery_loop rt policy clock (i + 3) es ?st (add_block (clock (i + 2)) e blocks) (report @ [report_of e]) = Inr (st', b', r')"
    and IH: "\<forall>e\<in>set es. \<exists>x. journal_get st' (je_operationId e) = Some x \<and> unknown_of e x"
      "\<forall>k. k \<notin> je_operationId ` set es \<longrightarrow> journal_get st' k = journal_get ?st k" by blast
  have "journal_get st' (je_operationId e) = Some ?r" using IH(2) prems(4) get by simp
  with IH get rewritten_unknown [of e "clock i"] show ?case
    using app loop by (intro exI [of _ st'] exI [of _ b'] exI [of _ r']) auto
qed simp

lemma unfinished_distinct: "keyed_map (st_entries st) \<Longrightarrow> distinct (map je_operationId (journal_unfinished st))"
  using distinct_ids [of "st_entries st"] by (simp add: journal_unfinished_def distinct_map_filter)

lemma unfinished_get:
  assumes "keyed_map (st_entries st)"
  shows "x \<in> set (journal_unfinished st) \<longleftrightarrow>
    journal_get st (je_operationId x) = Some x \<and> (je_status x = str ''accepted'' \<or> je_status x = str ''running'')"
  using keyed_get [OF assms, of "je_operationId x" x] by (auto simp: journal_unfinished_def journal_get_def)

lemma keyed_after:
  assumes "(journal_step rt policy)\<^sup>*\<^sup>* (createJournalStore None) st"
  shows "keyed_map (st_entries st)"
  using journal_system.reachable_inv [OF refl assms] keyed_replay by (auto simp: journal_inv_def)

lemma recovery_loop_steps:
  "all_rewritten_durable rt clock i es \<Longrightarrow>
   recovery_loop rt policy clock i es st blocks report = Inr (st', blocks', report') \<Longrightarrow>
   (journal_step rt policy)\<^sup>*\<^sup>* st st'"
proof (induction es arbitrary: i st blocks report)
  case (Cons e es)
  from Cons.prems(2) obtain st1 out where
    app: "journal_append rt policy (clock (i + 1)) (rewritten (clock i) e) st = Inr (st1, out)" and
    loop: "recovery_loop rt policy clock (i + 3) es st1 (add_block (clock (i + 2)) e blocks) (report @ [report_of e]) = Inr (st', blocks', report')"
    by (auto split: prod.splits)
  have "journal_step rt policy st st1"
    using Cons.prems(1) app by (auto intro: journal_step.append)
  moreover have "(journal_step rt policy)\<^sup>*\<^sup>* st1 st'" using Cons.IH [OF _ loop] Cons.prems(1) by simp
  ultimately show ?case by (rule converse_rtranclp_into_rtranclp)
qed simp

text \<open>
  With room in the journal for one more line per unfinished operation, recovery makes every one
  of them \<^verbatim>\<open>unknown\<close>, with a reason, no result and the next sequence number, never succeeded,
  failed or retried; no other record changes, and afterwards nothing is unfinished.
\<close>

theorem recovery_makes_unknown:
  assumes "(journal_step rt policy)\<^sup>*\<^sup>* (createJournalStore None) st"
    and "all_rewritten_durable rt clock 0 (journal_unfinished st)"
    and "st_bytes st + recovery_bytes rt clock 0 (journal_unfinished st) \<le> rp_maxBytes policy"
  shows "\<exists>st' blocks report. recovery_run rt policy clock st [] = Inr (st', blocks, report) \<and>
    (\<forall>i. case journal_get st i of
           None \<Rightarrow> journal_get st' i = None
         | Some e \<Rightarrow> if isTerminalStatus (je_status e) \<or> e \<notin> set (journal_unfinished st) then journal_get st' i = Some e
                     else \<exists>x. journal_get st' i = Some x \<and> unknown_of e x) \<and>
    journal_unfinished st' = []"
proof -
  let ?es = "journal_unfinished st"
  note keyed = keyed_after [OF assms(1)]
  from recovery_loop_rewrites [OF assms(2,3) unfinished_distinct [OF keyed], of "[]" "[]"] obtain st' blocks report where
    run: "recovery_run rt policy clock st [] = Inr (st', blocks, report)" and
    made: "\<And>e. e \<in> set ?es \<Longrightarrow> \<exists>x. journal_get st' (je_operationId e) = Some x \<and> unknown_of e x" and
    kept: "\<And>k. k \<notin> je_operationId ` set ?es \<Longrightarrow> journal_get st' k = journal_get st k"
    unfolding recovery_run_def by blast
  have own: "journal_get st i = Some e \<Longrightarrow> je_operationId e = i" for i e
    using keyed_get [OF keyed] by (simp add: journal_get_def)
  have open_get: "x \<in> set ?es \<Longrightarrow> journal_get st (je_operationId x) = Some x \<and> \<not> isTerminalStatus (je_status x)" for x
    using unfinished_get [OF keyed] by (auto simp: isTerminalStatus_def str_inj simp del: str_simps)
  have all: "case journal_get st i of
           None \<Rightarrow> journal_get st' i = None
         | Some e \<Rightarrow> if isTerminalStatus (je_status e) \<or> e \<notin> set ?es then journal_get st' i = Some e
                     else \<exists>x. journal_get st' i = Some x \<and> unknown_of e x" for i
  proof (cases "\<exists>e\<in>set ?es. je_operationId e = i")
    case True
    then show ?thesis using made open_get by force
  next
    case False
    then have "i \<notin> je_operationId ` set ?es" by auto
    with kept [of i] False own show ?thesis by (auto split: option.split)
  qed
  have "keyed_map (st_entries st')"
    using rtranclp_trans [OF assms(1) recovery_loop_steps [OF assms(2) run [unfolded recovery_run_def]]] by (rule keyed_after)
  from unfinished_get [OF this] have late: "x \<in> set (journal_unfinished st') \<Longrightarrow>
      journal_get st' (je_operationId x) = Some x \<and> (je_status x = str ''accepted'' \<or> je_status x = str ''running'')" for x
    by blast
  have "x \<notin> set (journal_unfinished st')" for x
  proof
    assume x: "x \<in> set (journal_unfinished st')"
    show False
    proof (cases "je_operationId x \<in> je_operationId ` set ?es")
      case True
      with made late [OF x] have "je_status x = str ''unknown''" by (force simp: unknown_of_def)
      with late [OF x] show False by (auto simp: str_inj simp del: str_simps)
    next
      case False
      with kept late [OF x] have "journal_get st (je_operationId x) = Some x" by simp
      with late [OF x] unfinished_get [OF keyed, of x] False show False by force
    qed
  qed
  then have "journal_unfinished st' = []" by (auto simp: last_in_set intro: ccontr [of "_ = []"] dest: last_in_set)
  with run all show ?thesis by blast
qed

lemma append_full:
  assumes "durable rt e" and "list_all (durable rt) (map snd (st_entries st))" and "st_bytes st = rp_maxBytes policy"
    and "list_all (\<lambda>e. \<not> mayPruneRecord e t policy) (map snd (st_entries st))"
  shows "journal_append rt policy t e st = Inr (st, JournalFull)"
proof -
  have "utf8_length (xs @ [0x0a]) > 0" for xs
    by (induction xs rule: utf8_length.induct) (auto split: list.splits)
  with assms(3,4) show ?thesis
    by (simp add: journal_append_def durable_read(1) [OF assms(1)] journal_compact_eq [OF assms(2)])
qed

text \<open>
  When the journal is full and has nothing to prune, recovery still reports the operation as
  reconciled and blocks its repository, but the record keeps its old status: the outcome of the
  append is not looked at.
\<close>

theorem recovery_full_journal_keeps_status:
  assumes "(journal_step rt policy)\<^sup>*\<^sup>* (createJournalStore None) st"
    and "all_rewritten_durable rt clock 0 (journal_unfinished st)"
    and "recovery_run rt policy clock st [] = Inr (st', blocks, report)"
    and "st_bytes st = rp_maxBytes policy"
    and "\<forall>t. list_all (\<lambda>e. \<not> mayPruneRecord e t policy) (map snd (st_entries st))"
  shows "st' = st \<and> report = map report_of (journal_unfinished st)"
proof -
  obtain hs where hs: "list_all (durable rt) hs" "st_entries st = replay hs"
    using journal_system.reachable_inv [OF refl assms(1)] by (auto simp: journal_inv_def)
  then have d: "list_all (durable rt) (map snd (st_entries st))" using replay_durable by simp
  note full = append_full [OF _ d assms(4)]
  have "recovery_loop rt policy clock i es st blocks0 report0 = Inr (st', blocks', report') \<Longrightarrow>
      all_rewritten_durable rt clock i es \<Longrightarrow> st' = st" for es i blocks0 report0 blocks' report'
    using assms(5) by (induction es arbitrary: i blocks0 report0) (auto simp: full)
  with assms(2,3) recovery_loop_blocks show ?thesis unfolding recovery_run_def by blast
qed

text \<open>
  A block is lifted only by \<^verbatim>\<open>resolveBlock\<close> for its own repository, exactly once: the call
  succeeds when there is a block, leaves none behind, and touches no other repository.
\<close>

theorem resolve_lifts_one_block:
  "snd (resolveBlock r note blocks) = (blockFor blocks r \<noteq> None) \<and>
    (\<forall>q. blockFor (fst (resolveBlock r note blocks)) q = (if q = r then None else blockFor blocks q)) \<and>
    blockedRepositories (fst (resolveBlock r note blocks)) = filter (\<lambda>q. q \<noteq> r) (blockedRepositories blocks)"
proof -
  have keys: "map fst (AList.delete r blocks) = filter (\<lambda>q. q \<noteq> r) (map fst blocks)"
    by (induction blocks) auto
  show ?thesis
  proof (cases "map_of blocks r")
    case None
    then have "filter (\<lambda>q. q \<noteq> r) (map fst blocks) = map fst blocks"
      by (force simp: map_of_eq_None_iff filter_id_conv)
    with None show ?thesis by (auto simp: resolveBlock_def blockFor_def blockedRepositories_def)
  next
    case (Some b)
    then show ?thesis using keys
      by (simp add: resolveBlock_def blockFor_def blockedRepositories_def delete_conv')
  qed
qed

section \<open>Witnesses\<close>

text \<open>One accepted operation in the journal, and a platform that reads it and its rewriting back.\<close>

abbreviation sample_unknown :: journal_entry where
  "sample_unknown \<equiv> rewritten 0 sample_new"

definition recovery_rt :: runtime where
  "recovery_rt = sample_dates\<lparr>rt_parse := parse_one_of [sample_json sample_new, sample_json sample_unknown]\<rparr>"

lemma object_tail:
  assumes "stringify (JObject (p # q # ms)) = stringify (JObject (p # q' # ms'))"
    and "snd p \<noteq> JUndefined" and "snd q \<noteq> JUndefined" and "snd q' \<noteq> JUndefined"
  shows "stringify (JObject (q # ms)) = stringify (JObject (q' # ms'))"
  using assms by (cases p; cases q; cases q') simp

lemma object_head: "\<exists>x. stringify (JObject ((k, JString s) # ms)) = (0x7b # quote k @ [0x3a]) @ quote s @ x"
  by (cases "filter (\<lambda>(k, v). v \<noteq> JUndefined) ms") (simp_all add: member_text_def)

lemma status_texts_differ:
  "stringify (JObject ((k, JString (str ''accepted'')) # r)) \<noteq> stringify (JObject ((k, JString (str ''unknown'')) # r'))"
proof
  assume same: "stringify (JObject ((k, JString (str ''accepted'')) # r)) = stringify (JObject ((k, JString (str ''unknown'')) # r'))"
  obtain x y where "stringify (JObject ((k, JString (str ''accepted'')) # r)) = (0x7b # quote k @ [0x3a]) @ quote (str ''accepted'') @ x"
    and "stringify (JObject ((k, JString (str ''unknown'')) # r')) = (0x7b # quote k @ [0x3a]) @ quote (str ''unknown'') @ y"
    using object_head by blast
  with same have "quote (str ''accepted'') @ x = quote (str ''unknown'') @ y" by (simp only: same_append_eq)
  then show False by (simp add: quote_def is_surrogate_def)
qed

lemma entry_json_any: "entry_json (sample_dates\<lparr>rt_parse := p\<rparr>) e = entry_json sample_dates e"
proof -
  have "iso_time (sample_dates\<lparr>rt_parse := p\<rparr>) t = iso_time sample_dates t" for t
    by (cases t) (simp_all add: sample_dates_def)
  moreover from this have "iso_optional (sample_dates\<lparr>rt_parse := p\<rparr>) t = iso_optional sample_dates t" for t
    by (cases t) (simp_all add: iso_optional_def del: iso_time.simps)
  ultimately show ?thesis by (simp add: entry_json_def del: iso_time.simps str_simps)
qed

lemma unknown_text_differs: "stringify (sample_json sample_new) \<noteq> stringify (sample_json sample_unknown)"
proof
  let ?rest = "\<lambda>e. case sample_json e of JObject ms \<Rightarrow> drop 6 ms"
  let ?object = "\<lambda>s r. JObject
      ((str ''operationId'', JString (str ''b'')) # (str ''clientRequestId'', JString []) # (str ''actor'', JString []) #
       (str ''kind'', JString (str ''stage'')) # (str ''target'', JObject []) # (str ''status'', JString s) # r)"
  have "sample_json sample_new = ?object (str ''accepted'') (?rest sample_new)"
    "sample_json sample_unknown = ?object (str ''unknown'') (?rest sample_unknown)"
    by (simp_all add: sample_json_def entry_json_def sample_new_def sample_record_def sample_dates_def
        iso_optional_def rewritten_def reconciled_entry_def del: str_simps)
  moreover assume "stringify (sample_json sample_new) = stringify (sample_json sample_unknown)"
  ultimately have "stringify (?object (str ''accepted'') (?rest sample_new)) = stringify (?object (str ''unknown'') (?rest sample_unknown))"
    by metis
  then have "stringify (JObject ((str ''status'', JString (str ''accepted'')) # ?rest sample_new)) =
      stringify (JObject ((str ''status'', JString (str ''unknown'')) # ?rest sample_unknown))"
    by (rule object_tail [OF object_tail [OF object_tail [OF object_tail [OF object_tail]]]]) simp_all
  with status_texts_differ show False by blast
qed

lemma recovery_durable: "durable recovery_rt sample_new" "durable recovery_rt sample_unknown"
proof -
  obtain v where v: "entry_json sample_dates sample_new = Inr v"
    by (simp add: entry_json_def sample_new_def sample_record_def sample_dates_def iso_optional_def del: str_simps)
  obtain w where w: "entry_json sample_dates sample_unknown = Inr w"
    by (simp add: entry_json_def sample_new_def sample_record_def sample_dates_def iso_optional_def rewritten_def
        reconciled_entry_def del: str_simps)
  show "durable recovery_rt sample_new" using unknown_text_differs
    by (simp add: durable_def recovery_rt_def entry_json_any v sample_json_def w)
      (simp add: sample_new_def sample_record_def sample_dates_def date_ok_def optional_date_ok_def del: str_simps)
  show "durable recovery_rt sample_unknown" using unknown_text_differs
    by (simp add: durable_def recovery_rt_def entry_json_any v sample_json_def w)
      (simp add: sample_new_def sample_record_def sample_dates_def date_ok_def optional_date_ok_def rewritten_def
        reconciled_entry_def in_flight_problem_def del: str_simps)
qed

definition recovery_line :: "journal_entry \<Rightarrow> nat" where
  "recovery_line e = utf8_length (record_text recovery_rt e @ [0x0a])"

definition recovery_policy :: "nat \<Rightarrow> retention_policy" where
  "recovery_policy room = \<lparr>rp_ttlMs = 10, rp_maxEntries = 5, rp_maxBytes = recovery_line sample_new + room\<rparr>"

definition recovery_store :: store where
  "recovery_store = append_finish sample_new (recovery_line sample_new)
     (append_write (record_text recovery_rt sample_new @ [0x0a]) (createJournalStore None))"

lemma recovery_store_reachable:
  "(journal_step recovery_rt (recovery_policy room))\<^sup>*\<^sup>* (createJournalStore None) recovery_store"
proof (rule r_into_rtranclp, rule journal_step.append [OF recovery_durable(1)])
  show "journal_append recovery_rt (recovery_policy room) 0 sample_new (createJournalStore None) = Inr (recovery_store, Appended)"
    by (simp add: append_fits recovery_durable createJournalStore_def recovery_policy_def recovery_line_def recovery_store_def)
qed

lemma recovery_store_simps:
  "st_bytes recovery_store = recovery_line sample_new" "st_entries recovery_store = [(str ''b'', sample_new)]"
  "journal_get recovery_store (str ''b'') = Some sample_new" "journal_unfinished recovery_store = [sample_new]"
  by (simp_all add: recovery_store_def append_finish_def append_write_def createJournalStore_def journal_get_def
      set_entry_def sample_ids journal_unfinished_def)
    (simp add: sample_new_def sample_record_def)

lemma sample_run_durable: "all_rewritten_durable recovery_rt (\<lambda>_. 0) 0 (journal_unfinished recovery_store)"
  by (simp add: recovery_store_simps recovery_durable)

lemma recovery_makes_unknown_witness:
  "\<exists>st' blocks report.
     recovery_run recovery_rt (recovery_policy (recovery_line sample_unknown)) (\<lambda>_. 0) recovery_store [] = Inr (st', blocks, report) \<and>
     journal_unfinished st' = []"
proof -
  have "st_bytes recovery_store + recovery_bytes recovery_rt (\<lambda>_. 0) 0 (journal_unfinished recovery_store)
      \<le> rp_maxBytes (recovery_policy (recovery_line sample_unknown))"
    by (simp add: recovery_store_simps recovery_policy_def recovery_line_def)
  from recovery_makes_unknown [OF recovery_store_reachable sample_run_durable this] show ?thesis by blast
qed

text \<open>In a full journal the same run reports the operation and leaves it as it was.\<close>

lemma sample_full_run:
  "recovery_run recovery_rt (recovery_policy 0) (\<lambda>_. 0) recovery_store [] =
     Inr (recovery_store, add_block 0 sample_new [], [report_of sample_new])"
proof -
  have "\<not> mayPruneRecord sample_new 0 policy" for policy
    by (simp add: sample_new_def sample_record_def isTerminalStatus_def mayPruneRecord_def)
  then have "journal_append recovery_rt (recovery_policy 0) 0 sample_unknown recovery_store = Inr (recovery_store, JournalFull)"
    by (intro append_full) (simp_all add: recovery_durable recovery_store_simps recovery_policy_def)
  then show ?thesis by (simp add: recovery_run_def recovery_store_simps)
qed

lemma recovery_blocks_in_flight_witness:
  "\<exists>b. blockFor (add_block 0 sample_new []) (je_repositoryId sample_new) = Some b \<and> str ''b'' \<in> set (wb_operationIds b)"
proof -
  have "sample_new \<in> set (journal_unfinished recovery_store)" by (simp add: recovery_store_simps)
  from recovery_blocks_in_flight [OF sample_full_run this] show ?thesis by (simp add: sample_ids)
qed

lemma recovery_full_journal_keeps_status_witness:
  "\<exists>st' blocks report.
     recovery_run recovery_rt (recovery_policy 0) (\<lambda>_. 0) recovery_store [] = Inr (st', blocks, report) \<and>
     st' = recovery_store \<and> report = [report_of sample_new] \<and> journal_unfinished st' = [sample_new]"
proof -
  have bytes: "st_bytes recovery_store = rp_maxBytes (recovery_policy 0)"
    by (simp add: recovery_store_simps recovery_policy_def)
  have "\<forall>t. list_all (\<lambda>e. \<not> mayPruneRecord e t (recovery_policy 0)) (map snd (st_entries recovery_store))"
    by (simp add: recovery_store_simps mayPruneRecord_def isTerminalStatus_def) (simp add: sample_new_def sample_record_def)
  from recovery_full_journal_keeps_status [OF recovery_store_reachable sample_run_durable sample_full_run bytes this]
  show ?thesis using sample_full_run by (simp add: recovery_store_simps)
qed

end
