(* ===== verification/Problem.thy ===== *)
theory Problem
  imports Json
begin

text \<open>
  The error envelope every refusal is made of (\<^verbatim>\<open>Problem\<close> of \<^verbatim>\<open>packages/git-contract/src/errors.ts\<close>), as the
  coordinator and the pairing store build it, and \<^verbatim>\<open>texts.join(separator)\<close>, which messages and
  fingerprints are built with. The lemmas show when a joined text can be taken apart again.
\<close>

record problem =
  pr_code :: string
  pr_message :: jsstring
  pr_details :: "(jsstring \<times> jsvalue) list option"
  pr_retryable :: bool
  pr_operationId :: "jsstring option"

definition refuse :: "string \<Rightarrow> jsstring \<Rightarrow> bool \<Rightarrow> problem" where
  "refuse code message retryable =
     \<lparr>pr_code = code, pr_message = message, pr_details = None, pr_retryable = retryable, pr_operationId = None\<rparr>"

definition problem_json :: "problem \<Rightarrow> jsvalue" where
  "problem_json p = JObject
     ([(str ''code'', JString (str (pr_code p))), (str ''message'', JString (pr_message p))] @
      (case pr_details p of None \<Rightarrow> []
       | Some ds \<Rightarrow> [(str ''details'', JObject ds)]) @
      [(str ''retryable'', JBool (pr_retryable p))] @
      (case pr_operationId p of None \<Rightarrow> [] | Some i \<Rightarrow> [(str ''operationId'', JString i)]))"

lemma refuse_simps [simp]:
  "pr_code (refuse c m r) = c" "pr_message (refuse c m r) = m" "pr_retryable (refuse c m r) = r"
  "pr_details (refuse c m r) = None" "pr_operationId (refuse c m r) = None"
  by (simp_all add: refuse_def)

section \<open>Joined texts\<close>

fun joinWith :: "'a list \<Rightarrow> 'a list list \<Rightarrow> 'a list" where
  "joinWith sep [] = []"
| "joinWith sep [t] = t"
| "joinWith sep (t # ts) = t @ sep @ joinWith sep ts"

lemma splitOn_joinWith:
  "ts \<noteq> [] \<Longrightarrow> list_all (\<lambda>t. c \<notin> set t) ts \<Longrightarrow> splitOn c (joinWith [c] ts) = ts"
  by (induction "[c]" ts rule: joinWith.induct) auto

text \<open>Two lists of pieces without the separator, none of them empty, have different joined texts.\<close>

lemma joinWith_inj:
  assumes "list_all (\<lambda>t. c \<notin> set t \<and> t \<noteq> []) ts" and "list_all (\<lambda>t. c \<notin> set t \<and> t \<noteq> []) us"
    and "joinWith [c] ts = joinWith [c] us"
  shows "ts = us"
proof -
  have blank: "joinWith [c] xs = [] \<longleftrightarrow> xs = []" if "list_all (\<lambda>t. c \<notin> set t \<and> t \<noteq> []) xs" for xs
    using that by (cases xs rule: remdups_adj.cases) auto
  show ?thesis
  proof (cases "ts = []")
    case True
    then show ?thesis using blank [OF assms(2)] assms(3) by simp
  next
    case False
    then have "us \<noteq> []" using blank [OF assms(1)] assms(3) by auto
    moreover have "list_all (\<lambda>t. c \<notin> set t) ts" "list_all (\<lambda>t. c \<notin> set t) us"
      using assms(1,2) by (simp_all add: list_all_iff)
    ultimately show ?thesis using False splitOn_joinWith assms(3) by metis
  qed
qed

lemma first_piece_inj:
  "c \<notin> set x \<Longrightarrow> c \<notin> set y \<Longrightarrow> x @ c # u = y @ c # v \<Longrightarrow> x = y \<and> u = v"
proof (induction x arbitrary: y)
  case Nil
  then show ?case by (cases y) auto
next
  case (Cons a x)
  then show ?case by (cases y) auto
qed

end
