(* ===== verification/Preconditions.thy ===== *)
theory Preconditions
  imports Status Problem
begin

text \<open>
  What must be true before an operation may run:
  \<^verbatim>\<open>packages/host-node/src/coordinator/preconditions.ts\<close>. \<open>checkPreconditions\<close> gives the first refusal, if any;
  \<open>statusIndexKey\<close> is the fingerprint the snapshots and the freshness check share. The lemmas show
  what the fingerprint tells apart and what it does not.
\<close>

section \<open>The checks\<close>

record restart_block =
  rb_reason :: jsstring
  rb_operationIds :: "jsstring list"

record preview_check =
  pv_pathId :: jsstring
  pv_expectedFingerprint :: jsstring
  pv_currentFingerprint :: "jsstring option"

record refusal =
  rf_code :: string
  rf_message :: jsstring
  rf_retryable :: "bool option"

record precondition_context =
  pc_snapshotHeadOid :: "jsstring option"
  pc_currentHeadOid :: "jsstring option"
  pc_indexUnchanged :: bool
  pc_operationInProgress :: "jsstring option"
  pc_mayRunDuring :: "jsstring list option"
  pc_restartBlock :: "restart_block option"
  pc_previewChecks :: "preview_check list option"
  pc_refusal :: "refusal option"

definition orUnborn :: "jsstring option \<Rightarrow> jsstring" where
  "orUnborn oid = (case oid of None \<Rightarrow> str ''(unborn)'' | Some h \<Rightarrow> h)"

fun preview_loop :: "preview_check list \<Rightarrow> problem option" where
  "preview_loop [] = None"
| "preview_loop (c # cs) =
     (case pv_currentFingerprint c of
        None \<Rightarrow> Some ((refuse ''StalePreview'' (str ''a selected path could no longer be read; re-preview it before changing it'') False)
                  \<lparr>pr_details := Some [(str ''pathId'', JString (pv_pathId c))]\<rparr>)
      | Some f \<Rightarrow>
          if f \<noteq> pv_expectedFingerprint c
          then Some ((refuse ''StalePreview'' (str ''the content of a selected path changed since it was previewed; re-preview it before changing it'') False)
                 \<lparr>pr_details := Some [(str ''pathId'', JString (pv_pathId c))]\<rparr>)
          else preview_loop cs)"

text \<open>\<open>None\<close> is \<^verbatim>\<open>{ ok: true }\<close>.\<close>

definition checkPreconditions :: "precondition_context \<Rightarrow> problem option" where
  "checkPreconditions context =
     (case pc_refusal context of
        Some r \<Rightarrow> Some (refuse (rf_code r) (rf_message r) (case rf_retryable r of None \<Rightarrow> False | Some b \<Rightarrow> b))
      | None \<Rightarrow>
     (case pc_restartBlock context of
        Some b \<Rightarrow> Some ((refuse ''UncertainOutcome''
            (rb_reason b @ str ''; confirm the repository state before submitting new work'') False)
            \<lparr>pr_details := Some [(str ''reason'', JString (rb_reason b)), (str ''operations'', JString (joinWith (str '','') (rb_operationIds b)))]\<rparr>)
      | None \<Rightarrow>
     (let ongoing = (case pc_operationInProgress context of
            None \<Rightarrow> None
          | Some opr \<Rightarrow> if opr \<in> set (case pc_mayRunDuring context of None \<Rightarrow> [] | Some ks \<Rightarrow> ks) then None else Some opr)
      in case ongoing of
        Some opr \<Rightarrow> Some ((refuse ''Conflict'' (str ''a '' @ opr @
            str '' is in progress in this worktree; finish or abort it before other operations'') False)
            \<lparr>pr_details := Some [(str ''operation'', JString opr)]\<rparr>)
      | None \<Rightarrow>
      if pc_snapshotHeadOid context \<noteq> pc_currentHeadOid context
      then Some ((refuse ''StaleSnapshot'' (str ''the repository moved since this request was prepared; reload and confirm again'') False)
            \<lparr>pr_details := Some [(str ''expectedHead'', JString (orUnborn (pc_snapshotHeadOid context))),
                               (str ''currentHead'', JString (orUnborn (pc_currentHeadOid context)))]\<rparr>)
      else if \<not> pc_indexUnchanged context
      then Some (refuse ''StaleSnapshot'' (str ''the index changed since this request was prepared; reload and confirm again'') False)
      else preview_loop (case pc_previewChecks context of None \<Rightarrow> [] | Some cs \<Rightarrow> cs))))"

definition mayRunDuringOperation :: "jsstring \<Rightarrow> jsstring list" where
  "mayRunDuringOperation kind =
     (if kind = str ''stagePaths'' \<or> kind = str ''unstagePaths'' then [str ''merge'', str ''cherry-pick'', str ''rebase'']
      else if kind = str ''continueMerge'' \<or> kind = str ''abortMerge'' then [str ''merge'']
      else if kind = str ''continueCherryPick'' \<or> kind = str ''abortCherryPick'' then [str ''cherry-pick'']
      else if kind = str ''continueRebase'' \<or> kind = str ''abortRebase'' then [str ''rebase'']
      else [])"

section \<open>The fingerprint of the index\<close>

text \<open>\<^verbatim>\<open>byte.toString(16).padStart(2, "0")\<close>\<close>

definition hex_pair :: "byte \<Rightarrow> jsstring" where
  "hex_pair b = [hex_digit (unat b div 16), hex_digit (unat b mod 16)]"

definition pathKeyOf :: "byte list \<Rightarrow> jsstring" where
  "pathKeyOf bytes = concat (map hex_pair bytes)"

record index_entry =
  ie_pathKey :: jsstring
  ie_mode :: jsstring
  ie_oid :: jsstring
  ie_stage :: nat

definition entry_row :: "index_entry \<Rightarrow> jsstring" where
  "entry_row e = ie_pathKey e @ [0] @ ie_mode e @ [0] @ ie_oid e @ [0] @ decimal (ie_stage e)"

definition indexFingerprint :: "jsstring option \<Rightarrow> index_entry list \<Rightarrow> jsstring" where
  "indexFingerprint headOid entries =
     (let rows = sort (map entry_row entries) in orUnborn headOid @ [0x0a] @ joinWith [0x0a] rows)"

definition index_entry_of :: "status_record \<Rightarrow> index_entry" where
  "index_entry_of r =
     \<lparr>ie_pathKey = pathKeyOf (sr_path r) @ str '':'' @
        (case sr_originalPath r of None \<Rightarrow> [] | Some p \<Rightarrow> pathKeyOf p),
      ie_mode = (case mode_index (sr_modes r) of Some m \<Rightarrow> m
        | None \<Rightarrow> (case mode_worktree (sr_modes r) of Some m \<Rightarrow> m | None \<Rightarrow> str ''-'')),
      ie_oid = (case oid_index (sr_oids r) of Some h \<Rightarrow> h | None \<Rightarrow> str ''-''),
      ie_stage = length (sr_stages r)\<rparr>"

definition statusIndexKey :: "jsstring option \<Rightarrow> status_record list \<Rightarrow> jsstring" where
  "statusIndexKey headOid records = indexFingerprint headOid (map index_entry_of records)"

section \<open>What the checks let through\<close>

lemma preview_loop_None:
  "preview_loop cs = None \<longleftrightarrow> list_all (\<lambda>c. pv_currentFingerprint c = Some (pv_expectedFingerprint c)) cs"
  by (induction cs) (auto split: option.split)

text \<open>What must hold for a context to be let through.\<close>

definition admissible :: "precondition_context \<Rightarrow> bool" where
  "admissible c \<longleftrightarrow>
     pc_refusal c = None \<and> pc_restartBlock c = None \<and>
     (case pc_operationInProgress c of None \<Rightarrow> True
      | Some opr \<Rightarrow> (case pc_mayRunDuring c of None \<Rightarrow> False | Some ks \<Rightarrow> opr \<in> set ks)) \<and>
     pc_snapshotHeadOid c = pc_currentHeadOid c \<and> pc_indexUnchanged c \<and>
     (case pc_previewChecks c of None \<Rightarrow> True
      | Some cs \<Rightarrow> list_all (\<lambda>c. pv_currentFingerprint c = Some (pv_expectedFingerprint c)) cs)"

lemma checkPreconditions_None: "checkPreconditions c = None \<longleftrightarrow> admissible c"
  by (auto simp: checkPreconditions_def admissible_def preview_loop_None split: option.splits)

section \<open>What the fingerprint tells apart\<close>

lemma hex_digit_inj: "m < 16 \<Longrightarrow> n < 16 \<Longrightarrow> hex_digit m = hex_digit n \<Longrightarrow> m = n"
proof -
  assume "m < 16" "n < 16" and eq: "hex_digit m = hex_digit n"
  then have mn: "m \<in> set [0..<16]" "n \<in> set [0..<16]" by auto
  have "list_all (\<lambda>m. list_all (\<lambda>n. hex_digit m = hex_digit n \<longrightarrow> m = n) [0..<16]) [0..<16]"
    by (simp add: hex_digit_def upt_rec)
  with mn eq show ?thesis by (auto simp only: list_all_iff)
qed

lemma hex_digit_plain: "n < 16 \<Longrightarrow> hex_digit n \<noteq> 0x0a \<and> hex_digit n \<noteq> 0 \<and> hex_digit n \<noteq> 0x3a"
proof -
  assume "n < 16"
  then have "n \<in> set [0..<16]" by auto
  moreover have "list_all (\<lambda>n. hex_digit n \<noteq> 0x0a \<and> hex_digit n \<noteq> 0 \<and> hex_digit n \<noteq> 0x3a) [0..<16]"
    by (simp add: hex_digit_def upt_rec)
  ultimately show ?thesis by (auto simp only: list_all_iff)
qed

lemma byte_halves: "unat (b :: byte) div 16 < 16" "unat (b :: byte) mod 16 < 16"
proof -
  have "unat b < 2 ^ LENGTH(8)" by (rule unsigned_less)
  then show "unat b div 16 < 16" by (simp add: less_mult_imp_div_less)
qed simp

lemma hex_pair_inj: "hex_pair a = hex_pair b \<Longrightarrow> a = b"
proof -
  assume "hex_pair a = hex_pair b"
  then have "unat a div 16 = unat b div 16" "unat a mod 16 = unat b mod 16"
    using hex_digit_inj byte_halves by (auto simp: hex_pair_def)
  then have "unat a = unat b" by (metis mult_div_mod_eq)
  then show ?thesis by (simp add: word_unat_eq_iff)
qed

lemma pathKeyOf_inj: "pathKeyOf p = pathKeyOf q \<longleftrightarrow> p = q"
proof
  show "pathKeyOf p = pathKeyOf q \<Longrightarrow> p = q"
  proof (induction p arbitrary: q)
    case Nil
    then show ?case by (cases q) (auto simp: pathKeyOf_def hex_pair_def)
  next
    case (Cons a p)
    then obtain b q' where q: "q = b # q'" by (cases q) (auto simp: pathKeyOf_def hex_pair_def)
    with Cons.prems have "hex_pair a = hex_pair b \<and> pathKeyOf p = pathKeyOf q'"
      by (auto simp: pathKeyOf_def hex_pair_def)
    with Cons.IH hex_pair_inj q show ?case by auto
  qed
qed simp

lemma pathKeyOf_plain: "c \<in> set (pathKeyOf p) \<Longrightarrow> c \<noteq> 0x0a \<and> c \<noteq> 0 \<and> c \<noteq> 0x3a"
proof -
  assume "c \<in> set (pathKeyOf p)"
  then obtain b where "c \<in> set (hex_pair b)" by (auto simp: pathKeyOf_def)
  then show ?thesis using hex_digit_plain byte_halves by (auto simp: hex_pair_def)
qed

text \<open>Modes and object names hold neither NUL nor a line feed.\<close>

definition plain :: "jsstring \<Rightarrow> bool" where
  "plain s \<longleftrightarrow> 0 \<notin> set s \<and> 0x0a \<notin> set s"

lemma decimal_plain: "plain (decimal n)"
  using decimal_all_digits [of n] by (auto simp: plain_def all_digits_def list_all_iff isDigit_def)

lemma decimal_inj: "decimal m = decimal n \<Longrightarrow> m = n"
  using digits_value_decimal by metis

definition plain_entry :: "index_entry \<Rightarrow> bool" where
  "plain_entry e \<longleftrightarrow> plain (ie_pathKey e) \<and> plain (ie_mode e) \<and> plain (ie_oid e)"

lemma entry_row_inj:
  assumes "plain_entry e" and "plain_entry f" and "entry_row e = entry_row f"
  shows "e = f"
proof -
  have eq: "ie_pathKey e @ 0 # ie_mode e @ 0 # ie_oid e @ 0 # decimal (ie_stage e) =
      ie_pathKey f @ 0 # ie_mode f @ 0 # ie_oid f @ 0 # decimal (ie_stage f)"
    using assms(3) by (simp add: entry_row_def)
  have no: "0 \<notin> set (ie_pathKey x) \<and> 0 \<notin> set (ie_mode x) \<and> 0 \<notin> set (ie_oid x)" if "plain_entry x" for x
    using that by (simp add: plain_entry_def plain_def)
  have 1: "ie_pathKey e = ie_pathKey f \<and> ie_mode e @ 0 # ie_oid e @ 0 # decimal (ie_stage e) =
      ie_mode f @ 0 # ie_oid f @ 0 # decimal (ie_stage f)"
    by (rule first_piece_inj [of 0]) (use no assms(1,2) eq in simp_all)
  have 2: "ie_mode e = ie_mode f \<and> ie_oid e @ 0 # decimal (ie_stage e) = ie_oid f @ 0 # decimal (ie_stage f)"
    by (rule first_piece_inj [of 0]) (use no assms(1,2) 1 in simp_all)
  have 3: "ie_oid e = ie_oid f \<and> decimal (ie_stage e) = decimal (ie_stage f)"
    by (rule first_piece_inj [of 0]) (use no assms(1,2) 2 in simp_all)
  from 1 2 3 decimal_inj show ?thesis by (cases e; cases f) simp
qed

lemma entry_row_piece: "plain_entry e \<Longrightarrow> 0x0a \<notin> set (entry_row e) \<and> entry_row e \<noteq> []"
  using decimal_plain [of "ie_stage e"] by (auto simp: plain_entry_def plain_def entry_row_def)

lemma map_inj_mset:
  assumes "inj_on f (set_mset M \<union> set_mset N)" and "image_mset f M = image_mset f N"
  shows "M = N"
proof (rule multiset_eqI)
  fix x
  define g where "g = inv_into (set_mset M \<union> set_mset N) f"
  have "g (f y) = y" if "y \<in># M \<or> y \<in># N" for y
    using that assms(1) by (simp add: g_def)
  then have "image_mset g (image_mset f M) = M" "image_mset g (image_mset f N) = N"
    by (simp_all add: multiset.map_comp multiset.map_cong0 [where g = id, simplified] o_def cong: image_mset_cong)
  with assms(2) show "count M x = count N x" by metis
qed

lemma indexFingerprint_inj:
  assumes "list_all plain_entry es" and "list_all plain_entry fs" and "plain (orUnborn h)" and "plain (orUnborn k)"
  shows "indexFingerprint h es = indexFingerprint k fs \<longleftrightarrow> orUnborn h = orUnborn k \<and> mset es = mset fs"
proof
  assume "indexFingerprint h es = indexFingerprint k fs"
  then have "orUnborn h @ 0x0a # joinWith [0x0a] (sort (map entry_row es)) = orUnborn k @ 0x0a # joinWith [0x0a] (sort (map entry_row fs))"
    by (simp add: indexFingerprint_def)
  from first_piece_inj [OF _ _ this] have heads: "orUnborn h = orUnborn k"
    and rows: "joinWith [0x0a] (sort (map entry_row es)) = joinWith [0x0a] (sort (map entry_row fs))"
    using assms(3,4) by (simp_all add: plain_def)
  have "sort (map entry_row es) = sort (map entry_row fs)"
    using assms(1,2) entry_row_piece by (intro joinWith_inj [OF _ _ rows]) (auto simp: list_all_iff)
  then have "mset (map entry_row es) = mset (map entry_row fs)" by (metis mset_sort)
  moreover have "inj_on entry_row (set es \<union> set fs)"
    using assms(1,2) entry_row_inj by (auto simp: inj_on_def list_all_iff)
  ultimately have "mset es = mset fs" by (intro map_inj_mset [of entry_row]) simp_all
  with heads show "orUnborn h = orUnborn k \<and> mset es = mset fs" by simp
next
  assume "orUnborn h = orUnborn k \<and> mset es = mset fs"
  moreover then have "sort (map entry_row es) = sort (map entry_row fs)"
    by (metis mset_map properties_for_sort mset_sort sorted_sort)
  ultimately show "indexFingerprint h es = indexFingerprint k fs" by (simp add: indexFingerprint_def)
qed

section \<open>The fingerprint of a status\<close>

text \<open>What the fingerprint is about: paths, the mode and the object of the index, the number of stages.\<close>

definition index_facts :: "status_record \<Rightarrow> byte list \<times> byte list option \<times> jsstring \<times> jsstring option \<times> nat" where
  "index_facts r =
     (sr_path r, sr_originalPath r, ie_mode (index_entry_of r), oid_index (sr_oids r), length (sr_stages r))"

lemma hex_plain: "isHexDigit (c :: code_unit) \<Longrightarrow> c \<noteq> 0 \<and> c \<noteq> 0x0a \<and> c \<noteq> 0x2d \<and> c \<noteq> 0x28"
  by (auto simp: isHexDigit_def isDigit_def)

lemma object_name_text:
  assumes "isObjectName t"
  shows "plain t" and "t \<noteq> str ''-''" and "t \<noteq> str ''(unborn)''"
  using assms hex_plain by (auto simp: isObjectName_def plain_def list_all_iff)

definition plain_record :: "status_record \<Rightarrow> bool" where
  "plain_record r \<longleftrightarrow> record_wf r \<and> plain (ie_mode (index_entry_of r))"

lemma plain_record_oid: "plain_record r \<Longrightarrow> oid_index (sr_oids r) = Some t \<Longrightarrow> isObjectName t"
  by (auto simp: plain_record_def record_wf_def oid_opt_ok_def)

lemma plain_record_entry: "plain_record r \<Longrightarrow> plain_entry (index_entry_of r)"
proof -
  assume r: "plain_record r"
  have "plain (ie_pathKey (index_entry_of r))"
    using pathKeyOf_plain by (fastforce simp: index_entry_of_def plain_def split: option.split)
  moreover have "plain (ie_oid (index_entry_of r))"
    using plain_record_oid [OF r] object_name_text(1)
    by (auto simp: index_entry_of_def plain_def split: option.split)
  ultimately show ?thesis using r by (simp add: plain_entry_def plain_record_def)
qed

lemma index_entry_facts:
  assumes "plain_record r" and "plain_record s"
  shows "index_entry_of r = index_entry_of s \<longleftrightarrow> index_facts r = index_facts s"
proof -
  have colon: "0x3a \<notin> set (pathKeyOf p)" for p using pathKeyOf_plain by blast
  let ?orig = "\<lambda>r. case sr_originalPath r of None \<Rightarrow> [] | Some p \<Rightarrow> pathKeyOf p"
  have key: "ie_pathKey (index_entry_of x) = pathKeyOf (sr_path x) @ 0x3a # ?orig x" for x
    by (simp add: index_entry_of_def)
  have blank: "pathKeyOf p = [] \<longleftrightarrow> p = []" for p by (cases p) (simp_all add: pathKeyOf_def hex_pair_def)
  have "?orig r = ?orig s \<longleftrightarrow> sr_originalPath r = sr_originalPath s"
  proof -
    have "sr_originalPath r \<noteq> Some []" "sr_originalPath s \<noteq> Some []"
      using assms by (simp_all add: plain_record_def record_wf_def)
    then show ?thesis
      by (cases "sr_originalPath r"; cases "sr_originalPath s") (auto simp: pathKeyOf_inj blank eq_commute [of "[]"])
  qed
  then have path: "ie_pathKey (index_entry_of r) = ie_pathKey (index_entry_of s) \<longleftrightarrow>
      sr_path r = sr_path s \<and> sr_originalPath r = sr_originalPath s"
    unfolding key using first_piece_inj [OF colon colon] pathKeyOf_inj by metis
  have no_dash: "sr_oids x = os \<Longrightarrow> oid_index os = Some t \<Longrightarrow> t \<noteq> str ''-''" if "plain_record x" for x os t
    using object_name_text(2) plain_record_oid [OF that] by blast
  have oid: "ie_oid (index_entry_of r) = ie_oid (index_entry_of s) \<longleftrightarrow> oid_index (sr_oids r) = oid_index (sr_oids s)"
    using no_dash [OF assms(1) refl] no_dash [OF assms(2) refl]
    by (cases "oid_index (sr_oids r)"; cases "oid_index (sr_oids s)") (auto simp: index_entry_of_def simp del: str_simps)
  have stage: "ie_stage (index_entry_of x) = length (sr_stages x)" for x by (simp add: index_entry_of_def)
  have "index_entry_of r = index_entry_of s \<longleftrightarrow>
      ie_pathKey (index_entry_of r) = ie_pathKey (index_entry_of s) \<and> ie_mode (index_entry_of r) = ie_mode (index_entry_of s) \<and>
      ie_oid (index_entry_of r) = ie_oid (index_entry_of s) \<and> ie_stage (index_entry_of r) = ie_stage (index_entry_of s)"
    by (auto intro: index_entry.equality)
  then show ?thesis unfolding path oid stage index_facts_def by auto
qed

lemma image_mset_eq_transfer:
  assumes "\<And>x y. x \<in># M + N \<Longrightarrow> y \<in># M + N \<Longrightarrow> f x = f y \<longleftrightarrow> g x = g y"
    and "image_mset f M = image_mset f N"
  shows "image_mset g M = image_mset g N"
proof -
  define h where "h v = g (SOME x. x \<in># M + N \<and> f x = v)" for v
  have h: "h (f x) = g x" if "x \<in># M + N" for x
  proof -
    have "(SOME y. y \<in># M + N \<and> f y = f x) \<in># M + N \<and> f (SOME y. y \<in># M + N \<and> f y = f x) = f x"
      using that by (intro someI [of "\<lambda>y. y \<in># M + N \<and> f y = f x"]) simp
    with assms(1) [OF _ that] show ?thesis unfolding h_def by blast
  qed
  then have "image_mset g X = image_mset h (image_mset f X)" if "X \<subseteq># M + N" for X
    using mset_subset_eqD [OF that] by (auto simp: multiset.map_comp intro!: image_mset_cong)
  then show ?thesis using assms(2) by simp
qed

lemma indexKey_exact:
  assumes "list_all plain_record rs" and "list_all plain_record ss"
    and "pred_option isObjectName h" and "pred_option isObjectName k"
  shows "statusIndexKey h rs = statusIndexKey k ss \<longleftrightarrow>
    h = k \<and> image_mset index_facts (mset rs) = image_mset index_facts (mset ss)"
proof -
  have unborn: "plain (orUnborn h) \<and> (orUnborn h = str ''(unborn)'' \<longleftrightarrow> h = None)" if "pred_option isObjectName h" for h
    using that object_name_text by (cases h) (auto simp: orUnborn_def plain_def)
  have heads: "orUnborn h = orUnborn k \<longleftrightarrow> h = k"
    using unborn [OF assms(3)] unborn [OF assms(4)] by (cases h; cases k) (auto simp: orUnborn_def simp del: str_simps)
  have "statusIndexKey h rs = statusIndexKey k ss \<longleftrightarrow>
      h = k \<and> mset (map index_entry_of rs) = mset (map index_entry_of ss)"
    unfolding statusIndexKey_def heads [symmetric]
    using assms(1,2) plain_record_entry unborn [OF assms(3)] unborn [OF assms(4)]
    by (intro indexFingerprint_inj) (auto simp: list_all_iff)
  moreover have "mset (map index_entry_of rs) = mset (map index_entry_of ss) \<longleftrightarrow>
      image_mset index_facts (mset rs) = image_mset index_facts (mset ss)"
    unfolding mset_map
    by (rule iffI; erule image_mset_eq_transfer [rotated])
      (use assms(1,2) index_entry_facts in \<open>auto simp: list_all_iff\<close>)
  ultimately show ?thesis by simp
qed

text \<open>
  The fingerprint a snapshot and the freshness check share is exact: two statuses have the same
  fingerprint only when they have the same Head and the same entries (path, original path,
  mode, object in the index, number of unmerged stages), in any order. So every entry of
  the status counts, whichever paths a request names.
\<close>

theorem statusIndexKey_exact:
  assumes "list_all plain_record rs" and "list_all plain_record ss"
    and "pred_option isObjectName h" and "pred_option isObjectName k"
  shows "statusIndexKey h rs = statusIndexKey k ss \<longleftrightarrow>
    h = k \<and> image_mset index_facts (mset rs) = image_mset index_facts (mset ss)"
  using assms by (rule indexKey_exact)

text \<open>A status with a modified file, and the same status once another file has appeared.\<close>

definition sample_modified :: status_record where
  "sample_modified =
     \<lparr>sr_kind = Ordinary, sr_indexStatus = str ''M'', sr_worktreeStatus = str ''.'', sr_submoduleField = str ''N...'',
      sr_modes = \<lparr>mode_head = Some (str ''100644''), mode_index = Some (str ''100644''), mode_worktree = Some (str ''100644'')\<rparr>,
      sr_oids = \<lparr>oid_head = Some (replicate 40 0x61), oid_index = Some (replicate 40 0x62)\<rparr>,
      sr_path = asc ''f'', sr_originalPath = None, sr_score = None, sr_stages = [],
      sr_commitChanged = False, sr_modified = False, sr_untracked = False\<rparr>"

definition sample_appeared :: status_record where
  "sample_appeared =
     \<lparr>sr_kind = Untracked, sr_indexStatus = str ''?'', sr_worktreeStatus = str ''?'', sr_submoduleField = str ''N...'',
      sr_modes = \<lparr>mode_head = None, mode_index = None, mode_worktree = None\<rparr>,
      sr_oids = \<lparr>oid_head = None, oid_index = None\<rparr>,
      sr_path = asc ''g'', sr_originalPath = None, sr_score = None, sr_stages = [],
      sr_commitChanged = False, sr_modified = False, sr_untracked = False\<rparr>"

lemma sample_records_plain: "plain_record sample_modified" "plain_record sample_appeared"
  by (simp_all add: plain_record_def record_wf_def sample_modified_def sample_appeared_def oid_opt_ok_def isObjectName_def
      all_zero_def isHexDigit_def isDigit_def index_entry_of_def plain_def asc_def list_all_iff)

lemma statusIndexKey_exact_witness:
  "statusIndexKey None [sample_modified] \<noteq> statusIndexKey None [sample_appeared, sample_modified] \<and>
   statusIndexKey None [sample_modified, sample_appeared] = statusIndexKey None [sample_appeared, sample_modified]"
  using statusIndexKey_exact [of "[sample_modified]" "[sample_appeared, sample_modified]" None None]
    statusIndexKey_exact [of "[sample_modified, sample_appeared]" "[sample_appeared, sample_modified]" None None]
  by (simp add: sample_records_plain add_mset_commute)

text \<open>For a conflicted path the stages are only counted: their objects may change unseen.\<close>

lemma conflict_contents_unseen:
  "length ss = length (sr_stages r) \<Longrightarrow> statusIndexKey h [r\<lparr>sr_stages := ss\<rparr>] = statusIndexKey h [r]"
  by (simp add: statusIndexKey_def index_entry_of_def split: option.split)

end
