(* ===== verification/JsMap.thy ===== *)
theory JsMap
  imports Prelude "HOL-Library.Multiset"
begin

text \<open>
  The \<^verbatim>\<open>Map\<close> of the language as an association list in insertion order: \<^verbatim>\<open>set\<close> is \<open>AList.update\<close>
  (a known key keeps its place), \<^verbatim>\<open>delete\<close> is \<open>AList.delete\<close>, a loop that deletes entries while it
  runs over the map is \<open>keep\<close>. The locale \<open>eviction\<close> is what the bounded maps of the service
  promise when they make room.
\<close>

type_synonym ('k, 'v) jsmap = "('k \<times> 'v) list"

text \<open>\<^verbatim>\<open>for (const [k, v] of map) if (!P(v)) map.delete(k)\<close>\<close>

definition keep :: "('v \<Rightarrow> bool) \<Rightarrow> ('k, 'v) jsmap \<Rightarrow> ('k, 'v) jsmap" where
  "keep P m = filter (\<lambda>(k, v). P v) m"

text \<open>\<^verbatim>\<open>for (const [k, v] of map) map.set(k, f(v))\<close>\<close>

definition map_vals :: "('v \<Rightarrow> 'v) \<Rightarrow> ('k, 'v) jsmap \<Rightarrow> ('k, 'v) jsmap" where
  "map_vals f m = map (\<lambda>(k, v). (k, f v)) m"

definition keys_distinct :: "('k, 'v) jsmap \<Rightarrow> bool" where
  "keys_distinct m \<longleftrightarrow> distinct (map fst m)"

lemma keys_distinct_simps [simp]: "keys_distinct []"
  by (simp add: keys_distinct_def)

lemma keys_distinct_update [simp]: "keys_distinct m \<Longrightarrow> keys_distinct (AList.update k v m)"
  by (simp add: keys_distinct_def distinct_update)

lemma keys_distinct_filter [simp]: "keys_distinct m \<Longrightarrow> keys_distinct (filter P m)"
  by (simp add: keys_distinct_def distinct_map_filter)

lemma keys_distinct_keep [simp]: "keys_distinct m \<Longrightarrow> keys_distinct (keep P m)"
  by (simp add: keep_def)

lemma keys_distinct_delete [simp]: "keys_distinct m \<Longrightarrow> keys_distinct (AList.delete k m)"
  by (simp add: keys_distinct_def distinct_delete)

lemma map_vals_keys [simp]: "map fst (map_vals f m) = map fst m"
  by (simp add: map_vals_def split_def)

lemma keys_distinct_map_vals [simp]: "keys_distinct m \<Longrightarrow> keys_distinct (map_vals f m)"
  by (simp add: keys_distinct_def)

lemma map_of_map_vals: "map_of (map_vals f m) k = map_option f (map_of m k)"
  by (induction m) (auto simp: map_vals_def)

lemma length_update_le: "length (AList.update k v m) \<le> length m + 1"
  by (induction m) auto

lemma set_update: "keys_distinct m \<Longrightarrow> set (AList.update k v m) = insert (k, v) {p \<in> set m. fst p \<noteq> k}"
  by (induction m) (force simp: keys_distinct_def)+

lemma map_of_iff: "keys_distinct m \<Longrightarrow> map_of m k = Some v \<longleftrightarrow> (k, v) \<in> set m"
  by (simp add: keys_distinct_def map_of_eq_Some_iff)

lemma map_of_keep: "keys_distinct m \<Longrightarrow> map_of (keep P m) k = (case map_of m k of Some v \<Rightarrow> if P v then Some v else None | None \<Rightarrow> None)"
proof -
  assume m: "keys_distinct m"
  then have "map_of (keep P m) k = Some v \<longleftrightarrow> map_of m k = Some v \<and> P v" for v
    by (simp add: map_of_iff [OF m] map_of_iff [OF keys_distinct_keep]) (simp add: keep_def)
  note iff = this
  show ?thesis
  proof (cases "map_of (keep P m) k")
    case None
    then show ?thesis using iff [of "the (map_of m k)"] by (auto split: option.split)
  next
    case (Some v)
    then show ?thesis using iff [of v] by simp
  qed
qed

text \<open>What is left when the oldest entries are deleted until at most \<open>n\<close> are left.\<close>

locale eviction =
  fixes evict :: "nat \<Rightarrow> ('k, 'v) jsmap \<Rightarrow> ('k, 'v) jsmap" and age :: "'v \<Rightarrow> int"
  assumes evict_small: "length m \<le> n \<Longrightarrow> evict n m = m"
    and evict_sub: "keys_distinct m \<Longrightarrow> \<exists>P. evict n m = filter P m"
    and evict_length: "keys_distinct m \<Longrightarrow> length (evict n m) = min n (length m)"
    and evict_oldest: "keys_distinct m \<Longrightarrow> (k, v) \<in> set (evict n m) \<Longrightarrow> (k', v') \<in> set m \<Longrightarrow>
      (k', v') \<notin> set (evict n m) \<Longrightarrow> age v' \<le> age v"
begin

lemma evict_distinct [simp]: "keys_distinct m \<Longrightarrow> keys_distinct (evict n m)"
  by (metis evict_sub keys_distinct_filter)

lemma evict_subset: "keys_distinct m \<Longrightarrow> set (evict n m) \<subseteq> set m"
  by (metis evict_sub filter_is_subset)

lemma evict_lookup: "keys_distinct m \<Longrightarrow> map_of (evict n m) k = Some v \<Longrightarrow> map_of m k = Some v"
  using evict_subset [of m n] by (auto simp: map_of_iff)

text \<open>Room is made before the insertion, so the map may hold one entry more than the bound.\<close>

lemma insert_bound: "keys_distinct m \<Longrightarrow> length (AList.update k v (evict n m)) \<le> n + 1"
  using length_update_le [of k v "evict n m"] evict_length [of m n] by simp

text \<open>An entry that outlives another one that was no older.\<close>

lemma evict_keeps_newer:
  assumes "keys_distinct m" and "map_of (evict n m) k = Some v" and "map_of m k' = Some v'" and "age v < age v'"
  shows "map_of (evict n m) k' = Some v'"
proof (rule ccontr)
  assume "map_of (evict n m) k' \<noteq> Some v'"
  then have "(k', v') \<notin> set (evict n m)" using assms(1) by (simp add: map_of_iff)
  then have "age v' \<le> age v" using assms by (intro evict_oldest [of m k v n k']) (simp_all add: map_of_iff)
  with assms(4) show False by simp
qed

end

section \<open>Deleting the first entries in age order\<close>

definition delete_keys :: "'k list \<Rightarrow> ('k, 'v) jsmap \<Rightarrow> ('k, 'v) jsmap" where
  "delete_keys ks m = fold AList.delete ks m"

lemma delete_keys_filter: "delete_keys ks m = filter (\<lambda>(k, v). k \<notin> set ks) m"
proof (induction ks arbitrary: m)
  case Nil
  then show ?case by (simp add: delete_keys_def)
next
  case (Cons k ks)
  then show ?case by (auto simp: delete_keys_def AList.delete_eq intro!: filter_cong)
qed

lemma delete_first_mset:
  assumes "keys_distinct m" and "mset s = mset m"
  shows "mset (delete_keys (map fst (take n s)) m) = mset (drop n s)"
proof -
  have "mset (map fst s) = mset (map fst m)" using assms(2) by (metis mset_map)
  then have "distinct (map fst s)" using assms(1) mset_eq_imp_distinct_iff unfolding keys_distinct_def by blast
  then have d: "distinct (map fst (take n s) @ map fst (drop n s))" by (metis append_take_drop_id map_append)
  let ?P = "\<lambda>(k, v). k \<notin> set (map fst (take n s))"
  have none: "filter ?P (take n s) = []" by (force simp: filter_empty_conv)
  have all: "filter ?P (drop n s) = drop n s" using d by (force simp: filter_id_conv)
  have "mset (delete_keys (map fst (take n s)) m) = mset (filter ?P s)"
    using assms(2) by (metis delete_keys_filter mset_filter)
  also have "filter ?P s = filter ?P (take n s @ drop n s)" by (simp only: append_take_drop_id)
  also have "\<dots> = drop n s" by (simp only: filter_append none all append_Nil)
  finally show ?thesis .
qed

text \<open>The deletion of the \<open>size - n\<close> first entries in age order is an eviction.\<close>

lemma eviction_of_oldest:
  fixes age :: "'v \<Rightarrow> int" and evict :: "nat \<Rightarrow> ('k, 'v) jsmap \<Rightarrow> ('k, 'v) jsmap"
  assumes small: "\<And>n m. length m \<le> n \<Longrightarrow> evict n m = m"
    and sub: "\<And>n m. \<exists>P. evict n m = filter P m"
    and evict: "\<And>n m. keys_distinct m \<Longrightarrow> \<not> length m \<le> n \<Longrightarrow>
      evict n m = delete_keys (map fst (take (length m - n) (sort_key (\<lambda>p. age (snd p)) m))) m"
  shows "eviction evict age"
proof
  fix m :: "('k, 'v) jsmap" and n
  show "length m \<le> n \<Longrightarrow> evict n m = m" by (rule small)
  show "\<exists>P. evict n m = filter P m" by (rule sub)
  assume m: "keys_distinct m"
  let ?s = "sort_key (\<lambda>p. age (snd p)) m" and ?d = "length m - n"
  have left: "mset (evict n m) = mset (drop ?d ?s)" if "\<not> length m \<le> n"
    using delete_first_mset [OF m, of ?s ?d] that m by (simp add: evict)
  show "length (evict n m) = min n (length m)"
  proof (cases "length m \<le> n")
    case False
    then show ?thesis using arg_cong [OF left, of size] by (simp add: min_def)
  qed (simp add: small)
  fix k v k' v'
  assume k: "(k, v) \<in> set (evict n m)" "(k', v') \<in> set m" "(k', v') \<notin> set (evict n m)"
  then have big: "\<not> length m \<le> n" by (auto simp: small)
  have late: "(k, v) \<in> set (drop ?d ?s)" and "(k', v') \<notin> set (drop ?d ?s)"
    using k mset_eq_setD [OF left [OF big]] by simp_all
  moreover have "set m = set (take ?d ?s) \<union> set (drop ?d ?s)" by (metis append_take_drop_id set_append set_sort)
  then have "(k', v') \<in> set (take ?d ?s) \<union> set (drop ?d ?s)" using k(2) by blast
  ultimately have "(k', v') \<in> set (take ?d ?s)" by blast
  moreover have "sorted (map (\<lambda>p. age (snd p)) (take ?d ?s @ drop ?d ?s))" by (simp only: append_take_drop_id) simp
  then have "\<forall>x\<in>set (take ?d ?s). \<forall>y\<in>set (drop ?d ?s). age (snd x) \<le> age (snd y)"
    unfolding map_append sorted_append by auto
  ultimately show "age v' \<le> age v" using late by fastforce
qed

text \<open>
  The same by a loop: while the map is too big, sort its entries and delete the first
  (\<^verbatim>\<open>while (map.size > n) { const oldest = [...map.entries()].sort(...)[0]; map.delete(oldest[0]) }\<close>).
\<close>

lemma delete_shorter: "p \<in> set m \<Longrightarrow> length (AList.delete (fst p) m) < length m"
  by (auto simp: AList.delete_eq intro: length_filter_less)

function evict_loop :: "('v \<Rightarrow> int) \<Rightarrow> nat \<Rightarrow> ('k, 'v) jsmap \<Rightarrow> ('k, 'v) jsmap" where
  "evict_loop age n m =
     (if length m > n
      then (case sort_key (\<lambda>p. age (snd p)) m of
              [] \<Rightarrow> m
            | oldest # _ \<Rightarrow> evict_loop age n (AList.delete (fst oldest) m))
      else m)"
  by pat_completeness auto
termination
proof (relation "measure (\<lambda>(_, _, m). length m)")
  fix age :: "'v \<Rightarrow> int" and n and m :: "('k, 'v) jsmap" and p ps
  assume "sort_key (\<lambda>p. age (snd p)) m = p # ps"
  then have "p \<in> set (sort_key (\<lambda>p. age (snd p)) m)" by simp
  then have "p \<in> set m" by simp
  then show "((age, n, AList.delete (fst p) m), (age, n, m)) \<in> measure (\<lambda>(_, _, m). length m)"
    by (simp add: delete_shorter)
qed simp

declare evict_loop.simps [simp del]

lemma evict_loop_small: "length m \<le> n \<Longrightarrow> evict_loop age n m = m"
  by (subst evict_loop.simps) simp

lemma evict_loop_turn:
  "length m > n \<Longrightarrow> sort_key (\<lambda>p. age (snd p)) m = p # ps \<Longrightarrow>
   evict_loop age n m = evict_loop age n (AList.delete (fst p) m)"
  by (subst evict_loop.simps) simp

lemma evict_loop_filter: "\<exists>P. evict_loop age n m = filter P m"
proof (induction age n m rule: evict_loop.induct)
  case (1 age n m)
  show ?case
  proof (cases "length m > n")
    case True
    then obtain p ps where s: "sort_key (\<lambda>p. age (snd p)) m = p # ps"
      by (cases "sort_key (\<lambda>p. age (snd p)) m") (auto dest: arg_cong [of _ _ length])
    from 1 [OF True s] obtain P where P: "evict_loop age n (AList.delete (fst p) m) = filter P (AList.delete (fst p) m)" by blast
    have "filter P (AList.delete (fst p) m) = filter (\<lambda>q. P q \<and> fst q \<noteq> fst p) m"
      by (auto simp: AList.delete_eq split_def intro!: filter_cong)
    then show ?thesis using evict_loop_turn [OF True s] P by auto
  qed (auto simp: evict_loop_small intro: exI [of _ "\<lambda>_. True"])
qed

lemma delete_sorted:
  assumes "keys_distinct m" and s: "sort_key (\<lambda>p. age (snd p)) m = p # ps"
  shows "sort_key (\<lambda>p. age (snd p)) (AList.delete (fst p) m) = ps"
proof -
  have "distinct (map fst (sort_key (\<lambda>p. age (snd p)) m))"
    using assms(1) unfolding keys_distinct_def
    by (metis mset_eq_imp_distinct_iff mset_map mset_sort)
  then have "fst p \<notin> fst ` set ps" by (simp add: s)
  then have ps: "filter (\<lambda>q. fst q \<noteq> fst p) (p # ps) = ps" by (auto simp: filter_id_conv image_iff)
  have "sort_key (\<lambda>p. age (snd p)) (AList.delete (fst p) m) = filter (\<lambda>q. fst q \<noteq> fst p) (sort_key (\<lambda>p. age (snd p)) m)"
    by (simp add: AList.delete_eq split_def filter_sort) (simp add: eq_commute)
  also have "\<dots> = ps" unfolding s by (rule ps)
  finally show ?thesis .
qed

lemma evict_loop_eq:
  assumes "keys_distinct m" and "\<not> length m \<le> n"
  shows "evict_loop age n m = delete_keys (map fst (take (length m - n) (sort_key (\<lambda>p. age (snd p)) m))) m"
  using assms
proof (induction age n m rule: evict_loop.induct)
  case (1 age n m)
  let ?f = "\<lambda>p. age (snd p)"
  obtain p ps where s: "sort_key ?f m = p # ps"
    using 1(3) by (cases "sort_key ?f m") (auto dest: arg_cong [of _ _ length])
  let ?m = "AList.delete (fst p) m"
  have big: "length m > n" using 1(3) by simp
  have s': "sort_key ?f ?m = ps" using 1(2) s by (rule delete_sorted)
  have len: "length m = Suc (length ?m)"
    using arg_cong [OF s, of length] arg_cong [OF s', of length] by simp
  have "evict_loop age n ?m = delete_keys (map fst (take (length ?m - n) ps)) ?m"
  proof (cases "length ?m \<le> n")
    case True
    then show ?thesis by (simp add: evict_loop_small delete_keys_def)
  next
    case False
    then show ?thesis using 1(1) [OF big s] 1(2) s' by simp
  qed
  moreover have "length m - n = Suc (length ?m - n)" using len big by simp
  ultimately show ?case using evict_loop_turn [OF big s] by (simp add: s delete_keys_def)
qed

interpretation evicting: eviction "evict_loop age" age for age :: "'v \<Rightarrow> int"
  by (rule eviction_of_oldest) (simp_all add: evict_loop_small evict_loop_filter evict_loop_eq)

end
