(* ===== verification/Snapshots.thy ===== *)
theory Snapshots
  imports JsMap
begin

text \<open>
  Read snapshots and paging cursors: \<^verbatim>\<open>packages/host-node/src/coordinator/snapshots.ts\<close> and
  \<^verbatim>\<open>snapshot-types.ts\<close>. The record \<open>snapshot_store\<close> holds the two maps of \<^verbatim>\<open>createSnapshotStore\<close>; the
  clock readings and the random ids are arguments. The lemmas show that the store is bounded and
  that a cursor resolves to the page it was minted for, for its lifetime only, or not at all.
\<close>

datatype snapshot_kind = SnapStatus | SnapHistory | SnapRefs | SnapDiff | SnapWorktrees | SnapSubmodules | SnapStashes

datatype topology = Continuous | Sparse

record history_intent =
  hi_firstParentOnly :: bool
  hi_message :: "jsstring option"
  hi_author :: "jsstring option"
  hi_resolvedRefOid :: "jsstring option"
  hi_committedAfterSeconds :: "int option"
  hi_committedBeforeSeconds :: "int option"
  hi_resolvedPathText :: "jsstring option"
  hi_oid :: "jsstring option"
  hi_oidLookup :: bool
  hi_topology :: topology

record cursor_payload =
  cp_snapshotId :: jsstring
  cp_skip :: int
  cp_limit :: int
  cp_kind :: snapshot_kind
  cp_repositoryId :: jsstring
  cp_worktreeId :: "jsstring option"

record snapshot_record =
  sn_snapshotId :: jsstring
  sn_kind :: snapshot_kind
  sn_repositoryId :: jsstring
  sn_worktreeId :: "jsstring option"
  sn_createdAtMs :: int
  sn_tips :: "jsstring list"
  sn_headOid :: "jsstring option"
  sn_observedRefsFingerprint :: "jsstring option"
  sn_historyIntent :: "history_intent option"
  sn_indexKey :: "jsstring option"

record snapshot_input =
  si_kind :: snapshot_kind
  si_repositoryId :: jsstring
  si_worktreeId :: "jsstring option"
  si_tips :: "jsstring list option"
  si_headOid :: "jsstring option"
  si_indexKey :: "jsstring option"
  si_observedRefsFingerprint :: "jsstring option"
  si_historyIntent :: "history_intent option"

record cursor_record =
  cr_payload :: cursor_payload
  cr_createdAtMs :: int
  cr_expiresAtMs :: int

record snapshot_store =
  sp_records :: "(jsstring, snapshot_record) jsmap"
  sp_cursors :: "(jsstring, cursor_record) jsmap"

record snapshot_options =
  so_maxEntries :: nat
  so_cursorTtlMs :: int

definition DEFAULT_MAX_ENTRIES :: nat where "DEFAULT_MAX_ENTRIES = 4096"

definition SNAPSHOT_TTL_MS :: int where "SNAPSHOT_TTL_MS = 30 * 60 * 1000"

definition snapshotOptions :: "nat option \<Rightarrow> int option \<Rightarrow> snapshot_options" where
  "snapshotOptions maxEntries cursorTtlSeconds =
     \<lparr>so_maxEntries = (case maxEntries of None \<Rightarrow> DEFAULT_MAX_ENTRIES | Some n \<Rightarrow> n),
      so_cursorTtlMs = (case cursorTtlSeconds of None \<Rightarrow> SNAPSHOT_TTL_MS div 1000 | Some s \<Rightarrow> s) * 1000\<rparr>"

definition createSnapshotStore :: snapshot_store where
  "createSnapshotStore = \<lparr>sp_records = [], sp_cursors = []\<rparr>"

definition trimOldest :: "('v \<Rightarrow> int) \<Rightarrow> nat \<Rightarrow> (jsstring, 'v) jsmap \<Rightarrow> (jsstring, 'v) jsmap" where
  "trimOldest createdAt maxEntries m =
     (if length m \<le> maxEntries then m
      else (let byAge = sort_key (\<lambda>p. createdAt (snd p)) m
            in delete_keys (map fst (take (length m - maxEntries) byAge)) m))"

definition snapshot_prune :: "snapshot_options \<Rightarrow> int \<Rightarrow> snapshot_store \<Rightarrow> snapshot_store" where
  "snapshot_prune opts current st =
     (let records = keep (\<lambda>r. \<not> sn_createdAtMs r < current - SNAPSHOT_TTL_MS) (sp_records st);
          cursors = keep (\<lambda>c. \<not> cr_expiresAtMs c \<le> current) (sp_cursors st)
      in \<lparr>sp_records = trimOldest sn_createdAtMs (so_maxEntries opts) records,
          sp_cursors = trimOldest cr_createdAtMs (so_maxEntries opts) cursors\<rparr>)"

definition snapshot_create ::
  "snapshot_options \<Rightarrow> int \<Rightarrow> int \<Rightarrow> jsstring \<Rightarrow> snapshot_input \<Rightarrow> snapshot_store \<Rightarrow> snapshot_store \<times> snapshot_record" where
  "snapshot_create opts t1 t2 snapshotId i st =
     (let st = snapshot_prune opts t1 st;
          record = \<lparr>sn_snapshotId = snapshotId, sn_kind = si_kind i, sn_repositoryId = si_repositoryId i,
            sn_worktreeId = si_worktreeId i, sn_createdAtMs = t2,
            sn_tips = (case si_tips i of None \<Rightarrow> [] | Some ts \<Rightarrow> ts), sn_headOid = si_headOid i,
            sn_observedRefsFingerprint = si_observedRefsFingerprint i, sn_historyIntent = si_historyIntent i,
            sn_indexKey = si_indexKey i\<rparr>
      in (st\<lparr>sp_records := AList.update snapshotId record (sp_records st)\<rparr>, record))"

definition snapshot_get :: "jsstring \<Rightarrow> snapshot_store \<Rightarrow> snapshot_record option" where
  "snapshot_get snapshotId st = map_of (sp_records st) snapshotId"

text \<open>\<^verbatim>\<open>`cur_${randomBytes(18).toString("base64url")}`\<close>: the random part is an argument.\<close>

definition createCursor ::
  "snapshot_options \<Rightarrow> int \<Rightarrow> int \<Rightarrow> jsstring \<Rightarrow> cursor_payload \<Rightarrow> snapshot_store \<Rightarrow> snapshot_store \<times> jsstring" where
  "createCursor opts t1 t2 random payload st =
     (let st = snapshot_prune opts t1 st;
          cursorId = str ''cur_'' @ random
      in (st\<lparr>sp_cursors := AList.update cursorId
              \<lparr>cr_payload = payload, cr_createdAtMs = t2, cr_expiresAtMs = t2 + so_cursorTtlMs opts\<rparr> (sp_cursors st)\<rparr>,
          cursorId))"

datatype cursor_result = CursorOk cursor_payload | CursorMalformed | CursorUnknown | CursorExpired

definition isBase64Url :: "code_unit \<Rightarrow> bool" where
  "isBase64Url c \<longleftrightarrow> isDigit c \<or> (0x41 \<le> c \<and> c \<le> 0x5a) \<or> (0x61 \<le> c \<and> c \<le> 0x7a) \<or> c = 0x5f \<or> c = 0x2d"

text \<open>\<^verbatim>\<open>/^cur_[A-Za-z0-9_-]{1,96}$/\<close>\<close>

definition cursor_shape :: "jsstring \<Rightarrow> bool" where
  "cursor_shape s \<longleftrightarrow>
     startsWith s (str ''cur_'') \<and> (let t = drop 4 s in 1 \<le> length t \<and> length t \<le> 96 \<and> list_all isBase64Url t)"

definition resolveCursor :: "int \<Rightarrow> jsstring \<Rightarrow> snapshot_store \<Rightarrow> snapshot_store \<times> cursor_result" where
  "resolveCursor current cursor st =
     (if \<not> cursor_shape cursor then (st, CursorMalformed)
      else (case map_of (sp_cursors st) cursor of
          None \<Rightarrow> (st, CursorUnknown)
        | Some found \<Rightarrow>
            if cr_expiresAtMs found \<le> current
            then (st\<lparr>sp_cursors := AList.delete cursor (sp_cursors st)\<rparr>, CursorExpired)
            else (st, CursorOk (cr_payload found))))"

definition snapshot_size :: "snapshot_store \<Rightarrow> nat" where
  "snapshot_size st = length (sp_records st)"

section \<open>Trimming is an eviction\<close>

interpretation trim: eviction "trimOldest createdAt" createdAt for createdAt :: "'v \<Rightarrow> int"
proof (rule eviction_of_oldest)
  show "\<exists>P. trimOldest createdAt n m = filter P m" for n and m :: "(jsstring, 'v) jsmap"
    by (cases "length m \<le> n") (auto simp: trimOldest_def Let_def delete_keys_filter intro: exI [of _ "\<lambda>_. True"])
qed (simp_all add: trimOldest_def Let_def)

section \<open>The store is bounded\<close>

text \<open>The operations of the store, at any times and with any ids.\<close>

inductive snapshot_step :: "snapshot_options \<Rightarrow> snapshot_store \<Rightarrow> snapshot_store \<Rightarrow> bool" for opts where
  create: "snapshot_step opts st (fst (snapshot_create opts t1 t2 i input st))"
| cursor: "snapshot_step opts st (fst (createCursor opts t1 t2 random payload st))"
| resolve: "snapshot_step opts st (fst (resolveCursor t cursor st))"
| prune: "snapshot_step opts st (snapshot_prune opts t st)"

definition snapshot_inv :: "snapshot_options \<Rightarrow> snapshot_store \<Rightarrow> bool" where
  "snapshot_inv opts st \<longleftrightarrow>
     keys_distinct (sp_records st) \<and> keys_distinct (sp_cursors st) \<and>
     length (sp_records st) \<le> so_maxEntries opts + 1 \<and> length (sp_cursors st) \<le> so_maxEntries opts + 1"

definition pruned_inv :: "snapshot_options \<Rightarrow> snapshot_store \<Rightarrow> bool" where
  "pruned_inv opts st \<longleftrightarrow>
     keys_distinct (sp_records st) \<and> keys_distinct (sp_cursors st) \<and>
     length (sp_records st) \<le> so_maxEntries opts \<and> length (sp_cursors st) \<le> so_maxEntries opts"

lemma prune_inv: "snapshot_inv opts st \<Longrightarrow> pruned_inv opts (snapshot_prune opts t st)"
  by (simp add: snapshot_inv_def pruned_inv_def snapshot_prune_def Let_def trim.evict_length)

lemma pruned_snapshot_inv: "pruned_inv opts st \<Longrightarrow> snapshot_inv opts st"
  by (simp add: snapshot_inv_def pruned_inv_def)

lemma delete_length: "length (AList.delete k m) \<le> length m"
  by (simp add: AList.delete_eq)

interpretation snapshots: transition_system
  "\<lambda>st. st = createSnapshotStore" "snapshot_step opts" "snapshot_inv opts" for opts
proof
  fix st assume "st = createSnapshotStore"
  then show "snapshot_inv opts st" by (simp add: createSnapshotStore_def snapshot_inv_def)
next
  fix st st' assume "snapshot_step opts st st'" and inv: "snapshot_inv opts st"
  then show "snapshot_inv opts st'"
  proof cases
    case (create t1 t2 i input)
    have "pruned_inv opts (snapshot_prune opts t1 st)" using inv by (rule prune_inv)
    then show ?thesis unfolding create
      by (auto simp: snapshot_create_def Let_def snapshot_inv_def pruned_inv_def intro: le_trans [OF length_update_le])
  next
    case (cursor t1 t2 random payload)
    have "pruned_inv opts (snapshot_prune opts t1 st)" using inv by (rule prune_inv)
    then show ?thesis unfolding cursor
      by (auto simp: createCursor_def Let_def snapshot_inv_def pruned_inv_def intro: le_trans [OF length_update_le])
  next
    case (resolve t cur)
    then show ?thesis using inv
      by (auto simp: resolveCursor_def snapshot_inv_def split: option.split intro: le_trans [OF delete_length])
  next
    case (prune t)
    then show ?thesis using prune_inv [OF inv] pruned_snapshot_inv by simp
  qed
qed

text \<open>
  Whatever sequence of operations ran, the store holds at most one snapshot and one cursor more
  than its bound (room is made before an insertion, not after it), and right after a pruning
  at most the bound of each.
\<close>

theorem snapshots_bounded:
  assumes "(snapshot_step opts)\<^sup>*\<^sup>* createSnapshotStore st"
  shows "snapshot_size st \<le> so_maxEntries opts + 1 \<and> length (sp_cursors st) \<le> so_maxEntries opts + 1 \<and>
    snapshot_size (snapshot_prune opts t st) \<le> so_maxEntries opts"
  using snapshots.reachable_inv [OF refl assms] prune_inv [of opts st t]
  by (simp add: snapshot_size_def snapshot_inv_def pruned_inv_def)

section \<open>A cursor resolves to its page or not at all\<close>

text \<open>Steps that mint no cursor with the same random part.\<close>

inductive other_step :: "snapshot_options \<Rightarrow> jsstring \<Rightarrow> snapshot_store \<Rightarrow> snapshot_store \<Rightarrow> bool" for opts c where
  o_create: "other_step opts c st (fst (snapshot_create opts t1 t2 i input st))"
| o_cursor: "str ''cur_'' @ random \<noteq> c \<Longrightarrow> other_step opts c st (fst (createCursor opts t1 t2 random payload st))"
| o_resolve: "other_step opts c st (fst (resolveCursor t cursor st))"
| o_prune: "other_step opts c st (snapshot_prune opts t st)"

lemma other_step_step: "other_step opts c st st' \<Longrightarrow> snapshot_step opts st st'"
  by (induction rule: other_step.induct) (auto intro: snapshot_step.intros)

text \<open>The cursor is as it was minted, or gone.\<close>

definition minted :: "jsstring \<Rightarrow> cursor_record \<Rightarrow> snapshot_store \<Rightarrow> bool" where
  "minted c r st \<longleftrightarrow> (case map_of (sp_cursors st) c of None \<Rightarrow> True | Some x \<Rightarrow> x = r)"

lemma prune_minted: "snapshot_inv opts st \<Longrightarrow> minted c r st \<Longrightarrow> minted c r (snapshot_prune opts t st)"
proof -
  assume inv: "snapshot_inv opts st" and m: "minted c r st"
  have "x = r" if "map_of (trimOldest cr_createdAtMs n (keep P (sp_cursors st))) c = Some x" for x n P
    using trim.evict_lookup [OF _ that] inv m by (auto simp: snapshot_inv_def map_of_keep minted_def split: option.splits if_splits)
  then show ?thesis by (auto simp: minted_def snapshot_prune_def Let_def split: option.split)
qed

lemma other_step_minted:
  assumes "other_step opts c st st'" and "snapshot_inv opts st" and "minted c r st"
  shows "minted c r st'"
  using assms(1)
proof cases
  case (o_create t1 t2 i input)
  with prune_minted [OF assms(2,3)] show ?thesis by (simp add: snapshot_create_def Let_def minted_def)
next
  case (o_cursor random t1 t2 payload)
  with prune_minted [OF assms(2,3), of t1] show ?thesis
    by (simp add: createCursor_def Let_def minted_def AList.update_conv' del: str_simps)
next
  case (o_resolve t cursor)
  with assms(3) show ?thesis
    by (auto simp: resolveCursor_def minted_def delete_conv' split: option.split)
next
  case (o_prune t)
  with prune_minted [OF assms(2,3)] show ?thesis by simp
qed

lemma other_steps_minted:
  "(other_step opts c)\<^sup>*\<^sup>* st st' \<Longrightarrow> snapshot_inv opts st \<Longrightarrow> minted c r st \<Longrightarrow> snapshot_inv opts st' \<and> minted c r st'"
  by (induction rule: rtranclp_induct) (auto intro: other_step_minted snapshots.step_inv other_step_step)

text \<open>
  A cursor that a client presents after any other operations is resolved to exactly the page it was
  minted for and only while its lifetime lasts, or it is refused: it can not be pointed at
  another page, repository or snapshot. Right after it was minted it is resolved, within its
  lifetime.
\<close>

theorem cursor_resolves_its_page:
  assumes "(snapshot_step opts)\<^sup>*\<^sup>* createSnapshotStore st"
    and "createCursor opts t1 t2 random payload st = (st', c)" and "(other_step opts c)\<^sup>*\<^sup>* st' st''"
  shows "(snd (resolveCursor t c st'') = CursorOk p \<longrightarrow> p = payload \<and> t < t2 + so_cursorTtlMs opts) \<and>
    (cursor_shape c \<and> t < t2 + so_cursorTtlMs opts \<longrightarrow> snd (resolveCursor t c st') = CursorOk payload)"
proof -
  let ?r = "\<lparr>cr_payload = payload, cr_createdAtMs = t2, cr_expiresAtMs = t2 + so_cursorTtlMs opts\<rparr>"
  have st': "st' = fst (createCursor opts t1 t2 random payload st)" using assms(2) by simp
  have "snapshot_inv opts st'" unfolding st'
    using snapshots.step_inv [OF snapshot_step.cursor snapshots.reachable_inv [OF refl assms(1)]] .
  moreover have now: "map_of (sp_cursors st') c = Some ?r"
    using assms(2) by (auto simp: createCursor_def Let_def AList.update_conv' simp del: str_simps)
  then have "minted c ?r st'" by (simp add: minted_def)
  ultimately have "minted c ?r st''" using other_steps_minted [OF assms(3)] by blast
  with now show ?thesis
    by (auto simp: resolveCursor_def minted_def split: option.splits if_splits)
qed

text \<open>A snapshot is looked up without regard to its age: only a pruning forgets it.\<close>

lemma snapshot_get_any_age:
  "snapshot_get i (fst (snapshot_create opts t1 t2 i input st)) = Some (snd (snapshot_create opts t1 t2 i input st))"
  by (simp add: snapshot_get_def snapshot_create_def Let_def AList.update_conv')

section \<open>Witnesses\<close>

definition sample_payload :: cursor_payload where
  "sample_payload = \<lparr>cp_snapshotId = str ''s'', cp_skip = 50, cp_limit = 50, cp_kind = SnapHistory,
     cp_repositoryId = str ''r'', cp_worktreeId = None\<rparr>"

definition sample_options :: snapshot_options where
  "sample_options = \<lparr>so_maxEntries = 1, so_cursorTtlMs = 10\<rparr>"

definition sample_cursor_store :: "snapshot_store \<times> jsstring" where
  "sample_cursor_store = createCursor sample_options 0 0 (str ''x'') sample_payload createSnapshotStore"

lemma sample_cursor_reachable: "(snapshot_step sample_options)\<^sup>*\<^sup>* createSnapshotStore (fst sample_cursor_store)"
  unfolding sample_cursor_store_def by (rule r_into_rtranclp) (rule snapshot_step.cursor)

lemma snapshots_bounded_witness:
  "snapshot_size (fst sample_cursor_store) \<le> 2 \<and> length (sp_cursors (fst sample_cursor_store)) \<le> 2"
  using snapshots_bounded [OF sample_cursor_reachable, of 0] by (simp add: sample_options_def)

lemma cursor_resolves_its_page_witness:
  "snd (resolveCursor 9 (str ''cur_x'') (fst sample_cursor_store)) = CursorOk sample_payload"
proof -
  have "createCursor sample_options 0 0 (str ''x'') sample_payload createSnapshotStore =
      (fst sample_cursor_store, str ''cur_x'')"
    by (simp add: sample_cursor_store_def createCursor_def Let_def)
  moreover have "cursor_shape (str ''cur_x'')"
    by (simp add: cursor_shape_def startsWith_def isBase64Url_def isDigit_def Let_def)
  ultimately show ?thesis
    using cursor_resolves_its_page [OF rtranclp.rtrancl_refl, of sample_options 0 0 "str ''x''" sample_payload
        "fst sample_cursor_store" "str ''cur_x''" "fst sample_cursor_store" 9]
    by (simp add: sample_options_def del: str_simps)
qed

end
