(* ===== verification/Submit.thy ===== *)
theory Submit
  imports Preconditions Snapshots Recovery
begin

text \<open>
  The facts a submission is judged by: \<^verbatim>\<open>packages/host-node/src/coordinator/submit.ts\<close> and
  \<^verbatim>\<open>failures.ts\<close>, with the targets of \<^verbatim>\<open>packages/git-contract/src/targets.ts\<close>. The registry and the reads
  of Git are the fields of \<open>read_layer\<close>; the blocks are those of \<open>Recovery\<close>, the snapshots those of
  \<open>Snapshots\<close>. The lemmas show what is known of a repository when a write to it is let through.
\<close>

section \<open>Requests\<close>

datatype mutation_target =
    WorkspaceTarget (allowedRootId: jsstring) (relativeDestination: jsstring)
  | RepositoryTarget (repositoryId: jsstring) (expectedSnapshotId: jsstring)
  | WorktreeTarget (repositoryId: jsstring) (worktreeId: jsstring) (expectedSnapshotId: jsstring)

record mutation_request =
  rq_clientRequestId :: jsstring
  rq_target :: mutation_target
  rq_kind :: jsstring
  rq_operation :: "(jsstring \<times> jsvalue) list"

fun target_json :: "mutation_target \<Rightarrow> jsvalue" where
  "target_json (WorkspaceTarget r d) = JObject
     [(str ''kind'', JString (str ''workspace'')), (str ''allowedRootId'', JString r), (str ''relativeDestination'', JString d)]"
| "target_json (RepositoryTarget r s) = JObject
     [(str ''kind'', JString (str ''repository'')), (str ''repositoryId'', JString r), (str ''expectedSnapshotId'', JString s)]"
| "target_json (WorktreeTarget r w s) = JObject
     [(str ''kind'', JString (str ''worktree'')), (str ''repositoryId'', JString r), (str ''worktreeId'', JString w),
      (str ''expectedSnapshotId'', JString s)]"

definition request_json :: "mutation_request \<Rightarrow> jsvalue" where
  "request_json r = JObject
     [(str ''clientRequestId'', JString (rq_clientRequestId r)), (str ''target'', target_json (rq_target r)),
      (str ''operation'', JObject ((str ''kind'', JString (rq_kind r)) # rq_operation r))]"

definition WORKSPACE_WRITE_KEY_PREFIX :: jsstring where "WORKSPACE_WRITE_KEY_PREFIX = str ''root:''"

fun writeKeyOfTarget :: "mutation_target \<Rightarrow> jsstring option" where
  "writeKeyOfTarget (WorkspaceTarget r d) = (if r = [] then None else Some (WORKSPACE_WRITE_KEY_PREFIX @ r))"
| "writeKeyOfTarget (RepositoryTarget r s) = Some r"
| "writeKeyOfTarget (WorktreeTarget r w s) = Some r"

definition isRepositoryWriteKey :: "jsstring \<Rightarrow> bool" where
  "isRepositoryWriteKey key \<longleftrightarrow> \<not> startsWith key WORKSPACE_WRITE_KEY_PREFIX"

fun repositoryIdOfTarget :: "mutation_target \<Rightarrow> jsstring option" where
  "repositoryIdOfTarget (WorkspaceTarget r d) = None"
| "repositoryIdOfTarget (RepositoryTarget r s) = Some r"
| "repositoryIdOfTarget (WorktreeTarget r w s) = Some r"

section \<open>Failures\<close>

text \<open>A thrown value: the two classes the code knows, an \<^verbatim>\<open>Error\<close> with its message, or anything else.\<close>

datatype thrown =
    GitWorkflowError (thrown_code: string) (thrown_message: jsstring) (thrown_diagnostic: jsstring)
  | HandleError (thrown_code: string) (thrown_message: jsstring)
  | ThrownError (thrown_message: jsstring)
  | ThrownValue

definition DIAGNOSTIC_MAX_CHARS :: nat where "DIAGNOSTIC_MAX_CHARS = 500"

definition failure_code :: "string \<Rightarrow> string" where
  "failure_code code =
     (if code = ''GitTimedOut'' then ''Timeout''
      else if code = ''GitNotStarted'' then ''Unavailable''
      else if code = ''GitOutputLimitExceeded'' then ''LimitExceeded''
      else if code = ''GitOutputUnparsable'' \<or> code = ''GitOutputIncomplete'' \<or> code = ''ObjectMissing'' then ''InternalError''
      else ''GitCommandFailed'')"

fun readFailureOf :: "thrown \<Rightarrow> refusal option" where
  "readFailureOf (GitWorkflowError code message diagnostic) =
     (let d = js_trim diagnostic
      in Some \<lparr>rf_code = failure_code code,
           rf_message = (if d = [] then message else message @ str '': '' @ take DIAGNOSTIC_MAX_CHARS d),
           rf_retryable = Some (failure_code code = ''Timeout'')\<rparr>)"
| "readFailureOf (HandleError code message) = Some \<lparr>rf_code = code, rf_message = message, rf_retryable = Some False\<rparr>"
| "readFailureOf _ = None"

fun refusalOf :: "thrown \<Rightarrow> string \<times> jsstring" where
  "refusalOf e =
     (case readFailureOf e of
        Some f \<Rightarrow> (rf_code f, rf_message f)
      | None \<Rightarrow> (''InternalError'',
          (case e of ThrownError m \<Rightarrow> m | _ \<Rightarrow> str ''the repository's state could not be read'')))"

definition bareRefusalOf :: "jsstring \<Rightarrow> string \<times> jsstring" where
  "bareRefusalOf displayPath = (''UnsupportedOperation'', displayPath @
     str '' is a bare repository: it has no working tree, so this build refuses to write to it. Its refs and history can still be read.'')"

section \<open>The markers of an operation in progress\<close>

definition OPERATION_MARKERS :: "(jsstring \<times> jsstring) list" where
  "OPERATION_MARKERS =
     [(str ''MERGE_HEAD'', str ''merge''), (str ''CHERRY_PICK_HEAD'', str ''cherry-pick''),
      (str ''REVERT_HEAD'', str ''revert''), (str ''rebase-merge'', str ''rebase''),
      (str ''rebase-apply'', str ''rebase''), (str ''BISECT_LOG'', str ''bisect'')]"

fun first_known :: "jsstring list \<Rightarrow> jsstring option" where
  "first_known [] = None"
| "first_known (m # ms) = (case map_of OPERATION_MARKERS m of Some opr \<Rightarrow> Some opr | None \<Rightarrow> first_known ms)"

definition operationFromMarkers :: "jsstring list \<Rightarrow> jsstring option" where
  "operationFromMarkers markers =
     (if markers = [] then None
      else Some (case first_known markers of Some opr \<Rightarrow> opr | None \<Rightarrow> str ''unknown''))"

section \<open>The context of a submission\<close>

record repository_record =
  rr_bare :: bool
  rr_displayPath :: jsstring

record worktree_record =
  wr_displayPath :: jsstring
  wr_handle :: "jsstring option"

record status_facts =
  sf_headOid :: "jsstring option"
  sf_records :: "status_record list"
  sf_operationInProgress :: "jsstring option"

text \<open>
  The registry and the reads of Git. \<open>ly_facts\<close> stands for the whole \<^verbatim>\<open>try\<close> block that reads the Head and
  the status of a worktree.
\<close>

record read_layer =
  ly_require :: "jsstring \<Rightarrow> thrown + repository_record"
  ly_worktree :: "jsstring \<Rightarrow> jsstring option \<Rightarrow> thrown + worktree_record"
  ly_facts :: "repository_record \<Rightarrow> worktree_record \<Rightarrow> thrown + jsstring option \<times> status_facts"

definition refused :: "string \<Rightarrow> jsstring \<Rightarrow> bool \<Rightarrow> precondition_context" where
  "refused code message retryable =
     \<lparr>pc_snapshotHeadOid = None, pc_currentHeadOid = None, pc_indexUnchanged = False, pc_operationInProgress = None,
      pc_mayRunDuring = None, pc_restartBlock = None, pc_previewChecks = None,
      pc_refusal = Some \<lparr>rf_code = code, rf_message = message, rf_retryable = Some retryable\<rparr>\<rparr>"

definition blocked_context :: "bool \<Rightarrow> restart_block option \<Rightarrow> precondition_context" where
  "blocked_context indexUnchanged block =
     \<lparr>pc_snapshotHeadOid = None, pc_currentHeadOid = None, pc_indexUnchanged = indexUnchanged,
      pc_operationInProgress = None, pc_mayRunDuring = None, pc_restartBlock = block,
      pc_previewChecks = None, pc_refusal = None\<rparr>"

definition restart_block_of :: "write_block \<Rightarrow> restart_block" where
  "restart_block_of b = \<lparr>rb_reason = str (wb_reason b), rb_operationIds = wb_operationIds b\<rparr>"

definition currentIndexKey :: "status_facts \<Rightarrow> jsstring" where
  "currentIndexKey facts = statusIndexKey (sf_headOid facts) (sf_records facts)"

definition facts_context ::
  "write_block option \<Rightarrow> snapshot_record option \<Rightarrow> jsstring \<Rightarrow> jsstring option \<times> status_facts \<Rightarrow> precondition_context" where
  "facts_context block snapshot kind facts =
     (case facts of (headOid, status) \<Rightarrow>
       \<lparr>pc_snapshotHeadOid = (case snapshot of None \<Rightarrow> None | Some s \<Rightarrow> sn_headOid s),
        pc_currentHeadOid = headOid,
        pc_indexUnchanged = (case snapshot of None \<Rightarrow> False
          | Some s \<Rightarrow> (case sn_indexKey s of None \<Rightarrow> True | Some k \<Rightarrow> k = currentIndexKey status)),
        pc_operationInProgress = sf_operationInProgress status,
        pc_mayRunDuring = Some (mayRunDuringOperation kind),
        pc_restartBlock = map_option restart_block_of block,
        pc_previewChecks = None, pc_refusal = None\<rparr>)"

text \<open>\<^verbatim>\<open>catch (error) { if (error instanceof HandleError) return refused(..); throw error; }\<close>\<close>

fun handle_refusal :: "thrown \<Rightarrow> thrown + precondition_context" where
  "handle_refusal (HandleError code message) = Inr (refused code message False)"
| "handle_refusal e = Inl e"

definition read_failed :: "thrown \<Rightarrow> thrown + precondition_context" where
  "read_failed e =
     (case readFailureOf e of
        None \<Rightarrow> Inl e
      | Some f \<Rightarrow> Inr (refused (rf_code f) (rf_message f) (case rf_retryable f of None \<Rightarrow> False | Some b \<Rightarrow> b)))"

definition repository_context ::
  "read_layer \<Rightarrow> write_block option \<Rightarrow> snapshot_store \<Rightarrow> jsstring \<Rightarrow> jsstring option \<Rightarrow> jsstring \<Rightarrow> jsstring \<Rightarrow>
   thrown + precondition_context" where
  "repository_context ly block snapshots r w expected kind =
     (case ly_require ly r of
        Inl e \<Rightarrow> handle_refusal e
      | Inr rec \<Rightarrow>
          if rr_bare rec
          then (case bareRefusalOf (rr_displayPath rec) of (code, message) \<Rightarrow> Inr (refused code message False))
          else (case ly_worktree ly r w of
              Inl e \<Rightarrow> handle_refusal e
            | Inr worktree \<Rightarrow>
                if wr_handle worktree = None
                then Inr (blocked_context False (Some (case block of
                    None \<Rightarrow> \<lparr>rb_reason = wr_displayPath worktree @ str '' is outside every approved root'', rb_operationIds = []\<rparr>
                  | Some b \<Rightarrow> restart_block_of b)))
                else (case ly_facts ly rec worktree of
                    Inl e \<Rightarrow> read_failed e
                  | Inr facts \<Rightarrow> Inr (facts_context block (snapshot_get expected snapshots) kind facts))))"

definition preconditionsFor ::
  "read_layer \<Rightarrow> block_map \<Rightarrow> snapshot_store \<Rightarrow> mutation_request \<Rightarrow> thrown + precondition_context" where
  "preconditionsFor ly blocks snapshots request =
     (case rq_target request of
        WorkspaceTarget root dest \<Rightarrow>
          Inr (blocked_context True (map_option restart_block_of
            (blockFor blocks (case writeKeyOfTarget (WorkspaceTarget root dest) of None \<Rightarrow> [] | Some k \<Rightarrow> k))))
      | RepositoryTarget r s \<Rightarrow> repository_context ly (blockFor blocks r) snapshots r None s (rq_kind request)
      | WorktreeTarget r w s \<Rightarrow> repository_context ly (blockFor blocks r) snapshots r (Some w) s (rq_kind request))"

section \<open>What is known when a write is let through\<close>

lemma repository_admitted:
  assumes "repository_context ly block snapshots r w expected kind = Inr ctx" and "checkPreconditions ctx = None"
  obtains rec worktree headOid status snapshot where "ly_require ly r = Inr rec" and "\<not> rr_bare rec"
    and "ly_worktree ly r w = Inr worktree" and "wr_handle worktree \<noteq> None"
    and "ly_facts ly rec worktree = Inr (headOid, status)" and "block = None"
    and "snapshot_get expected snapshots = Some snapshot" and "sn_headOid snapshot = headOid"
    and "sn_indexKey snapshot = None \<or> sn_indexKey snapshot = Some (currentIndexKey status)"
    and "pred_option (\<lambda>opr. opr \<in> set (mayRunDuringOperation kind)) (sf_operationInProgress status)"
proof -
  have no: "\<not> admissible (refused c m b)" "\<not> admissible (blocked_context i (Some x))" for c m b i x
    by (simp_all add: admissible_def refused_def blocked_context_def)
  have ok: "admissible ctx" using assms(2) by (simp add: checkPreconditions_None)
  have fail: "handle_refusal e \<noteq> Inr ctx" "read_failed e \<noteq> Inr ctx" for e
    using no ok by (cases e; auto simp: read_failed_def Let_def)+
  from assms(1) no ok fail obtain rec worktree facts where
    rec: "ly_require ly r = Inr rec" "\<not> rr_bare rec" "ly_worktree ly r w = Inr worktree" "wr_handle worktree \<noteq> None"
    "ly_facts ly rec worktree = Inr facts" and
    ctx: "ctx = facts_context block (snapshot_get expected snapshots) kind facts"
    unfolding repository_context_def by (auto split: sum.splits if_splits prod.splits)
  obtain headOid status where facts: "facts = (headOid, status)" by (cases facts)
  from ok obtain snapshot where snap: "snapshot_get expected snapshots = Some snapshot"
    by (cases "snapshot_get expected snapshots") (auto simp: ctx facts facts_context_def admissible_def)
  from ok show ?thesis
    by (intro that [OF rec(1-4) rec(5) [unfolded facts] _ snap])
      (auto simp: ctx facts snap facts_context_def admissible_def split: option.splits)
qed

lemma preconditions_repository:
  "repositoryIdOfTarget (rq_target q) = Some r \<Longrightarrow>
   \<exists>w. preconditionsFor ly blocks snapshots q =
     repository_context ly (blockFor blocks r) snapshots r w (expectedSnapshotId (rq_target q)) (rq_kind q)"
  by (cases "rq_target q") (auto simp: preconditionsFor_def)


text \<open>
  A request whose snapshot is not known, because it was never minted or was forgotten, is never
  let through, whatever the repository looks like, an unborn one included.
\<close>

theorem unknown_snapshot_refused:
  assumes "repositoryIdOfTarget (rq_target q) = Some r"
    and "snapshot_get (expectedSnapshotId (rq_target q)) snapshots = None"
    and "preconditionsFor ly blocks snapshots q = Inr ctx"
  shows "\<exists>p. checkPreconditions ctx = Some p"
proof (rule ccontr)
  assume "\<not> ?thesis"
  then have ok: "checkPreconditions ctx = None" by simp
  obtain w where "repository_context ly (blockFor blocks r) snapshots r w (expectedSnapshotId (rq_target q)) (rq_kind q) = Inr ctx"
    using preconditions_repository [OF assms(1)] assms(3) by metis
  from this ok show False by (rule repository_admitted) (use assms(2) in simp)
qed

text \<open>Only the Head and the fingerprint of the snapshot count: it may be one of another repository.\<close>

lemma snapshot_of_other_repository:
  "sn_headOid s = sn_headOid s' \<Longrightarrow> sn_indexKey s = sn_indexKey s' \<Longrightarrow>
   facts_context block (Some s) kind facts = facts_context block (Some s') kind facts"
  by (simp add: facts_context_def)

section \<open>Witnesses\<close>

definition sample_status :: status_facts where
  "sample_status = \<lparr>sf_headOid = None, sf_records = [sample_modified], sf_operationInProgress = Some (str ''merge'')\<rparr>"

definition sample_layer :: read_layer where
  "sample_layer =
     \<lparr>ly_require = (\<lambda>r. if r = str ''r'' then Inr \<lparr>rr_bare = False, rr_displayPath = str ''/r''\<rparr>
        else Inl (HandleError ''NotFound'' (str ''unknown''))),
      ly_worktree = (\<lambda>r w. Inr \<lparr>wr_displayPath = str ''/r'', wr_handle = Some (str ''h'')\<rparr>),
      ly_facts = (\<lambda>rec w. Inr (None, sample_status))\<rparr>"

definition sample_snapshot_input :: snapshot_input where
  "sample_snapshot_input = \<lparr>si_kind = SnapStatus, si_repositoryId = str ''r'', si_worktreeId = None, si_tips = None,
     si_headOid = None, si_indexKey = Some (statusIndexKey None [sample_modified]),
     si_observedRefsFingerprint = None, si_historyIntent = None\<rparr>"

definition sample_snapshots :: snapshot_store where
  "sample_snapshots = fst (snapshot_create sample_options 0 0 (str ''s'') sample_snapshot_input createSnapshotStore)"

definition sample_request :: mutation_request where
  "sample_request = \<lparr>rq_clientRequestId = str ''c'', rq_target = WorktreeTarget (str ''r'') (str ''w'') (str ''s''),
     rq_kind = str ''stagePaths'', rq_operation = []\<rparr>"

lemma sample_snapshot_known:
  "snapshot_get (str ''s'') sample_snapshots = Some \<lparr>sn_snapshotId = str ''s'', sn_kind = SnapStatus,
     sn_repositoryId = str ''r'', sn_worktreeId = None, sn_createdAtMs = 0, sn_tips = [], sn_headOid = None,
     sn_observedRefsFingerprint = None, sn_historyIntent = None,
     sn_indexKey = Some (statusIndexKey None [sample_modified])\<rparr>"
  by (simp add: sample_snapshots_def snapshot_get_any_age)
    (simp add: snapshot_create_def sample_snapshot_input_def Let_def)

definition sample_context :: precondition_context where
  "sample_context = \<lparr>pc_snapshotHeadOid = None, pc_currentHeadOid = None, pc_indexUnchanged = True,
     pc_operationInProgress = Some (str ''merge''),
     pc_mayRunDuring = Some [str ''merge'', str ''cherry-pick'', str ''rebase''],
     pc_restartBlock = None, pc_previewChecks = None, pc_refusal = None\<rparr>"

lemma sample_preconditions: "preconditionsFor sample_layer [] sample_snapshots sample_request = Inr sample_context"
  by (simp add: preconditionsFor_def sample_request_def repository_context_def sample_layer_def sample_snapshot_known
      facts_context_def sample_status_def currentIndexKey_def blockFor_def mayRunDuringOperation_def sample_context_def
      del: str_simps)


lemma unknown_snapshot_refused_witness:
  "\<exists>p. checkPreconditions (facts_context None None (str ''stagePaths'') (None, sample_status)) = Some p"
proof -
  have "preconditionsFor sample_layer [] createSnapshotStore sample_request =
      Inr (facts_context None None (str ''stagePaths'') (None, sample_status))"
    by (simp add: preconditionsFor_def sample_request_def repository_context_def sample_layer_def
        snapshot_get_def createSnapshotStore_def blockFor_def del: str_simps)
  from unknown_snapshot_refused [OF _ _ this, of "str ''r''"] show ?thesis
    by (simp add: sample_request_def snapshot_get_def createSnapshotStore_def)
qed

end
