(* ===== verification/Jobs.thy ===== *)
theory Jobs
  imports Submit Queue
begin

text \<open>
  The job engine: \<^verbatim>\<open>packages/host-node/src/coordinator/jobs.ts\<close>. The record \<open>engine\<close> holds the variables of
  \<^verbatim>\<open>createJobEngine\<close>, the journal and the work queue it uses, and the asynchronous work under way: the
  submissions between two \<^verbatim>\<open>await\<close>s (\<open>en_accepted\<close>) and the jobs started (\<open>en_tasks\<close>). Each definition is
  the code between two \<^verbatim>\<open>await\<close>s; an append to the journal is one step. Times, ids and sequence
  numbers are arguments, and the dates of a record are kept as the numbers they denote.
\<close>

section \<open>Data\<close>

record operation_record =
  or_operationId :: jsstring
  or_clientRequestId :: jsstring
  or_kind :: jsstring
  or_target :: jsvalue
  or_status :: jsstring
  or_sequence :: int
  or_acceptedAt :: jsnumber
  or_startedAt :: "int option"
  or_finishedAt :: "int option"
  or_result :: jsvalue
  or_problem :: jsvalue

definition recordFor :: "journal_entry \<Rightarrow> operation_record" where
  "recordFor e =
     \<lparr>or_operationId = je_operationId e, or_clientRequestId = je_clientRequestId e, or_kind = je_kind e,
      or_target = je_target e, or_status = je_status e, or_sequence = je_sequence e,
      or_acceptedAt = je_acceptedAtMs e, or_startedAt = je_startedAtMs e, or_finishedAt = je_finishedAtMs e,
      or_result = je_result e, or_problem = je_problem e\<rparr>"

datatype effect_outcome =
    OutcomeSucceeded jsvalue
  | OutcomeFailed problem
  | OutcomeNeedsAttention problem
  | OutcomeUnknown problem
  | OutcomeThrew jsstring

datatype job_event = OperationEvent operation_record jsstring | RepositoryChanged jsstring

datatype submit_result = Submitted operation_record bool | Refused problem

record job_options =
  jo_rt :: runtime
  jo_policy :: retention_policy
  jo_limits :: queue_limits
  jo_digest :: "jsstring \<Rightarrow> jsstring"
  jo_repositoryIdFor :: "mutation_request \<Rightarrow> jsstring option"

record waiting =
  aw_actor :: jsstring
  aw_digest :: jsstring

text \<open>A submission whose record is written and that is not queued yet.\<close>

record submission =
  su_entry :: journal_entry
  su_request :: mutation_request
  su_actor :: jsstring
  su_digest :: jsstring

text \<open>
  A started job: it waits for its \<^verbatim>\<open>running\<close> record, or for its effect (\<open>InEffect False\<close> when the kind has
  no effect). Its release is the handle of the queue.
\<close>

datatype task_phase = Starting | InEffect bool

record task =
  ta_handle :: nat
  ta_ticket :: "mutation_request ticket"
  ta_actor :: jsstring
  ta_entry :: journal_entry
  ta_phase :: task_phase

record engine =
  en_store :: store
  en_queue :: "mutation_request queue"
  en_effects :: "jsstring list"
  en_awaiting :: "(jsstring, waiting) jsmap"
  en_accepted :: "submission list"
  en_tasks :: "task list"
  en_events :: "job_event list"
  en_ids :: "jsstring list"

definition createJobEngine :: "jsstring list \<Rightarrow> store \<Rightarrow> engine" where
  "createJobEngine effects st =
     \<lparr>en_store = st, en_queue = createQueue, en_effects = fold set_add effects [], en_awaiting = [],
      en_accepted = [], en_tasks = [], en_events = [], en_ids = map fst (st_entries st)\<rparr>"

definition emit :: "job_event \<Rightarrow> engine \<Rightarrow> engine" where
  "emit ev en = en\<lparr>en_events := en_events en @ [ev]\<rparr>"

lemma emit_simps [simp]:
  "en_store (emit ev en) = en_store en" "en_queue (emit ev en) = en_queue en" "en_tasks (emit ev en) = en_tasks en"
  "en_accepted (emit ev en) = en_accepted en" "en_ids (emit ev en) = en_ids en" "en_effects (emit ev en) = en_effects en"
  "en_awaiting (emit ev en) = en_awaiting en" "en_events (emit ev en) = en_events en @ [ev]"
  by (simp_all add: emit_def)

definition idempotencyMaxEntries :: nat where "idempotencyMaxEntries = 2000"

definition canonicalPayloadDigest :: "job_options \<Rightarrow> jsvalue \<Rightarrow> jsstring" where
  "canonicalPayloadDigest opts v = jo_digest opts (canonicalJson v)"

section \<open>Transitions\<close>

record transition_next =
  nx_status :: jsstring
  nx_result :: jsvalue
  nx_problem :: "problem option"
  nx_unknownReason :: "jsstring option"
  nx_started :: bool
  nx_finished :: bool

definition next_status :: "string \<Rightarrow> transition_next" where
  "next_status status = \<lparr>nx_status = str status, nx_result = JNull, nx_problem = None, nx_unknownReason = None,
     nx_started = False, nx_finished = False\<rparr>"

definition problem_value :: "problem option \<Rightarrow> jsvalue" where
  "problem_value p = (case p of None \<Rightarrow> JNull | Some p \<Rightarrow> problem_json p)"

definition updated_entry :: "int \<Rightarrow> int \<Rightarrow> journal_entry \<Rightarrow> transition_next \<Rightarrow> journal_entry" where
  "updated_entry seq now e nx =
     e\<lparr>je_status := nx_status nx, je_sequence := seq,
       je_startedAtMs := (if nx_started nx then (case je_startedAtMs e of None \<Rightarrow> Some now | Some t \<Rightarrow> Some t) else je_startedAtMs e),
       je_finishedAtMs := (if nx_finished nx then Some now else je_finishedAtMs e),
       je_result := nx_result nx, je_problem := problem_value (nx_problem nx), je_unknownReason := nx_unknownReason nx\<rparr>"

definition journal_full_message :: jsstring where
  "journal_full_message = str ''the operation journal is full; no expired records could be removed, so no new operation is accepted''"

definition with_operation :: "jsstring \<Rightarrow> problem \<Rightarrow> problem" where
  "with_operation i p = p\<lparr>pr_operationId := Some i\<rparr>"

definition unrecorded_entry :: "journal_entry \<Rightarrow> journal_entry" where
  "unrecorded_entry u =
     u\<lparr>je_status := str ''unknown'',
       je_problem := problem_json (with_operation (je_operationId u) (refuse ''InternalError'' journal_full_message False)),
       je_unknownReason := Some (str ''the journal could not record this transition'')\<rparr>"

definition transition ::
  "job_options \<Rightarrow> int \<Rightarrow> int \<Rightarrow> int \<Rightarrow> journal_entry \<Rightarrow> transition_next \<Rightarrow> engine \<Rightarrow> js_error + engine \<times> journal_entry" where
  "transition opts seq now t e nx en =
     (let updated = updated_entry seq now e nx
      in bindE (journal_append (jo_rt opts) (jo_policy opts) t updated (en_store en)) (\<lambda>(st, out).
         let en = en\<lparr>en_store := st\<rparr>
         in case out of
              JournalFull \<Rightarrow> Inr (en, unrecorded_entry updated)
            | Appended \<Rightarrow>
                (let en = emit (OperationEvent (recordFor updated) (je_repositoryId updated)) en
                 in if nx_status nx = str ''succeeded'' \<or> nx_status nx = str ''needsAttention''
                    then Inr (emit (RepositoryChanged (je_repositoryId updated)) en, updated)
                    else Inr (en, updated))))"

fun outcome_next :: "jsstring \<Rightarrow> effect_outcome \<Rightarrow> transition_next" where
  "outcome_next i (OutcomeSucceeded result) = (next_status ''succeeded'')\<lparr>nx_result := result, nx_finished := True\<rparr>"
| "outcome_next i (OutcomeFailed p) = (next_status ''failed'')\<lparr>nx_problem := Some (with_operation i p), nx_finished := True\<rparr>"
| "outcome_next i (OutcomeNeedsAttention p) =
     (next_status ''needsAttention'')\<lparr>nx_problem := Some (with_operation i p), nx_finished := True\<rparr>"
| "outcome_next i (OutcomeUnknown p) =
     (next_status ''unknown'')\<lparr>nx_problem := Some (with_operation i p), nx_unknownReason := Some (pr_message p), nx_finished := True\<rparr>"
| "outcome_next i (OutcomeThrew message) =
     (next_status ''unknown'')\<lparr>nx_finished := True,
        nx_unknownReason := Some (str ''the effect threw before reporting an outcome''),
        nx_problem := Some (with_operation i (refuse ''UncertainOutcome''
          (str ''the operation failed unexpectedly ('' @ message @
           str ''); its effect on the repository is unknown and it was not retried'') False))\<rparr>"

definition unsupported_next :: "jsstring \<Rightarrow> jsstring \<Rightarrow> transition_next" where
  "unsupported_next i kind = (next_status ''failed'')\<lparr>nx_finished := True,
     nx_problem := Some (with_operation i (refuse ''UnsupportedOperation'' (kind @ str '' is not implemented in this build'') False))\<rparr>"

text \<open>\<^verbatim>\<open>runEffect\<close>: what its last transition is, by whether the kind has an effect and what that reported.\<close>

definition runEffect_next :: "bool \<Rightarrow> jsstring \<Rightarrow> jsstring \<Rightarrow> effect_outcome \<Rightarrow> transition_next" where
  "runEffect_next known i kind outcome = (if known then outcome_next i outcome else unsupported_next i kind)"

section \<open>Operations\<close>

text \<open>\<^verbatim>\<open>submit\<close> up to the preconditions: an answer at once, or the repository to go on with.\<close>

definition submit_check :: "job_options \<Rightarrow> mutation_request \<Rightarrow> jsstring \<Rightarrow> engine \<Rightarrow> submit_result + jsstring" where
  "submit_check opts request actor en =
     (let digest = canonicalPayloadDigest opts (request_json request)
      in case find (\<lambda>e. je_clientRequestId e = rq_clientRequestId request)
                 (journal_list actor idempotencyMaxEntries (en_store en)) of
           Some existing \<Rightarrow>
             if je_payloadDigest existing \<noteq> digest
             then Inl (Refused (with_operation (je_operationId existing) (refuse ''IdempotencyConflict''
                    (str ''that client request id was already used with a different payload; use a new id for the changed request'') False)))
             else Inl (Submitted (recordFor existing) True)
         | None \<Rightarrow>
             if rq_kind request \<notin> set (en_effects en)
             then Inl (Refused (refuse ''UnsupportedOperation''
                    (rq_kind request @ str '' is not implemented in this build; no operation was accepted'') False))
             else (case jo_repositoryIdFor opts request of
                 None \<Rightarrow> Inl (Refused (refuse ''NotFound'' (str ''that request does not name a repository this service knows'') False))
               | Some repo \<Rightarrow> Inr repo))"

definition accepted_entry ::
  "job_options \<Rightarrow> jsstring \<Rightarrow> int \<Rightarrow> int \<Rightarrow> mutation_request \<Rightarrow> jsstring \<Rightarrow> jsstring \<Rightarrow> journal_entry" where
  "accepted_entry opts operationId seq now request actor repo =
     \<lparr>je_operationId = operationId, je_clientRequestId = rq_clientRequestId request, je_actor = actor,
      je_kind = rq_kind request, je_target = target_json (rq_target request), je_status = str ''accepted'',
      je_sequence = seq, je_acceptedAtMs = Fin now, je_startedAtMs = None, je_finishedAtMs = None,
      je_payloadDigest = canonicalPayloadDigest opts (request_json request), je_repositoryId = repo,
      je_result = JNull, je_problem = JNull, je_unknownReason = None\<rparr>"

text \<open>From the preconditions (none when the engine has no \<^verbatim>\<open>preconditionsFor\<close>) to the written record.\<close>

definition submit_accept ::
  "job_options \<Rightarrow> precondition_context option \<Rightarrow> jsstring \<Rightarrow> int \<Rightarrow> int \<Rightarrow> int \<Rightarrow> mutation_request \<Rightarrow> jsstring \<Rightarrow> jsstring \<Rightarrow>
   engine \<Rightarrow> js_error + engine \<times> (submit_result + submission)" where
  "submit_accept opts context operationId seq now t request actor repo en =
     (case (case context of None \<Rightarrow> None | Some c \<Rightarrow> checkPreconditions c) of
        Some p \<Rightarrow> Inr (en, Inl (Refused p))
      | None \<Rightarrow>
          (let e = accepted_entry opts operationId seq now request actor repo
           in bindE (journal_append (jo_rt opts) (jo_policy opts) t e (en_store en)) (\<lambda>(st, out).
              let en = en\<lparr>en_store := st, en_ids := operationId # en_ids en\<rparr>
              in case out of
                   JournalFull \<Rightarrow> Inr (en, Inl (Refused (refuse ''ResourceBusy'' journal_full_message True)))
                 | Appended \<Rightarrow>
                     (let s = \<lparr>su_entry = e, su_request = request, su_actor = actor, su_digest = je_payloadDigest e\<rparr>
                      in Inr (en\<lparr>en_accepted := s # en_accepted en\<rparr>, Inr s)))))"

text \<open>\<^verbatim>\<open>pump\<close>: the queue runs; a ticket without a record or a waiting submission is released at once.\<close>

definition orphan :: "engine \<Rightarrow> mutation_request ticket \<Rightarrow> bool" where
  "orphan en t \<longleftrightarrow> journal_get (en_store en) (tk_id t) = None \<or> map_of (en_awaiting en) (tk_id t) = None"

fun start_tasks :: "engine \<Rightarrow> nat \<Rightarrow> mutation_request ticket list \<Rightarrow> task list" where
  "start_tasks en h [] = []"
| "start_tasks en h (t # ts) =
     (case (journal_get (en_store en) (tk_id t), map_of (en_awaiting en) (tk_id t)) of
        (Some e, Some w) \<Rightarrow>
          \<lparr>ta_handle = h, ta_ticket = t, ta_actor = aw_actor w, ta_entry = e, ta_phase = Starting\<rparr> # start_tasks en (h + 1) ts
      | _ \<Rightarrow> start_tasks en (h + 1) ts)"

definition pump :: "job_options \<Rightarrow> engine \<Rightarrow> engine" where
  "pump opts en =
     (let (q, started) = queue_run (jo_limits opts) (orphan en) (en_queue en)
      in en\<lparr>en_queue := q, en_tasks := en_tasks en @ start_tasks en (length (q_handles (en_queue en))) started\<rparr>)"

definition enqueue_problem :: "nat \<Rightarrow> mutation_request enqueue_result \<Rightarrow> problem" where
  "enqueue_problem depth r =
     (if r = QueueFull
      then refuse ''ResourceBusy'' (str ''this session already has '' @ decimal depth @
             str '' operations queued; wait for them to finish'') True
      else refuse ''Conflict'' (str ''that operation is already queued'') False)"

text \<open>The queue refused the job: its record becomes \<^verbatim>\<open>failed\<close>.\<close>

definition refused_next :: "jsstring \<Rightarrow> problem \<Rightarrow> transition_next" where
  "refused_next i p = (next_status ''failed'')\<lparr>nx_finished := True, nx_problem := Some (with_operation i p)\<rparr>"

definition submit_refused ::
  "job_options \<Rightarrow> int \<Rightarrow> int \<Rightarrow> int \<Rightarrow> journal_entry \<Rightarrow> problem \<Rightarrow> engine \<Rightarrow> js_error + engine \<times> submit_result" where
  "submit_refused opts seq now t e p en =
     bindE (transition opts seq now t e (refused_next (je_operationId e) p) en) (\<lambda>(en, _).
     Inr (en, Refused (case journal_get (en_store en) (je_operationId e) of
         None \<Rightarrow> p
       | Some _ \<Rightarrow> with_operation (je_operationId e) p)))"

text \<open>The queue took the job.\<close>

definition submit_queued :: "job_options \<Rightarrow> submission \<Rightarrow> engine \<Rightarrow> engine \<times> submit_result" where
  "submit_queued opts s en =
     (let i = je_operationId (su_entry s);
          en = pump opts (en\<lparr>en_awaiting := AList.update i \<lparr>aw_actor = su_actor s, aw_digest = su_digest s\<rparr> (en_awaiting en)\<rparr>)
      in (en, Submitted (recordFor (case journal_get (en_store en) i of Some c \<Rightarrow> c | None \<Rightarrow> su_entry s)) False))"

text \<open>From the written record to the answer.\<close>

definition submit_enqueue :: "job_options \<Rightarrow> int \<Rightarrow> int \<Rightarrow> int \<Rightarrow> submission \<Rightarrow> engine \<Rightarrow> js_error + engine \<times> submit_result" where
  "submit_enqueue opts seq now t s en =
     (let e = su_entry s;
          en = emit (OperationEvent (recordFor e) (je_repositoryId e)) (en\<lparr>en_accepted := remove1 s (en_accepted en)\<rparr>)
      in case queue_enqueue (jo_limits opts) (je_operationId e) (su_actor s) (je_repositoryId e) WriteMode (su_request s)
                (en_queue en) of
           (q, Enqueued ticket) \<Rightarrow> Inr (submit_queued opts s (en\<lparr>en_queue := q\<rparr>))
         | (q, r) \<Rightarrow>
             submit_refused opts seq now t e (enqueue_problem (depthFor (en_queue en) (su_actor s)) r) (en\<lparr>en_queue := q\<rparr>))"

text \<open>A started job records \<^verbatim>\<open>running\<close> and calls its effect; whether it was recorded is not looked at.\<close>

definition task_start :: "job_options \<Rightarrow> int \<Rightarrow> int \<Rightarrow> int \<Rightarrow> task \<Rightarrow> engine \<Rightarrow> js_error + engine" where
  "task_start opts seq now t k en =
     bindE (transition opts seq now t (ta_entry k) ((next_status ''running'')\<lparr>nx_started := True\<rparr>) en) (\<lambda>(en, e).
     Inr (en\<lparr>en_tasks := map (\<lambda>x. if x = k then k\<lparr>ta_entry := e,
            ta_phase := InEffect (rq_kind (tk_job (ta_ticket k)) \<in> set (en_effects en))\<rparr> else x) (en_tasks en)\<rparr>))"

text \<open>The effect reported: the last transition, then the release (the next \<^verbatim>\<open>pump\<close> is a turn of its own).\<close>

definition task_finish :: "job_options \<Rightarrow> int \<Rightarrow> int \<Rightarrow> int \<Rightarrow> bool \<Rightarrow> effect_outcome \<Rightarrow> task \<Rightarrow> engine \<Rightarrow> js_error + engine" where
  "task_finish opts seq now t known outcome k en =
     bindE (transition opts seq now t (ta_entry k)
        (runEffect_next known (je_operationId (ta_entry k)) (rq_kind (tk_job (ta_ticket k))) outcome) en) (\<lambda>(en, _).
     Inr (en\<lparr>en_awaiting := AList.delete (tk_id (ta_ticket k)) (en_awaiting en),
             en_queue := queue_release (ta_handle k) (en_queue en),
             en_tasks := remove1 k (en_tasks en)\<rparr>))"

definition cancelled_entry :: "int \<Rightarrow> int \<Rightarrow> journal_entry \<Rightarrow> journal_entry" where
  "cancelled_entry seq now e =
     e\<lparr>je_status := str ''cancelled'', je_sequence := seq, je_finishedAtMs := Some now,
       je_problem := problem_json (with_operation (je_operationId e)
         (refuse ''Cancelled'' (str ''cancelled while queued; nothing was run'') False))\<rparr>"

text \<open>
  \<^verbatim>\<open>cancel\<close>: the code does not wait for the append, which is part of the step here, and never looks at
  its outcome.
\<close>

definition job_cancel ::
  "job_options \<Rightarrow> int \<Rightarrow> int \<Rightarrow> int \<Rightarrow> jsstring \<Rightarrow> jsstring \<Rightarrow> engine \<Rightarrow> js_error + engine \<times> submit_result" where
  "job_cancel opts seq now t operationId actor en =
     (case journal_get (en_store en) operationId of
        None \<Rightarrow> Inr (en, Refused (refuse ''NotFound'' (str ''no such operation for this session'') False))
      | Some e \<Rightarrow>
          if je_actor e \<noteq> actor then Inr (en, Refused (refuse ''NotFound'' (str ''no such operation for this session'') False))
          else if je_status e \<noteq> str ''accepted''
          then Inr (en, Refused (with_operation (je_operationId e) (refuse ''Conflict''
                 (if je_status e = str ''running''
                  then str ''that operation is already running; a running mutation cannot be cancelled in this version''
                  else str ''that operation already finished as '' @ je_status e) False)))
          else (let (q, found) = queue_cancel (je_operationId e) (en_queue en)
                in if \<not> found
                   then Inr (en, Refused (with_operation (je_operationId e) (refuse ''Conflict'' (str ''that operation has already started'') False)))
                   else (let c = cancelled_entry seq now e;
                             en = en\<lparr>en_queue := q, en_awaiting := AList.delete (je_operationId e) (en_awaiting en)\<rparr>
                         in bindE (journal_append (jo_rt opts) (jo_policy opts) t c (en_store en)) (\<lambda>(st, _).
                            Inr (emit (OperationEvent (recordFor c) (je_repositoryId c)) (en\<lparr>en_store := st\<rparr>),
                                 Submitted (recordFor c) False)))))"

definition job_get :: "jsstring \<Rightarrow> jsstring \<Rightarrow> engine \<Rightarrow> operation_record option" where
  "job_get operationId actor en =
     (case journal_get (en_store en) operationId of
        None \<Rightarrow> None
      | Some e \<Rightarrow> if je_actor e \<noteq> actor then None else Some (recordFor e))"

definition job_list :: "jsstring \<Rightarrow> nat \<Rightarrow> engine \<Rightarrow> operation_record list \<times> bool" where
  "job_list actor limit en =
     (let entries = journal_list actor limit (en_store en) in (map recordFor entries, length entries \<ge> limit))"

definition registerEffect :: "jsstring \<Rightarrow> engine \<Rightarrow> engine" where
  "registerEffect kind en = en\<lparr>en_effects := set_add kind (en_effects en)\<rparr>"

definition implementedKinds :: "engine \<Rightarrow> jsstring list" where
  "implementedKinds en = en_effects en"

section \<open>Steps\<close>

text \<open>
  The steps of the engine, in any interleaving of any number of callers. A submission is accepted at
  any time after its check, so the check is no premise; \<^verbatim>\<open>nextOperationId\<close> gives an id not given before.
\<close>

inductive job_step :: "job_options \<Rightarrow> engine \<Rightarrow> engine \<Rightarrow> bool" for opts where
  accept: "i \<notin> set (en_ids en) \<Longrightarrow>
    submit_accept opts context i seq now t request actor repo en = Inr (en', r) \<Longrightarrow> job_step opts en en'"
| enqueue: "s \<in> set (en_accepted en) \<Longrightarrow> submit_enqueue opts seq now t s en = Inr (en', r) \<Longrightarrow> job_step opts en en'"
| pump: "job_step opts en (pump opts en)"
| start: "k \<in> set (en_tasks en) \<Longrightarrow> ta_phase k = Starting \<Longrightarrow> task_start opts seq now t k en = Inr en' \<Longrightarrow> job_step opts en en'"
| finish: "k \<in> set (en_tasks en) \<Longrightarrow> ta_phase k = InEffect known \<Longrightarrow>
    task_finish opts seq now t known outcome k en = Inr en' \<Longrightarrow> job_step opts en en'"
| cancel: "job_cancel opts seq now t i actor en = Inr (en', r) \<Longrightarrow> job_step opts en en'"
| register: "job_step opts en (registerEffect kind en)"

end
