(* ===== verification/JobLife.thy ===== *)
theory JobLife
  imports Jobs
begin

text \<open>
  What the job engine guarantees: the invariant of its reachable states, the life of an operation it
  refines, one mutation per repository, cancellation, idempotency, and what goes wrong when two
  submissions overlap or the journal is full. The journal is used through \<open>operation_log\<close>, the queue
  through the invariant of \<open>Queue\<close>.
\<close>

section \<open>The life of an operation\<close>

text \<open>The states of an operation: accepted, running, then a final one; cancelled only while accepted.\<close>

definition first_status :: "jsstring \<Rightarrow> bool" where
  "first_status s \<longleftrightarrow> s = str ''accepted''"

definition follows_status :: "jsstring \<Rightarrow> jsstring \<Rightarrow> bool" where
  "follows_status a b \<longleftrightarrow>
     a = str ''accepted'' \<and> (b = str ''running'' \<or> isTerminalStatus b) \<or>
     a = str ''running'' \<and> isTerminalStatus b \<and> b \<noteq> str ''cancelled''"

abbreviation life_step :: "(jsstring \<Rightarrow> jsstring option) \<Rightarrow> (jsstring \<Rightarrow> jsstring option) \<Rightarrow> bool" where
  "life_step m m' \<equiv> \<forall>i. operation_log.life isTerminalStatus first_status follows_status (m i) (m' i)"

definition job_status :: "engine \<Rightarrow> jsstring \<Rightarrow> jsstring option" where
  "job_status en i = map_option je_status (journal_get (en_store en) i)"

lemma status_texts [simp]:
  "isTerminalStatus (str ''succeeded'')" "isTerminalStatus (str ''failed'')" "isTerminalStatus (str ''needsAttention'')"
  "isTerminalStatus (str ''unknown'')" "isTerminalStatus (str ''cancelled'')"
  "\<not> isTerminalStatus (str ''accepted'')" "\<not> isTerminalStatus (str ''running'')"
  "str ''accepted'' \<noteq> str ''running''"
  by (simp_all add: isTerminalStatus_def str_inj del: str_simps)

lemma not_cancelled [simp]:
  "str ''succeeded'' \<noteq> str ''cancelled''" "str ''failed'' \<noteq> str ''cancelled''"
  "str ''needsAttention'' \<noteq> str ''cancelled''" "str ''unknown'' \<noteq> str ''cancelled''"
  by (simp_all add: str_inj del: str_simps)

text \<open>The invariant: who holds an operation, and in which state its record is then.\<close>

definition pending_ids :: "engine \<Rightarrow> jsstring list" where
  "pending_ids en = map tk_id (q_pending (en_queue en))"

definition accepted_ids :: "engine \<Rightarrow> jsstring list" where
  "accepted_ids en = map (\<lambda>s. je_operationId (su_entry s)) (en_accepted en)"

definition task_ids :: "engine \<Rightarrow> jsstring list" where
  "task_ids en = map (\<lambda>k. tk_id (ta_ticket k)) (en_tasks en)"

definition has_status :: "engine \<Rightarrow> jsstring \<Rightarrow> (jsstring \<Rightarrow> bool) \<Rightarrow> bool" where
  "has_status en i P \<longleftrightarrow> (\<exists>e. journal_get (en_store en) i = Some e \<and> P (je_status e))"

definition task_ok :: "engine \<Rightarrow> task \<Rightarrow> bool" where
  "task_ok en k \<longleftrightarrow>
     at (q_handles (en_queue en)) (ta_handle k) = Some (ta_ticket k, False) \<and>
     je_operationId (ta_entry k) = tk_id (ta_ticket k) \<and> tk_mode (ta_ticket k) = WriteMode \<and>
     has_status en (tk_id (ta_ticket k)) (\<lambda>s. s = str ''accepted'' \<or> (\<exists>b. ta_phase k = InEffect b) \<and> s = str ''running'')"

definition job_inv :: "job_options \<Rightarrow> engine \<Rightarrow> bool" where
  "job_inv opts en \<longleftrightarrow>
     keyed_map (st_entries (en_store en)) \<and> q_inv (jo_limits opts) (en_queue en) \<and>
     distinct (pending_ids en @ accepted_ids en @ task_ids en) \<and>
     set (pending_ids en @ accepted_ids en @ task_ids en) \<subseteq> set (en_ids en) \<and>
     (\<forall>i. journal_get (en_store en) i \<noteq> None \<longrightarrow> i \<in> set (en_ids en)) \<and>
     (\<forall>i \<in> set (pending_ids en @ accepted_ids en). has_status en i (\<lambda>s. s = str ''accepted'')) \<and>
     (\<forall>t \<in> set (q_pending (en_queue en)). tk_mode t = WriteMode) \<and>
     (\<forall>k \<in> set (en_tasks en). task_ok en k) \<and> distinct (map ta_handle (en_tasks en))"

subsection \<open>Appending a record\<close>

text \<open>What an append of a record that follows the one before does to the records of the others.\<close>

lemma job_append:
  assumes "keyed_map (st_entries st)" and "journal_append rt policy t e st = Inr (st', out)"
  shows "keyed_map (st_entries st')"
    and "out = Appended \<Longrightarrow> journal_get st' (je_operationId e) = Some e"
    and "i \<noteq> je_operationId e \<or> out = JournalFull \<Longrightarrow>
      journal_get st' i = journal_get st i \<or>
      journal_get st' i = None \<and> (\<exists>x. journal_get st i = Some x \<and> isTerminalStatus (je_status x))"
proof -
  have app: "(case journal_append rt policy t e st of Inl _ \<Rightarrow> None | Inr (st', out) \<Rightarrow> Some (st', out = Appended)) =
      Some (st', out = Appended)" using assms(2) by simp
  show "keyed_map (st_entries st')" using log.append_valid [OF assms(1) app] .
  {
    assume "out = Appended"
    with app have "(case journal_append rt policy t e st of Inl _ \<Rightarrow> None | Inr (st', out) \<Rightarrow> Some (st', out = Appended)) =
      Some (st', True)" by simp
    from log.append_own [OF assms(1) this] show "journal_get st' (je_operationId e) = Some e" .
  }
  show "i \<noteq> je_operationId e \<or> out = JournalFull \<Longrightarrow>
      journal_get st' i = journal_get st i \<or>
      journal_get st' i = None \<and> (\<exists>x. journal_get st i = Some x \<and> isTerminalStatus (je_status x))"
    using log.append_other [OF assms(1) app, of i] by auto
qed

lemma job_append_open:
  assumes "keyed_map (st_entries st)" and "journal_append rt policy t e st = Inr (st', out)"
    and "i \<noteq> je_operationId e \<or> out = JournalFull" and "journal_get st i = Some x" and "\<not> isTerminalStatus (je_status x)"
  shows "journal_get st' i = Some x"
  using job_append(3) [OF assms(1-3)] assms(4,5) by auto

lemma job_append_life:
  assumes "keyed_map (st_entries st)" and "journal_append rt policy t e st = Inr (st', out)"
    and "case journal_get st (je_operationId e) of None \<Rightarrow> first_status (je_status e) | Some x \<Rightarrow> follows_status (je_status x) (je_status e)"
  shows "life_step (\<lambda>i. map_option je_status (journal_get st i)) (\<lambda>i. map_option je_status (journal_get st' i))"
proof
  fix i
  have app: "(case journal_append rt policy t e st of Inl _ \<Rightarrow> None | Inr (st', out) \<Rightarrow> Some (st', out = Appended)) =
      Some (st', out = Appended)" using assms(2) by simp
  from log.append_life [where first = first_status and follows = follows_status, OF assms(1) app assms(3)]
  show "operation_log.life isTerminalStatus first_status follows_status
      (map_option je_status (journal_get st i)) (map_option je_status (journal_get st' i))"
    by (simp add: log.status_of_def)
qed

text \<open>A transition appends one record and changes nothing else but the events.\<close>

lemma transition_parts:
  assumes "transition opts seq now t e nx en = Inr (en', e')"
  obtains out where "journal_append (jo_rt opts) (jo_policy opts) t (updated_entry seq now e nx) (en_store en) = Inr (en_store en', out)"
    and "en_queue en' = en_queue en" and "en_tasks en' = en_tasks en" and "en_accepted en' = en_accepted en"
    and "en_ids en' = en_ids en" and "en_effects en' = en_effects en" and "en_awaiting en' = en_awaiting en"
    and "je_operationId e' = je_operationId e"
  using assms
  by (auto simp: transition_def Let_def emit_def unrecorded_entry_def updated_entry_def
      split: prod.splits append_outcome.splits if_splits)

lemma updated_entry_simps [simp]:
  "je_operationId (updated_entry seq now e nx) = je_operationId e" "je_status (updated_entry seq now e nx) = nx_status nx"
  by (simp_all add: updated_entry_def)

lemma runEffect_status: "isTerminalStatus (nx_status (runEffect_next known i kind outcome)) \<and>
    nx_status (runEffect_next known i kind outcome) \<noteq> str ''cancelled''"
  by (cases outcome) (simp_all add: runEffect_next_def next_status_def unsupported_next_def del: str_simps)

subsection \<open>Every step keeps the invariant and moves operations along their life\<close>

text \<open>
  A final record stays as it is or is forgotten, a forgotten one does not come back, and an operation
  nobody holds is not taken up again.
\<close>

definition held :: "engine \<Rightarrow> jsstring list" where
  "held en = pending_ids en @ accepted_ids en @ task_ids en"

definition final_kept :: "engine \<Rightarrow> engine \<Rightarrow> bool" where
  "final_kept en en' \<longleftrightarrow>
     (\<forall>i \<in> set (en_ids en). pred_option (\<lambda>x. isTerminalStatus (je_status x)) (journal_get (en_store en) i) \<longrightarrow>
        journal_get (en_store en') i = journal_get (en_store en) i \<or> journal_get (en_store en') i = None) \<and>
     set (en_ids en) \<subseteq> set (en_ids en') \<and> set (held en') \<inter> set (en_ids en) \<subseteq> set (held en)"

definition step_ok :: "job_options \<Rightarrow> engine \<Rightarrow> engine \<Rightarrow> bool" where
  "step_ok opts en en' \<longleftrightarrow> job_inv opts en' \<and> life_step (job_status en) (job_status en') \<and> final_kept en en'"

lemma step_ok_same:
  "job_inv opts en' \<Longrightarrow> en_store en' = en_store en \<Longrightarrow> en_ids en' = en_ids en \<Longrightarrow> set (held en') \<subseteq> set (held en) \<Longrightarrow>
   step_ok opts en en'"
  by (auto simp: step_ok_def job_status_def log.life_refl final_kept_def)

text \<open>What a step that appends one record has to show.\<close>

lemma append_step_ok:
  assumes "job_inv opts en'" and "keyed_map (st_entries (en_store en))"
    and app: "journal_append rt policy t e (en_store en) = Inr (en_store en', out)"
    and "case journal_get (en_store en) (je_operationId e) of
        None \<Rightarrow> je_operationId e \<notin> set (en_ids en) \<and> je_status e = str ''accepted''
      | Some x \<Rightarrow> follows_status (je_status x) (je_status e)"
    and "set (en_ids en) \<subseteq> set (en_ids en')" and "set (held en') \<inter> set (en_ids en) \<subseteq> set (held en)"
  shows "step_ok opts en en'"
proof -
  have "life_step (job_status en) (job_status en')"
    using job_append_life [OF assms(2) app] assms(4)
    by (auto simp: job_status_def first_status_def simp del: str_simps split: option.splits)
  moreover have "final_kept en en'"
    unfolding final_kept_def
  proof (intro conjI ballI impI)
    fix i assume i: "i \<in> set (en_ids en)" "pred_option (\<lambda>x. isTerminalStatus (je_status x)) (journal_get (en_store en) i)"
    then have "i \<noteq> je_operationId e"
      using assms(4) by (auto simp: follows_status_def simp del: str_simps split: option.splits)
    then show "journal_get (en_store en') i = journal_get (en_store en) i \<or> journal_get (en_store en') i = None"
      using job_append(3) [OF assms(2) app, of i] by metis
  qed (rule assms(5), rule assms(6))
  ultimately show ?thesis using assms(1) by (simp add: step_ok_def)
qed

lemma has_status_mono: "has_status en i P \<Longrightarrow> (\<And>s. P s \<Longrightarrow> Q s) \<Longrightarrow> has_status en i Q"
  by (auto simp: has_status_def)

lemma held_status:
  assumes "job_inv opts en" and "journal_append rt policy t e (en_store en) = Inr (en_store en', out)"
    and "i \<noteq> je_operationId e \<or> out = JournalFull" and "has_status en i P" and "\<And>s. P s \<Longrightarrow> \<not> isTerminalStatus s"
  shows "has_status en' i P"
  using assms job_append_open [of "en_store en" rt policy t e "en_store en'" out i]
  by (auto simp: has_status_def job_inv_def)

lemma held_ids:
  assumes "journal_append rt policy t e (en_store en) = Inr (en_store en', out)" and "job_inv opts en"
    and "journal_get (en_store en') i \<noteq> None"
  shows "i \<in> insert (je_operationId e) (set (en_ids en))"
  using job_append(3) [of "en_store en" rt policy t e "en_store en'" out i] assms
  by (cases "i = je_operationId e") (auto simp: job_inv_def)

lemma task_ok_other:
  assumes "job_inv opts en" and "journal_append rt policy t e (en_store en) = Inr (en_store en', out)"
    and "task_ok en k" and "tk_id (ta_ticket k) \<noteq> je_operationId e" 
    and "at (q_handles (en_queue en')) (ta_handle k) = at (q_handles (en_queue en)) (ta_handle k)"
  shows "task_ok en' k"
proof -
  have "has_status en' (tk_id (ta_ticket k)) (\<lambda>s. s = str ''accepted'' \<or> (\<exists>b. ta_phase k = InEffect b) \<and> s = str ''running'')"
    using assms(3,4) by (intro held_status [OF assms(1,2)]) (auto simp: task_ok_def simp del: str_simps)
  with assms(3,5) show ?thesis by (simp add: task_ok_def del: str_simps)
qed

lemma accept_ok:
  assumes inv: "job_inv opts en" and new: "i \<notin> set (en_ids en)"
    and "submit_accept opts context i seq now t request actor repo en = Inr (en', r)"
  shows "step_ok opts en en'"
proof (cases "case context of None \<Rightarrow> None | Some c \<Rightarrow> checkPreconditions c")
  case (Some p)
  with assms show ?thesis by (intro step_ok_same) (simp_all add: submit_accept_def)
next
  case None
  let ?e = "accepted_entry opts i seq now request actor repo"
  from None assms(3) obtain out where app: "journal_append (jo_rt opts) (jo_policy opts) t ?e (en_store en) = Inr (en_store en', out)"
    and same: "en_queue en' = en_queue en" "en_tasks en' = en_tasks en" "en_ids en' = i # en_ids en"
    and acc: "en_accepted en' = (if out = Appended then \<lparr>su_entry = ?e, su_request = request, su_actor = actor,
      su_digest = je_payloadDigest ?e\<rparr> # en_accepted en else en_accepted en)"
    by (auto simp: submit_accept_def Let_def split: prod.splits append_outcome.splits)
  have e: "je_operationId ?e = i" "je_status ?e = str ''accepted''" by (simp_all add: accepted_entry_def del: str_simps)
  have keyed: "keyed_map (st_entries (en_store en))" using inv by (simp add: job_inv_def)
  have none: "journal_get (en_store en) i = None" using inv new by (auto simp: job_inv_def)
  have ids: "set (pending_ids en @ accepted_ids en @ task_ids en) \<subseteq> set (en_ids en)" using inv by (simp add: job_inv_def)
  have st: "has_status en' j (\<lambda>s. s = str ''accepted'')" if "j \<in> set (pending_ids en' @ accepted_ids en')" for j
  proof (cases "j = i")
    case True
    with that ids new have "out = Appended"
      by (auto simp: acc same pending_ids_def accepted_ids_def split: if_splits)
    with job_append(2) [OF keyed app] e True show ?thesis by (simp add: has_status_def del: str_simps)
  next
    case False
    with that have "has_status en j (\<lambda>s. s = str ''accepted'')"
      using inv by (auto simp: job_inv_def acc same pending_ids_def accepted_ids_def e split: if_splits simp del: str_simps)
    with False show ?thesis by (intro held_status [OF inv app]) (auto simp: e simp del: str_simps)
  qed
  have tasks: "task_ok en' k" if "k \<in> set (en_tasks en')" for k
    using that inv ids new by (intro task_ok_other [OF inv app]) (auto simp: same e job_inv_def task_ids_def)
  have "job_inv opts en'"
    unfolding job_inv_def
    using inv ids new st tasks job_append(1) [OF keyed app] held_ids [OF app inv]
    by (auto simp: job_inv_def same acc e pending_ids_def accepted_ids_def task_ids_def simp del: str_simps split: if_splits)
  then show ?thesis
    by (rule append_step_ok [OF _ keyed app]) (use none new in \<open>auto simp: e same acc held_def pending_ids_def accepted_ids_def task_ids_def simp del: str_simps split: if_splits\<close>)
qed

lemma start_tasks_props:
  "k \<in> set (start_tasks en h ts) \<Longrightarrow>
   h \<le> ta_handle k \<and> at ts (ta_handle k - h) = Some (ta_ticket k) \<and> \<not> orphan en (ta_ticket k) \<and>
   journal_get (en_store en) (tk_id (ta_ticket k)) = Some (ta_entry k) \<and> ta_phase k = Starting"
proof (induction ts arbitrary: h)
  case (Cons t ts)
  from Cons.prems consider "k \<in> set (start_tasks en (h + 1) ts)"
    | e w where "journal_get (en_store en) (tk_id t) = Some e" "map_of (en_awaiting en) (tk_id t) = Some w"
      "k = \<lparr>ta_handle = h, ta_ticket = t, ta_actor = aw_actor w, ta_entry = e, ta_phase = Starting\<rparr>"
    by (auto split: option.splits)
  then show ?case
  proof cases
    case 1
    note IH = Cons.IH [OF this]
    then obtain m where "ta_handle k = Suc (h + m)" by (auto dest: le_Suc_ex)
    with IH show ?thesis by (simp add: Suc_diff_le)
  qed (simp add: orphan_def)
qed simp

lemma start_tasks_ids:
  "map (\<lambda>k. tk_id (ta_ticket k)) (start_tasks en h ts) = map tk_id (filter (\<lambda>t. \<not> orphan en t) ts)"
  by (induction en h ts rule: start_tasks.induct) (auto simp: orphan_def split: option.splits)

lemma start_tasks_handles: "sorted_wrt (<) (map ta_handle (start_tasks en h ts))"
proof (induction en h ts rule: start_tasks.induct)
  case (2 en h t ts)
  have "h + 1 \<le> ta_handle k" if "k \<in> set (start_tasks en (h + 1) ts)" for k
    using start_tasks_props [OF that] by simp
  with 2 show ?case by (fastforce split: option.split)
qed simp

lemma at_append: "at xs i = Some v \<Longrightarrow> at (xs @ ys) i = Some v"
  by (auto simp: at_def nth_append split: if_splits)

lemma pump_ok:
  assumes inv: "job_inv opts en"
  shows "step_ok opts en (pump opts en)"
proof (rule step_ok_same)
  obtain q started where run: "queue_run (jo_limits opts) (orphan en) (en_queue en) = (q, started)" by fastforce
  let ?n = "length (q_handles (en_queue en))" and ?en = "pump opts en"
  let ?new = "start_tasks en (length (q_handles (en_queue en))) started"
  have en': "?en = en\<lparr>en_queue := q, en_tasks := en_tasks en @ ?new\<rparr>"
    by (simp add: pump_def run)
  show "en_store ?en = en_store en" "en_ids ?en = en_ids en" by (simp_all add: en')
  from queue_run_parts [OF run] have handles: "q_handles q = q_handles (en_queue en) @ map (\<lambda>t. (t, orphan en t)) started"
    and pending: "mset (q_pending (en_queue en)) = mset started + mset (q_pending q)" by simp_all
  have q: "q_inv (jo_limits opts) q"
    using queue_system.steps_inv [OF queue_run_steps [of "jo_limits opts" "en_queue en" "orphan en"]] inv run
    by (simp add: job_inv_def)
  have split: "mset (pending_ids en @ accepted_ids en @ task_ids en) =
      mset (map tk_id started @ map tk_id (q_pending q) @ accepted_ids en @ task_ids en)"
    using arg_cong [OF pending, of "image_mset tk_id"] by (simp add: pending_ids_def)
  have tickets: "set started \<union> set (q_pending q) = set (q_pending (en_queue en))"
    using arg_cong [OF pending, of set_mset] by simp
  with split inv have d: "distinct (map tk_id started @ map tk_id (q_pending q) @ accepted_ids en @ task_ids en)"
    using mset_eq_imp_distinct_iff unfolding job_inv_def by metis
  have ids: "pending_ids ?en @ accepted_ids ?en @ task_ids ?en =
      map tk_id (q_pending q) @ accepted_ids en @ task_ids en @ map tk_id (filter (\<lambda>t. \<not> orphan en t) started)"
    by (simp add: pending_ids_def accepted_ids_def task_ids_def en' start_tasks_ids)
  have sub: "set (map tk_id started) \<union> set (map tk_id (q_pending q)) = set (pending_ids en)"
    using tickets by (auto simp: pending_ids_def)
  show "set (held ?en) \<subseteq> set (held en)" unfolding held_def ids using sub by auto
  have new: "task_ok ?en k" if "k \<in> set ?new" for k
  proof -
    note p = start_tasks_props [OF that]
    then have t: "ta_ticket k \<in> set started" by (auto dest: at_eq_SomeD)
    have "at (q_handles q) (ta_handle k) = at (map (\<lambda>t. (t, orphan en t)) started) (ta_handle k - ?n)"
      using p by (auto simp: handles at_def nth_append split: if_splits)
    then have "at (q_handles q) (ta_handle k) = Some (ta_ticket k, False)"
      using p by (auto simp: at_def split: if_splits)
    moreover have "ta_ticket k \<in> set (q_pending (en_queue en))" using t tickets by blast
    then have "has_status en (tk_id (ta_ticket k)) (\<lambda>s. s = str ''accepted'') \<and> tk_mode (ta_ticket k) = WriteMode"
      using inv by (simp add: job_inv_def pending_ids_def del: str_simps)
    moreover have "je_operationId (ta_entry k) = tk_id (ta_ticket k)"
      using p inv by (auto simp: job_inv_def journal_get_def keyed_get)
    ultimately show ?thesis by (auto simp: task_ok_def en' has_status_def simp del: str_simps)
  qed
  have old: "task_ok ?en k" if "k \<in> set (en_tasks en)" for k
  proof -
    have "task_ok en k" using that inv by (simp add: job_inv_def)
    then show ?thesis by (auto simp: task_ok_def en' handles has_status_def at_append simp del: str_simps)
  qed
  have "ta_handle k < ?n" if "k \<in> set (en_tasks en)" for k
  proof -
    have "task_ok en k" using that inv by (simp add: job_inv_def)
    then show ?thesis by (auto simp: task_ok_def at_def split: if_splits)
  qed
  moreover have "?n \<le> ta_handle k" if "k \<in> set ?new" for k using start_tasks_props [OF that] by simp
  ultimately have dh: "distinct (map ta_handle (en_tasks en @ ?new))"
    using inv start_tasks_handles [of en ?n started, unfolded strict_sorted_iff] by (fastforce simp: job_inv_def)
  show "job_inv opts ?en"
    unfolding job_inv_def ids
  proof (intro conjI ballI)
    show "distinct (map tk_id (q_pending q) @ accepted_ids en @ task_ids en @ map tk_id (filter (\<lambda>t. \<not> orphan en t) started))"
      using d by (auto simp: distinct_map_filter)
    show "set (map tk_id (q_pending q) @ accepted_ids en @ task_ids en @ map tk_id (filter (\<lambda>t. \<not> orphan en t) started))
        \<subseteq> set (en_ids ?en)"
      using inv sub by (auto simp: job_inv_def en')
    fix i assume "i \<in> set (pending_ids ?en @ accepted_ids ?en)"
    then have "i \<in> set (pending_ids en @ accepted_ids en)" using sub by (auto simp: pending_ids_def accepted_ids_def en')
    then show "has_status ?en i (\<lambda>s. s = str ''accepted'')" using inv by (simp add: job_inv_def has_status_def en' del: str_simps)
  next
    fix t assume "t \<in> set (q_pending (en_queue ?en))"
    then show "tk_mode t = WriteMode" using inv tickets by (auto simp: job_inv_def en')
  next
    fix k assume "k \<in> set (en_tasks ?en)"
    then show "task_ok ?en k" using old new by (auto simp: en')
  qed (use inv q dh in \<open>simp_all add: job_inv_def en'\<close>)
qed

lemma mset_remove1_map: "x \<in> set xs \<Longrightarrow> add_mset (f x) (mset (map f (remove1 x xs))) = mset (map f xs)"
  by (induction xs) auto

text \<open>A record that follows the one before, written by the one who holds the operation and then lets it go.\<close>

lemma release_ok:
  assumes inv: "job_inv opts en"
    and app: "journal_append (jo_rt opts) (jo_policy opts) t e (en_store en) = Inr (en_store en', out)"
    and life: "has_status en (je_operationId e) (\<lambda>s. follows_status s (je_status e))"
    and held: "add_mset (je_operationId e) (mset (pending_ids en' @ accepted_ids en' @ task_ids en')) =
      mset (pending_ids en @ accepted_ids en @ task_ids en)"
    and same: "en_ids en' = en_ids en" "set (pending_ids en' @ accepted_ids en') \<subseteq> set (pending_ids en @ accepted_ids en)"
      "set (q_pending (en_queue en')) \<subseteq> set (q_pending (en_queue en))" "set (en_tasks en') \<subseteq> set (en_tasks en)"
      "\<And>k. k \<in> set (en_tasks en') \<Longrightarrow> at (q_handles (en_queue en')) (ta_handle k) = at (q_handles (en_queue en)) (ta_handle k)"
    and q: "q_inv (jo_limits opts) (en_queue en')" and handles: "distinct (map ta_handle (en_tasks en'))"
  shows "step_ok opts en en'"
proof -
  have keyed: "keyed_map (st_entries (en_store en))" using inv by (simp add: job_inv_def)
  let ?held = "pending_ids en' @ accepted_ids en' @ task_ids en'"
  have "mset (je_operationId e # ?held) = mset (pending_ids en @ accepted_ids en @ task_ids en)" using held by simp
  then have d: "distinct (je_operationId e # ?held)"
    and sub: "set (je_operationId e # ?held) = set (pending_ids en @ accepted_ids en @ task_ids en)"
    using inv mset_eq_imp_distinct_iff mset_eq_setD unfolding job_inv_def by metis+
  have status: "has_status en' i (\<lambda>s. s = str ''accepted'')" if "i \<in> set (pending_ids en' @ accepted_ids en')" for i
  proof -
    have "has_status en i (\<lambda>s. s = str ''accepted'')" using that same(2) inv unfolding job_inv_def by blast
    moreover have "i \<noteq> je_operationId e" using d that by auto
    ultimately show ?thesis by (intro held_status [OF inv app]) (auto simp del: str_simps)
  qed
  have tasks: "task_ok en' k" if "k \<in> set (en_tasks en')" for k
  proof (rule task_ok_other [OF inv app])
    show "task_ok en k" using that same(4) inv by (auto simp: job_inv_def)
    have "tk_id (ta_ticket k) \<in> set (task_ids en')" using that by (auto simp: task_ids_def)
    with d show "tk_id (ta_ticket k) \<noteq> je_operationId e" by auto
  qed (use same(5) that in simp)
  have known: "i \<in> set (en_ids en)" if "journal_get (en_store en') i \<noteq> None" for i
    using held_ids [OF app inv that] sub inv unfolding job_inv_def by auto
  have "job_inv opts en'"
    unfolding job_inv_def
  proof (intro conjI ballI allI impI)
    show "keyed_map (st_entries (en_store en'))" by (rule job_append(1) [OF keyed app])
    show "distinct ?held" using d by simp
    show "set ?held \<subseteq> set (en_ids en')" using sub inv same(1) unfolding job_inv_def by auto
  qed (use q handles status tasks known same inv in \<open>auto simp: job_inv_def simp del: str_simps\<close>)
  then show ?thesis
    by (rule append_step_ok [OF _ keyed app]) (use life same(1) sub in \<open>auto simp: has_status_def held_def\<close>)
qed

lemma follows_simps [simp]:
  "follows_status (str ''accepted'') b \<longleftrightarrow> b = str ''running'' \<or> isTerminalStatus b"
  "follows_status (str ''running'') b \<longleftrightarrow> isTerminalStatus b \<and> b \<noteq> str ''cancelled''"
  by (simp_all add: follows_status_def str_inj del: str_simps)

lemma enqueue_ok:
  assumes inv: "job_inv opts en" and s: "s \<in> set (en_accepted en)"
    and step: "submit_enqueue opts seq now t s en = Inr (en', r)"
  shows "step_ok opts en en'"
proof -
  let ?i = "je_operationId (su_entry s)"
  let ?en = "emit (OperationEvent (recordFor (su_entry s)) (je_repositoryId (su_entry s))) (en\<lparr>en_accepted := remove1 s (en_accepted en)\<rparr>)"
  obtain q er where enq: "queue_enqueue (jo_limits opts) ?i (su_actor s) (je_repositoryId (su_entry s)) WriteMode (su_request s) (en_queue en) = (q, er)"
    by fastforce
  have acc: "add_mset ?i (mset (map (\<lambda>s. je_operationId (su_entry s)) (remove1 s (en_accepted en)))) = mset (accepted_ids en)"
    using mset_remove1_map [OF s] unfolding accepted_ids_def .
  have i: "?i \<in> set (accepted_ids en)" using s by (auto simp: accepted_ids_def)
  then have st: "has_status en ?i (\<lambda>s. s = str ''accepted'')" using inv by (simp add: job_inv_def del: str_simps)
  have q_inv: "q_inv (jo_limits opts) (en_queue en)" using inv by (simp add: job_inv_def)
  show ?thesis
  proof (cases "\<exists>ticket. er = Enqueued ticket")
    case True
    then obtain ticket where er: "er = Enqueued ticket" by blast
    have q: "q = en_queue en\<lparr>q_pending := q_pending (en_queue en) @ [ticket]\<rparr>" "tk_id ticket = ?i" "tk_mode ticket = WriteMode"
      using enq er by (auto simp: queue_enqueue_def Let_def split: if_splits)
    define en1 where "en1 = ?en\<lparr>en_queue := q,
      en_awaiting := AList.update ?i \<lparr>aw_actor = su_actor s, aw_digest = su_digest s\<rparr> (en_awaiting en)\<rparr>"
    have en': "en' = pump opts en1" using step enq er
      by (auto simp: submit_enqueue_def submit_queued_def Let_def en1_def emit_def)
    have fields: "en_store en1 = en_store en" "en_queue en1 = q" "en_tasks en1 = en_tasks en"
      "en_accepted en1 = remove1 s (en_accepted en)" "en_ids en1 = en_ids en"
      by (simp_all add: en1_def emit_def)
    have held_eq: "mset (pending_ids en1 @ accepted_ids en1 @ task_ids en1) = mset (pending_ids en @ accepted_ids en @ task_ids en)"
      using acc by (simp add: pending_ids_def accepted_ids_def task_ids_def fields q)
    have "q_inv (jo_limits opts) q" using enqueue_inv [OF q_inv] enq by (metis fst_conv)
    moreover have facts: "distinct (pending_ids en1 @ accepted_ids en1 @ task_ids en1)"
      "set (pending_ids en1 @ accepted_ids en1 @ task_ids en1) = set (pending_ids en @ accepted_ids en @ task_ids en)"
      using held_eq inv mset_eq_imp_distinct_iff mset_eq_setD unfolding job_inv_def by metis+
    moreover from facts(2) have sets: "set (held en1) = set (held en)" unfolding held_def .
    moreover have "set (pending_ids en1 @ accepted_ids en1) = set (pending_ids en @ accepted_ids en)"
    proof -
      have "insert ?i (set (accepted_ids en1)) = set (accepted_ids en)"
        using acc unfolding accepted_ids_def fields by (metis set_mset_add_mset_insert set_mset_mset)
      then show ?thesis by (auto simp: pending_ids_def fields q)
    qed
    ultimately have "job_inv opts en1"
      using inv unfolding job_inv_def fields task_ok_def has_status_def
      by (auto simp: q simp del: str_simps)
    from pump_ok [OF this] show ?thesis unfolding en' by (simp add: step_ok_def job_status_def final_kept_def fields sets)
  next
    case False
    let ?nx = "refused_next ?i (enqueue_problem (depthFor (en_queue en) (su_actor s)) er)"
    have "q = en_queue en" using False enq by (auto simp: queue_enqueue_def Let_def split: if_splits)
    with step enq False have "submit_refused opts seq now t (su_entry s)
        (enqueue_problem (depthFor (en_queue en) (su_actor s)) er) (?en\<lparr>en_queue := en_queue en\<rparr>) = Inr (en', r)"
      by (cases er) (simp_all add: submit_enqueue_def Let_def)
    then obtain e' where
      tr: "transition opts seq now t (su_entry s) ?nx (?en\<lparr>en_queue := en_queue en\<rparr>) = Inr (en', e')"
      unfolding submit_refused_def by (auto split: prod.splits)
    have nx: "nx_status ?nx = str ''failed''" by (simp add: refused_next_def next_status_def del: str_simps)
    from tr obtain out where
      app: "journal_append (jo_rt opts) (jo_policy opts) t (updated_entry seq now (su_entry s) ?nx) (en_store (?en\<lparr>en_queue := en_queue en\<rparr>)) = Inr (en_store en', out)"
      and fields: "en_queue en' = en_queue (?en\<lparr>en_queue := en_queue en\<rparr>)" "en_tasks en' = en_tasks (?en\<lparr>en_queue := en_queue en\<rparr>)"
        "en_accepted en' = en_accepted (?en\<lparr>en_queue := en_queue en\<rparr>)"
        "en_ids en' = en_ids (?en\<lparr>en_queue := en_queue en\<rparr>)" by (rule transition_parts)
    show ?thesis
    proof (rule release_ok [OF inv])
      show "journal_append (jo_rt opts) (jo_policy opts) t (updated_entry seq now (su_entry s) ?nx) (en_store en) = Inr (en_store en', out)"
        using app by (simp add: emit_def)
      show "has_status en (je_operationId (updated_entry seq now (su_entry s) ?nx))
          (\<lambda>x. follows_status x (je_status (updated_entry seq now (su_entry s) ?nx)))"
        using st by (auto simp: nx has_status_def simp del: str_simps)
      show "add_mset (je_operationId (updated_entry seq now (su_entry s) ?nx)) (mset (pending_ids en' @ accepted_ids en' @ task_ids en')) =
          mset (pending_ids en @ accepted_ids en @ task_ids en)"
        using acc by (simp add: pending_ids_def accepted_ids_def task_ids_def fields emit_def)
      show "set (pending_ids en' @ accepted_ids en') \<subseteq> set (pending_ids en @ accepted_ids en)"
        using set_remove1_subset [of s "en_accepted en"] by (auto simp: pending_ids_def accepted_ids_def fields emit_def)
    qed (use inv q_inv in \<open>simp_all add: fields emit_def job_inv_def\<close>)
  qed
qed

lemma task_entry_status: "job_inv opts en \<Longrightarrow> k \<in> set (en_tasks en) \<Longrightarrow> task_ok en k"
  by (simp add: job_inv_def)

lemma start_ok:
  assumes inv: "job_inv opts en" and k: "k \<in> set (en_tasks en)" "ta_phase k = Starting"
    and step: "task_start opts seq now t k en = Inr en'"
  shows "step_ok opts en en'"
proof -
  let ?nx = "(next_status ''running'')\<lparr>nx_started := True\<rparr>"
  let ?u = "updated_entry seq now (ta_entry k) ?nx"
  from step obtain en1 e where tr: "transition opts seq now t (ta_entry k) ?nx en = Inr (en1, e)"
    and en': "en' = en1\<lparr>en_tasks := map (\<lambda>x. if x = k then k\<lparr>ta_entry := e,
      ta_phase := InEffect (rq_kind (tk_job (ta_ticket k)) \<in> set (en_effects en1))\<rparr> else x) (en_tasks en1)\<rparr>"
    by (auto simp: task_start_def split: prod.splits)
  from tr obtain out where app1: "journal_append (jo_rt opts) (jo_policy opts) t ?u (en_store en) = Inr (en_store en1, out)"
    and fields: "en_queue en1 = en_queue en" "en_tasks en1 = en_tasks en" "en_accepted en1 = en_accepted en"
      "en_ids en1 = en_ids en" and e: "je_operationId e = je_operationId (ta_entry k)" by (rule transition_parts)
  have app: "journal_append (jo_rt opts) (jo_policy opts) t ?u (en_store en) = Inr (en_store en', out)"
    using app1 by (simp add: en')
  have ok: "task_ok en k" using inv k(1) by (rule task_entry_status)
  then have id: "je_operationId ?u = tk_id (ta_ticket k)" by (simp add: task_ok_def)
  have st: "has_status en (tk_id (ta_ticket k)) (\<lambda>s. s = str ''accepted'')" using ok k(2) by (simp add: task_ok_def del: str_simps)
  have keyed: "keyed_map (st_entries (en_store en))" using inv by (simp add: job_inv_def)
  have run: "je_status ?u = str ''running''" by (simp add: next_status_def del: str_simps)
  define k' where "k' = k\<lparr>ta_entry := e, ta_phase := InEffect (rq_kind (tk_job (ta_ticket k)) \<in> set (en_effects en1))\<rparr>"
  have tasks: "en_tasks en' = map (\<lambda>x. if x = k then k' else x) (en_tasks en)" by (simp add: en' fields k'_def)
  have held: "pending_ids en' = pending_ids en" "accepted_ids en' = accepted_ids en" "task_ids en' = task_ids en"
    by (auto simp: pending_ids_def accepted_ids_def task_ids_def tasks en' fields k'_def)
  have hs: "map ta_handle (en_tasks en') = map ta_handle (en_tasks en)" by (auto simp: tasks k'_def)
  have d: "distinct (pending_ids en @ accepted_ids en @ task_ids en)" using inv by (simp add: job_inv_def)
  have in_tasks: "tk_id (ta_ticket k) \<in> set (task_ids en)" using k by (auto simp: task_ids_def)
  have status: "has_status en' i (\<lambda>s. s = str ''accepted'')" if "i \<in> set (pending_ids en @ accepted_ids en)" for i
  proof -
    have "i \<noteq> tk_id (ta_ticket k)" using that d in_tasks by auto
    moreover have "has_status en i (\<lambda>s. s = str ''accepted'')" using that inv by (simp add: job_inv_def del: str_simps)
    ultimately show ?thesis using id by (intro held_status [OF inv app]) (auto simp del: str_simps)
  qed
  have "has_status en' (tk_id (ta_ticket k)) (\<lambda>s. s = str ''accepted'' \<or> s = str ''running'')"
  proof (cases out)
    case Appended
    with job_append(2) [OF keyed app] id run show ?thesis by (simp add: has_status_def del: str_simps)
  next
    case JournalFull
    have "has_status en' (tk_id (ta_ticket k)) (\<lambda>s. s = str ''accepted'')"
      using JournalFull st by (intro held_status [OF inv app]) (auto simp del: str_simps)
    then show ?thesis by (auto simp: has_status_def)
  qed
  then have own: "task_ok en' k'"
    using ok e by (auto simp: task_ok_def k'_def en' fields simp del: str_simps)
  have other: "task_ok en' x" if "x \<in> set (en_tasks en)" "x \<noteq> k" for x
  proof (rule task_ok_other [OF inv app])
    show "task_ok en x" using inv that(1) by (rule task_entry_status)
    have "inj_on (\<lambda>k. tk_id (ta_ticket k)) (set (en_tasks en))" using d by (simp add: task_ids_def distinct_map)
    with that k(1) show "tk_id (ta_ticket x) \<noteq> je_operationId ?u" unfolding id by (auto dest: inj_onD)
  qed (simp add: en' fields)
  have all_tasks: "task_ok en' x" if "x \<in> set (en_tasks en')" for x
    using that own other k(1) unfolding tasks by (auto split: if_splits)
  have same: "en_queue en' = en_queue en" "en_ids en' = en_ids en" by (simp_all add: en' fields)
  have "job_inv opts en'"
    unfolding job_inv_def held hs
  proof (intro conjI ballI allI impI)
    show "keyed_map (st_entries (en_store en'))" by (rule job_append(1) [OF keyed app])
    fix i assume "journal_get (en_store en') i \<noteq> None"
    from held_ids [OF app inv this] show "i \<in> set (en_ids en')"
      using inv in_tasks id unfolding job_inv_def by (auto simp: same)
  qed (use inv status all_tasks in \<open>auto simp: job_inv_def same simp del: str_simps\<close>)
  then show ?thesis
    by (rule append_step_ok [OF _ keyed app])
      (use st run id same held in \<open>auto simp: has_status_def held_def simp del: str_simps updated_entry_simps\<close>)
qed

lemma finish_ok:
  assumes inv: "job_inv opts en" and k: "k \<in> set (en_tasks en)"
    and step: "task_finish opts seq now t known outcome k en = Inr en'"
  shows "step_ok opts en en'"
proof -
  let ?nx = "runEffect_next known (je_operationId (ta_entry k)) (rq_kind (tk_job (ta_ticket k))) outcome"
  let ?u = "updated_entry seq now (ta_entry k) ?nx"
  from step obtain en1 e where tr: "transition opts seq now t (ta_entry k) ?nx en = Inr (en1, e)"
    and en': "en' = en1\<lparr>en_awaiting := AList.delete (tk_id (ta_ticket k)) (en_awaiting en1),
             en_queue := queue_release (ta_handle k) (en_queue en1), en_tasks := remove1 k (en_tasks en1)\<rparr>"
    by (auto simp: task_finish_def split: prod.splits)
  from tr obtain out where app: "journal_append (jo_rt opts) (jo_policy opts) t ?u (en_store en) = Inr (en_store en1, out)"
    and fields: "en_queue en1 = en_queue en" "en_tasks en1 = en_tasks en" "en_accepted en1 = en_accepted en"
      "en_ids en1 = en_ids en" by (rule transition_parts)
  have ok: "task_ok en k" using inv k by (rule task_entry_status)
  then have h: "at (q_handles (en_queue en)) (ta_handle k) = Some (ta_ticket k, False)"
    and id: "je_operationId ?u = tk_id (ta_ticket k)" by (simp_all add: task_ok_def)
  have d: "distinct (map ta_handle (en_tasks en))" using inv by (simp add: job_inv_def)
  show ?thesis
  proof (rule release_ok [OF inv])
    show "journal_append (jo_rt opts) (jo_policy opts) t ?u (en_store en) = Inr (en_store en', out)"
      using app by (simp add: en')
    show "has_status en (je_operationId ?u) (\<lambda>s. follows_status s (je_status ?u))"
      using ok runEffect_status unfolding id task_ok_def has_status_def
      by (auto simp del: str_simps)
    have "add_mset (tk_id (ta_ticket k)) (mset (map (\<lambda>k. tk_id (ta_ticket k)) (remove1 k (en_tasks en)))) = mset (task_ids en)"
      unfolding task_ids_def by (rule mset_remove1_map [OF k])
    then show "add_mset (je_operationId ?u) (mset (pending_ids en' @ accepted_ids en' @ task_ids en')) =
        mset (pending_ids en @ accepted_ids en @ task_ids en)"
      unfolding id by (simp add: pending_ids_def accepted_ids_def task_ids_def en' fields)
    show "q_inv (jo_limits opts) (en_queue en')"
      using release_inv inv by (auto simp: en' fields job_inv_def)
    show "distinct (map ta_handle (en_tasks en'))"
      using d set_remove1_subset [of k "en_tasks en"] by (auto simp: en' fields distinct_map intro: inj_on_subset)
    fix x assume x: "x \<in> set (en_tasks en')"
    then have "ta_handle x \<noteq> ta_handle k"
      using d k by (auto simp: en' fields distinct_map dest: inj_onD)
    with release_handles(1) [OF h] show "at (q_handles (en_queue en')) (ta_handle x) = at (q_handles (en_queue en)) (ta_handle x)"
      by (simp add: en' fields at_def)
  qed (use set_remove1_subset [of k "en_tasks en"] in \<open>auto simp: pending_ids_def accepted_ids_def en' fields\<close>)
qed

lemma remove_first_mset: "remove_first P xs = Some ys \<Longrightarrow> \<exists>x. P x \<and> mset xs = add_mset x (mset ys)"
proof (induction xs arbitrary: ys)
  case (Cons x xs)
  then show ?case by (fastforce split: if_splits)
qed simp

lemma cancel_ok:
  assumes inv: "job_inv opts en" and step: "job_cancel opts seq now t i actor en = Inr (en', r)"
  shows "step_ok opts en en'"
proof (cases "en' = en")
  case True
  with inv show ?thesis by (intro step_ok_same) simp_all
next
  case False
  with step obtain e where e: "journal_get (en_store en) i = Some e" "je_status e = str ''accepted''"
    and found: "snd (queue_cancel (je_operationId e) (en_queue en))"
    by (auto simp: job_cancel_def Let_def simp del: str_simps split: option.splits if_splits prod.splits)
  let ?c = "cancelled_entry seq now e"
  from found obtain pend where rem: "remove_first (\<lambda>t. tk_id t = je_operationId e) (q_pending (en_queue en)) = Some pend"
    by (auto simp: queue_cancel_def split: option.splits)
  then have cancel: "queue_cancel (je_operationId e) (en_queue en) = (en_queue en\<lparr>q_pending := pend\<rparr>, True)"
    by (simp add: queue_cancel_def)
  from rem remove_first_mset obtain x where x: "tk_id x = je_operationId e" "mset (q_pending (en_queue en)) = add_mset x (mset pend)"
    by blast
  let ?en = "en\<lparr>en_queue := en_queue en\<lparr>q_pending := pend\<rparr>, en_awaiting := AList.delete (je_operationId e) (en_awaiting en)\<rparr>"
  have "bindE (journal_append (jo_rt opts) (jo_policy opts) t ?c (en_store en)) (\<lambda>(st, _).
      Inr (emit (OperationEvent (recordFor ?c) (je_repositoryId ?c)) (?en\<lparr>en_store := st\<rparr>), Submitted (recordFor ?c) False)) = Inr (en', r)"
    using step e cancel False by (simp add: job_cancel_def Let_def del: str_simps split: if_splits)
  then obtain st out where app: "journal_append (jo_rt opts) (jo_policy opts) t ?c (en_store en) = Inr (st, out)"
    and en': "en' = emit (OperationEvent (recordFor ?c) (je_repositoryId ?c)) (?en\<lparr>en_store := st\<rparr>)"
    by (auto split: prod.splits)
  have c: "je_operationId ?c = je_operationId e" "je_status ?c = str ''cancelled''"
    by (simp_all add: cancelled_entry_def del: str_simps)
  have own: "je_operationId e = i" using e inv by (auto simp: job_inv_def journal_get_def keyed_get)
  have ids: "add_mset (je_operationId e) (mset (map tk_id pend)) = mset (pending_ids en)"
    using arg_cong [OF x(2), of "image_mset tk_id"] x(1) by (simp add: pending_ids_def)
  show ?thesis
  proof (rule release_ok [OF inv])
    show "journal_append (jo_rt opts) (jo_policy opts) t ?c (en_store en) = Inr (en_store en', out)"
      using app by (simp add: en')
    show "has_status en (je_operationId ?c) (\<lambda>s. follows_status s (je_status ?c))"
      using e own by (simp add: has_status_def c del: str_simps)
    show "add_mset (je_operationId ?c) (mset (pending_ids en' @ accepted_ids en' @ task_ids en')) =
        mset (pending_ids en @ accepted_ids en @ task_ids en)"
      using ids by (simp add: c pending_ids_def accepted_ids_def task_ids_def en')
    show "set (q_pending (en_queue en')) \<subseteq> set (q_pending (en_queue en))"
      using arg_cong [OF x(2), of set_mset] by (auto simp: en')
    then show "set (pending_ids en' @ accepted_ids en') \<subseteq> set (pending_ids en @ accepted_ids en)"
      by (auto simp: pending_ids_def accepted_ids_def en')
    show "q_inv (jo_limits opts) (en_queue en')"
      using q_inv_subseq [OF _ remove_first_subseq [OF rem]] inv by (simp add: en' job_inv_def)
  qed (use inv in \<open>simp_all add: en' job_inv_def\<close>)
qed

lemma register_ok: "job_inv opts en \<Longrightarrow> step_ok opts en (registerEffect kind en)"
  by (rule step_ok_same) (auto simp: job_inv_def registerEffect_def held_def pending_ids_def accepted_ids_def task_ids_def
      has_status_def task_ok_def simp del: str_simps)

lemma job_step_ok: "job_step opts en en' \<Longrightarrow> job_inv opts en \<Longrightarrow> step_ok opts en en'"
  by (induction rule: job_step.induct)
    (auto intro: accept_ok enqueue_ok pump_ok start_ok finish_ok cancel_ok register_ok)

text \<open>The engine starts on what the journal held, with nothing under way.\<close>

definition job_init :: "engine \<Rightarrow> bool" where
  "job_init en \<longleftrightarrow> (\<exists>effects st. keyed_map (st_entries st) \<and> en = createJobEngine effects st)"

interpretation jobs: transition_system job_init "job_step opts" "job_inv opts" for opts
proof
  fix en assume "job_init en"
  then obtain effects st where st: "keyed_map (st_entries st)" and en: "en = createJobEngine effects st"
    by (auto simp: job_init_def)
  have "q_inv (jo_limits opts) (createQueue :: mutation_request queue)" by (rule queue_system.init_inv) simp
  moreover have "journal_get st i \<noteq> None \<Longrightarrow> i \<in> fst ` set (st_entries st)" for i
    by (auto simp: journal_get_def dest!: map_of_SomeD intro: image_eqI [rotated])
  ultimately show "job_inv opts en"
    using st by (simp add: en createJobEngine_def job_inv_def pending_ids_def accepted_ids_def task_ids_def createQueue_def)
next
  fix en en' assume "job_step opts en en'" "job_inv opts en"
  then show "job_inv opts en'" using job_step_ok by (simp add: step_ok_def)
qed

section \<open>What the engine guarantees\<close>


lemma final_kept_trans:
  assumes "final_kept x y" and "final_kept y z"
  shows "final_kept x z"
  unfolding final_kept_def
proof (intro conjI ballI impI)
  fix i assume i: "i \<in> set (en_ids x)" "pred_option (\<lambda>x. isTerminalStatus (je_status x)) (journal_get (en_store x) i)"
  then have y: "journal_get (en_store y) i = journal_get (en_store x) i \<or> journal_get (en_store y) i = None"
    and "i \<in> set (en_ids y)" using assms(1) unfolding final_kept_def by (auto dest: bspec)
  moreover from y i(2) have "pred_option (\<lambda>x. isTerminalStatus (je_status x)) (journal_get (en_store y) i)" by auto
  ultimately have "journal_get (en_store z) i = journal_get (en_store y) i \<or> journal_get (en_store z) i = None"
    using assms(2) unfolding final_kept_def by (auto dest: bspec)
  with y show "journal_get (en_store z) i = journal_get (en_store x) i \<or> journal_get (en_store z) i = None" by auto
qed (use assms in \<open>auto simp: final_kept_def\<close>)

lemma job_steps_final:
  assumes "(job_step opts)\<^sup>*\<^sup>* en en'" and "job_inv opts en"
  shows "job_inv opts en' \<and> final_kept en en'"
  using assms(1)
proof induction
  case base
  then show ?case using assms(2) by (simp add: final_kept_def)
next
  case (step y z)
  then have ok: "step_ok opts y z" using job_step_ok by blast
  then have "job_inv opts z" by (simp add: step_ok_def)
  moreover from ok step.IH have "final_kept en z" using final_kept_trans by (auto simp: step_ok_def)
  ultimately show ?case ..
qed

text \<open>
  What has finished stays finished: once the record of an operation is final, it is the same record
  ever after, until retention forgets it; it is never run again, retried or rewritten.
\<close>

theorem finished_operations_stay:
  assumes "job_init en0" and "(job_step opts)\<^sup>*\<^sup>* en0 en" and "(job_step opts)\<^sup>*\<^sup>* en en'"
    and "journal_get (en_store en) i = Some e" and "isTerminalStatus (je_status e)"
  shows "journal_get (en_store en') i = Some e \<or> journal_get (en_store en') i = None"
proof -
  have inv: "job_inv opts en" by (rule jobs.reachable_inv [OF assms(1,2)])
  then have "i \<in> set (en_ids en)" using assms(4) by (auto simp: job_inv_def)
  with job_steps_final [OF assms(3) inv] assms(4,5) show ?thesis by (auto simp: final_kept_def)
qed

text \<open>
  C26. A cancelled operation never runs: when \<^verbatim>\<open>cancel\<close> succeeds, the operation was queued and had not
  started, and in no later state is it queued, started or running.
\<close>

theorem cancelled_never_runs:
  assumes "job_init en0" and "(job_step opts)\<^sup>*\<^sup>* en0 en"
    and "job_cancel opts seq now t i actor en = Inr (en1, Submitted rec dup)" and "(job_step opts)\<^sup>*\<^sup>* en1 en'"
  shows "i \<in> set (pending_ids en) \<and> i \<notin> set (task_ids en) \<and> i \<notin> set (held en')"
proof -
  have inv: "job_inv opts en" by (rule jobs.reachable_inv [OF assms(1,2)])
  from assms(3) obtain e where e: "journal_get (en_store en) i = Some e"
    and found: "snd (queue_cancel (je_operationId e) (en_queue en))" and q: "en_queue en1 = fst (queue_cancel (je_operationId e) (en_queue en))"
    and same: "en_tasks en1 = en_tasks en" "en_accepted en1 = en_accepted en" "en_ids en1 = en_ids en"
    by (auto simp: job_cancel_def Let_def simp del: str_simps split: option.splits if_splits prod.splits)
  have own: "je_operationId e = i" using e inv by (auto simp: job_inv_def journal_get_def keyed_get)
  from found own obtain pend where rem: "remove_first (\<lambda>t. tk_id t = i) (q_pending (en_queue en)) = Some pend"
    and p1: "q_pending (en_queue en1) = pend"
    using q by (auto simp: queue_cancel_def split: option.splits)
  from remove_first_mset [OF rem] obtain x where x: "tk_id x = i" "mset (q_pending (en_queue en)) = add_mset x (mset pend)" by blast
  have ids: "add_mset i (mset (pending_ids en1)) = mset (pending_ids en)"
    using arg_cong [OF x(2), of "image_mset tk_id"] x(1) by (simp add: pending_ids_def p1)
  then have "mset (i # held en1) = mset (held en)"
    by (simp add: held_def same accepted_ids_def task_ids_def)
  moreover have "distinct (held en)" using inv by (simp add: job_inv_def held_def)
  ultimately have "distinct (i # held en1)" using mset_eq_imp_distinct_iff by metis
  then have gone: "i \<notin> set (held en1)" by simp
  have "i \<in># mset (pending_ids en)" by (simp flip: ids)
  then have pend: "i \<in> set (pending_ids en)" by simp
  have "job_inv opts en1" using job_step_ok [OF job_step.cancel [OF assms(3)] inv] by (simp add: step_ok_def)
  from job_steps_final [OF assms(4) this] have "final_kept en1 en'" ..
  moreover have "i \<in> set (en_ids en1)" using inv e by (auto simp: job_inv_def same)
  ultimately have "i \<notin> set (held en')" using gone by (auto simp: final_kept_def)
  moreover have "i \<notin> set (task_ids en)" using gone by (auto simp: held_def task_ids_def same)
  ultimately show ?thesis using pend by simp
qed

lemma two_positions:
  assumes "length (filter P xs) \<le> 1" and "i < length xs" and "j < length xs" and "P (xs ! i)" and "P (xs ! j)"
  shows "i = j"
proof -
  have "card {i, j} \<le> card {i. i < length xs \<and> P (xs ! i)}"
    using assms(2-5) by (intro card_mono) auto
  with assms(1) have "card {i, j} \<le> 1" by (simp add: length_filter_conv_card)
  then show ?thesis by (cases "i = j") auto
qed

text \<open>
  C23. One mutation per repository: in every reachable state the started jobs are of pairwise different
  repositories, and there are never more of them than the limit on Git processes.
\<close>

theorem one_mutation_per_repository:
  assumes "job_init en0" and "(job_step opts)\<^sup>*\<^sup>* en0 en"
  shows "distinct (map (\<lambda>k. tk_repositoryId (ta_ticket k)) (en_tasks en)) \<and>
    length (en_tasks en) \<le> maxGlobalGitProcesses (jo_limits opts)"
proof -
  have inv: "job_inv opts en" by (rule jobs.reachable_inv [OF assms])
  then have q: "q_inv (jo_limits opts) (en_queue en)" and d: "distinct (map ta_handle (en_tasks en))"
    by (simp_all add: job_inv_def)
  let ?hs = "q_handles (en_queue en)"
  have h: "ta_handle k < length ?hs \<and> ?hs ! ta_handle k = (ta_ticket k, False) \<and> tk_mode (ta_ticket k) = WriteMode"
    if "k \<in> set (en_tasks en)" for k
    using task_entry_status [OF inv that] by (auto simp: task_ok_def at_def split: if_splits)
  have "k = l" if kl: "k \<in> set (en_tasks en)" "l \<in> set (en_tasks en)"
    "tk_repositoryId (ta_ticket k) = tk_repositoryId (ta_ticket l)" for k l
  proof -
    let ?P = "\<lambda>(t, r). \<not> r \<and> tk_mode t = WriteMode \<and> tk_repositoryId t = tk_repositoryId (ta_ticket k)"
    have "length (filter ?P ?hs) \<le> 1" using q by (simp add: q_inv_def busy_handles [symmetric])
    then have "ta_handle k = ta_handle l" by (rule two_positions) (use h kl in auto)
    then show ?thesis using d kl by (auto simp: distinct_map dest: inj_onD)
  qed
  then have "inj_on (\<lambda>k. tk_repositoryId (ta_ticket k)) (set (en_tasks en))" by (auto intro: inj_onI)
  moreover have "length (en_tasks en) = card (ta_handle ` set (en_tasks en))"
    using d by (metis distinct_card length_map set_map)
  moreover have "card (ta_handle ` set (en_tasks en)) \<le> card {i. i < length ?hs \<and> (case ?hs ! i of (t, r) \<Rightarrow> \<not> r)}"
    using h by (intro card_mono) auto
  moreover have "\<dots> = length (under_way (en_queue en))"
    by (simp add: under_way_def length_filter_conv_card)
  moreover have "length (under_way (en_queue en)) \<le> maxGlobalGitProcesses (jo_limits opts)" using q by (simp add: q_inv_def)
  ultimately show ?thesis using d by (simp add: distinct_map)
qed

section \<open>Idempotency\<close>

lemma find_only: "x \<in> set xs \<Longrightarrow> P x \<Longrightarrow> (\<And>y. y \<in> set xs \<Longrightarrow> P y \<Longrightarrow> y = x) \<Longrightarrow> find P xs = Some x"
proof (cases "find P xs")
  case None
  moreover assume "x \<in> set xs" "P x"
  ultimately show ?thesis by (auto simp: find_None_iff)
next
  case (Some y)
  then have "y \<in> set xs" "P y" by (auto simp: find_Some_iff)
  moreover assume "\<And>y. y \<in> set xs \<Longrightarrow> P y \<Longrightarrow> y = x"
  ultimately have "y = x" by blast
  with Some show ?thesis by simp
qed

lemma accept_record:
  assumes "submit_accept opts context i seq now t request actor repo en = Inr (en', Inr s)"
    and "keyed_map (st_entries (en_store en))"
  shows "su_entry s = accepted_entry opts i seq now request actor repo"
    and "journal_get (en_store en') j = Some x \<Longrightarrow> j = i \<and> x = su_entry s \<or> j \<noteq> i \<and> journal_get (en_store en) j = Some x"
    and "journal_get (en_store en') i = Some (su_entry s)" and "keyed_map (st_entries (en_store en'))"
proof -
  let ?e = "accepted_entry opts i seq now request actor repo"
  from assms(1) have app: "journal_append (jo_rt opts) (jo_policy opts) t ?e (en_store en) = Inr (en_store en', Appended)"
    and s: "su_entry s = ?e"
    by (auto simp: submit_accept_def Let_def split: option.splits prod.splits append_outcome.splits)
  have id: "je_operationId ?e = i" by (simp add: accepted_entry_def)
  show "su_entry s = ?e" "keyed_map (st_entries (en_store en'))" "journal_get (en_store en') i = Some (su_entry s)"
    using s job_append(1,2) [OF assms(2) app] id by auto
  then show "journal_get (en_store en') j = Some x \<Longrightarrow> j = i \<and> x = su_entry s \<or> j \<noteq> i \<and> journal_get (en_store en) j = Some x"
    using job_append(3) [OF assms(2) app, of j] id by (cases "j = i") auto
qed

lemma journal_list_members:
  assumes "length (filter (\<lambda>e. je_actor e = actor) (map snd (st_entries st))) \<le> limit"
  shows "set (journal_list actor limit st) = {e \<in> snd ` set (st_entries st). je_actor e = actor}"
  using assms by (auto simp: journal_list_def)

text \<open>
  A retry is recognised: once a submission is recorded, the same request of the same client is
  answered with that record, as a duplicate, and the same client request id with another payload is
  refused as a conflict; neither changes anything. (Up to the bound on the records looked at,
  and as long as the digests of the payloads differ.)
\<close>

theorem retry_is_recognised:
  assumes "job_init en0" and "(job_step opts)\<^sup>*\<^sup>* en0 en"
    and "submit_check opts request actor en = Inr repo"
    and "length (filter (\<lambda>e. je_actor e = actor) (map snd (st_entries (en_store en)))) \<le> idempotencyMaxEntries"
    and "submit_accept opts context i seq now t request actor repo en = Inr (en', Inr s)"
    and "length (filter (\<lambda>e. je_actor e = actor) (map snd (st_entries (en_store en')))) \<le> idempotencyMaxEntries"
    and "rq_clientRequestId other = rq_clientRequestId request"
    and "canonicalPayloadDigest opts (request_json other) \<noteq> canonicalPayloadDigest opts (request_json request)"
  shows "submit_check opts request actor en' = Inl (Submitted (recordFor (su_entry s)) True) \<and>
    (\<exists>p. submit_check opts other actor en' = Inl (Refused p) \<and> pr_code p = ''IdempotencyConflict'')"
proof -
  have keyed: "keyed_map (st_entries (en_store en))" using jobs.reachable_inv [OF assms(1,2)] by (simp add: job_inv_def)
  note acc = accept_record [OF assms(5) keyed]
  let ?P = "\<lambda>e. je_clientRequestId e = rq_clientRequestId request"
  have none: "\<not> ?P e" if "e \<in> snd ` set (st_entries (en_store en))" "je_actor e = actor" for e
  proof
    assume "?P e"
    with that journal_list_members [OF assms(4)]
    have "find ?P (journal_list actor idempotencyMaxEntries (en_store en)) \<noteq> None" by (auto simp: find_None_iff)
    with assms(3) show False by (auto simp: submit_check_def Let_def split: if_splits)
  qed
  have e: "je_actor (su_entry s) = actor" "?P (su_entry s)"
    "je_payloadDigest (su_entry s) = canonicalPayloadDigest opts (request_json request)"
    using acc(1) by (simp_all add: accepted_entry_def)
  have get: "journal_get (en_store en') (je_operationId x) = Some x" if "x \<in> snd ` set (st_entries (en_store en'))" for x
    using that keyed_get [OF acc(4)] by (simp add: journal_get_def)
  have found: "find ?P (journal_list actor idempotencyMaxEntries (en_store en')) = Some (su_entry s)"
  proof (rule find_only)
    have "su_entry s \<in> snd ` set (st_entries (en_store en'))"
      using acc(3) keyed_get [OF acc(4)] by (simp add: journal_get_def)
    with e show "su_entry s \<in> set (journal_list actor idempotencyMaxEntries (en_store en'))"
      by (simp add: journal_list_members [OF assms(6)])
    fix y assume y: "y \<in> set (journal_list actor idempotencyMaxEntries (en_store en'))" "?P y"
    then have "y \<in> snd ` set (st_entries (en_store en'))" "je_actor y = actor"
      by (simp_all add: journal_list_members [OF assms(6)])
    from acc(2) [OF get [OF this(1)]] show "y = su_entry s"
    proof
      assume "je_operationId y \<noteq> i \<and> journal_get (en_store en) (je_operationId y) = Some y"
      then have "y \<in> snd ` set (st_entries (en_store en))" using keyed_get [OF keyed] by (simp add: journal_get_def)
      with none [OF this \<open>je_actor y = actor\<close>] y(2) show ?thesis by simp
    qed simp
  qed (rule e(2))
  then have "find (\<lambda>e. je_clientRequestId e = rq_clientRequestId other) (journal_list actor idempotencyMaxEntries (en_store en')) =
      Some (su_entry s)" using assms(7) by simp
  with found e(3) assms(8) show ?thesis by (auto simp: submit_check_def Let_def with_operation_def)
qed

text \<open>
  Two submissions of the same request that are under way at the same time are both accepted: the
  look-up of the client request id and the append of the record are separated by the wait for
  the preconditions, so both calls find nothing, both records are written with the same client
  request id and payload, and both operations will run.
\<close>

theorem concurrent_duplicates_accepted:
  assumes "job_init en0" and "(job_step opts)\<^sup>*\<^sup>* en0 en"
    and "submit_check opts request actor en = Inr repo"
    and "i \<notin> set (en_ids en)" and "j \<notin> set (en_ids en)" and "i \<noteq> j"
    and "submit_accept opts context i seq now t request actor repo en = Inr (en1, Inr s)"
    and "submit_accept opts context' j seq' now' t' request actor repo en1 = Inr (en2, Inr s')"
  shows "(job_step opts)\<^sup>*\<^sup>* en0 en2 \<and>
    (\<exists>x y. journal_get (en_store en2) i = Some x \<and> journal_get (en_store en2) j = Some y \<and>
       je_status x = str ''accepted'' \<and> je_status y = str ''accepted'' \<and>
       je_clientRequestId x = je_clientRequestId y \<and> je_payloadDigest x = je_payloadDigest y \<and>
       set (accepted_ids en2) \<supseteq> {i, j})"
proof -
  have s1: "job_step opts en en1" using assms(4,7) by (rule job_step.accept)
  have ids: "en_ids en1 = i # en_ids en"
    using assms(7) by (auto simp: submit_accept_def Let_def split: option.splits prod.splits append_outcome.splits)
  then have "j \<notin> set (en_ids en1)" using assms(5,6) by simp
  then have s2: "job_step opts en1 en2" using assms(8) by (rule job_step.accept)
  have inv: "job_inv opts en" by (rule jobs.reachable_inv [OF assms(1,2)])
  then have inv1: "job_inv opts en1" and inv2: "job_inv opts en2"
    using job_step_ok s1 s2 unfolding step_ok_def by blast+
  then have keyed: "keyed_map (st_entries (en_store en))" "keyed_map (st_entries (en_store en1))"
    using inv by (simp_all add: job_inv_def)
  note a = accept_record [OF assms(7) keyed(1)] and b = accept_record [OF assms(8) keyed(2)]
  have acc: "en_accepted en2 = s' # s # en_accepted en"
    using assms(7,8) by (auto simp: submit_accept_def Let_def split: option.splits prod.splits append_outcome.splits)
  have ids2: "i \<in> set (accepted_ids en2)" "j \<in> set (accepted_ids en2)"
    by (simp_all add: accepted_ids_def acc a(1) b(1)) (simp_all add: accepted_entry_def)
  then have "has_status en2 i (\<lambda>s. s = str ''accepted'')" using inv2 by (simp add: job_inv_def del: str_simps)
  then obtain x where x: "journal_get (en_store en2) i = Some x" "je_status x = str ''accepted''"
    by (auto simp: has_status_def)
  have "x = su_entry s" using b(2) [OF x(1)] assms(6) a(3) by simp
  moreover have "(job_step opts)\<^sup>*\<^sup>* en0 en2" using assms(2) s1 s2 by (meson rtranclp.rtrancl_into_rtrancl)
  ultimately show ?thesis using x b(3) ids2
    by (simp add: a(1) b(1) accepted_entry_def del: str_simps)
qed

text \<open>A full journal, none of whose records may be pruned, refuses every record.\<close>

definition serializable :: "runtime \<Rightarrow> journal_entry \<Rightarrow> bool" where
  "serializable rt e \<longleftrightarrow> (case serialize rt e of Inl _ \<Rightarrow> False | Inr _ \<Rightarrow> True)"

lemma full_append:
  assumes "serializable rt e" and "list_all (\<lambda>x. serializable rt x \<and> \<not> mayPruneRecord x t policy) (map snd (st_entries st))"
    and "st_bytes st = rp_maxBytes policy"
  shows "journal_append rt policy t e st = Inr (st, JournalFull)"
proof -
  from assms(1) obtain v where v: "serialize rt e = Inr (stringify v @ [0x0a])"
    by (auto simp: serializable_def serialize_def split: sum.splits)
  have "utf8_length (xs @ [0x0a]) > 0" for xs
    by (induction xs rule: utf8_length.induct) (auto split: list.splits)
  moreover have "list_all (\<lambda>x. serializable rt x \<and> \<not> mayPruneRecord x t policy) es \<Longrightarrow>
      \<exists>kept n. plan_loop rt policy t es = Inr (kept, 0, n)" for es
  proof (induction es)
    case (Cons x es)
    then obtain kept n line where "plan_loop rt policy t es = Inr (kept, 0, n)" "serialize rt x = Inr line"
      by (auto simp: serializable_def split: sum.splits)
    with Cons.prems show ?case by simp
  qed simp
  then have "\<exists>kept n. compact_plan rt policy t st = Inr (kept, 0, n)"
    using assms(2) by (auto simp: compact_plan_def list_all_iff)
  ultimately show ?thesis using assms(3) v by (auto simp: journal_append_def journal_compact_def Let_def)
qed


end
