(* ===== verification/JobWitness.thy ===== *)
theory JobWitness
  imports JobLife
begin

text \<open>
  Runs of the job engine on a concrete journal, queue and request: the theorems of \<open>JobLife\<close> applied
  where their hypotheses hold. The dates are those of \<open>sample_dates\<close>, the digest of a text is the text.
\<close>

section \<open>An engine and its journal\<close>

definition w_opts :: "nat \<Rightarrow> nat \<Rightarrow> job_options" where
  "w_opts maxBytes processes =
     \<lparr>jo_rt = sample_dates, jo_policy = \<lparr>rp_ttlMs = 10, rp_maxEntries = 5, rp_maxBytes = maxBytes\<rparr>,
      jo_limits = \<lparr>maxQueuedPerActor = 32, maxGlobalGitProcesses = processes, maxReadersPerRepository = 2\<rparr>,
      jo_digest = (\<lambda>text. text), jo_repositoryIdFor = (\<lambda>request. writeKeyOfTarget (rq_target request))\<rparr>"

lemma w_opts_simps [simp]:
  "jo_rt (w_opts m g) = sample_dates" "rp_maxBytes (jo_policy (w_opts m g)) = m"
  "jo_limits (w_opts m g) = \<lparr>maxQueuedPerActor = 32, maxGlobalGitProcesses = g, maxReadersPerRepository = 2\<rparr>"
  by (simp_all add: w_opts_def)

definition w_line :: "journal_entry \<Rightarrow> jsstring" where
  "w_line e = (case serialize sample_dates e of Inr line \<Rightarrow> line | Inl _ \<Rightarrow> [])"

definition w_size :: "journal_entry \<Rightarrow> nat" where "w_size e = utf8_length (w_line e)"

lemma w_serialize: "je_acceptedAtMs e = Fin a \<Longrightarrow> serialize sample_dates e = Inr (w_line e)"
  by (auto simp: w_line_def serialize_def entry_json_def sample_dates_def iso_optional_def split: option.splits)

definition w_append :: "journal_entry \<Rightarrow> store \<Rightarrow> store" where
  "w_append e st = append_finish e (w_size e) (append_write (w_line e) st)"

lemma w_append_simps [simp]:
  "st_bytes (w_append e st) = st_bytes st + w_size e" "st_entries (w_append e st) = set_entry e (st_entries st)"
  by (simp_all add: w_append_def append_finish_def append_write_def)

lemma w_append:
  "je_acceptedAtMs e = Fin a \<Longrightarrow> st_bytes st + w_size e \<le> rp_maxBytes policy \<Longrightarrow>
   journal_append sample_dates policy t e st = Inr (w_append e st, Appended)"
  by (simp add: journal_append_def w_serialize w_append_def w_size_def)

definition w_entry :: "string \<Rightarrow> journal_entry" where
  "w_entry i = accepted_entry (w_opts 0 0) (str i) 1 0 sample_request [] (str ''r'')"

lemma w_entry_simps [simp]:
  "je_operationId (w_entry i) = str i" "je_acceptedAtMs (w_entry i) = Fin 0" "je_status (w_entry i) = str ''accepted''"
  "je_actor (w_entry i) = []" "je_repositoryId (w_entry i) = str ''r''"
  "accepted_entry (w_opts m g) (str i) 1 0 sample_request [] (str ''r'') = w_entry i"
  by (simp_all add: w_entry_def accepted_entry_def canonicalPayloadDigest_def w_opts_def del: str_simps)

definition w_start :: engine where
  "w_start = createJobEngine [str ''stagePaths''] (createJournalStore None)"

lemma w_start_init: "job_init w_start"
  unfolding job_init_def w_start_def
  by (intro exI [of _ "[str ''stagePaths'']"] exI [of _ "createJournalStore None"]) (simp add: createJournalStore_def keyed_map_def)

definition w_submission :: "string \<Rightarrow> submission" where
  "w_submission i = \<lparr>su_entry = w_entry i, su_request = sample_request, su_actor = [],
     su_digest = je_payloadDigest (w_entry i)\<rparr>"

definition w_accept :: "string \<Rightarrow> engine \<Rightarrow> engine" where
  "w_accept i en = en\<lparr>en_store := w_append (w_entry i) (en_store en), en_ids := str i # en_ids en,
     en_accepted := w_submission i # en_accepted en\<rparr>"

lemma w_accept_eq:
  "st_bytes (en_store en) + w_size (w_entry i) \<le> m \<Longrightarrow>
   submit_accept (w_opts m g) None (str i) 1 0 0 sample_request [] (str ''r'') en = Inr (w_accept i en, Inr (w_submission i))"
  by (simp add: submit_accept_def w_append [where a = 0] w_accept_def w_submission_def Let_def del: str_simps)

lemma w_start_simps [simp]:
  "st_bytes (en_store w_start) = 0" "st_entries (en_store w_start) = []" "en_ids w_start = []" "en_accepted w_start = []"
  "en_tasks w_start = []" "en_awaiting w_start = []" "en_queue w_start = createQueue"
  "en_effects w_start = [str ''stagePaths'']"
  by (simp_all add: w_start_def createJobEngine_def createJournalStore_def set_add_def del: str_simps)

definition w_total :: nat where
  "w_total = w_size (w_entry ''a'') + w_size (w_entry ''b'') + w_size (cancelled_entry 2 0 (w_entry ''a''))"

definition w_first :: engine where "w_first = w_accept ''a'' w_start"

lemma w_first_eq:
  "w_size (w_entry ''a'') \<le> m \<Longrightarrow>
   submit_accept (w_opts m g) None (str ''a'') 1 0 0 sample_request [] (str ''r'') w_start = Inr (w_first, Inr (w_submission ''a''))"
  unfolding w_first_def by (rule w_accept_eq) simp

lemma w_first_step: "w_size (w_entry ''a'') \<le> m \<Longrightarrow> job_step (w_opts m g) w_start w_first"
  by (rule job_step.accept [OF _ w_first_eq]) simp_all


lemma w_check: "submit_check (w_opts m g) sample_request [] w_start = Inr (str ''r'')"
  by (simp add: submit_check_def journal_list_def w_opts_def sample_request_def Let_def del: str_simps)

lemma concurrent_duplicates_accepted_witness:
  "\<exists>x y. journal_get (en_store (w_accept ''b'' w_first)) (str ''a'') = Some x \<and>
    journal_get (en_store (w_accept ''b'' w_first)) (str ''b'') = Some y \<and>
    je_clientRequestId x = je_clientRequestId y \<and> je_payloadDigest x = je_payloadDigest y"
proof -
  have "submit_accept (w_opts w_total 4) None (str ''b'') 1 0 0 sample_request [] (str ''r'') w_first =
      Inr (w_accept ''b'' w_first, Inr (w_submission ''b''))"
    by (rule w_accept_eq) (simp add: w_total_def w_first_def w_accept_def)
  from concurrent_duplicates_accepted [OF w_start_init rtranclp.rtrancl_refl w_check _ _ _ w_first_eq this]
  show ?thesis by (auto simp: w_total_def)
qed

text \<open>The first submission is queued: with a process to spare its job is started, with none it waits.\<close>

definition w_ticket :: "mutation_request ticket" where
  "w_ticket = \<lparr>tk_id = str ''a'', tk_actor = [], tk_repositoryId = str ''r'', tk_mode = WriteMode,
     tk_positionAtEnqueue = 0, tk_job = sample_request\<rparr>"

definition w_queued :: "nat \<Rightarrow> nat \<Rightarrow> engine" where
  "w_queued m g = pump (w_opts m g) ((emit (OperationEvent (recordFor (w_entry ''a'')) (str ''r''))
     (w_first\<lparr>en_accepted := []\<rparr>))\<lparr>en_queue := createQueue\<lparr>q_pending := [w_ticket]\<rparr>,
     en_awaiting := [(str ''a'', \<lparr>aw_actor = [], aw_digest = je_payloadDigest (w_entry ''a'')\<rparr>)]\<rparr>)"

lemma w_first_simps [simp]:
  "en_store w_first = w_append (w_entry ''a'') (createJournalStore None)" "en_ids w_first = [str ''a'']"
  "en_accepted w_first = [w_submission ''a'']" "en_tasks w_first = []" "en_awaiting w_first = []"
  "en_queue w_first = createQueue" "en_effects w_first = [str ''stagePaths'']"
  by (simp_all add: w_first_def w_accept_def w_start_def createJobEngine_def createJournalStore_def set_add_def del: str_simps)

lemma w_queue_run:
  "queue_run \<lparr>maxQueuedPerActor = 32, maxGlobalGitProcesses = 0, maxReadersPerRepository = 2\<rparr> f (createQueue\<lparr>q_pending := [w_ticket]\<rparr>) =
     (createQueue\<lparr>q_pending := [w_ticket]\<rparr>, [])"
  "\<not> f w_ticket \<Longrightarrow> queue_run \<lparr>maxQueuedPerActor = 32, maxGlobalGitProcesses = 4, maxReadersPerRepository = 2\<rparr> f (createQueue\<lparr>q_pending := [w_ticket]\<rparr>) =
     (queue_start w_ticket createQueue, [w_ticket])"
  by (simp_all add: queue_run_def run_loop.simps canStart_def createQueue_def w_ticket_def run_turn_def remove_at_def
      queue_start_def del: str_simps)

lemma w_enqueue:
  "\<exists>r. submit_enqueue (w_opts m g) 2 0 0 (w_submission ''a'') w_first = Inr (w_queued m g, r)"
  by (simp add: submit_enqueue_def queue_enqueue_def createQueue_def depthFor_def w_submission_def submit_queued_def
      w_queued_def w_ticket_def Let_def emit_def del: str_simps)

lemma w_queued_reachable:
  assumes "w_size (w_entry ''a'') \<le> m"
  shows "(job_step (w_opts m g))\<^sup>*\<^sup>* w_start (w_queued m g)"
proof -
  obtain r where "submit_enqueue (w_opts m g) 2 0 0 (w_submission ''a'') w_first = Inr (w_queued m g, r)"
    using w_enqueue by blast
  then have "job_step (w_opts m g) w_first (w_queued m g)" by (rule job_step.enqueue [rotated]) simp
  with w_first_step [OF assms] show ?thesis by (meson rtranclp.intros)
qed

lemma w_waiting [simp]:
  "q_pending (en_queue (w_queued m 0)) = [w_ticket]" "en_store (w_queued m g) = en_store w_first"
  "en_effects (w_queued m g) = [str ''stagePaths'']"
  by (simp_all add: w_queued_def pump_def w_queue_run split: prod.split del: str_simps)

lemma w_get: "journal_get (en_store w_first) (str ''a'') = Some (w_entry ''a'')"
  by (simp add: journal_get_def createJournalStore_def set_entry_def del: str_simps)

lemma w_ticket_simps [simp]:
  "tk_id w_ticket = str ''a''" "tk_repositoryId w_ticket = str ''r''" "tk_job w_ticket = sample_request"
  "q_handles createQueue = []"
  by (simp_all add: w_ticket_def createQueue_def del: str_simps)

lemma w_started:
  "en_tasks (w_queued m 4) =
     [\<lparr>ta_handle = 0, ta_ticket = w_ticket, ta_actor = [], ta_entry = w_entry ''a'', ta_phase = Starting\<rparr>]"
  by (simp add: w_queued_def pump_def w_queue_run(2) orphan_def w_get del: str_simps w_first_simps(1))

lemma one_mutation_per_repository_witness:
  "map (\<lambda>k. tk_repositoryId (ta_ticket k)) (en_tasks (w_queued w_total 4)) = [str ''r''] \<and>
   distinct (map (\<lambda>k. tk_repositoryId (ta_ticket k)) (en_tasks (w_queued w_total 4))) \<and>
   length (en_tasks (w_queued w_total 4)) \<le> 4"
  using one_mutation_per_repository [OF w_start_init w_queued_reachable [of w_total 4]]
  by (simp add: w_total_def w_started w_ticket_def del: str_simps)

text \<open>The waiting job is cancelled.\<close>

definition w_cancelled :: engine where
  "w_cancelled = fst (projr (job_cancel (w_opts w_total 0) 2 0 0 (str ''a'') [] (w_queued w_total 0)))"

lemma w_cancel:
  "job_cancel (w_opts w_total 0) 2 0 0 (str ''a'') [] (w_queued w_total 0) =
     Inr (w_cancelled, Submitted (recordFor (cancelled_entry 2 0 (w_entry ''a''))) False)"
  and w_cancelled_get: "journal_get (en_store w_cancelled) (str ''a'') = Some (cancelled_entry 2 0 (w_entry ''a''))"
proof -
  have id: "je_operationId (cancelled_entry 2 0 (w_entry ''a'')) = str ''a''"
    "je_acceptedAtMs (cancelled_entry 2 0 (w_entry ''a'')) = Fin 0"
    by (simp_all add: cancelled_entry_def)
  have append: "journal_append sample_dates p t (cancelled_entry 2 0 (w_entry ''a'')) (en_store w_first) =
      Inr (w_append (cancelled_entry 2 0 (w_entry ''a'')) (en_store w_first), Appended)"
    if "rp_maxBytes p = w_total" for p t
    by (rule w_append [OF id(2)]) (simp add: that w_total_def createJournalStore_def)
  have q: "queue_cancel (str ''a'') (en_queue (w_queued w_total 0)) = (en_queue (w_queued w_total 0)\<lparr>q_pending := []\<rparr>, True)"
    by (simp add: queue_cancel_def w_ticket_def del: str_simps)
  show c: "job_cancel (w_opts w_total 0) 2 0 0 (str ''a'') [] (w_queued w_total 0) =
     Inr (w_cancelled, Submitted (recordFor (cancelled_entry 2 0 (w_entry ''a''))) False)"
    unfolding w_cancelled_def
    by (simp add: job_cancel_def w_get Let_def q append del: str_simps w_first_simps(1))
  have "en_store w_cancelled = w_append (cancelled_entry 2 0 (w_entry ''a'')) (en_store w_first)"
    by (simp add: w_cancelled_def job_cancel_def w_get Let_def q append del: str_simps w_first_simps(1))
  then show "journal_get (en_store w_cancelled) (str ''a'') = Some (cancelled_entry 2 0 (w_entry ''a''))"
    by (simp add: journal_get_def createJournalStore_def set_entry_def id del: str_simps)
qed

lemma cancelled_never_runs_witness:
  "str ''a'' \<in> set (pending_ids (w_queued w_total 0)) \<and> str ''a'' \<notin> set (held (pump (w_opts w_total 0) w_cancelled))"
proof -
  have "(job_step (w_opts w_total 0))\<^sup>*\<^sup>* w_cancelled (pump (w_opts w_total 0) w_cancelled)"
    by (rule r_into_rtranclp) (rule job_step.pump)
  from cancelled_never_runs [OF w_start_init w_queued_reachable w_cancel this] show ?thesis by (simp add: w_total_def)
qed

lemma finished_operations_stay_witness:
  "journal_get (en_store (pump (w_opts w_total 0) w_cancelled)) (str ''a'') = Some (cancelled_entry 2 0 (w_entry ''a'')) \<or>
   journal_get (en_store (pump (w_opts w_total 0) w_cancelled)) (str ''a'') = None"
proof -
  have "(job_step (w_opts w_total 0))\<^sup>*\<^sup>* w_start w_cancelled"
    using w_queued_reachable [of w_total 0] job_step.cancel [OF w_cancel]
    by (rule rtranclp.rtrancl_into_rtrancl) (simp add: w_total_def)
  moreover have "(job_step (w_opts w_total 0))\<^sup>*\<^sup>* w_cancelled (pump (w_opts w_total 0) w_cancelled)"
    by (rule r_into_rtranclp) (rule job_step.pump)
  ultimately show ?thesis
    by (rule finished_operations_stay [OF w_start_init _ _ w_cancelled_get]) (simp add: cancelled_entry_def del: str_simps)
qed


section \<open>A retry\<close>

definition w_other :: mutation_request where "w_other = sample_request\<lparr>rq_kind := str ''unstage''\<rparr>"

lemma w_other_differs: "canonicalJson (request_json w_other) \<noteq> canonicalJson (request_json sample_request)"
  by (simp add: request_json_def w_other_def sample_request_def member_text_def quote_def is_surrogate_def)

lemma retry_is_recognised_witness:
  "submit_check (w_opts w_total 4) sample_request [] w_first = Inl (Submitted (recordFor (w_entry ''a'')) True) \<and>
   (\<exists>p. submit_check (w_opts w_total 4) w_other [] w_first = Inl (Refused p) \<and> pr_code p = ''IdempotencyConflict'')"
proof -
  have "canonicalPayloadDigest (w_opts w_total 4) (request_json w_other) \<noteq>
      canonicalPayloadDigest (w_opts w_total 4) (request_json sample_request)"
    using w_other_differs by (simp add: canonicalPayloadDigest_def w_opts_def)
  from retry_is_recognised [OF w_start_init rtranclp.rtrancl_refl w_check _ w_first_eq _ _ this]
  show ?thesis
    by (simp add: w_total_def w_other_def w_submission_def idempotencyMaxEntries_def createJournalStore_def set_entry_def del: str_simps)
qed

end
