(* ===== verification/Auth.thy ===== *)
theory Auth
  imports JsMap Problem
begin

text \<open>
  Pairing and sessions: \<^verbatim>\<open>packages/host-node/src/http/auth.ts\<close>. The record \<open>auth_store\<close> holds the two maps
  of \<^verbatim>\<open>createAuthStore\<close>, keyed by the ticket and by the token. Clock readings (one argument per call of
  \<^verbatim>\<open>now()\<close>, in the order of the code) and random ids are arguments; \<^verbatim>\<open>scryptSync\<close> is a field of the options.
\<close>

section \<open>Data\<close>

definition AUTHORIZATION_SCOPES :: "jsstring list" where
  "AUTHORIZATION_SCOPES = [str ''repository:read'', str ''repository:write'', str ''repository:network'',
     str ''workspace:manage'', str ''provider:manage'']"

record session_grants =
  sg_allowedRootIds :: "jsstring list"
  sg_repositoryIds :: "jsstring list"
  sg_scopes :: "jsstring list"

record bootstrap_ticket =
  bt_ticket :: jsstring
  bt_serviceInstanceId :: jsstring
  bt_origin :: jsstring
  bt_actor :: jsstring
  bt_grants :: session_grants
  bt_passwordRequired :: bool
  bt_expiresAtMs :: int

record session =
  ss_token :: jsstring
  ss_sessionId :: jsstring
  ss_actor :: jsstring
  ss_grants :: session_grants
  ss_serviceInstanceId :: jsstring
  ss_issuedAtMs :: int
  ss_expiresAtMs :: int

type_synonym scrypt = "jsstring \<Rightarrow> 8 word list \<Rightarrow> nat \<Rightarrow> 8 word list"

record password_hash =
  ph_salt :: "8 word list"
  ph_digest :: "8 word list"

record auth_input =
  ai_serviceInstanceId :: jsstring
  ai_ticketTtlSeconds :: "int option"
  ai_sessionTtlSeconds :: "int option"
  ai_maxTickets :: "nat option"
  ai_maxSessions :: "nat option"
  ai_hostedPassword :: "jsstring option"

record auth_options =
  ao_scrypt :: scrypt
  ao_serviceInstanceId :: jsstring
  ao_ticketTtlMs :: int
  ao_sessionTtlMs :: int
  ao_maxTickets :: nat
  ao_maxSessions :: nat
  ao_hostedPasswordHash :: "password_hash option"

record auth_store =
  as_tickets :: "(jsstring, bootstrap_ticket) jsmap"
  as_sessions :: "(jsstring, session) jsmap"

definition DEFAULT_TICKET_TTL_SECONDS :: int where "DEFAULT_TICKET_TTL_SECONDS = 60"
definition DEFAULT_SESSION_TTL_SECONDS :: int where "DEFAULT_SESSION_TTL_SECONDS = 8 * 60 * 60"
definition HOSTED_PASSWORD_MIN_LENGTH :: nat where "HOSTED_PASSWORD_MIN_LENGTH = 12"
definition HOSTED_PASSWORD_MAX_LENGTH :: nat where "HOSTED_PASSWORD_MAX_LENGTH = 512"
definition PASSWORD_KEY_BYTES :: nat where "PASSWORD_KEY_BYTES = 32"

section \<open>Secrets\<close>

unbundle bit_operations_syntax

text \<open>\<^verbatim>\<open>Buffer.from(text, "utf8")\<close>: a lone surrogate becomes the replacement character.\<close>

fun utf8_bytes :: "jsstring \<Rightarrow> 8 word list" where
  "utf8_bytes [] = []"
| "utf8_bytes (c # cs) =
     (let tail6 = (\<lambda>n. 0x80 OR ucast (drop_bit n c AND 0x3f))
      in if c < 0x80 then ucast c # utf8_bytes cs
         else if c < 0x800 then (0xc0 OR ucast (drop_bit 6 c)) # tail6 0 # utf8_bytes cs
         else if 0xd800 \<le> c \<and> c \<le> 0xdbff
         then (case cs of
             [] \<Rightarrow> [0xef, 0xbf, 0xbd]
           | d # ds \<Rightarrow>
               if 0xdc00 \<le> d \<and> d \<le> 0xdfff
               then (let p = 0x10000 + push_bit 10 (ucast (c - 0xd800)) + ucast (d - 0xdc00) :: 32 word;
                         part = (\<lambda>n. 0x80 OR ucast (drop_bit n p AND 0x3f))
                     in (0xf0 OR ucast (drop_bit 18 p)) # part 12 # part 6 # part 0 # utf8_bytes ds)
               else 0xef # 0xbf # 0xbd # utf8_bytes cs)
         else if is_surrogate c then 0xef # 0xbf # 0xbd # utf8_bytes cs
         else (0xe0 OR ucast (drop_bit 12 c)) # tail6 6 # tail6 0 # utf8_bytes cs)"

definition secretMatches :: "jsstring \<Rightarrow> jsstring \<Rightarrow> bool" where
  "secretMatches given expected \<longleftrightarrow>
     (let givenBytes = utf8_bytes given; expectedBytes = utf8_bytes expected
      in if length givenBytes \<noteq> length expectedBytes then False else givenBytes = expectedBytes)"

definition hashHostedPassword :: "scrypt \<Rightarrow> 8 word list \<Rightarrow> jsstring \<Rightarrow> js_error + password_hash" where
  "hashHostedPassword scryptSync salt password =
     (if length password < HOSTED_PASSWORD_MIN_LENGTH \<or> length password > HOSTED_PASSWORD_MAX_LENGTH
      then Inl (PlainError ''the hosted password must be between 12 and 512 characters'')
      else Inr \<lparr>ph_salt = salt, ph_digest = scryptSync password salt PASSWORD_KEY_BYTES\<rparr>)"

definition passwordMatches :: "scrypt \<Rightarrow> jsstring \<Rightarrow> password_hash \<Rightarrow> bool" where
  "passwordMatches scryptSync given expected \<longleftrightarrow>
     scryptSync given (ph_salt expected) (length (ph_digest expected)) = ph_digest expected"

text \<open>\<^verbatim>\<open>/^http:\/\/(127\.0\.0\.1|localhost|\[::1\]):(\d+)$/\<close>\<close>

definition loopback_hosts :: "jsstring list" where
  "loopback_hosts = [str ''127.0.0.1'', str ''localhost'', str ''[::1]'']"

definition loopback :: "jsstring \<Rightarrow> jsstring option" where
  "loopback origin =
     (case find (\<lambda>host. startsWith origin (str ''http://'' @ host @ str '':'')) loopback_hosts of
        None \<Rightarrow> None
      | Some host \<Rightarrow>
          (let port = drop (length (str ''http://'' @ host @ str '':'')) origin
           in if all_digits port then Some port else None))"

definition sameLoopbackService :: "jsstring \<Rightarrow> jsstring \<Rightarrow> bool" where
  "sameLoopbackService first second =
     (if first = second then True
      else (case loopback first of
              None \<Rightarrow> False
            | Some firstPort \<Rightarrow> loopback second = Some firstPort))"

section \<open>The store\<close>

definition createAuthStore :: "scrypt \<Rightarrow> 8 word list \<Rightarrow> auth_input \<Rightarrow> js_error + auth_options \<times> auth_store" where
  "createAuthStore scryptSync salt i =
     bindE (case ai_hostedPassword i of
              None \<Rightarrow> Inr None
            | Some password \<Rightarrow> bindE (hashHostedPassword scryptSync salt password) (\<lambda>h. Inr (Some h))) (\<lambda>hash.
     Inr (\<lparr>ao_scrypt = scryptSync, ao_serviceInstanceId = ai_serviceInstanceId i,
           ao_ticketTtlMs = (case ai_ticketTtlSeconds i of None \<Rightarrow> DEFAULT_TICKET_TTL_SECONDS | Some s \<Rightarrow> s) * 1000,
           ao_sessionTtlMs = (case ai_sessionTtlSeconds i of None \<Rightarrow> DEFAULT_SESSION_TTL_SECONDS | Some s \<Rightarrow> s) * 1000,
           ao_maxTickets = (case ai_maxTickets i of None \<Rightarrow> 64 | Some n \<Rightarrow> n),
           ao_maxSessions = (case ai_maxSessions i of None \<Rightarrow> 16 | Some n \<Rightarrow> n),
           ao_hostedPasswordHash = hash\<rparr>,
          \<lparr>as_tickets = [], as_sessions = []\<rparr>))"

definition auth_prune :: "auth_options \<Rightarrow> int \<Rightarrow> auth_store \<Rightarrow> auth_store" where
  "auth_prune opts current st =
     \<lparr>as_tickets = evict_loop bt_expiresAtMs (ao_maxTickets opts)
        (keep (\<lambda>t. \<not> bt_expiresAtMs t \<le> current) (as_tickets st)),
      as_sessions = evict_loop ss_issuedAtMs (ao_maxSessions opts)
        (keep (\<lambda>s. \<not> ss_expiresAtMs s \<le> current) (as_sessions st))\<rparr>"

definition copyGrants :: "session_grants \<Rightarrow> session_grants" where
  "copyGrants g =
     \<lparr>sg_allowedRootIds = sg_allowedRootIds g, sg_repositoryIds = sg_repositoryIds g, sg_scopes = sg_scopes g\<rparr>"

text \<open>\<^verbatim>\<open>random\<close> is the ticket: 32 random bytes in base64url.\<close>

definition mintTicket ::
  "auth_options \<Rightarrow> int \<Rightarrow> int \<Rightarrow> jsstring \<Rightarrow> jsstring \<Rightarrow> jsstring \<Rightarrow> session_grants \<Rightarrow> bool \<Rightarrow> auth_store \<Rightarrow>
   auth_store \<times> bootstrap_ticket" where
  "mintTicket opts t1 t2 random origin actor grants passwordRequired st =
     (let st = auth_prune opts t1 st;
          record = \<lparr>bt_ticket = random, bt_serviceInstanceId = ao_serviceInstanceId opts, bt_origin = origin,
            bt_actor = actor, bt_grants = copyGrants grants, bt_passwordRequired = passwordRequired,
            bt_expiresAtMs = t2 + ao_ticketTtlMs opts\<rparr>
      in (st\<lparr>as_tickets := AList.update (bt_ticket record) record (as_tickets st)\<rparr>, record))"

definition findTicket :: "jsstring \<Rightarrow> auth_store \<Rightarrow> bootstrap_ticket option" where
  "findTicket ticket st = map_option snd (find (\<lambda>(candidate, _). secretMatches ticket candidate) (as_tickets st))"

definition findSession :: "jsstring \<Rightarrow> auth_store \<Rightarrow> session option" where
  "findSession token st = map_option snd (find (\<lambda>(candidate, _). secretMatches token candidate) (as_sessions st))"

definition delete_ticket :: "jsstring \<Rightarrow> auth_store \<Rightarrow> auth_store" where
  "delete_ticket k st = st\<lparr>as_tickets := AList.delete k (as_tickets st)\<rparr>"

record exchange_input =
  xi_ticket :: jsstring
  xi_origin :: jsstring
  xi_serviceInstanceId :: jsstring
  xi_password :: "jsstring option"

text \<open>The clock readings and random ids of an exchange, in the order the code takes them.\<close>

record exchange_env =
  xe_prunedAt :: int
  xe_checkedAt :: int
  xe_issuedAt :: int
  xe_expiresFrom :: int
  xe_token :: jsstring
  xe_sessionId :: jsstring

definition new_session :: "auth_options \<Rightarrow> exchange_env \<Rightarrow> bootstrap_ticket \<Rightarrow> session" where
  "new_session opts env record =
     \<lparr>ss_token = str ''rfs_'' @ xe_token env, ss_sessionId = str ''sess_'' @ xe_sessionId env,
      ss_actor = bt_actor record, ss_grants = copyGrants (bt_grants record),
      ss_serviceInstanceId = ao_serviceInstanceId opts, ss_issuedAtMs = xe_issuedAt env,
      ss_expiresAtMs = xe_expiresFrom env + ao_sessionTtlMs opts\<rparr>"

definition password_ok :: "auth_options \<Rightarrow> jsstring option \<Rightarrow> bool" where
  "password_ok opts password \<longleftrightarrow>
     (case ao_hostedPasswordHash opts of
        None \<Rightarrow> False
      | Some expected \<Rightarrow>
          passwordMatches (ao_scrypt opts) (case password of None \<Rightarrow> [] | Some p \<Rightarrow> p) expected)"

definition exchange :: "auth_options \<Rightarrow> exchange_env \<Rightarrow> exchange_input \<Rightarrow> auth_store \<Rightarrow> auth_store \<times> (problem + session)" where
  "exchange opts env i st =
     (let st = auth_prune opts (xe_prunedAt env) st
      in case findTicket (xi_ticket i) st of
           None \<Rightarrow> (st, Inl (refuse ''Unauthenticated''
             (str ''that pairing ticket is not valid: it was already used, it expired, or this service did not issue it'') False))
         | Some record \<Rightarrow>
             if bt_expiresAtMs record \<le> xe_checkedAt env
             then (delete_ticket (bt_ticket record) st, Inl (refuse ''Unauthenticated''
                    (str ''that pairing ticket expired; start the workbench again'') False))
             else if bt_serviceInstanceId record \<noteq> xi_serviceInstanceId i
             then (delete_ticket (bt_ticket record) st, Inl (refuse ''Unauthenticated''
                    (str ''that pairing ticket belongs to a different service process'') False))
             else if \<not> sameLoopbackService (bt_origin record) (xi_origin i)
             then (st, Inl (refuse ''Forbidden'' (str ''that pairing ticket was issued for a different origin'') False))
             else if bt_passwordRequired record \<and> \<not> password_ok opts (xi_password i)
             then (st, Inl (refuse ''Unauthenticated'' (str ''hosted pairing requires the correct password'') True))
             else (let st = delete_ticket (bt_ticket record) st;
                       s = new_session opts env record
                   in (st\<lparr>as_sessions := AList.update (ss_token s) s (as_sessions st)\<rparr>, Inr s)))"

text \<open>\<^verbatim>\<open>/^Bearer (.+)$/\<close>: the dot matches anything but a line terminator.\<close>

definition line_terminator :: "code_unit \<Rightarrow> bool" where
  "line_terminator c \<longleftrightarrow> c = 0x0a \<or> c = 0x0d \<or> c = 0x2028 \<or> c = 0x2029"

definition bearer_token :: "jsstring \<Rightarrow> jsstring option" where
  "bearer_token header =
     (let token = drop (length (str ''Bearer '')) header
      in if startsWith header (str ''Bearer '') \<and> token \<noteq> [] \<and> list_all (\<lambda>c. \<not> line_terminator c) token
         then Some token else None)"

definition auth_authorize ::
  "auth_options \<Rightarrow> int \<Rightarrow> jsstring option \<Rightarrow> jsstring \<Rightarrow> auth_store \<Rightarrow> auth_store \<times> (problem + session)" where
  "auth_authorize opts t1 authorization serviceInstanceId st =
     (let st = auth_prune opts t1 st
      in (st,
          case (case authorization of None \<Rightarrow> [] | Some h \<Rightarrow> h) of
            [] \<Rightarrow> Inl (refuse ''Unauthenticated'' (str ''this service requires a bearer token; pair again from the CLI'') False)
          | header \<Rightarrow>
              (case bearer_token header of
                 None \<Rightarrow> Inl (refuse ''Unauthenticated'' (str ''the Authorization header must be `Bearer <token>`'') False)
               | Some token \<Rightarrow>
                   (case findSession token st of
                      None \<Rightarrow> Inl (refuse ''Unauthenticated''
                        (str ''that session is not valid: it expired, or this service restarted'') False)
                    | Some s \<Rightarrow>
                        if ss_serviceInstanceId s \<noteq> serviceInstanceId
                        then Inl (refuse ''Unauthenticated'' (str ''that session belongs to a different service process'') False)
                        else Inr s))))"

section \<open>Grants\<close>

definition allowsScope :: "session \<Rightarrow> jsstring \<Rightarrow> bool" where
  "allowsScope s scope \<longleftrightarrow>
     (if scope \<in> set (sg_scopes (ss_grants s)) then True
      else startsWith scope (str ''repository:'') \<and> str ''repository:*'' \<in> set (sg_scopes (ss_grants s)))"

definition allowsRepository :: "session \<Rightarrow> jsstring \<Rightarrow> bool" where
  "allowsRepository s repositoryId \<longleftrightarrow> repositoryId \<in> set (sg_repositoryIds (ss_grants s))"

definition allowsRoot :: "session \<Rightarrow> jsstring \<Rightarrow> bool" where
  "allowsRoot s allowedRootId \<longleftrightarrow> allowedRootId \<in> set (sg_allowedRootIds (ss_grants s))"

text \<open>\<^verbatim>\<open>ids.includes(id) ? [...ids] : [...ids, id]\<close>\<close>

definition with_id :: "jsstring \<Rightarrow> jsstring list \<Rightarrow> jsstring list" where
  "with_id i ids = (if i \<in> set ids then ids else ids @ [i])"

definition with_grant :: "jsstring \<Rightarrow> jsstring \<Rightarrow> session \<Rightarrow> session" where
  "with_grant root repo s =
     s\<lparr>ss_grants := \<lparr>sg_allowedRootIds = with_id root (sg_allowedRootIds (ss_grants s)),
        sg_repositoryIds = with_id repo (sg_repositoryIds (ss_grants s)), sg_scopes = sg_scopes (ss_grants s)\<rparr>\<rparr>"

definition auth_grant :: "jsstring \<Rightarrow> jsstring \<Rightarrow> jsstring \<Rightarrow> auth_store \<Rightarrow> auth_store \<times> bool" where
  "auth_grant sessionId root repo st =
     (case find (\<lambda>(_, s). ss_sessionId s = sessionId) (as_sessions st) of
        None \<Rightarrow> (st, False)
      | Some (token, s) \<Rightarrow> (st\<lparr>as_sessions := AList.update token (with_grant root repo s) (as_sessions st)\<rparr>, True))"

definition has_grant :: "jsstring \<Rightarrow> jsstring \<Rightarrow> session \<Rightarrow> bool" where
  "has_grant root repo s \<longleftrightarrow> repo \<in> set (sg_repositoryIds (ss_grants s)) \<and> root \<in> set (sg_allowedRootIds (ss_grants s))"

definition grantRepository :: "jsstring \<Rightarrow> jsstring \<Rightarrow> auth_store \<Rightarrow> auth_store \<times> nat" where
  "grantRepository root repo st =
     (st\<lparr>as_sessions := map_vals (\<lambda>s. if has_grant root repo s then s else with_grant root repo s) (as_sessions st)\<rparr>,
      length (filter (\<lambda>(_, s). \<not> has_grant root repo s) (as_sessions st)))"

definition without_grant :: "jsstring \<Rightarrow> jsstring \<Rightarrow> bool \<Rightarrow> session \<Rightarrow> session" where
  "without_grant repo root rootHasRepositories s =
     s\<lparr>ss_grants :=
        \<lparr>sg_allowedRootIds = (if rootHasRepositories then sg_allowedRootIds (ss_grants s)
           else filter (\<lambda>i. i \<noteq> root) (sg_allowedRootIds (ss_grants s))),
         sg_repositoryIds = filter (\<lambda>i. i \<noteq> repo) (sg_repositoryIds (ss_grants s)),
         sg_scopes = sg_scopes (ss_grants s)\<rparr>\<rparr>"

definition revokeRepository :: "jsstring \<Rightarrow> jsstring \<Rightarrow> bool \<Rightarrow> auth_store \<Rightarrow> auth_store" where
  "revokeRepository repo root rootHasRepositories st =
     st\<lparr>as_sessions := map_vals (without_grant repo root rootHasRepositories) (as_sessions st)\<rparr>"

definition auth_revoke :: "jsstring \<Rightarrow> auth_store \<Rightarrow> auth_store \<times> bool" where
  "auth_revoke sessionId st =
     (case find (\<lambda>(_, s). ss_sessionId s = sessionId) (as_sessions st) of
        None \<Rightarrow> (st, False)
      | Some (token, _) \<Rightarrow> (st\<lparr>as_sessions := AList.delete token (as_sessions st)\<rparr>, True))"

definition sessionCount :: "auth_store \<Rightarrow> nat" where "sessionCount st = length (as_sessions st)"
definition ticketCount :: "auth_store \<Rightarrow> nat" where "ticketCount st = length (as_tickets st)"

end
