(* ===== verification/AuthLife.thy ===== *)
theory AuthLife
  imports Auth
begin

text \<open>
  What the pairing store guarantees: a ticket is redeemed at most once and only from its own origin,
  a session carries what its ticket was minted with and what was granted since, the store is
  bounded. The steps of the store are labelled with a history of what the service did.
\<close>

section \<open>Secrets are compared exactly\<close>

unbundle bit_operations_syntax

abbreviation ascii :: "jsstring \<Rightarrow> bool" where
  "ascii s \<equiv> list_all (\<lambda>c. c < 0x80) s"

lemma ascii_byte: "(c :: code_unit) < 0x80 \<Longrightarrow> \<not> bit (ucast c :: 8 word) 7"
  by (simp add: bit_ucast_iff) (simp add: bit_iff_odd word_less_nat_alt word_arith_nat_div)

lemma utf8_high: "\<not> (c :: code_unit) < 0x80 \<Longrightarrow> \<exists>b bs. utf8_bytes (c # cs) = b # bs \<and> bit b 7"
  by (auto simp: Let_def bit_simps split: list.split)

lemma utf8_ascii: "(c :: code_unit) < 0x80 \<Longrightarrow> utf8_bytes (c # cs) = ucast c # utf8_bytes cs"
  by simp

lemma ucast_byte_inj:
  assumes "(c :: code_unit) < 0x80" and "(d :: code_unit) < 0x80" and "(ucast c :: 8 word) = ucast d"
  shows "c = d"
proof -
  have "unat (ucast c :: 8 word) = unat c" "unat (ucast d :: 8 word) = unat d"
    using assms(1,2) by (simp_all add: unsigned_ucast_eq take_bit_nat_eq_self word_less_nat_alt)
  then show ?thesis using assms(3) by (metis word_unat_eq_iff)
qed

lemma utf8_exact: "ascii t \<Longrightarrow> utf8_bytes s = utf8_bytes t \<longleftrightarrow> s = t"
proof (induction t arbitrary: s)
  case Nil
  have "utf8_bytes (c # cs) \<noteq> []" for c cs
    using utf8_high [of c cs] utf8_ascii [of c cs] by (cases "c < 0x80") auto
  then show ?case by (cases s) (auto simp del: utf8_bytes.simps(2))
next
  case (Cons d t)
  then have d: "d < 0x80" "ascii t" by simp_all
  show ?case
  proof (cases s)
    case Nil
    then show ?thesis using utf8_ascii [OF d(1)] by (simp del: utf8_bytes.simps(2))
  next
    case (Cons c cs)
    show ?thesis
    proof (cases "c < 0x80")
      case True
      then show ?thesis
        using d Cons.IH [OF d(2), of cs] ucast_byte_inj [OF True d(1)]
        unfolding Cons utf8_ascii [OF True] utf8_ascii [OF d(1)] by auto
    next
      case False
      then show ?thesis
        using utf8_high [OF False, of cs] ascii_byte [OF d(1)] d(1)
        unfolding Cons utf8_ascii [OF d(1)] by auto
    qed
  qed
qed

lemma secretMatches_iff [simp]: "ascii t \<Longrightarrow> secretMatches s t \<longleftrightarrow> s = t"
  by (auto simp: secretMatches_def Let_def utf8_exact dest: arg_cong [of _ _ utf8_bytes])

lemma find_key:
  "list_all (\<lambda>(k, _). ascii k) m \<Longrightarrow> map_option snd (find (\<lambda>(k, _). secretMatches s k) m) = map_of m s"
  by (induction m) auto

section \<open>Histories\<close>

text \<open>
  What the service did, newest first: the tickets it minted, the exchanges that succeeded, the
  grants it added. A ticket and a token are ASCII texts (base64url) that were not drawn before.
\<close>

datatype auth_event =
    Minted bootstrap_ticket
  | Redeemed exchange_input session
  | Granted jsstring jsstring

definition tickets_minted :: "auth_event list \<Rightarrow> bootstrap_ticket list" where
  "tickets_minted h = concat (map (\<lambda>e. case e of Minted t \<Rightarrow> [t] | _ \<Rightarrow> []) h)"

definition redeemed :: "auth_event list \<Rightarrow> (exchange_input \<times> session) list" where
  "redeemed h = concat (map (\<lambda>e. case e of Redeemed i s \<Rightarrow> [(i, s)] | _ \<Rightarrow> []) h)"

definition granted_roots :: "auth_event list \<Rightarrow> jsstring set" where
  "granted_roots h = {root. \<exists>repo. Granted root repo \<in> set h}"

definition granted_repositories :: "auth_event list \<Rightarrow> jsstring set" where
  "granted_repositories h = {repo. \<exists>root. Granted root repo \<in> set h}"

lemma history_simps [simp]:
  "tickets_minted [] = []" "tickets_minted (Minted t # h) = t # tickets_minted h" "tickets_minted (Redeemed i s # h) = tickets_minted h"
  "tickets_minted (Granted root repo # h) = tickets_minted h"
  "redeemed [] = []" "redeemed (Minted t # h) = redeemed h" "redeemed (Redeemed i s # h) = (i, s) # redeemed h"
  "redeemed (Granted root repo # h) = redeemed h"
  "granted_roots [] = {}" "granted_roots (Minted t # h) = granted_roots h"
  "granted_roots (Redeemed i s # h) = granted_roots h"
  "granted_roots (Granted root repo # h) = insert root (granted_roots h)"
  "granted_repositories [] = {}" "granted_repositories (Minted t # h) = granted_repositories h"
  "granted_repositories (Redeemed i s # h) = granted_repositories h"
  "granted_repositories (Granted root repo # h) = insert repo (granted_repositories h)"
  by (auto simp: tickets_minted_def redeemed_def granted_roots_def granted_repositories_def)

inductive auth_step ::
  "auth_options \<Rightarrow> auth_event list \<times> auth_store \<Rightarrow> auth_event list \<times> auth_store \<Rightarrow> bool" for opts where
  mint: "ascii random \<Longrightarrow> random \<notin> bt_ticket ` set (tickets_minted h) \<Longrightarrow>
    mintTicket opts t1 t2 random origin actor grants pw st = (st', t) \<Longrightarrow> auth_step opts (h, st) (Minted t # h, st')"
| redeem: "ascii (xe_token env) \<Longrightarrow> exchange opts env i st = (st', Inr s) \<Longrightarrow> ss_token s \<notin> fst ` set (as_sessions st) \<Longrightarrow>
    auth_step opts (h, st) (Redeemed i s # h, st')"
| refuse: "exchange opts env i st = (st', Inl p) \<Longrightarrow> auth_step opts (h, st) (h, st')"
| authorize: "auth_step opts (h, st) (h, fst (auth_authorize opts t a i st))"
| grant: "auth_step opts (h, st) (Granted root repo # h, fst (auth_grant sid root repo st))"
| grant_all: "auth_step opts (h, st) (Granted root repo # h, fst (grantRepository root repo st))"
| revoke_repository: "auth_step opts (h, st) (h, revokeRepository repo root b st)"
| revoke: "auth_step opts (h, st) (h, fst (auth_revoke sid st))"

text \<open>Where a session comes from: a ticket minted by the service, redeemed from its origin.\<close>

definition authority_from :: "auth_options \<Rightarrow> auth_event list \<Rightarrow> session \<Rightarrow> bool" where
  "authority_from opts h s \<longleftrightarrow>
     (\<exists>t i s0. t \<in> set (tickets_minted h) \<and> (i, s0) \<in> set (redeemed h) \<and> xi_ticket i = bt_ticket t \<and>
        sameLoopbackService (bt_origin t) (xi_origin i) \<and> (bt_passwordRequired t \<longrightarrow> password_ok opts (xi_password i)) \<and>
        ss_sessionId s = ss_sessionId s0 \<and> ss_actor s = bt_actor t \<and>
        sg_scopes (ss_grants s) = sg_scopes (bt_grants t) \<and>
        set (sg_repositoryIds (ss_grants s)) \<subseteq> set (sg_repositoryIds (bt_grants t)) \<union> granted_repositories h \<and>
        set (sg_allowedRootIds (ss_grants s)) \<subseteq> set (sg_allowedRootIds (bt_grants t)) \<union> granted_roots h)"

definition ticket_ok :: "auth_event list \<Rightarrow> jsstring \<times> bootstrap_ticket \<Rightarrow> bool" where
  "ticket_ok h = (\<lambda>(k, t). ascii k \<and> bt_ticket t = k \<and> t \<in> set (tickets_minted h) \<and> k \<notin> (\<lambda>(i, s). xi_ticket i) ` set (redeemed h))"

definition session_ok :: "auth_options \<Rightarrow> auth_event list \<Rightarrow> jsstring \<times> session \<Rightarrow> bool" where
  "session_ok opts h = (\<lambda>(k, s). ascii k \<and> ss_token s = k \<and> authority_from opts h s)"

definition auth_inv :: "auth_options \<Rightarrow> auth_event list \<times> auth_store \<Rightarrow> bool" where
  "auth_inv opts = (\<lambda>(h, st).
     keys_distinct (as_tickets st) \<and> keys_distinct (as_sessions st) \<and>
     length (as_tickets st) \<le> ao_maxTickets opts + 1 \<and> length (as_sessions st) \<le> ao_maxSessions opts + 1 \<and>
     (\<forall>p \<in> set (as_tickets st). ticket_ok h p) \<and> (\<forall>p \<in> set (as_sessions st). session_ok opts h p) \<and>
     distinct (map bt_ticket (tickets_minted h)) \<and> distinct (map (\<lambda>(i, s). xi_ticket i) (redeemed h)) \<and>
     (\<lambda>(i, s). xi_ticket i) ` set (redeemed h) \<subseteq> bt_ticket ` set (tickets_minted h))"

subsection \<open>Pruning\<close>

lemma auth_prune_sub:
  assumes "auth_inv opts (h, st)"
  shows "set (as_tickets (auth_prune opts t st)) \<subseteq> {p \<in> set (as_tickets st). t < bt_expiresAtMs (snd p)}"
    and "set (as_sessions (auth_prune opts t st)) \<subseteq> {p \<in> set (as_sessions st). t < ss_expiresAtMs (snd p)}"
proof -
  have d: "keys_distinct (as_tickets st)" "keys_distinct (as_sessions st)" using assms by (simp_all add: auth_inv_def)
  show "set (as_tickets (auth_prune opts t st)) \<subseteq> {p \<in> set (as_tickets st). t < bt_expiresAtMs (snd p)}"
    using evicting.evict_subset [OF keys_distinct_keep [OF d(1)]] by (fastforce simp: auth_prune_def keep_def)
  show "set (as_sessions (auth_prune opts t st)) \<subseteq> {p \<in> set (as_sessions st). t < ss_expiresAtMs (snd p)}"
    using evicting.evict_subset [OF keys_distinct_keep [OF d(2)]] by (fastforce simp: auth_prune_def keep_def)
qed

lemma auth_prune_inv:
  assumes "auth_inv opts (h, st)"
  shows "auth_inv opts (h, auth_prune opts t st)"
    and "length (as_tickets (auth_prune opts t st)) \<le> ao_maxTickets opts"
    and "length (as_sessions (auth_prune opts t st)) \<le> ao_maxSessions opts"
proof -
  have d: "keys_distinct (as_tickets st)" "keys_distinct (as_sessions st)" using assms by (simp_all add: auth_inv_def)
  show len: "length (as_tickets (auth_prune opts t st)) \<le> ao_maxTickets opts"
    "length (as_sessions (auth_prune opts t st)) \<le> ao_maxSessions opts"
    using d by (simp_all add: auth_prune_def evicting.evict_length)
  have "keys_distinct (as_tickets (auth_prune opts t st))" "keys_distinct (as_sessions (auth_prune opts t st))"
    using d by (simp_all add: auth_prune_def)
  then show "auth_inv opts (h, auth_prune opts t st)"
    using assms len auth_prune_sub [OF assms, of t] by (auto simp: auth_inv_def)
qed

text \<open>A pruned store keeps a ticket that has not expired.\<close>

lemma pruned_again:
  assumes "length (as_tickets st) \<le> ao_maxTickets opts" and "map_of (as_tickets st) k = Some t"
    and "keys_distinct (as_tickets st)" and "t1 < bt_expiresAtMs t"
  shows "map_of (as_tickets (auth_prune opts t1 st)) k = Some t"
proof -
  have "length (keep (\<lambda>t. \<not> bt_expiresAtMs t \<le> t1) (as_tickets st)) \<le> ao_maxTickets opts"
    using assms(1) unfolding keep_def by (rule le_trans [OF length_filter_le])
  then show ?thesis using assms(2-4) by (simp add: auth_prune_def evict_loop_small map_of_keep)
qed

lemma found_ticket:
  assumes "auth_inv opts (h, st)"
  shows "findTicket k st = map_of (as_tickets st) k" and "findSession k st = map_of (as_sessions st) k"
proof -
  have "list_all (\<lambda>(k, _). ascii k) (as_tickets st)" "list_all (\<lambda>(k, _). ascii k) (as_sessions st)"
    using assms unfolding list_all_iff [of "\<lambda>(k, _). ascii k"]
    by (auto simp: auth_inv_def ticket_ok_def session_ok_def simp del: list_all_iff)
  then show "findTicket k st = map_of (as_tickets st) k" "findSession k st = map_of (as_sessions st) k"
    by (simp_all add: findTicket_def findSession_def find_key)
qed

subsection \<open>Every step keeps the invariant\<close>

lemma authority_mono:
  "authority_from opts h s \<Longrightarrow> set (tickets_minted h) \<subseteq> set (tickets_minted h') \<Longrightarrow> set (redeemed h) \<subseteq> set (redeemed h') \<Longrightarrow>
   granted_roots h \<subseteq> granted_roots h' \<Longrightarrow> granted_repositories h \<subseteq> granted_repositories h' \<Longrightarrow> authority_from opts h' s"
  unfolding authority_from_def by blast

lemma authority_later: "authority_from opts h s \<Longrightarrow> authority_from opts (e # h) s"
  by (erule authority_mono; cases e) auto

lemma authority_with_grant: "authority_from opts h s \<Longrightarrow> authority_from opts (Granted root repo # h) (with_grant root repo s)"
  unfolding authority_from_def
  by (elim exE, rule exI, rule exI, rule exI) (auto simp: with_grant_def with_id_def)

lemma authority_without_grant: "authority_from opts h s \<Longrightarrow> authority_from opts h (without_grant repo root b s)"
  unfolding authority_from_def
  by (elim exE, rule exI, rule exI, rule exI) (auto simp: without_grant_def)

lemma session_later: "session_ok opts h p \<Longrightarrow> session_ok opts (e # h) p"
  by (auto simp: session_ok_def authority_later)

lemma ticket_later: "ticket_ok h p \<Longrightarrow> (\<And>i s. e = Redeemed i s \<Longrightarrow> xi_ticket i \<noteq> fst p) \<Longrightarrow> ticket_ok (e # h) p"
  by (cases e) (auto simp: ticket_ok_def)

lemma token_simps [simp]: "ss_token (with_grant root repo s) = ss_token s" "ss_token (without_grant repo root b s) = ss_token s"
  by (simp_all add: with_grant_def without_grant_def)

lemma sessions_changed:
  assumes "auth_inv opts (h, st)" and "as_tickets st' = as_tickets st"
    and "keys_distinct (as_sessions st')" and "length (as_sessions st') \<le> length (as_sessions st)"
    and "\<And>p. p \<in> set (as_sessions st') \<Longrightarrow> session_ok opts h' p"
    and "h' = h \<or> (\<exists>root repo. h' = Granted root repo # h)"
  shows "auth_inv opts (h', st')"
proof -
  have "tickets_minted h' = tickets_minted h" "redeemed h' = redeemed h" using assms(6) by auto
  moreover have "\<forall>p \<in> set (as_tickets st). ticket_ok h' p"
    using assms(1,6) by (auto simp: auth_inv_def intro: ticket_later)
  ultimately show ?thesis using assms(1-5) by (simp add: auth_inv_def)
qed

lemma found_member: "find P m = Some p \<Longrightarrow> p \<in> set m"
  by (auto simp: find_Some_iff)

lemma mint_inv:
  assumes inv: "auth_inv opts (h, st)" and "ascii random" and "random \<notin> bt_ticket ` set (tickets_minted h)"
    and mint: "mintTicket opts t1 t2 random origin actor grants pw st = (st', t)"
  shows "auth_inv opts (Minted t # h, st')"
proof -
  note p = auth_prune_inv [OF inv, of t1]
  from mint have t: "bt_ticket t = random" and sess: "as_sessions st' = as_sessions (auth_prune opts t1 st)"
    and tick: "as_tickets st' = AList.update random t (as_tickets (auth_prune opts t1 st))"
    by (auto simp: mintTicket_def Let_def)
  have d: "keys_distinct (as_tickets (auth_prune opts t1 st))" using p(1) by (simp add: auth_inv_def)
  have "random \<notin> (\<lambda>(i, s). xi_ticket i) ` set (redeemed h)" using inv assms(3) by (auto simp: auth_inv_def)
  then have "ticket_ok (Minted t # h) (random, t)" using assms(2) t by (auto simp: ticket_ok_def)
  moreover have "ticket_ok (Minted t # h) q" if "q \<in> set (as_tickets (auth_prune opts t1 st))" for q
    using that p(1) by (auto simp: auth_inv_def intro: ticket_later)
  ultimately have "\<forall>q \<in> set (as_tickets st'). ticket_ok (Minted t # h) q"
    unfolding tick set_update [OF d] by blast
  then show ?thesis
    using p assms(3) t length_update_le [of random t "as_tickets (auth_prune opts t1 st)"]
    by (auto simp: auth_inv_def sess tick session_later)
qed

lemma exchange_success:
  assumes "exchange opts env i st = (st', Inr s)"
  obtains t where "findTicket (xi_ticket i) (auth_prune opts (xe_prunedAt env) st) = Some t"
    and "xe_checkedAt env < bt_expiresAtMs t" and "bt_serviceInstanceId t = xi_serviceInstanceId i"
    and "sameLoopbackService (bt_origin t) (xi_origin i)" and "bt_passwordRequired t \<longrightarrow> password_ok opts (xi_password i)"
    and "s = new_session opts env t"
    and "as_tickets st' = AList.delete (bt_ticket t) (as_tickets (auth_prune opts (xe_prunedAt env) st))"
    and "as_sessions st' = AList.update (ss_token s) s (as_sessions (auth_prune opts (xe_prunedAt env) st))"
  using assms by (auto simp: exchange_def Let_def delete_ticket_def split: option.splits if_splits)

lemma redeem_inv:
  assumes inv: "auth_inv opts (h, st)" and "ascii (xe_token env)" and ex: "exchange opts env i st = (st', Inr s)"
  shows "auth_inv opts (Redeemed i s # h, st')"
proof -
  let ?st = "auth_prune opts (xe_prunedAt env) st"
  note p = auth_prune_inv [OF inv, of "xe_prunedAt env"]
  from ex obtain t where t: "findTicket (xi_ticket i) ?st = Some t"
    and conds: "sameLoopbackService (bt_origin t) (xi_origin i)" "bt_passwordRequired t \<longrightarrow> password_ok opts (xi_password i)"
    and s: "s = new_session opts env t" and tick: "as_tickets st' = AList.delete (bt_ticket t) (as_tickets ?st)"
    and sess: "as_sessions st' = AList.update (ss_token s) s (as_sessions ?st)" by (rule exchange_success)
  have d: "keys_distinct (as_tickets ?st)" "keys_distinct (as_sessions ?st)" using p(1) by (simp_all add: auth_inv_def)
  have "(xi_ticket i, t) \<in> set (as_tickets ?st)"
    using t found_ticket(1) [OF p(1)] d(1) by (simp add: map_of_iff)
  then have ok: "ticket_ok h (xi_ticket i, t)" using p(1) by (auto simp: auth_inv_def)
  then have id: "bt_ticket t = xi_ticket i" and m: "t \<in> set (tickets_minted h)" by (simp_all add: ticket_ok_def)
  have "authority_from opts (Redeemed i s # h) s"
    unfolding authority_from_def
    by (rule exI [of _ t], rule exI [of _ i], rule exI [of _ s])
      (use m id conds in \<open>auto simp: s new_session_def copyGrants_def\<close>)
  then have "session_ok opts (Redeemed i s # h) (ss_token s, s)"
    using assms(2) by (simp add: session_ok_def s new_session_def)
  moreover have "session_ok opts (Redeemed i s # h) q" if "q \<in> set (as_sessions ?st)" for q
    using that p(1) by (auto simp: auth_inv_def intro: session_later)
  ultimately have sessions: "\<forall>q \<in> set (as_sessions st'). session_ok opts (Redeemed i s # h) q"
    unfolding sess set_update [OF d(2)] by blast
  have tickets: "\<forall>q \<in> set (as_tickets st'). ticket_ok (Redeemed i s # h) q"
    using p(1) by (auto simp: tick id AList.delete_eq auth_inv_def intro!: ticket_later)
  have "length (as_tickets st') \<le> ao_maxTickets opts + 1"
    unfolding tick by (rule le_trans [OF _ le_trans [OF p(2)]]) (simp_all add: AList.delete_eq)
  moreover have "length (as_sessions st') \<le> ao_maxSessions opts + 1"
    using length_update_le [of "ss_token s" s "as_sessions ?st"] p(3) by (simp add: sess)
  moreover have "xi_ticket i \<in> bt_ticket ` set (tickets_minted h)" using m id by force
  moreover have "xi_ticket i \<notin> (\<lambda>(i, s). xi_ticket i) ` set (redeemed h)" using ok by (simp add: ticket_ok_def)
  ultimately show ?thesis
    using sessions tickets d p(1) by (auto simp: auth_inv_def tick sess)
qed

lemma refuse_inv:
  assumes inv: "auth_inv opts (h, st)" and ex: "exchange opts env i st = (st', Inl p)"
  shows "auth_inv opts (h, st')"
proof -
  let ?st = "auth_prune opts (xe_prunedAt env) st"
  note p = auth_prune_inv [OF inv, of "xe_prunedAt env"]
  from ex have "st' = ?st \<or> (\<exists>k. st' = delete_ticket k ?st)"
    by (auto simp: exchange_def Let_def split: option.splits if_splits)
  moreover have "auth_inv opts (h, delete_ticket k ?st)" for k
    using p(1) by (auto simp: auth_inv_def delete_ticket_def AList.delete_eq intro: le_trans [OF length_filter_le])
  ultimately show ?thesis using p(1) by auto
qed

lemma update_same_length: "(k, v) \<in> set m \<Longrightarrow> length (AList.update k w m) = length m"
  by (induction m) auto

lemma grant_inv:
  assumes inv: "auth_inv opts (h, st)"
  shows "auth_inv opts (Granted root repo # h, fst (auth_grant sid root repo st))"
proof (rule sessions_changed [OF inv])
  let ?h = "Granted root repo # h" and ?st = "fst (auth_grant sid root repo st)"
  have d: "keys_distinct (as_sessions st)" and ok: "\<And>p. p \<in> set (as_sessions st) \<Longrightarrow> session_ok opts h p"
    using inv by (simp_all add: auth_inv_def)
  show "as_tickets ?st = as_tickets st" by (auto simp: auth_grant_def split: option.split)
  show "keys_distinct (as_sessions ?st)" using d by (auto simp: auth_grant_def split: option.split)
  show "length (as_sessions ?st) \<le> length (as_sessions st)"
    by (auto simp: auth_grant_def dest: found_member simp: update_same_length split: option.split)
  fix p assume p: "p \<in> set (as_sessions ?st)"
  show "session_ok opts ?h p"
  proof (cases "find (\<lambda>(_, s). ss_sessionId s = sid) (as_sessions st)")
    case None
    then have "p \<in> set (as_sessions st)" using p by (simp add: auth_grant_def)
    then show ?thesis by (rule session_later [OF ok])
  next
    case (Some q)
    obtain k s where q: "q = (k, s)" by (cases q)
    from Some have "(k, s) \<in> set (as_sessions st)" unfolding q by (rule found_member)
    from ok [OF this] have "session_ok opts ?h (k, with_grant root repo s)"
      by (simp add: session_ok_def authority_with_grant)
    moreover have "session_ok opts ?h q" if "q \<in> set (as_sessions st)" for q
      using that by (rule session_later [OF ok])
    ultimately show ?thesis using p Some by (cases p) (auto simp: auth_grant_def q set_update [OF d])
  qed
qed simp

lemma map_vals_inv:
  assumes inv: "auth_inv opts (h, st)" and "h' = h \<or> (\<exists>root repo. h' = Granted root repo # h)"
    and f: "\<And>s. authority_from opts h s \<Longrightarrow> authority_from opts h' (f s)" and "\<And>s. ss_token (f s) = ss_token s"
  shows "auth_inv opts (h', st\<lparr>as_sessions := map_vals f (as_sessions st)\<rparr>)"
proof (rule sessions_changed [OF inv])
  show "keys_distinct (as_sessions (st\<lparr>as_sessions := map_vals f (as_sessions st)\<rparr>))"
    using inv by (simp add: auth_inv_def)
  show "session_ok opts h' p" if "p \<in> set (as_sessions (st\<lparr>as_sessions := map_vals f (as_sessions st)\<rparr>))" for p
    using that inv f assms(4) by (auto simp: auth_inv_def map_vals_def session_ok_def)
qed (use assms in \<open>simp_all add: map_vals_def\<close>)

lemma revoke_inv:
  assumes inv: "auth_inv opts (h, st)"
  shows "auth_inv opts (h, fst (auth_revoke sid st))"
proof (rule sessions_changed [OF inv])
  let ?st = "fst (auth_revoke sid st)"
  show "as_tickets ?st = as_tickets st" by (auto simp: auth_revoke_def split: option.split)
  show "keys_distinct (as_sessions ?st)" using inv by (auto simp: auth_revoke_def auth_inv_def split: option.split)
  show "length (as_sessions ?st) \<le> length (as_sessions st)"
    by (auto simp: auth_revoke_def AList.delete_eq split: option.split)
  show "session_ok opts h p" if "p \<in> set (as_sessions ?st)" for p
    using that inv by (auto simp: auth_revoke_def AList.delete_eq auth_inv_def split: option.splits)
qed simp

lemma authorize_pruned: "fst (auth_authorize opts t a i st) = auth_prune opts t st"
  by (simp add: auth_authorize_def Let_def)

interpretation auth: transition_system
  "\<lambda>s. s = ([], \<lparr>as_tickets = [], as_sessions = []\<rparr>)" "auth_step opts" "auth_inv opts" for opts
proof
  fix s :: "auth_event list \<times> auth_store"
  assume "s = ([], \<lparr>as_tickets = [], as_sessions = []\<rparr>)"
  then show "auth_inv opts s" by (simp add: auth_inv_def)
next
  fix s s' assume "auth_step opts s s'" and "auth_inv opts s"
  then show "auth_inv opts s'"
  proof (induction rule: auth_step.induct)
    case (grant_all h st root repo)
    then show ?case
      unfolding grantRepository_def fst_conv
      by (intro map_vals_inv) (auto intro: authority_with_grant authority_later)
  next
    case (revoke_repository h st repo root b)
    then show ?case
      unfolding revokeRepository_def by (intro map_vals_inv) (auto intro: authority_without_grant)
  qed (auto intro: mint_inv redeem_inv refuse_inv grant_inv revoke_inv simp: authorize_pruned auth_prune_inv(1))
qed

section \<open>What the store guarantees\<close>

abbreviation auth_runs :: "auth_options \<Rightarrow> auth_event list \<Rightarrow> auth_store \<Rightarrow> bool" where
  "auth_runs opts h st \<equiv> (auth_step opts)\<^sup>*\<^sup>* ([], \<lparr>as_tickets = [], as_sessions = []\<rparr>) (h, st)"

lemma auth_reached: "auth_runs opts h st \<Longrightarrow> auth_inv opts (h, st)"
  using auth.reachable_inv by blast

text \<open>
  C25. A pairing ticket is redeemed at most once, and only a ticket the service minted is ever redeemed:
  in any run of the store, whatever the clock, the order of the calls and the texts callers send,
  the tickets of the successful exchanges are pairwise different and all were minted.
\<close>

theorem tickets_redeemed_once:
  assumes "auth_runs opts h st"
  shows "distinct (map (\<lambda>(i, s). xi_ticket i) (redeemed h)) \<and>
    (\<lambda>(i, s). xi_ticket i) ` set (redeemed h) \<subseteq> bt_ticket ` set (tickets_minted h)"
  using auth_reached [OF assms] by (simp add: auth_inv_def)

lemma authorize_session:
  assumes inv: "auth_inv opts (h, st)" and "auth_authorize opts t authorization instance_id st = (st', Inr s)"
  shows "authorization = Some (str ''Bearer '' @ ss_token s) \<and> t < ss_expiresAtMs s \<and>
    ss_serviceInstanceId s = instance_id \<and> authority_from opts h s"
proof -
  let ?st = "auth_prune opts t st"
  note p = auth_prune_inv(1) [OF inv, of t]
  from assms(2) obtain header token where a: "authorization = Some header" "bearer_token header = Some token"
    and f: "findSession token ?st = Some s" and i: "ss_serviceInstanceId s = instance_id"
    by (auto simp: auth_authorize_def Let_def split: list.splits option.splits if_splits)
  have "(token, s) \<in> set (as_sessions ?st)"
    using f found_ticket(2) [OF p] p by (simp add: auth_inv_def map_of_iff)
  then have "session_ok opts h (token, s)" "t < ss_expiresAtMs s"
    using p auth_prune_sub(2) [OF inv, of t] by (auto simp: auth_inv_def)
  moreover have "header = str ''Bearer '' @ token"
    using a(2) by (auto simp: bearer_token_def Let_def startsWith_iff split: if_splits simp del: str_simps)
  ultimately show ?thesis using a(1) i by (simp add: session_ok_def del: str_simps)
qed

text \<open>
  A probe from another origin does not spend a ticket: when an exchange is refused because of its
  origin, the holder of the ticket can still redeem it from the right one, as long as it has not
  expired.
\<close>

theorem wrong_origin_keeps_ticket:
  assumes "auth_runs opts h st" and "exchange opts env i st = (st', Inl p)" and "pr_code p = ''Forbidden''"
    and "findTicket (xi_ticket i) (auth_prune opts (xe_prunedAt env) st) = Some t"
    and "sameLoopbackService (bt_origin t) origin" and "bt_passwordRequired t \<longrightarrow> password_ok opts password"
    and "xe_prunedAt env' < bt_expiresAtMs t" and "xe_checkedAt env' < bt_expiresAtMs t"
  shows "\<exists>st''. exchange opts env' (i\<lparr>xi_origin := origin, xi_password := password\<rparr>) st' = (st'', Inr (new_session opts env' t))"
proof -
  let ?st = "auth_prune opts (xe_prunedAt env) st" and ?st' = "auth_prune opts (xe_prunedAt env') st'"
  have inv: "auth_inv opts (h, st)" by (rule auth_reached [OF assms(1)])
  note p = auth_prune_inv [OF inv, of "xe_prunedAt env"]
  have st': "st' = ?st" and sid: "bt_serviceInstanceId t = xi_serviceInstanceId i"
    using assms(2-4) by (auto simp: exchange_def Let_def split: if_splits)
  have "map_of (as_tickets ?st) (xi_ticket i) = Some t" using assms(4) found_ticket(1) [OF p(1)] by simp
  then have "map_of (as_tickets ?st') (xi_ticket i) = Some t"
    unfolding st' using p assms(7) by (rule_tac pruned_again) (simp_all add: auth_inv_def)
  then have "findTicket (xi_ticket i) ?st' = Some t"
    using found_ticket(1) [OF auth_prune_inv(1) [OF p(1)]] by (simp add: st')
  then show ?thesis using assms(5,6,8) sid by (simp add: exchange_def Let_def)
qed

text \<open>
  The store is bounded: never more than one ticket and one session above the limits, since room is
  made before an entry is added.
\<close>

lemma auth_bounded:
  assumes "auth_runs opts h st"
  shows "ticketCount st \<le> ao_maxTickets opts + 1 \<and> sessionCount st \<le> ao_maxSessions opts + 1"
  using auth_reached [OF assms] by (simp add: auth_inv_def ticketCount_def sessionCount_def)

lemma revoked_sessions:
  "map_of (as_sessions (revokeRepository repo root b st)) k = map_option (without_grant repo root b) (map_of (as_sessions st) k)"
  by (simp add: revokeRepository_def map_of_map_vals)

text \<open>
  Revoking a repository takes it from every session at once and nothing else, but a ticket minted
  before the revocation and redeemed after it brings the repository back: the new session is
  allowed to use it.
\<close>

theorem revocation_misses_tickets:
  assumes "auth_runs opts h st"
    and "findTicket (xi_ticket i) (auth_prune opts (xe_prunedAt env) st) = Some t" and "repo \<in> set (sg_repositoryIds (bt_grants t))"
    and "exchange opts env i (revokeRepository repo root b st) = (st', Inr s)"
  shows "(\<forall>k s0. map_of (as_sessions (revokeRepository repo root b st)) k = Some s0 \<longrightarrow> \<not> allowsRepository s0 repo) \<and>
    allowsRepository s repo \<and> map_of (as_sessions st') (ss_token s) = Some s"
proof -
  have "as_tickets (auth_prune opts (xe_prunedAt env) (revokeRepository repo root b st)) = as_tickets (auth_prune opts (xe_prunedAt env) st)"
    by (simp add: auth_prune_def revokeRepository_def)
  then have find: "findTicket (xi_ticket i) (auth_prune opts (xe_prunedAt env) (revokeRepository repo root b st)) = Some t"
    using assms(2) by (simp add: findTicket_def)
  have "s = new_session opts env t \<and> map_of (as_sessions st') (ss_token s) = Some s"
    using assms(4) by (rule exchange_success) (use find in \<open>simp add: update_Some_unfold\<close>)
  then show ?thesis
    using assms(3)
    by (auto simp: revoked_sessions without_grant_def allowsRepository_def new_session_def copyGrants_def)
qed

lemma loopback_spelling:
  "host \<in> set loopback_hosts \<Longrightarrow> all_digits port \<Longrightarrow> loopback (str ''http://'' @ host @ str '':'' @ port) = Some port"
  by (auto simp: loopback_def loopback_hosts_def startsWith_def)

text \<open>
  The spellings of the loopback address count as one service exactly when their ports are the same,
  and an origin that is not one of them is the same service as itself only.
\<close>

theorem same_service_spellings:
  assumes "host \<in> set loopback_hosts" and "host' \<in> set loopback_hosts" and "all_digits port" and "all_digits port'"
    and "loopback hosted = None"
  shows "(sameLoopbackService (str ''http://'' @ host @ str '':'' @ port) (str ''http://'' @ host' @ str '':'' @ port') \<longleftrightarrow> port = port') \<and>
    (sameLoopbackService hosted other \<longleftrightarrow> hosted = other) \<and> (sameLoopbackService other hosted \<longleftrightarrow> hosted = other)"
proof -
  have "sameLoopbackService a b \<longleftrightarrow> a = b \<or> loopback a \<noteq> None \<and> loopback b = loopback a" for a b
    by (auto simp: sameLoopbackService_def split: option.split)
  moreover have "str ''http://'' @ host @ str '':'' @ port = str ''http://'' @ host' @ str '':'' @ port' \<Longrightarrow> port = port'"
    using loopback_spelling [OF assms(1,3)] loopback_spelling [OF assms(2,4)] by (simp del: str_simps)
  ultimately show ?thesis
    using loopback_spelling [OF assms(1,3)] loopback_spelling [OF assms(2,4)] assms(5) by (auto simp del: str_simps)
qed

end
