(* ===== verification/Access.thy ===== *)
theory Access
  imports AuthLife Jobs
begin

text \<open>
  Who may do what over HTTP: the origin policy (\<^verbatim>\<open>packages/host-node/src/http/origins.ts\<close>), the scope of each
  mutation (\<^verbatim>\<open>scope-policy.ts\<close>), the status of each problem (\<^verbatim>\<open>errors.ts\<close>), the checks every request
  passes before a handler runs (\<^verbatim>\<open>hono-app.ts\<close>, \<^verbatim>\<open>router.ts\<close>) and the grants of the server
  (\<^verbatim>\<open>server.ts\<close>). Schemas of the contract are parameters: what a query or a body converts to.
\<close>

section \<open>Origins\<close>

record origin_policy =
  op_authorities :: "jsstring list"
  op_origins :: "jsstring list"

definition createOriginPolicy :: "jsstring list \<Rightarrow> jsstring list \<Rightarrow> origin_policy" where
  "createOriginPolicy authorities allowedOrigins =
     \<lparr>op_authorities = fold set_add authorities [], op_origins = fold set_add allowedOrigins []\<rparr>"

record origin_check_input =
  oc_origin :: "jsstring option"
  oc_host :: "jsstring option"
  oc_secFetchSite :: "jsstring option"

definition origin_check :: "origin_policy \<Rightarrow> origin_check_input \<Rightarrow> problem option" where
  "origin_check policy i =
     (if pred_option (\<lambda>host. host \<notin> set (op_authorities policy)) (oc_host i)
      then Some (refuse ''Forbidden''
             (str ''this service only answers on its own loopback authority; the Host header did not match'') False)
      else if oc_origin i = Some (str ''null'')
      then Some (refuse ''Forbidden''
             (str ''an opaque (null) origin is refused; open the workbench from the URL this service printed'') False)
      else (case oc_origin i of
          Some origin \<Rightarrow>
            if origin \<notin> set (op_origins policy)
            then Some (refuse ''Forbidden'' (str ''that origin is not one this service was started for'') False)
            else None
        | None \<Rightarrow>
            if oc_secFetchSite i = Some (str ''cross-site'')
            then Some (refuse ''Forbidden''
                   (str ''a cross-site request is refused even without an Origin header; open the workbench directly'') False)
            else None))"

definition loopbackAuthorities :: "nat \<Rightarrow> bool \<Rightarrow> jsstring list" where
  "loopbackAuthorities port includeIpv6 =
     [str ''127.0.0.1:'' @ decimal port, str ''localhost:'' @ decimal port] @
     (if includeIpv6 then [str ''[::1]:'' @ decimal port] else [])"

definition originsFor :: "jsstring list \<Rightarrow> jsstring list" where
  "originsFor authorities = map (\<lambda>authority. str ''http://'' @ authority) authorities"

section \<open>Scopes and statuses\<close>

definition MUTATION_SCOPE :: "(string \<times> string) list" where
  "MUTATION_SCOPE =
     [(''initRepository'', ''workspace:manage''), (''cloneRepository'', ''workspace:manage''),
      (''stagePaths'', ''repository:write''), (''unstagePaths'', ''repository:write''),
      (''discardTrackedPaths'', ''repository:write''), (''commit'', ''repository:write''),
      (''amendCommit'', ''repository:write''), (''createBranch'', ''repository:write''),
      (''switchBranch'', ''repository:write''), (''renameBranch'', ''repository:write''),
      (''deleteBranch'', ''repository:write''), (''setBranchUpstream'', ''repository:write''),
      (''addRemote'', ''repository:write''), (''updateRemote'', ''repository:write''),
      (''removeRemote'', ''repository:write''), (''fetch'', ''repository:network''),
      (''push'', ''repository:network''), (''pull'', ''repository:network''),
      (''createStash'', ''repository:write''), (''applyStash'', ''repository:write''),
      (''popStash'', ''repository:write''), (''dropStash'', ''repository:write''),
      (''createTag'', ''repository:write''), (''deleteTag'', ''repository:write''),
      (''pushTag'', ''repository:network''), (''createWorktree'', ''repository:write''),
      (''removeWorktree'', ''repository:write''), (''lockWorktree'', ''repository:write''),
      (''unlockWorktree'', ''repository:write''), (''addSubmodule'', ''repository:write''),
      (''updateSubmodule'', ''repository:write''), (''syncSubmodule'', ''repository:write''),
      (''merge'', ''repository:write''), (''continueMerge'', ''repository:write''),
      (''abortMerge'', ''repository:write''), (''cherryPick'', ''repository:write''),
      (''continueCherryPick'', ''repository:write''), (''abortCherryPick'', ''repository:write''),
      (''rebase'', ''repository:write''), (''continueRebase'', ''repository:write''),
      (''abortRebase'', ''repository:write''), (''dropCommit'', ''repository:write''),
      (''squashCommit'', ''repository:write''), (''revertCommit'', ''repository:write''),
      (''resetBranch'', ''repository:write'')]"

definition scopeForMutationKind :: "jsstring \<Rightarrow> jsstring option" where
  "scopeForMutationKind kind = map_of (map (\<lambda>(k, s). (str k, str s)) MUTATION_SCOPE) kind"

definition STATUS_BY_CODE :: "(string \<times> nat) list" where
  "STATUS_BY_CODE =
     [(''Unauthenticated'', 401), (''Forbidden'', 403), (''NotFound'', 404), (''InvalidRequest'', 400),
      (''UnsupportedOperation'', 501), (''InvalidOperationPayload'', 422), (''UnsupportedPathEncoding'', 422),
      (''StaleSnapshot'', 409), (''StalePreview'', 409), (''Conflict'', 409), (''IdempotencyConflict'', 409),
      (''ResourceBusy'', 429), (''LimitExceeded'', 413), (''GitCommandFailed'', 500), (''NeedsAttention'', 409),
      (''UncertainOutcome'', 500), (''Timeout'', 504), (''Cancelled'', 409), (''Unavailable'', 503),
      (''ProviderNotConnected'', 409), (''NoProviderRemote'', 409), (''ProviderUnauthorized'', 502),
      (''ProviderRateLimited'', 429), (''InternalError'', 500)]"

definition statusForProblem :: "problem \<Rightarrow> nat option" where
  "statusForProblem p = map_of STATUS_BY_CODE (pr_code p)"

definition problemFor :: "string \<Rightarrow> jsstring \<Rightarrow> (jsstring \<times> jsvalue) list option \<Rightarrow> bool \<Rightarrow> problem" where
  "problemFor code message details retryable =
     \<lparr>pr_code = code, pr_message = message, pr_details = details, pr_retryable = retryable, pr_operationId = None\<rparr>"

section \<open>Before the routes\<close>

record http_request =
  hr_method :: jsstring
  hr_path :: jsstring
  hr_target :: jsstring
  hr_origin :: "jsstring option"
  hr_host :: "jsstring option"
  hr_secFetchSite :: "jsstring option"
  hr_authorization :: "jsstring option"
  hr_requestMethod :: "jsstring option"
  hr_requestHeaders :: "jsstring option"

definition externalOrigin :: "jsstring option \<Rightarrow> jsstring list option \<Rightarrow> jsstring option" where
  "externalOrigin origin allowedOrigins =
     (case (origin, allowedOrigins) of
        (Some o1, Some allowed) \<Rightarrow> if o1 \<in> set allowed then Some o1 else None
      | _ \<Rightarrow> None)"

text \<open>\<^verbatim>\<open>toLowerCase()\<close> on the Latin-1 text of a header.\<close>

definition lower_latin1 :: "code_unit \<Rightarrow> code_unit" where
  "lower_latin1 c = (if 0x41 \<le> c \<and> c \<le> 0x5a \<or> 0xc0 \<le> c \<and> c \<le> 0xde \<and> c \<noteq> 0xd7 then c + 0x20 else c)"

definition cors_methods :: "bool \<Rightarrow> jsstring list" where
  "cors_methods mcp = (if mcp then [str ''GET'', str ''POST'', str ''DELETE''] else [str ''GET'', str ''POST''])"

definition cors_headers :: "bool \<Rightarrow> jsstring list" where
  "cors_headers mcp = [str ''authorization'', str ''content-type'', str ''accept''] @
     (if mcp then [str ''mcp-session-id'', str ''mcp-protocol-version'', str ''last-event-id''] else [])"

datatype options_response = MethodNotAllowed | OptionsRefused problem | NoContent

definition optionsResponse :: "http_request \<Rightarrow> jsstring option \<Rightarrow> bool \<Rightarrow> options_response" where
  "optionsResponse req hostedOrigin mcp =
     (if hostedOrigin = None then MethodNotAllowed
      else if \<not> pred_option (\<lambda>m. m \<in> set (cors_methods mcp)) (hr_requestMethod req)
      then OptionsRefused (problemFor ''Forbidden'' (str ''that hosted request method is not allowed'') None False)
      else (case hr_requestHeaders req of
          None \<Rightarrow> NoContent
        | Some headers \<Rightarrow>
            (case find (\<lambda>h. h \<noteq> [] \<and> h \<notin> set (cors_headers mcp))
                   (map (\<lambda>h. map lower_latin1 (js_trim h)) (splitOn 0x2c headers)) of
               Some invalid \<Rightarrow> OptionsRefused (problemFor ''Forbidden''
                 (str ''that hosted request header is not allowed: '' @ invalid) None False)
             | None \<Rightarrow> NoContent)))"

text \<open>The middleware: turned away, answered at once, or passed on with the hosted origin it names.\<close>

datatype admission = TurnedAway problem | Preflight options_response | Passed "jsstring option"

definition admit_request ::
  "nat \<Rightarrow> origin_policy option \<Rightarrow> jsstring list option \<Rightarrow> http_request \<Rightarrow> admission" where
  "admit_request maxUrlBytes policy allowedOrigins req =
     (if utf8_length (hr_target req) > maxUrlBytes
      then TurnedAway (problemFor ''LimitExceeded''
             (str ''the request target may not exceed '' @ decimal maxUrlBytes @ str '' bytes'') None False)
      else (case policy of
          None \<Rightarrow> TurnedAway (problemFor ''Unavailable'' (str ''the service is still starting'') None False)
        | Some policy \<Rightarrow>
            (case origin_check policy \<lparr>oc_origin = hr_origin req, oc_host = hr_host req, oc_secFetchSite = hr_secFetchSite req\<rparr> of
               Some p \<Rightarrow> TurnedAway p
             | None \<Rightarrow>
                 (let hosted = externalOrigin (hr_origin req) allowedOrigins
                  in if hr_method req = str ''OPTIONS''
                     then Preflight (optionsResponse req hosted (hr_path req = str ''/mcp''))
                     else Passed hosted))))"

section \<open>Routes\<close>

definition SERVICES_ACTOR :: jsstring where "SERVICES_ACTOR = str ''local-user''"

text \<open>The schemas of the contract a scope is read from: the kind of a mutation, the operation to cancel.\<close>

record body_schemas =
  bs_mutation :: "jsvalue \<Rightarrow> jsstring option"
  bs_cancel :: "jsvalue \<Rightarrow> jsstring option"

definition mutationRequestScope :: "body_schemas \<Rightarrow> jsvalue \<Rightarrow> jsstring option" where
  "mutationRequestScope schemas body =
     (case bs_mutation schemas body of None \<Rightarrow> None | Some kind \<Rightarrow> scopeForMutationKind kind)"

definition cancellationScope :: "body_schemas \<Rightarrow> engine option \<Rightarrow> jsvalue \<Rightarrow> jsstring option" where
  "cancellationScope schemas jobs body =
     (case bs_cancel schemas body of
        None \<Rightarrow> None
      | Some operationId \<Rightarrow>
          (case jobs of
             None \<Rightarrow> None
           | Some en \<Rightarrow>
               (case job_get operationId SERVICES_ACTOR en of
                  None \<Rightarrow> None
                | Some record \<Rightarrow> scopeForMutationKind (or_kind record))))"

datatype route_scope = ScopeIs string | ScopeOfMutation | ScopeOfCancellation

datatype http_method = Get | Post

record route =
  rt_method :: http_method
  rt_path :: string
  rt_scope :: route_scope

definition readRoute :: "string \<Rightarrow> string \<Rightarrow> route" where
  "readRoute path scope = \<lparr>rt_method = Get, rt_path = path, rt_scope = ScopeIs scope\<rparr>"

definition actionRoute :: "string \<Rightarrow> route_scope \<Rightarrow> route" where
  "actionRoute path scope = \<lparr>rt_method = Post, rt_path = path, rt_scope = scope\<rparr>"

definition readRoutes :: "route list" where
  "readRoutes =
     [readRoute ''/api/v1/capabilities'' ''repository:read'',
      readRoute ''/api/v1/repositories'' ''repository:read'',
      readRoute ''/api/v1/filesystem/entries'' ''workspace:manage'',
      readRoute ''/api/v1/status'' ''repository:read'',
      readRoute ''/api/v1/history'' ''repository:read'',
      readRoute ''/api/v1/refs'' ''repository:read'',
      readRoute ''/api/v1/diff'' ''repository:read'',
      readRoute ''/api/v1/worktrees'' ''repository:read'',
      readRoute ''/api/v1/submodules'' ''repository:read'',
      readRoute ''/api/v1/stashes'' ''repository:read'',
      readRoute ''/api/v1/provider/connection'' ''provider:manage'',
      readRoute ''/api/v1/provider/pull-requests'' ''repository:read'',
      readRoute ''/api/v1/provider/device/status'' ''provider:manage'',
      actionRoute ''/api/v1/previews'' (ScopeIs ''repository:read''),
      readRoute ''/api/v1/operations'' ''repository:read'']"

definition register_route :: route where
  "register_route = actionRoute ''/api/v1/repositories/register'' (ScopeIs ''workspace:manage'')"
definition revoke_route :: route where
  "revoke_route = actionRoute ''/api/v1/repositories/revoke'' (ScopeIs ''workspace:manage'')"
definition provider_connect_route :: route where
  "provider_connect_route = actionRoute ''/api/v1/provider/github/connect'' (ScopeIs ''provider:manage'')"
definition device_start_route :: route where
  "device_start_route = actionRoute ''/api/v1/provider/github/device/start'' (ScopeIs ''provider:manage'')"
definition provider_disconnect_route :: route where
  "provider_disconnect_route = actionRoute ''/api/v1/provider/disconnect'' (ScopeIs ''provider:manage'')"
definition operations_route :: route where
  "operations_route = actionRoute ''/api/v1/operations'' ScopeOfMutation"
definition cancel_route :: route where
  "cancel_route = actionRoute ''/api/v1/operations/cancel'' ScopeOfCancellation"

definition mutationRoutes :: "route list" where
  "mutationRoutes =
     [register_route, revoke_route, provider_connect_route, device_start_route, provider_disconnect_route,
      operations_route, cancel_route]"

definition terminalRoutes :: "route list" where
  "terminalRoutes =
     [actionRoute ''/api/v1/terminal/open'' (ScopeIs ''repository:write''),
      actionRoute ''/api/v1/terminal/input'' (ScopeIs ''repository:write''),
      actionRoute ''/api/v1/terminal/resize'' (ScopeIs ''repository:write''),
      actionRoute ''/api/v1/terminal/close'' (ScopeIs ''repository:write'')]"

definition routes :: "route list" where "routes = readRoutes @ mutationRoutes @ terminalRoutes"

fun requiredScope :: "body_schemas \<Rightarrow> engine option \<Rightarrow> route_scope \<Rightarrow> jsvalue \<Rightarrow> jsstring option" where
  "requiredScope schemas jobs (ScopeIs scope) body = Some (str scope)"
| "requiredScope schemas jobs ScopeOfMutation body = mutationRequestScope schemas body"
| "requiredScope schemas jobs ScopeOfCancellation body = cancellationScope schemas jobs body"

section \<open>The checks of a route\<close>

definition authorizationScopeProblem :: "session \<Rightarrow> jsstring \<Rightarrow> problem option" where
  "authorizationScopeProblem s scope =
     (if allowsScope s scope then None
      else Some (problemFor ''Forbidden'' (str ''this session was not granted the '' @ scope @ str '' scope'')
             (Some [(str ''requiredScope'', JString scope)]) False))"

definition repositoryIdForScope :: "jsvalue \<Rightarrow> jsstring option" where
  "repositoryIdForScope input =
     (if \<not> is_object input then None
      else (case string_of (member input ''repositoryId'') of
          Some repo \<Rightarrow> Some repo
        | None \<Rightarrow>
            if is_object (member input ''target'')
            then string_of (member (member input ''target'') ''repositoryId'')
            else None))"

definition allowedRootIdForScope :: "jsvalue \<Rightarrow> jsstring option" where
  "allowedRootIdForScope input =
     (if \<not> is_object input \<or> \<not> is_object (member input ''target'') \<or>
         member (member input ''target'') ''kind'' \<noteq> JString (str ''workspace'')
      then None
      else string_of (member (member input ''target'') ''allowedRootId''))"

definition scopeProblem :: "(jsstring \<Rightarrow> jsstring option) \<Rightarrow> session \<Rightarrow> jsvalue \<Rightarrow> problem option" where
  "scopeProblem repositoryRootOf s input =
     (case repositoryIdForScope input of
        Some repo \<Rightarrow>
          if allowsRepository s repo then None
          else (let refused = Some (problemFor ''Forbidden'' (str ''this session was not granted that repository'')
                      (Some [(str ''repositoryId'', JString repo)]) False)
                in case repositoryRootOf repo of
                     Some root \<Rightarrow> if allowsRoot s root then None else refused
                   | None \<Rightarrow> refused)
      | None \<Rightarrow>
          (case allowedRootIdForScope input of
             None \<Rightarrow> None
           | Some root \<Rightarrow>
               if allowsRoot s root then None
               else Some (problemFor ''Forbidden'' (str ''this session was not granted that approved root'')
                      (Some [(str ''allowedRootId'', JString root)]) False)))"

text \<open>
  What the query string and the body of a request come to (\<^verbatim>\<open>parseQuery\<close>, \<^verbatim>\<open>convertQuery\<close>,
  \<^verbatim>\<open>readJsonRequest\<close>): a problem or a value.
\<close>

record route_input =
  ri_query :: "problem option"
  ri_converted :: "problem + jsvalue"
  ri_body :: "problem + jsvalue"

record http_options =
  ho_auth :: auth_options
  ho_repositoryRootOf :: "jsstring \<Rightarrow> jsstring option"
  ho_schemas :: body_schemas

text \<open>\<^verbatim>\<open>handleRoute\<close>, up to the handler: a problem, or the session and the input the handler gets.\<close>

definition handleRoute ::
  "http_options \<Rightarrow> engine option \<Rightarrow> int \<Rightarrow> route \<Rightarrow> http_request \<Rightarrow> route_input \<Rightarrow> auth_store \<Rightarrow>
   auth_store \<times> (problem + session \<times> jsvalue)" where
  "handleRoute opts jobs t route req i st =
     (case auth_authorize (ho_auth opts) t (hr_authorization req) (ao_serviceInstanceId (ho_auth opts)) st of
        (st, Inl p) \<Rightarrow> (st, Inl p)
      | (st, Inr s) \<Rightarrow>
          (st,
           case ri_query i of
             Some p \<Rightarrow> Inl p
           | None \<Rightarrow>
               (case (if rt_method route = Get then ri_converted i else ri_body i) of
                  Inl p \<Rightarrow> Inl p
                | Inr value \<Rightarrow>
                    (case (case requiredScope (ho_schemas opts) jobs (rt_scope route)
                              (if rt_method route = Get then JUndefined else value) of
                             None \<Rightarrow> None
                           | Some scope \<Rightarrow> authorizationScopeProblem s scope) of
                       Some p \<Rightarrow> Inl p
                     | None \<Rightarrow>
                         (case scopeProblem (ho_repositoryRootOf opts) s value of
                            Some p \<Rightarrow> Inl p
                          | None \<Rightarrow> Inr (s, value))))))"

section \<open>The grants of the server\<close>

record server =
  sv_currentGrants :: session_grants
  sv_auth :: auth_store

definition addGrant :: "jsstring \<Rightarrow> jsstring \<Rightarrow> session_grants \<Rightarrow> session_grants" where
  "addGrant root repo g =
     \<lparr>sg_allowedRootIds = with_id root (sg_allowedRootIds g), sg_repositoryIds = with_id repo (sg_repositoryIds g),
      sg_scopes = sg_scopes g\<rparr>"

definition removeGrant :: "jsstring \<Rightarrow> jsstring \<Rightarrow> bool \<Rightarrow> session_grants \<Rightarrow> session_grants" where
  "removeGrant repo root rootHasRepositories g =
     \<lparr>sg_allowedRootIds = (if rootHasRepositories then sg_allowedRootIds g else filter (\<lambda>i. i \<noteq> root) (sg_allowedRootIds g)),
      sg_repositoryIds = filter (\<lambda>i. i \<noteq> repo) (sg_repositoryIds g), sg_scopes = sg_scopes g\<rparr>"

definition onRepositoryRegistered :: "jsstring \<Rightarrow> jsstring \<Rightarrow> jsstring \<Rightarrow> server \<Rightarrow> server" where
  "onRepositoryRegistered sessionId root repo sv =
     \<lparr>sv_currentGrants = addGrant root repo (sv_currentGrants sv),
      sv_auth = fst (auth_grant sessionId root repo (sv_auth sv))\<rparr>"

definition onRepositoryRevoked :: "jsstring \<Rightarrow> jsstring \<Rightarrow> bool \<Rightarrow> server \<Rightarrow> server" where
  "onRepositoryRevoked repo root rootHasRepositories sv =
     \<lparr>sv_currentGrants = removeGrant repo root rootHasRepositories (sv_currentGrants sv),
      sv_auth = revokeRepository repo root rootHasRepositories (sv_auth sv)\<rparr>"

definition server_grantRepository :: "jsstring \<Rightarrow> jsstring \<Rightarrow> server \<Rightarrow> server \<times> nat" where
  "server_grantRepository root repo sv =
     (let (st, granted) = grantRepository root repo (sv_auth sv)
      in (\<lparr>sv_currentGrants = addGrant root repo (sv_currentGrants sv), sv_auth = st\<rparr>, granted))"

text \<open>\<^verbatim>\<open>pairingUrl\<close>: \<open>isHostedOrigin\<close> rests on the URL parser of the platform, so it is an argument.\<close>

definition pairingUrl ::
  "auth_options \<Rightarrow> origin_policy \<Rightarrow> (jsstring \<Rightarrow> bool) \<Rightarrow> jsstring option \<Rightarrow> int \<Rightarrow> int \<Rightarrow> jsstring \<Rightarrow> jsstring \<Rightarrow> server \<Rightarrow>
   js_error + server \<times> jsstring" where
  "pairingUrl opts policy isHostedOrigin actor t1 t2 random origin sv =
     (if origin \<notin> set (op_origins policy)
      then Inl (PlainError ''not an origin this service answers on'')
      else (let (st, ticket) = mintTicket opts t1 t2 random origin (case actor of None \<Rightarrow> str ''cli'' | Some a \<Rightarrow> a)
                   (sv_currentGrants sv) (ao_hostedPasswordHash opts \<noteq> None \<and> isHostedOrigin origin) (sv_auth sv)
            in Inr (sv\<lparr>sv_auth := st\<rparr>, origin @ str ''/?pair='' @ bt_ticket ticket)))"

end
