(* ===== verification/AccessRules.thy ===== *)
theory AccessRules
  imports Access
begin

text \<open>
  What the checks before a handler guarantee: which requests are admitted at all, that a handler runs
  only with the authority of a pairing ticket, that a pairing URL works for its holder, and what the
  checks do not cover.
\<close>

section \<open>Admission\<close>

definition service_policy :: "nat \<Rightarrow> bool \<Rightarrow> jsstring list \<Rightarrow> origin_policy" where
  "service_policy port includeIpv6 allowedOrigins =
     (let authorities = loopbackAuthorities port includeIpv6
      in createOriginPolicy authorities (originsFor authorities @ allowedOrigins))"

lemma fold_set_add: "set (fold set_add xs ys) = set xs \<union> set ys"
  by (induction xs arbitrary: ys) auto

lemma service_policy_sets:
  "set (op_authorities (service_policy port v6 extra)) = set (loopbackAuthorities port v6)"
  "set (op_origins (service_policy port v6 extra)) = set (originsFor (loopbackAuthorities port v6)) \<union> set extra"
  by (simp_all add: service_policy_def createOriginPolicy_def Let_def fold_set_add Un_commute)

text \<open>
  A request reaches the routes exactly when its Host is a loopback authority of this listener and it
  names no origin (and is not reported as cross-site) or one the service was started for; an opaque
  origin never passes, whatever the configuration; and cross-origin headers are only ever set for
  an origin the host configured.
\<close>

theorem admitted_requests:
  "admit_request maxUrlBytes (Some (service_policy port v6 extra)) (Some extra) req = Passed hosted \<longleftrightarrow>
     utf8_length (hr_target req) \<le> maxUrlBytes \<and> hr_method req \<noteq> str ''OPTIONS'' \<and>
     (\<exists>host. hr_host req = Some host \<and> host \<in> set (loopbackAuthorities port v6)) \<and>
     (case hr_origin req of
        None \<Rightarrow> hr_secFetchSite req \<noteq> Some (str ''cross-site'') \<and> hosted = None
      | Some origin \<Rightarrow> origin \<noteq> str ''null'' \<and>
          (origin \<in> set extra \<and> hosted = Some origin \<or>
           origin \<in> set (originsFor (loopbackAuthorities port v6)) \<and> origin \<notin> set extra \<and> hosted = None))"
  by (cases "hr_origin req"; cases "hr_host req")
    (auto simp: admit_request_def origin_check_def service_policy_sets externalOrigin_def simp del: str_simps)

section \<open>A handler runs with authority\<close>

lemma handled:
  assumes "handleRoute opts jobs t route req i st = (st', Inr (s, v))"
  shows "auth_authorize (ho_auth opts) t (hr_authorization req) (ao_serviceInstanceId (ho_auth opts)) st = (st', Inr s)"
    and "ri_query i = None"
    and "(if rt_method route = Get then ri_converted i else ri_body i) = Inr v"
    and "requiredScope (ho_schemas opts) jobs (rt_scope route) (if rt_method route = Get then JUndefined else v) = Some scope \<Longrightarrow>
      allowsScope s scope"
    and "scopeProblem (ho_repositoryRootOf opts) s v = None"
  using assms
  by (auto simp: handleRoute_def authorizationScopeProblem_def split: prod.splits sum.splits option.splits if_splits)

lemma scope_allowed:
  "scopeProblem rootOf s v = None \<Longrightarrow>
   (\<forall>repo. repositoryIdForScope v = Some repo \<longrightarrow>
      allowsRepository s repo \<or> (\<exists>root. rootOf repo = Some root \<and> allowsRoot s root)) \<and>
   (\<forall>root. repositoryIdForScope v = None \<and> allowedRootIdForScope v = Some root \<longrightarrow> allowsRoot s root)"
  by (auto simp: scopeProblem_def Let_def split: option.splits if_splits)

text \<open>What a ticket, with what was granted since, lets its holder do.\<close>

definition ticket_scope :: "bootstrap_ticket \<Rightarrow> jsstring \<Rightarrow> bool" where
  "ticket_scope t scope \<longleftrightarrow>
     scope \<in> set (sg_scopes (bt_grants t)) \<or>
     startsWith scope (str ''repository:'') \<and> str ''repository:*'' \<in> set (sg_scopes (bt_grants t))"

definition ticket_repository :: "auth_event list \<Rightarrow> bootstrap_ticket \<Rightarrow> jsstring \<Rightarrow> bool" where
  "ticket_repository h t repo \<longleftrightarrow> repo \<in> set (sg_repositoryIds (bt_grants t)) \<union> granted_repositories h"

definition ticket_root :: "auth_event list \<Rightarrow> bootstrap_ticket \<Rightarrow> jsstring \<Rightarrow> bool" where
  "ticket_root h t root \<longleftrightarrow> root \<in> set (sg_allowedRootIds (bt_grants t)) \<union> granted_roots h"

lemma authority_of_ticket:
  assumes "authority_from opts h s"
  obtains t where "t \<in> set (tickets_minted h)" and "\<And>scope. allowsScope s scope \<Longrightarrow> ticket_scope t scope"
    and "\<And>repo. allowsRepository s repo \<Longrightarrow> ticket_repository h t repo"
    and "\<And>root. allowsRoot s root \<Longrightarrow> ticket_root h t root"
proof -
  from assms obtain t where t: "t \<in> set (tickets_minted h)" "sg_scopes (ss_grants s) = sg_scopes (bt_grants t)"
    "set (sg_repositoryIds (ss_grants s)) \<subseteq> set (sg_repositoryIds (bt_grants t)) \<union> granted_repositories h"
    "set (sg_allowedRootIds (ss_grants s)) \<subseteq> set (sg_allowedRootIds (bt_grants t)) \<union> granted_roots h"
    unfolding authority_from_def by blast
  show ?thesis
  proof (rule that [OF t(1)])
    show "allowsScope s scope \<Longrightarrow> ticket_scope t scope" for scope
      by (auto simp: allowsScope_def ticket_scope_def t(2) simp del: str_simps split: if_splits)
  qed (use t(3,4) in \<open>auto simp: allowsRepository_def ticket_repository_def allowsRoot_def ticket_root_def\<close>)
qed


section \<open>What the checks do not cover\<close>

text \<open>
  Cancelling an operation asks for the scope of its kind but for no repository: a session that was
  granted no repository and no root passes all the checks of the cancel route for an operation on any
  repository, since the body names only the operation.
\<close>

theorem cancel_needs_no_repository:
  assumes "auth_authorize (ho_auth opts) t (hr_authorization req) (ao_serviceInstanceId (ho_auth opts)) st = (st', Inr s)"
    and "sg_repositoryIds (ss_grants s) = []" and "sg_allowedRootIds (ss_grants s) = []"
    and "ri_query i = None" and "ri_body i = Inr (JObject [(str ''operationId'', JString operationId)])"
    and "bs_cancel (ho_schemas opts) (JObject [(str ''operationId'', JString operationId)]) = Some operationId"
    and "job_get operationId SERVICES_ACTOR en = Some record"
    and "scopeForMutationKind (or_kind record) = Some scope" and "allowsScope s scope"
  shows "handleRoute opts (Some en) t cancel_route req i st = (st', Inr (s, JObject [(str ''operationId'', JString operationId)]))"
proof -
  have "repositoryIdForScope (JObject [(str ''operationId'', JString operationId)]) = None"
    "allowedRootIdForScope (JObject [(str ''operationId'', JString operationId)]) = None"
    by (simp_all add: repositoryIdForScope_def allowedRootIdForScope_def)
  then show ?thesis
    using assms
    by (simp add: handleRoute_def cancel_route_def actionRoute_def cancellationScope_def scopeProblem_def
        authorizationScopeProblem_def del: str_simps)
qed

section \<open>A pairing URL pairs\<close>

text \<open>
  A pairing URL works: the ticket in the URL the service prints can be exchanged from the origin of
  the URL until it expires, and the session gets exactly the grants the service had when it printed
  the URL (if the clock moved since the last ticket, and there is room for one).
\<close>

theorem pairing_url_pairs:
  assumes "auth_runs opts h (sv_auth sv)" and "ascii random" and "random \<notin> bt_ticket ` set (tickets_minted h)"
    and "pairingUrl opts policy isHosted actor t1 t2 random origin sv = Inr (sv', url)"
    and "list_all (\<lambda>(k, t). bt_expiresAtMs t < t2 + ao_ticketTtlMs opts) (as_tickets (sv_auth sv))" and "ao_maxTickets opts > 0"
    and "xe_prunedAt env < t2 + ao_ticketTtlMs opts" and "xe_checkedAt env < t2 + ao_ticketTtlMs opts"
    and "isHosted origin \<and> ao_hostedPasswordHash opts \<noteq> None \<longrightarrow> password_ok opts password"
  shows "url = origin @ str ''/?pair='' @ random \<and>
    (\<exists>st s. exchange opts env \<lparr>xi_ticket = random, xi_origin = origin, xi_serviceInstanceId = ao_serviceInstanceId opts, xi_password = password\<rparr>
        (sv_auth sv') = (st, Inr s) \<and> ss_grants s = sv_currentGrants sv)"
proof -
  let ?old = "auth_prune opts t1 (sv_auth sv)" and ?st = "auth_prune opts (xe_prunedAt env) (sv_auth sv')"
  obtain st ticket where mint: "mintTicket opts t1 t2 random origin (case actor of None \<Rightarrow> str ''cli'' | Some a \<Rightarrow> a)
      (sv_currentGrants sv) (ao_hostedPasswordHash opts \<noteq> None \<and> isHosted origin) (sv_auth sv) = (st, ticket)" by fastforce
  with assms(4) have sv': "sv_auth sv' = st" and url: "url = origin @ str ''/?pair='' @ bt_ticket ticket"
    by (auto simp: pairingUrl_def Let_def simp del: str_simps split: if_splits)
  from mint have ticket: "bt_ticket ticket = random" "bt_origin ticket = origin" "bt_grants ticket = sv_currentGrants sv"
    "bt_serviceInstanceId ticket = ao_serviceInstanceId opts" "bt_expiresAtMs ticket = t2 + ao_ticketTtlMs opts"
    "bt_passwordRequired ticket \<longleftrightarrow> ao_hostedPasswordHash opts \<noteq> None \<and> isHosted origin"
    and tickets: "as_tickets st = AList.update random ticket (as_tickets ?old)"
    by (auto simp: mintTicket_def Let_def copyGrants_def)
  have inv: "auth_inv opts (h, sv_auth sv)" by (rule auth_reached [OF assms(1)])
  have inv': "auth_inv opts (Minted ticket # h, st)" by (rule mint_inv [OF inv assms(2,3) mint])
  have d: "keys_distinct (as_tickets ?old)" using auth_prune_inv(1) [OF inv] by (simp add: auth_inv_def)
  let ?m = "keep (\<lambda>t. \<not> bt_expiresAtMs t \<le> xe_prunedAt env) (as_tickets st)"
  have dm: "keys_distinct ?m" using d by (simp add: tickets)
  have new: "(random, ticket) \<in> set ?m" using assms(7) ticket(5) d by (simp add: keep_def tickets set_update)
  have older: "bt_expiresAtMs t < bt_expiresAtMs ticket" if "(k, t) \<in> set ?m" "(k, t) \<noteq> (random, ticket)" for k t
    using that assms(5) auth_prune_sub(1) [OF inv, of t1] d
    by (auto simp: keep_def tickets set_update ticket(5) list_all_iff)
  have "(random, ticket) \<in> set (evict_loop bt_expiresAtMs (ao_maxTickets opts) ?m)"
  proof (rule ccontr)
    assume out: "(random, ticket) \<notin> set (evict_loop bt_expiresAtMs (ao_maxTickets opts) ?m)"
    have "length (evict_loop bt_expiresAtMs (ao_maxTickets opts) ?m) > 0"
      using assms(6) new evicting.evict_length [OF dm] by (cases ?m) auto
    then obtain k t where kt: "(k, t) \<in> set (evict_loop bt_expiresAtMs (ao_maxTickets opts) ?m)"
      by (metis length_greater_0_conv list.set_intros(1) neq_Nil_conv surj_pair)
    then have "(k, t) \<in> set ?m" using evicting.evict_subset [OF dm] by blast
    moreover have "(k, t) \<noteq> (random, ticket)" using kt out by blast
    ultimately show False using older evicting.evict_oldest [OF dm kt new out] by fastforce
  qed
  moreover have "keys_distinct (evict_loop bt_expiresAtMs (ao_maxTickets opts) ?m)" using dm by simp
  ultimately have "map_of (as_tickets ?st) random = Some ticket"
    by (simp add: auth_prune_def sv' map_of_iff)
  then have "findTicket random ?st = Some ticket"
    using found_ticket(1) [OF auth_prune_inv(1) [OF inv']] by (simp add: sv')
  then show ?thesis
    using assms(8,9) ticket url
    by (auto simp: exchange_def Let_def sameLoopbackService_def new_session_def copyGrants_def simp del: str_simps)
qed

end
