(* ===== verification/AccessWitness.thy ===== *)
theory AccessWitness
  imports AccessRules
begin

text \<open>
  A run of the pairing store: a ticket is minted, redeemed from another spelling of its origin, and the
  session is used. The theorems of \<open>AuthLife\<close> and \<open>AccessRules\<close> applied to it.
\<close>

definition a_opts :: auth_options where
  "a_opts = \<lparr>ao_scrypt = (\<lambda>_ _ _. []), ao_serviceInstanceId = str ''svc'', ao_ticketTtlMs = 60000, ao_sessionTtlMs = 100000,
     ao_maxTickets = 4, ao_maxSessions = 4, ao_hostedPasswordHash = None\<rparr>"

definition a_grants :: session_grants where
  "a_grants = \<lparr>sg_allowedRootIds = [str ''root''], sg_repositoryIds = [str ''repo''], sg_scopes = [str ''repository:write'']\<rparr>"

definition no_grants :: session_grants where
  "no_grants = \<lparr>sg_allowedRootIds = [], sg_repositoryIds = [], sg_scopes = [str ''repository:write'']\<rparr>"

definition a_ticket :: "session_grants \<Rightarrow> bootstrap_ticket" where
  "a_ticket g = \<lparr>bt_ticket = str ''t'', bt_serviceInstanceId = str ''svc'', bt_origin = str ''http://localhost:1'',
     bt_actor = str ''cli'', bt_grants = g, bt_passwordRequired = False, bt_expiresAtMs = 60000\<rparr>"

definition a_env :: exchange_env where
  "a_env = \<lparr>xe_prunedAt = 1, xe_checkedAt = 1, xe_issuedAt = 1, xe_expiresFrom = 1, xe_token = str ''x'', xe_sessionId = str ''y''\<rparr>"

definition a_input :: "string \<Rightarrow> exchange_input" where
  "a_input origin = \<lparr>xi_ticket = str ''t'', xi_origin = str origin, xi_serviceInstanceId = str ''svc'', xi_password = None\<rparr>"

abbreviation a_empty :: auth_store where "a_empty \<equiv> \<lparr>as_tickets = [], as_sessions = []\<rparr>"

definition a_paired :: "session_grants \<Rightarrow> auth_store" where
  "a_paired g = \<lparr>as_tickets = [(str ''t'', a_ticket g)], as_sessions = []\<rparr>"

definition a_session :: "session_grants \<Rightarrow> session" where "a_session g = new_session a_opts a_env (a_ticket g)"

definition a_open :: "session_grants \<Rightarrow> auth_store" where
  "a_open g = \<lparr>as_tickets = [], as_sessions = [(str ''rfs_x'', a_session g)]\<rparr>"

lemma a_opts_simps [simp]:
  "ao_serviceInstanceId a_opts = str ''svc''" "ao_ticketTtlMs a_opts = 60000" "ao_sessionTtlMs a_opts = 100000"
  "ao_maxTickets a_opts = 4" "ao_maxSessions a_opts = 4" "ao_hostedPasswordHash a_opts = None"
  by (simp_all add: a_opts_def)

lemma a_record_simps [simp]:
  "bt_ticket (a_ticket g) = str ''t''" "bt_serviceInstanceId (a_ticket g) = str ''svc''"
  "bt_origin (a_ticket g) = str ''http://localhost:1''" "bt_grants (a_ticket g) = g" "bt_actor (a_ticket g) = str ''cli''"
  "\<not> bt_passwordRequired (a_ticket g)" "bt_expiresAtMs (a_ticket g) = 60000"
  "xe_prunedAt a_env = 1" "xe_checkedAt a_env = 1" "xe_token a_env = str ''x''" "xi_ticket (a_input o1) = str ''t''"
  "xi_origin (a_input o1) = str o1" "xi_serviceInstanceId (a_input o1) = str ''svc''" "xi_password (a_input o1) = None"
  "sg_repositoryIds no_grants = []" "sg_allowedRootIds no_grants = []" "sg_scopes no_grants = [str ''repository:write'']"
  "sg_repositoryIds a_grants = [str ''repo'']" "sg_scopes a_grants = [str ''repository:write'']"
  by (simp_all add: a_ticket_def a_env_def a_input_def no_grants_def a_grants_def del: str_simps)

lemma a_session_simps [simp]:
  "ss_token (a_session g) = str ''rfs_x''" "ss_grants (a_session g) = g" "ss_expiresAtMs (a_session g) = 100001"
  "ss_serviceInstanceId (a_session g) = str ''svc''"
  by (simp_all add: a_session_def new_session_def copyGrants_def) (simp add: a_env_def)

lemma a_prune [simp]:
  "auth_prune a_opts t a_empty = a_empty"
  "t < 60000 \<Longrightarrow> auth_prune a_opts t (a_paired g) = a_paired g"
  "t < 100001 \<Longrightarrow> auth_prune a_opts t (a_open g) = a_open g"
  by (simp_all add: auth_prune_def keep_def evict_loop_small a_paired_def a_open_def a_ticket_def del: str_simps)

lemma a_mint: "mintTicket a_opts 0 0 (str ''t'') (str ''http://localhost:1'') (str ''cli'') g False a_empty = (a_paired g, a_ticket g)"
  by (simp add: mintTicket_def Let_def a_paired_def a_ticket_def copyGrants_def del: str_simps)

lemma a_found: "findTicket (str ''t'') (a_paired g) = Some (a_ticket g)"
  by (simp add: findTicket_def a_paired_def secretMatches_def del: str_simps)

lemma a_exchange: "exchange a_opts a_env (a_input ''http://127.0.0.1:1'') (a_paired g) = (a_open g, Inr (a_session g))"
proof -
  have "sameLoopbackService (str ''http://localhost:1'') (str ''http://127.0.0.1:1'')"
    by (simp add: sameLoopbackService_def loopback_def loopback_hosts_def startsWith_def all_digits_def isDigit_def Let_def)
  moreover have "ss_token (new_session a_opts a_env (a_ticket g)) = str ''rfs_x''" by (simp add: new_session_def)
  ultimately show ?thesis
    by (simp add: exchange_def Let_def a_found del: str_simps)
      (simp add: delete_ticket_def a_paired_def a_open_def a_session_def del: str_simps)
qed

lemma a_runs_minted: "auth_runs a_opts [Minted (a_ticket g)] (a_paired g)"
  by (rule r_into_rtranclp) (rule auth_step.mint [OF _ _ a_mint], simp_all)

lemma a_runs: "auth_runs a_opts [Redeemed (a_input ''http://127.0.0.1:1'') (a_session g), Minted (a_ticket g)] (a_open g)"
  by (rule rtranclp.rtrancl_into_rtrancl [OF a_runs_minted])
    (rule auth_step.redeem [OF _ a_exchange], simp_all add: a_env_def a_paired_def)

lemma tickets_redeemed_once_witness:
  "distinct (map (\<lambda>(i, s). xi_ticket i) (redeemed [Redeemed (a_input ''http://127.0.0.1:1'') (a_session a_grants), Minted (a_ticket a_grants)]))"
  using tickets_redeemed_once [OF a_runs [of a_grants]] by blast

lemma a_authorize:
  "auth_authorize a_opts 2 (Some (str ''Bearer rfs_x'')) (str ''svc'') (a_open g) = (a_open g, Inr (a_session g))"
proof -
  have "bearer_token (str ''Bearer rfs_x'') = Some (str ''rfs_x'')"
    by (simp add: bearer_token_def startsWith_def line_terminator_def)
  moreover have "findSession (str ''rfs_x'') (a_open g) = Some (a_session g)"
    by (simp add: findSession_def a_open_def secretMatches_def del: str_simps)
  moreover have "\<exists>c cs. str ''Bearer rfs_x'' = c # cs" by simp
  ultimately show ?thesis by (auto simp: auth_authorize_def Let_def simp del: str_simps)
qed

lemma wrong_origin_keeps_ticket_witness:
  "\<exists>st. exchange a_opts a_env ((a_input ''http://evil'')\<lparr>xi_origin := str ''http://localhost:1'', xi_password := None\<rparr>) (a_paired a_grants) =
     (st, Inr (new_session a_opts a_env (a_ticket a_grants)))"
proof -
  have "\<not> sameLoopbackService (str ''http://localhost:1'') (str ''http://evil'')"
    by (simp add: sameLoopbackService_def loopback_def loopback_hosts_def startsWith_def all_digits_def isDigit_def Let_def)
  then have "exchange a_opts a_env (a_input ''http://evil'') (a_paired a_grants) = (a_paired a_grants,
      Inl (refuse ''Forbidden'' (str ''that pairing ticket was issued for a different origin'') False))"
    by (simp add: exchange_def Let_def a_found del: str_simps)
  from wrong_origin_keeps_ticket [OF a_runs_minted this, of "a_ticket a_grants" "str ''http://localhost:1''" None a_env] show ?thesis
    by (simp add: a_found sameLoopbackService_def del: str_simps)
qed

lemma revocation_misses_tickets_witness:
  "allowsRepository (a_session a_grants) (str ''repo'')"
proof -
  have "revokeRepository (str ''repo'') (str ''root'') False (a_paired a_grants) = a_paired a_grants"
    by (simp add: revokeRepository_def a_paired_def map_vals_def)
  then have "exchange a_opts a_env (a_input ''http://127.0.0.1:1'') (revokeRepository (str ''repo'') (str ''root'') False (a_paired a_grants)) =
      (a_open a_grants, Inr (a_session a_grants))" by (simp add: a_exchange)
  from revocation_misses_tickets [OF a_runs_minted _ _ this, of "a_ticket a_grants"] show ?thesis
    by (simp add: a_found del: str_simps)
qed

lemma same_service_spellings_witness:
  "sameLoopbackService (str ''http://'' @ str ''localhost'' @ str '':'' @ str ''80'') (str ''http://'' @ str ''[::1]'' @ str '':'' @ str ''80'') \<and>
   \<not> sameLoopbackService (str ''https://a'') (str ''https://b'')"
  using same_service_spellings [of "str ''localhost''" "str ''[::1]''" "str ''80''" "str ''80''" "str ''https://a''" "str ''https://b''"]
  by (simp add: loopback_hosts_def all_digits_def isDigit_def loopback_def startsWith_def)

section \<open>Requests\<close>

definition a_http :: http_options where
  "a_http = \<lparr>ho_auth = a_opts, ho_repositoryRootOf = (\<lambda>_. None),
     ho_schemas = \<lparr>bs_mutation = (\<lambda>_. None), bs_cancel = (\<lambda>body. string_of (member body ''operationId''))\<rparr>\<rparr>"

definition a_request :: http_request where
  "a_request = \<lparr>hr_method = str ''POST'', hr_path = str ''/api/v1/terminal/open'', hr_target = str ''/api/v1/terminal/open'',
     hr_origin = None, hr_host = Some (str ''localhost:1''), hr_secFetchSite = None,
     hr_authorization = Some (str ''Bearer rfs_x''), hr_requestMethod = None, hr_requestHeaders = None\<rparr>"

definition a_body :: "string \<Rightarrow> string \<Rightarrow> route_input" where
  "a_body key text = \<lparr>ri_query = None, ri_converted = Inr JUndefined, ri_body = Inr (JObject [(str key, JString (str text))])\<rparr>"

lemma a_handled:
  "handleRoute a_http None 2 (actionRoute ''/api/v1/terminal/open'' (ScopeIs ''repository:write'')) a_request
     (a_body ''repositoryId'' ''repo'') (a_open a_grants) = (a_open a_grants, Inr (a_session a_grants, JObject [(str ''repositoryId'', JString (str ''repo''))]))"
  by (simp add: handleRoute_def a_http_def a_request_def a_authorize a_body_def actionRoute_def authorizationScopeProblem_def
      allowsScope_def scopeProblem_def repositoryIdForScope_def allowsRepository_def a_grants_def del: str_simps)


definition a_engine :: engine where
  "a_engine = createJobEngine [] ((createJournalStore None)\<lparr>st_entries :=
     [(str ''a'', (sample_record ''a'' ''accepted'')\<lparr>je_actor := SERVICES_ACTOR, je_kind := str ''stagePaths''\<rparr>)]\<rparr>)"

lemma cancel_needs_no_repository_witness:
  "handleRoute a_http (Some a_engine) 2 cancel_route a_request (a_body ''operationId'' ''a'') (a_open no_grants) =
     (a_open no_grants, Inr (a_session no_grants, JObject [(str ''operationId'', JString (str ''a''))]))"
proof -
  have job: "job_get (str ''a'') SERVICES_ACTOR a_engine =
      Some (recordFor ((sample_record ''a'' ''accepted'')\<lparr>je_actor := SERVICES_ACTOR, je_kind := str ''stagePaths''\<rparr>))"
    by (simp add: job_get_def a_engine_def createJobEngine_def journal_get_def del: str_simps)
  have "scopeForMutationKind (str ''stagePaths'') = Some (str ''repository:write'')"
    by (simp add: scopeForMutationKind_def MUTATION_SCOPE_def)
  then show ?thesis
    using a_authorize [of no_grants]
    by (intro cancel_needs_no_repository [where scope = "str ''repository:write''", OF _ _ _ _ _ _ job])
      (simp_all add: a_http_def a_request_def a_body_def recordFor_def allowsScope_def del: str_simps)
qed

lemma pairing_url_pairs_witness:
  "\<exists>sv st s. exchange a_opts a_env (a_input ''http://localhost:1'') sv = (st, Inr s) \<and> ss_grants s = a_grants"
proof -
  have dec: "decimal (Suc 0) = str ''1''" by (simp add: decimal.simps)
  have "str ''http://localhost:1'' \<in> set (op_origins (service_policy 1 False []))"
    unfolding service_policy_sets by (simp add: originsFor_def loopbackAuthorities_def dec)
  then have url: "pairingUrl a_opts (service_policy 1 False []) (\<lambda>_. False) None 0 0 (str ''t'') (str ''http://localhost:1'')
      \<lparr>sv_currentGrants = a_grants, sv_auth = a_empty\<rparr> =
      Inr (\<lparr>sv_currentGrants = a_grants, sv_auth = a_paired a_grants\<rparr>, str ''http://localhost:1'' @ str ''/?pair='' @ str ''t'')"
    by (simp add: pairingUrl_def a_mint del: str_simps)
  have "auth_runs a_opts [] (sv_auth \<lparr>sv_currentGrants = a_grants, sv_auth = a_empty\<rparr>)" by simp
  moreover have "ascii (str ''t'')" by simp
  ultimately show ?thesis using pairing_url_pairs [OF _ _ _ url, of "[]" a_env None]
    by (auto simp: a_input_def simp del: str_simps)
qed

lemma admitted_requests_witness:
  "admit_request 100 (Some (service_policy 1 False [])) (Some []) (a_request\<lparr>hr_host := Some (str ''evil:1'')\<rparr>) \<noteq> Passed None"
proof -
  have dec: "decimal (Suc 0) = str ''1''" by (simp add: decimal.simps)
  have "str ''evil:1'' \<notin> set (loopbackAuthorities 1 False)" by (simp add: loopbackAuthorities_def dec)
  then show ?thesis
    using admitted_requests [of 100 1 False "[]" "a_request\<lparr>hr_host := Some (str ''evil:1'')\<rparr>" None]
    by (simp add: a_request_def del: str_simps)
qed

end
