(* ===== verification/Names.thy ===== *)
theory Names
  imports Problem Bytes
begin

text \<open>
  Which names, URLs and messages a client may send: the shapes of \<^verbatim>\<open>packages/git-contract/src/names.ts\<close>
  and \<^verbatim>\<open>ids.ts\<close>, the rules of \<^verbatim>\<open>validate.ts\<close>, and their second writing in
  \<^verbatim>\<open>packages/git-core/src/validate/remote-url.ts\<close>. A regular expression of the source is the scan of its
  character classes. The schemas belong to the package \<^verbatim>\<open>zod\<close>: a shape is a predicate here, and the texts
  of its issues are the argument \<open>zod\<close>, of which \<open>zod_reports\<close> says that a failed parse has an issue.
\<close>

section \<open>Texts\<close>

fun js_includes :: "'a list \<Rightarrow> 'a list \<Rightarrow> bool" where
  "js_includes [] p \<longleftrightarrow> p = []"
| "js_includes (c # s) p \<longleftrightarrow> startsWith (c # s) p \<or> js_includes s p"

lemma includes_iff: "js_includes s p \<longleftrightarrow> (\<exists>u v. s = u @ p @ v)"
proof (induction s)
  case Nil
  then show ?case by simp
next
  case (Cons c s)
  note IH = Cons
  show ?case
  proof
    assume "js_includes (c # s) p"
    then consider t where "c # s = p @ t" | u v where "s = u @ p @ v"
      using Cons by (auto simp: startsWith_iff)
    then show "\<exists>u v. c # s = u @ p @ v"
      by cases (metis append_Nil, metis append_Cons)
  next
    assume "\<exists>u v. c # s = u @ p @ v"
    then obtain u v where s: "c # s = u @ p @ v" by blast
    show "js_includes (c # s) p"
    proof (cases u)
      case Nil
      then have "startsWith (c # s) p" using s by (simp only: append_Nil startsWith_append)
      then show ?thesis by simp
    next
      case (Cons a u')
      then have "s = u' @ p @ v" using s by simp
      then have "js_includes s p" using IH by blast
      then show ?thesis by simp
    qed
  qed
qed

definition is_letter :: "code_unit \<Rightarrow> bool" where
  "is_letter c \<longleftrightarrow> (0x41 \<le> c \<and> c \<le> 0x5a) \<or> (0x61 \<le> c \<and> c \<le> 0x7a)"

definition is_alnum :: "code_unit \<Rightarrow> bool" where
  "is_alnum c \<longleftrightarrow> is_letter c \<or> isDigit c"

definition one_of :: "string \<Rightarrow> code_unit \<Rightarrow> bool" where
  "one_of cs c \<longleftrightarrow> c \<in> set (str cs)"

text \<open>\<^verbatim>\<open>[\u0000-\u0020\u007f]\<close>\<close>

definition control_or_space :: "code_unit \<Rightarrow> bool" where
  "control_or_space c \<longleftrightarrow> c \<le> 0x20 \<or> c = 0x7f"

text \<open>The seven punctuation marks a name may not hold.\<close>

definition ref_special :: "code_unit \<Rightarrow> bool" where
  "ref_special c \<longleftrightarrow> c \<in> {0x7e, 0x5e, 0x3a, 0x3f, 0x2a, 0x5b, 0x5c}"

text \<open>
  \<^verbatim>\<open>value.toLowerCase().endsWith(".lock")\<close>: the units that become one of the five when lower-cased are the
  ASCII capitals and the Kelvin sign.
\<close>

definition lower_lock :: "code_unit \<Rightarrow> code_unit" where
  "lower_lock c = (if 0x41 \<le> c \<and> c \<le> 0x5a then c + 0x20 else if c = 0x212a then 0x6b else c)"

definition ends_lock :: "jsstring \<Rightarrow> bool" where
  "ends_lock s \<longleftrightarrow> endsWith (map lower_lock s) (str ''.lock'')"

section \<open>Shapes\<close>

definition branchNameMaxLength :: nat where "branchNameMaxLength = 255"
definition commitMessageMaxBytes :: nat where "commitMessageMaxBytes = 1048576"

definition name_body :: "jsstring \<Rightarrow> bool" where
  "name_body s \<longleftrightarrow> s \<noteq> [] \<and> list_all (\<lambda>c. \<not> control_or_space c \<and> \<not> ref_special c) s"

definition branchNameSchema :: "jsstring \<Rightarrow> bool" where
  "branchNameSchema s \<longleftrightarrow> 1 \<le> length s \<and> length s \<le> branchNameMaxLength \<and> name_body s"

definition remote_name_unit :: "code_unit \<Rightarrow> bool" where
  "remote_name_unit c \<longleftrightarrow> is_alnum c \<or> one_of ''._-'' c"

definition remoteNameSchema :: "jsstring \<Rightarrow> bool" where
  "remoteNameSchema s \<longleftrightarrow>
     (case s of [] \<Rightarrow> False | c # cs \<Rightarrow> is_alnum c \<and> length cs \<le> 62 \<and> list_all remote_name_unit cs)"

definition fullRefNameSchema :: "jsstring \<Rightarrow> bool" where
  "fullRefNameSchema s \<longleftrightarrow>
     6 \<le> length s \<and> length s \<le> 1024 \<and> startsWith s (str ''refs/'') \<and> name_body (drop 5 s)"

definition remoteUrlSchema :: "jsstring \<Rightarrow> bool" where
  "remoteUrlSchema s \<longleftrightarrow> 1 \<le> length s \<and> length s \<le> 2048"

definition relativeDestinationSchema :: "jsstring \<Rightarrow> bool" where
  "relativeDestinationSchema s \<longleftrightarrow> 1 \<le> length s \<and> length s \<le> 1024"

definition stashLocatorSchema :: "jsstring \<Rightarrow> bool" where
  "stashLocatorSchema s \<longleftrightarrow>
     startsWith s (str ''stash'' @ [0x40, 0x7b]) \<and> endsWith s (str ''}'') \<and> 8 \<le> length s \<and>
     all_digits (take (length s - 8) (drop 7 s))"

definition stashOidSchema :: "jsstring \<Rightarrow> bool" where
  "stashOidSchema s \<longleftrightarrow> length s = 40 \<and> list_all isHexDigit s"

definition commitMessageSchema :: "jsstring \<Rightarrow> bool" where
  "commitMessageSchema s \<longleftrightarrow> 1 \<le> length s \<and> length s \<le> commitMessageMaxBytes \<and> 0 \<notin> set s"

text \<open>\<^verbatim>\<open>prefixedId\<close>: the prefix, an underscore, and 1 to 96 characters of the URL-safe alphabet.\<close>

definition prefixedId :: "string \<Rightarrow> jsstring \<Rightarrow> bool" where
  "prefixedId p s \<longleftrightarrow>
     startsWith s (str (p @ ''_'')) \<and>
     (let t = drop (length p + 1) s
      in 1 \<le> length t \<and> length t \<le> 96 \<and> list_all (\<lambda>c. is_alnum c \<or> one_of ''_-'' c) t)"

section \<open>Problems\<close>

record validation_problem =
  vp_code :: string
  vp_message :: jsstring
  vp_path :: jsstring

type_synonym zod_issues = "string \<Rightarrow> jsstring \<Rightarrow> jsstring list"

definition zod_reports :: "zod_issues \<Rightarrow> bool" where
  "zod_reports zod \<longleftrightarrow> (\<forall>schema v. zod schema v \<noteq> [])"

definition vproblem :: "jsstring \<Rightarrow> jsstring \<Rightarrow> validation_problem" where
  "vproblem message path = \<lparr>vp_code = ''InvalidOperationPayload'', vp_message = message, vp_path = path\<rparr>"

definition shape_problems :: "zod_issues \<Rightarrow> string \<Rightarrow> jsstring \<Rightarrow> jsstring \<Rightarrow> validation_problem list" where
  "shape_problems zod schema v path = map (\<lambda>m. vproblem m path) (zod schema v)"

lemma shape_problems_not_Nil [simp]: "zod_reports zod \<Longrightarrow> shape_problems zod schema v path \<noteq> []"
  by (simp add: shape_problems_def zod_reports_def)

fun utf8ByteLength :: "jsstring \<Rightarrow> nat" where
  "utf8ByteLength [] = 0"
| "utf8ByteLength (c # cs) =
     (if c < 0x80 then 1 + utf8ByteLength cs
      else if c < 0x800 then 2 + utf8ByteLength cs
      else if 0xd800 \<le> c \<and> c \<le> 0xdbff
      then (case cs of
          [] \<Rightarrow> 3
        | d # ds \<Rightarrow> if 0xdc00 \<le> d \<and> d \<le> 0xdfff then 4 + utf8ByteLength ds else 3 + utf8ByteLength cs)
      else 3 + utf8ByteLength cs)"

definition component_problems :: "jsstring list \<Rightarrow> string list" where
  "component_problems components = concat (map (\<lambda>c.
     if c = [] then [''must not contain an empty path component'']
     else if startsWith c (str ''.'') then [''must not have a path component starting with \".\"'']
     else []) components)"

definition ref_name_findings :: "jsstring \<Rightarrow> string list" where
  "ref_name_findings s =
     (if s = str ''@'' then [''must not be the single character \"@\"''] else [])
     @ (if startsWith s (str ''-'') then [''must not start with \"-\" (it would be read as an option)''] else [])
     @ (if startsWith s (str ''/'') \<or> endsWith s (str ''/'') then [''must not start or end with \"/\"''] else [])
     @ (if endsWith s (str ''.'') then [''must not end with \".\"''] else [])
     @ (if ends_lock s then [''must not end with \".lock\"''] else [])
     @ (if js_includes s (str ''..'') then [''must not contain \"..\"''] else [])
     @ (if js_includes s [0x40, 0x7b] then [''must not contain \"@'' @ ''{\"''] else [])
     @ (if js_includes s (str ''//'') then [''must not contain \"//\"''] else [])
     @ (if list_ex control_or_space s then [''must not contain control characters or spaces''] else [])
     @ (if list_ex ref_special s then [''must not contain ~ ^ : ? * [ or '' @ [CHR 0x5c]] else [])
     @ component_problems (splitOn 0x2f s)"

definition refNameComponentProblems :: "jsstring \<Rightarrow> string \<Rightarrow> jsstring \<Rightarrow> validation_problem list" where
  "refNameComponentProblems s what path =
     (if s = [] then [vproblem (str (what @ '' must not be empty'')) path]
      else map (\<lambda>m. vproblem (str (what @ '' '' @ m)) path) (ref_name_findings s))"

definition validateBranchName :: "zod_issues \<Rightarrow> jsstring \<Rightarrow> jsstring \<Rightarrow> validation_problem list" where
  "validateBranchName zod s path =
     (if \<not> branchNameSchema s then shape_problems zod ''BranchName'' s path
      else refNameComponentProblems s ''branch name'' path)"

definition validateTagName :: "zod_issues \<Rightarrow> jsstring \<Rightarrow> jsstring \<Rightarrow> validation_problem list" where
  "validateTagName zod s path =
     (if \<not> branchNameSchema s then shape_problems zod ''TagName'' s path
      else refNameComponentProblems s ''tag name'' path)"

definition validateFullRefName :: "zod_issues \<Rightarrow> jsstring \<Rightarrow> jsstring \<Rightarrow> validation_problem list" where
  "validateFullRefName zod s path =
     (if \<not> fullRefNameSchema s then shape_problems zod ''FullRefName'' s path
      else refNameComponentProblems (drop 5 s) ''ref'' path)"

definition validateRemoteName :: "zod_issues \<Rightarrow> jsstring \<Rightarrow> jsstring \<Rightarrow> validation_problem list" where
  "validateRemoteName zod s path =
     (if \<not> remoteNameSchema s then shape_problems zod ''RemoteName'' s path
      else if startsWith s (str ''.'') \<or> startsWith s (str ''-'')
      then [vproblem (str ''remote name must not start with \".\" or \"-\"'') path]
      else [])"

section \<open>URLs\<close>

definition separator :: "code_unit \<Rightarrow> bool" where
  "separator c \<longleftrightarrow> c = 0x5c \<or> c = 0x2f"

fun starts_separator :: "jsstring \<Rightarrow> bool" where
  "starts_separator [] \<longleftrightarrow> False"
| "starts_separator (c # _) \<longleftrightarrow> separator c"

text \<open>\<^verbatim>\<open>WINDOWS_ABSOLUTE\<close>: a drive with a separator, or a share with one.\<close>

fun windows_absolute :: "jsstring \<Rightarrow> bool" where
  "windows_absolute (a # b # s) \<longleftrightarrow>
     (is_letter a \<and> b = 0x3a \<and> starts_separator s) \<or>
     (a = 0x5c \<and> b = 0x5c \<and>
      takeWhile (\<lambda>c. \<not> separator c \<and> 0x20 < c) s \<noteq> [] \<and>
      starts_separator (dropWhile (\<lambda>c. \<not> separator c \<and> 0x20 < c) s))"
| "windows_absolute _ \<longleftrightarrow> False"

text \<open>\<^verbatim>\<open>SCP_LIKE\<close>: user, at sign, host, colon, path; no unit of the user is an at sign, none of the host a colon.\<close>

definition scp_user_unit :: "code_unit \<Rightarrow> bool" where
  "scp_user_unit c \<longleftrightarrow> is_alnum c \<or> one_of ''._~%+-'' c"

definition scp_like :: "jsstring \<Rightarrow> bool" where
  "scp_like s \<longleftrightarrow>
     takeWhile scp_user_unit s \<noteq> [] \<and>
     (case dropWhile scp_user_unit s of
        [] \<Rightarrow> False
      | a # t \<Rightarrow> a = 0x40 \<and> takeWhile remote_name_unit t \<noteq> [] \<and>
          (case dropWhile remote_name_unit t of
             [] \<Rightarrow> False
           | b # p \<Rightarrow> b = 0x3a \<and> p \<noteq> [] \<and> list_all (\<lambda>c. 0x20 < c) p))"

definition validateRemoteUrl :: "zod_issues \<Rightarrow> jsstring \<Rightarrow> jsstring \<Rightarrow> validation_problem list" where
  "validateRemoteUrl zod s path =
     (if \<not> remoteUrlSchema s then shape_problems zod ''RemoteUrl'' s path
      else if startsWith s (str ''-'')
      then [vproblem (str ''must not start with \"-\" (it would be read as an option)'') path]
      else if js_includes s (str ''::'')
      then [vproblem (str ''transport helper syntax (for example ext::) is not accepted; use https://, ssh:// or an approved local path'') path]
      else if list_ex control_or_space s
      then [vproblem (str ''must not contain control characters or spaces'') path]
      else if startsWith s (str ''/'') then []
      else if windows_absolute s then []
      else if scp_like s then []
      else if startsWith s (str ''https://'') \<or> startsWith s (str ''ssh://'') then []
      else [vproblem (str ''only https:// and ssh:// URLs, user@host:path remotes, or absolute local paths are accepted'') path])"

definition unsafeRemoteUrlReason :: "jsstring \<Rightarrow> string option" where
  "unsafeRemoteUrlReason s =
     (if length s = 0 then Some ''must not be empty''
      else if length s > 2048 then Some ''must not exceed 2048 characters''
      else if startsWith s (str ''-'') then Some ''must not start with \"-\" (it would be read as an option)''
      else if js_includes s (str ''::'') then Some ''transport helper syntax (for example ext::) is not accepted''
      else if list_ex control_or_space s then Some ''must not contain control characters or spaces''
      else if startsWith s (str ''/'') \<or> windows_absolute s then None
      else if scp_like s then None
      else if startsWith s (str ''https://'') \<or> startsWith s (str ''ssh://'') then None
      else Some ''only https:// and ssh:// URLs, scp-like remotes, or absolute local paths are accepted'')"

section \<open>Destinations, messages, selections\<close>

fun segment_problem :: "jsstring list \<Rightarrow> string option" where
  "segment_problem [] = None"
| "segment_problem (s # ss) =
     (if s = [] then Some ''must not contain empty path segments''
      else if s = str ''.'' \<or> s = str ''..'' then Some ''must not contain \".\" or \"..\" segments''
      else if s = str ''.git'' then Some ''must not contain a \".git\" path segment''
      else segment_problem ss)"

definition validateRelativeDestination :: "zod_issues \<Rightarrow> jsstring \<Rightarrow> jsstring \<Rightarrow> validation_problem list" where
  "validateRelativeDestination zod s path =
     (if \<not> relativeDestinationSchema s then shape_problems zod ''RelativeDestination'' s path
      else if startsWith s (str ''/'') \<or> startsWith s [0x5c]
      then [vproblem (str ''must be relative to the approved root, not absolute'') path]
      else if 2 \<le> length s \<and> is_letter (s ! 0) \<and> s ! 1 = 0x3a
      then [vproblem (str ''must not start with a drive letter'') path]
      else (case segment_problem (splitOn 0x2f s) of None \<Rightarrow> [] | Some m \<Rightarrow> [vproblem (str m) path]))"

definition validateCommitMessage :: "zod_issues \<Rightarrow> jsstring \<Rightarrow> jsstring \<Rightarrow> validation_problem list" where
  "validateCommitMessage zod s path =
     (if \<not> commitMessageSchema s then shape_problems zod ''CommitMessage'' s path
      else if js_trim s = [] then [vproblem (str ''commit message must not be blank'') path]
      else if utf8ByteLength s > commitMessageMaxBytes
      then [vproblem (str ''commit message is '' @ decimal (utf8ByteLength s) @ str '' bytes; the limit is ''
             @ decimal commitMessageMaxBytes) path]
      else [])"

text \<open>One pass over the ids: not an id, or repeated; \<open>seen\<close> are the ids before.\<close>

fun id_problems :: "string \<Rightarrow> string \<Rightarrow> string \<Rightarrow> string \<Rightarrow> nat \<Rightarrow> jsstring list \<Rightarrow> jsstring list \<Rightarrow> jsstring list" where
  "id_problems kind field what repeated i seen [] = []"
| "id_problems kind field what repeated i seen (v # vs) =
     (if prefixedId kind v then [] else [str (field @ ''['') @ decimal i @ str (''] is not a '' @ what @ '' minted by the host'')])
     @ (if v \<in> set seen then [str (field @ ''['') @ decimal i @ str (''] repeats an earlier '' @ repeated)] else [])
     @ id_problems kind field what repeated (i + 1) (v # seen) vs"

definition validatePlainPathIds :: "jsstring list \<Rightarrow> jsstring \<Rightarrow> validation_problem list" where
  "validatePlainPathIds pathIds path =
     map (\<lambda>m. vproblem m (path @ str ''.pathIds''))
       (id_problems ''path'' ''pathIds'' ''path identifier'' ''path'' 0 [] pathIds)"

definition validatePathSelection :: "jsstring list \<Rightarrow> jsstring list \<Rightarrow> jsstring \<Rightarrow> validation_problem list" where
  "validatePathSelection pathIds previewTokens path =
     (if length pathIds \<noteq> length previewTokens
      then [vproblem (str ''pathIds has '' @ decimal (length pathIds) @ str '' entries but previewTokens has ''
             @ decimal (length previewTokens) @ str ''; they must correspond one-to-one'') path]
      else validatePlainPathIds pathIds path
        @ map (\<lambda>m. vproblem m (path @ str ''.previewTokens''))
            (id_problems ''pt'' ''previewTokens'' ''preview token'' ''token'' 0 [] previewTokens))"

definition validateStashRef :: "zod_issues \<Rightarrow> jsstring \<Rightarrow> jsstring \<Rightarrow> jsstring \<Rightarrow> validation_problem list" where
  "validateStashRef zod oid locator path =
     (if stashOidSchema oid \<and> stashLocatorSchema locator then []
      else (if stashOidSchema oid then [] else shape_problems zod ''StashRef.oid'' oid (path @ str ''.oid''))
        @ (if stashLocatorSchema locator then [] else shape_problems zod ''StashLocator'' locator (path @ str ''.locator'')))"

end
