(* ===== verification/GitRun.thy ===== *)
theory GitRun
  imports Bytes
begin

text \<open>
  One Git process and the programs that run several: \<^verbatim>\<open>packages/git-core/src/ports.ts\<close> and
  \<^verbatim>\<open>workflows/engine.ts\<close>. A \<open>git_command\<close> is what a planner gives, a \<open>git_result\<close> what the host reports.
  A workflow is a \<open>prog\<close>: it ends with a value or a throw, or runs a command and goes on with its result.
  What Git answers is not code of the repository: \<open>exec\<close> takes it as an argument, any function of the
  commands run so far, and \<open>every\<close> says what holds at the end whatever Git answers.
\<close>

section \<open>Commands and results\<close>

datatype deadline_class = ReadonlyClass | NetworkClass | HookClass

record git_command =
  gc_argv :: "jsstring list"
  gc_cwdHandle :: jsstring
  gc_stdin :: "byte list option"
  gc_unicodeSearch :: bool
  gc_deadlineClass :: deadline_class
  gc_description :: string

datatype git_termination = Exited | Signalled | TimedOut | OutputLimit | SpawnError | UnknownEnd

record git_result =
  gr_termination :: git_termination
  gr_exitCode :: "nat option"
  gr_stdout :: "byte list"
  gr_stderr :: "byte list"
  gr_stderrTruncated :: bool
  gr_durationMs :: "int option"

text \<open>The test most callers write out: \<^verbatim>\<open>termination === "exit" && exitCode === 0\<close>.\<close>

definition exit_zero :: "git_result \<Rightarrow> bool" where
  "exit_zero r \<longleftrightarrow> gr_termination r = Exited \<and> gr_exitCode r = Some 0"

section \<open>Failures\<close>

text \<open>\<^verbatim>\<open>GitWorkflowError\<close>, and the errors of the parsers and planners.\<close>

record workflow_error =
  we_code :: string
  we_exitCode :: "nat option"
  we_command :: string
  we_diagnostic :: jsstring
  we_message :: jsstring

datatype failure = WorkflowError workflow_error | OtherError js_error

definition stderrDiagnosticMaxBytes :: nat where "stderrDiagnosticMaxBytes = 256 * 1024"

definition diagnostic_unit :: "byte \<Rightarrow> jsstring" where
  "diagnostic_unit b =
     (if b = 0x0a then [0x0a]
      else if 0x20 \<le> b \<and> b < 0x7f then [fromCharCode b]
      else if 0x80 \<le> b then [0xfffd]
      else [])"

fun diagnostic_loop :: "byte list \<Rightarrow> jsstring \<Rightarrow> jsstring" where
  "diagnostic_loop [] text = js_trimEnd text"
| "diagnostic_loop (b # bs) text =
     (let text = text @ diagnostic_unit b
      in if 4000 < length text then take 4000 text @ [0x2026] else diagnostic_loop bs text)"

definition boundedDiagnostic :: "byte list \<Rightarrow> jsstring" where
  "boundedDiagnostic stderr =
     diagnostic_loop
       (if stderrDiagnosticMaxBytes < length stderr then subarray stderr 0 stderrDiagnosticMaxBytes else stderr) []"

fun failure_kind :: "git_termination \<Rightarrow> string" where
  "failure_kind TimedOut = ''GitTimedOut''"
| "failure_kind OutputLimit = ''GitOutputLimitExceeded''"
| "failure_kind SpawnError = ''GitNotStarted''"
| "failure_kind Signalled = ''GitTerminatedBySignal''"
| "failure_kind Exited = ''GitCommandFailed''"
| "failure_kind UnknownEnd = ''GitCommandFailed''"

fun failure_text :: "git_termination \<Rightarrow> nat option \<Rightarrow> jsstring" where
  "failure_text TimedOut _ = str '' did not finish within its deadline''"
| "failure_text OutputLimit _ = str '' produced more output than the host will hold''"
| "failure_text SpawnError _ = str '' could not be started''"
| "failure_text Signalled _ = str '' was terminated by a signal''"
| "failure_text Exited code =
     str '' exited with status '' @ (case code of Some n \<Rightarrow> decimal n | None \<Rightarrow> str ''?'')"
| "failure_text UnknownEnd _ = str '' ended without a usable result''"

definition failureFor :: "git_command \<Rightarrow> git_result \<Rightarrow> workflow_error" where
  "failureFor c r =
     \<lparr>we_code = failure_kind (gr_termination r), we_exitCode = gr_exitCode r, we_command = gc_description c,
      we_diagnostic = boundedDiagnostic (gr_stderr r),
      we_message = str (gc_description c) @ failure_text (gr_termination r) (gr_exitCode r)\<rparr>"

definition error_message :: "js_error \<Rightarrow> jsstring" where
  "error_message e = (case e of GitOutputParseError _ m _ \<Rightarrow> str m | PlainError m \<Rightarrow> str m | RangeError \<Rightarrow> str ''range error'')"

definition parseFailure :: "string \<Rightarrow> failure \<Rightarrow> failure" where
  "parseFailure command e = WorkflowError
     \<lparr>we_code = ''GitOutputUnparsable'', we_exitCode = None, we_command = command, we_diagnostic = [],
      we_message = str command @ str '': '' @
        (case e of WorkflowError w \<Rightarrow> we_message w | OtherError j \<Rightarrow> error_message j)\<rparr>"

section \<open>Programs\<close>

datatype 'a prog = Done "failure + 'a" | Run git_command "git_result \<Rightarrow> 'a prog"

abbreviation ret :: "'a \<Rightarrow> 'a prog" where "ret x \<equiv> Done (Inr x)"

abbreviation throwP :: "failure \<Rightarrow> 'a prog" where "throwP e \<equiv> Done (Inl e)"

primrec bindP :: "'a prog \<Rightarrow> ('a \<Rightarrow> 'b prog) \<Rightarrow> 'b prog" where
  "bindP (Done x) f = (case x of Inl e \<Rightarrow> Done (Inl e) | Inr a \<Rightarrow> f a)"
| "bindP (Run c k) f = Run c (\<lambda>r. bindP (k r) f)"

text \<open>\<^verbatim>\<open>try { p } catch (e) { h(e) }\<close>.\<close>

primrec catchP :: "'a prog \<Rightarrow> (failure \<Rightarrow> 'a prog) \<Rightarrow> 'a prog" where
  "catchP (Done x) h = (case x of Inl e \<Rightarrow> h e | Inr a \<Rightarrow> Done (Inr a))"
| "catchP (Run c k) h = Run c (\<lambda>r. catchP (k r) h)"

definition runGit :: "git_command \<Rightarrow> git_result prog" where
  "runGit c = Run c ret"

text \<open>A parser or planner that may throw, called inside a workflow.\<close>

definition liftE :: "js_error + 'a \<Rightarrow> 'a prog" where
  "liftE m = (case m of Inl e \<Rightarrow> throwP (OtherError e) | Inr x \<Rightarrow> ret x)"

definition isAcceptedExit :: "git_result \<Rightarrow> nat list \<Rightarrow> bool" where
  "isAcceptedExit r accepted \<longleftrightarrow>
     gr_termination r = Exited \<and> (case gr_exitCode r of None \<Rightarrow> False | Some n \<Rightarrow> n \<in> set accepted)"

definition runRequired :: "git_command \<Rightarrow> byte list prog" where
  "runRequired c = bindP (runGit c) (\<lambda>r.
     if exit_zero r then ret (gr_stdout r) else throwP (WorkflowError (failureFor c r)))"

definition runMeaningfulExit :: "git_command \<Rightarrow> nat list \<Rightarrow> byte list option prog" where
  "runMeaningfulExit c meaningful = bindP (runGit c) (\<lambda>r.
     if exit_zero r then ret (Some (gr_stdout r))
     else if isAcceptedExit r meaningful then ret None
     else throwP (WorkflowError (failureFor c r)))"

section \<open>Running a program\<close>

type_synonym git_log = "(git_command \<times> git_result) list"
type_synonym git = "git_log \<Rightarrow> git_command \<Rightarrow> git_result"

primrec exec :: "git \<Rightarrow> git_log \<Rightarrow> 'a prog \<Rightarrow> git_log \<times> (failure + 'a)" where
  "exec g h (Done x) = (h, x)"
| "exec g h (Run c k) = exec g (h @ [(c, g h c)]) (k (g h c))"

primrec every :: "(git_log \<Rightarrow> failure + 'a \<Rightarrow> bool) \<Rightarrow> git_log \<Rightarrow> 'a prog \<Rightarrow> bool" where
  "every Q h (Done x) \<longleftrightarrow> Q h x"
| "every Q h (Run c k) \<longleftrightarrow> (\<forall>r. every Q (h @ [(c, r)]) (k r))"

lemma every_exec: "every Q h p \<Longrightarrow> exec g h p = (h', x) \<Longrightarrow> Q h' x"
  by (induction p arbitrary: h) auto

lemma every_bindP [simp]:
  "every Q h (bindP p f) \<longleftrightarrow> every (\<lambda>h' x. case x of Inl e \<Rightarrow> Q h' (Inl e) | Inr a \<Rightarrow> every Q h' (f a)) h p"
  by (induction p arbitrary: h) (auto split: sum.splits)

lemma every_catchP [simp]:
  "every Q h (catchP p f) \<longleftrightarrow> every (\<lambda>h' x. case x of Inl e \<Rightarrow> every Q h' (f e) | Inr a \<Rightarrow> Q h' (Inr a)) h p"
  by (induction p arbitrary: h) (auto split: sum.splits)

lemma every_mono: "every Q h p \<Longrightarrow> (\<And>h x. Q h x \<Longrightarrow> R h x) \<Longrightarrow> every R h p"
  by (induction p arbitrary: h) auto

lemma every_runGit [simp]: "every Q h (runGit c) \<longleftrightarrow> (\<forall>r. Q (h @ [(c, r)]) (Inr r))"
  by (simp add: runGit_def)

lemma every_if [simp]: "every Q h (if b then p else q) \<longleftrightarrow> (if b then every Q h p else every Q h q)"
  by simp

lemma every_liftE [simp]: "every Q h (liftE m) \<longleftrightarrow> Q h (case m of Inl e \<Rightarrow> Inl (OtherError e) | Inr x \<Rightarrow> Inr x)"
  by (auto simp: liftE_def split: sum.splits)

lemma exec_bindP [simp]:
  "exec g h (bindP p f) = (case exec g h p of (h', Inl e) \<Rightarrow> (h', Inl e) | (h', Inr a) \<Rightarrow> exec g h' (f a))"
  by (induction p arbitrary: h) (auto split: sum.splits)

lemma exec_catchP [simp]:
  "exec g h (catchP p f) = (case exec g h p of (h', Inl e) \<Rightarrow> exec g h' (f e) | (h', Inr a) \<Rightarrow> (h', Inr a))"
  by (induction p arbitrary: h) (auto split: sum.splits)

lemma exec_runGit [simp]: "exec g h (runGit c) = (h @ [(c, g h c)], Inr (g h c))"
  by (simp add: runGit_def)

lemma exec_liftE [simp]: "exec g h (liftE m) = (h, case m of Inl e \<Rightarrow> Inl (OtherError e) | Inr x \<Rightarrow> Inr x)"
  by (auto simp: liftE_def split: sum.splits)

text \<open>A run only adds to the log, and each answer in it is what Git said at that point.\<close>

lemma exec_extends: "exec g h p = (h', x) \<Longrightarrow> \<exists>t. h' = h @ t"
  by (induction p arbitrary: h) fastforce+

end
