(* ===== verification/Plans.thy ===== *)
theory Plans
  imports GitRun Problem
begin

text \<open>
  The argument vectors Git is run with: every planner of \<^verbatim>\<open>packages/git-core/src/plan/\<close>, file by file.
  \<open>words\<close> are the fixed words of a vector; the \<^verbatim>\<open>spec\<close> helper each file repeats is \<open>plan_spec\<close>, or
  \<open>stdin_spec\<close> when the planner gives bytes on stdin. A planner that throws is an \<open>Inl\<close>.
\<close>

definition plan_spec :: "jsstring \<Rightarrow> deadline_class \<Rightarrow> string \<Rightarrow> jsstring list \<Rightarrow> git_command" where
  "plan_spec cwd deadline description argv =
     \<lparr>gc_argv = argv, gc_cwdHandle = cwd, gc_stdin = None, gc_unicodeSearch = False,
      gc_deadlineClass = deadline, gc_description = description\<rparr>"

definition stdin_spec :: "jsstring \<Rightarrow> deadline_class \<Rightarrow> string \<Rightarrow> jsstring list \<Rightarrow> byte list \<Rightarrow> git_command" where
  "stdin_spec cwd deadline description argv stdin =
     \<lparr>gc_argv = argv, gc_cwdHandle = cwd, gc_stdin = Some stdin, gc_unicodeSearch = False,
      gc_deadlineClass = deadline, gc_description = description\<rparr>"

definition words :: "string list \<Rightarrow> jsstring list" where
  "words ws = map str ws"

definition flag :: "bool \<Rightarrow> string \<Rightarrow> jsstring list" where
  "flag b w = (if b then [str w] else [])"

definition opt_word :: "jsstring option \<Rightarrow> jsstring list" where
  "opt_word w = (case w of None \<Rightarrow> [] | Some v \<Rightarrow> [v])"

text \<open>
  \<^verbatim>\<open>new Uint8Array([...text].map((c) => c.charCodeAt(0)))\<close>: the spread takes whole code points, so a
  surrogate pair gives its first unit; the array keeps each unit modulo 256.
\<close>

fun char_bytes :: "jsstring \<Rightarrow> byte list" where
  "char_bytes [] = []"
| "char_bytes [c] = [ucast c]"
| "char_bytes (c # d # s) =
     (if 0xd800 \<le> c \<and> c \<le> 0xdbff \<and> 0xdc00 \<le> d \<and> d \<le> 0xdfff then ucast c # char_bytes s
      else ucast c # char_bytes (d # s))"

text \<open>\<^verbatim>\<open>`${names.join("\n")}\n`\<close> as bytes.\<close>

definition lines_stdin :: "jsstring list \<Rightarrow> byte list" where
  "lines_stdin names = char_bytes (joinWith [0x0a] names @ [0x0a])"

section \<open>Branches\<close>

definition planBranchCreate :: "jsstring \<Rightarrow> jsstring \<Rightarrow> jsstring option \<Rightarrow> git_command" where
  "planBranchCreate cwd name startOid = plan_spec cwd HookClass ''branch create''
     (words [''branch'', ''--''] @ [name] @ opt_word startOid)"

definition planBranchCreateAndSwitch :: "jsstring \<Rightarrow> jsstring \<Rightarrow> jsstring option \<Rightarrow> git_command" where
  "planBranchCreateAndSwitch cwd name startOid = plan_spec cwd HookClass ''switch --create''
     (words [''switch'', ''--create''] @ [name] @ opt_word startOid)"

definition planBranchSwitch :: "jsstring \<Rightarrow> jsstring \<Rightarrow> git_command" where
  "planBranchSwitch cwd name = plan_spec cwd HookClass ''switch branch''
     (words [''switch'', ''--''] @ [name])"

definition planBranchRename :: "jsstring \<Rightarrow> jsstring \<Rightarrow> jsstring \<Rightarrow> git_command" where
  "planBranchRename cwd name newName = plan_spec cwd HookClass ''branch --move''
     (words [''branch'', ''--move''] @ [name, newName])"

definition planBranchDelete :: "jsstring \<Rightarrow> jsstring \<Rightarrow> git_command" where
  "planBranchDelete cwd name = plan_spec cwd HookClass ''branch --delete''
     (words [''branch'', ''--delete''] @ [name])"

definition planBranchSetUpstream :: "jsstring \<Rightarrow> jsstring \<Rightarrow> (jsstring \<times> jsstring) option \<Rightarrow> git_command" where
  "planBranchSetUpstream cwd branchName upstream =
     (case upstream of
        None \<Rightarrow> plan_spec cwd HookClass ''branch --unset-upstream'' (words [''branch'', ''--unset-upstream''] @ [branchName])
      | Some (remoteName, upstreamBranch) \<Rightarrow> plan_spec cwd HookClass ''branch --set-upstream-to''
          (words [''branch''] @ [str ''--set-upstream-to='' @ remoteName @ str ''/'' @ upstreamBranch, branchName]))"

section \<open>Cherry-picks\<close>

definition planCherryPick :: "jsstring \<Rightarrow> jsstring \<Rightarrow> git_command" where
  "planCherryPick cwd oid = plan_spec cwd HookClass ''cherry-pick''
     (words [''cherry-pick'', ''--no-edit''] @ [oid])"

definition planCherryPickInProgress :: "jsstring \<Rightarrow> git_command" where
  "planCherryPickInProgress cwd = plan_spec cwd ReadonlyClass ''rev-parse --verify CHERRY_PICK_HEAD''
     (words [''rev-parse'', ''--verify'', ''--quiet'', ''CHERRY_PICK_HEAD''])"

definition planCherryPickContinue :: "jsstring \<Rightarrow> git_command" where
  "planCherryPickContinue cwd = plan_spec cwd HookClass ''cherry-pick continue''
     (words [''cherry-pick'', ''--continue''])"

definition planCherryPickAbort :: "jsstring \<Rightarrow> git_command" where
  "planCherryPickAbort cwd = plan_spec cwd HookClass ''cherry-pick abort''
     (words [''cherry-pick'', ''--abort''])"

section \<open>Commits and stashes\<close>

definition planCommit :: "jsstring \<Rightarrow> byte list \<Rightarrow> js_error + git_command" where
  "planCommit cwd message =
     (if message = [] then Inl (PlainError ''planCommit requires a non-empty message'')
      else Inr (stdin_spec cwd HookClass ''commit -F -'' (words [''commit'', ''--cleanup=verbatim'', ''--file=-'']) message))"

definition planAmendCommit :: "jsstring \<Rightarrow> byte list option \<Rightarrow> js_error + git_command" where
  "planAmendCommit cwd message =
     (case message of
        None \<Rightarrow> Inr (plan_spec cwd HookClass ''commit --amend --no-edit'' (words [''commit'', ''--amend'', ''--no-edit'']))
      | Some m \<Rightarrow>
          if m = [] then Inl (PlainError ''planAmendCommit requires a non-empty message or null'')
          else Inr (stdin_spec cwd HookClass ''commit --amend -F -''
                 (words [''commit'', ''--amend'', ''--cleanup=verbatim'', ''--file=-'']) m))"

definition planStashPush :: "jsstring \<Rightarrow> jsstring option \<Rightarrow> bool \<Rightarrow> bool \<Rightarrow> git_command" where
  "planStashPush cwd message includeUntracked keepIndex = plan_spec cwd HookClass ''stash push''
     (words [''stash'', ''push''] @ opt_word (map_option (\<lambda>m. str ''--message='' @ m) message)
      @ flag includeUntracked ''--include-untracked'' @ flag keepIndex ''--keep-index'')"

definition planStashApply :: "jsstring \<Rightarrow> jsstring \<Rightarrow> bool \<Rightarrow> git_command" where
  "planStashApply cwd locator restoreIndex = plan_spec cwd HookClass ''stash apply''
     (words [''stash'', ''apply''] @ flag restoreIndex ''--index'' @ [locator])"

definition planStashPop :: "jsstring \<Rightarrow> jsstring \<Rightarrow> bool \<Rightarrow> git_command" where
  "planStashPop cwd locator restoreIndex = plan_spec cwd HookClass ''stash pop''
     (words [''stash'', ''pop''] @ flag restoreIndex ''--index'' @ [locator])"

definition planStashDrop :: "jsstring \<Rightarrow> jsstring \<Rightarrow> git_command" where
  "planStashDrop cwd locator = plan_spec cwd HookClass ''stash drop''
     (words [''stash'', ''drop''] @ [locator])"

definition planStashResolve :: "jsstring \<Rightarrow> jsstring \<Rightarrow> git_command" where
  "planStashResolve cwd locator = plan_spec cwd HookClass ''rev-parse stash locator''
     (words [''rev-parse'', ''--verify'', ''--quiet''] @ [locator @ str ''^{commit}''])"

definition planSquashSoftReset :: "jsstring \<Rightarrow> git_command" where
  "planSquashSoftReset cwd = plan_spec cwd HookClass ''squash soft reset''
     (words [''reset'', ''--soft'', ''HEAD^''])"

section \<open>Dropping a commit\<close>

definition planDropCommitAncestry :: "jsstring \<Rightarrow> jsstring \<Rightarrow> git_command" where
  "planDropCommitAncestry cwd oid = plan_spec cwd ReadonlyClass ''merge-base --is-ancestor''
     (words [''merge-base'', ''--is-ancestor''] @ [oid, str ''HEAD''])"

definition planDropCommitSecondParent :: "jsstring \<Rightarrow> jsstring \<Rightarrow> git_command" where
  "planDropCommitSecondParent cwd oid = plan_spec cwd ReadonlyClass ''rev-parse --verify oid^2''
     (words [''rev-parse'', ''--verify'', ''--quiet''] @ [oid @ str ''^2''])"

definition planDropCommitParent :: "jsstring \<Rightarrow> jsstring \<Rightarrow> git_command" where
  "planDropCommitParent cwd oid = plan_spec cwd ReadonlyClass ''rev-parse --verify oid^''
     (words [''rev-parse'', ''--verify''] @ [oid @ str ''^''])"

definition planDropCommitRebase :: "jsstring \<Rightarrow> jsstring \<Rightarrow> jsstring \<Rightarrow> git_command" where
  "planDropCommitRebase cwd oid parentOid = plan_spec cwd HookClass ''drop commit rebase''
     (words [''rebase'', ''--onto''] @ [parentOid, oid])"

section \<open>Merges\<close>

definition message_words :: "jsstring option \<Rightarrow> jsstring list" where
  "message_words message = (case message of None \<Rightarrow> [str ''--no-edit''] | Some m \<Rightarrow> [str ''-m'', m])"

definition planMerge :: "jsstring \<Rightarrow> jsstring \<Rightarrow> bool \<Rightarrow> jsstring option \<Rightarrow> git_command" where
  "planMerge cwd sourceOid noFf message = plan_spec cwd HookClass ''merge''
     (words [''merge''] @ flag noFf ''--no-ff'' @ message_words message @ [sourceOid])"

definition planMergeContinue :: "jsstring \<Rightarrow> jsstring option \<Rightarrow> git_command" where
  "planMergeContinue cwd message = plan_spec cwd HookClass ''commit (merge continue)''
     (words [''commit''] @ message_words message)"

definition planMergeAbort :: "jsstring \<Rightarrow> git_command" where
  "planMergeAbort cwd = plan_spec cwd HookClass ''merge --abort''
     (words [''merge'', ''--abort''])"

definition planResolveCommit :: "jsstring \<Rightarrow> jsstring \<Rightarrow> git_command" where
  "planResolveCommit cwd revision = plan_spec cwd ReadonlyClass ''rev-parse --verify (commit)''
     (words [''rev-parse'', ''--verify'', ''--quiet''] @ [revision @ str ''^{commit}''])"

definition planMergeInProgress :: "jsstring \<Rightarrow> git_command" where
  "planMergeInProgress cwd = plan_spec cwd ReadonlyClass ''rev-parse --verify MERGE_HEAD''
     (words [''rev-parse'', ''--verify'', ''--quiet'', ''MERGE_HEAD''])"

section \<open>Rebases\<close>

definition planRebase :: "jsstring \<Rightarrow> jsstring \<Rightarrow> git_command" where
  "planRebase cwd upstreamOid = plan_spec cwd HookClass ''rebase''
     (words [''rebase''] @ [upstreamOid])"

definition planRebaseInProgress :: "jsstring \<Rightarrow> git_command" where
  "planRebaseInProgress cwd = plan_spec cwd ReadonlyClass ''rev-parse --verify REBASE_HEAD''
     (words [''rev-parse'', ''--verify'', ''REBASE_HEAD''])"

definition planRebaseContinue :: "jsstring \<Rightarrow> git_command" where
  "planRebaseContinue cwd = plan_spec cwd HookClass ''rebase continue''
     (words [''-c'', ''core.editor=true'', ''rebase'', ''--continue''])"

definition planRebaseAbort :: "jsstring \<Rightarrow> git_command" where
  "planRebaseAbort cwd = plan_spec cwd HookClass ''rebase abort''
     (words [''rebase'', ''--abort''])"

section \<open>Resets and reverts\<close>

definition planResetBranch :: "jsstring \<Rightarrow> jsstring \<Rightarrow> bool \<Rightarrow> git_command" where
  "planResetBranch cwd oid soft =
     plan_spec cwd HookClass (''reset '' @ (if soft then ''soft'' else ''mixed''))
       (words [''reset'', if soft then ''--soft'' else ''--mixed''] @ [oid])"

definition planRevertCommit :: "jsstring \<Rightarrow> jsstring \<Rightarrow> git_command" where
  "planRevertCommit cwd oid = plan_spec cwd HookClass ''revert''
     (words [''revert'', ''--no-edit''] @ [oid])"

definition planRevertInProgress :: "jsstring \<Rightarrow> git_command" where
  "planRevertInProgress cwd = plan_spec cwd ReadonlyClass ''rev-parse --verify REVERT_HEAD''
     (words [''rev-parse'', ''--verify'', ''--quiet'', ''REVERT_HEAD''])"

definition planRevertAbort :: "jsstring \<Rightarrow> git_command" where
  "planRevertAbort cwd = plan_spec cwd HookClass ''revert abort''
     (words [''revert'', ''--abort''])"

section \<open>Remotes\<close>

definition planRemoteAdd :: "jsstring \<Rightarrow> jsstring \<Rightarrow> jsstring \<Rightarrow> git_command" where
  "planRemoteAdd cwd name fetchUrl = plan_spec cwd HookClass ''remote add''
     (words [''remote'', ''add''] @ [name, fetchUrl])"

definition planRemoteSetUrl :: "jsstring \<Rightarrow> jsstring \<Rightarrow> jsstring \<Rightarrow> bool \<Rightarrow> git_command" where
  "planRemoteSetUrl cwd name url push = plan_spec cwd HookClass ''remote set-url''
     (words [''remote'', ''set-url''] @ flag push ''--push'' @ [name, url])"

definition planRemoteRename :: "jsstring \<Rightarrow> jsstring \<Rightarrow> jsstring \<Rightarrow> git_command" where
  "planRemoteRename cwd name newName = plan_spec cwd HookClass ''remote rename''
     (words [''remote'', ''rename''] @ [name, newName])"

definition planRemoteRemove :: "jsstring \<Rightarrow> jsstring \<Rightarrow> git_command" where
  "planRemoteRemove cwd name = plan_spec cwd HookClass ''remote remove''
     (words [''remote'', ''remove''] @ [name])"

definition planFetch :: "jsstring \<Rightarrow> jsstring \<Rightarrow> bool \<Rightarrow> bool \<Rightarrow> git_command" where
  "planFetch cwd remoteName prune noTags = plan_spec cwd NetworkClass ''fetch --porcelain''
     (words [''fetch'', ''--porcelain''] @ flag prune ''--prune'' @ [str (if noTags then ''--no-tags'' else ''--tags'')] @ [remoteName])"

definition planPush :: "jsstring \<Rightarrow> jsstring \<Rightarrow> jsstring \<Rightarrow> jsstring \<Rightarrow> bool \<Rightarrow> git_command" where
  "planPush cwd remoteName sourceRef destinationRef setUpstream = plan_spec cwd NetworkClass ''push --porcelain''
     (words [''push'', ''--porcelain'', ''--no-follow-tags''] @ flag setUpstream ''--set-upstream''
      @ [remoteName, sourceRef @ str '':'' @ destinationRef])"

definition planBranchUpstreamRef :: "jsstring \<Rightarrow> jsstring \<Rightarrow> git_command" where
  "planBranchUpstreamRef cwd branchName = plan_spec cwd ReadonlyClass ''rev-parse branch upstream''
     (words [''rev-parse'', ''--abbrev-ref'', ''--symbolic-full-name''] @ [branchName @ [0x40, 0x7b] @ str ''upstream}''])"

definition planFastForwardMerge :: "jsstring \<Rightarrow> jsstring \<Rightarrow> git_command" where
  "planFastForwardMerge cwd ref = plan_spec cwd HookClass ''merge --ff-only''
     (words [''merge'', ''--ff-only'', ''--no-edit''] @ [ref])"

section \<open>Creating a repository\<close>

definition planRepositoryInit :: "jsstring \<Rightarrow> jsstring \<Rightarrow> jsstring option \<Rightarrow> git_command" where
  "planRepositoryInit cwd destination initialBranch = plan_spec cwd HookClass ''init''
     (words [''init'', ''--quiet''] @ opt_word (map_option (\<lambda>b. str ''--initial-branch='' @ b) initialBranch)
      @ words [''--''] @ [destination])"

definition planRepositoryClone :: "jsstring \<Rightarrow> jsstring \<Rightarrow> jsstring \<Rightarrow> bool \<Rightarrow> git_command" where
  "planRepositoryClone cwd remoteUrl destination initializeSubmodules = plan_spec cwd NetworkClass ''clone''
     (words [''clone'', ''--quiet''] @ flag initializeSubmodules ''--recurse-submodules''
      @ words [''--''] @ [remoteUrl, destination])"

section \<open>Submodules\<close>

definition planSubmoduleAdd :: "jsstring \<Rightarrow> jsstring \<Rightarrow> jsstring \<Rightarrow> jsstring option \<Rightarrow> git_command" where
  "planSubmoduleAdd cwd url path branchName = plan_spec cwd NetworkClass ''submodule add''
     (words [''submodule'', ''add''] @ (case branchName of None \<Rightarrow> [] | Some b \<Rightarrow> [str ''-b'', b])
      @ words [''--''] @ [url, path])"

definition planSubmoduleUpdate :: "jsstring \<Rightarrow> jsstring list \<Rightarrow> bool \<Rightarrow> bool \<Rightarrow> git_command" where
  "planSubmoduleUpdate cwd paths initialize recursive = plan_spec cwd NetworkClass ''submodule update --checkout''
     (words [''submodule'', ''update'', ''--checkout''] @ flag initialize ''--init'' @ flag recursive ''--recursive''
      @ words [''--''] @ paths)"

definition planSubmoduleSync :: "jsstring \<Rightarrow> jsstring list \<Rightarrow> bool \<Rightarrow> git_command" where
  "planSubmoduleSync cwd paths recursive = plan_spec cwd HookClass ''submodule sync''
     (words [''submodule'', ''sync''] @ flag recursive ''--recursive'' @ words [''--''] @ paths)"

section \<open>Tags\<close>

definition planTagCreateLightweight :: "jsstring \<Rightarrow> jsstring \<Rightarrow> jsstring option \<Rightarrow> git_command" where
  "planTagCreateLightweight cwd name targetOid = plan_spec cwd HookClass ''tag create (lightweight)''
     (words [''tag'', ''--''] @ [name] @ opt_word targetOid)"

definition planTagCreateAnnotated :: "jsstring \<Rightarrow> jsstring \<Rightarrow> jsstring option \<Rightarrow> byte list \<Rightarrow> js_error + git_command" where
  "planTagCreateAnnotated cwd name targetOid message =
     (if message = [] then Inl (PlainError ''planTagCreateAnnotated requires a non-empty message'')
      else Inr (stdin_spec cwd HookClass ''tag create (annotated)''
             (words [''tag'', ''--annotate'', ''--cleanup=verbatim'', ''--file=-''] @ [name] @ opt_word targetOid) message))"

definition planTagDelete :: "jsstring \<Rightarrow> jsstring \<Rightarrow> git_command" where
  "planTagDelete cwd name = plan_spec cwd HookClass ''tag --delete''
     (words [''tag'', ''--delete''] @ [name])"

definition planTagExists :: "jsstring \<Rightarrow> jsstring \<Rightarrow> git_command" where
  "planTagExists cwd name = plan_spec cwd HookClass ''rev-parse tag''
     (words [''rev-parse'', ''--verify'', ''--quiet''] @ [str ''refs/tags/'' @ name])"

section \<open>Worktrees\<close>

datatype worktree_reference =
    ExistingBranch jsstring
  | NewBranch jsstring jsstring
  | Detached jsstring

fun planWorktreeAdd :: "jsstring \<Rightarrow> jsstring \<Rightarrow> worktree_reference \<Rightarrow> git_command" where
  "planWorktreeAdd cwd destination (ExistingBranch branchName) =
     plan_spec cwd HookClass ''worktree add (existing branch)''
       (words [''worktree'', ''add'', ''--''] @ [destination, branchName])"
| "planWorktreeAdd cwd destination (NewBranch branchName startOid) =
     plan_spec cwd HookClass ''worktree add (new branch)''
       (words [''worktree'', ''add'', ''-b''] @ [branchName] @ words [''--''] @ [destination, startOid])"
| "planWorktreeAdd cwd destination (Detached oid) =
     plan_spec cwd HookClass ''worktree add (detached)''
       (words [''worktree'', ''add'', ''--detach'', ''--''] @ [destination, oid])"

definition planWorktreeRemove :: "jsstring \<Rightarrow> jsstring \<Rightarrow> git_command" where
  "planWorktreeRemove cwd absolutePath = plan_spec cwd HookClass ''worktree remove''
     (words [''worktree'', ''remove''] @ [absolutePath])"

definition planWorktreeLock :: "jsstring \<Rightarrow> jsstring \<Rightarrow> jsstring option \<Rightarrow> git_command" where
  "planWorktreeLock cwd absolutePath reason = plan_spec cwd HookClass ''worktree lock''
     (words [''worktree'', ''lock''] @ opt_word (map_option (\<lambda>r. str ''--reason='' @ r) reason) @ [absolutePath])"

definition planWorktreeUnlock :: "jsstring \<Rightarrow> jsstring \<Rightarrow> git_command" where
  "planWorktreeUnlock cwd absolutePath = plan_spec cwd HookClass ''worktree unlock''
     (words [''worktree'', ''unlock''] @ [absolutePath])"

section \<open>Status and history\<close>

definition planStatus :: "jsstring \<Rightarrow> bool \<Rightarrow> bool \<Rightarrow> git_command" where
  "planStatus cwd includeIgnored showStash = plan_spec cwd ReadonlyClass ''status --porcelain=v2 --branch -z''
     (words [''--no-optional-locks'', ''status'', ''--porcelain=v2'', ''--branch'', ''-z'']
      @ flag showStash ''--show-stash'' @ flag includeIgnored ''--ignored=matching'')"

definition planRepositoryLayout :: "jsstring \<Rightarrow> bool \<Rightarrow> git_command" where
  "planRepositoryLayout cwd omitTopLevel = plan_spec cwd ReadonlyClass ''rev-parse layout''
     (words [''--no-optional-locks'', ''rev-parse'', ''--path-format=absolute'', ''--absolute-git-dir'', ''--git-common-dir'']
      @ flag (\<not> omitTopLevel) ''--show-toplevel''
      @ words [''--is-bare-repository'', ''--show-object-format'', ''--is-shallow-repository''])"

definition planHeadRef :: "jsstring \<Rightarrow> git_command" where
  "planHeadRef cwd = plan_spec cwd ReadonlyClass ''symbolic-ref HEAD''
     (words [''symbolic-ref'', ''--quiet'', ''HEAD''])"

definition planHeadOid :: "jsstring \<Rightarrow> git_command" where
  "planHeadOid cwd = plan_spec cwd ReadonlyClass ''rev-parse HEAD''
     (words [''rev-parse'', ''--verify'', ''--quiet'', ''HEAD''])"

text \<open>\<^verbatim>\<open>`${seconds}`\<close> of an integer.\<close>

definition integer_text :: "int \<Rightarrow> jsstring" where
  "integer_text n = (if n < 0 then str ''-'' @ decimal (nat (- n)) else decimal (nat n))"

record rev_list_options =
  rl_tips :: "jsstring list"
  rl_maxCount :: nat
  rl_skip :: nat
  rl_firstParentOnly :: bool
  rl_onlyOid :: "jsstring option"
  rl_message :: "jsstring option"
  rl_author :: "jsstring option"
  rl_committedAfter :: "int option"
  rl_committedBefore :: "int option"
  rl_pathText :: "jsstring option"

definition rev_list_searches :: "rev_list_options \<Rightarrow> bool" where
  "rev_list_searches o' \<longleftrightarrow> rl_message o' \<noteq> None \<or> rl_author o' \<noteq> None"

definition rev_list_argv :: "rev_list_options \<Rightarrow> jsstring list" where
  "rev_list_argv o' =
     flag (rl_pathText o' \<noteq> None) ''--literal-pathspecs''
     @ words [''rev-list'', ''--date-order'', ''--parents'']
     @ [str ''--max-count='' @ decimal
         (case rl_committedBefore o' of Some b \<Rightarrow> if b < 0 then 0 else rl_maxCount o' | None \<Rightarrow> rl_maxCount o')]
     @ flag (rl_onlyOid o' \<noteq> None) ''--no-walk=unsorted''
     @ (if 0 < rl_skip o' then [str ''--skip='' @ decimal (rl_skip o')] else [])
     @ flag (rl_firstParentOnly o') ''--first-parent''
     @ (if rev_list_searches o' then words [''--fixed-strings'', ''--regexp-ignore-case''] else [])
     @ opt_word (map_option (\<lambda>m. str ''--grep='' @ m) (rl_message o'))
     @ opt_word (map_option (\<lambda>a. str ''--author='' @ a) (rl_author o'))
     @ (case rl_committedAfter o' of
          Some n \<Rightarrow> if 0 \<le> n then [str ''--since-as-filter=@'' @ integer_text n @ str '' +0000''] else []
        | None \<Rightarrow> [])
     @ (case rl_committedBefore o' of
          Some n \<Rightarrow> if 0 \<le> n then [str ''--min-age='' @ integer_text n] else []
        | None \<Rightarrow> [])
     @ words [''--stdin'']
     @ (case rl_pathText o' of Some p \<Rightarrow> [str ''--'', p] | None \<Rightarrow> [])"

definition planRevList :: "jsstring \<Rightarrow> rev_list_options \<Rightarrow> js_error + git_command" where
  "planRevList cwd o' =
     (if \<not> pred_option isObjectName (rl_onlyOid o') then Inl (PlainError ''onlyOid must be a full object ID'')
      else if rl_tips o' = [] \<and> rl_onlyOid o' = None then Inl (PlainError ''planRevList requires at least one tip'')
      else Inr (stdin_spec cwd ReadonlyClass ''rev-list topology'' (rev_list_argv o')
             (lines_stdin (case rl_onlyOid o' of None \<Rightarrow> rl_tips o' | Some oid \<Rightarrow> [oid]))
             \<lparr>gc_unicodeSearch := rev_list_searches o'\<rparr>))"

definition planCatFileBatch :: "jsstring \<Rightarrow> jsstring list \<Rightarrow> js_error + git_command" where
  "planCatFileBatch cwd objectNames =
     (if objectNames = [] then Inl (PlainError ''planCatFileBatch requires at least one object name'')
      else Inr (stdin_spec cwd ReadonlyClass ''cat-file --batch'' (words [''cat-file'', ''--batch'']) (lines_stdin objectNames)))"

definition planForEachRef :: "jsstring \<Rightarrow> git_command" where
  "planForEachRef cwd = plan_spec cwd ReadonlyClass ''for-each-ref''
     (words [''for-each-ref'', ''--format=%(refname)%00%(objectname)%00%(objecttype)%00%(symref)%00%(upstream)%00%(upstream:track)%00%(HEAD)%00%(*objectname)'', ''--sort=refname''])"

definition planWorktreeList :: "jsstring \<Rightarrow> git_command" where
  "planWorktreeList cwd = plan_spec cwd ReadonlyClass ''worktree list --porcelain -z''
     (words [''worktree'', ''list'', ''--porcelain'', ''-z''])"

definition planLsFilesStage :: "jsstring \<Rightarrow> git_command" where
  "planLsFilesStage cwd = plan_spec cwd ReadonlyClass ''ls-files --stage -z''
     (words [''ls-files'', ''--stage'', ''-z''])"

definition planLsFilesUnmerged :: "jsstring \<Rightarrow> git_command" where
  "planLsFilesUnmerged cwd = plan_spec cwd ReadonlyClass ''ls-files --unmerged --stage -z''
     (words [''ls-files'', ''--unmerged'', ''--stage'', ''-z''])"

definition planStashList :: "jsstring \<Rightarrow> git_command" where
  "planStashList cwd = plan_spec cwd ReadonlyClass ''reflog show refs/stash''
     (words [''reflog'', ''show'', ''--format=%gd%x00%H%x00%gs%x00%ct'', ''refs/stash''])"

definition isReadOnlySpec :: "git_command \<Rightarrow> bool" where
  "isReadOnlySpec c \<longleftrightarrow> gc_deadlineClass c = ReadonlyClass"

section \<open>Paths\<close>

text \<open>Each path followed by a NUL, copied to its offset in an array of the total length.\<close>

fun pathspec_copy :: "byte list list \<Rightarrow> nat \<Rightarrow> byte list \<Rightarrow> byte list" where
  "pathspec_copy [] offset bytes = bytes"
| "pathspec_copy (p # ps) offset bytes =
     pathspec_copy ps (offset + length p + 1) ((set_at bytes p offset)[offset + length p := 0])"

definition pathspecStdin :: "byte list list \<Rightarrow> js_error + byte list" where
  "pathspecStdin paths =
     (if paths = [] then Inl (PlainError ''pathspecStdin requires at least one path'')
      else Inr (pathspec_copy paths 0 (replicate (sum_list (map (\<lambda>p. length p + 1) paths)) 0)))"

definition pathspec_plan :: "jsstring \<Rightarrow> string \<Rightarrow> string list \<Rightarrow> byte list list \<Rightarrow> js_error + git_command" where
  "pathspec_plan cwd description command paths =
     bindE (pathspecStdin paths) (\<lambda>stdin. Inr (stdin_spec cwd HookClass description
       (words ([''--literal-pathspecs''] @ command @ [''--pathspec-from-file=-'', ''--pathspec-file-nul'', ''--''])) stdin))"

definition planStage :: "jsstring \<Rightarrow> byte list list \<Rightarrow> js_error + git_command" where
  "planStage cwd paths = pathspec_plan cwd ''add paths'' [''add''] paths"

definition planUnstage :: "jsstring \<Rightarrow> byte list list \<Rightarrow> js_error + git_command" where
  "planUnstage cwd paths = pathspec_plan cwd ''restore --staged paths'' [''restore'', ''--staged''] paths"

definition planUnstageUnborn :: "jsstring \<Rightarrow> byte list list \<Rightarrow> js_error + git_command" where
  "planUnstageUnborn cwd paths = pathspec_plan cwd ''rm --cached paths (unborn HEAD)'' [''rm'', ''--cached'', ''-r''] paths"

definition planRestoreWorktree :: "jsstring \<Rightarrow> byte list list \<Rightarrow> js_error + git_command" where
  "planRestoreWorktree cwd paths = pathspec_plan cwd ''restore --worktree paths'' [''restore'', ''--worktree''] paths"

definition diff_words :: "bool \<Rightarrow> jsstring option \<Rightarrow> jsstring option \<Rightarrow> jsstring list" where
  "diff_words cached from to = flag cached ''--cached'' @ opt_word from @ opt_word to"

definition patch_words :: "jsstring list" where
  "patch_words = words [''diff'', ''--no-color'', ''--no-ext-diff'', ''--no-textconv'', ''--patch'', ''--submodule=short'']"

definition planDiffNameStatus :: "jsstring \<Rightarrow> bool \<Rightarrow> jsstring option \<Rightarrow> jsstring option \<Rightarrow> git_command" where
  "planDiffNameStatus cwd cached source target = plan_spec cwd ReadonlyClass ''diff --name-status -z''
     (words [''diff'', ''--name-status'', ''-z'', ''--no-ext-diff'', ''--no-textconv''] @ diff_words cached source target)"

definition planDiffNumstat :: "jsstring \<Rightarrow> bool \<Rightarrow> jsstring option \<Rightarrow> jsstring option \<Rightarrow> git_command" where
  "planDiffNumstat cwd cached source target = plan_spec cwd ReadonlyClass ''diff --numstat -z''
     (words [''diff'', ''--numstat'', ''-z'', ''--no-ext-diff'', ''--no-textconv''] @ diff_words cached source target)"

definition planDiffPatchAll :: "jsstring \<Rightarrow> bool \<Rightarrow> jsstring option \<Rightarrow> jsstring option \<Rightarrow> git_command" where
  "planDiffPatchAll cwd cached source target = plan_spec cwd ReadonlyClass ''diff patch (change set)''
     (patch_words @ diff_words cached source target)"

definition planDiffPatchForPath :: "jsstring \<Rightarrow> jsstring \<Rightarrow> bool \<Rightarrow> jsstring option \<Rightarrow> jsstring option \<Rightarrow> git_command" where
  "planDiffPatchForPath cwd path cached source target = plan_spec cwd ReadonlyClass ''diff patch for one path''
     (words [''--literal-pathspecs''] @ patch_words @ diff_words cached source target @ [str ''--'', path])"

definition planCatFileBlob :: "jsstring \<Rightarrow> jsstring \<Rightarrow> git_command" where
  "planCatFileBlob cwd objectName = stdin_spec cwd ReadonlyClass ''cat-file blob''
     (words [''cat-file'', ''--batch'']) (lines_stdin [objectName])"

section \<open>Repository metadata\<close>

definition planRemotes :: "jsstring \<Rightarrow> git_command" where
  "planRemotes cwd = plan_spec cwd ReadonlyClass ''remote -v''
     (words [''remote'', ''-v''])"

definition planSubmoduleConfig :: "jsstring \<Rightarrow> git_command" where
  "planSubmoduleConfig cwd = plan_spec cwd ReadonlyClass ''config --file .gitmodules --get-regexp''
     (words [''config'', ''-z'', ''--file'', ''.gitmodules'', ''--get-regexp'', ''^submodule'' @ [CHR 0x5c] @ ''.''])"

definition planLsTreeEntry :: "jsstring \<Rightarrow> jsstring \<Rightarrow> jsstring \<Rightarrow> git_command" where
  "planLsTreeEntry cwd revision path = plan_spec cwd ReadonlyClass ''ls-tree for one path''
     (words [''--literal-pathspecs'', ''ls-tree'', ''-z''] @ [revision, str ''--'', path])"

definition planRevParseCommit :: "jsstring \<Rightarrow> jsstring \<Rightarrow> git_command" where
  "planRevParseCommit cwd objectName = plan_spec cwd ReadonlyClass ''rev-parse --verify <name>^{commit}''
     (words [''rev-parse'', ''--verify'', ''--quiet''] @ [objectName @ str ''^{commit}''])"

definition planCatFileExists :: "jsstring \<Rightarrow> jsstring list \<Rightarrow> js_error + git_command" where
  "planCatFileExists cwd objectNames =
     (if objectNames = [] then Inl (PlainError ''planCatFileExists requires at least one object name'')
      else Inr (stdin_spec cwd ReadonlyClass ''cat-file --batch-check''
             (words [''cat-file'', ''--batch-check=%(objectname)'']) (lines_stdin objectNames)))"

definition planDisambiguateCommitPrefix :: "jsstring \<Rightarrow> jsstring \<Rightarrow> js_error + git_command" where
  "planDisambiguateCommitPrefix cwd abbrev =
     (if \<not> (4 \<le> length abbrev \<and> length abbrev \<le> 64 \<and> list_all isHexDigit abbrev)
      then Inl (PlainError ''invalid object ID prefix'')
      else Inr (plan_spec cwd ReadonlyClass ''resolve commit prefix''
             (words [''rev-parse''] @ [str ''--disambiguate='' @ abbrev])))"

definition requireFullOid :: "jsstring \<Rightarrow> js_error + unit" where
  "requireFullOid oid = guardE (isObjectName oid) (PlainError ''expected a full object ID'')"

definition planCatFileObjectTypes :: "jsstring \<Rightarrow> jsstring list \<Rightarrow> js_error + git_command" where
  "planCatFileObjectTypes cwd oids =
     (if oids = [] then Inl (PlainError ''object type check requires candidates'')
      else bindE (mapE requireFullOid oids) (\<lambda>_. Inr (stdin_spec cwd ReadonlyClass ''check candidate object types''
             (words [''cat-file'', ''--batch-check=%(objectname) %(objecttype)'']) (lines_stdin oids))))"

definition planIsCommitAncestor :: "jsstring \<Rightarrow> jsstring \<Rightarrow> jsstring \<Rightarrow> js_error + git_command" where
  "planIsCommitAncestor cwd ancestorOid descendantOid =
     bindE (requireFullOid ancestorOid) (\<lambda>_. bindE (requireFullOid descendantOid) (\<lambda>_.
       Inr (plan_spec cwd ReadonlyClass ''check commit ancestry''
         (words [''merge-base'', ''--is-ancestor''] @ [ancestorOid, descendantOid]))))"

end
