(* ===== verification/Operations.thy ===== *)
theory Operations
  imports Names Plans Submit
begin

text \<open>
  The operations a client may ask for, \<^verbatim>\<open>packages/git-contract/src/operations.ts\<close>: \<open>operation\<close> is the
  sealed union, in the groups the effects of
  \<^verbatim>\<open>packages/host-node/src/coordinator\<close> are written in; \<open>operation_schema\<close> what its schemas demand of the fields, \<open>targetKindOf\<close> the kind of
  target, and \<open>validateOperationSemantics\<close> the rules of \<^verbatim>\<open>validate.ts\<close> that depend on more than one field.
  \<open>accepted\<close> is what is left once \<^verbatim>\<open>validateMutationRequest\<close> says \<^verbatim>\<open>ok\<close>.
\<close>

section \<open>The union\<close>

datatype repository_operation =
    InitRepository "jsstring option"
  | CloneRepository jsstring jsstring bool
  | CreateBranch jsstring "jsstring option" bool
  | SwitchBranch jsstring
  | RenameBranch jsstring jsstring
  | DeleteBranch jsstring bool
  | SetBranchUpstream jsstring "(jsstring \<times> jsstring) option"
  | AddRemote jsstring jsstring "jsstring option"
  | UpdateRemote jsstring "jsstring option" "jsstring option" "jsstring option"
  | RemoveRemote jsstring bool
  | Fetch jsstring bool bool
  | Push jsstring jsstring jsstring bool
  | Pull jsstring

datatype stash_tag_operation =
    CreateStash "jsstring option" bool bool
  | ApplyStash jsstring jsstring bool
  | PopStash jsstring jsstring bool bool
  | DropStash jsstring jsstring bool
  | CreateTag jsstring "jsstring option" "jsstring option"
  | DeleteTag jsstring bool
  | PushTag jsstring jsstring

datatype worktree_operation =
    CreateWorktree jsstring worktree_reference
  | RemoveWorktree jsstring bool
  | LockWorktree jsstring "jsstring option"
  | UnlockWorktree jsstring
  | AddSubmodule jsstring jsstring "jsstring option" bool
  | UpdateSubmodule "jsstring list" bool bool
  | SyncSubmodule "jsstring list" bool

datatype sequencer_operation =
    Merge jsstring bool "jsstring option"
  | ContinueMerge "jsstring option"
  | AbortMerge bool
  | CherryPick jsstring
  | ContinueCherryPick
  | AbortCherryPick bool
  | Rebase jsstring
  | ContinueRebase
  | AbortRebase bool
  | DropCommit jsstring bool

datatype staging_operation =
    StagePaths "jsstring list" "jsstring list"
  | UnstagePaths "jsstring list"
  | DiscardTrackedPaths "jsstring list" "jsstring list" bool
  | CommitOp jsstring
  | AmendCommit "jsstring option" bool
  | RevertCommit jsstring
  | ResetBranch jsstring bool
  | SquashCommit "jsstring option"

datatype operation =
    RepositoryOp repository_operation
  | StashTagOp stash_tag_operation
  | WorktreeOp worktree_operation
  | SequencerOp sequencer_operation
  | StagingOp staging_operation

section \<open>The schemas\<close>

definition pathSelectionMaxEntries :: nat where "pathSelectionMaxEntries = 1000"

definition id_array :: "string \<Rightarrow> jsstring list \<Rightarrow> bool" where
  "id_array kind ids \<longleftrightarrow>
     1 \<le> length ids \<and> length ids \<le> pathSelectionMaxEntries \<and> list_all (prefixedId kind) ids"

definition nullable :: "('a \<Rightarrow> bool) \<Rightarrow> 'a option \<Rightarrow> bool" where
  "nullable P v = (case v of None \<Rightarrow> True | Some x \<Rightarrow> P x)"

lemma nullable_simps [simp]: "nullable P None" "nullable P (Some x) = P x"
  by (simp_all add: nullable_def)

fun worktreeReferenceSchema :: "worktree_reference \<Rightarrow> bool" where
  "worktreeReferenceSchema (ExistingBranch b) \<longleftrightarrow> branchNameSchema b"
| "worktreeReferenceSchema (NewBranch b oid) \<longleftrightarrow> branchNameSchema b \<and> isObjectName oid"
| "worktreeReferenceSchema (Detached oid) \<longleftrightarrow> isObjectName oid"

primrec repository_schema :: "repository_operation \<Rightarrow> bool" where
  "repository_schema (InitRepository b) \<longleftrightarrow> nullable branchNameSchema b"
| "repository_schema (CloneRepository url dest sub) \<longleftrightarrow> remoteUrlSchema url \<and> relativeDestinationSchema dest"
| "repository_schema (CreateBranch b oid sw) \<longleftrightarrow> branchNameSchema b \<and> nullable isObjectName oid"
| "repository_schema (SwitchBranch b) \<longleftrightarrow> branchNameSchema b"
| "repository_schema (RenameBranch b n) \<longleftrightarrow> branchNameSchema b \<and> branchNameSchema n"
| "repository_schema (DeleteBranch b confirmed) \<longleftrightarrow> branchNameSchema b \<and> confirmed"
| "repository_schema (SetBranchUpstream b u) \<longleftrightarrow>
     branchNameSchema b \<and> nullable (\<lambda>(r, n). remoteNameSchema r \<and> branchNameSchema n) u"
| "repository_schema (AddRemote r u p) \<longleftrightarrow> remoteNameSchema r \<and> remoteUrlSchema u \<and> nullable remoteUrlSchema p"
| "repository_schema (UpdateRemote r n u p) \<longleftrightarrow>
     remoteNameSchema r \<and> nullable (\<lambda>s. 1 \<le> length s \<and> length s \<le> 64) n \<and>
     nullable remoteUrlSchema u \<and> nullable remoteUrlSchema p"
| "repository_schema (RemoveRemote r confirmed) \<longleftrightarrow> remoteNameSchema r \<and> confirmed"
| "repository_schema (Fetch r prune noTags) \<longleftrightarrow> remoteNameSchema r"
| "repository_schema (Push r s d up) \<longleftrightarrow> remoteNameSchema r \<and> fullRefNameSchema s \<and> fullRefNameSchema d"
| "repository_schema (Pull r) \<longleftrightarrow> remoteNameSchema r"

primrec stash_tag_schema :: "stash_tag_operation \<Rightarrow> bool" where
  "stash_tag_schema (CreateStash m u k) \<longleftrightarrow> nullable commitMessageSchema m"
| "stash_tag_schema (ApplyStash oid locator i) \<longleftrightarrow> stashOidSchema oid \<and> stashLocatorSchema locator"
| "stash_tag_schema (PopStash oid locator i confirmed) \<longleftrightarrow> stashOidSchema oid \<and> stashLocatorSchema locator \<and> confirmed"
| "stash_tag_schema (DropStash oid locator confirmed) \<longleftrightarrow> stashOidSchema oid \<and> stashLocatorSchema locator \<and> confirmed"
| "stash_tag_schema (CreateTag t oid a) \<longleftrightarrow>
     branchNameSchema t \<and> nullable isObjectName oid \<and> nullable commitMessageSchema a"
| "stash_tag_schema (DeleteTag t confirmed) \<longleftrightarrow> branchNameSchema t \<and> confirmed"
| "stash_tag_schema (PushTag r t) \<longleftrightarrow> remoteNameSchema r \<and> branchNameSchema t"

primrec worktree_schema :: "worktree_operation \<Rightarrow> bool" where
  "worktree_schema (CreateWorktree dest ref) \<longleftrightarrow> relativeDestinationSchema dest \<and> worktreeReferenceSchema ref"
| "worktree_schema (RemoveWorktree w confirmed) \<longleftrightarrow> prefixedId ''wt'' w \<and> confirmed"
| "worktree_schema (LockWorktree w reason) \<longleftrightarrow> prefixedId ''wt'' w \<and> nullable (\<lambda>s. length s \<le> 1024) reason"
| "worktree_schema (UnlockWorktree w) \<longleftrightarrow> prefixedId ''wt'' w"
| "worktree_schema (AddSubmodule url path b i) \<longleftrightarrow>
     remoteUrlSchema url \<and> relativeDestinationSchema path \<and> nullable branchNameSchema b"
| "worktree_schema (UpdateSubmodule ids i r) \<longleftrightarrow> id_array ''path'' ids"
| "worktree_schema (SyncSubmodule ids r) \<longleftrightarrow> id_array ''path'' ids"

primrec sequencer_schema :: "sequencer_operation \<Rightarrow> bool" where
  "sequencer_schema (Merge oid noFf m) \<longleftrightarrow> isObjectName oid \<and> nullable commitMessageSchema m"
| "sequencer_schema (ContinueMerge m) \<longleftrightarrow> nullable commitMessageSchema m"
| "sequencer_schema (AbortMerge confirmed) \<longleftrightarrow> confirmed"
| "sequencer_schema (CherryPick oid) \<longleftrightarrow> isObjectName oid"
| "sequencer_schema ContinueCherryPick \<longleftrightarrow> True"
| "sequencer_schema (AbortCherryPick confirmed) \<longleftrightarrow> confirmed"
| "sequencer_schema (Rebase oid) \<longleftrightarrow> isObjectName oid"
| "sequencer_schema ContinueRebase \<longleftrightarrow> True"
| "sequencer_schema (AbortRebase confirmed) \<longleftrightarrow> confirmed"
| "sequencer_schema (DropCommit oid confirmed) \<longleftrightarrow> isObjectName oid \<and> confirmed"

primrec staging_schema :: "staging_operation \<Rightarrow> bool" where
  "staging_schema (StagePaths ids tokens) \<longleftrightarrow> id_array ''path'' ids \<and> id_array ''pt'' tokens"
| "staging_schema (UnstagePaths ids) \<longleftrightarrow> id_array ''path'' ids"
| "staging_schema (DiscardTrackedPaths ids tokens confirmed) \<longleftrightarrow>
     id_array ''path'' ids \<and> id_array ''pt'' tokens \<and> confirmed"
| "staging_schema (CommitOp m) \<longleftrightarrow> commitMessageSchema m"
| "staging_schema (AmendCommit m confirmed) \<longleftrightarrow> nullable commitMessageSchema m \<and> confirmed"
| "staging_schema (RevertCommit oid) \<longleftrightarrow> isObjectName oid"
| "staging_schema (ResetBranch oid soft) \<longleftrightarrow> isObjectName oid"
| "staging_schema (SquashCommit m) \<longleftrightarrow> nullable commitMessageSchema m"

primrec operation_schema :: "operation \<Rightarrow> bool" where
  "operation_schema (RepositoryOp op') = repository_schema op'"
| "operation_schema (StashTagOp op') = stash_tag_schema op'"
| "operation_schema (WorktreeOp op') = worktree_schema op'"
| "operation_schema (SequencerOp op') = sequencer_schema op'"
| "operation_schema (StagingOp op') = staging_schema op'"

section \<open>Targets\<close>

datatype target_kind = WorkspaceKind | RepositoryKind | WorktreeKind

fun kind_of_target :: "mutation_target \<Rightarrow> target_kind" where
  "kind_of_target (WorkspaceTarget _ _) = WorkspaceKind"
| "kind_of_target (RepositoryTarget _ _) = RepositoryKind"
| "kind_of_target (WorktreeTarget _ _ _) = WorktreeKind"

definition repository_target :: "repository_operation \<Rightarrow> target_kind" where
  "repository_target op' = (case op' of
     InitRepository _ \<Rightarrow> WorkspaceKind | CloneRepository _ _ _ \<Rightarrow> WorkspaceKind
   | SwitchBranch _ \<Rightarrow> WorktreeKind | Pull _ \<Rightarrow> WorktreeKind
   | _ \<Rightarrow> RepositoryKind)"

definition stash_tag_target :: "stash_tag_operation \<Rightarrow> target_kind" where
  "stash_tag_target op' = (case op' of
     CreateStash _ _ _ \<Rightarrow> WorktreeKind | ApplyStash _ _ _ \<Rightarrow> WorktreeKind | PopStash _ _ _ _ \<Rightarrow> WorktreeKind
   | _ \<Rightarrow> RepositoryKind)"

definition worktree_target :: "worktree_operation \<Rightarrow> target_kind" where
  "worktree_target op' = (case op' of
     AddSubmodule _ _ _ _ \<Rightarrow> WorktreeKind | UpdateSubmodule _ _ _ \<Rightarrow> WorktreeKind | SyncSubmodule _ _ \<Rightarrow> WorktreeKind
   | _ \<Rightarrow> RepositoryKind)"

primrec targetKindOf :: "operation \<Rightarrow> target_kind" where
  "targetKindOf (RepositoryOp op') = repository_target op'"
| "targetKindOf (StashTagOp op') = stash_tag_target op'"
| "targetKindOf (WorktreeOp op') = worktree_target op'"
| "targetKindOf (SequencerOp op') = WorktreeKind"
| "targetKindOf (StagingOp op') = WorktreeKind"

section \<open>The rules\<close>

definition when_some :: "'a option \<Rightarrow> ('a \<Rightarrow> 'b list) \<Rightarrow> 'b list" where
  "when_some v f = (case v of None \<Rightarrow> [] | Some x \<Rightarrow> f x)"

lemma when_some_simps [simp]: "when_some None f = []" "when_some (Some x) f = f x"
  by (simp_all add: when_some_def)

fun reference_problems :: "zod_issues \<Rightarrow> worktree_reference \<Rightarrow> validation_problem list" where
  "reference_problems zod (ExistingBranch b) = validateBranchName zod b (str ''operation.reference.branchName'')"
| "reference_problems zod (NewBranch b oid) = validateBranchName zod b (str ''operation.reference.branchName'')"
| "reference_problems zod (Detached oid) = []"

primrec repository_problems :: "zod_issues \<Rightarrow> repository_operation \<Rightarrow> mutation_target \<Rightarrow> validation_problem list" where
  "repository_problems zod (InitRepository b) target =
     when_some b (\<lambda>s. validateBranchName zod s (str ''operation.initialBranch''))"
| "repository_problems zod (CloneRepository url dest sub) target =
     validateRemoteUrl zod url (str ''operation.remoteUrl'')
     @ validateRelativeDestination zod dest (str ''operation.relativeDestination'')
     @ (if kind_of_target target \<noteq> WorkspaceKind
        then [vproblem (str ''cloneRepository must address a workspace target'') (str ''target'')] else [])"
| "repository_problems zod (CreateBranch b oid sw) target = validateBranchName zod b (str ''operation.branchName'')"
| "repository_problems zod (SwitchBranch b) target = validateBranchName zod b (str ''operation.branchName'')"
| "repository_problems zod (DeleteBranch b c) target = validateBranchName zod b (str ''operation.branchName'')"
| "repository_problems zod (RenameBranch b n) target =
     validateBranchName zod b (str ''operation.branchName'') @ validateBranchName zod n (str ''operation.newName'')
     @ (if b = n then [vproblem (str ''newName must differ from the current branch name'') (str ''operation.newName'')] else [])"
| "repository_problems zod (SetBranchUpstream b u) target =
     validateBranchName zod b (str ''operation.branchName'')
     @ when_some u (\<lambda>(r, n). validateRemoteName zod r (str ''operation.upstream.remoteName'')
         @ validateBranchName zod n (str ''operation.upstream.branchName''))"
| "repository_problems zod (AddRemote r u p) target =
     validateRemoteName zod r (str ''operation.remoteName'') @ validateRemoteUrl zod u (str ''operation.fetchUrl'')
     @ when_some p (\<lambda>s. validateRemoteUrl zod s (str ''operation.pushUrl''))"
| "repository_problems zod (UpdateRemote r n u p) target =
     validateRemoteName zod r (str ''operation.remoteName'')
     @ (if n = None \<and> u = None \<and> p = None
        then [vproblem (str ''at least one change is required: newName, fetchUrl, or pushUrl'') (str ''operation'')] else [])
     @ when_some n (\<lambda>s. validateRemoteName zod s (str ''operation.newName''))
     @ when_some u (\<lambda>s. validateRemoteUrl zod s (str ''operation.fetchUrl''))
     @ when_some p (\<lambda>s. validateRemoteUrl zod s (str ''operation.pushUrl''))"
| "repository_problems zod (RemoveRemote r c) target = validateRemoteName zod r (str ''operation.remoteName'')"
| "repository_problems zod (Fetch r prune noTags) target = validateRemoteName zod r (str ''operation.remoteName'')"
| "repository_problems zod (Push r s d up) target =
     validateRemoteName zod r (str ''operation.remoteName'') @ validateFullRefName zod s (str ''operation.sourceRef'')
     @ validateFullRefName zod d (str ''operation.destinationRef'')"
| "repository_problems zod (Pull r) target = validateRemoteName zod r (str ''operation.remoteName'')"

primrec stash_tag_problems :: "zod_issues \<Rightarrow> stash_tag_operation \<Rightarrow> mutation_target \<Rightarrow> validation_problem list" where
  "stash_tag_problems zod (CreateStash m u k) target =
     when_some m (\<lambda>s. validateCommitMessage zod s (str ''operation.message''))"
| "stash_tag_problems zod (ApplyStash oid locator i) target =
     validateStashRef zod oid locator (str ''operation.stash'')"
| "stash_tag_problems zod (PopStash oid locator i c) target =
     validateStashRef zod oid locator (str ''operation.stash'')"
| "stash_tag_problems zod (DropStash oid locator c) target =
     validateStashRef zod oid locator (str ''operation.stash'')"
| "stash_tag_problems zod (CreateTag t oid a) target =
     validateTagName zod t (str ''operation.tagName'')
     @ when_some a (\<lambda>s. validateCommitMessage zod s (str ''operation.annotation.message''))"
| "stash_tag_problems zod (DeleteTag t c) target = validateTagName zod t (str ''operation.tagName'')"
| "stash_tag_problems zod (PushTag r t) target =
     validateRemoteName zod r (str ''operation.remoteName'') @ validateTagName zod t (str ''operation.tagName'')"

primrec worktree_problems :: "zod_issues \<Rightarrow> worktree_operation \<Rightarrow> mutation_target \<Rightarrow> validation_problem list" where
  "worktree_problems zod (UpdateSubmodule ids i r) target = validatePlainPathIds ids (str ''operation'')"
| "worktree_problems zod (SyncSubmodule ids r) target = validatePlainPathIds ids (str ''operation'')"
| "worktree_problems zod (CreateWorktree dest ref) target =
     validateRelativeDestination zod dest (str ''operation.relativeDestination'') @ reference_problems zod ref"
| "worktree_problems zod (AddSubmodule url path b i) target =
     validateRemoteUrl zod url (str ''operation.remoteUrl'')
     @ validateRelativeDestination zod path (str ''operation.relativePath'')
     @ when_some b (\<lambda>s. validateBranchName zod s (str ''operation.branchName''))"
| "worktree_problems zod (RemoveWorktree w c) target = []"
| "worktree_problems zod (LockWorktree w reason) target = []"
| "worktree_problems zod (UnlockWorktree w) target = []"

primrec sequencer_problems :: "zod_issues \<Rightarrow> sequencer_operation \<Rightarrow> mutation_target \<Rightarrow> validation_problem list" where
  "sequencer_problems zod (Merge oid noFf m) target =
     when_some m (\<lambda>s. validateCommitMessage zod s (str ''operation.message''))"
| "sequencer_problems zod (ContinueMerge m) target =
     when_some m (\<lambda>s. validateCommitMessage zod s (str ''operation.message''))"
| "sequencer_problems zod (AbortMerge c) target = []"
| "sequencer_problems zod (CherryPick oid) target = []"
| "sequencer_problems zod ContinueCherryPick target = []"
| "sequencer_problems zod (AbortCherryPick c) target = []"
| "sequencer_problems zod (Rebase oid) target = []"
| "sequencer_problems zod ContinueRebase target = []"
| "sequencer_problems zod (AbortRebase c) target = []"
| "sequencer_problems zod (DropCommit oid c) target = []"

primrec staging_problems :: "zod_issues \<Rightarrow> staging_operation \<Rightarrow> mutation_target \<Rightarrow> validation_problem list" where
  "staging_problems zod (StagePaths ids tokens) target = validatePathSelection ids tokens (str ''operation'')"
| "staging_problems zod (DiscardTrackedPaths ids tokens c) target =
     validatePathSelection ids tokens (str ''operation'')"
| "staging_problems zod (UnstagePaths ids) target = validatePlainPathIds ids (str ''operation'')"
| "staging_problems zod (CommitOp m) target = validateCommitMessage zod m (str ''operation.message'')"
| "staging_problems zod (AmendCommit m c) target =
     when_some m (\<lambda>s. validateCommitMessage zod s (str ''operation.message''))"
| "staging_problems zod (RevertCommit oid) target = []"
| "staging_problems zod (ResetBranch oid soft) target = []"
| "staging_problems zod (SquashCommit m) target = []"

primrec validateOperationSemantics :: "zod_issues \<Rightarrow> operation \<Rightarrow> mutation_target \<Rightarrow> validation_problem list" where
  "validateOperationSemantics zod (RepositoryOp op') target = repository_problems zod op' target"
| "validateOperationSemantics zod (StashTagOp op') target = stash_tag_problems zod op' target"
| "validateOperationSemantics zod (WorktreeOp op') target = worktree_problems zod op' target"
| "validateOperationSemantics zod (SequencerOp op') target = sequencer_problems zod op' target"
| "validateOperationSemantics zod (StagingOp op') target = staging_problems zod op' target"

definition target_problems :: "zod_issues \<Rightarrow> mutation_target \<Rightarrow> validation_problem list" where
  "target_problems zod target = (case target of
     WorkspaceTarget _ d \<Rightarrow> validateRelativeDestination zod d (str ''target.relativeDestination'')
   | _ \<Rightarrow> [])"

definition accepted :: "zod_issues \<Rightarrow> operation \<Rightarrow> mutation_target \<Rightarrow> bool" where
  "accepted zod op' target \<longleftrightarrow>
     operation_schema op' \<and> kind_of_target target = targetKindOf op' \<and>
     target_problems zod target @ validateOperationSemantics zod op' target = []"

end
