(* ===== verification/GitFacts.thy ===== *)
theory GitFacts
  imports Plans Names Reader JsMap
begin

text \<open>
  The answers of Git the workflows read: the Head of \<^verbatim>\<open>workflows/status.ts\<close>, the index listing of
  \<^verbatim>\<open>parse/ls-files.ts\<close>, the remotes and the configuration of \<^verbatim>\<open>parse/meta.ts\<close>, the submodule URLs of
  \<^verbatim>\<open>workflows/repository.ts\<close>, and the porcelain of fetch and push of \<^verbatim>\<open>parse/network.ts\<close>, all of
  \<^verbatim>\<open>packages/git-core/src\<close>.
\<close>

section \<open>The Head\<close>

record head_facts =
  hf_born :: bool
  hf_branchName :: "jsstring option"
  hf_oid :: "jsstring option"
  hf_detached :: bool

definition decodeAsciiText :: "byte list \<Rightarrow> string \<Rightarrow> jsstring prog" where
  "decodeAsciiText bytes fmt =
     (if is_ascii bytes then ret (latin1 bytes)
      else throwP (WorkflowError \<lparr>we_code = ''GitOutputUnparsable'', we_exitCode = None, we_command = fmt,
        we_diagnostic = [], we_message = str (fmt @ '': unexpected non-ASCII byte in an ASCII field'')\<rparr>))"

definition decode_oid :: "byte list option \<Rightarrow> jsstring option prog" where
  "decode_oid oid = (case oid of None \<Rightarrow> ret None
     | Some b \<Rightarrow> bindP (decodeAsciiText b ''rev-parse HEAD'') (\<lambda>t. ret (Some (js_trim t))))"

definition readHeadFacts :: "jsstring \<Rightarrow> head_facts prog" where
  "readHeadFacts cwd =
     bindP (runMeaningfulExit (planHeadRef cwd) [1]) (\<lambda>branchRef.
     case branchRef of
       None \<Rightarrow>
         bindP (runMeaningfulExit (planHeadOid cwd) [1]) (\<lambda>oid.
         bindP (decode_oid oid) (\<lambda>o'.
         ret \<lparr>hf_born = (oid \<noteq> None), hf_branchName = None, hf_oid = o', hf_detached = True\<rparr>))
     | Some ref \<Rightarrow>
         bindP (decodeAsciiText ref ''symbolic-ref HEAD'') (\<lambda>text.
         let name = js_trim text in
         bindP (runMeaningfulExit (planHeadOid cwd) [1]) (\<lambda>oid.
         bindP (decode_oid oid) (\<lambda>o'.
         ret \<lparr>hf_born = (oid \<noteq> None),
              hf_branchName = Some (if startsWith name (str ''refs/heads/'') then drop 11 name else name),
              hf_oid = o', hf_detached = False\<rparr>))))"

section \<open>The index listing\<close>

record index_line =
  ix_mode :: jsstring
  ix_oid :: jsstring
  ix_stage :: nat
  ix_path :: "byte list"
  ix_gitlink :: bool

definition LS_FILES_FORMAT :: string where "LS_FILES_FORMAT = ''ls-files --stage -z''"
definition refListMaxEntries :: nat where "refListMaxEntries = 5000"

definition ls_error :: "string \<Rightarrow> nat option \<Rightarrow> js_error" where
  "ls_error m offset = GitOutputParseError LS_FILES_FORMAT m offset"

definition octal :: "code_unit \<Rightarrow> bool" where
  "octal c \<longleftrightarrow> 0x30 \<le> c \<and> c \<le> 0x37"

definition parse_index_line :: "byte list \<Rightarrow> js_error + index_line" where
  "parse_index_line frame =
     bindE (takeField (newReader frame LS_FILES_FORMAT 0 (length frame))) (\<lambda>(mode, r).
     bindE (expectSpace r) (\<lambda>(_, r).
     bindE (takeOid r) (\<lambda>(oid, r).
     bindE (expectSpace r) (\<lambda>(_, r).
     bindE (takeFixedString 1 r) (\<lambda>(stageField, r).
     bindE (takeBytes 1 r) (\<lambda>(tab, r).
     if tab \<noteq> [0x09] then Inl (ls_error ''expected a tab before the path'' (Some (rd_offset r - 1)))
     else bindE (takeRest r) (\<lambda>(path, r).
     if path = [] then Inl (ls_error ''index entry has an empty path'' None)
     else if \<not> (length mode = 6 \<and> list_all octal mode) then Inl (ls_error ''unexpected file mode'' None)
     else if \<not> (case stageField of [c] \<Rightarrow> 0x30 \<le> c \<and> c \<le> 0x33 | _ \<Rightarrow> False)
     then Inl (ls_error ''unexpected stage'' None)
     else Inr \<lparr>ix_mode = mode, ix_oid = oid, ix_stage = digits_value stageField, ix_path = path,
               ix_gitlink = (mode = str ''160000'')\<rparr>)))))))"

fun ls_loop :: "nat \<Rightarrow> byte list list \<Rightarrow> index_line list \<Rightarrow> js_error + index_line list" where
  "ls_loop maxEntries [] entries = Inr entries"
| "ls_loop maxEntries (frame # frames) entries =
     (if frame = [] then ls_loop maxEntries frames entries
      else if maxEntries \<le> length entries then Inl (ls_error ''index listing exceeded the limit of entries'' None)
      else bindE (parse_index_line frame) (\<lambda>e. ls_loop maxEntries frames (entries @ [e])))"

definition parseLsFilesStage :: "byte list \<Rightarrow> js_error + index_line list" where
  "parseLsFilesStage bytes =
     bindE (splitNulFrames bytes LS_FILES_FORMAT True) (\<lambda>frames. ls_loop refListMaxEntries frames [])"

text \<open>Two hexadecimal digits a byte: the key of a raw path.\<close>

definition pathKey :: "byte list \<Rightarrow> jsstring" where
  "pathKey bytes = concat (map (\<lambda>b. [hex_digit (unat b div 16), hex_digit (unat b mod 16)]) bytes)"

definition countConflictedPaths :: "jsstring \<Rightarrow> nat prog" where
  "countConflictedPaths cwd =
     bindP (runGit (planLsFilesUnmerged cwd)) (\<lambda>r.
     if \<not> exit_zero r then ret 0
     else bindP (liftE (parseLsFilesStage (gr_stdout r))) (\<lambda>entries.
       ret (length (remdups (map (\<lambda>e. pathKey (ix_path e)) entries)))))"

section \<open>Remotes and configuration\<close>

record remote_url =
  ru_name :: jsstring
  ru_url :: jsstring
  ru_push :: bool

definition decode_ascii_or :: "string \<Rightarrow> byte list \<Rightarrow> js_error + jsstring" where
  "decode_ascii_or fmt bytes =
     (if is_ascii bytes then Inr (latin1 bytes) else Inl (GitOutputParseError fmt ''unexpected non-ASCII byte'' None))"

definition parse_remote_line :: "byte list \<Rightarrow> js_error + remote_url" where
  "parse_remote_line line =
     (case indexOf line 0x09 of
        Some (Suc i) \<Rightarrow>
          bindE (decode_ascii_or ''remote -v'' (take (Suc i) line)) (\<lambda>name.
          let tail = drop (Suc (Suc i)) line in
          if endsWith tail (asc '' (fetch)'')
          then Inr \<lparr>ru_name = name, ru_url = latin1 (take (length tail - 8) tail), ru_push = False\<rparr>
          else if endsWith tail (asc '' (push)'')
          then Inr \<lparr>ru_name = name, ru_url = latin1 (take (length tail - 7) tail), ru_push = True\<rparr>
          else Inl (GitOutputParseError ''remote -v'' ''a remote line did not end with (fetch) or (push)'' None))
      | _ \<Rightarrow> Inl (GitOutputParseError ''remote -v'' ''expected <name> <url> (<kind>) per line'' None))"

definition parseRemoteList :: "byte list \<Rightarrow> js_error + remote_url list" where
  "parseRemoteList bytes = mapE parse_remote_line (filter (\<lambda>l. l \<noteq> []) (splitOnByte 0x0a bytes))"

record config_entry =
  ce_key :: jsstring
  ce_value :: "byte list"

definition parse_config_record :: "byte list \<Rightarrow> js_error + config_entry" where
  "parse_config_record frame =
     (case indexOf frame 0x0a of
        Some (Suc i) \<Rightarrow> bindE (decode_ascii_or ''config -z'' (take (Suc i) frame)) (\<lambda>key.
          Inr \<lparr>ce_key = key, ce_value = drop (Suc (Suc i)) frame\<rparr>)
      | _ \<Rightarrow> Inl (GitOutputParseError ''config -z'' ''expected <key> and <value> per record'' None))"

definition parseConfigEntries :: "byte list \<Rightarrow> js_error + config_entry list" where
  "parseConfigEntries bytes =
     bindE (splitNulFrames bytes ''config -z'' True) (\<lambda>frames.
       mapE parse_config_record (filter (\<lambda>f. f \<noteq> []) frames))"

section \<open>Submodules\<close>

record submodule_config =
  sm_name :: jsstring
  sm_path :: jsstring
  sm_url :: jsstring
  sm_branch :: "jsstring option"

datatype submodule_field = SubmodulePath | SubmoduleUrl | SubmoduleBranch

definition line_break :: "code_unit \<Rightarrow> bool" where
  "line_break c \<longleftrightarrow> c = 0x0a \<or> c = 0x0d \<or> c = 0x2028 \<or> c = 0x2029"

text \<open>\<^verbatim>\<open>submodule.<name>.<key>\<close>: the key is the last of the three words, the name what stands between.\<close>

definition submodule_match :: "string \<Rightarrow> jsstring \<Rightarrow> jsstring option" where
  "submodule_match ending key =
     (let name = take (length key - 10 - length ending) (drop 10 key)
      in if startsWith key (str ''submodule.'') \<and> endsWith key (str ending) \<and>
            10 + length ending < length key \<and> \<not> list_ex line_break name
         then Some name else None)"

definition submodule_key :: "jsstring \<Rightarrow> (jsstring \<times> submodule_field) option" where
  "submodule_key key =
     (case submodule_match ''.path'' key of
        Some n \<Rightarrow> Some (n, SubmodulePath)
      | None \<Rightarrow> (case submodule_match ''.url'' key of
          Some n \<Rightarrow> Some (n, SubmoduleUrl)
        | None \<Rightarrow> map_option (\<lambda>n. (n, SubmoduleBranch)) (submodule_match ''.branch'' key)))"

fun submodule_set :: "submodule_field \<Rightarrow> jsstring \<Rightarrow> submodule_config \<Rightarrow> submodule_config" where
  "submodule_set SubmodulePath v c = c\<lparr>sm_path := v\<rparr>"
| "submodule_set SubmoduleUrl v c = c\<lparr>sm_url := v\<rparr>"
| "submodule_set SubmoduleBranch v c = c\<lparr>sm_branch := Some v\<rparr>"

definition add_submodule_entry ::
  "config_entry \<Rightarrow> (jsstring \<times> submodule_config) list \<Rightarrow> (jsstring \<times> submodule_config) list" where
  "add_submodule_entry e byName =
     (case submodule_key (ce_key e) of
        None \<Rightarrow> byName
      | Some (name, k) \<Rightarrow>
          AList.update name
            (submodule_set k (latin1 (ce_value e))
              (case map_of byName name of
                 Some c \<Rightarrow> c | None \<Rightarrow> \<lparr>sm_name = name, sm_path = [], sm_url = [], sm_branch = None\<rparr>)) byName)"

definition submodulesFromConfig :: "config_entry list \<Rightarrow> submodule_config list" where
  "submodulesFromConfig entries =
     filter (\<lambda>c. sm_path c \<noteq> [] \<or> sm_url c \<noteq> []) (map snd (fold add_submodule_entry entries []))"

fun assertSafeSubmoduleUrls :: "submodule_config list \<Rightarrow> string \<Rightarrow> unit prog" where
  "assertSafeSubmoduleUrls [] command = ret ()"
| "assertSafeSubmoduleUrls (c # cs) command =
     (if sm_url c = [] then assertSafeSubmoduleUrls cs command
      else (case unsafeRemoteUrlReason (sm_url c) of
          None \<Rightarrow> assertSafeSubmoduleUrls cs command
        | Some reason \<Rightarrow> throwP (WorkflowError
            \<lparr>we_code = ''GitCommandFailed'', we_exitCode = None, we_command = command, we_diagnostic = [],
             we_message = str ''submodule '' @ sm_name c @ str ('' has an unsafe configured URL: '' @ reason)\<rparr>)))"

definition assertSafeSubmoduleConfig :: "jsstring \<Rightarrow> unit prog" where
  "assertSafeSubmoduleConfig cwd =
     bindP (runMeaningfulExit (planSubmoduleConfig cwd) [1]) (\<lambda>bytes.
     case bytes of
       None \<Rightarrow> ret ()
     | Some b \<Rightarrow>
         bindP (catchP (bindP (liftE (parseConfigEntries b)) (\<lambda>es. ret (submodulesFromConfig es)))
                  (\<lambda>e. throwP (parseFailure (gc_description (planSubmoduleConfig cwd)) e)))
           (\<lambda>configured. assertSafeSubmoduleUrls configured (gc_description (planSubmoduleConfig cwd))))"

end
