(* ===== verification/NetworkOutput.thy ===== *)
theory NetworkOutput
  imports GitRun Names
begin

text \<open>
  The parsers of \<^verbatim>\<open>git push --porcelain\<close> and \<^verbatim>\<open>git fetch --porcelain\<close>:
  \<^verbatim>\<open>packages/git-core/src/parse/network.ts\<close>. Both read line by line; \<open>decode_utf8\<close> is the private decoder
  \<^verbatim>\<open>decode\<close>, which checks neither the continuation bytes nor the range of what it decoded, so that
  \<^verbatim>\<open>String.fromCodePoint\<close> can throw.
\<close>

unbundle bit_operations_syntax

section \<open>Decoding\<close>

type_synonym code_point = "32 word"

definition fromCodePoint :: "code_point \<Rightarrow> js_error + jsstring" where
  "fromCodePoint cp =
     (if 0x10ffff < cp then Inl RangeError
      else if cp < 0x10000 then Inr [ucast cp]
      else Inr [ucast (0xd800 + drop_bit 10 (cp - 0x10000)), ucast (0xdc00 + ((cp - 0x10000) AND 0x3ff))])"

text \<open>The lead byte: how many bytes follow, and the bits it holds; \<open>None\<close> for a byte that leads nothing.\<close>

definition lead :: "byte \<Rightarrow> (nat \<times> code_point) option" where
  "lead b =
     (if b AND 0xe0 = 0xc0 then Some (1, ucast (b AND 0x1f))
      else if b AND 0xf0 = 0xe0 then Some (2, ucast (b AND 0x0f))
      else if b AND 0xf8 = 0xf0 then Some (3, ucast (b AND 0x07))
      else None)"

definition continue_with :: "code_point \<Rightarrow> byte list \<Rightarrow> code_point" where
  "continue_with cp bs = foldl (\<lambda>c b. push_bit 6 c OR ucast (b AND 0x3f)) cp bs"

function decode_utf8 :: "byte list \<Rightarrow> js_error + jsstring" where
  "decode_utf8 [] = Inr []"
| "decode_utf8 (b # bs) =
     (if b < 0x80 then bindE (decode_utf8 bs) (\<lambda>t. Inr (fromCharCode b # t))
      else (case lead b of
          None \<Rightarrow> bindE (decode_utf8 bs) (\<lambda>t. Inr (0xfffd # t))
        | Some (needed, cp) \<Rightarrow>
            if length bs < needed then Inr [0xfffd]
            else bindE (fromCodePoint (continue_with cp (take needed bs))) (\<lambda>u.
                 bindE (decode_utf8 (drop needed bs)) (\<lambda>t. Inr (u @ t)))))"
  by pat_completeness auto
termination
  by (relation "measure length") auto

section \<open>Push\<close>

datatype push_status = UpToDate | NewRef | FastForward | Forced | Deleted | Rejected

record push_ref =
  pf_from :: jsstring
  pf_to :: jsstring
  pf_status :: push_status
  pf_summary :: jsstring

record push_result =
  ps_remote :: "jsstring option"
  ps_refs :: "push_ref list"
  ps_everythingUpToDate :: bool
  ps_diagnostics :: "jsstring list"

definition push_error :: "string \<Rightarrow> js_error" where
  "push_error m = GitOutputParseError ''push --porcelain'' m None"

definition splitOnce :: "jsstring \<Rightarrow> code_unit \<Rightarrow> jsstring \<times> jsstring" where
  "splitOnce v c = (case indexOf v c of None \<Rightarrow> (v, []) | Some i \<Rightarrow> (take i v, drop (i + 1) v))"

definition pushStatusFromFlag :: "code_unit \<Rightarrow> jsstring \<Rightarrow> js_error + push_status" where
  "pushStatusFromFlag flag summary =
     (if startsWith summary (str ''[rejected]'') then Inr Rejected
      else if flag = 0x20 then Inr FastForward
      else if flag = 0x2b then Inr Forced
      else if flag = 0x2d then Inr Deleted
      else if flag = 0x2a then Inr NewRef
      else if flag = 0x3d then Inr UpToDate
      else if flag = 0x21 then Inr Rejected
      else Inl (push_error ''unknown push status flag''))"

definition push_line :: "jsstring \<Rightarrow> push_result \<Rightarrow> js_error + push_result" where
  "push_line line s =
     (if line = [] then Inr s
      else if startsWith line (str ''To '') then Inr (s\<lparr>ps_remote := Some (drop 3 line)\<rparr>)
      else if line = str ''Done'' then Inr s
      else if startsWith line (str ''Everything up-to-date'') then Inr (s\<lparr>ps_everythingUpToDate := True\<rparr>)
      else if 2 < length line \<and> line ! 1 = 0x09 then
        (let (refspec, summary) = splitOnce (drop 2 line) 0x09; (from', to') = splitOnce refspec 0x3a
         in if to' = [] then Inl (push_error ''ref line has no destination ref'')
            else bindE (pushStatusFromFlag (line ! 0) summary) (\<lambda>status.
              Inr (s\<lparr>ps_refs := ps_refs s @
                [\<lparr>pf_from = from', pf_to = to', pf_status = status, pf_summary = summary\<rparr>]\<rparr>)))
      else Inr (s\<lparr>ps_diagnostics := ps_diagnostics s @ [line]\<rparr>))"

fun push_lines :: "byte list list \<Rightarrow> push_result \<Rightarrow> js_error + push_result" where
  "push_lines [] s = Inr s"
| "push_lines (l # ls) s = bindE (decode_utf8 l) (\<lambda>line. bindE (push_line line s) (push_lines ls))"

definition parsePushPorcelain :: "byte list \<Rightarrow> js_error + push_result" where
  "parsePushPorcelain bytes =
     push_lines (splitOnByte 0x0a bytes)
       \<lparr>ps_remote = None, ps_refs = [], ps_everythingUpToDate = False, ps_diagnostics = []\<rparr>"

section \<open>Fetch\<close>

record fetch_ref =
  ff_flag :: code_unit
  ff_oldOid :: jsstring
  ff_newOid :: jsstring
  ff_localRef :: jsstring

record fetch_result =
  fs_refs :: "fetch_ref list"
  fs_diagnostics :: "jsstring list"

definition fetch_ref_of :: "jsstring \<Rightarrow> fetch_ref option" where
  "fetch_ref_of line =
     (if 2 < length line \<and> line ! 1 = 0x20 then
        (case splitOn 0x20 (drop 2 line) of
           [oldOid, newOid, localRef] \<Rightarrow>
             if isObjectName oldOid \<and> isObjectName newOid \<and> startsWith localRef (str ''refs/'')
             then Some \<lparr>ff_flag = line ! 0, ff_oldOid = oldOid, ff_newOid = newOid, ff_localRef = localRef\<rparr>
             else None
         | _ \<Rightarrow> None)
      else None)"

definition fetch_line :: "jsstring \<Rightarrow> fetch_result \<Rightarrow> fetch_result" where
  "fetch_line line s =
     (if line = [] then s
      else (case fetch_ref_of line of
          Some r \<Rightarrow> s\<lparr>fs_refs := fs_refs s @ [r]\<rparr>
        | None \<Rightarrow> s\<lparr>fs_diagnostics := fs_diagnostics s @ [line]\<rparr>))"

fun fetch_lines :: "byte list list \<Rightarrow> fetch_result \<Rightarrow> js_error + fetch_result" where
  "fetch_lines [] s = Inr s"
| "fetch_lines (l # ls) s = bindE (decode_utf8 l) (\<lambda>line. fetch_lines ls (fetch_line line s))"

definition parseFetchPorcelain :: "byte list \<Rightarrow> js_error + fetch_result" where
  "parseFetchPorcelain bytes = fetch_lines (splitOnByte 0x0a bytes) \<lparr>fs_refs = [], fs_diagnostics = []\<rparr>"

end
