(* ===== verification/Workflows.thy ===== *)
theory Workflows
  imports GitFacts NetworkOutput Status
begin

text \<open>
  The writing workflows of \<^verbatim>\<open>packages/git-core/src/workflows/\<close>: which commands an operation runs, in which
  order, and how their ends are told apart. Each workflow is the \<open>prog\<close> of the source function. The
  outcome unions of the files share their members, so there are few types here: \<open>command_outcome\<close> for
  the files that run one command, \<open>stop_outcome\<close> for the merge family, where \<open>Completed\<close> is the member
  that says the command did its work (\<^verbatim>\<open>merged\<close>, \<^verbatim>\<open>committed\<close>, \<^verbatim>\<open>aborted\<close>, \<^verbatim>\<open>reverted\<close>, \<^verbatim>\<open>reset\<close>, \<^verbatim>\<open>picked\<close>,
  \<^verbatim>\<open>rebased\<close>, \<^verbatim>\<open>dropped\<close>, \<^verbatim>\<open>squashed\<close>) and \<open>StopAborted\<close> the one that says a stop was undone
  (\<^verbatim>\<open>conflictAborted\<close>, \<^verbatim>\<open>emptyAborted\<close>, \<^verbatim>\<open>stopAborted\<close>).
\<close>

section \<open>Ends of a command\<close>

record command_refusal =
  cf_code :: string
  cf_exitCode :: "nat option"
  cf_diagnostic :: jsstring

fun failureCodeOf :: "git_termination \<Rightarrow> string" where
  "failureCodeOf TimedOut = ''GitTimedOut''"
| "failureCodeOf Signalled = ''GitTerminatedBySignal''"
| "failureCodeOf SpawnError = ''GitNotStarted''"
| "failureCodeOf OutputLimit = ''GitOutputLimitExceeded''"
| "failureCodeOf _ = ''GitCommandFailed''"

definition isUncertain :: "string \<Rightarrow> bool" where
  "isUncertain code \<longleftrightarrow>
     code = ''GitTimedOut'' \<or> code = ''GitTerminatedBySignal'' \<or> code = ''GitOutputLimitExceeded'' \<or>
     code = ''GitOutputIncomplete''"

definition refusal_of_result :: "git_result \<Rightarrow> command_refusal" where
  "refusal_of_result r = \<lparr>cf_code = failureCodeOf (gr_termination r), cf_exitCode = gr_exitCode r,
     cf_diagnostic = boundedDiagnostic (gr_stderr r)\<rparr>"

datatype command_outcome = CmdDone | CmdRefused command_refusal

text \<open>\<^verbatim>\<open>runSpec\<close>, \<^verbatim>\<open>runStageSpec\<close>, \<^verbatim>\<open>runSimple\<close>: a \<^verbatim>\<open>GitWorkflowError\<close> is a refusal, anything else goes on up.\<close>

definition refuse_workflow_error :: "failure \<Rightarrow> command_outcome prog" where
  "refuse_workflow_error e = (case e of
     WorkflowError w \<Rightarrow> ret (CmdRefused \<lparr>cf_code = we_code w, cf_exitCode = we_exitCode w, cf_diagnostic = we_diagnostic w\<rparr>)
   | OtherError j \<Rightarrow> throwP (OtherError j))"

definition runSpec :: "git_command \<Rightarrow> command_outcome prog" where
  "runSpec c = catchP (bindP (runRequired c) (\<lambda>_. ret CmdDone)) refuse_workflow_error"

definition runPlanned :: "js_error + git_command \<Rightarrow> command_outcome prog" where
  "runPlanned plan = bindP (liftE plan) runSpec"

text \<open>\<^verbatim>\<open>runQuiet\<close> of the remotes.\<close>

definition runQuiet :: "git_command \<Rightarrow> command_outcome prog" where
  "runQuiet c = bindP (runGit c) (\<lambda>r. ret (if exit_zero r then CmdDone else CmdRefused (refusal_of_result r)))"

section \<open>Branches, stages, discards\<close>

definition createBranch :: "jsstring \<Rightarrow> jsstring \<Rightarrow> jsstring option \<Rightarrow> bool \<Rightarrow> command_outcome prog" where
  "createBranch cwd name startOid switchToIt =
     runSpec (if switchToIt then planBranchCreateAndSwitch cwd name startOid else planBranchCreate cwd name startOid)"

definition switchBranch :: "jsstring \<Rightarrow> jsstring \<Rightarrow> command_outcome prog" where
  "switchBranch cwd name = runSpec (planBranchSwitch cwd name)"

definition renameBranch :: "jsstring \<Rightarrow> jsstring \<Rightarrow> jsstring \<Rightarrow> command_outcome prog" where
  "renameBranch cwd name newName = runSpec (planBranchRename cwd name newName)"

definition deleteBranch :: "jsstring \<Rightarrow> jsstring \<Rightarrow> command_outcome prog" where
  "deleteBranch cwd name = runSpec (planBranchDelete cwd name)"

definition setBranchUpstream :: "jsstring \<Rightarrow> jsstring \<Rightarrow> (jsstring \<times> jsstring) option \<Rightarrow> command_outcome prog" where
  "setBranchUpstream cwd branchName upstream = runSpec (planBranchSetUpstream cwd branchName upstream)"

definition stageSelectedPaths :: "jsstring \<Rightarrow> byte list list \<Rightarrow> command_outcome prog" where
  "stageSelectedPaths cwd paths = runPlanned (planStage cwd paths)"

definition unstageSelectedPaths :: "jsstring \<Rightarrow> byte list list \<Rightarrow> bool \<Rightarrow> command_outcome prog" where
  "unstageSelectedPaths cwd paths headBorn =
     runPlanned (if headBorn then planUnstage cwd paths else planUnstageUnborn cwd paths)"

definition restoreSelectedPaths :: "jsstring \<Rightarrow> byte list list \<Rightarrow> command_outcome prog" where
  "restoreSelectedPaths cwd paths = runPlanned (planRestoreWorktree cwd paths)"

text \<open>Which selected paths may be discarded: the first that may not decides.\<close>

record discard_refusal =
  dr_pathKey :: jsstring
  dr_reason :: string
  dr_detail :: string

definition by_key :: "status_record list \<Rightarrow> (jsstring \<times> status_record) list" where
  "by_key records = fold (\<lambda>r m.
     let m = AList.update (pathKey (sr_path r)) r m
     in (case sr_originalPath r of None \<Rightarrow> m | Some p \<Rightarrow> AList.update (pathKey p) r m)) records []"

definition discard_reason :: "status_record option \<Rightarrow> (string \<times> string) option" where
  "discard_reason r' = (case r' of
     None \<Rightarrow> Some (''unchanged'', ''the path is not reported as changed, so there is nothing to discard'')
   | Some r \<Rightarrow>
       if sr_kind r = Untracked then Some (''untracked'', ''untracked files are never discarded or cleaned by this service'')
       else if sr_kind r = Ignored then Some (''ignored'', ''ignored files are never removed by this service'')
       else if sr_kind r = Unmerged
       then Some (''unmerged'', ''a path with unresolved merge stages cannot be restored from the index'')
       else if sr_commitChanged r \<or> sr_modified r \<or> sr_untracked r
       then Some (''submodule'', ''submodule working trees are not discarded from the parent'')
       else if mode_worktree (sr_modes r) = Some (str ''120000'')
       then Some (''special-type'', ''the worktree entry is a symbolic link; restoring through it could write outside the worktree'')
       else if mode_worktree (sr_modes r) = Some (str ''160000'')
       then Some (''special-type'', ''the worktree entry is a submodule gitlink'')
       else None)"

fun first_discard_refusal :: "(jsstring \<times> status_record) list \<Rightarrow> byte list list \<Rightarrow> discard_refusal option" where
  "first_discard_refusal m [] = None"
| "first_discard_refusal m (p # ps) =
     (case discard_reason (map_of m (pathKey p)) of
        Some (reason, detail) \<Rightarrow> Some \<lparr>dr_pathKey = pathKey p, dr_reason = reason, dr_detail = detail\<rparr>
      | None \<Rightarrow> first_discard_refusal m ps)"

definition selectDiscardablePaths :: "status_record list \<Rightarrow> byte list list \<Rightarrow> discard_refusal option" where
  "selectDiscardablePaths records selected = first_discard_refusal (by_key records) selected"

section \<open>Commits\<close>

datatype commit_outcome =
    Committed jsstring
  | CommittedWithComplaint jsstring "nat option" jsstring
  | NotCommitted command_refusal
  | CommitUncertain jsstring

fun termination_text :: "git_termination \<Rightarrow> string" where
  "termination_text Exited = ''exit''"
| "termination_text Signalled = ''signal''"
| "termination_text TimedOut = ''timeout''"
| "termination_text OutputLimit = ''output-limit''"
| "termination_text SpawnError = ''spawn-error''"
| "termination_text UnknownEnd = ''unknown''"

definition not_committed :: "nat option \<Rightarrow> jsstring \<Rightarrow> commit_outcome" where
  "not_committed code diagnostic =
     NotCommitted \<lparr>cf_code = ''GitCommandFailed'', cf_exitCode = code, cf_diagnostic = diagnostic\<rparr>"

definition plan_of_commit :: "jsstring \<Rightarrow> byte list option \<Rightarrow> bool \<Rightarrow> js_error + git_command" where
  "plan_of_commit cwd message amend =
     (case message of None \<Rightarrow> planAmendCommit cwd None
      | Some m \<Rightarrow> if amend then planAmendCommit cwd (Some m) else planCommit cwd m)"

definition commit_result :: "bool \<Rightarrow> head_facts \<Rightarrow> git_result \<Rightarrow> head_facts option \<Rightarrow> commit_outcome" where
  "commit_result amend before r after' =
     (case after' of
        None \<Rightarrow> CommitUncertain (str ''the repository head could not be read after the commit command'')
      | Some after \<Rightarrow>
          (case hf_oid after of
             Some oid \<Rightarrow>
               if Some oid \<noteq> hf_oid before
               then (if exit_zero r then Committed oid
                     else CommittedWithComplaint oid (gr_exitCode r) (boundedDiagnostic (gr_stderr r)))
               else if exit_zero r
               then (if amend then Committed oid
                     else CommitUncertain (str ''git reported success but the head did not move''))
               else if gr_termination r \<noteq> Exited
               then CommitUncertain (str (''the commit command ended by '' @ termination_text (gr_termination r)
                      @ ''; whether it changed anything is not known''))
               else not_committed (gr_exitCode r) (boundedDiagnostic (gr_stderr r))
           | None \<Rightarrow>
               if exit_zero r then CommitUncertain (str ''git reported success but the head did not move'')
               else if gr_termination r \<noteq> Exited
               then CommitUncertain (str (''the commit command ended by '' @ termination_text (gr_termination r)
                      @ ''; whether it changed anything is not known''))
               else not_committed (gr_exitCode r) (boundedDiagnostic (gr_stderr r))))"

definition head_or_none :: "jsstring \<Rightarrow> head_facts option prog" where
  "head_or_none cwd = catchP (bindP (readHeadFacts cwd) (\<lambda>h. ret (Some h))) (\<lambda>_. ret None)"

definition commitIndex :: "jsstring \<Rightarrow> byte list option \<Rightarrow> bool \<Rightarrow> commit_outcome prog" where
  "commitIndex cwd message amend =
     bindP (readHeadFacts cwd) (\<lambda>before.
     if amend \<and> \<not> hf_born before then ret (not_committed None (str ''the branch has no commit to amend''))
     else if message = None \<and> \<not> amend then ret (not_committed None (str ''a commit requires a message''))
     else bindP (liftE (plan_of_commit cwd message amend)) (\<lambda>c.
          bindP (runGit c) (\<lambda>r.
          bindP (head_or_none cwd) (\<lambda>after'.
          ret (commit_result amend before r after')))))"

section \<open>Merges\<close>

datatype stop_outcome =
    Completed bool head_facts
  | MergeRefused jsstring
  | Conflicted nat jsstring
  | StopAborted jsstring
  | CommitFailed "nat option" jsstring
  | RefusedFirst jsstring
  | GitRefused command_refusal
  | UnknownOutcome string

definition in_progress :: "git_command \<Rightarrow> bool prog" where
  "in_progress probe = bindP (runGit probe) (\<lambda>r. ret (exit_zero r))"

definition mergeInProgress :: "jsstring \<Rightarrow> bool prog" where
  "mergeInProgress cwd = in_progress (planMergeInProgress cwd)"

definition revertInProgress :: "jsstring \<Rightarrow> bool prog" where
  "revertInProgress cwd = in_progress (planRevertInProgress cwd)"

definition cherryPickInProgress :: "jsstring \<Rightarrow> bool prog" where
  "cherryPickInProgress cwd = in_progress (planCherryPickInProgress cwd)"

definition rebaseInProgress :: "jsstring \<Rightarrow> bool prog" where
  "rebaseInProgress cwd = in_progress (planRebaseInProgress cwd)"

definition refuse_if :: "bool prog \<Rightarrow> string \<Rightarrow> stop_outcome prog \<Rightarrow> stop_outcome prog" where
  "refuse_if probe reason p = bindP probe (\<lambda>b. if b then ret (RefusedFirst (str reason)) else p)"

definition refuse_unless :: "bool prog \<Rightarrow> string \<Rightarrow> stop_outcome prog \<Rightarrow> stop_outcome prog" where
  "refuse_unless probe reason p = bindP probe (\<lambda>b. if b then p else ret (RefusedFirst (str reason)))"

definition completed :: "jsstring \<Rightarrow> stop_outcome prog" where
  "completed cwd = bindP (readHeadFacts cwd) (\<lambda>h. ret (Completed False h))"

text \<open>After a command that did not exit with zero: unknown, or told apart by what follows.\<close>

definition stopped :: "git_result \<Rightarrow> stop_outcome prog \<Rightarrow> stop_outcome prog" where
  "stopped r p =
     (if isUncertain (failureCodeOf (gr_termination r)) then ret (UnknownOutcome (failureCodeOf (gr_termination r))) else p)"

definition MERGE_OPEN :: string where
  "MERGE_OPEN = ''a merge is already in progress in this worktree; continue or abort it first''"
definition REVERT_OPEN :: string where
  "REVERT_OPEN = ''a revert is already in progress in this worktree; finish or abort it with git first''"
definition CHERRY_PICK_OPEN :: string where
  "CHERRY_PICK_OPEN = ''a cherry-pick is already in progress in this worktree; continue or abort it first''"
definition REBASE_OPEN :: string where
  "REBASE_OPEN = ''a rebase is already in progress in this worktree; continue or abort it first''"

definition mergeSource :: "jsstring \<Rightarrow> jsstring \<Rightarrow> bool \<Rightarrow> jsstring option \<Rightarrow> stop_outcome prog" where
  "mergeSource cwd sourceOid noFf message =
     bindP (readHeadFacts cwd) (\<lambda>before.
     if \<not> hf_born before
     then ret (RefusedFirst (str ''this repository has no commit yet, so there is nothing to merge into''))
     else refuse_if (mergeInProgress cwd) MERGE_OPEN (
     bindP (runGit (planResolveCommit cwd sourceOid)) (\<lambda>resolved.
     if \<not> exit_zero resolved
     then ret (RefusedFirst (str ''that merge source is not a commit in this repository; refresh the branch list and choose again''))
     else bindP (runGit (planMerge cwd sourceOid noFf message)) (\<lambda>r.
     if exit_zero r
     then bindP (readHeadFacts cwd) (\<lambda>after.
            ret (Completed (hf_oid before \<noteq> None \<and> hf_oid before = hf_oid after) after))
     else stopped r (
       bindP (mergeInProgress cwd) (\<lambda>stop.
       if stop then bindP (countConflictedPaths cwd) (\<lambda>n. ret (Conflicted n (boundedDiagnostic (gr_stderr r))))
       else ret (GitRefused (refusal_of_result r))))))))"

definition continueMerge :: "jsstring \<Rightarrow> jsstring option \<Rightarrow> stop_outcome prog" where
  "continueMerge cwd message =
     refuse_unless (mergeInProgress cwd) ''no merge is in progress in this worktree, so there is nothing to continue'' (
     bindP (runGit (planMergeContinue cwd message)) (\<lambda>r.
     if exit_zero r then completed cwd
     else stopped r (
       bindP (mergeInProgress cwd) (\<lambda>still.
       if \<not> still then completed cwd else ret (GitRefused (refusal_of_result r))))))"

definition abort_with :: "jsstring \<Rightarrow> git_command \<Rightarrow> stop_outcome prog" where
  "abort_with cwd c =
     bindP (runGit c) (\<lambda>r.
     if exit_zero r then completed cwd else stopped r (ret (GitRefused (refusal_of_result r))))"

definition abortMerge :: "jsstring \<Rightarrow> stop_outcome prog" where
  "abortMerge cwd =
     refuse_unless (mergeInProgress cwd) ''no merge is in progress in this worktree, so there is nothing to abort''
       (abort_with cwd (planMergeAbort cwd))"

section \<open>Reverts and resets\<close>

definition ASKS_FOR_PARENT :: jsstring where "ASKS_FOR_PARENT = str ''is a merge but no -m option''"

text \<open>A stop that is undone: the abort's own end decides between \<open>StopAborted\<close> and unknown.\<close>

definition undo_stop :: "git_command \<Rightarrow> git_result \<Rightarrow> stop_outcome prog" where
  "undo_stop c r =
     bindP (runGit c) (\<lambda>a.
     ret (if exit_zero a then StopAborted (boundedDiagnostic (gr_stderr r))
          else UnknownOutcome (failureCodeOf (gr_termination r))))"

definition revertCommit :: "jsstring \<Rightarrow> jsstring \<Rightarrow> stop_outcome prog" where
  "revertCommit cwd oid =
     refuse_if (mergeInProgress cwd) MERGE_OPEN (refuse_if (revertInProgress cwd) REVERT_OPEN (
     bindP (runGit (planRevertCommit cwd oid)) (\<lambda>r.
     if exit_zero r then completed cwd
     else stopped r (
       let diagnostic = boundedDiagnostic (gr_stderr r)
       in if js_includes diagnostic ASKS_FOR_PARENT then ret (MergeRefused diagnostic)
          else bindP (revertInProgress cwd) (\<lambda>stop.
               if stop then undo_stop (planRevertAbort cwd) r
               else ret (GitRefused (refusal_of_result r)))))))"

definition resetBranch :: "jsstring \<Rightarrow> jsstring \<Rightarrow> bool \<Rightarrow> stop_outcome prog" where
  "resetBranch cwd oid soft =
     refuse_if (mergeInProgress cwd) MERGE_OPEN (refuse_if (revertInProgress cwd) REVERT_OPEN (
     bindP (runGit (planResetBranch cwd oid soft)) (\<lambda>r.
     if exit_zero r then completed cwd
     else stopped r (ret (GitRefused (refusal_of_result r))))))"

section \<open>Cherry-picks\<close>

definition conflicts_or_undo :: "jsstring \<Rightarrow> git_command \<Rightarrow> git_result \<Rightarrow> stop_outcome prog" where
  "conflicts_or_undo cwd abort r =
     bindP (countConflictedPaths cwd) (\<lambda>n.
     if 0 < n then ret (Conflicted n (boundedDiagnostic (gr_stderr r))) else undo_stop abort r)"

definition cherryPick :: "jsstring \<Rightarrow> jsstring \<Rightarrow> stop_outcome prog" where
  "cherryPick cwd oid =
     refuse_if (mergeInProgress cwd) MERGE_OPEN (refuse_if (revertInProgress cwd) REVERT_OPEN (
     refuse_if (cherryPickInProgress cwd) CHERRY_PICK_OPEN (
     bindP (runGit (planCherryPick cwd oid)) (\<lambda>r.
     if exit_zero r then completed cwd
     else stopped r (
       let diagnostic = boundedDiagnostic (gr_stderr r)
       in if js_includes diagnostic ASKS_FOR_PARENT then ret (MergeRefused diagnostic)
          else bindP (cherryPickInProgress cwd) (\<lambda>stop.
               if stop then conflicts_or_undo cwd (planCherryPickAbort cwd) r
               else ret (GitRefused (refusal_of_result r))))))))"

text \<open>The continue step shared by cherry-picks and rebases.\<close>

definition continue_with_probe :: "jsstring \<Rightarrow> bool prog \<Rightarrow> git_command \<Rightarrow> stop_outcome prog" where
  "continue_with_probe cwd probe c =
     bindP (runGit c) (\<lambda>r.
     if exit_zero r then completed cwd
     else stopped r (
       bindP probe (\<lambda>still.
       if \<not> still then completed cwd
       else bindP (countConflictedPaths cwd) (\<lambda>n.
            ret (if 0 < n then Conflicted n [] else GitRefused (refusal_of_result r))))))"

definition continueCherryPick :: "jsstring \<Rightarrow> stop_outcome prog" where
  "continueCherryPick cwd =
     refuse_unless (cherryPickInProgress cwd)
       ''no cherry-pick is in progress in this worktree, so there is nothing to continue''
       (continue_with_probe cwd (cherryPickInProgress cwd) (planCherryPickContinue cwd))"

definition abortCherryPick :: "jsstring \<Rightarrow> stop_outcome prog" where
  "abortCherryPick cwd =
     refuse_unless (cherryPickInProgress cwd)
       ''no cherry-pick is in progress in this worktree, so there is nothing to abort''
       (abort_with cwd (planCherryPickAbort cwd))"

section \<open>Rebases and drops\<close>

text \<open>A rebase started by \<open>c\<close>: done, stopped with conflicts, stopped and undone, or refused.\<close>

definition rebase_with :: "jsstring \<Rightarrow> git_command \<Rightarrow> stop_outcome prog" where
  "rebase_with cwd c =
     bindP (runGit c) (\<lambda>r.
     if exit_zero r then completed cwd
     else stopped r (
       bindP (rebaseInProgress cwd) (\<lambda>stop.
       if stop then conflicts_or_undo cwd (planRebaseAbort cwd) r
       else ret (GitRefused (refusal_of_result r)))))"

definition rebase :: "jsstring \<Rightarrow> jsstring \<Rightarrow> stop_outcome prog" where
  "rebase cwd upstreamOid =
     refuse_if (mergeInProgress cwd) ''a merge is already in progress in this worktree; continue or abort it first'' (
     refuse_if (revertInProgress cwd) ''a revert is already in progress in this worktree; continue or abort it first'' (
     refuse_if (cherryPickInProgress cwd) ''a cherry-pick is already in progress in this worktree; continue or abort it first'' (
     refuse_if (rebaseInProgress cwd) REBASE_OPEN (
     rebase_with cwd (planRebase cwd upstreamOid)))))"

definition continueRebase :: "jsstring \<Rightarrow> stop_outcome prog" where
  "continueRebase cwd =
     refuse_unless (rebaseInProgress cwd)
       ''no rebase is in progress in this worktree, so there is nothing to continue''
       (continue_with_probe cwd (rebaseInProgress cwd) (planRebaseContinue cwd))"

definition abortRebase :: "jsstring \<Rightarrow> stop_outcome prog" where
  "abortRebase cwd =
     refuse_unless (rebaseInProgress cwd)
       ''no rebase is in progress in this worktree, so there is nothing to abort''
       (abort_with cwd (planRebaseAbort cwd))"

definition asciiTrimmed :: "byte list \<Rightarrow> jsstring" where
  "asciiTrimmed bytes = latin1 (filter (\<lambda>b. \<not> (b = 0x0a \<or> b = 0x0d \<or> b = 0x20 \<or> b = 0x09)) bytes)"

definition no_open_operation :: "jsstring \<Rightarrow> stop_outcome prog \<Rightarrow> stop_outcome prog" where
  "no_open_operation cwd p =
     refuse_if (mergeInProgress cwd) MERGE_OPEN (refuse_if (revertInProgress cwd) REVERT_OPEN (
     refuse_if (cherryPickInProgress cwd) CHERRY_PICK_OPEN (refuse_if (rebaseInProgress cwd) REBASE_OPEN p)))"

definition dropCommit :: "jsstring \<Rightarrow> jsstring \<Rightarrow> stop_outcome prog" where
  "dropCommit cwd oid = no_open_operation cwd (
     bindP (runGit (planDropCommitAncestry cwd oid)) (\<lambda>ancestry.
     if \<not> exit_zero ancestry
     then ret (RefusedFirst (str ''that commit is not on the checked-out branch, so it cannot be dropped from it''))
     else bindP (runGit (planDropCommitSecondParent cwd oid)) (\<lambda>secondParent.
     if exit_zero secondParent
     then ret (RefusedFirst (str ''that commit is a merge; dropping it is not a decision this build makes''))
     else bindP (runGit (planDropCommitParent cwd oid)) (\<lambda>parent.
     if \<not> exit_zero parent
     then ret (RefusedFirst (str ''that commit has no parent '' @ [0x2014] @
              str '' it is the branch'' @ [0x27] @ str ''s first commit, and dropping it would remove the branch'' @ [0x27] @ str ''s base''))
     else rebase_with cwd (planDropCommitRebase cwd oid (asciiTrimmed (gr_stdout parent)))))))"

definition emptyProbe :: "jsstring \<Rightarrow> git_command" where
  "emptyProbe cwd = plan_spec cwd ReadonlyClass ''diff HEAD^ HEAD'' (words [''diff'', ''--quiet'', ''HEAD^'', ''HEAD''])"

definition squashTopCommit :: "jsstring \<Rightarrow> byte list option \<Rightarrow> stop_outcome prog" where
  "squashTopCommit cwd message = no_open_operation cwd (
     bindP (readHeadFacts cwd) (\<lambda>head.
     if \<not> hf_born head
     then ret (RefusedFirst (str ''this branch has no commits yet, so there is nothing to squash''))
     else bindP (runGit (emptyProbe cwd)) (\<lambda>blank.
     if exit_zero blank
     then ret (RefusedFirst (str ''the top commit adds no changes over its parent, so there is nothing to squash''))
     else bindP (runGit (planSquashSoftReset cwd)) (\<lambda>reset.
     if \<not> exit_zero reset then stopped reset (ret (GitRefused (refusal_of_result reset)))
     else bindP (liftE (planAmendCommit cwd message)) (\<lambda>c.
          bindP (runGit c) (\<lambda>r.
          if exit_zero r then completed cwd
          else stopped r (ret (CommitFailed (gr_exitCode r) (boundedDiagnostic (gr_stderr r))))))))))"

section \<open>Stashes and tags\<close>

datatype locator_check = Matches | Moved "jsstring option" | Unresolvable

definition first_line :: "byte list \<Rightarrow> jsstring" where
  "first_line bytes = latin1 (takeWhile (\<lambda>b. b \<noteq> 0x0a \<and> b \<noteq> 0x0d) bytes)"

definition checkStashLocator :: "jsstring \<Rightarrow> jsstring \<Rightarrow> jsstring \<Rightarrow> locator_check prog" where
  "checkStashLocator cwd locator oid =
     bindP (runGit (planStashResolve cwd locator)) (\<lambda>r.
     if \<not> exit_zero r then ret Unresolvable
     else (let t = js_trim (first_line (gr_stdout r))
           in ret (if t = oid then Matches else Moved (if t = [] then None else Some t))))"

datatype pop_outcome = PopDone | PopConflict jsstring bool | PopRefused command_refusal

definition pop_code :: "git_termination \<Rightarrow> string" where
  "pop_code t = (if t = TimedOut then ''GitTimedOut'' else if t = Signalled then ''GitTerminatedBySignal'' else ''GitNotStarted'')"

definition popStash :: "jsstring \<Rightarrow> jsstring \<Rightarrow> jsstring \<Rightarrow> bool \<Rightarrow> pop_outcome prog" where
  "popStash cwd locator oid restoreIndex =
     bindP (runGit (planStashPop cwd locator restoreIndex)) (\<lambda>r.
     let diagnostic = boundedDiagnostic (gr_stderr r) in
     if exit_zero r then ret PopDone
     else if gr_termination r \<noteq> Exited
     then ret (PopRefused \<lparr>cf_code = pop_code (gr_termination r), cf_exitCode = gr_exitCode r, cf_diagnostic = diagnostic\<rparr>)
     else bindP (checkStashLocator cwd locator oid) (\<lambda>after.
          ret (PopConflict (if js_trim diagnostic \<noteq> [] then diagnostic else str ''the pop did not apply cleanly'')
                 (after = Matches))))"

definition createStash :: "jsstring \<Rightarrow> jsstring option \<Rightarrow> bool \<Rightarrow> bool \<Rightarrow> command_outcome prog" where
  "createStash cwd message includeUntracked keepIndex = runSpec (planStashPush cwd message includeUntracked keepIndex)"

definition applyStash :: "jsstring \<Rightarrow> jsstring \<Rightarrow> bool \<Rightarrow> command_outcome prog" where
  "applyStash cwd locator restoreIndex = runSpec (planStashApply cwd locator restoreIndex)"

definition dropStash :: "jsstring \<Rightarrow> jsstring \<Rightarrow> command_outcome prog" where
  "dropStash cwd locator = runSpec (planStashDrop cwd locator)"

datatype tag_outcome = TagCreated | TagExists | TagRefused command_refusal

definition createTag :: "jsstring \<Rightarrow> jsstring \<Rightarrow> jsstring option \<Rightarrow> byte list option \<Rightarrow> tag_outcome prog" where
  "createTag cwd name targetOid annotation =
     bindP (runGit (planTagExists cwd name)) (\<lambda>existing.
     if exit_zero existing then ret TagExists
     else if gr_termination existing \<noteq> Exited \<or> gr_exitCode existing \<noteq> Some 1
     then ret (TagRefused \<lparr>cf_code = ''GitCommandFailed'', cf_exitCode = gr_exitCode existing,
                 cf_diagnostic = boundedDiagnostic (gr_stderr existing)\<rparr>)
     else bindP (runPlanned (case annotation of
              None \<Rightarrow> Inr (planTagCreateLightweight cwd name targetOid)
            | Some m \<Rightarrow> planTagCreateAnnotated cwd name targetOid m))
          (\<lambda>out. ret (case out of CmdDone \<Rightarrow> TagCreated | CmdRefused f \<Rightarrow> TagRefused f)))"

definition deleteTag :: "jsstring \<Rightarrow> jsstring \<Rightarrow> command_outcome prog" where
  "deleteTag cwd name = runSpec (planTagDelete cwd name)"

section \<open>Worktrees and submodules\<close>

definition runChecked :: "unit prog \<Rightarrow> git_command \<Rightarrow> command_outcome prog" where
  "runChecked before c =
     catchP (bindP before (\<lambda>_. bindP (runRequired c) (\<lambda>_. ret CmdDone))) (\<lambda>e. case e of
       WorkflowError w \<Rightarrow> ret (CmdRefused \<lparr>cf_code = we_code w, cf_exitCode = we_exitCode w,
         cf_diagnostic = (if we_diagnostic w \<noteq> [] then we_diagnostic w else we_message w)\<rparr>)
     | OtherError j \<Rightarrow> throwP (OtherError j))"

definition addWorktree :: "jsstring \<Rightarrow> jsstring \<Rightarrow> worktree_reference \<Rightarrow> command_outcome prog" where
  "addWorktree cwd destination reference = runChecked (ret ()) (planWorktreeAdd cwd destination reference)"

definition removeWorktree :: "jsstring \<Rightarrow> jsstring \<Rightarrow> command_outcome prog" where
  "removeWorktree cwd absolutePath = runChecked (ret ()) (planWorktreeRemove cwd absolutePath)"

definition lockWorktree :: "jsstring \<Rightarrow> jsstring \<Rightarrow> jsstring option \<Rightarrow> command_outcome prog" where
  "lockWorktree cwd absolutePath reason = runChecked (ret ()) (planWorktreeLock cwd absolutePath reason)"

definition unlockWorktree :: "jsstring \<Rightarrow> jsstring \<Rightarrow> command_outcome prog" where
  "unlockWorktree cwd absolutePath = runChecked (ret ()) (planWorktreeUnlock cwd absolutePath)"

definition addSubmodule :: "jsstring \<Rightarrow> jsstring \<Rightarrow> jsstring \<Rightarrow> jsstring option \<Rightarrow> command_outcome prog" where
  "addSubmodule cwd url path branchName = runChecked (ret ()) (planSubmoduleAdd cwd url path branchName)"

definition updateSubmodules :: "jsstring \<Rightarrow> jsstring list \<Rightarrow> bool \<Rightarrow> bool \<Rightarrow> command_outcome prog" where
  "updateSubmodules cwd paths initialize recursive =
     runChecked (assertSafeSubmoduleConfig cwd) (planSubmoduleUpdate cwd paths initialize recursive)"

definition syncSubmodules :: "jsstring \<Rightarrow> jsstring list \<Rightarrow> bool \<Rightarrow> command_outcome prog" where
  "syncSubmodules cwd paths recursive = runChecked (assertSafeSubmoduleConfig cwd) (planSubmoduleSync cwd paths recursive)"

section \<open>Creating a repository\<close>

text \<open>What is on disk before and after comes from the host; the second may depend on how Git ended.\<close>

datatype destination_state = Absent | EmptyDirectory | NonEmpty

datatype creation_outcome =
    CreationDone destination_state
  | CreationRefused destination_state command_refusal
  | LeftBehind destination_state command_refusal
  | CreationUncertain destination_state command_refusal

definition runCreation ::
  "git_command \<Rightarrow> destination_state \<Rightarrow> (git_result \<Rightarrow> destination_state) \<Rightarrow> creation_outcome prog" where
  "runCreation c before observe =
     bindP (runGit c) (\<lambda>r.
     let after = observe r; refusal = refusal_of_result r in
     ret (if exit_zero r then CreationDone after
          else if gr_termination r \<noteq> Exited then CreationUncertain after refusal
          else if before \<noteq> NonEmpty \<and> after = NonEmpty then LeftBehind after (refusal\<lparr>cf_code := ''GitCommandFailed''\<rparr>)
          else CreationRefused after (refusal\<lparr>cf_code := ''GitCommandFailed''\<rparr>)))"

definition initRepository ::
  "jsstring \<Rightarrow> jsstring \<Rightarrow> jsstring option \<Rightarrow> destination_state \<Rightarrow> (git_result \<Rightarrow> destination_state) \<Rightarrow> creation_outcome prog" where
  "initRepository cwd destination initialBranch before observe =
     runCreation (planRepositoryInit cwd destination initialBranch) before observe"

definition cloneRepository ::
  "jsstring \<Rightarrow> jsstring \<Rightarrow> jsstring \<Rightarrow> bool \<Rightarrow> destination_state \<Rightarrow> (git_result \<Rightarrow> destination_state) \<Rightarrow> creation_outcome prog" where
  "cloneRepository cwd remoteUrl destination initializeSubmodules before observe =
     runCreation (planRepositoryClone cwd remoteUrl destination initializeSubmodules) before observe"

section \<open>Remotes\<close>

definition addRemote :: "jsstring \<Rightarrow> jsstring \<Rightarrow> jsstring \<Rightarrow> jsstring option \<Rightarrow> command_outcome prog" where
  "addRemote cwd name fetchUrl pushUrl =
     bindP (runQuiet (planRemoteAdd cwd name fetchUrl)) (\<lambda>added.
     case (added, pushUrl) of
       (CmdDone, Some url) \<Rightarrow> runQuiet (planRemoteSetUrl cwd name url True)
     | _ \<Rightarrow> ret added)"

definition and_then :: "command_outcome prog \<Rightarrow> command_outcome prog \<Rightarrow> command_outcome prog" where
  "and_then p q = bindP p (\<lambda>out. case out of CmdDone \<Rightarrow> q | CmdRefused f \<Rightarrow> ret (CmdRefused f))"

definition updateRemote ::
  "jsstring \<Rightarrow> jsstring \<Rightarrow> jsstring option \<Rightarrow> jsstring option \<Rightarrow> jsstring option \<Rightarrow> command_outcome prog" where
  "updateRemote cwd name newName fetchUrl pushUrl =
     (let currentName = (case newName of Some n \<Rightarrow> n | None \<Rightarrow> name)
      in and_then (case newName of Some n \<Rightarrow> runQuiet (planRemoteRename cwd name n) | None \<Rightarrow> ret CmdDone)
        (and_then (case fetchUrl of Some u \<Rightarrow> runQuiet (planRemoteSetUrl cwd currentName u False) | None \<Rightarrow> ret CmdDone)
           (case pushUrl of Some u \<Rightarrow> runQuiet (planRemoteSetUrl cwd currentName u True) | None \<Rightarrow> ret CmdDone)))"

definition removeRemote :: "jsstring \<Rightarrow> jsstring \<Rightarrow> command_outcome prog" where
  "removeRemote cwd name = runQuiet (planRemoteRemove cwd name)"

definition find_url :: "bool \<Rightarrow> jsstring \<Rightarrow> remote_url list \<Rightarrow> jsstring option" where
  "find_url push name records = map_option ru_url (find (\<lambda>r. ru_name r = name \<and> ru_push r = push) records)"

definition url_refusal :: "jsstring \<Rightarrow> command_refusal" where
  "url_refusal diagnostic = \<lparr>cf_code = ''GitCommandFailed'', cf_exitCode = None, cf_diagnostic = diagnostic\<rparr>"

text \<open>\<open>None\<close> is safe.\<close>

definition checkConfiguredRemote :: "jsstring \<Rightarrow> jsstring \<Rightarrow> bool \<Rightarrow> command_refusal option prog" where
  "checkConfiguredRemote cwd name push =
     bindP (runGit (planRemotes cwd)) (\<lambda>r.
     if \<not> exit_zero r then ret (Some (refusal_of_result r))
     else (case parseRemoteList (gr_stdout r) of
         Inl _ \<Rightarrow> ret (Some \<lparr>cf_code = ''GitOutputUnparsable'', cf_exitCode = gr_exitCode r,
           cf_diagnostic = str ''the configured remote list could not be parsed safely''\<rparr>)
       | Inr records \<Rightarrow>
           (let fetchUrl = find_url False name records;
                pushUrl = find_url True name records;
                url = (if push then (case pushUrl of Some u \<Rightarrow> Some u | None \<Rightarrow> fetchUrl) else fetchUrl)
            in case url of
                 None \<Rightarrow> ret (Some (url_refusal (str ''remote '' @ name @ str ('' has no configured ''
                   @ (if push then ''push'' else ''fetch'') @ '' URL''))))
               | Some u \<Rightarrow>
                   (case unsafeRemoteUrlReason u of
                      Some reason \<Rightarrow> ret (Some (url_refusal (str ''remote '' @ name @
                        str ('' has an unsafe configured URL: '' @ reason))))
                    | None \<Rightarrow> ret None))))"

datatype 'r network_outcome =
    NetDone 'r
  | NetPartial 'r command_refusal
  | NetRefused command_refusal
  | NetUncertain string

definition fetchRemote :: "jsstring \<Rightarrow> jsstring \<Rightarrow> bool \<Rightarrow> bool \<Rightarrow> fetch_result network_outcome prog" where
  "fetchRemote cwd remoteName prune noTags =
     bindP (checkConfiguredRemote cwd remoteName False) (\<lambda>safety.
     case safety of
       Some f \<Rightarrow> ret (NetRefused f)
     | None \<Rightarrow>
         bindP (runGit (planFetch cwd remoteName prune noTags)) (\<lambda>r.
         ret (case parseFetchPorcelain (gr_stdout r) of
                Inl _ \<Rightarrow> NetUncertain ''git fetch produced output this build could not parse''
              | Inr parsed \<Rightarrow> if exit_zero r then NetDone parsed else NetRefused (refusal_of_result r))))"

definition pushRef :: "jsstring \<Rightarrow> jsstring \<Rightarrow> jsstring \<Rightarrow> jsstring \<Rightarrow> bool \<Rightarrow> push_result network_outcome prog" where
  "pushRef cwd remoteName sourceRef destinationRef setUpstream =
     bindP (checkConfiguredRemote cwd remoteName True) (\<lambda>safety.
     case safety of
       Some f \<Rightarrow> ret (NetRefused f)
     | None \<Rightarrow>
         bindP (runGit (planPush cwd remoteName sourceRef destinationRef setUpstream)) (\<lambda>r.
         ret (case parsePushPorcelain (gr_stdout r) of
                Inl _ \<Rightarrow> NetUncertain ''git push produced output this build could not parse''
              | Inr parsed \<Rightarrow>
                  if exit_zero r then NetDone parsed
                  else if ps_refs parsed \<noteq> [] then NetPartial parsed (refusal_of_result r)
                  else NetRefused (refusal_of_result r))))"

record pull_result =
  pu_fetchRefs :: "fetch_ref list"
  pu_branchMoved :: bool

definition no_upstream_refusal :: "jsstring \<Rightarrow> git_result \<Rightarrow> command_refusal" where
  "no_upstream_refusal branchName r =
     (let d = boundedDiagnostic (gr_stderr r)
      in (refusal_of_result r)\<lparr>cf_diagnostic :=
        (if js_trim d \<noteq> [] then d
         else str ''the branch '' @ branchName @ str '' has no upstream to pull from'')\<rparr>)"

definition pullFastForward :: "jsstring \<Rightarrow> jsstring \<Rightarrow> jsstring \<Rightarrow> pull_result network_outcome prog" where
  "pullFastForward cwd remoteName branchName =
     bindP (runGit (planBranchUpstreamRef cwd branchName)) (\<lambda>u.
     if \<not> exit_zero u then ret (NetRefused (no_upstream_refusal branchName u))
     else
       let upstreamRef = first_line (gr_stdout u); upstreamRemote = hd (splitOn 0x2f upstreamRef)
       in if upstreamRemote \<noteq> remoteName
          then ret (NetRefused (url_refusal (str ''the branch '' @ branchName @ str '' tracks '' @ upstreamRef
                 @ str '', which is on '' @ upstreamRemote @ str ''; the pull named '' @ remoteName)))
          else bindP (fetchRemote cwd remoteName False True) (\<lambda>fetched.
               case fetched of
                 NetUncertain m \<Rightarrow> ret (NetUncertain m)
               | NetRefused f \<Rightarrow> ret (NetRefused f)
               | NetPartial p f \<Rightarrow> bindP (runGit (planFastForwardMerge cwd upstreamRef)) (\<lambda>m.
                   ret (if exit_zero m then NetDone \<lparr>pu_fetchRefs = fs_refs p, pu_branchMoved = True\<rparr>
                        else NetPartial \<lparr>pu_fetchRefs = fs_refs p, pu_branchMoved = False\<rparr> (refusal_of_result m)))
               | NetDone p \<Rightarrow> bindP (runGit (planFastForwardMerge cwd upstreamRef)) (\<lambda>m.
                   ret (if exit_zero m then NetDone \<lparr>pu_fetchRefs = fs_refs p, pu_branchMoved = True\<rparr>
                        else NetPartial \<lparr>pu_fetchRefs = fs_refs p, pu_branchMoved = False\<rparr> (refusal_of_result m)))))"

end
