(* ===== verification/Effects.thy ===== *)
theory Effects
  imports Operations Workflows Jobs Auth
begin

text \<open>
  What an operation does once its turn has come: the effects of \<^verbatim>\<open>packages/host-node/src/coordinator\<close>
  (\<^verbatim>\<open>effects-support.ts\<close>, \<^verbatim>\<open>repository-effects.ts\<close>, \<^verbatim>\<open>stash-tag-effects.ts\<close>, \<^verbatim>\<open>worktree-effects.ts\<close>,
  \<^verbatim>\<open>merge-effects.ts\<close>, \<^verbatim>\<open>cherry-pick-effects.ts\<close>, \<^verbatim>\<open>rebase-effects.ts\<close>, \<^verbatim>\<open>previews.ts\<close>): the \<^verbatim>\<open>run\<close> of each
  kind, from the operation to the outcome the job engine records. What an effect asks of the registries
  and the file system are the fields of \<open>effect_env\<close>: the facts of the worktree, destinations inside an
  approved root, the bytes behind path ids, the preview tokens and the backups.
\<close>

section \<open>Outcomes\<close>

definition problem_of :: "string \<Rightarrow> jsstring \<Rightarrow> jsstring \<Rightarrow> problem" where
  "problem_of code message operationId = (refuse code message False)\<lparr>pr_operationId := Some operationId\<rparr>"

definition failedOp :: "jsstring \<Rightarrow> string \<Rightarrow> jsstring \<Rightarrow> effect_outcome" where
  "failedOp operationId code message = OutcomeFailed (problem_of code message operationId)"

definition unknownOutcome :: "jsstring \<Rightarrow> jsstring \<Rightarrow> effect_outcome" where
  "unknownOutcome operationId message = OutcomeUnknown (problem_of ''UncertainOutcome'' message operationId)"

definition needsAttention :: "jsstring \<Rightarrow> jsstring \<Rightarrow> effect_outcome" where
  "needsAttention operationId message = OutcomeNeedsAttention (problem_of ''NeedsAttention'' message operationId)"

definition oid_json :: "jsstring option \<Rightarrow> jsvalue" where
  "oid_json o' = (case o' of None \<Rightarrow> JNull | Some s \<Rightarrow> JString s)"

definition resultOf :: "jsstring \<Rightarrow> jsstring list \<Rightarrow> nat option \<Rightarrow> jsstring option \<Rightarrow> jsvalue" where
  "resultOf summary changedRefs changedPaths newHeadOid = JObject
     [(str ''summary'', JString summary), (str ''changedRefs'', JArray (map JString changedRefs)),
      (str ''changedPaths'', case changedPaths of None \<Rightarrow> JNull | Some n \<Rightarrow> JNumber (int n)),
      (str ''snapshotInvalidated'', JBool True), (str ''newHeadOid'', oid_json newHeadOid)]"

definition succeeded :: "jsstring \<Rightarrow> jsstring list \<Rightarrow> jsstring option \<Rightarrow> effect_outcome" where
  "succeeded summary changedRefs newHeadOid = OutcomeSucceeded (resultOf summary changedRefs None newHeadOid)"

definition exit_text :: "nat option \<Rightarrow> jsstring" where
  "exit_text code = (case code of Some n \<Rightarrow> decimal n | None \<Rightarrow> str ''unknown'')"

definition gitFailureOutcome :: "jsstring \<Rightarrow> string \<Rightarrow> command_refusal \<Rightarrow> effect_outcome" where
  "gitFailureOutcome operationId what f =
     (if cf_code f = ''GitTimedOut'' \<or> cf_code f = ''GitTerminatedBySignal'' \<or> cf_code f = ''GitOutputIncomplete''
      then unknownOutcome operationId (str (what @ '' did not finish cleanly ('' @ cf_code f @
             ''); whether it changed anything is not known and nothing was retried''))
      else failedOp operationId ''GitCommandFailed'' (take 2000
             (if js_trim (cf_diagnostic f) \<noteq> [] then str ''git refused the operation: '' @ cf_diagnostic f
              else str ''git refused the operation (exit '' @ exit_text (cf_exitCode f) @ str '')'')))"

definition writeOutcomeFromGit :: "jsstring \<Rightarrow> command_refusal \<Rightarrow> effect_outcome" where
  "writeOutcomeFromGit operationId f = gitFailureOutcome operationId ''the operation'' f"

section \<open>What an effect asks for\<close>

record effect_facts =
  fx_cwdHandle :: jsstring
  fx_head :: head_facts
  fx_records :: "status_record list"

record workspace =
  wk_destination :: jsstring
  wk_relative :: jsstring
  wk_cwdHandle :: jsstring
  wk_handle :: jsstring

record worktree_command =
  wc_cwdHandle :: jsstring
  wc_targetPath :: jsstring
  wc_isMain :: bool

record effect_env =
  ev_operationId :: jsstring
  ev_facts :: "problem + effect_facts"
  ev_targetDestination :: jsstring
  ev_workspace :: "jsstring \<Rightarrow> problem + workspace"
  ev_before :: destination_state
  ev_observe :: "git_result \<Rightarrow> destination_state"
  ev_registerFailure :: "jsstring option"
  ev_destination :: "jsstring \<Rightarrow> problem + jsstring"
  ev_worktreeCommand :: "jsstring \<Rightarrow> problem + worktree_command"
  ev_contained :: "jsstring \<Rightarrow> bool"
  ev_submodulePaths :: "jsstring list \<Rightarrow> problem + jsstring list"
  ev_bindings :: "jsstring list \<Rightarrow> problem + byte list list"
  ev_consumePreviews :: "jsstring list \<Rightarrow> jsstring list \<Rightarrow> problem option"
  ev_backUp :: "byte list list \<Rightarrow> problem + nat"

definition orFail :: "problem + 'a \<Rightarrow> ('a \<Rightarrow> effect_outcome prog) \<Rightarrow> effect_outcome prog" where
  "orFail m k = (case m of Inl p \<Rightarrow> ret (OutcomeFailed p) | Inr x \<Rightarrow> k x)"

definition head_oid :: "effect_facts \<Rightarrow> jsstring option" where
  "head_oid facts = hf_oid (fx_head facts)"

definition oid_after :: "head_facts option \<Rightarrow> jsstring option" where
  "oid_after h = (case h of None \<Rightarrow> None | Some f \<Rightarrow> hf_oid f)"

definition after_command :: "effect_env \<Rightarrow> command_outcome prog \<Rightarrow> effect_outcome \<Rightarrow> effect_outcome prog" where
  "after_command env p done' =
     bindP p (\<lambda>out. ret (case out of CmdRefused f \<Rightarrow> writeOutcomeFromGit (ev_operationId env) f | CmdDone \<Rightarrow> done'))"

section \<open>Repository effects\<close>

definition branch_ref :: "jsstring \<Rightarrow> jsstring" where "branch_ref b = str ''refs/heads/'' @ b"

definition runBranchCommand ::
  "effect_env \<Rightarrow> jsstring \<Rightarrow> command_outcome prog \<Rightarrow> jsstring \<Rightarrow> jsstring list \<Rightarrow> effect_outcome prog" where
  "runBranchCommand env cwd p summary changedRefs =
     bindP p (\<lambda>out. case out of
       CmdRefused f \<Rightarrow> ret (writeOutcomeFromGit (ev_operationId env) f)
     | CmdDone \<Rightarrow> bindP (head_or_none cwd) (\<lambda>h. ret (succeeded summary changedRefs (oid_after h))))"

definition pushSummary :: "push_result \<Rightarrow> jsstring" where
  "pushSummary p =
     (if ps_everythingUpToDate p \<or> ps_refs p = [] then str ''already up to date; nothing was pushed''
      else joinWith (str ''; '') (map (\<lambda>r. pf_to r @ str '': '' @ pf_summary r) (ps_refs p)))"

definition networkFailure :: "jsstring \<Rightarrow> string \<Rightarrow> 'r network_outcome \<Rightarrow> effect_outcome" where
  "networkFailure operationId what out = (case out of
     NetUncertain reason \<Rightarrow> unknownOutcome operationId (str reason)
   | NetPartial _ f \<Rightarrow> gitFailureOutcome operationId what f
   | NetRefused f \<Rightarrow> gitFailureOutcome operationId what f
   | NetDone _ \<Rightarrow> unknownOutcome operationId [])"

definition plural :: "nat \<Rightarrow> string" where "plural n = (if n = 1 then '''' else ''s'')"

definition paren_diagnostic :: "jsstring \<Rightarrow> jsstring" where
  "paren_diagnostic d = (if js_trim d \<noteq> [] then str '' ('' @ js_trim d @ str '')'' else [])"

definition finishCreation :: "effect_env \<Rightarrow> string \<Rightarrow> workspace \<Rightarrow> jsstring \<Rightarrow> creation_outcome \<Rightarrow> effect_outcome prog" where
  "finishCreation env what wk summary out =
     (let i = ev_operationId env; dest = wk_relative wk;
          diagnostic = (\<lambda>f. if js_trim (cf_diagnostic f) \<noteq> [] then js_trim (cf_diagnostic f)
                            else str ''git exited '' @ exit_text (cf_exitCode f))
      in case out of
        CreationDone _ \<Rightarrow>
          (case ev_registerFailure env of
             Some m \<Rightarrow> ret (needsAttention i (str (''the '' @ what @ '' finished, but this service could not register the repository at '')
               @ dest @ str '': '' @ m @ str ''; the files are there and nothing was removed''))
           | None \<Rightarrow> bindP (head_or_none (wk_handle wk)) (\<lambda>h. ret (succeeded summary [] (oid_after h))))
      | CreationUncertain after f \<Rightarrow> ret (unknownOutcome i (str (''the '' @ what @ '' did not finish cleanly ('' @ cf_code f
          @ ''); what is at '') @ dest @ str ('' is '' @ (if after = NonEmpty then ''a directory with content'' else ''unchanged'')
          @ '', and whether the command completed is not known'') @ [0x20, 0x2014] @ str '' nothing was retried and nothing was removed''))
      | LeftBehind _ f \<Rightarrow> ret (needsAttention i (str (''the '' @ what @ '' failed and left files at '') @ dest @ str '': ''
          @ diagnostic f @ str ''; nothing was removed, so that path is the user'' @ [0x27] @ str ''s to inspect''))
      | CreationRefused _ f \<Rightarrow> ret (failedOp i ''GitCommandFailed''
          (take 2000 (str (''git refused the '' @ what @ '': '') @ diagnostic f))))"

definition initRepositoryEffect :: "effect_env \<Rightarrow> (jsstring option) \<Rightarrow> effect_outcome prog" where
  "initRepositoryEffect env initialBranch =
     orFail (ev_workspace env (ev_targetDestination env)) (\<lambda>wk.
     bindP (initRepository (wk_cwdHandle wk) (wk_destination wk) initialBranch (ev_before env) (ev_observe env))
       (finishCreation env ''init'' wk (str ''created a repository at '' @ wk_relative wk @
          (case initialBranch of None \<Rightarrow> [] | Some b \<Rightarrow> str '' on '' @ b))))"

definition cloneRepositoryEffect :: "effect_env \<Rightarrow> jsstring \<Rightarrow> jsstring \<Rightarrow> bool \<Rightarrow> effect_outcome prog" where
  "cloneRepositoryEffect env url dest sub =
     orFail (ev_workspace env dest) (\<lambda>wk.
     bindP (cloneRepository (wk_cwdHandle wk) url (wk_destination wk) sub (ev_before env) (ev_observe env))
       (finishCreation env ''clone'' wk (str ''cloned '' @ url @ str '' into '' @ wk_relative wk @
          (if sub then str '', including submodules'' else []))))"

definition createBranchEffect :: "effect_env \<Rightarrow> jsstring \<Rightarrow> (jsstring option) \<Rightarrow> bool \<Rightarrow> effect_outcome prog" where
  "createBranchEffect env b oid sw =
     orFail (ev_facts env) (\<lambda>facts. runBranchCommand env (fx_cwdHandle facts) (createBranch (fx_cwdHandle facts) b oid sw)
       (str (if sw then ''created and switched to '' else ''created branch '') @ b) [branch_ref b])"

definition switchBranchEffect :: "effect_env \<Rightarrow> jsstring \<Rightarrow> effect_outcome prog" where
  "switchBranchEffect env b =
     orFail (ev_facts env) (\<lambda>facts. runBranchCommand env (fx_cwdHandle facts) (switchBranch (fx_cwdHandle facts) b)
       (str ''switched to '' @ b) [branch_ref b])"

definition renameBranchEffect :: "effect_env \<Rightarrow> jsstring \<Rightarrow> jsstring \<Rightarrow> effect_outcome prog" where
  "renameBranchEffect env b n =
     orFail (ev_facts env) (\<lambda>facts. runBranchCommand env (fx_cwdHandle facts) (renameBranch (fx_cwdHandle facts) b n)
       (str ''renamed '' @ b @ str '' to '' @ n) [branch_ref b, branch_ref n])"

definition deleteBranchEffect :: "effect_env \<Rightarrow> jsstring \<Rightarrow> effect_outcome prog" where
  "deleteBranchEffect env b =
     orFail (ev_facts env) (\<lambda>facts. runBranchCommand env (fx_cwdHandle facts) (deleteBranch (fx_cwdHandle facts) b)
       (str ''deleted branch '' @ b) [branch_ref b])"

definition setUpstreamEffect :: "effect_env \<Rightarrow> jsstring \<Rightarrow> ((jsstring \<times> jsstring) option) \<Rightarrow> effect_outcome prog" where
  "setUpstreamEffect env b u =
     orFail (ev_facts env) (\<lambda>facts. runBranchCommand env (fx_cwdHandle facts) (setBranchUpstream (fx_cwdHandle facts) b u)
       (case u of None \<Rightarrow> str ''cleared the upstream of '' @ b
        | Some (r, n) \<Rightarrow> str ''set '' @ b @ str '' to track '' @ r @ str ''/'' @ n) [])"

definition addRemoteEffect :: "effect_env \<Rightarrow> jsstring \<Rightarrow> jsstring \<Rightarrow> (jsstring option) \<Rightarrow> effect_outcome prog" where
  "addRemoteEffect env r u p =
     orFail (ev_facts env) (\<lambda>facts. after_command env (addRemote (fx_cwdHandle facts) r u p)
       (succeeded (str ''added remote '' @ r @ (if p = None then [] else str '' with a separate push URL'')) [] (head_oid facts)))"

definition updateRemoteEffect :: "effect_env \<Rightarrow> jsstring \<Rightarrow> (jsstring option) \<Rightarrow> (jsstring option) \<Rightarrow> (jsstring option) \<Rightarrow> effect_outcome prog" where
  "updateRemoteEffect env r n u p =
     orFail (ev_facts env) (\<lambda>facts. bindP (updateRemote (fx_cwdHandle facts) r n u p) (\<lambda>out. ret (case out of
       CmdRefused f \<Rightarrow> needsAttention (ev_operationId env) (str ''the remote update did not complete: '' @
         (if js_trim (cf_diagnostic f) \<noteq> [] then cf_diagnostic f else str ''git exited '' @ exit_text (cf_exitCode f)) @
         str ''; the remote may have been renamed before the change failed '' @ [0x2014] @ str '' re-read the remotes'')
     | CmdDone \<Rightarrow> succeeded (str ''updated remote '' @ r)
         (case n of None \<Rightarrow> [] | Some m \<Rightarrow> [str ''remote:'' @ r, str ''remote:'' @ m]) (head_oid facts))))"

definition removeRemoteEffect :: "effect_env \<Rightarrow> jsstring \<Rightarrow> effect_outcome prog" where
  "removeRemoteEffect env r =
     orFail (ev_facts env) (\<lambda>facts. after_command env (removeRemote (fx_cwdHandle facts) r)
       (succeeded (str ''removed remote '' @ r) [] (head_oid facts)))"

definition fetchEffect :: "effect_env \<Rightarrow> jsstring \<Rightarrow> bool \<Rightarrow> bool \<Rightarrow> effect_outcome prog" where
  "fetchEffect env r prune noTags =
     orFail (ev_facts env) (\<lambda>facts. bindP (fetchRemote (fx_cwdHandle facts) r prune noTags) (\<lambda>out. ret (case out of
       NetDone p \<Rightarrow>
         (let moved = map ff_localRef (fs_refs p)
          in succeeded (if moved = [] then str ''fetched '' @ r @ str ''; nothing changed''
               else str ''fetched '' @ r @ str ''; '' @ decimal (length moved) @
                 str ('' remote-tracking ref'' @ plural (length moved) @ '' updated'')) moved (head_oid facts))
     | _ \<Rightarrow> networkFailure (ev_operationId env) ''the fetch'' out)))"

definition pushEffect :: "effect_env \<Rightarrow> jsstring \<Rightarrow> jsstring \<Rightarrow> jsstring \<Rightarrow> bool \<Rightarrow> effect_outcome prog" where
  "pushEffect env r s d up =
     orFail (ev_facts env) (\<lambda>facts. bindP (pushRef (fx_cwdHandle facts) r s d up) (\<lambda>out. ret (case out of
       NetDone p \<Rightarrow> succeeded (str ''pushed '' @ s @ str '' to '' @ r @ str ''/'' @ d @ str '': '' @ pushSummary p)
         (if ps_refs p = [] then [] else [d]) (head_oid facts)
     | NetPartial p f \<Rightarrow> failedOp (ev_operationId env) ''GitCommandFailed''
         (take 2000 (str ''the push was rejected: '' @ pushSummary p @ paren_diagnostic (cf_diagnostic f)))
     | _ \<Rightarrow> networkFailure (ev_operationId env) ''the push'' out)))"

definition pullEffect :: "effect_env \<Rightarrow> jsstring \<Rightarrow> effect_outcome prog" where
  "pullEffect env r =
     orFail (ev_facts env) (\<lambda>facts. case hf_branchName (fx_head facts) of
       None \<Rightarrow> ret (failedOp (ev_operationId env) ''Conflict'' (str ''a pull needs a checked-out branch; HEAD is detached or unborn''))
     | Some b \<Rightarrow> bindP (pullFastForward (fx_cwdHandle facts) r b) (\<lambda>out. case out of
         NetDone p \<Rightarrow> bindP (head_or_none (fx_cwdHandle facts)) (\<lambda>h.
           ret (succeeded (str ''pulled '' @ r @ str '' (fast-forward only); '' @ decimal (length (pu_fetchRefs p)) @
               str ('' tracking ref'' @ plural (length (pu_fetchRefs p)) @ '' updated''))
             (map ff_localRef (pu_fetchRefs p)) (case oid_after h of Some o' \<Rightarrow> Some o' | None \<Rightarrow> head_oid facts)))
       | NetPartial p f \<Rightarrow> ret (failedOp (ev_operationId env) ''GitCommandFailed'' (take 2000
           (str ''the pull fetched but could not fast-forward the branch (the local branch was not moved, and no merge or rebase was performed): ''
            @ (if js_trim (cf_diagnostic f) \<noteq> [] then js_trim (cf_diagnostic f) else str ''git exited '' @ exit_text (cf_exitCode f)))))
       | _ \<Rightarrow> ret (networkFailure (ev_operationId env) ''the pull'' out)))"

primrec repository_effect :: "effect_env \<Rightarrow> repository_operation \<Rightarrow> effect_outcome prog" where
  "repository_effect env (InitRepository initialBranch) = initRepositoryEffect env initialBranch"
| "repository_effect env (CloneRepository url dest sub) = cloneRepositoryEffect env url dest sub"
| "repository_effect env (CreateBranch b oid sw) = createBranchEffect env b oid sw"
| "repository_effect env (SwitchBranch b) = switchBranchEffect env b"
| "repository_effect env (RenameBranch b n) = renameBranchEffect env b n"
| "repository_effect env (DeleteBranch b c) = deleteBranchEffect env b"
| "repository_effect env (SetBranchUpstream b u) = setUpstreamEffect env b u"
| "repository_effect env (AddRemote r u p) = addRemoteEffect env r u p"
| "repository_effect env (UpdateRemote r n u p) = updateRemoteEffect env r n u p"
| "repository_effect env (RemoveRemote r c) = removeRemoteEffect env r"
| "repository_effect env (Fetch r prune noTags) = fetchEffect env r prune noTags"
| "repository_effect env (Push r s d up) = pushEffect env r s d up"
| "repository_effect env (Pull r) = pullEffect env r"

lemmas repository_effects = initRepositoryEffect_def cloneRepositoryEffect_def createBranchEffect_def switchBranchEffect_def
  renameBranchEffect_def deleteBranchEffect_def setUpstreamEffect_def addRemoteEffect_def
  updateRemoteEffect_def removeRemoteEffect_def fetchEffect_def pushEffect_def
  pullEffect_def

section \<open>Stash and tag effects\<close>

definition locatorProblem :: "jsstring \<Rightarrow> locator_check \<Rightarrow> effect_outcome option" where
  "locatorProblem operationId check = (case check of
     Matches \<Rightarrow> None
   | Unresolvable \<Rightarrow> Some (failedOp operationId ''NotFound'' (str ''that stash entry no longer exists; reload the stash list''))
   | Moved _ \<Rightarrow> Some (failedOp operationId ''Conflict'' (str
       ''the stash list moved since this request was prepared, and the locator now points at a different entry; reload and select the stash again'')))"

definition at_locator :: "effect_env \<Rightarrow> jsstring \<Rightarrow> jsstring \<Rightarrow> (effect_facts \<Rightarrow> effect_outcome prog) \<Rightarrow> effect_outcome prog" where
  "at_locator env oid locator k =
     orFail (ev_facts env) (\<lambda>facts.
     bindP (checkStashLocator (fx_cwdHandle facts) locator oid) (\<lambda>check.
     case locatorProblem (ev_operationId env) check of Some out \<Rightarrow> ret out | None \<Rightarrow> k facts))"

definition tag_ref :: "jsstring \<Rightarrow> jsstring" where "tag_ref t = str ''refs/tags/'' @ t"

definition createStashEffect :: "effect_env \<Rightarrow> (jsstring option) \<Rightarrow> bool \<Rightarrow> bool \<Rightarrow> effect_outcome prog" where
  "createStashEffect env m u k =
     orFail (ev_facts env) (\<lambda>facts. after_command env (createStash (fx_cwdHandle facts) m u k)
       (succeeded (str ''created a stash'' @ (case m of None \<Rightarrow> []
          | Some t \<Rightarrow> str '' ('' @ hd (splitOn 0x0a t) @ str '')'')) [] (head_oid facts)))"

definition applyStashEffect :: "effect_env \<Rightarrow> jsstring \<Rightarrow> jsstring \<Rightarrow> bool \<Rightarrow> effect_outcome prog" where
  "applyStashEffect env oid locator i =
     at_locator env oid locator (\<lambda>facts. after_command env (applyStash (fx_cwdHandle facts) locator i)
       (succeeded (str ''applied '' @ locator @ str ''; the stash is kept'') [] (head_oid facts)))"

definition popStashEffect :: "effect_env \<Rightarrow> jsstring \<Rightarrow> jsstring \<Rightarrow> bool \<Rightarrow> effect_outcome prog" where
  "popStashEffect env oid locator i =
     at_locator env oid locator (\<lambda>facts. bindP (popStash (fx_cwdHandle facts) locator oid i) (\<lambda>out. ret (case out of
       PopDone \<Rightarrow> succeeded (str ''popped '' @ locator @ str ''; the entry was dropped'') [] (head_oid facts)
     | PopConflict d preserved \<Rightarrow> needsAttention (ev_operationId env)
         ((if preserved then str ''the pop left conflicts in the working tree and the stash is still there (nothing was dropped): ''
           else str ''the pop left conflicts and the stash could no longer be found afterwards '' @ [0x2014] @
             str '' check the stash list before retrying: '') @ take 1500 (js_trim d))
     | PopRefused f \<Rightarrow> writeOutcomeFromGit (ev_operationId env) f)))"

definition dropStashEffect :: "effect_env \<Rightarrow> jsstring \<Rightarrow> jsstring \<Rightarrow> effect_outcome prog" where
  "dropStashEffect env oid locator =
     at_locator env oid locator (\<lambda>facts. after_command env (dropStash (fx_cwdHandle facts) locator)
       (succeeded (str ''dropped '' @ locator) [] (head_oid facts)))"

definition createTagEffect :: "effect_env \<Rightarrow> jsstring \<Rightarrow> (jsstring option) \<Rightarrow> (jsstring option) \<Rightarrow> effect_outcome prog" where
  "createTagEffect env t oid a =
     orFail (ev_facts env) (\<lambda>facts. bindP (createTag (fx_cwdHandle facts) t oid (map_option utf8_bytes a)) (\<lambda>out. ret (case out of
       TagCreated \<Rightarrow> succeeded (str (if a = None then ''created tag '' else ''created annotated tag '') @ t) [tag_ref t] (head_oid facts)
     | TagExists \<Rightarrow> failedOp (ev_operationId env) ''Conflict''
         (str ''the tag '' @ t @ str '' already exists; this build never overwrites a tag'')
     | TagRefused f \<Rightarrow> writeOutcomeFromGit (ev_operationId env) f)))"

definition deleteTagEffect :: "effect_env \<Rightarrow> jsstring \<Rightarrow> effect_outcome prog" where
  "deleteTagEffect env t =
     orFail (ev_facts env) (\<lambda>facts. after_command env (deleteTag (fx_cwdHandle facts) t)
       (succeeded (str ''deleted local tag '' @ t @ str ''; a remote tag would not be touched'') [tag_ref t] (head_oid facts)))"

definition pushTagEffect :: "effect_env \<Rightarrow> jsstring \<Rightarrow> jsstring \<Rightarrow> effect_outcome prog" where
  "pushTagEffect env r t =
     orFail (ev_facts env) (\<lambda>facts. bindP (pushRef (fx_cwdHandle facts) r (tag_ref t) (tag_ref t) False) (\<lambda>out. ret (case out of
       NetDone p \<Rightarrow> succeeded (str ''pushed tag '' @ t) [tag_ref t] (head_oid facts)
     | NetPartial p f \<Rightarrow> failedOp (ev_operationId env) ''GitCommandFailed'' (take 2000 (str ''the tag push was rejected: ''
         @ joinWith (str ''; '') (map (\<lambda>e. pf_to e @ str '': '' @ pf_summary e) (ps_refs p)) @ paren_diagnostic (cf_diagnostic f)))
     | NetUncertain reason \<Rightarrow> unknownOutcome (ev_operationId env) (str reason)
     | NetRefused f \<Rightarrow> gitFailureOutcome (ev_operationId env) ''the tag push'' f)))"

primrec stash_tag_effect :: "effect_env \<Rightarrow> stash_tag_operation \<Rightarrow> effect_outcome prog" where
  "stash_tag_effect env (CreateStash m u k) = createStashEffect env m u k"
| "stash_tag_effect env (ApplyStash oid locator i) = applyStashEffect env oid locator i"
| "stash_tag_effect env (PopStash oid locator i c) = popStashEffect env oid locator i"
| "stash_tag_effect env (DropStash oid locator c) = dropStashEffect env oid locator"
| "stash_tag_effect env (CreateTag t oid a) = createTagEffect env t oid a"
| "stash_tag_effect env (DeleteTag t c) = deleteTagEffect env t"
| "stash_tag_effect env (PushTag r t) = pushTagEffect env r t"

lemmas stash_tag_effects = createStashEffect_def applyStashEffect_def popStashEffect_def dropStashEffect_def
  createTagEffect_def deleteTagEffect_def pushTagEffect_def

section \<open>Worktree effects\<close>

definition createWorktreeEffect :: "effect_env \<Rightarrow> jsstring \<Rightarrow> worktree_reference \<Rightarrow> effect_outcome prog" where
  "createWorktreeEffect env dest reference =
     orFail (ev_facts env) (\<lambda>facts. orFail (ev_destination env dest) (\<lambda>absolute.
       after_command env (addWorktree (fx_cwdHandle facts) absolute reference)
         (succeeded (str ''created worktree at '' @ absolute) [] (head_oid facts))))"

definition removeWorktreeEffect :: "effect_env \<Rightarrow> jsstring \<Rightarrow> effect_outcome prog" where
  "removeWorktreeEffect env w =
     orFail (ev_facts env) (\<lambda>facts. orFail (ev_worktreeCommand env w) (\<lambda>t.
       if wc_isMain t then ret (failedOp (ev_operationId env) ''Conflict''
         (str ''the primary worktree cannot be removed through this service''))
       else after_command env (removeWorktree (wc_cwdHandle t) (wc_targetPath t))
         (succeeded (str ''removed worktree at '' @ wc_targetPath t) [] (head_oid facts))))"

definition lockWorktreeEffect :: "effect_env \<Rightarrow> jsstring \<Rightarrow> (jsstring option) \<Rightarrow> effect_outcome prog" where
  "lockWorktreeEffect env w reason =
     orFail (ev_facts env) (\<lambda>facts. orFail (ev_worktreeCommand env w) (\<lambda>t.
       after_command env (lockWorktree (wc_cwdHandle t) (wc_targetPath t) reason)
         (succeeded (str ''locked worktree at '' @ wc_targetPath t) [] (head_oid facts))))"

definition unlockWorktreeEffect :: "effect_env \<Rightarrow> jsstring \<Rightarrow> effect_outcome prog" where
  "unlockWorktreeEffect env w =
     orFail (ev_facts env) (\<lambda>facts. orFail (ev_worktreeCommand env w) (\<lambda>t.
       after_command env (unlockWorktree (wc_cwdHandle t) (wc_targetPath t))
         (succeeded (str ''unlocked worktree at '' @ wc_targetPath t) [] (head_oid facts))))"

definition addSubmoduleEffect :: "effect_env \<Rightarrow> jsstring \<Rightarrow> jsstring \<Rightarrow> (jsstring option) \<Rightarrow> effect_outcome prog" where
  "addSubmoduleEffect env url path b =
     orFail (ev_facts env) (\<lambda>facts.
       if \<not> ev_contained env path then ret (failedOp (ev_operationId env) ''Forbidden''
         (str ''the submodule path would be outside the worktree''))
       else after_command env (addSubmodule (fx_cwdHandle facts) url path b)
         (succeeded (str ''added submodule '' @ path @ str '' from '' @ url) [] (head_oid facts)))"

definition updateSubmoduleEffect :: "effect_env \<Rightarrow> (jsstring list) \<Rightarrow> bool \<Rightarrow> bool \<Rightarrow> effect_outcome prog" where
  "updateSubmoduleEffect env ids i recursive =
     orFail (ev_facts env) (\<lambda>facts. orFail (ev_submodulePaths env ids) (\<lambda>paths.
       after_command env (updateSubmodules (fx_cwdHandle facts) paths i recursive)
         (succeeded (str ''updated '' @ decimal (length paths) @ str ('' submodule'' @ plural (length paths) @ '' to the recorded commit''))
           [] (head_oid facts))))"

definition syncSubmoduleEffect :: "effect_env \<Rightarrow> (jsstring list) \<Rightarrow> bool \<Rightarrow> effect_outcome prog" where
  "syncSubmoduleEffect env ids recursive =
     orFail (ev_facts env) (\<lambda>facts. orFail (ev_submodulePaths env ids) (\<lambda>paths.
       after_command env (syncSubmodules (fx_cwdHandle facts) paths recursive)
         (succeeded (str ''synced URLs for '' @ decimal (length paths) @ str ('' submodule'' @ plural (length paths)))
           [] (head_oid facts))))"

primrec worktree_effect :: "effect_env \<Rightarrow> worktree_operation \<Rightarrow> effect_outcome prog" where
  "worktree_effect env (CreateWorktree dest reference) = createWorktreeEffect env dest reference"
| "worktree_effect env (RemoveWorktree w c) = removeWorktreeEffect env w"
| "worktree_effect env (LockWorktree w reason) = lockWorktreeEffect env w reason"
| "worktree_effect env (UnlockWorktree w) = unlockWorktreeEffect env w"
| "worktree_effect env (AddSubmodule url path b i) = addSubmoduleEffect env url path b"
| "worktree_effect env (UpdateSubmodule ids i recursive) = updateSubmoduleEffect env ids i recursive"
| "worktree_effect env (SyncSubmodule ids recursive) = syncSubmoduleEffect env ids recursive"

lemmas worktree_effects = createWorktreeEffect_def removeWorktreeEffect_def lockWorktreeEffect_def unlockWorktreeEffect_def
  addSubmoduleEffect_def updateSubmoduleEffect_def syncSubmoduleEffect_def

section \<open>Merges, cherry-picks, rebases and drops\<close>

definition git_note :: "jsstring \<Rightarrow> jsstring" where
  "git_note d = (if js_trim d = [] then [] else str '' (git: '' @ take 600 (js_trim d) @ str '')'')"

definition conflicts_remain :: "jsstring \<Rightarrow> nat \<Rightarrow> jsstring \<Rightarrow> effect_outcome" where
  "conflicts_remain i n message = OutcomeNeedsAttention ((problem_of ''GitCommandFailed'' message i)
     \<lparr>pr_details := Some [(str ''conflictedPaths'', JNumber (int n))]\<rparr>)"

text \<open>
  The starting commands say the same things of their own noun: \<open>refusedCode\<close> is the code of a refusal before
  Git ran, \<open>finish\<close> the command that goes on or back. The last case stands for the members of
  \<open>stop_outcome\<close> that the source's union does not have.
\<close>

definition start_outcome ::
  "string \<Rightarrow> string \<Rightarrow> string \<Rightarrow> jsstring \<Rightarrow> (bool \<Rightarrow> string) \<Rightarrow> jsstring \<Rightarrow> stop_outcome \<Rightarrow> effect_outcome" where
  "start_outcome noun finish refusedCode aborted summary i out = (case out of
     Completed same h \<Rightarrow> succeeded (str (summary same)) [] (hf_oid h)
   | MergeRefused _ \<Rightarrow> failedOp i ''InvalidRequest''
       (str ''that commit is a merge; cherry-picking it needs a choice of parent that this build does not make'')
   | Conflicted n d \<Rightarrow> conflicts_remain i n (str (''the '' @ noun @ '' stopped with '') @ decimal n @
       str ('' conflicted path(s); resolve them, stage the results and continue, or abort the '' @ finish) @ git_note d)
   | StopAborted d \<Rightarrow> failedOp i ''Conflict'' (aborted @ take 600 (js_trim d))
   | RefusedFirst reason \<Rightarrow> failedOp i refusedCode reason
   | GitRefused f \<Rightarrow> gitFailureOutcome i (''the '' @ noun) f
   | UnknownOutcome code \<Rightarrow> unknownOutcome i (str (''the '' @ noun @ '' did not finish cleanly ('' @ code @
       ''); whether Git changed anything is not known and nothing was retried''))
   | CommitFailed _ d \<Rightarrow> unknownOutcome i d)"

definition mergeOutcomeOf :: "jsstring \<Rightarrow> stop_outcome \<Rightarrow> effect_outcome" where
  "mergeOutcomeOf = start_outcome ''merge'' ''merge'' ''GitCommandFailed'' []
     (\<lambda>same. if same then ''already up to date; nothing to merge'' else ''merged the source into the current branch'')"

definition pickOutcomeOf :: "jsstring \<Rightarrow> stop_outcome \<Rightarrow> effect_outcome" where
  "pickOutcomeOf = start_outcome ''cherry-pick'' ''cherry-pick'' ''Conflict''
     (str ''the cherry-pick would be empty '' @ [0x2014] @ str '' this change is already present '' @ [0x2014] @
      str '' and was aborted, so the branch is unchanged: '')
     (\<lambda>_. ''cherry-picked the commit onto the current branch'')"

definition rebaseOutcomeOf :: "jsstring \<Rightarrow> stop_outcome \<Rightarrow> effect_outcome" where
  "rebaseOutcomeOf = start_outcome ''rebase'' ''rebase'' ''Conflict''
     (str ''the rebase stopped for a reason other than a conflict and was aborted, so the branch is unchanged: '')
     (\<lambda>_. ''rebased the current branch onto the target commit'')"

definition dropOutcomeOf :: "jsstring \<Rightarrow> stop_outcome \<Rightarrow> effect_outcome" where
  "dropOutcomeOf = start_outcome ''drop'' ''rebase'' ''InvalidRequest''
     (str ''the drop stopped for a reason other than a conflict and was aborted, so the branch is unchanged: '')
     (\<lambda>_. ''dropped the commit and replayed its descendants onto its parent'')"

definition continueOutcomeOf :: "string \<Rightarrow> jsstring \<Rightarrow> stop_outcome \<Rightarrow> effect_outcome" where
  "continueOutcomeOf noun i out = (case out of
     Completed _ h \<Rightarrow> succeeded (str (''continued the '' @ noun @ '' and committed the resolved index'')) [] (hf_oid h)
   | Conflicted n _ \<Rightarrow> conflicts_remain i n (str (''the '' @ noun @ '' is still stopped: '') @ decimal n @
       str '' conflicted path(s) remain unresolved'')
   | RefusedFirst reason \<Rightarrow> failedOp i ''GitCommandFailed'' reason
   | GitRefused f \<Rightarrow> failedOp i ''GitCommandFailed''
       (if js_trim (cf_diagnostic f) = []
        then str (''git refused to continue the '' @ noun @ '' (exit '') @ exit_text (cf_exitCode f) @ str '')''
        else str (''git refused to continue the '' @ noun @ '': '') @ take 1500 (js_trim (cf_diagnostic f)) @
          [0x20, 0x2014] @ str ('' the '' @ noun @ '' is still in progress''))
   | UnknownOutcome code \<Rightarrow> unknownOutcome i (str (''continuing the '' @ noun @ '' did not finish cleanly ('' @ code @
       ''); whether the commit was created is not known and nothing was retried''))
   | _ \<Rightarrow> unknownOutcome i [])"

definition abortOutcomeOf :: "string \<Rightarrow> string \<Rightarrow> string \<Rightarrow> jsstring \<Rightarrow> stop_outcome \<Rightarrow> effect_outcome" where
  "abortOutcomeOf noun short restored i out = (case out of
     Completed _ h \<Rightarrow> succeeded (str (''aborted the '' @ noun @ '' and restored '' @ restored)) [] (hf_oid h)
   | RefusedFirst reason \<Rightarrow> failedOp i ''GitCommandFailed'' reason
   | GitRefused f \<Rightarrow> failedOp i ''GitCommandFailed''
       (if js_trim (cf_diagnostic f) = []
        then str (''git could not abort this '' @ noun @ ''; the '' @ short @ '' state was left exactly as it is'')
        else str (''git could not abort this '' @ noun @ '': '') @ take 1500 (js_trim (cf_diagnostic f)) @
          [0x20, 0x2014] @ str '' nothing was reset'')
   | UnknownOutcome code \<Rightarrow> unknownOutcome i (str (''aborting the '' @ noun @ '' did not finish cleanly ('' @ code @
       ''); the repository may be halfway between the '' @ short @ '' and the abort, and nothing was retried''))
   | _ \<Rightarrow> unknownOutcome i [])"

definition sequenced ::
  "effect_env \<Rightarrow> (jsstring \<Rightarrow> stop_outcome prog) \<Rightarrow> (jsstring \<Rightarrow> stop_outcome \<Rightarrow> effect_outcome) \<Rightarrow> effect_outcome prog" where
  "sequenced env p outcome =
     orFail (ev_facts env) (\<lambda>facts. bindP (p (fx_cwdHandle facts)) (\<lambda>out. ret (outcome (ev_operationId env) out)))"

definition mergeEffect :: "effect_env \<Rightarrow> jsstring \<Rightarrow> bool \<Rightarrow> (jsstring option) \<Rightarrow> effect_outcome prog" where
  "mergeEffect env oid noFf m =
     sequenced env (\<lambda>cwd. mergeSource cwd oid noFf m) mergeOutcomeOf"

definition continueMergeEffect :: "effect_env \<Rightarrow> (jsstring option) \<Rightarrow> effect_outcome prog" where
  "continueMergeEffect env m =
     sequenced env (\<lambda>cwd. continueMerge cwd m) (continueOutcomeOf ''merge'')"

definition abortMergeEffect :: "effect_env \<Rightarrow> effect_outcome prog" where
  "abortMergeEffect env =
     sequenced env abortMerge (abortOutcomeOf ''merge'' ''merge'' ''the pre-merge state'')"

definition cherryPickEffect :: "effect_env \<Rightarrow> jsstring \<Rightarrow> effect_outcome prog" where
  "cherryPickEffect env oid =
     sequenced env (\<lambda>cwd. cherryPick cwd oid) pickOutcomeOf"

definition continueCherryPickEffect :: "effect_env \<Rightarrow> effect_outcome prog" where
  "continueCherryPickEffect env =
     sequenced env continueCherryPick (continueOutcomeOf ''cherry-pick'')"

definition abortCherryPickEffect :: "effect_env \<Rightarrow> effect_outcome prog" where
  "abortCherryPickEffect env =
     sequenced env abortCherryPick (abortOutcomeOf ''cherry-pick'' ''pick'' ''the state it started from'')"

definition rebaseEffect :: "effect_env \<Rightarrow> jsstring \<Rightarrow> effect_outcome prog" where
  "rebaseEffect env oid =
     sequenced env (\<lambda>cwd. rebase cwd oid) rebaseOutcomeOf"

definition continueRebaseEffect :: "effect_env \<Rightarrow> effect_outcome prog" where
  "continueRebaseEffect env =
     sequenced env continueRebase (continueOutcomeOf ''rebase'')"

definition abortRebaseEffect :: "effect_env \<Rightarrow> effect_outcome prog" where
  "abortRebaseEffect env =
     sequenced env abortRebase (abortOutcomeOf ''rebase'' ''rebase'' ''the branch it started from'')"

definition dropCommitEffect :: "effect_env \<Rightarrow> jsstring \<Rightarrow> effect_outcome prog" where
  "dropCommitEffect env oid =
     sequenced env (\<lambda>cwd. dropCommit cwd oid) dropOutcomeOf"

primrec sequencer_effect :: "effect_env \<Rightarrow> sequencer_operation \<Rightarrow> effect_outcome prog" where
  "sequencer_effect env (Merge oid noFf m) = mergeEffect env oid noFf m"
| "sequencer_effect env (ContinueMerge m) = continueMergeEffect env m"
| "sequencer_effect env (AbortMerge c) = abortMergeEffect env"
| "sequencer_effect env (CherryPick oid) = cherryPickEffect env oid"
| "sequencer_effect env ContinueCherryPick = continueCherryPickEffect env"
| "sequencer_effect env (AbortCherryPick c) = abortCherryPickEffect env"
| "sequencer_effect env (Rebase oid) = rebaseEffect env oid"
| "sequencer_effect env ContinueRebase = continueRebaseEffect env"
| "sequencer_effect env (AbortRebase c) = abortRebaseEffect env"
| "sequencer_effect env (DropCommit oid c) = dropCommitEffect env oid"

lemmas sequencer_effects = mergeEffect_def continueMergeEffect_def abortMergeEffect_def cherryPickEffect_def
  continueCherryPickEffect_def abortCherryPickEffect_def rebaseEffect_def continueRebaseEffect_def
  abortRebaseEffect_def dropCommitEffect_def

section \<open>Staging, commits, reverts and resets\<close>

definition recordForPath :: "status_record list \<Rightarrow> byte list \<Rightarrow> status_record option" where
  "recordForPath records bytes = find (\<lambda>r. pathKey (sr_path r) = pathKey bytes) records"

definition add_once :: "byte list \<Rightarrow> byte list list \<Rightarrow> byte list list" where
  "add_once p paths = (if pathKey p \<in> set (map pathKey paths) then paths else paths @ [p])"

text \<open>The selected paths, each renamed or copied one followed by the path it came from.\<close>

definition stage_path :: "status_record list \<Rightarrow> byte list \<Rightarrow> byte list list \<Rightarrow> byte list list" where
  "stage_path records p paths =
     (let paths = add_once p paths
      in case recordForPath records p of
           None \<Rightarrow> paths
         | Some r \<Rightarrow>
             if sr_kind r = Renamed \<or> sr_kind r = Copied
             then (case sr_originalPath r of None \<Rightarrow> paths | Some q \<Rightarrow> add_once q paths)
             else paths)"

definition paths_to_stage :: "status_record list \<Rightarrow> byte list list \<Rightarrow> byte list list" where
  "paths_to_stage records selected = fold (stage_path records) selected []"

definition counted_outcome :: "jsstring \<Rightarrow> nat \<Rightarrow> jsstring option \<Rightarrow> effect_outcome" where
  "counted_outcome summary n newHeadOid = OutcomeSucceeded (resultOf summary [] (Some n) newHeadOid)"

definition paths_text :: "nat \<Rightarrow> jsstring" where
  "paths_text n = decimal n @ str ('' path'' @ plural n)"

definition commitOutcomeToEffect :: "jsstring \<Rightarrow> string \<Rightarrow> commit_outcome \<Rightarrow> effect_outcome" where
  "commitOutcomeToEffect i verb out = (case out of
     Committed oid \<Rightarrow> succeeded (str verb @ str '' '' @ oid) [] (Some oid)
   | CommittedWithComplaint oid code d \<Rightarrow> needsAttention i
       (str ''the commit exists ('' @ oid @ str '') but git exited non-zero afterwards: '' @ d)
   | NotCommitted f \<Rightarrow> writeOutcomeFromGit i f
   | CommitUncertain reason \<Rightarrow> unknownOutcome i reason)"

definition head_text :: "head_facts \<Rightarrow> jsstring" where
  "head_text h = (case hf_oid h of Some o' \<Rightarrow> o' | None \<Rightarrow> str ''unknown'')"

definition revertOutcomeOf :: "jsstring \<Rightarrow> stop_outcome \<Rightarrow> effect_outcome" where
  "revertOutcomeOf i out = (case out of
     Completed _ h \<Rightarrow> succeeded (str ''reverted commit, new head '' @ head_text h) [] (hf_oid h)
   | RefusedFirst reason \<Rightarrow> failedOp i ''Conflict'' reason
   | MergeRefused _ \<Rightarrow> failedOp i ''InvalidRequest''
       (str ''that commit is a merge; reverting it needs a choice of parent that this build does not make'')
   | StopAborted d \<Rightarrow> failedOp i ''Conflict''
       (str ''the revert conflicted with your working tree and was aborted, so nothing was written: '' @ d)
   | GitRefused f \<Rightarrow> writeOutcomeFromGit i f
   | _ \<Rightarrow> unknownOutcome i (str
       ''whether the revert ran is not established; look at the repository with git before writing again''))"

definition resetOutcomeOf :: "jsstring \<Rightarrow> stop_outcome \<Rightarrow> effect_outcome" where
  "resetOutcomeOf i out = (case out of
     Completed _ h \<Rightarrow> succeeded (str ''branch reset to '' @ head_text h) [] (hf_oid h)
   | RefusedFirst reason \<Rightarrow> failedOp i ''Conflict'' reason
   | GitRefused f \<Rightarrow> writeOutcomeFromGit i f
   | _ \<Rightarrow> unknownOutcome i (str
       ''whether the branch moved is not established; look at the repository with git before writing again''))"

definition squashOutcomeOf :: "jsstring \<Rightarrow> stop_outcome \<Rightarrow> effect_outcome" where
  "squashOutcomeOf i out = (case out of
     Completed _ h \<Rightarrow> succeeded (str ''squashed the top commit into its parent'') [] (hf_oid h)
   | CommitFailed _ d \<Rightarrow> failedOp i ''GitCommandFailed'' (str ''the squash'' @ [0x27] @
       str ''s commit step failed, so the branch points at the parent with the combined change staged: '' @ take 1200 (js_trim d))
   | RefusedFirst reason \<Rightarrow> failedOp i ''InvalidRequest'' reason
   | GitRefused f \<Rightarrow> writeOutcomeFromGit i f
   | _ \<Rightarrow> unknownOutcome i (str
       ''whether the squash completed is not established; look at the repository with git before writing again''))"

definition unless_stale :: "problem option \<Rightarrow> effect_outcome prog \<Rightarrow> effect_outcome prog" where
  "unless_stale stale p = (case stale of Some q \<Rightarrow> ret (OutcomeFailed q) | None \<Rightarrow> p)"

definition stageEffect :: "effect_env \<Rightarrow> (jsstring list) \<Rightarrow> (jsstring list) \<Rightarrow> effect_outcome prog" where
  "stageEffect env ids tokens =
     orFail (ev_facts env) (\<lambda>facts. orFail (ev_bindings env ids) (\<lambda>selected.
     unless_stale (ev_consumePreviews env ids tokens)
       (after_command env (stageSelectedPaths (fx_cwdHandle facts) (paths_to_stage (fx_records facts) selected))
         (counted_outcome (str ''staged '' @ paths_text (length selected)) (length selected) (head_oid facts)))))"

definition unstageEffect :: "effect_env \<Rightarrow> (jsstring list) \<Rightarrow> effect_outcome prog" where
  "unstageEffect env ids =
     orFail (ev_facts env) (\<lambda>facts. orFail (ev_bindings env ids) (\<lambda>selected.
       after_command env (unstageSelectedPaths (fx_cwdHandle facts) selected (hf_born (fx_head facts)))
         (counted_outcome (str ''unstaged '' @ paths_text (length selected) @ str '' (working tree untouched)'')
           (length selected) (head_oid facts))))"

definition discardEffect :: "effect_env \<Rightarrow> (jsstring list) \<Rightarrow> (jsstring list) \<Rightarrow> effect_outcome prog" where
  "discardEffect env ids tokens =
     orFail (ev_facts env) (\<lambda>facts. orFail (ev_bindings env ids) (\<lambda>selected.
     unless_stale (ev_consumePreviews env ids tokens)
       (case selectDiscardablePaths (fx_records facts) selected of
          Some r \<Rightarrow> ret (failedOp (ev_operationId env) (if dr_reason r = ''unchanged'' then ''NotFound'' else ''UnsupportedOperation'')
            (str (''the discard was refused: '' @ dr_detail r)))
        | None \<Rightarrow> orFail (ev_backUp env selected) (\<lambda>backedUp.
            after_command env (restoreSelectedPaths (fx_cwdHandle facts) selected)
              (counted_outcome (str ''discarded '' @ paths_text (length selected) @ str '' (restored to the index; '' @
                 decimal backedUp @ str '' backed up)'') (length selected) (head_oid facts))))))"

definition commitEffect :: "effect_env \<Rightarrow> jsstring \<Rightarrow> effect_outcome prog" where
  "commitEffect env m =
     orFail (ev_facts env) (\<lambda>facts.
       if \<not> list_ex (\<lambda>r. sr_indexStatus r \<noteq> str ''.'') (fx_records facts)
       then ret (failedOp (ev_operationId env) ''Conflict'' (str ''the index holds no change to commit; stage something first''))
       else bindP (commitIndex (fx_cwdHandle facts) (Some (utf8_bytes m)) False)
         (\<lambda>out. ret (commitOutcomeToEffect (ev_operationId env) ''created commit'' out)))"

definition amendEffect :: "effect_env \<Rightarrow> (jsstring option) \<Rightarrow> effect_outcome prog" where
  "amendEffect env m =
     orFail (ev_facts env) (\<lambda>facts. bindP (commitIndex (fx_cwdHandle facts) (map_option utf8_bytes m) True)
       (\<lambda>out. ret (commitOutcomeToEffect (ev_operationId env) ''amended commit, new head'' out)))"

definition revertEffect :: "effect_env \<Rightarrow> jsstring \<Rightarrow> effect_outcome prog" where
  "revertEffect env oid =
     sequenced env (\<lambda>cwd. revertCommit cwd oid) revertOutcomeOf"

definition resetEffect :: "effect_env \<Rightarrow> jsstring \<Rightarrow> bool \<Rightarrow> effect_outcome prog" where
  "resetEffect env oid soft =
     sequenced env (\<lambda>cwd. resetBranch cwd oid soft) resetOutcomeOf"

definition squashEffect :: "effect_env \<Rightarrow> (jsstring option) \<Rightarrow> effect_outcome prog" where
  "squashEffect env m =
     sequenced env (\<lambda>cwd. squashTopCommit cwd (map_option utf8_bytes m)) squashOutcomeOf"

primrec staging_effect :: "effect_env \<Rightarrow> staging_operation \<Rightarrow> effect_outcome prog" where
  "staging_effect env (StagePaths ids tokens) = stageEffect env ids tokens"
| "staging_effect env (UnstagePaths ids) = unstageEffect env ids"
| "staging_effect env (DiscardTrackedPaths ids tokens c) = discardEffect env ids tokens"
| "staging_effect env (CommitOp m) = commitEffect env m"
| "staging_effect env (AmendCommit m c) = amendEffect env m"
| "staging_effect env (RevertCommit oid) = revertEffect env oid"
| "staging_effect env (ResetBranch oid soft) = resetEffect env oid soft"
| "staging_effect env (SquashCommit m) = squashEffect env m"

lemmas staging_effects = stageEffect_def unstageEffect_def discardEffect_def commitEffect_def
  amendEffect_def revertEffect_def resetEffect_def squashEffect_def

section \<open>Any operation\<close>

primrec run_effect :: "effect_env \<Rightarrow> operation \<Rightarrow> effect_outcome prog" where
  "run_effect env (RepositoryOp op') = repository_effect env op'"
| "run_effect env (StashTagOp op') = stash_tag_effect env op'"
| "run_effect env (WorktreeOp op') = worktree_effect env op'"
| "run_effect env (SequencerOp op') = sequencer_effect env op'"
| "run_effect env (StagingOp op') = staging_effect env op'"

end
