(* ===== verification/RunRules.thy ===== *)
theory RunRules
  imports Effects
begin

text \<open>
  What the commands of a run and its outcome have to do with each other. \<open>after\<close> is the weakest
  precondition of a program, over the writing commands it has run and their results, whatever Git
  answers; its rules follow the program text, and a program that only reads leaves that log alone.
\<close>

section \<open>Commands that write\<close>

text \<open>
  Everything but the read-only class and the two \<^verbatim>\<open>rev-parse\<close> probes that have the deadline of a hook.
\<close>

definition mutating :: "git_command \<Rightarrow> bool" where
  "mutating c \<longleftrightarrow> \<not> isReadOnlySpec c \<and> take 1 (gc_argv c) \<noteq> [str ''rev-parse'']"

definition writes :: "git_log \<Rightarrow> git_log" where
  "writes h = filter (\<lambda>(c, r). mutating c) h"

lemma writes_simps [simp]:
  "writes [] = []" "writes ((c, r) # h) = (if mutating c then (c, r) # writes h else writes h)"
  "writes (h @ t) = writes h @ writes t"
  by (simp_all add: writes_def)

lemma gc_argv_specs [simp]:
  "gc_argv (plan_spec cwd d e a) = a" "gc_argv (stdin_spec cwd d e a b) = a"
  "gc_deadlineClass (plan_spec cwd d e a) = d" "gc_deadlineClass (stdin_spec cwd d e a b) = d"
  by (simp_all add: plan_spec_def stdin_spec_def)

lemma take_words [simp]: "take (Suc 0) (words (w # ws) @ vs) = [str w]" "take (Suc 0) (words (w # ws)) = [str w]"
  by (simp_all add: words_def)

lemma length_words [simp]: "length (words ws) = length ws"
  by (simp add: words_def)

lemmas probe_plans = planCherryPickInProgress_def planStashResolve_def planDropCommitAncestry_def
  planDropCommitSecondParent_def planDropCommitParent_def planResolveCommit_def planMergeInProgress_def
  planRebaseInProgress_def planRevertInProgress_def planBranchUpstreamRef_def planTagExists_def planHeadRef_def
  planHeadOid_def planLsFilesUnmerged_def planRemotes_def planSubmoduleConfig_def emptyProbe_def

lemmas write_plans = planBranchCreate_def planBranchCreateAndSwitch_def planBranchSwitch_def planBranchRename_def
  planBranchDelete_def planCherryPick_def planCherryPickContinue_def planCherryPickAbort_def planStashPush_def
  planStashApply_def planStashPop_def planStashDrop_def planSquashSoftReset_def planDropCommitRebase_def
  planMerge_def planMergeContinue_def planMergeAbort_def planRebase_def planRebaseContinue_def planRebaseAbort_def
  planResetBranch_def planRevertCommit_def planRevertAbort_def planRemoteAdd_def planRemoteSetUrl_def
  planRemoteRename_def planRemoteRemove_def planFetch_def planPush_def planFastForwardMerge_def
  planRepositoryInit_def planRepositoryClone_def planSubmoduleAdd_def planSubmoduleUpdate_def planSubmoduleSync_def
  planTagCreateLightweight_def planTagDelete_def planWorktreeRemove_def planWorktreeLock_def planWorktreeUnlock_def

lemma probes_read [simp]:
  "\<not> mutating (planCherryPickInProgress cwd)" "\<not> mutating (planStashResolve cwd l)"
  "\<not> mutating (planDropCommitAncestry cwd a)" "\<not> mutating (planDropCommitSecondParent cwd a)"
  "\<not> mutating (planDropCommitParent cwd a)" "\<not> mutating (planResolveCommit cwd a)"
  "\<not> mutating (planMergeInProgress cwd)" "\<not> mutating (planRebaseInProgress cwd)"
  "\<not> mutating (planRevertInProgress cwd)" "\<not> mutating (planBranchUpstreamRef cwd b)"
  "\<not> mutating (planTagExists cwd t)" "\<not> mutating (planHeadRef cwd)" "\<not> mutating (planHeadOid cwd)"
  "\<not> mutating (planLsFilesUnmerged cwd)" "\<not> mutating (planRemotes cwd)" "\<not> mutating (planSubmoduleConfig cwd)"
  "\<not> mutating (emptyProbe cwd)"
  by (simp_all add: mutating_def isReadOnlySpec_def probe_plans del: str_simps)

lemma writers_write [simp]:
  "mutating (planBranchCreate cwd b s)" "mutating (planBranchCreateAndSwitch cwd b s)" "mutating (planBranchSwitch cwd b)"
  "mutating (planBranchRename cwd b n)" "mutating (planBranchDelete cwd b)" "mutating (planBranchSetUpstream cwd b u)"
  "mutating (planCherryPick cwd a)" "mutating (planCherryPickContinue cwd)" "mutating (planCherryPickAbort cwd)"
  "mutating (planStashPush cwd m u' k)" "mutating (planStashApply cwd l i)" "mutating (planStashPop cwd l i)"
  "mutating (planStashDrop cwd l)" "mutating (planSquashSoftReset cwd)" "mutating (planDropCommitRebase cwd a p)"
  "mutating (planMerge cwd a noFf m)" "mutating (planMergeContinue cwd m)" "mutating (planMergeAbort cwd)"
  "mutating (planRebase cwd a)" "mutating (planRebaseContinue cwd)" "mutating (planRebaseAbort cwd)"
  "mutating (planResetBranch cwd a soft)" "mutating (planRevertCommit cwd a)" "mutating (planRevertAbort cwd)"
  by (simp_all add: mutating_def isReadOnlySpec_def write_plans planBranchSetUpstream_def str_inj
        del: str_simps split: option.split)

lemma writers_write_2 [simp]:
  "mutating (planRemoteAdd cwd r url)" "mutating (planRemoteSetUrl cwd r url p)" "mutating (planRemoteRename cwd r n)"
  "mutating (planRemoteRemove cwd r)" "mutating (planFetch cwd r prune noTags)" "mutating (planPush cwd r s d up)"
  "mutating (planFastForwardMerge cwd ref)" "mutating (planRepositoryInit cwd dest b)"
  "mutating (planRepositoryClone cwd url dest sub)" "mutating (planSubmoduleAdd cwd url path bn)"
  "mutating (planSubmoduleUpdate cwd ps i rec)" "mutating (planSubmoduleSync cwd ps rec)"
  "mutating (planTagCreateLightweight cwd t oid)" "mutating (planTagDelete cwd t)" "mutating (planWorktreeAdd cwd dest reference)"
  "mutating (planWorktreeRemove cwd path)" "mutating (planWorktreeLock cwd path reason)" "mutating (planWorktreeUnlock cwd path)"
  by (simp_all add: mutating_def isReadOnlySpec_def write_plans str_inj del: str_simps)
     (cases reference; simp add: str_inj del: str_simps)

lemma planned_write:
  "planCommit cwd m = Inr c \<Longrightarrow> mutating c" "planAmendCommit cwd m' = Inr c \<Longrightarrow> mutating c"
  "planTagCreateAnnotated cwd t oid m = Inr c \<Longrightarrow> mutating c" "pathspec_plan cwd d ws ps = Inr c \<Longrightarrow> mutating c"
  by (auto simp: planCommit_def planAmendCommit_def planTagCreateAnnotated_def pathspec_plan_def pathspecStdin_def
        mutating_def isReadOnlySpec_def str_inj simp del: str_simps split: option.splits if_splits)

lemma planned_paths_write:
  "planStage cwd ps = Inr c \<Longrightarrow> mutating c" "planUnstage cwd ps = Inr c \<Longrightarrow> mutating c"
  "planUnstageUnborn cwd ps = Inr c \<Longrightarrow> mutating c" "planRestoreWorktree cwd ps = Inr c \<Longrightarrow> mutating c"
  by (auto simp: planStage_def planUnstage_def planUnstageUnborn_def planRestoreWorktree_def intro: planned_write)

section \<open>The log of the writing commands\<close>

primrec after :: "(git_log \<Rightarrow> failure + 'a \<Rightarrow> bool) \<Rightarrow> git_log \<Rightarrow> 'a prog \<Rightarrow> bool" where
  "after R w (Done x) \<longleftrightarrow> R w x"
| "after R w (Run c k) \<longleftrightarrow> (\<forall>r. after R (if mutating c then w @ [(c, r)] else w) (k r))"

lemma after_exec:
  assumes "after R (writes h0) p" "exec g h0 p = (h, x)"
  shows "R (writes h) x"
  using assms
proof (induction p arbitrary: h0)
  case (Run c k)
  from Run.prems(1) have "after R (writes (h0 @ [(c, g h0 c)])) (k (g h0 c))"
    by (auto dest: spec [of _ "g h0 c"] split: if_splits)
  then show ?case
    by (rule Run.IH [OF rangeI]) (use Run.prems(2) in simp)
qed auto

lemma after_bindP [simp]:
  "after R w (bindP p f) \<longleftrightarrow> after (\<lambda>w' x. case x of Inl e \<Rightarrow> R w' (Inl e) | Inr a \<Rightarrow> after R w' (f a)) w p"
  by (induction p arbitrary: w) (auto split: sum.splits)

lemma after_catchP [simp]:
  "after R w (catchP p f) \<longleftrightarrow> after (\<lambda>w' x. case x of Inl e \<Rightarrow> after R w' (f e) | Inr a \<Rightarrow> R w' (Inr a)) w p"
  by (induction p arbitrary: w) (auto split: sum.splits)

lemma after_runGit [simp]:
  "after R w (runGit c) \<longleftrightarrow> (\<forall>r. R (if mutating c then w @ [(c, r)] else w) (Inr r))"
  by (simp add: runGit_def)

lemma after_liftE [simp]:
  "after R w (liftE m) \<longleftrightarrow> R w (case m of Inl e \<Rightarrow> Inl (OtherError e) | Inr x \<Rightarrow> Inr x)"
  by (auto simp: liftE_def split: sum.splits)

text \<open>Programs that only read: whatever they end with, the log is as it was.\<close>

primrec reads :: "'a prog \<Rightarrow> bool" where
  "reads (Done x) \<longleftrightarrow> True"
| "reads (Run c k) \<longleftrightarrow> \<not> mutating c \<and> (\<forall>r. reads (k r))"

lemma after_reads: "reads p \<Longrightarrow> (\<And>x. R w x) \<Longrightarrow> after R w p"
  by (induction p) auto

lemma reads_bindP: "reads p \<Longrightarrow> (\<And>a. reads (f a)) \<Longrightarrow> reads (bindP p f)"
  by (induction p) (auto split: sum.split)

lemma reads_catchP: "reads p \<Longrightarrow> (\<And>e. reads (f e)) \<Longrightarrow> reads (catchP p f)"
  by (induction p) (auto split: sum.split)

lemma reads_runGit: "\<not> mutating c \<Longrightarrow> reads (runGit c)"
  by (simp add: runGit_def)

lemma reads_liftE: "reads (liftE m)"
  by (simp add: liftE_def split: sum.split)

lemmas reads_intros = reads_bindP reads_catchP reads_runGit reads_liftE

lemma reads_runMeaningfulExit: "\<not> mutating c \<Longrightarrow> reads (runMeaningfulExit c ns)"
  by (auto simp: runMeaningfulExit_def intro!: reads_intros)

lemma reads_decode: "reads (decodeAsciiText b f)" "reads (decode_oid o')"
  by (auto simp: decodeAsciiText_def decode_oid_def intro!: reads_intros split: option.split)

lemma reads_readHeadFacts: "reads (readHeadFacts cwd)"
  by (auto simp: readHeadFacts_def Let_def intro!: reads_intros reads_runMeaningfulExit reads_decode split: option.split)

lemma reads_head_or_none: "reads (head_or_none cwd)"
  by (auto simp: head_or_none_def intro!: reads_intros reads_readHeadFacts)

lemma reads_countConflictedPaths: "reads (countConflictedPaths cwd)"
  by (auto simp: countConflictedPaths_def intro!: reads_intros)

lemma reads_checkStashLocator: "reads (checkStashLocator cwd l oid)"
  by (auto simp: checkStashLocator_def Let_def intro!: reads_intros)

lemma reads_checkConfiguredRemote: "reads (checkConfiguredRemote cwd r push)"
  by (auto simp: checkConfiguredRemote_def Let_def intro!: reads_intros split: sum.split option.split)

lemma reads_urls: "reads (assertSafeSubmoduleUrls cs command)"
  by (induction cs command rule: assertSafeSubmoduleUrls.induct) (auto split: option.split)

lemma reads_assertSafeSubmoduleConfig: "reads (assertSafeSubmoduleConfig cwd)"
  by (auto simp: assertSafeSubmoduleConfig_def intro!: reads_intros reads_runMeaningfulExit reads_urls split: option.split)

lemmas after_intros = after_reads [OF reads_readHeadFacts] after_reads [OF reads_head_or_none]
  after_reads [OF reads_countConflictedPaths] after_reads [OF reads_checkStashLocator]
  after_reads [OF reads_checkConfiguredRemote] after_reads [OF reads_assertSafeSubmoduleConfig]

section \<open>Sound ends\<close>

text \<open>
  Of a run with the writing commands \<open>w\<close>: none ran twice; if it is reported as done, something ran and
  every command exited with zero; and if a command timed out or was killed, the end leaves it open.
\<close>

definition cut_short :: "git_result \<Rightarrow> bool" where
  "cut_short r \<longleftrightarrow> gr_termination r = TimedOut \<or> gr_termination r = Signalled"

definition sound_log :: "git_log \<Rightarrow> bool \<Rightarrow> bool \<Rightarrow> bool" where
  "sound_log w finished open' \<longleftrightarrow>
     distinct (map fst w) \<and>
     (finished \<longrightarrow> w \<noteq> [] \<and> list_all (\<lambda>(c, r). exit_zero r) w) \<and>
     (list_ex (\<lambda>(c, r). cut_short r) w \<longrightarrow> open')"

lemma exit_zero_not_cut [simp]: "exit_zero r \<Longrightarrow> \<not> cut_short r"
  by (auto simp: exit_zero_def cut_short_def)

lemma isUncertain_codes [simp]:
  "isUncertain (failureCodeOf t) \<longleftrightarrow> t = TimedOut \<or> t = Signalled \<or> t = OutputLimit"
  by (cases t) (auto simp: isUncertain_def)

definition cut_code :: "string \<Rightarrow> bool" where
  "cut_code code \<longleftrightarrow> code = ''GitTimedOut'' \<or> code = ''GitTerminatedBySignal''"

lemma cut_code_iff [simp]:
  "cut_code (failureCodeOf t) \<longleftrightarrow> t = TimedOut \<or> t = Signalled"
  "cut_code (failure_kind t) \<longleftrightarrow> t = TimedOut \<or> t = Signalled"
  by (cases t; simp add: cut_code_def)+

lemma cut_code_literals [simp]:
  "cut_code ''GitTimedOut''" "cut_code ''GitTerminatedBySignal''" "\<not> cut_code ''GitOutputLimitExceeded''"
  by (simp_all add: cut_code_def)

definition cmd_ok :: "git_log \<Rightarrow> failure + command_outcome \<Rightarrow> bool" where
  "cmd_ok w x \<longleftrightarrow> sound_log w (x = Inr CmdDone) (\<exists>f. x = Inr (CmdRefused f) \<and> cut_code (cf_code f))"

lemma after_runSpec: "mutating c \<Longrightarrow> after cmd_ok [] (runSpec c)"
  by (auto simp: runSpec_def runRequired_def refuse_workflow_error_def cmd_ok_def sound_log_def failureFor_def
        cut_short_def exit_zero_def)

lemma after_runPlanned: "(\<And>c. plan = Inr c \<Longrightarrow> mutating c) \<Longrightarrow> after cmd_ok [] (runPlanned plan)"
  by (cases plan) (auto simp: runPlanned_def after_runSpec cmd_ok_def sound_log_def)

lemma after_runQuiet: "mutating c \<Longrightarrow> after cmd_ok [] (runQuiet c)"
  by (auto simp: runQuiet_def cmd_ok_def sound_log_def refusal_of_result_def cut_short_def exit_zero_def)

lemma after_runChecked: "mutating c \<Longrightarrow> reads p \<Longrightarrow> after cmd_ok [] (runChecked p c)"
  by (auto simp: runChecked_def runRequired_def cmd_ok_def sound_log_def failureFor_def
        cut_short_def exit_zero_def split: failure.split sum.split intro!: after_reads)

section \<open>Merges, picks, rebases, drops, squashes\<close>

definition stop_ok :: "bool \<Rightarrow> git_log \<Rightarrow> failure + stop_outcome \<Rightarrow> bool" where
  "stop_ok trusted w x \<longleftrightarrow>
     sound_log w (trusted \<and> (\<exists>same h. x = Inr (Completed same h))) (\<exists>code. x = Inr (UnknownOutcome code))"

lemma after_in_progress [simp]: "\<not> mutating c \<Longrightarrow> after R w (in_progress c) \<longleftrightarrow> (\<forall>r. R w (Inr (exit_zero r)))"
  by (simp add: in_progress_def)

lemmas probes = mergeInProgress_def revertInProgress_def cherryPickInProgress_def rebaseInProgress_def

lemma stop_ok_refusals [simp]:
  "stop_ok t [] (Inl e)" "stop_ok t [] (Inr (RefusedFirst m))"
  by (simp_all add: stop_ok_def sound_log_def)

lemma after_refuse_if: "after (stop_ok t) [] p \<Longrightarrow> \<not> mutating c \<Longrightarrow> after (stop_ok t) [] (refuse_if (in_progress c) m p)"
  by (simp add: refuse_if_def)

lemma after_refuse_unless:
  "after (stop_ok t) [] p \<Longrightarrow> \<not> mutating c \<Longrightarrow> after (stop_ok t) [] (refuse_unless (in_progress c) m p)"
  by (simp add: refuse_unless_def)

lemma after_completed:
  "(\<And>h. R w (Inr (Completed False h))) \<Longrightarrow> (\<And>e. R w (Inl e)) \<Longrightarrow> after R w (completed cwd)"
  by (auto simp: completed_def split: sum.split intro!: after_intros)

lemma after_abort_with: "mutating c \<Longrightarrow> after (stop_ok True) [] (abort_with cwd c)"
  by (auto simp: abort_with_def stopped_def stop_ok_def sound_log_def cut_short_def exit_zero_def intro!: after_completed)

lemma after_continue_with_probe:
  "mutating c \<Longrightarrow> \<not> mutating b \<Longrightarrow> after (stop_ok False) [] (continue_with_probe cwd (in_progress b) c)"
  by (auto simp: continue_with_probe_def stopped_def stop_ok_def sound_log_def cut_short_def exit_zero_def
        split: sum.split intro!: after_completed after_intros)

lemma after_undo_stop:
  assumes "mutating c" "mutating c0" "c \<noteq> c0" "\<not> exit_zero r" "\<not> isUncertain (failureCodeOf (gr_termination r))"
  shows "after (stop_ok t) [(c0, r)] (undo_stop c r)"
  using assms by (auto simp: undo_stop_def stop_ok_def sound_log_def cut_short_def exit_zero_def)

lemma plan_description [simp]:
  "gc_description (plan_spec cwd d e a) = e" "gc_description (stdin_spec cwd d e a b) = e"
  by (simp_all add: plan_spec_def stdin_spec_def)

lemma different_descriptions: "gc_description c \<noteq> gc_description d \<Longrightarrow> c \<noteq> d"
  by auto

lemma starts_and_aborts [simp]:
  "planRevertAbort cwd \<noteq> planRevertCommit cwd a" "planCherryPickAbort cwd \<noteq> planCherryPick cwd a"
  "planRebaseAbort cwd \<noteq> planRebase cwd a" "planRebaseAbort cwd \<noteq> planDropCommitRebase cwd a p"
  by (rule different_descriptions; simp add: write_plans)+

lemma after_conflicts_or_undo:
  assumes "mutating c" "mutating c0" "c \<noteq> c0" "\<not> exit_zero r" "\<not> isUncertain (failureCodeOf (gr_termination r))"
  shows "after (stop_ok t) [(c0, r)] (conflicts_or_undo cwd c r)"
  using assms
  by (auto simp: conflicts_or_undo_def intro!: after_intros after_undo_stop split: sum.split)
     (auto simp: stop_ok_def sound_log_def cut_short_def)

lemma after_rebase_with:
  assumes "mutating c" "planRebaseAbort cwd \<noteq> c"
  shows "after (stop_ok True) [] (rebase_with cwd c)"
  using assms
  by (auto simp: rebase_with_def stopped_def probes intro!: after_completed after_conflicts_or_undo)
     (auto simp: stop_ok_def sound_log_def cut_short_def exit_zero_def)

lemma after_mergeSource: "after (stop_ok True) [] (mergeSource cwd a noFf m)"
  by (auto simp: mergeSource_def stopped_def probes split: sum.split intro!: after_intros after_refuse_if)
     (auto simp: stop_ok_def sound_log_def cut_short_def exit_zero_def)

lemma after_continueMerge: "after (stop_ok False) [] (continueMerge cwd m)"
  by (auto simp: continueMerge_def stopped_def probes intro!: after_completed after_refuse_unless)
     (auto simp: stop_ok_def sound_log_def cut_short_def exit_zero_def)

lemma after_revertCommit: "after (stop_ok True) [] (revertCommit cwd a)"
  by (auto simp: revertCommit_def stopped_def probes Let_def intro!: after_completed after_refuse_if after_undo_stop)
     (auto simp: stop_ok_def sound_log_def cut_short_def exit_zero_def)

lemma after_resetBranch: "after (stop_ok True) [] (resetBranch cwd a soft)"
  by (auto simp: resetBranch_def stopped_def probes intro!: after_completed after_refuse_if)
     (auto simp: stop_ok_def sound_log_def cut_short_def exit_zero_def)

lemma after_cherryPick: "after (stop_ok True) [] (cherryPick cwd a)"
  by (auto simp: cherryPick_def stopped_def probes Let_def intro!: after_completed after_refuse_if after_conflicts_or_undo)
     (auto simp: stop_ok_def sound_log_def cut_short_def exit_zero_def)

lemma after_aborts:
  "after (stop_ok True) [] (abortMerge cwd)" "after (stop_ok True) [] (abortCherryPick cwd)"
  "after (stop_ok True) [] (abortRebase cwd)"
  by (simp_all add: abortMerge_def abortCherryPick_def abortRebase_def probes after_refuse_unless after_abort_with)

lemma after_continues:
  "after (stop_ok False) [] (continueCherryPick cwd)" "after (stop_ok False) [] (continueRebase cwd)"
  by (simp_all add: continueCherryPick_def continueRebase_def probes after_refuse_unless after_continue_with_probe)

lemma after_rebase: "after (stop_ok True) [] (rebase cwd a)"
  by (simp add: rebase_def probes after_refuse_if after_rebase_with)

lemma after_no_open_operation: "after (stop_ok t) [] p \<Longrightarrow> after (stop_ok t) [] (no_open_operation cwd p)"
  by (simp add: no_open_operation_def probes after_refuse_if)

lemma after_dropCommit: "after (stop_ok True) [] (dropCommit cwd a)"
  by (auto simp: dropCommit_def intro!: after_no_open_operation after_rebase_with)

lemma amend_is_no_reset: "planAmendCommit cwd m = Inr c \<Longrightarrow> c \<noteq> planSquashSoftReset cwd"
  by (auto simp: planAmendCommit_def write_plans stdin_spec_def plan_spec_def split: option.splits if_splits)

lemma after_squashTopCommit: "after (stop_ok True) [] (squashTopCommit cwd m)"
  by (auto simp: squashTopCommit_def stopped_def split: sum.split intro!: after_intros after_completed after_no_open_operation)
     (auto simp: stop_ok_def sound_log_def cut_short_def exit_zero_def dest: amend_is_no_reset planned_write)

section \<open>Effects\<close>

definition left_open :: "failure + effect_outcome \<Rightarrow> bool" where
  "left_open x \<longleftrightarrow> (\<exists>p. x = Inr (OutcomeUnknown p) \<or> x = Inr (OutcomeNeedsAttention p))"

definition run_ok :: "bool \<Rightarrow> bool \<Rightarrow> git_log \<Rightarrow> failure + effect_outcome \<Rightarrow> bool" where
  "run_ok t u w x \<longleftrightarrow> sound_log w (t \<and> (\<exists>v. x = Inr (OutcomeSucceeded v))) (u \<longrightarrow> left_open x)"

lemma after_mono: "after R w p \<Longrightarrow> (\<And>w x. R w x \<Longrightarrow> S w x) \<Longrightarrow> after S w p"
  by (induction p arbitrary: w) auto

lemma sound_log_mono: "sound_log w a b \<Longrightarrow> (a' \<Longrightarrow> a) \<Longrightarrow> (b \<Longrightarrow> b') \<Longrightarrow> sound_log w a' b'"
  by (auto simp: sound_log_def)

lemma sound_log_Nil: "\<not> a \<Longrightarrow> sound_log [] a b"
  by (simp add: sound_log_def)

lemma run_ok_Nil: "\<not> t \<or> (\<forall>v. x \<noteq> Inr (OutcomeSucceeded v)) \<Longrightarrow> run_ok t u [] x"
  by (auto simp: run_ok_def sound_log_def)

lemma outcome_kinds [simp]:
  "failedOp i c m \<noteq> OutcomeSucceeded v" "unknownOutcome i m \<noteq> OutcomeSucceeded v"
  "needsAttention i m \<noteq> OutcomeSucceeded v" "conflicts_remain i n m \<noteq> OutcomeSucceeded v"
  "left_open (Inr (unknownOutcome i m))" "left_open (Inr (needsAttention i m))"
  "left_open (Inr (OutcomeUnknown q))" "left_open (Inr (OutcomeNeedsAttention q))"
  by (auto simp: failedOp_def unknownOutcome_def needsAttention_def conflicts_remain_def left_open_def)

lemma gitFailure_kinds [simp]:
  "gitFailureOutcome i what f \<noteq> OutcomeSucceeded v" "cut_code (cf_code f) \<Longrightarrow> left_open (Inr (gitFailureOutcome i what f))"
  "writeOutcomeFromGit i f \<noteq> OutcomeSucceeded v" "cut_code (cf_code f) \<Longrightarrow> left_open (Inr (writeOutcomeFromGit i f))"
  by (auto simp: writeOutcomeFromGit_def gitFailureOutcome_def cut_code_def)

lemma after_orFail: "(\<And>a. m = Inr a \<Longrightarrow> after (run_ok t u) [] (k a)) \<Longrightarrow> after (run_ok t u) [] (orFail m k)"
  by (auto simp: orFail_def run_ok_Nil split: sum.split)

lemma cmd_ok_run_ok:
  "cmd_ok w (Inl e) \<Longrightarrow> run_ok t u w (Inl e)"
  "cmd_ok w (Inr (CmdRefused f)) \<Longrightarrow> run_ok t u w (Inr (writeOutcomeFromGit i f))"
  "cmd_ok w (Inr CmdDone) \<Longrightarrow> run_ok t u w (Inr (OutcomeSucceeded v))"
  by (auto simp: cmd_ok_def run_ok_def elim!: sound_log_mono)

lemma after_after_command:
  "after cmd_ok [] p \<Longrightarrow> after (run_ok t u) [] (after_command env p (OutcomeSucceeded v))"
  by (auto simp: after_command_def cmd_ok_run_ok elim!: after_mono split: sum.split command_outcome.split)

lemma after_runBranchCommand:
  "after cmd_ok [] p \<Longrightarrow> after (run_ok t u) [] (runBranchCommand env cwd p summary refs)"
  by (auto simp: runBranchCommand_def succeeded_def cmd_ok_run_ok elim!: after_mono intro!: after_intros
        split: sum.split command_outcome.split)
     (auto simp: cmd_ok_def run_ok_def elim!: sound_log_mono)

lemma remote_plans_differ [simp]:
  "planRemoteAdd cwd r u' \<noteq> planRemoteSetUrl cwd r' u p" "planRemoteRename cwd r n \<noteq> planRemoteSetUrl cwd r' u p"
  "planRemoteSetUrl cwd r u' p \<noteq> planRemoteAdd cwd r' u" "planRemoteSetUrl cwd r u' p \<noteq> planRemoteRename cwd r' n"
  "planFetch cwd r prune noTags \<noteq> planFastForwardMerge cwd ref" "planFastForwardMerge cwd ref \<noteq> planFetch cwd r prune noTags"
  by (rule different_descriptions; simp add: write_plans)+

lemma set_url_plans_differ [simp]:
  "planRemoteSetUrl cwd r u False \<noteq> planRemoteSetUrl cwd r u' True"
  "planRemoteSetUrl cwd r u' True \<noteq> planRemoteSetUrl cwd r u False"
  by (auto simp: planRemoteSetUrl_def plan_spec_def flag_def words_def)

lemmas ends = cmd_ok_def run_ok_def sound_log_def cut_short_def exit_zero_def

lemma after_addRemote: "after cmd_ok [] (addRemote cwd r u p)"
  by (cases p) (auto simp: addRemote_def runQuiet_def ends refusal_of_result_def)

lemma after_updateRemote:
  "n \<noteq> None \<or> u \<noteq> None \<or> p \<noteq> None \<Longrightarrow> after cmd_ok [] (updateRemote cwd r n u p)"
  by (cases n; cases u; cases p)
     (auto simp: updateRemote_def and_then_def runQuiet_def ends refusal_of_result_def)

lemma after_runCreation:
  "mutating c \<Longrightarrow> after (run_ok True True) [] (bindP (runCreation c before observe) (finishCreation env what wk summary))"
  by (auto simp: runCreation_def finishCreation_def Let_def succeeded_def split: sum.split option.split
        intro!: after_intros)
     (auto simp: ends)

lemma after_fetchRemote:
  "after (\<lambda>w x. sound_log w (\<exists>p. x = Inr (NetDone p)) ((\<exists>m. x = Inr (NetUncertain m)) \<or> (\<exists>f. x = Inr (NetRefused f) \<and> cut_code (cf_code f))))
     [] (fetchRemote cwd r prune noTags)"
  by (auto simp: fetchRemote_def intro!: after_intros split: sum.split option.split)
     (auto simp: ends refusal_of_result_def)

lemma after_pushRef:
  "after (\<lambda>w x. sound_log w (\<exists>p. x = Inr (NetDone p)) True) [] (pushRef cwd r s d up)"
  by (auto simp: pushRef_def intro!: after_intros split: sum.split option.split)
     (auto simp: ends)

lemma after_pull:
  "after (\<lambda>w x. sound_log w (\<exists>p. x = Inr (NetDone p)) True) [] (pullFastForward cwd r b)"
  by (auto simp: pullFastForward_def fetchRemote_def Let_def intro!: after_intros split: sum.split option.split)
     (auto simp: ends)

definition reports_network :: "repository_operation \<Rightarrow> bool" where
  "reports_network op' = (case op' of Push _ _ _ _ \<Rightarrow> False | Pull _ \<Rightarrow> False | _ \<Rightarrow> True)"

lemma reports_network_simps [simp]:
  "\<not> reports_network (Push r s d up)" "\<not> reports_network (Pull r)" "reports_network (InitRepository b0)"
  "reports_network (CloneRepository url dest sub)" "reports_network (CreateBranch b oid sw)" "reports_network (SwitchBranch b)"
  "reports_network (RenameBranch b n)" "reports_network (DeleteBranch b c)" "reports_network (SetBranchUpstream b up')"
  "reports_network (AddRemote r u p)" "reports_network (UpdateRemote r n' u' p)" "reports_network (RemoveRemote r c)"
  "reports_network (Fetch r prune noTags)"
  by (simp_all add: reports_network_def)

lemmas branch_workflows = createBranch_def switchBranch_def renameBranch_def deleteBranch_def setBranchUpstream_def

lemma after_repository_effect:
  assumes "repository_problems zod op' target = []"
  shows "after (run_ok True (reports_network op')) [] (repository_effect env op')"
proof (cases op')
  case (UpdateRemote r n u p)
  then have run: "after cmd_ok [] (updateRemote cwd r n u p)" for cwd
    using assms by (intro after_updateRemote) (auto simp del: str_simps split: if_splits)
  then show ?thesis
    unfolding UpdateRemote repository_effect.simps updateRemoteEffect_def
    by (auto simp: succeeded_def intro!: after_orFail after_mono [OF run] split: sum.split command_outcome.split)
       (auto simp: cmd_ok_def run_ok_def elim!: sound_log_mono)
next
  case (Fetch r prune noTags)
  then show ?thesis
    by (auto simp: repository_effects succeeded_def networkFailure_def Let_def intro!: after_orFail after_mono [OF after_fetchRemote]
          split: sum.split network_outcome.split)
       (auto simp: run_ok_def elim!: sound_log_mono)
next
  case (Push r s d up)
  then show ?thesis
    by (auto simp: repository_effects succeeded_def networkFailure_def Let_def intro!: after_orFail after_mono [OF after_pushRef]
          split: sum.split network_outcome.split)
       (auto simp: run_ok_def elim!: sound_log_mono)
next
  case (Pull r)
  then show ?thesis
    by (auto simp: repository_effects succeeded_def networkFailure_def Let_def intro!: after_orFail after_mono [OF after_pull] after_intros
          split: sum.split network_outcome.split option.split)
       (auto simp: run_ok_def sound_log_Nil elim!: sound_log_mono)
qed (auto simp: repository_effects initRepository_def cloneRepository_def branch_workflows removeRemote_def succeeded_def
      simp del: after_bindP intro!: after_orFail after_runCreation after_runBranchCommand after_after_command after_runSpec after_addRemote
        after_runQuiet)

definition reports_tag :: "stash_tag_operation \<Rightarrow> bool" where
  "reports_tag op' = (case op' of PushTag _ _ \<Rightarrow> False | _ \<Rightarrow> True)"

lemma after_at_locator:
  "(\<And>facts. after (run_ok t u) [] (k facts)) \<Longrightarrow> after (run_ok t u) [] (at_locator env oid l k)"
  by (auto simp: at_locator_def locatorProblem_def run_ok_Nil split: sum.split option.split locator_check.split
        intro!: after_orFail after_intros)

lemma after_popStash:
  "after (run_ok True True) [] (bindP (popStash cwd l oid i) (\<lambda>out. ret (case out of
       PopDone \<Rightarrow> OutcomeSucceeded v
     | PopConflict d preserved \<Rightarrow> needsAttention i' (m d preserved)
     | PopRefused f \<Rightarrow> writeOutcomeFromGit i' f)))"
  by (auto simp: popStash_def Let_def split: sum.split pop_outcome.split intro!: after_intros)
     (auto simp: run_ok_def sound_log_def cut_short_def exit_zero_def pop_code_def)

lemma cmd_ok_Nil [simp]: "cmd_ok [] (Inl e)"
  by (simp add: cmd_ok_def sound_log_def)

lemma after_createTag:
  "after (run_ok True True) [] (bindP (createTag cwd t oid a) (\<lambda>out. ret (case out of
       TagCreated \<Rightarrow> OutcomeSucceeded v
     | TagExists \<Rightarrow> failedOp i c m
     | TagRefused f \<Rightarrow> writeOutcomeFromGit i f)))"
proof -
  have "after cmd_ok [] (runPlanned (case a of None \<Rightarrow> Inr (planTagCreateLightweight cwd t oid)
    | Some m \<Rightarrow> planTagCreateAnnotated cwd t oid m))"
    by (auto intro!: after_runPlanned dest: planned_write split: option.splits)
  then show ?thesis
    by (auto simp: createTag_def run_ok_Nil cmd_ok_run_ok elim!: after_mono split: sum.split command_outcome.split)
qed

lemmas stash_tag_workflows = createStash_def applyStash_def dropStash_def deleteTag_def

lemma after_stash_tag_effect: "after (run_ok True (reports_tag op')) [] (stash_tag_effect env op')"
proof (cases op')
  case (PopStash oid l i c)
  then show ?thesis
    unfolding PopStash stash_tag_effect.simps popStashEffect_def succeeded_def
    by (auto simp: reports_tag_def simp del: after_bindP intro!: after_at_locator after_popStash)
next
  case (CreateTag t oid a)
  then show ?thesis
    unfolding CreateTag stash_tag_effect.simps createTagEffect_def succeeded_def
    by (auto simp: reports_tag_def simp del: after_bindP intro!: after_orFail after_createTag)
next
  case (PushTag r t)
  then show ?thesis
    by (auto simp: pushTagEffect_def succeeded_def reports_tag_def intro!: after_orFail after_mono [OF after_pushRef]
          split: sum.split network_outcome.split)
       (auto simp: run_ok_def elim!: sound_log_mono)
qed (auto simp: stash_tag_effects stash_tag_workflows succeeded_def reports_tag_def simp del: after_bindP
      intro!: after_orFail after_at_locator after_after_command after_runSpec)

lemmas worktree_workflows = addWorktree_def removeWorktree_def lockWorktree_def unlockWorktree_def addSubmodule_def
  updateSubmodules_def syncSubmodules_def

lemma after_worktree_effect: "after (run_ok True True) [] (worktree_effect env op')"
  by (cases op')
     (auto simp: worktree_effects worktree_workflows succeeded_def run_ok_Nil simp del: after_bindP
        intro!: after_orFail after_after_command after_runChecked reads_assertSafeSubmoduleConfig)

definition settles :: "sequencer_operation \<Rightarrow> bool" where
  "settles op' = (case op' of ContinueMerge _ \<Rightarrow> False | ContinueCherryPick \<Rightarrow> False | ContinueRebase \<Rightarrow> False | _ \<Rightarrow> True)"

lemma after_sequenced:
  assumes "\<And>cwd. after (stop_ok t) [] (p cwd)"
    and "\<And>i out v. f i out = OutcomeSucceeded v \<Longrightarrow> \<exists>same h. out = Completed same h"
    and "\<And>i code. left_open (Inr (f i (UnknownOutcome code)))"
  shows "after (run_ok t True) [] (sequenced env p f)"
  using assms(2,3)
  by (auto simp: sequenced_def intro!: after_orFail after_mono [OF assms(1)] split: sum.split)
     (auto simp: stop_ok_def run_ok_def elim!: sound_log_mono)

lemma outcome_done:
  "start_outcome noun fin rc ab sm i out = OutcomeSucceeded v \<Longrightarrow> \<exists>same h. out = Completed same h"
  "continueOutcomeOf noun i out = OutcomeSucceeded v \<Longrightarrow> \<exists>same h. out = Completed same h"
  "abortOutcomeOf noun sh re i out = OutcomeSucceeded v \<Longrightarrow> \<exists>same h. out = Completed same h"
  "revertOutcomeOf i out = OutcomeSucceeded v \<Longrightarrow> \<exists>same h. out = Completed same h"
  "resetOutcomeOf i out = OutcomeSucceeded v \<Longrightarrow> \<exists>same h. out = Completed same h"
  "squashOutcomeOf i out = OutcomeSucceeded v \<Longrightarrow> \<exists>same h. out = Completed same h"
  by (auto simp: start_outcome_def continueOutcomeOf_def abortOutcomeOf_def revertOutcomeOf_def resetOutcomeOf_def
        squashOutcomeOf_def split: stop_outcome.splits)

lemma outcome_open:
  "left_open (Inr (start_outcome noun fin rc ab sm i (UnknownOutcome code)))"
  "left_open (Inr (continueOutcomeOf noun i (UnknownOutcome code)))"
  "left_open (Inr (abortOutcomeOf noun sh re i (UnknownOutcome code)))"
  "left_open (Inr (revertOutcomeOf i (UnknownOutcome code)))"
  "left_open (Inr (resetOutcomeOf i (UnknownOutcome code)))"
  "left_open (Inr (squashOutcomeOf i (UnknownOutcome code)))"
  by (simp_all add: start_outcome_def continueOutcomeOf_def abortOutcomeOf_def revertOutcomeOf_def resetOutcomeOf_def
        squashOutcomeOf_def)

lemmas start_outcomes = mergeOutcomeOf_def pickOutcomeOf_def rebaseOutcomeOf_def dropOutcomeOf_def

lemma after_sequencer_effect: "after (run_ok (settles op') True) [] (sequencer_effect env op')"
  by (cases op'; simp add: sequencer_effects settles_def start_outcomes; rule after_sequenced)
     (auto intro: after_mergeSource after_continueMerge after_aborts after_cherryPick after_continues after_rebase
        after_dropCommit dest: outcome_done simp: outcome_open)

lemma commit_result_sound:
  "sound_log [(c, r)] (\<exists>oid. commit_result amend before r after' = Committed oid)
     ((\<exists>oid code d. commit_result amend before r after' = CommittedWithComplaint oid code d) \<or>
      (\<exists>m. commit_result amend before r after' = CommitUncertain m))"
proof (cases "exit_zero r")
  case True
  then show ?thesis by (simp add: sound_log_def)
next
  case False
  then show ?thesis
    by (auto simp: sound_log_def cut_short_def commit_result_def not_committed_def split: option.split)
qed

lemma after_commitIndex:
  "after (\<lambda>w x. sound_log w (\<exists>oid. x = Inr (Committed oid))
      ((\<exists>oid code d. x = Inr (CommittedWithComplaint oid code d)) \<or> (\<exists>m. x = Inr (CommitUncertain m))))
     [] (commitIndex cwd m amend)"
proof -
  have w: "mutating c" if "plan_of_commit cwd m amend = Inr c" for c
    using that by (auto simp: plan_of_commit_def dest: planned_write split: option.splits if_splits)
  have "sound_log [(c, r)] False True" for c r
    by (simp add: sound_log_def)
  then show ?thesis
    using w commit_result_sound
    by (auto simp: commitIndex_def not_committed_def sound_log_Nil head_or_none_def
          intro!: after_intros split: sum.split)
qed

lemma after_committed:
  "after (run_ok True True) [] (bindP (commitIndex cwd m amend) (\<lambda>out. ret (commitOutcomeToEffect i verb out)))"
  by (auto simp: commitOutcomeToEffect_def intro!: after_mono [OF after_commitIndex] split: sum.split commit_outcome.split)
     (auto simp: run_ok_def elim!: sound_log_mono)

lemmas staging_workflows = stageSelectedPaths_def unstageSelectedPaths_def restoreSelectedPaths_def

lemma after_staging_effect: "after (run_ok True True) [] (staging_effect env op')"
  by (cases op')
     (auto simp: staging_effects staging_workflows counted_outcome_def unless_stale_def run_ok_Nil simp del: after_bindP
        intro!: after_orFail after_after_command after_runPlanned after_committed after_sequenced after_revertCommit
          after_resetBranch after_squashTopCommit dest: planned_paths_write outcome_done
        simp: outcome_open split: option.split if_splits)

section \<open>Any operation\<close>

text \<open>
  The three continuing operations decide by a probe what a failing command did; pushes and pulls report
  the refs Git printed before it was stopped.
\<close>

primrec ends_by_exit :: "operation \<Rightarrow> bool" where
  "ends_by_exit (RepositoryOp op') \<longleftrightarrow> True"
| "ends_by_exit (StashTagOp op') \<longleftrightarrow> True"
| "ends_by_exit (WorktreeOp op') \<longleftrightarrow> True"
| "ends_by_exit (SequencerOp op') \<longleftrightarrow> settles op'"
| "ends_by_exit (StagingOp op') \<longleftrightarrow> True"

primrec reports_refs :: "operation \<Rightarrow> bool" where
  "reports_refs (RepositoryOp op') \<longleftrightarrow> \<not> reports_network op'"
| "reports_refs (StashTagOp op') \<longleftrightarrow> \<not> reports_tag op'"
| "reports_refs (WorktreeOp op') \<longleftrightarrow> False"
| "reports_refs (SequencerOp op') \<longleftrightarrow> False"
| "reports_refs (StagingOp op') \<longleftrightarrow> False"

lemma after_run_effect:
  "accepted zod op' target \<Longrightarrow> after (run_ok (ends_by_exit op') (\<not> reports_refs op')) [] (run_effect env op')"
  by (cases op')
     (auto simp: accepted_def after_repository_effect after_stash_tag_effect after_worktree_effect
        after_sequencer_effect after_staging_effect)

lemma run_sound:
  assumes "accepted zod op' target" "exec g [] (run_effect env op') = (h, x)"
  shows "run_ok (ends_by_exit op') (\<not> reports_refs op') (writes h) x"
  using after_exec [of _ "[]"] after_run_effect assms by fastforce

text \<open>
  C15. Success is Git's success. Whatever Git answers, an accepted operation that is not one of the three
  continuing ones is reported as succeeded only if it ran a writing command, and then every writing
  command it ran exited with zero.
\<close>

theorem success_is_gits:
  assumes "accepted zod op' target" and "ends_by_exit op'"
    and "exec g [] (run_effect env op') = (h, Inr (OutcomeSucceeded v))"
  shows "writes h \<noteq> [] \<and> (\<forall>(c, r) \<in> set (writes h). exit_zero r)"
  using run_sound [OF assms(1,3)] assms(2) by (simp add: run_ok_def sound_log_def list_all_iff)

text \<open>
  C16. A command that was cut short is never settled. If a writing command of an operation other than a push
  or a pull ends by its deadline or by a signal, the operation is reported as unknown or as needing
  attention, never as succeeded or failed, and no command runs that would undo or repeat it unseen.
\<close>

theorem cut_short_is_left_open:
  assumes "accepted zod op' target" and "\<not> reports_refs op'"
    and "exec g [] (run_effect env op') = (h, x)" and "(c, r) \<in> set h" and "mutating c" and "cut_short r"
  shows "\<exists>p. x = Inr (OutcomeUnknown p) \<or> x = Inr (OutcomeNeedsAttention p)"
proof -
  have "list_ex (\<lambda>(c, r). cut_short r) (writes h)"
    using assms(4-6) by (auto simp: list_ex_iff writes_def)
  then show ?thesis
    using run_sound [OF assms(1,3)] assms(2) by (simp add: run_ok_def sound_log_def left_open_def)
qed

text \<open>
  Nothing is retried. In one run of an accepted operation no writing command, with its arguments and
  its input, is run twice, whatever Git answers.
\<close>

theorem nothing_is_retried:
  assumes "accepted zod op' target" and "exec g [] (run_effect env op') = (h, x)"
  shows "distinct (map fst (writes h))"
  using run_sound [OF assms] by (simp add: run_ok_def sound_log_def)

end
