(* ===== verification/OptionRules.thy ===== *)
theory OptionRules
  imports RunRules
begin

text \<open>
  Text that a client sends never becomes an option of Git. \<open>option_names\<close> reads an argument vector the way
  Git's own commands do: words that start with a dash, up to a word \<^verbatim>\<open>--\<close>, without the values of the
  options that take the next word. For every accepted operation the names are those the planners write.
\<close>

section \<open>Options of a vector\<close>

definition takes_value :: "jsstring \<Rightarrow> bool" where
  "takes_value w \<longleftrightarrow> w = str ''-m'' \<or> w = str ''-b'' \<or> w = str ''-c''"

fun option_names :: "jsstring list \<Rightarrow> jsstring list" where
  "option_names [] = []"
| "option_names (w # ws) =
     (if w = str ''--'' then []
      else if takes_value w then w # (case ws of [] \<Rightarrow> [] | _ # vs \<Rightarrow> option_names vs)
      else if take 1 w = str ''-'' then takeWhile (\<lambda>c. c \<noteq> 0x3d) w # option_names ws
      else option_names ws)"

definition known_options :: "string list" where
  "known_options =
     [''-m'', ''-b'', ''-c'', ''--abbrev-ref'', ''--abort'', ''--amend'', ''--annotate'', ''--cached'', ''--checkout'', ''--cleanup'',
      ''--continue'', ''--create'', ''--delete'', ''--detach'', ''--ff-only'', ''--file'', ''--get-regexp'', ''--include-untracked'',
      ''--index'', ''--init'', ''--initial-branch'', ''--is-ancestor'', ''--keep-index'', ''--literal-pathspecs'', ''--message'',
      ''--mixed'', ''--move'', ''--no-edit'', ''--no-ff'', ''--no-follow-tags'', ''--no-tags'', ''--onto'', ''--pathspec-file-nul'',
      ''--pathspec-from-file'', ''--porcelain'', ''--prune'', ''--push'', ''--quiet'', ''--reason'', ''--recurse-submodules'',
      ''--recursive'', ''--set-upstream'', ''--set-upstream-to'', ''--soft'', ''--stage'', ''--staged'', ''--symbolic-full-name'',
      ''--tags'', ''--unmerged'', ''--unset-upstream'', ''--verify'', ''--worktree'', ''-r'', ''-v'', ''-z'']"

text \<open>The ones that would rewrite or run what the user did not ask for are not among them.\<close>

definition dangerous_options :: "string list" where
  "dangerous_options =
     [''--force'', ''-f'', ''--force-with-lease'', ''--hard'', ''-D'', ''-d'', ''--mirror'', ''--all'', ''--exec'', ''-x'', ''--upload-pack'',
      ''-u'', ''--receive-pack'', ''--config'', ''--template'', ''--no-verify'', ''--output'', ''--strategy'', ''--gpg-sign'']"

definition known_only :: "git_command \<Rightarrow> bool" where
  "known_only c \<longleftrightarrow> set (option_names (gc_argv c)) \<subseteq> set (map str known_options)"

lemma known_not_dangerous: "set (map str known_options) \<inter> set (map str dangerous_options) = {}"
  by (simp add: str_inj known_options_def dangerous_options_def del: str_simps)

text \<open>A word that is neither empty nor starts with a dash.\<close>

definition plain :: "jsstring \<Rightarrow> bool" where
  "plain w \<longleftrightarrow> w \<noteq> [] \<and> hd w \<noteq> 0x2d"

lemma plain_append [simp]: "plain v \<Longrightarrow> plain (v @ w)"
  by (cases v) (simp_all add: plain_def)

lemma plain_takeWhile: "plain (takeWhile P w) \<Longrightarrow> plain w"
  by (cases w) (auto simp: plain_def split: if_splits)

lemma of_char_dash: "(of_char c :: code_unit) = 0x2d \<longleftrightarrow> c = CHR ''-''" "(of_char c :: code_unit) = 0x3d \<longleftrightarrow> c = CHR ''=''"
  using of_char_word_inj(2) [of c "CHR ''-''"] of_char_word_inj(2) [of c "CHR ''=''"] by simp_all

lemma plain_str: "plain (str s) \<longleftrightarrow> s \<noteq> [] \<and> hd s \<noteq> CHR ''-''"
  by (cases s) (auto simp: plain_def of_char_dash)

lemma option_names_plain [simp]: "plain w \<Longrightarrow> option_names (w # ws) = option_names ws"
  by (cases w) (auto simp: plain_def takes_value_def)

lemma takeWhile_str: "takeWhile (\<lambda>c. c \<noteq> 0x3d) (str s) = str (takeWhile (\<lambda>c. c \<noteq> CHR ''='') s)"
  by (induction s) (auto simp: of_char_dash)

lemma take_str: "take n (str s) = str (take n s)"
  by (simp add: str_def take_map)

lemma option_names_word:
  "option_names (str w # ws) =
     (if w = ''--'' then []
      else if w = ''-m'' \<or> w = ''-b'' \<or> w = ''-c'' then str w # (case ws of [] \<Rightarrow> [] | _ # vs \<Rightarrow> option_names vs)
      else if take 1 w = ''-'' then str (takeWhile (\<lambda>c. c \<noteq> CHR ''='') w) # option_names ws
      else option_names ws)"
  unfolding option_names.simps takes_value_def str_inj takeWhile_str take_str ..

text \<open>A word with its value attached.\<close>

lemma option_names_attached:
  assumes "CHR ''='' \<in> set w" "take 1 w = ''-''" "take 2 w = ''--''"
  shows "option_names ((str w @ v) # ws) = str (takeWhile (\<lambda>c. c \<noteq> CHR ''='') w) # option_names ws"
proof -
  have "(0x3d :: code_unit) \<in> set (str w)"
    using assms(1) by (force simp: str_def of_char_dash)
  then have "takeWhile (\<lambda>c. c \<noteq> 0x3d) (str w @ v) = str (takeWhile (\<lambda>c. c \<noteq> CHR ''='') w)"
    by (simp add: takeWhile_append1 takeWhile_str)
  moreover obtain a b u where w: "w = a # b # u"
    using assms(2,3) by (cases w; cases "tl w") auto
  moreover have "u \<noteq> []"
    using assms w by auto
  ultimately show ?thesis
    using assms by (auto simp: takes_value_def of_char_word_inj)
qed

section \<open>The planners\<close>

declare option_names.simps(2) [simp del]

lemma in_known: "str w \<in> set (map str known_options) \<longleftrightarrow> w \<in> set known_options"
  by (auto simp: str_inj)

lemma all_members: "ks = ls \<Longrightarrow> list_all (\<lambda>w. w \<in> set ks) ls"
  by (simp add: list_all_iff)

lemmas known_members [simp] = all_members [OF known_options_def, unfolded list.pred_inject]

lemma option_names_append_words:
  "option_names (words (w # ws) @ vs) = option_names (str w # words ws @ vs)"
  "option_names (words [] @ vs) = option_names vs" "option_names (words (w # ws)) = option_names (str w # words ws)"
  "words [] = []"
  "(case words (w # ws) @ vs of [] \<Rightarrow> b | v # us \<Rightarrow> f us) = f (words ws @ vs)"
  "(case words (w # ws) of [] \<Rightarrow> b | v # us \<Rightarrow> f us) = f (words ws)"
  by (simp_all add: words_def)

lemma option_names_flag:
  "option_names (flag b w @ vs) = (if b then option_names (str w # vs) else option_names vs)"
  "option_names (opt_word None @ vs) = option_names vs" "option_names (opt_word (Some v) @ vs) = option_names (v # vs)"
  "option_names (flag b w) = (if b then option_names [str w] else [])"
  "option_names (opt_word None) = []" "option_names (opt_word (Some v)) = option_names [v]"
  by (simp_all add: flag_def opt_word_def)

lemmas vector_simps = option_names_append_words option_names_flag option_names_word option_names_attached in_known
  known_only_def

lemma plain_literals [simp]:
  "plain (str (c # s)) \<longleftrightarrow> c \<noteq> CHR ''-''" "plain (str (c # s) @ v) \<longleftrightarrow> c \<noteq> CHR ''-''"
  by (simp_all add: plain_def of_char_dash)

lemma known_probes:
  "known_only (planCherryPickInProgress cwd)" "known_only (planMergeInProgress cwd)" "known_only (planRebaseInProgress cwd)"
  "known_only (planRevertInProgress cwd)" "known_only (planHeadRef cwd)" "known_only (planHeadOid cwd)"
  "known_only (planLsFilesUnmerged cwd)" "known_only (planRemotes cwd)" "known_only (planSubmoduleConfig cwd)"
  "known_only (emptyProbe cwd)" "known_only (planTagExists cwd t)"
  by (simp_all add: vector_simps probe_plans del: str_simps)

lemma known_probes_of:
  "plain l \<Longrightarrow> known_only (planStashResolve cwd l)" "plain a \<Longrightarrow> known_only (planDropCommitAncestry cwd a)"
  "plain a \<Longrightarrow> known_only (planDropCommitSecondParent cwd a)" "plain a \<Longrightarrow> known_only (planDropCommitParent cwd a)"
  "plain a \<Longrightarrow> known_only (planResolveCommit cwd a)" "plain b \<Longrightarrow> known_only (planBranchUpstreamRef cwd b)"
  by (simp_all add: vector_simps probe_plans del: str_simps)

lemma known_branches:
  "plain b \<Longrightarrow> nullable plain s \<Longrightarrow> known_only (planBranchCreate cwd b s)"
  "plain b \<Longrightarrow> nullable plain s \<Longrightarrow> known_only (planBranchCreateAndSwitch cwd b s)"
  "known_only (planBranchSwitch cwd b)" "plain b \<Longrightarrow> plain n \<Longrightarrow> known_only (planBranchRename cwd b n)"
  "plain b \<Longrightarrow> known_only (planBranchDelete cwd b)" "plain b \<Longrightarrow> known_only (planBranchSetUpstream cwd b u)"
  by (cases s; simp add: vector_simps write_plans planBranchSetUpstream_def split: option.split del: str_simps)+

lemma known_sequencer:
  "plain a \<Longrightarrow> known_only (planCherryPick cwd a)" "known_only (planCherryPickContinue cwd)" "known_only (planCherryPickAbort cwd)"
  "known_only (planSquashSoftReset cwd)" "plain a \<Longrightarrow> plain p \<Longrightarrow> known_only (planDropCommitRebase cwd a p)"
  "plain a \<Longrightarrow> known_only (planMerge cwd a noFf m)" "known_only (planMergeContinue cwd m)" "known_only (planMergeAbort cwd)"
  "plain a \<Longrightarrow> known_only (planRebase cwd a)" "known_only (planRebaseContinue cwd)" "known_only (planRebaseAbort cwd)"
  "plain a \<Longrightarrow> known_only (planResetBranch cwd a soft)" "plain a \<Longrightarrow> known_only (planRevertCommit cwd a)"
  "known_only (planRevertAbort cwd)"
  by (simp_all add: vector_simps write_plans message_words_def split: option.split del: str_simps)

lemma known_stash_push: "known_only (planStashPush cwd m u' k)"
  by (cases m) (auto simp: vector_simps write_plans simp del: str_simps)

lemma known_stashes_tags:
  "plain l \<Longrightarrow> known_only (planStashApply cwd l i)"
  "plain l \<Longrightarrow> known_only (planStashPop cwd l i)" "plain l \<Longrightarrow> known_only (planStashDrop cwd l)"
  "known_only (planTagCreateLightweight cwd t oid)" "plain t \<Longrightarrow> known_only (planTagDelete cwd t)"
  by (simp_all add: vector_simps write_plans del: str_simps)

lemma known_remotes:
  "plain r \<Longrightarrow> plain url \<Longrightarrow> known_only (planRemoteAdd cwd r url)"
  "plain r \<Longrightarrow> plain url \<Longrightarrow> known_only (planRemoteSetUrl cwd r url p)"
  "plain r \<Longrightarrow> plain n \<Longrightarrow> known_only (planRemoteRename cwd r n)" "plain r \<Longrightarrow> known_only (planRemoteRemove cwd r)"
  "plain r \<Longrightarrow> known_only (planFetch cwd r prune noTags)"
  "plain r \<Longrightarrow> plain s \<Longrightarrow> known_only (planPush cwd r s d up)" "plain s \<Longrightarrow> known_only (planFastForwardMerge cwd s)"
  by (simp_all add: vector_simps write_plans del: str_simps)

lemma known_worktrees:
  "known_only (planRepositoryInit cwd dest b)" "known_only (planRepositoryClone cwd url dest sub)"
  "known_only (planSubmoduleAdd cwd url path b)" "known_only (planSubmoduleUpdate cwd ps i rec)"
  "known_only (planSubmoduleSync cwd ps rec)" "plain path \<Longrightarrow> known_only (planWorktreeRemove cwd path)"
  "plain path \<Longrightarrow> known_only (planWorktreeLock cwd path b)" "plain path \<Longrightarrow> known_only (planWorktreeUnlock cwd path)"
  by (cases b; simp add: vector_simps write_plans del: str_simps)+

lemma known_worktree_add: "known_only (planWorktreeAdd cwd dest reference)"
  by (cases reference) (simp_all add: vector_simps del: str_simps)

lemma known_commits:
  "planCommit cwd m = Inr c \<Longrightarrow> known_only c" "planAmendCommit cwd m' = Inr c \<Longrightarrow> known_only c"
  "nullable plain oid \<Longrightarrow> plain t \<Longrightarrow> planTagCreateAnnotated cwd t oid m = Inr c \<Longrightarrow> known_only c"
  by (cases oid; auto simp: planCommit_def planAmendCommit_def planTagCreateAnnotated_def vector_simps
        simp del: str_simps split: option.splits if_splits)+

lemma known_paths:
  "planStage cwd ps = Inr c \<Longrightarrow> known_only c" "planUnstage cwd ps = Inr c \<Longrightarrow> known_only c"
  "planUnstageUnborn cwd ps = Inr c \<Longrightarrow> known_only c" "planRestoreWorktree cwd ps = Inr c \<Longrightarrow> known_only c"
  by (auto simp: planStage_def planUnstage_def planUnstageUnborn_def planRestoreWorktree_def pathspec_plan_def
        pathspecStdin_def vector_simps simp del: str_simps split: if_splits)

section \<open>What a client may send is plain\<close>

lemma dash_is_no_digit: "\<not> isHexDigit (0x2d :: code_unit)" "\<not> is_alnum 0x2d"
  by (simp_all add: isHexDigit_def isDigit_def is_alnum_def is_letter_def)

lemma plain_hd: "s \<noteq> [] \<Longrightarrow> P (hd s) \<Longrightarrow> \<not> P 0x2d \<Longrightarrow> plain s"
  by (metis plain_def)

lemma plain_object_name:
  assumes "isObjectName a"
  shows "plain a"
proof (rule plain_hd [where P = isHexDigit])
  show "a \<noteq> []" using assms by (auto simp: isObjectName_def)
  then show "isHexDigit (hd a)" using assms by (simp add: isObjectName_def list_all_iff)
qed (rule dash_is_no_digit)

lemma plain_startsWith: "startsWith s p \<Longrightarrow> plain p \<Longrightarrow> plain s"
  by (auto simp: startsWith_iff)

lemma plain_iff: "plain s \<longleftrightarrow> s \<noteq> [] \<and> \<not> startsWith s (str ''-'')"
  by (cases s) (auto simp: plain_def startsWith_def)

lemma findings_plain: "s \<noteq> [] \<Longrightarrow> ref_name_findings s = [] \<Longrightarrow> plain s"
  by (auto simp: plain_iff ref_name_findings_def simp del: str_simps split: if_splits)

lemma plain_names:
  "zod_reports zod \<Longrightarrow> validateBranchName zod s p = [] \<Longrightarrow> plain s"
  "zod_reports zod \<Longrightarrow> validateTagName zod s p = [] \<Longrightarrow> plain s"
  by (auto simp: validateBranchName_def validateTagName_def refNameComponentProblems_def branchNameSchema_def
        intro!: findings_plain split: if_splits)

lemma plain_full_ref:
  assumes "zod_reports zod" "validateFullRefName zod s p = []"
  shows "plain s"
proof (rule plain_startsWith)
  show "startsWith s (str ''refs/'')"
    using assms by (simp add: validateFullRefName_def fullRefNameSchema_def del: str_simps split: if_splits)
qed (simp add: plain_str del: str_simps)

lemma plain_remote_name:
  assumes "zod_reports zod" "validateRemoteName zod s p = []"
  shows "plain s"
proof (rule plain_hd [where P = is_alnum])
  have "remoteNameSchema s"
    using assms by (simp add: validateRemoteName_def del: str_simps split: if_splits)
  then show "s \<noteq> []" "is_alnum (hd s)"
    by (simp_all add: remoteNameSchema_def split: list.splits)
qed (rule dash_is_no_digit)

lemma plain_url: "zod_reports zod \<Longrightarrow> validateRemoteUrl zod s p = [] \<Longrightarrow> plain s"
  by (auto simp: validateRemoteUrl_def remoteUrlSchema_def plain_iff simp del: str_simps split: if_splits)

lemma plain_locator: "stashLocatorSchema s \<Longrightarrow> plain s"
  by (auto simp: stashLocatorSchema_def plain_def startsWith_iff)

lemmas plain_inputs = plain_object_name plain_names plain_full_ref plain_remote_name plain_url plain_locator

section \<open>Every command of a run\<close>

text \<open>\<open>asks A P p\<close>: as long as the answers satisfy \<open>A\<close>, every command \<open>p\<close> runs satisfies \<open>P\<close>.\<close>

primrec asks :: "(git_command \<Rightarrow> git_result \<Rightarrow> bool) \<Rightarrow> (git_command \<Rightarrow> bool) \<Rightarrow> 'a prog \<Rightarrow> bool" where
  "asks A P (Done x) \<longleftrightarrow> True"
| "asks A P (Run c k) \<longleftrightarrow> P c \<and> (\<forall>r. A c r \<longrightarrow> asks A P (k r))"

lemma asks_exec:
  assumes "asks A P p" "\<And>h c. A c (g h c)" "list_all (\<lambda>(c, r). P c) h0" "exec g h0 p = (h, x)"
  shows "list_all (\<lambda>(c, r). P c) h"
  using assms(1,3,4)
proof (induction p arbitrary: h0)
  case (Run c k)
  have "asks A P (k (g h0 c))" and "P c"
    using Run.prems(1) assms(2) by auto
  then show ?case
    by (intro Run.IH [OF rangeI]) (use Run.prems in auto)
qed auto

lemma asks_bindP: "asks A P p \<Longrightarrow> (\<And>a. asks A P (f a)) \<Longrightarrow> asks A P (bindP p f)"
  by (induction p) (auto split: sum.split)

lemma asks_bind_runGit [simp]: "asks A P (bindP (runGit c) f) \<longleftrightarrow> P c \<and> (\<forall>r. A c r \<longrightarrow> asks A P (f r))"
  by (simp add: runGit_def)

lemma asks_runGit [simp]: "asks A P (runGit c) \<longleftrightarrow> P c"
  by (simp add: runGit_def)

lemma asks_bind_liftE [simp]: "asks A P (bindP (liftE m) f) \<longleftrightarrow> (\<forall>x. m = Inr x \<longrightarrow> asks A P (f x))"
  by (simp add: liftE_def split: sum.split)

lemma asks_liftE [simp]: "asks A P (liftE m)"
  by (simp add: liftE_def split: sum.split)

lemma asks_catchP: "asks A P p \<Longrightarrow> (\<And>e. asks A P (f e)) \<Longrightarrow> asks A P (catchP p f)"
  by (induction p) (auto split: sum.split)

lemma asks_runMeaningfulExit: "P c \<Longrightarrow> asks A P (runMeaningfulExit c ns)"
  by (simp add: runMeaningfulExit_def)

lemma asks_runRequired: "P c \<Longrightarrow> asks A P (runRequired c)"
  by (simp add: runRequired_def)

lemma asks_decode [simp]: "asks A P (decodeAsciiText b f)" "asks A P (decode_oid o')"
  by (auto simp: decodeAsciiText_def decode_oid_def intro!: asks_bindP split: option.split)

lemmas asks_intros = asks_bindP asks_catchP asks_runMeaningfulExit asks_runRequired

lemma asks_readHeadFacts: "asks A known_only (readHeadFacts cwd)"
  by (auto simp: readHeadFacts_def Let_def known_probes intro!: asks_intros split: option.split)

lemma asks_head_or_none: "asks A known_only (head_or_none cwd)"
  by (auto simp: head_or_none_def intro!: asks_intros asks_readHeadFacts)

lemma asks_countConflictedPaths: "asks A known_only (countConflictedPaths cwd)"
  by (auto simp: countConflictedPaths_def known_probes)

lemma asks_checkStashLocator: "plain l \<Longrightarrow> asks A known_only (checkStashLocator cwd l oid)"
  by (auto simp: checkStashLocator_def known_probes_of Let_def)

lemma asks_checkConfiguredRemote: "asks A known_only (checkConfiguredRemote cwd r push)"
  by (auto simp: checkConfiguredRemote_def Let_def known_probes split: sum.split option.split)

lemma asks_urls: "asks A P (assertSafeSubmoduleUrls cs command)"
  by (induction cs command rule: assertSafeSubmoduleUrls.induct) (auto split: option.split)

lemma asks_assertSafeSubmoduleConfig: "asks A known_only (assertSafeSubmoduleConfig cwd)"
  by (auto simp: assertSafeSubmoduleConfig_def known_probes intro!: asks_intros asks_urls split: option.split)

section \<open>Workflows\<close>

text \<open>
  What the host relies on: \<^verbatim>\<open>git rev-parse --verify\<close> that succeeds prints an object name, the paths of known
  worktrees are absolute, and the branch Head names has a name Git accepts.
\<close>

definition object_answer :: "git_command \<Rightarrow> git_result \<Rightarrow> bool" where
  "object_answer c r \<longleftrightarrow>
     (take 2 (gc_argv c) = words [''rev-parse'', ''--verify''] \<and> exit_zero r \<longrightarrow> plain (asciiTrimmed (gr_stdout r)))"

definition host_plain :: "effect_env \<Rightarrow> bool" where
  "host_plain env \<longleftrightarrow>
     (\<forall>w t. ev_worktreeCommand env w = Inr t \<longrightarrow> plain (wc_targetPath t)) \<and>
     (\<forall>f b. ev_facts env = Inr f \<longrightarrow> hf_branchName (fx_head f) = Some b \<longrightarrow> plain b)"

abbreviation safe :: "'a prog \<Rightarrow> bool" where "safe \<equiv> asks object_answer known_only"

lemma safe_runSpec: "known_only c \<Longrightarrow> safe (runSpec c)"
  by (auto simp: runSpec_def refuse_workflow_error_def intro!: asks_intros split: failure.split)

lemma safe_runPlanned: "(\<And>c. plan = Inr c \<Longrightarrow> known_only c) \<Longrightarrow> safe (runPlanned plan)"
  by (auto simp: runPlanned_def safe_runSpec)

lemma safe_runQuiet: "known_only c \<Longrightarrow> safe (runQuiet c)"
  by (simp add: runQuiet_def)

lemma safe_runChecked: "known_only c \<Longrightarrow> safe p \<Longrightarrow> safe (runChecked p c)"
  by (auto simp: runChecked_def intro!: asks_intros split: failure.split)

lemma safe_in_progress: "known_only c \<Longrightarrow> safe (in_progress c)"
  by (simp add: in_progress_def)

lemma safe_open_probes: "safe (mergeInProgress cwd)" "safe (revertInProgress cwd)" "safe (cherryPickInProgress cwd)" "safe (rebaseInProgress cwd)"
  by (simp_all add: probes safe_in_progress known_probes)

lemma safe_refusals:
  "safe q \<Longrightarrow> safe p \<Longrightarrow> safe (refuse_if q m p)" "safe q \<Longrightarrow> safe p \<Longrightarrow> safe (refuse_unless q m p)"
  by (auto simp: refuse_if_def refuse_unless_def intro!: asks_bindP)

lemma safe_completed: "safe (completed cwd)"
  by (auto simp: completed_def intro!: asks_bindP asks_readHeadFacts)

lemma safe_undo: "known_only c \<Longrightarrow> safe (undo_stop c r)" "known_only c \<Longrightarrow> safe (conflicts_or_undo cwd c r)"
  by (auto simp: undo_stop_def conflicts_or_undo_def intro!: asks_bindP asks_countConflictedPaths)

lemma safe_abort_with: "known_only c \<Longrightarrow> safe (abort_with cwd c)"
  by (auto simp: abort_with_def stopped_def intro!: safe_completed)

lemma safe_continue_with_probe: "known_only c \<Longrightarrow> safe q \<Longrightarrow> safe (continue_with_probe cwd q c)"
  by (auto simp: continue_with_probe_def stopped_def intro!: asks_bindP safe_completed asks_countConflictedPaths)

lemma safe_rebase_with: "known_only c \<Longrightarrow> safe (rebase_with cwd c)"
  by (auto simp: rebase_with_def stopped_def known_sequencer intro!: asks_bindP safe_completed safe_undo safe_open_probes)

lemma safe_no_open_operation: "safe p \<Longrightarrow> safe (no_open_operation cwd p)"
  by (auto simp: no_open_operation_def intro!: safe_refusals safe_open_probes)

lemmas safe_intros = asks_bindP safe_refusals safe_open_probes safe_completed safe_undo safe_rebase_with safe_abort_with
  safe_continue_with_probe safe_no_open_operation asks_readHeadFacts asks_head_or_none asks_countConflictedPaths

lemma safe_sequencer_starts:
  assumes "plain a"
  shows "safe (mergeSource cwd a noFf m)" "safe (cherryPick cwd a)" "safe (rebase cwd a)" "safe (revertCommit cwd a)"
    "safe (resetBranch cwd a soft)"
  using assms
  by (auto simp: mergeSource_def cherryPick_def rebase_def revertCommit_def resetBranch_def stopped_def Let_def
        known_sequencer known_probes_of intro!: safe_intros)

lemma parent_asks_for_an_object:
  "take 2 (gc_argv (planDropCommitParent cwd a)) = words [''rev-parse'', ''--verify'']"
  by (simp add: planDropCommitParent_def words_def del: str_simps)

lemma safe_dropCommit: "plain a \<Longrightarrow> safe (dropCommit cwd a)"
  by (auto simp: dropCommit_def object_answer_def known_sequencer known_probes_of parent_asks_for_an_object
      intro!: safe_no_open_operation safe_rebase_with simp del: str_simps)

lemma safe_squashTopCommit: "safe (squashTopCommit cwd m)"
  by (auto simp: squashTopCommit_def stopped_def known_sequencer known_probes known_commits intro!: safe_intros)

lemma safe_continues_aborts:
  "safe (continueMerge cwd m)" "safe (continueCherryPick cwd)" "safe (continueRebase cwd)" "safe (abortMerge cwd)"
  "safe (abortCherryPick cwd)" "safe (abortRebase cwd)"
  by (auto simp: continueMerge_def continueCherryPick_def continueRebase_def abortMerge_def abortCherryPick_def abortRebase_def
        stopped_def known_sequencer intro!: safe_intros)

lemmas stash_tag_runs = createStash_def applyStash_def dropStash_def deleteTag_def popStash_def createTag_def

lemma safe_popStash: "plain l \<Longrightarrow> safe (popStash cwd l oid i)"
  by (auto simp: popStash_def Let_def known_stashes_tags intro!: asks_bindP asks_checkStashLocator)

lemma safe_createTag: "plain t \<Longrightarrow> nullable plain oid \<Longrightarrow> safe (createTag cwd t oid a)"
  by (auto simp: createTag_def known_probes intro!: asks_bindP safe_runPlanned
        dest: known_commits(3) simp: known_stashes_tags split: option.splits)

lemma safe_checked:
  "safe (addWorktree cwd dest reference)" "plain path \<Longrightarrow> safe (removeWorktree cwd path)"
  "plain path \<Longrightarrow> safe (lockWorktree cwd path reason)" "plain path \<Longrightarrow> safe (unlockWorktree cwd path)"
  "safe (addSubmodule cwd url path b)" "safe (updateSubmodules cwd ps i rec)" "safe (syncSubmodules cwd ps rec)"
  by (auto simp: worktree_workflows known_worktrees known_worktree_add intro!: safe_runChecked asks_assertSafeSubmoduleConfig)

lemma safe_commitIndex: "safe (commitIndex cwd m amend)"
  by (auto simp: commitIndex_def plan_of_commit_def intro!: asks_bindP asks_readHeadFacts asks_head_or_none
        dest: known_commits(1,2) split: option.splits if_splits)

lemma safe_remotes:
  "plain r \<Longrightarrow> plain u \<Longrightarrow> nullable plain p \<Longrightarrow> safe (addRemote cwd r u p)"
  "plain r \<Longrightarrow> nullable plain n \<Longrightarrow> nullable plain u' \<Longrightarrow> nullable plain p \<Longrightarrow> safe (updateRemote cwd r n u' p)"
  "plain r \<Longrightarrow> safe (removeRemote cwd r)"
  by (auto simp: addRemote_def updateRemote_def removeRemote_def and_then_def known_remotes
        intro!: asks_bindP safe_runQuiet split: command_outcome.split option.split)

lemma safe_fetchRemote: "plain r \<Longrightarrow> safe (fetchRemote cwd r prune noTags)"
  by (auto simp: fetchRemote_def known_remotes intro!: asks_bindP asks_checkConfiguredRemote split: option.split)

lemma safe_pushRef: "plain r \<Longrightarrow> plain s \<Longrightarrow> safe (pushRef cwd r s d up)"
  by (auto simp: pushRef_def known_remotes intro!: asks_bindP asks_checkConfiguredRemote split: option.split)

lemma hd_splitOn: "hd (splitOn c s) = takeWhile (\<lambda>x. x \<noteq> c) s"
  by (induction c s rule: splitOn.induct) (auto split: list.split)

lemma safe_pull: "plain r \<Longrightarrow> plain b \<Longrightarrow> safe (pullFastForward cwd r b)"
  by (auto simp: pullFastForward_def Let_def known_probes_of known_remotes hd_splitOn dest: plain_takeWhile
        intro!: asks_bindP safe_fetchRemote split: network_outcome.split)

section \<open>Effects\<close>

lemma safe_orFail: "(\<And>a. m = Inr a \<Longrightarrow> safe (k a)) \<Longrightarrow> safe (orFail m k)"
  by (auto simp: orFail_def split: sum.split)

lemma safe_after_command: "safe p \<Longrightarrow> safe (after_command env p out)"
  by (auto simp: after_command_def intro!: asks_bindP)

lemma safe_runBranchCommand: "safe p \<Longrightarrow> safe (runBranchCommand env cwd p summary refs)"
  by (auto simp: runBranchCommand_def intro!: asks_bindP asks_head_or_none split: command_outcome.split)

lemma safe_creation:
  "known_only c \<Longrightarrow> safe (bindP (runCreation c before observe) (finishCreation env what wk summary))"
  by (auto simp: runCreation_def finishCreation_def Let_def intro!: asks_bindP asks_head_or_none split: creation_outcome.split option.split)

lemma safe_sequenced: "(\<And>cwd. safe (p cwd)) \<Longrightarrow> safe (sequenced env p f)"
  by (auto simp: sequenced_def intro!: safe_orFail asks_bindP)

lemma safe_at_locator: "plain l \<Longrightarrow> (\<And>facts. safe (k facts)) \<Longrightarrow> safe (at_locator env oid l k)"
  by (auto simp: at_locator_def intro!: safe_orFail asks_bindP asks_checkStashLocator split: option.split)

lemma plain_known_branch: "ev_facts env = Inr f \<Longrightarrow> host_plain env \<Longrightarrow> hf_branchName (fx_head f) = Some b \<Longrightarrow> plain b"
  by (auto simp: host_plain_def)

lemma plain_worktree: "host_plain env \<Longrightarrow> ev_worktreeCommand env w = Inr t \<Longrightarrow> plain (wc_targetPath t)"
  by (auto simp: host_plain_def)

lemma nullable_mono: "nullable P v \<Longrightarrow> (\<And>x. P x \<Longrightarrow> Q x) \<Longrightarrow> nullable Q v"
  by (cases v) auto

lemma nullable_when_some: "when_some v f = [] \<Longrightarrow> (\<And>x. f x = [] \<Longrightarrow> P x) \<Longrightarrow> nullable P v"
  by (cases v) auto

lemma safe_repository_effect:
  assumes z: "zod_reports zod" and r: "repository_problems zod op' target = []" and s: "repository_schema op'"
    and h: "host_plain env"
  shows "safe (repository_effect env op')"
proof (cases op')
  case (Pull r)
  then have "plain r"
    using z assms(2) by (auto dest: plain_remote_name simp del: str_simps)
  then show ?thesis
    unfolding Pull repository_effect.simps pullEffect_def
    by (auto intro!: safe_orFail asks_bindP safe_pull asks_head_or_none split: option.split network_outcome.split)
       (rule plain_known_branch [OF _ h])
next
  case (CreateBranch b oid sw)
  then have "plain b" "nullable plain oid"
    using z r s by (auto dest: plain_names elim: nullable_mono [OF _ plain_object_name] simp del: str_simps)
  then show ?thesis
    unfolding CreateBranch repository_effect.simps createBranchEffect_def createBranch_def
    by (auto intro!: safe_orFail safe_runBranchCommand safe_runSpec simp: known_branches)
next
  case (AddRemote n u p)
  then have "plain n" "plain u" "nullable plain p"
    using z r by (auto dest: plain_remote_name plain_url elim!: nullable_when_some simp del: str_simps)
  then show ?thesis
    unfolding AddRemote repository_effect.simps addRemoteEffect_def
    by (auto intro!: safe_orFail safe_after_command safe_remotes)
next
  case (UpdateRemote m n u p)
  then have "plain m" "nullable plain n" "nullable plain u" "nullable plain p"
    using z r by (auto dest: plain_remote_name plain_url elim!: nullable_when_some simp del: str_simps)
  then show ?thesis
    unfolding UpdateRemote repository_effect.simps updateRemoteEffect_def
    by (auto intro!: safe_orFail asks_bindP safe_remotes)
next
  case (Push n s' d up)
  then have "plain n" "plain s'"
    using z r by (auto dest: plain_remote_name plain_full_ref simp del: str_simps)
  then show ?thesis
    unfolding Push repository_effect.simps pushEffect_def
    by (auto intro!: safe_orFail asks_bindP safe_pushRef)
next
  case (Fetch n prune noTags)
  then have "plain n"
    using z r by (auto dest: plain_remote_name simp del: str_simps)
  then show ?thesis
    unfolding Fetch repository_effect.simps fetchEffect_def
    by (auto intro!: safe_orFail asks_bindP safe_fetchRemote)
next
  case (RemoveRemote n c)
  then have "plain n"
    using z r by (auto dest: plain_remote_name simp del: str_simps)
  then show ?thesis
    unfolding RemoveRemote repository_effect.simps removeRemoteEffect_def
    by (auto intro!: safe_orFail safe_after_command safe_remotes)
next
  case (RenameBranch b n)
  then have "plain b" "plain n"
    using z r by (auto dest: plain_names simp del: str_simps)
  then show ?thesis
    unfolding RenameBranch repository_effect.simps renameBranchEffect_def renameBranch_def
    by (auto intro!: safe_orFail safe_runBranchCommand safe_runSpec simp: known_branches)
next
  case (DeleteBranch b c)
  then have "plain b"
    using z r by (auto dest: plain_names simp del: str_simps)
  then show ?thesis
    unfolding DeleteBranch repository_effect.simps deleteBranchEffect_def deleteBranch_def
    by (auto intro!: safe_orFail safe_runBranchCommand safe_runSpec simp: known_branches)
next
  case (SetBranchUpstream b u)
  then have "plain b"
    using z r by (auto dest: plain_names simp del: str_simps)
  then show ?thesis
    unfolding SetBranchUpstream repository_effect.simps setUpstreamEffect_def setBranchUpstream_def
    by (auto intro!: safe_orFail safe_runBranchCommand safe_runSpec simp: known_branches)
qed (auto simp: repository_effects initRepository_def cloneRepository_def switchBranch_def known_worktrees known_branches
      intro!: safe_orFail safe_creation safe_runBranchCommand safe_runSpec)

lemma safe_stash_tag_effect:
  assumes z: "zod_reports zod" and r: "stash_tag_problems zod op' target = []" and s: "stash_tag_schema op'"
  shows "safe (stash_tag_effect env op')"
proof (cases op')
  case (CreateTag t oid a)
  then have "plain t" "nullable plain oid"
    using z r s by (auto dest: plain_names elim: nullable_mono [OF _ plain_object_name] simp del: str_simps)
  then show ?thesis
    unfolding CreateTag stash_tag_effect.simps createTagEffect_def
    by (auto intro!: safe_orFail asks_bindP safe_createTag)
next
  case (DeleteTag t c)
  then have "plain t"
    using z r by (auto dest: plain_names simp del: str_simps)
  then show ?thesis
    unfolding DeleteTag stash_tag_effect.simps deleteTagEffect_def deleteTag_def
    by (auto intro!: safe_orFail safe_after_command safe_runSpec simp: known_stashes_tags)
next
  case (PushTag n t)
  then have "plain n" "plain (tag_ref t)"
    using z r by (auto dest: plain_remote_name simp: tag_ref_def simp del: str_simps)
  then show ?thesis
    unfolding PushTag stash_tag_effect.simps pushTagEffect_def
    by (auto intro!: safe_orFail asks_bindP safe_pushRef)
qed (use s in \<open>auto simp: stash_tag_effects createStash_def applyStash_def dropStash_def known_stashes_tags known_stash_push
      dest!: plain_locator intro!: safe_orFail safe_at_locator safe_after_command safe_runSpec asks_bindP safe_popStash\<close>)

lemma safe_worktree_effect: "host_plain env \<Longrightarrow> safe (worktree_effect env op')"
  by (cases op')
     (auto simp: worktree_effects intro!: safe_orFail safe_after_command safe_checked dest: plain_worktree)

lemma safe_sequencer_effect: "sequencer_schema op' \<Longrightarrow> safe (sequencer_effect env op')"
  by (cases op')
     (auto simp: sequencer_effects dest!: plain_object_name
        intro!: safe_sequenced safe_sequencer_starts safe_continues_aborts safe_dropCommit)

lemma safe_staging_effect: "staging_schema op' \<Longrightarrow> safe (staging_effect env op')"
  by (cases op')
     (auto simp: staging_effects staging_workflows unless_stale_def dest!: plain_object_name dest: known_paths
        intro!: safe_orFail safe_after_command safe_runPlanned asks_bindP safe_commitIndex safe_sequenced
          safe_sequencer_starts safe_squashTopCommit split: option.split if_splits)

lemma safe_run_effect:
  assumes "accepted zod op' target" "zod_reports zod" "host_plain env"
  shows "safe (run_effect env op')"
  using assms
  by (cases op')
     (auto simp: accepted_def intro!: safe_repository_effect safe_stash_tag_effect safe_worktree_effect
        safe_sequencer_effect safe_staging_effect)

text \<open>
  C17. Client text is never an option. Whatever Git answers, every command an accepted operation runs has only
  the option names the planners write: none that a branch, tag, remote, URL, object name, message or
  path of the request would add, and so none that forces, rewrites remotely, deletes unmerged work or
  names another program.
\<close>

theorem client_text_is_no_option:
  assumes "accepted zod op' target" and "zod_reports zod" and "host_plain env"
    and "\<And>h c. object_answer c (g h c)"
    and "exec g [] (run_effect env op') = (h, x)" and "(c, r) \<in> set h"
  shows "set (option_names (gc_argv c)) \<subseteq> set (map str known_options) \<and>
    set (option_names (gc_argv c)) \<inter> set (map str dangerous_options) = {}"
proof -
  have "list_all (\<lambda>(c, r). known_only c) h"
    using asks_exec [OF safe_run_effect [OF assms(1-3)] assms(4) _ assms(5)] by simp
  then have "set (option_names (gc_argv c)) \<subseteq> set (map str known_options)"
    using assms(6) by (auto simp: list_all_iff known_only_def)
  then show ?thesis
    using known_not_dangerous by blast
qed

end
