(* ===== verification/GuardRules.thy ===== *)
theory GuardRules
  imports OptionRules
begin

text \<open>
  What Git has said before a writing command runs. \<open>guarded\<close> holds of a program every one of whose writing
  commands satisfies a condition on the log so far, whatever Git answers; the conditions are what the
  workflows probe first: no operation left open, the tag not there, the stash the selected one, the
  remote's URL a safe one.
\<close>

section \<open>Guards\<close>

primrec guarded :: "(git_log \<Rightarrow> git_command \<Rightarrow> bool) \<Rightarrow> git_log \<Rightarrow> 'a prog \<Rightarrow> bool" where
  "guarded P h (Done x) \<longleftrightarrow> True"
| "guarded P h (Run c k) \<longleftrightarrow> (mutating c \<longrightarrow> P h c) \<and> (\<forall>r. guarded P (h @ [(c, r)]) (k r))"

lemma guarded_exec:
  assumes "guarded P h p" "exec g h p = (h @ t, x)" "t = t1 @ (c, r) # t2" "mutating c"
  shows "P (h @ t1) c"
  using assms
proof (induction p arbitrary: h t t1)
  case (Run d k)
  have IH: "guarded P (h @ [(d, g h d)]) (k (g h d))"
    using Run.prems(1) by simp
  have e: "exec g (h @ [(d, g h d)]) (k (g h d)) = (h @ t, x)"
    using Run.prems(2) by simp
  then obtain u where u: "h @ t = (h @ [(d, g h d)]) @ u"
    using exec_extends by blast
  then have t: "t = (d, g h d) # u"
    by simp
  show ?case
  proof (cases t1)
    case Nil
    then show ?thesis
      using t Run.prems(1,3,4) by simp
  next
    case (Cons a t1')
    then have "u = t1' @ (c, r) # t2" "a = (d, g h d)"
      using t Run.prems(3) by simp_all
    then show ?thesis
      using Run.IH [OF rangeI IH, of u t1'] e u Run.prems(4) Cons by simp
  qed
qed auto

lemma guarded_run:
  "guarded P [] p \<Longrightarrow> exec g [] p = (t1 @ (c, r) # t2, x) \<Longrightarrow> mutating c \<Longrightarrow> P t1 c"
  using guarded_exec [of P "[]" p g "t1 @ (c, r) # t2"] by simp

lemma guarded_bindP [simp]:
  "guarded P h (bindP p f) \<longleftrightarrow>
     guarded P h p \<and> every (\<lambda>h' x. case x of Inl e \<Rightarrow> True | Inr a \<Rightarrow> guarded P h' (f a)) h p"
  by (induction p arbitrary: h) (auto split: sum.splits)

lemma guarded_runGit [simp]: "guarded P h (runGit c) \<longleftrightarrow> (mutating c \<longrightarrow> P h c)"
  by (simp add: runGit_def)

lemma guarded_bind_runGit:
  "guarded P h (bindP (runGit c) f) \<longleftrightarrow> (mutating c \<longrightarrow> P h c) \<and> (\<forall>r. guarded P (h @ [(c, r)]) (f r))"
  by (simp add: runGit_def)

lemma guarded_liftE [simp]: "guarded P h (liftE m)"
  by (simp add: liftE_def split: sum.split)

lemma guarded_reads: "reads p \<Longrightarrow> guarded P h p"
  by (induction p arbitrary: h) auto

text \<open>Once the condition holds for good, whatever follows is guarded.\<close>

lemma guarded_established: "(\<And>t c. P (h @ t) c) \<Longrightarrow> guarded P h p"
proof (induction p arbitrary: h)
  case (Run c k)
  have "P (h @ []) c"
    by (rule Run.prems)
  moreover have "P ((h @ [(c, r)]) @ t) c'" for r t c'
    using Run.prems [of "(c, r) # t"] by simp
  ultimately show ?case
    using Run.IH [OF rangeI] by simp
qed simp

lemma every_established: "(\<And>t x. Q (h @ t) x) \<Longrightarrow> every Q h p"
proof (induction p arbitrary: h)
  case (Done x)
  from Done [of "[]"] show ?case by simp
next
  case (Run c k)
  have "Q ((h @ [(c, r)]) @ t) x" for r t x
    using Run.prems [of "(c, r) # t"] by simp
  then show ?case
    using Run.IH [OF rangeI] by simp
qed

lemma guarded_orFail: "(\<And>a. m = Inr a \<Longrightarrow> guarded P h (k a)) \<Longrightarrow> guarded P h (orFail m k)"
  by (auto simp: orFail_def split: sum.split)

lemma guarded_sequenced:
  assumes "ev_facts env = Inr facts" "guarded P [] (p (fx_cwdHandle facts))"
  shows "guarded P [] (sequenced env p f)"
proof -
  have "every (\<lambda>h x. case x of Inl e \<Rightarrow> True | Inr a \<Rightarrow> guarded P h (ret (f i a) :: effect_outcome prog)) [] (p cwd)" for i cwd
    by (rule every_established) (auto split: sum.split)
  then show ?thesis
    using assms by (simp add: sequenced_def orFail_def)
qed

lemma guarded_then_reads: "guarded P h p \<Longrightarrow> (\<And>a. reads (f a)) \<Longrightarrow> guarded P h (bindP p f)"
  by (auto intro!: every_established guarded_reads split: sum.split)

section \<open>Open operations\<close>

text \<open>Every probe of the list was answered with no.\<close>

definition answered_no :: "git_command list \<Rightarrow> git_log \<Rightarrow> git_command \<Rightarrow> bool" where
  "answered_no probes h c \<longleftrightarrow> list_all (\<lambda>p. \<exists>r. (p, r) \<in> set h \<and> \<not> exit_zero r) probes"

primrec blockers :: "sequencer_operation \<Rightarrow> jsstring \<Rightarrow> git_command list" where
  "blockers (Merge oid noFf m) cwd = [planMergeInProgress cwd]"
| "blockers (ContinueMerge m) cwd = []"
| "blockers (AbortMerge c) cwd = []"
| "blockers (CherryPick oid) cwd = [planMergeInProgress cwd, planRevertInProgress cwd, planCherryPickInProgress cwd]"
| "blockers ContinueCherryPick cwd = []"
| "blockers (AbortCherryPick c) cwd = []"
| "blockers (Rebase oid) cwd =
     [planMergeInProgress cwd, planRevertInProgress cwd, planCherryPickInProgress cwd, planRebaseInProgress cwd]"
| "blockers ContinueRebase cwd = []"
| "blockers (AbortRebase c) cwd = []"
| "blockers (DropCommit oid c) cwd =
     [planMergeInProgress cwd, planRevertInProgress cwd, planCherryPickInProgress cwd, planRebaseInProgress cwd]"

primrec staging_blockers :: "staging_operation \<Rightarrow> jsstring \<Rightarrow> git_command list" where
  "staging_blockers (StagePaths ids tokens) cwd = []"
| "staging_blockers (UnstagePaths ids) cwd = []"
| "staging_blockers (DiscardTrackedPaths ids tokens c) cwd = []"
| "staging_blockers (CommitOp m) cwd = []"
| "staging_blockers (AmendCommit m c) cwd = []"
| "staging_blockers (RevertCommit oid) cwd = [planMergeInProgress cwd, planRevertInProgress cwd]"
| "staging_blockers (ResetBranch oid soft) cwd = [planMergeInProgress cwd, planRevertInProgress cwd]"
| "staging_blockers (SquashCommit m) cwd =
     [planMergeInProgress cwd, planRevertInProgress cwd, planCherryPickInProgress cwd, planRebaseInProgress cwd]"

lemma guarded_refuse_if:
  assumes "\<And>r. \<not> exit_zero r \<Longrightarrow> guarded P (h @ [(c, r)]) p" "\<not> mutating c"
  shows "guarded P h (refuse_if (in_progress c) m p)"
  using assms by (simp add: refuse_if_def in_progress_def)

lemma answered_established:
  assumes "answered_no probes h c0"
  shows "guarded (answered_no probes) h p"
  using assms by (intro guarded_established) (fastforce simp: answered_no_def list_all_iff)

lemma every_readHeadFacts: "(\<And>t x. Q (h @ t) x) \<Longrightarrow> every Q h (readHeadFacts cwd)"
  by (rule every_established)

lemma guarded_reads_first:
  assumes "reads p" "\<And>t a. guarded P (h @ t) (f a)"
  shows "guarded P h (bindP p f)"
  using assms by (auto simp: guarded_reads intro!: every_established split: sum.split)

lemma guarded_sequencer:
  "guarded (answered_no (blockers (CherryPick oid) cwd)) h (cherryPick cwd oid)"
  "guarded (answered_no (blockers (Rebase oid) cwd)) h (rebase cwd oid)"
  "guarded (answered_no (blockers (DropCommit oid c) cwd)) h (dropCommit cwd oid)"
  "guarded (answered_no (staging_blockers (RevertCommit oid) cwd)) h (revertCommit cwd oid)"
  "guarded (answered_no (staging_blockers (ResetBranch oid soft) cwd)) h (resetBranch cwd oid soft)"
  "guarded (answered_no (staging_blockers (SquashCommit m') cwd)) h (squashTopCommit cwd m'')"
  unfolding cherryPick_def rebase_def dropCommit_def revertCommit_def resetBranch_def squashTopCommit_def
    no_open_operation_def probes
  by (intro guarded_refuse_if probes_read; rule answered_established; fastforce simp: answered_no_def)+

lemma guarded_mergeSource: "guarded (answered_no (blockers (Merge oid noFf m) cwd)) h (mergeSource cwd oid noFf m)"
  unfolding mergeSource_def probes
  by (rule guarded_reads_first [OF reads_readHeadFacts], split if_split)
     (intro conjI impI guarded.simps [THEN iffD2] TrueI guarded_refuse_if probes_read;
      rule answered_established; fastforce simp: answered_no_def)

primrec checked_first :: "operation \<Rightarrow> jsstring \<Rightarrow> git_command list" where
  "checked_first (RepositoryOp op') cwd = []"
| "checked_first (StashTagOp op') cwd = []"
| "checked_first (WorktreeOp op') cwd = []"
| "checked_first (SequencerOp op') cwd = blockers op' cwd"
| "checked_first (StagingOp op') cwd = staging_blockers op' cwd"

lemma nothing_to_answer: "guarded (answered_no []) h p"
  by (rule answered_established) (simp add: answered_no_def)

lemma guarded_effects:
  assumes "ev_facts env = Inr facts"
  shows "guarded (answered_no (blockers seq_op (fx_cwdHandle facts))) [] (sequencer_effect env seq_op)"
    and "guarded (answered_no (staging_blockers staging_op (fx_cwdHandle facts))) [] (staging_effect env staging_op)"
proof -
  show "guarded (answered_no (blockers seq_op (fx_cwdHandle facts))) [] (sequencer_effect env seq_op)"
    by (cases seq_op; simp only: sequencer_effects sequencer_effect.simps; rule guarded_sequenced [OF assms];
        (rule guarded_sequencer guarded_mergeSource | simp only: blockers.simps nothing_to_answer))
  show "guarded (answered_no (staging_blockers staging_op (fx_cwdHandle facts))) [] (staging_effect env staging_op)"
    by (cases staging_op; simp only: staging_effect.simps;
        (simp only: staging_effects, rule guarded_sequenced [OF assms], rule guarded_sequencer
         | simp only: staging_blockers.simps nothing_to_answer))
qed


section \<open>Stashes and tags\<close>

text \<open>The last answer before the command is the one it rests on.\<close>

definition answered_last :: "git_command \<Rightarrow> (git_result \<Rightarrow> bool) \<Rightarrow> git_log \<Rightarrow> git_command \<Rightarrow> bool" where
  "answered_last probe Q h c \<longleftrightarrow> (\<exists>h' r. h = h' @ [(probe, r)] \<and> Q r)"

lemma answered_last_append [simp]: "answered_last probe Q (h @ [(c, r)]) d \<longleftrightarrow> c = probe \<and> Q r" "answered_last probe Q [(c, r)] d \<longleftrightarrow> c = probe \<and> Q r"
  by (auto simp: answered_last_def)

definition names_stash :: "jsstring \<Rightarrow> git_result \<Rightarrow> bool" where
  "names_stash oid r \<longleftrightarrow> exit_zero r \<and> js_trim (first_line (gr_stdout r)) = oid"

lemma guarded_command:
  "(mutating c \<Longrightarrow> P h c) \<Longrightarrow> guarded P h (after_command env (runSpec c) out)"
  by (auto simp: after_command_def runSpec_def runRequired_def refuse_workflow_error_def catchP.simps runGit_def
      split: sum.split failure.split command_outcome.split)

lemma guarded_at_locator:
  assumes "ev_facts env = Inr facts"
    and "\<And>h. (\<And>c. answered_last (planStashResolve (fx_cwdHandle facts) l) (names_stash oid) h c) \<Longrightarrow>
      guarded (answered_last (planStashResolve (fx_cwdHandle facts) l) (names_stash oid)) h (k facts)"
  shows "guarded (answered_last (planStashResolve (fx_cwdHandle facts) l) (names_stash oid)) [] (at_locator env oid l k)"
proof -
  have run: "guarded (answered_last (planStashResolve (fx_cwdHandle facts) l) (names_stash oid))
      [(planStashResolve (fx_cwdHandle facts) l, r)] (k facts)"
    if "exit_zero r" "js_trim (first_line (gr_stdout r)) = oid" for r
    using that by (intro assms(2)) (simp add: names_stash_def)
  show ?thesis
    unfolding at_locator_def orFail_def checkStashLocator_def locatorProblem_def Let_def
    by (simp add: assms(1) run)
qed

primrec selected_stash :: "stash_tag_operation \<Rightarrow> (jsstring \<times> jsstring) option" where
  "selected_stash (CreateStash m u k) = None"
| "selected_stash (ApplyStash oid l i) = Some (oid, l)"
| "selected_stash (PopStash oid l i c) = Some (oid, l)"
| "selected_stash (DropStash oid l c) = Some (oid, l)"
| "selected_stash (CreateTag t oid a) = None"
| "selected_stash (DeleteTag t c) = None"
| "selected_stash (PushTag r t) = None"

lemma guarded_popStash:
  "(\<And>c. P h c) \<Longrightarrow> guarded P h (popStash cwd l oid i)"
  by (auto simp: popStash_def Let_def intro!: guarded_reads reads_checkStashLocator every_established)

lemma guarded_answer:
  "guarded P h p \<Longrightarrow> guarded P h (bindP p (\<lambda>out. ret (f out)))"
  by (auto intro!: every_established split: sum.split)

text \<open>
  A stash command meets the stash the user chose. Applying, popping or dropping a stash runs its writing
  command right after Git has resolved the locator to the object the user selected, with no other
  command in between.
\<close>

theorem stash_is_the_selected_one:
  assumes "ev_facts env = Inr facts" and "selected_stash op' = Some (oid, l)"
    and "exec g [] (run_effect env (StashTagOp op')) = (h1 @ (c, r) # h2, x)" and "mutating c"
  shows "\<exists>h0 a. h1 = h0 @ [(planStashResolve (fx_cwdHandle facts) l, a)] \<and> exit_zero a \<and>
    js_trim (first_line (gr_stdout a)) = oid"
proof -
  have "guarded (answered_last (planStashResolve (fx_cwdHandle facts) l) (names_stash oid)) [] (stash_tag_effect env op')"
    using assms(2)
    by (cases op')
       (auto simp: stash_tag_effects applyStash_def dropStash_def
         intro!: guarded_at_locator [OF assms(1)] guarded_command guarded_answer guarded_popStash simp del: guarded_bindP)
  from guarded_run [OF this] show ?thesis
    using assms by (fastforce simp: answered_last_def names_stash_def)
qed

definition absent_tag :: "git_result \<Rightarrow> bool" where
  "absent_tag r \<longleftrightarrow> gr_termination r = Exited \<and> gr_exitCode r = Some 1"

lemma guarded_runPlanned: "(\<And>c. P h c) \<Longrightarrow> guarded P h (runPlanned plan)"
  by (cases plan)
     (auto simp: runPlanned_def runSpec_def runRequired_def refuse_workflow_error_def runGit_def
       split: sum.split failure.split)

lemma guarded_createTag:
  "guarded (answered_last (planTagExists cwd t) absent_tag) [] (createTag cwd t oid a)"
proof -
  have "guarded (answered_last (planTagExists cwd t) absent_tag) [(planTagExists cwd t, r)]
      (bindP (runPlanned plan) (\<lambda>out. ret (f out)))" if "gr_termination r = Exited" "gr_exitCode r = Some 1" for r plan f
    using that by (intro guarded_answer guarded_runPlanned) (simp add: absent_tag_def)
  then show ?thesis
    by (auto simp: createTag_def simp del: guarded_bindP)
       (auto simp: guarded_bindP)
qed

text \<open>
  No tag is overwritten. Creating a tag runs its writing command right after Git has said, by exit code one,
  that the tag does not exist; any other answer, an error included, ends the operation with nothing written.
\<close>

theorem tags_are_never_overwritten:
  assumes "ev_facts env = Inr facts"
    and "exec g [] (run_effect env (StashTagOp (CreateTag t oid a))) = (h1 @ (c, r) # h2, x)" and "mutating c"
  shows "\<exists>h0 b. h1 = h0 @ [(planTagExists (fx_cwdHandle facts) t, b)] \<and> gr_termination b = Exited \<and> gr_exitCode b = Some 1"
proof -
  have "guarded (answered_last (planTagExists (fx_cwdHandle facts) t) absent_tag) [] (createTagEffect env t oid a)"
    by (simp add: createTagEffect_def orFail_def assms(1) guarded_createTag guarded_answer del: guarded_bindP)
  from guarded_run [OF this] show ?thesis
    using assms by (fastforce simp: answered_last_def absent_tag_def)
qed

section \<open>Remotes\<close>

text \<open>Of the operations that talk to a configured remote, the remote and whether its push URL counts.\<close>

primrec contacted :: "operation \<Rightarrow> (jsstring \<times> bool) option" where
  "contacted (RepositoryOp op') = (case op' of Fetch r prune noTags \<Rightarrow> Some (r, False) | Push r s d up \<Rightarrow> Some (r, True)
     | Pull r \<Rightarrow> Some (r, False) | _ \<Rightarrow> None)"
| "contacted (StashTagOp op') = (case op' of PushTag r t \<Rightarrow> Some (r, True) | _ \<Rightarrow> None)"
| "contacted (WorktreeOp op') = None"
| "contacted (SequencerOp op') = None"
| "contacted (StagingOp op') = None"

definition url_in_use :: "jsstring \<Rightarrow> bool \<Rightarrow> remote_url list \<Rightarrow> jsstring option" where
  "url_in_use name push records =
     (if push \<and> find_url True name records \<noteq> None then find_url True name records else find_url False name records)"

definition lists_safe_url :: "jsstring \<Rightarrow> bool \<Rightarrow> git_result \<Rightarrow> bool" where
  "lists_safe_url name push r \<longleftrightarrow> exit_zero r \<and>
     (\<exists>records u. parseRemoteList (gr_stdout r) = Inr records \<and> url_in_use name push records = Some u \<and>
        unsafeRemoteUrlReason u = None)"

definition network_guard :: "jsstring \<Rightarrow> jsstring \<Rightarrow> bool \<Rightarrow> git_log \<Rightarrow> git_command \<Rightarrow> bool" where
  "network_guard cwd name push h c \<longleftrightarrow>
     (gc_deadlineClass c = NetworkClass \<longrightarrow> answered_last (planRemotes cwd) (lists_safe_url name push) h c)"

lemma checked_remote:
  "every (\<lambda>h x. x = Inr None \<longrightarrow> (\<forall>c. answered_last (planRemotes cwd) (lists_safe_url name push) h c)) h
     (checkConfiguredRemote cwd name push)"
  by (auto simp: checkConfiguredRemote_def Let_def lists_safe_url_def url_in_use_def split: sum.split option.split)

lemma guarded_checked:
  assumes "\<And>h. (\<And>c. answered_last (planRemotes cwd) (lists_safe_url name push) h c) \<Longrightarrow> guarded (network_guard cwd name push) h (k None)"
    and "\<And>h f. guarded (network_guard cwd name push) h (k (Some f))"
  shows "guarded (network_guard cwd name push) h (bindP (checkConfiguredRemote cwd name push) k)"
proof -
  have "case x of Inl e \<Rightarrow> True | Inr a \<Rightarrow> guarded (network_guard cwd name push) h' (k a)"
    if "x = Inr None \<longrightarrow> (\<forall>c. answered_last (planRemotes cwd) (lists_safe_url name push) h' c)" for h' x
  proof (cases x)
    case (Inr a)
    then show ?thesis
      using that assms by (cases a) simp_all
  qed simp
  from every_mono [OF checked_remote this] show ?thesis
    by (simp add: guarded_reads reads_checkConfiguredRemote)
qed

lemma guarded_network:
  "guarded (network_guard cwd r False) h (fetchRemote cwd r prune noTags)"
  "guarded (network_guard cwd r True) h (pushRef cwd r s d up)"
  unfolding fetchRemote_def pushRef_def
  by (rule guarded_checked; simp add: network_guard_def)+

lemma fetchRemote_unasked [simp]:
  "every (\<lambda>h x. True) h p"
  by (rule every_established) simp

lemma guarded_pull: "guarded (network_guard cwd r False) h (pullFastForward cwd r b)"
proof -
  have "every (\<lambda>h x. case x of Inl e \<Rightarrow> True | Inr a \<Rightarrow> guarded (network_guard cwd r False) h
      (case a of NetUncertain m \<Rightarrow> ret (NetUncertain m) | NetRefused f \<Rightarrow> ret (NetRefused f)
       | NetPartial p f \<Rightarrow> bindP (runGit (planFastForwardMerge cwd u)) (\<lambda>m. ret (q1 p f m))
       | NetDone p \<Rightarrow> bindP (runGit (planFastForwardMerge cwd u)) (\<lambda>m. ret (q2 p m)))) h (fetchRemote cwd r False True)"
    for h u and q1 q2 :: "_ \<Rightarrow> _" 
    by (rule every_established) (auto simp: network_guard_def planFastForwardMerge_def split: sum.split network_outcome.split)
  then show ?thesis
    by (auto simp: pullFastForward_def Let_def guarded_network)
qed

text \<open>
  C19. The network is used only for a URL found safe. A fetch, push, pull or tag push starts its network command
  right after \<^verbatim>\<open>git remote -v\<close> has listed, for the named remote, a URL without a transport that runs programs.
\<close>

theorem network_meets_a_safe_url:
  assumes "ev_facts env = Inr facts" and "contacted op' = Some (name, push)"
    and "exec g [] (run_effect env op') = (h1 @ (c, r) # h2, x)" and "gc_deadlineClass c = NetworkClass" and "mutating c"
  shows "\<exists>h0 a records u. h1 = h0 @ [(planRemotes (fx_cwdHandle facts), a)] \<and> exit_zero a \<and>
    parseRemoteList (gr_stdout a) = Inr records \<and> url_in_use name push records = Some u \<and> unsafeRemoteUrlReason u = None"
proof -
  have "guarded (network_guard (fx_cwdHandle facts) name push) [] (run_effect env op')"
  proof (cases op')
    case (RepositoryOp rop)
    with assms(2) show ?thesis
      by (cases rop)
         (auto simp: fetchEffect_def pushEffect_def pullEffect_def orFail_def assms(1) simp del: guarded_bindP
           intro!: guarded_then_reads guarded_network guarded_pull reads_bindP reads_head_or_none
           split: option.split network_outcome.split)
  next
    case (StashTagOp sop)
    with assms(2) show ?thesis
      by (cases sop)
         (auto simp: pushTagEffect_def orFail_def assms(1) simp del: guarded_bindP intro!: guarded_answer guarded_network)
  qed (use assms(2) in auto)
  from guarded_run [OF this assms(3,5)] assms(4) show ?thesis
    by (auto simp: network_guard_def answered_last_def lists_safe_url_def)
qed

section \<open>Drops and pulls\<close>

lemma asks_reads: "reads p \<Longrightarrow> (\<And>d. \<not> mutating d \<Longrightarrow> S d) \<Longrightarrow> asks A S p"
  by (induction p) auto

lemmas asks_reading = asks_reads [OF reads_readHeadFacts] asks_reads [OF reads_countConflictedPaths]
  asks_reads [OF reads_checkConfiguredRemote]

lemma guarded_asks:
  assumes "asks (\<lambda>c r. True) S p" "\<And>t c. S c \<Longrightarrow> mutating c \<Longrightarrow> P (h @ t) c"
  shows "guarded P h p"
  using assms
proof (induction p arbitrary: h)
  case (Run c k)
  have "P ((h @ [(c, r)]) @ t) c'" if "S c'" "mutating c'" for r t c'
    using Run.prems(2) [of c' "(c, r) # t"] that by simp
  then show ?case
    using Run.IH [OF rangeI] Run.prems(1) Run.prems(2) [of c "[]"] by simp
qed simp

definition only_rebases :: "jsstring \<Rightarrow> git_command \<Rightarrow> git_command \<Rightarrow> bool" where
  "only_rebases cwd c d \<longleftrightarrow> mutating d \<longrightarrow> d = c \<or> d = planRebaseAbort cwd"

lemma asks_rebase_with: "asks A (only_rebases cwd c) (rebase_with cwd c)"
  by (auto simp: rebase_with_def stopped_def completed_def conflicts_or_undo_def undo_stop_def probes in_progress_def
        only_rebases_def intro!: asks_bindP asks_reading)

text \<open>What Git has said of a commit before it is dropped: an ancestor of Head, one parent, and which.\<close>

definition droppable :: "jsstring \<Rightarrow> jsstring \<Rightarrow> git_log \<Rightarrow> git_command \<Rightarrow> bool" where
  "droppable cwd oid h c \<longleftrightarrow>
     (\<exists>a b p. (planDropCommitAncestry cwd oid, a) \<in> set h \<and> exit_zero a \<and>
        (planDropCommitSecondParent cwd oid, b) \<in> set h \<and> \<not> exit_zero b \<and>
        (planDropCommitParent cwd oid, p) \<in> set h \<and> exit_zero p \<and>
        (c = planDropCommitRebase cwd oid (asciiTrimmed (gr_stdout p)) \<or> c = planRebaseAbort cwd))"

lemma guarded_refusal:
  "(\<And>h. guarded P h p) \<Longrightarrow> guarded P h (refuse_if (in_progress c) m p)" if "\<not> mutating c"
  using that by (simp add: refuse_if_def in_progress_def)

lemma guarded_dropCommit: "guarded (droppable cwd oid) h (dropCommit cwd oid)"
proof -
  have "guarded (droppable cwd oid) (h @ [(planDropCommitAncestry cwd oid, a), (planDropCommitSecondParent cwd oid, b),
      (planDropCommitParent cwd oid, p)]) (rebase_with cwd (planDropCommitRebase cwd oid (asciiTrimmed (gr_stdout p))))"
    if "exit_zero a" "\<not> exit_zero b" "exit_zero p" for h a b p
    unfolding droppable_def
    by (rule guarded_asks [OF asks_rebase_with], rule exI [of _ a], rule exI [of _ b], rule exI [of _ p])
       (use that in \<open>auto simp: only_rebases_def\<close>)
  then show ?thesis
    unfolding dropCommit_def no_open_operation_def probes
    by (intro guarded_refusal probes_read) auto
qed


text \<open>
  A pull only fast-forwards. Its writing commands are the fetch of the named remote and then the fast-forward
  merge of the upstream Git named for the branch, which is one of that remote; no other command writes.
\<close>

theorem pull_only_fast_forwards:
  assumes "ev_facts env = Inr facts" and "hf_branchName (fx_head facts) = Some b"
    and "exec g [] (run_effect env (RepositoryOp (Pull name))) = (h1 @ (c, r) # h2, x)" and "mutating c"
  shows "c = planFetch (fx_cwdHandle facts) name False True \<or>
    (\<exists>a u. (planBranchUpstreamRef (fx_cwdHandle facts) b, a) \<in> set h1 \<and> exit_zero a \<and> u = first_line (gr_stdout a) \<and>
       takeWhile (\<lambda>d. d \<noteq> 0x2f) u = name \<and> c = planFastForwardMerge (fx_cwdHandle facts) u)"
proof -
  define P where "P h c \<longleftrightarrow> c = planFetch (fx_cwdHandle facts) name False True \<or>
    (\<exists>a u. (planBranchUpstreamRef (fx_cwdHandle facts) b, a) \<in> set h \<and> exit_zero a \<and> u = first_line (gr_stdout a) \<and>
       takeWhile (\<lambda>d. d \<noteq> 0x2f) u = name \<and> c = planFastForwardMerge (fx_cwdHandle facts) u)" for h c
  define S where "S u c \<longleftrightarrow> mutating c \<longrightarrow> c = planFetch (fx_cwdHandle facts) name False True \<or> c = planFastForwardMerge (fx_cwdHandle facts) u" for u c
  have fetch: "asks (\<lambda>c r. True) (S u) (fetchRemote (fx_cwdHandle facts) name False True)" for u
    by (auto simp: fetchRemote_def S_def intro!: asks_bindP asks_reading split: option.split)
  have rest: "guarded P [(planBranchUpstreamRef (fx_cwdHandle facts) b, r)] (bindP (fetchRemote (fx_cwdHandle facts) name False True) f)"
    if "takeWhile (\<lambda>d. d \<noteq> 0x2f) (first_line (gr_stdout r)) = name" "exit_zero r"
      "\<And>a. asks (\<lambda>c r. True) (S (first_line (gr_stdout r))) (f a)" for r f
    by (rule guarded_asks [OF asks_bindP [OF fetch that(3)]]) (use that in \<open>auto simp: P_def S_def\<close>)
  have "guarded P [] (pullFastForward (fx_cwdHandle facts) name b)"
    unfolding pullFastForward_def Let_def
    by (simp add: hd_splitOn guarded_bind_runGit del: guarded_bindP, intro allI impI, rule rest)
       (auto simp: S_def split: network_outcome.split)
  then have "guarded P [] (pullEffect env name)"
    by (auto simp: pullEffect_def orFail_def assms(1,2) simp del: guarded_bindP
        intro!: guarded_then_reads reads_bindP reads_head_or_none split: network_outcome.split)
  from guarded_run [OF this] show ?thesis
    using assms(3,4) by (simp add: P_def)
qed

end
