(* ===== verification/PathRules.thy ===== *)
theory PathRules
  imports GuardRules
begin

text \<open>
  Operations on selected paths: which bytes Git is given on its standard input, and what a discard and a
  staging touch.
\<close>

section \<open>The paths on standard input\<close>

definition nul_terminated :: "byte list list \<Rightarrow> byte list" where
  "nul_terminated paths = concat (map (\<lambda>p. p @ [0]) paths)"

lemma nul_after_path:
  "(set_at (d @ replicate (length p + 1 + n) 0) p (length d))[length d + length p := 0] = (d @ p @ [0]) @ replicate n 0"
proof -
  have "drop (length p) (replicate (length p + 1 + n) 0) = 0 # replicate n (0 :: byte)"
    by (simp only: drop_replicate) simp
  then show ?thesis
    by (simp add: set_at_def list_update_append del: replicate_add replicate.simps)
qed

lemma pathspec_copy_from:
  "pathspec_copy paths (length d) (d @ replicate (sum_list (map (\<lambda>p. length p + 1) paths)) 0) = d @ nul_terminated paths"
proof (induction paths arbitrary: d)
  case (Cons p ps)
  let ?n = "sum_list (map (\<lambda>p. length p + 1) ps)"
  have "pathspec_copy (p # ps) (length d) (d @ replicate (length p + 1 + ?n) 0) =
      pathspec_copy ps (length (d @ p @ [0])) ((d @ p @ [0]) @ replicate ?n 0)"
    using nul_after_path [of d p ?n] by simp
  also have "\<dots> = (d @ p @ [0]) @ nul_terminated ps"
    by (rule Cons)
  finally show ?case
    by (simp add: nul_terminated_def)
qed (simp add: nul_terminated_def)

lemma pathspecStdin_eq: "pathspecStdin paths = (if paths = [] then Inl (PlainError ''pathspecStdin requires at least one path'')
    else Inr (nul_terminated paths))"
  using pathspec_copy_from [of paths "[]"] by (simp add: pathspecStdin_def)

lemma planned_stdin:
  "planRestoreWorktree cwd paths = Inr c \<Longrightarrow> gc_stdin c = Some (nul_terminated paths)"
  "planStage cwd paths = Inr c \<Longrightarrow> gc_stdin c = Some (nul_terminated paths)"
  by (auto simp: planRestoreWorktree_def planStage_def pathspec_plan_def pathspecStdin_eq stdin_spec_def split: if_splits)

section \<open>What is staged\<close>

lemma pathKey_inj [simp]: "pathKey p = pathKey q \<longleftrightarrow> p = q"
  using pathKeyOf_inj [of p q] by (simp add: pathKey_def pathKeyOf_def hex_pair_def [abs_def])

text \<open>Where a renamed or copied path came from.\<close>

definition origin_of :: "status_record list \<Rightarrow> byte list \<Rightarrow> byte list option" where
  "origin_of records p = (case recordForPath records p of
     None \<Rightarrow> None
   | Some r \<Rightarrow> if sr_kind r = Renamed \<or> sr_kind r = Copied then sr_originalPath r else None)"

lemma stage_path_set: "set (stage_path records p paths) = set paths \<union> {p} \<union> set_option (origin_of records p)"
  by (auto simp: stage_path_def add_once_def origin_of_def Let_def split: option.splits)

lemma stage_path_distinct: "distinct paths \<Longrightarrow> distinct (stage_path records p paths)"
  by (auto simp: stage_path_def add_once_def Let_def split: option.splits)

lemma fold_stage_path:
  "distinct paths \<Longrightarrow> distinct (fold (stage_path records) selected paths)"
  "set (fold (stage_path records) selected paths) = set paths \<union> (\<Union>p\<in>set selected. {p} \<union> set_option (origin_of records p))"
  by (induction selected arbitrary: paths) (auto simp: stage_path_distinct stage_path_set)

text \<open>
  What is staged is what was selected. The paths handed to \<^verbatim>\<open>git add\<close> are the selected ones and, of each that is
  reported as renamed or copied, the path it came from, each once; of a copy that is a path the user did
  not select.
\<close>

theorem staged_paths_exact:
  "distinct (paths_to_stage records selected) \<and>
   set (paths_to_stage records selected) = set selected \<union> {q. \<exists>p. p \<in> set selected \<and> origin_of records p = Some q}"
  by (auto simp: paths_to_stage_def fold_stage_path)

section \<open>What is discarded\<close>

text \<open>A record whose worktree file Git would restore, and none that a restore could clobber.\<close>

definition restorable :: "status_record \<Rightarrow> bool" where
  "restorable r \<longleftrightarrow> sr_kind r \<notin> {Untracked, Ignored, Unmerged} \<and> \<not> sr_commitChanged r \<and> \<not> sr_modified r \<and> \<not> sr_untracked r \<and>
     mode_worktree (sr_modes r) \<notin> {Some (str ''120000''), Some (str ''160000'')}"

definition reported :: "status_record list \<Rightarrow> byte list \<Rightarrow> bool" where
  "reported records p \<longleftrightarrow> (\<exists>r \<in> set records. (sr_path r = p \<or> sr_originalPath r = Some p) \<and> restorable r)"

lemma by_key_sound:
  "map_of (by_key records) (pathKey p) = Some r \<Longrightarrow> r \<in> set records \<and> (sr_path r = p \<or> sr_originalPath r = Some p)"
proof -
  define step where "step r m = (let m = AList.update (pathKey (sr_path r)) r m
     in (case sr_originalPath r of None \<Rightarrow> m | Some q \<Rightarrow> AList.update (pathKey q) r m))" for r :: status_record and m
  have "map_of (fold step records m) (pathKey p) = Some r \<Longrightarrow>
      (r \<in> set records \<and> (sr_path r = p \<or> sr_originalPath r = Some p)) \<or> map_of m (pathKey p) = Some r" for m
  proof (induction records arbitrary: m)
    case (Cons a rs)
    then have "(r \<in> set rs \<and> (sr_path r = p \<or> sr_originalPath r = Some p)) \<or> map_of (step a m) (pathKey p) = Some r"
      by simp
    then show ?case
      by (auto simp: step_def Let_def update_conv' fun_upd_def split: option.splits if_splits)
  qed simp
  from this [of "[]"] show "map_of (by_key records) (pathKey p) = Some r \<Longrightarrow> ?thesis"
    by (simp add: by_key_def step_def [abs_def])
qed

lemma discard_reason_None: "discard_reason r' = None \<longleftrightarrow> (\<exists>r. r' = Some r \<and> restorable r)"
  by (auto simp: discard_reason_def restorable_def split: option.splits if_splits simp del: str_simps)

lemma first_discard_refusal_None:
  "first_discard_refusal m ps = None \<longleftrightarrow> (\<forall>p \<in> set ps. discard_reason (map_of m (pathKey p)) = None)"
  by (induction ps) (auto split: option.split)

lemma exec_runSpec: "fst (exec g h (runSpec c)) = h @ [(c, g h c)]"
  by (simp add: runSpec_def runRequired_def refuse_workflow_error_def)

lemma one_planned_command:
  assumes "exec g [] (after_command env (runPlanned plan) out) = (h, x)" "h \<noteq> []"
  shows "\<exists>c r. plan = Inr c \<and> h = [(c, r)]"
proof (cases plan)
  case (Inr c)
  obtain y where "exec g [] (runSpec c) = ([(c, g [] c)], y)"
    using exec_runSpec [of g "[]" c] by (cases "exec g [] (runSpec c)") auto
  then show ?thesis
    using assms Inr by (auto simp: after_command_def runPlanned_def split: sum.splits)
qed (use assms in \<open>simp add: after_command_def runPlanned_def\<close>)


end
