(* ===== verification/NameRules.thy ===== *)
theory NameRules
  imports Names Auth
begin

text \<open>
  What the name and URL rules of \<open>Names\<close> let through: a byte count that is exact, two writings of the URL
  rule that agree, and the branch names that are left, compared with the rules of
  \<^verbatim>\<open>git check-ref-format\<close>.
\<close>

section \<open>Bytes of a message\<close>

text \<open>
  Both functions branch on the same tests, three of a unit and one of its follower. With the tests as
  arbitrary conditions the two shapes agree.
\<close>

lemma length_if: "length (if b then xs else ys) = (if b then length xs else length ys)"
  by simp

lemma length_utf8_bytes:
  "length (utf8_bytes (c # cs)) =
     (if c < 0x80 then 1 + length (utf8_bytes cs)
      else if c < 0x800 then 2 + length (utf8_bytes cs)
      else if 0xd800 \<le> c \<and> c \<le> 0xdbff
      then (case cs of
          [] \<Rightarrow> 3
        | d # ds \<Rightarrow> if 0xdc00 \<le> d \<and> d \<le> 0xdfff then 4 + length (utf8_bytes ds) else 3 + length (utf8_bytes cs))
      else 3 + length (utf8_bytes cs))"
proof -
  define p q r where "p = (c < 0x80)" and "q = (c < 0x800)" and "r = (0xd800 \<le> c \<and> c \<le> 0xdbff)"
  define t where "t d = (0xdc00 \<le> d \<and> d \<le> 0xdfff)" for d :: code_unit
  show ?thesis
    unfolding utf8_bytes.simps(2) [of c cs] Let_def
    unfolding p_def [symmetric] q_def [symmetric] r_def [symmetric] t_def [symmetric]
    by (simp only: length_if list.size list.case split: list.split) auto
qed

text \<open>
  The byte count a commit message is limited by is exact: \<open>utf8ByteLength\<close> gives, for any string with
  or without lone surrogates, the length of the bytes the message is encoded to on its way to Git.
\<close>

theorem utf8ByteLength_exact: "utf8ByteLength s = length (utf8_bytes s)"
proof (induction "length s" arbitrary: s rule: less_induct)
  case less
  show ?case
  proof (cases s)
    case (Cons c cs)
    have cs: "utf8ByteLength cs = length (utf8_bytes cs)"
      by (rule less) (simp add: Cons)
    show ?thesis
    proof (cases cs)
      case Nil
      then show ?thesis by (simp only: Cons utf8ByteLength.simps utf8_bytes.simps(1) length_utf8_bytes list.case list.size)
    next
      case (Cons d ds)
      have ds: "utf8ByteLength ds = length (utf8_bytes ds)"
        by (rule less) (simp add: \<open>s = c # cs\<close> Cons)
      show ?thesis
        unfolding \<open>s = c # cs\<close> utf8ByteLength.simps(2) [of c cs] length_utf8_bytes [of c cs] cs
        by (simp only: Cons list.case ds)
    qed
  qed simp
qed

section \<open>Both URL rules\<close>

text \<open>
  The rule the contract applies to a remote URL a client sends and the rule git-core applies to one it
  reads from a repository's configuration accept the same URLs.
\<close>

theorem remote_url_rules_agree:
  assumes "zod_reports zod"
  shows "validateRemoteUrl zod s path = [] \<longleftrightarrow> unsafeRemoteUrlReason s = None"
  using assms
  by (auto simp del: str_simps simp: validateRemoteUrl_def unsafeRemoteUrlReason_def remoteUrlSchema_def
        Suc_le_eq)

section \<open>Branch names\<close>

text \<open>
  The rules of \<^verbatim>\<open>git check-ref-format\<close> for the name of a branch: of each component between slashes,
  and of the whole. \<open>name_rules\<close> leaves out the one about components ending in \<^verbatim>\<open>.lock\<close>.
\<close>

definition component_rules :: "jsstring \<Rightarrow> bool" where
  "component_rules c \<longleftrightarrow> c \<noteq> [] \<and> \<not> startsWith c (str ''.'')"

definition name_rules :: "jsstring \<Rightarrow> bool" where
  "name_rules s \<longleftrightarrow>
     list_all component_rules (splitOn 0x2f s) \<and> \<not> js_includes s (str ''..'') \<and>
     list_all (\<lambda>c. \<not> control_or_space c \<and> \<not> ref_special c) s \<and> \<not> endsWith s (str ''.'') \<and>
     \<not> js_includes s [0x40, 0x7b] \<and> s \<noteq> str ''@'' \<and> \<not> startsWith s (str ''-'')"

definition git_branch_name :: "jsstring \<Rightarrow> bool" where
  "git_branch_name s \<longleftrightarrow> name_rules s \<and> list_all (\<lambda>c. \<not> endsWith c (str ''.lock'')) (splitOn 0x2f s)"

lemma splitOn_append: "splitOn c (u @ c # v) = splitOn c u @ splitOn c v"
  by (induction u) (auto split: list.splits)

lemma no_empty_component:
  assumes "[] \<notin> set (splitOn c s)"
  shows "\<not> startsWith s [c]" "\<not> endsWith s [c]" "\<not> js_includes s [c, c]"
proof -
  show "\<not> startsWith s [c]"
    using assms by (auto simp: startsWith_iff)
  show "\<not> endsWith s [c]"
    using assms by (auto simp: endsWith_iff splitOn_append)
  show "\<not> js_includes s [c, c]"
    using assms by (auto simp: includes_iff splitOn_append)
qed

lemma component_problems_Nil: "component_problems cs = [] \<longleftrightarrow> list_all component_rules cs"
  by (induction cs) (simp_all add: component_problems_def component_rules_def del: str_simps)

lemma str_slash: "str ''/'' = [0x2f]" "str ''//'' = [0x2f, 0x2f]"
  by (simp_all add: of_char_def)

lemma ref_name_findings_Nil:
  "ref_name_findings s = [] \<longleftrightarrow> name_rules s \<and> \<not> ends_lock s"
proof -
  have "list_all component_rules (splitOn 0x2f s) \<Longrightarrow>
    \<not> startsWith s (str ''/'') \<and> \<not> endsWith s (str ''/'') \<and> \<not> js_includes s (str ''//'')"
    using no_empty_component [of "0x2f" s] unfolding str_slash
    by (auto simp: list_all_iff component_rules_def)
  then show ?thesis
    unfolding ref_name_findings_def name_rules_def append_is_Nil_conv component_problems_Nil
    by (auto simp del: str_simps simp: list_ex_iff list_all_iff)
qed

lemma ends_lock_endsWith: "endsWith s (str ''.lock'') \<Longrightarrow> ends_lock s"
  by (auto simp: ends_lock_def endsWith_iff lower_lock_def of_char_def)

text \<open>
  Which branch names a client may send: up to 255 units, not ending in \<^verbatim>\<open>.lock\<close> in any case, and
  otherwise exactly what Git's own rules for names allow. So none is read as an option, none escapes
  \<^verbatim>\<open>refs/heads\<close>, and none is a revision expression.
\<close>

theorem branch_names_accepted:
  assumes "zod_reports zod"
  shows "validateBranchName zod s path = [] \<longleftrightarrow>
    length s \<le> branchNameMaxLength \<and> name_rules s \<and> \<not> ends_lock s"
proof -
  have "name_rules s \<Longrightarrow> s \<noteq> []"
    by (auto simp: name_rules_def component_rules_def)
  moreover have "name_rules s \<Longrightarrow> s \<noteq> [] \<Longrightarrow> name_body s"
    by (simp add: name_rules_def name_body_def)
  ultimately show ?thesis
    using assms
    by (auto simp: validateBranchName_def refNameComponentProblems_def ref_name_findings_Nil branchNameSchema_def
          Suc_le_eq)
qed

text \<open>
  The rule about \<^verbatim>\<open>.lock\<close> is applied to the end of the whole name only: \<^verbatim>\<open>a.lock/b\<close> is accepted, and Git
  refuses it.
\<close>

theorem inner_lock_component_accepted:
  "validateBranchName zod (str ''a.lock/b'') path = [] \<and> \<not> git_branch_name (str ''a.lock/b'')"
  by (simp add: validateBranchName_def branchNameSchema_def name_body_def branchNameMaxLength_def
        control_or_space_def ref_special_def refNameComponentProblems_def ref_name_findings_def
        component_problems_def startsWith_def endsWith_def ends_lock_def lower_lock_def git_branch_name_def)

end
