(* ===== verification/RunWitness.thy ===== *)
theory RunWitness
  imports NameRules OptionRules
begin

text \<open>
  Concrete runs: a worktree whose Git answers every probe with exit code one, and the operations of
  \<open>RunRules\<close> and \<open>NameRules\<close> on it.
\<close>

section \<open>A worktree and its Git\<close>

definition demo_oid :: jsstring where "demo_oid = replicate 40 0x61"

definition demo_facts :: effect_facts where
  "demo_facts = \<lparr>fx_cwdHandle = str ''root'', fx_head = \<lparr>hf_born = True, hf_branchName = Some (str ''main''),
     hf_oid = Some demo_oid, hf_detached = False\<rparr>, fx_records = []\<rparr>"

definition demo_env :: effect_env where
  "demo_env = \<lparr>ev_operationId = str ''op_1'', ev_facts = Inr demo_facts, ev_targetDestination = [],
     ev_workspace = (\<lambda>d. Inl (refuse ''NotFound'' [] False)), ev_before = Absent, ev_observe = (\<lambda>r. NonEmpty),
     ev_registerFailure = None, ev_destination = (\<lambda>d. Inr (str ''/w'')),
     ev_worktreeCommand = (\<lambda>w. Inl (refuse ''NotFound'' [] False)), ev_contained = (\<lambda>p. True),
     ev_submodulePaths = (\<lambda>ids. Inr []), ev_bindings = (\<lambda>ids. Inr []), ev_consumePreviews = (\<lambda>ids tokens. None),
     ev_backUp = (\<lambda>paths. Inr 0)\<rparr>"

definition result_of :: "git_termination \<Rightarrow> nat \<Rightarrow> git_result" where
  "result_of t n = \<lparr>gr_termination = t, gr_exitCode = Some n, gr_stdout = [], gr_stderr = [],
     gr_stderrTruncated = False, gr_durationMs = None\<rparr>"

text \<open>Probes exit with one; a writing command ends as given.\<close>

definition demo_git :: "git_result \<Rightarrow> git" where
  "demo_git r h c = (if mutating c then r else result_of Exited 1)"

definition demo_operation :: operation where
  "demo_operation = StagingOp (ResetBranch demo_oid True)"

definition demo_target :: mutation_target where
  "demo_target = WorktreeTarget (str ''repo_1'') (str ''wt_1'') (str ''snap_1'')"

lemma demo_accepted: "accepted zod demo_operation demo_target"
  by (simp add: accepted_def demo_operation_def demo_target_def target_problems_def isObjectName_def demo_oid_def
        isHexDigit_def list_all_iff)

lemma exit_zero_result [simp]: "exit_zero (result_of t n) \<longleftrightarrow> t = Exited \<and> n = 0"
  by (simp add: exit_zero_def result_of_def)

lemma demo_git_simps [simp]:
  "mutating c \<Longrightarrow> demo_git r h c = r" "\<not> mutating c \<Longrightarrow> demo_git r h c = result_of Exited 1"
  by (simp_all add: demo_git_def)

lemma demo_head [simp]:
  "exec (demo_git r) h (readHeadFacts cwd) =
     (h @ [(planHeadRef cwd, result_of Exited 1), (planHeadOid cwd, result_of Exited 1)],
      Inr \<lparr>hf_born = False, hf_branchName = None, hf_oid = None, hf_detached = True\<rparr>)"
  by (simp add: readHeadFacts_def runMeaningfulExit_def isAcceptedExit_def decode_oid_def)
     (simp add: result_of_def)

lemma demo_probes [simp]:
  "exec (demo_git r) h (refuse_if (mergeInProgress cwd) m p) = exec (demo_git r) (h @ [(planMergeInProgress cwd, result_of Exited 1)]) p"
  "exec (demo_git r) h (refuse_if (revertInProgress cwd) m p) = exec (demo_git r) (h @ [(planRevertInProgress cwd, result_of Exited 1)]) p"
  by (simp_all add: refuse_if_def probes in_progress_def)

definition demo_log :: "git_result \<Rightarrow> git_log" where
  "demo_log r = [(planMergeInProgress (str ''root''), result_of Exited 1), (planRevertInProgress (str ''root''), result_of Exited 1),
     (planResetBranch (str ''root'') demo_oid True, r)]"

lemma demo_runs:
  "exec (demo_git (result_of Exited 0)) [] (run_effect demo_env demo_operation) =
     (demo_log (result_of Exited 0) @ [(planHeadRef (str ''root''), result_of Exited 1), (planHeadOid (str ''root''), result_of Exited 1)],
      Inr (succeeded (str ''branch reset to unknown'') [] None))"
  "exec (demo_git (result_of TimedOut 0)) [] (run_effect demo_env demo_operation) =
     (demo_log (result_of TimedOut 0), Inr (unknownOutcome (str ''op_1'') (str
       ''whether the branch moved is not established; look at the repository with git before writing again'')))"
  by (simp_all add: demo_operation_def demo_env_def demo_facts_def staging_effects sequenced_def orFail_def resetBranch_def
        completed_def resetOutcomeOf_def head_text_def demo_log_def stopped_def del: str_simps)
     (simp_all add: result_of_def)

section \<open>Witnesses\<close>

theorem success_is_gits_witness:
  "writes (fst (exec (demo_git (result_of Exited 0)) [] (run_effect demo_env demo_operation))) \<noteq> [] \<and>
   list_all (\<lambda>(c, r). exit_zero r) (writes (fst (exec (demo_git (result_of Exited 0)) [] (run_effect demo_env demo_operation))))"
  using success_is_gits [OF demo_accepted [of "\<lambda>s v. [v]"] _ demo_runs(1) [unfolded succeeded_def]]
  by (simp only: demo_runs(1) fst_conv list_all_iff) (simp add: demo_operation_def)

theorem cut_short_is_left_open_witness:
  "\<exists>p. snd (exec (demo_git (result_of TimedOut 0)) [] (run_effect demo_env demo_operation)) = Inr (OutcomeUnknown p) \<or>
       snd (exec (demo_git (result_of TimedOut 0)) [] (run_effect demo_env demo_operation)) = Inr (OutcomeNeedsAttention p)"
proof -
  have "(planResetBranch (str ''root'') demo_oid True, result_of TimedOut 0) \<in> set (demo_log (result_of TimedOut 0))"
    by (simp add: demo_log_def)
  from cut_short_is_left_open [OF demo_accepted [of "\<lambda>s v. [v]"] _ demo_runs(2) this]
  show ?thesis
    by (simp only: demo_runs(2) snd_conv) (simp add: demo_operation_def cut_short_def result_of_def)
qed

theorem nothing_is_retried_witness:
  "distinct (map fst (writes (fst (exec (demo_git (result_of Exited 0)) [] (run_effect demo_env demo_operation)))))"
  using nothing_is_retried [OF demo_accepted [of "\<lambda>s v. [v]"] demo_runs(1)] by (simp only: demo_runs(1) fst_conv)

definition demo_zod :: zod_issues where
  "demo_zod schema v = [str ''invalid'']"

lemma demo_zod_reports: "zod_reports demo_zod"
  by (simp add: zod_reports_def demo_zod_def)

lemma demo_host: "host_plain demo_env"
  by (auto simp: host_plain_def demo_env_def demo_facts_def plain_str simp del: str_simps)

lemma demo_objects: "object_answer c (demo_git (result_of TimedOut 0) h c)"
  by (simp add: object_answer_def demo_git_def)

theorem client_text_is_no_option_witness:
  "set (option_names (gc_argv (planResetBranch (str ''root'') demo_oid True))) \<subseteq> set (map str known_options) \<and>
   set (option_names (gc_argv (planResetBranch (str ''root'') demo_oid True))) \<inter> set (map str dangerous_options) = {}"
proof -
  have "(planResetBranch (str ''root'') demo_oid True, result_of TimedOut 0) \<in> set (demo_log (result_of TimedOut 0))"
    by (simp add: demo_log_def)
  from client_text_is_no_option [OF demo_accepted [of demo_zod] demo_zod_reports demo_host demo_objects demo_runs(2) this]
  show ?thesis .
qed

theorem remote_url_rules_agree_witness:
  "validateRemoteUrl demo_zod (str ''https://h/r'') [] = [] \<longleftrightarrow> unsafeRemoteUrlReason (str ''https://h/r'') = None"
  by (rule remote_url_rules_agree [OF demo_zod_reports])

theorem branch_names_accepted_witness:
  "validateBranchName demo_zod (str ''feature/x'') [] = [] \<longleftrightarrow>
     length (str ''feature/x'') \<le> branchNameMaxLength \<and> name_rules (str ''feature/x'') \<and> \<not> ends_lock (str ''feature/x'')"
  by (rule branch_names_accepted [OF demo_zod_reports])

end
