(* ===== verification/RunGaps.thy ===== *)
theory RunGaps
  imports RunWitness
begin

text \<open>
  Runs whose outcome says something else than what Git did: each is one operation against a Git that gives
  a fixed list of answers.
\<close>

definition scripted :: "git_result list \<Rightarrow> git" where
  "scripted rs h c = (if length h < length rs then rs ! length h else result_of Exited 1)"

lemma scripted_at [simp]: "length h < length rs \<Longrightarrow> scripted rs h c = rs ! length h"
  "\<not> length h < length rs \<Longrightarrow> scripted rs h c = result_of Exited 1"
  by (simp_all add: scripted_def)

section \<open>Continuing\<close>

text \<open>
  A continue that failed can be reported as done. If \<^verbatim>\<open>git rebase --continue\<close> exits with one and the probe that
  asks whether the rebase is still open is cut short by its deadline, the operation is recorded as succeeded.
\<close>

theorem continue_believes_a_failed_probe:
  "snd (exec (scripted [result_of Exited 0, result_of Exited 1, result_of TimedOut 0]) [] (run_effect demo_env (SequencerOp ContinueRebase))) =
     Inr (succeeded (str ''continued the rebase and committed the resolved index'') [] None)"
  by (simp add: sequencer_effects sequenced_def orFail_def demo_env_def demo_facts_def continueRebase_def refuse_unless_def probes
      in_progress_def continue_with_probe_def stopped_def completed_def readHeadFacts_def runMeaningfulExit_def isAcceptedExit_def
      decode_oid_def continueOutcomeOf_def exit_zero_def del: str_simps)
     (simp add: result_of_def)

section \<open>Remotes\<close>

definition demo_remotes :: "byte list" where
  "demo_remotes = asc ''o'' @ [9] @ asc ''https://h/r (fetch)'' @ [10] @ asc ''o'' @ [9] @ asc ''https://h/r (push)'' @ [10]"

definition demo_push :: "byte list" where
  "demo_push = asc ''To https://h/r'' @ [10] @ asc ''*'' @ [9] @ asc ''refs/heads/m:refs/heads/m'' @ [9] @ asc ''[new branch]'' @ [10]"

lemma demo_url_safe: "unsafeRemoteUrlReason (str ''https://h/r'') = None"
  by code_simp

lemma demo_remotes_parsed:
  "parseRemoteList demo_remotes =
     Inr [\<lparr>ru_name = str ''o'', ru_url = str ''https://h/r'', ru_push = False\<rparr>, \<lparr>ru_name = str ''o'', ru_url = str ''https://h/r'', ru_push = True\<rparr>]"
  by code_simp

lemma demo_push_parsed:
  "parsePushPorcelain demo_push =
     Inr \<lparr>ps_remote = Some (str ''https://h/r''), ps_refs = [\<lparr>pf_from = str ''refs/heads/m'',
       pf_to = str ''refs/heads/m'', pf_status = NewRef, pf_summary = str ''[new branch]''\<rparr>], ps_everythingUpToDate = False, ps_diagnostics = []\<rparr>"
  by code_simp

definition printing :: "git_termination \<Rightarrow> nat \<Rightarrow> byte list \<Rightarrow> git_result" where
  "printing t n out = (result_of t n)\<lparr>gr_stdout := out\<rparr>"

text \<open>
  A push that was stopped can be reported as rejected. If Git has printed that the remote created the ref and is
  then stopped by its deadline, the operation is recorded as failed, not as unknown.
\<close>

theorem stopped_push_reported_as_failed:
  "\<exists>m. snd (exec (scripted [printing Exited 0 demo_remotes, printing TimedOut 0 demo_push]) []
       (run_effect demo_env (RepositoryOp (Push (str ''o'') (str ''refs/heads/m'') (str ''refs/heads/m'') False)))) =
     Inr (failedOp (str ''op_1'') ''GitCommandFailed'' (str ''the push was rejected: '' @ m))"
proof -
  have listing: "exit_zero (printing Exited 0 demo_remotes)" "gr_stdout (printing Exited 0 demo_remotes) = demo_remotes"
    "\<not> exit_zero (printing TimedOut 0 demo_push)" "gr_stdout (printing TimedOut 0 demo_push) = demo_push"
    "gr_stderr (printing TimedOut 0 demo_push) = []"
    by (simp_all add: printing_def result_of_def exit_zero_def)
  have summary: "pushSummary \<lparr>ps_remote = Some (str ''https://h/r''), ps_refs = [\<lparr>pf_from = str ''refs/heads/m'',
       pf_to = str ''refs/heads/m'', pf_status = NewRef, pf_summary = str ''[new branch]''\<rparr>], ps_everythingUpToDate = False, ps_diagnostics = []\<rparr> =
     str ''refs/heads/m: [new branch]''"
    by code_simp
  have urls: "find_url True (str ''o'') [\<lparr>ru_name = str ''o'', ru_url = str ''https://h/r'', ru_push = False\<rparr>,
      \<lparr>ru_name = str ''o'', ru_url = str ''https://h/r'', ru_push = True\<rparr>] = Some (str ''https://h/r'')"
    by (simp add: find_url_def)
  have diagnostic: "paren_diagnostic (boundedDiagnostic []) = []"
    by (simp add: paren_diagnostic_def boundedDiagnostic_def js_trim_def js_trimEnd_def)
  have short: "take 2000 (str ''the push was rejected: '' @ str ''refs/heads/m: [new branch]'') =
      str ''the push was rejected: '' @ str ''refs/heads/m: [new branch]''"
    by (rule take_all) (simp del: str_simps)
  show ?thesis
    by (rule exI [of _ "str ''refs/heads/m: [new branch]''"])
       (simp add: pushEffect_def orFail_def demo_env_def demo_facts_def pushRef_def checkConfiguredRemote_def listing
        demo_remotes_parsed demo_push_parsed demo_url_safe urls summary refusal_of_result_def diagnostic short del: str_simps)
qed

text \<open>
  A remote that was half added is reported as failed. If the remote is added and setting its push URL fails,
  the operation is recorded as failed although the remote now exists; updating a remote reports the same
  situation as needing attention.
\<close>

theorem half_added_remote_reported_as_failed:
  "snd (exec (scripted [result_of Exited 0, result_of Exited 2]) []
      (run_effect demo_env (RepositoryOp (AddRemote (str ''o'') (str ''https://h/r'') (Some (str ''https://h/p'')))))) =
     Inr (failedOp (str ''op_1'') ''GitCommandFailed'' (str ''git refused the operation (exit 2)''))"
proof -
  have refused: "refusal_of_result (result_of Exited 2) = \<lparr>cf_code = ''GitCommandFailed'', cf_exitCode = Some 2, cf_diagnostic = []\<rparr>"
    by (simp add: refusal_of_result_def result_of_def boundedDiagnostic_def js_trimEnd_def)
  have said: "take 2000 (str ''git refused the operation (exit '' @ exit_text (Some 2) @ str '')'') = str ''git refused the operation (exit 2)''"
    by code_simp
  have outcome: "writeOutcomeFromGit i \<lparr>cf_code = ''GitCommandFailed'', cf_exitCode = Some 2, cf_diagnostic = []\<rparr> =
      failedOp i ''GitCommandFailed'' (str ''git refused the operation (exit 2)'')" for i
    by (simp add: writeOutcomeFromGit_def gitFailureOutcome_def said js_trim_def js_trimEnd_def del: str_simps take_append)
  show ?thesis
    by (simp add: addRemoteEffect_def orFail_def demo_env_def demo_facts_def addRemote_def runQuiet_def after_command_def
        refused outcome del: str_simps)
qed

end
