(* ===== verification/GuardWitness.thy ===== *)
theory GuardWitness
  imports GuardRules PathRules RunGaps
begin

text \<open>Concrete runs for the rules of \<open>GuardRules\<close> and \<open>PathRules\<close>.\<close>

lemma scripted_exit [simp]:
  "exit_zero (printing t n out) \<longleftrightarrow> t = Exited \<and> n = 0" "gr_stdout (printing t n out) = out"
  "gr_termination (printing t n out) = t" "gr_exitCode (printing t n out) = Some n"
  "gr_termination (result_of t n) = t" "gr_exitCode (result_of t n) = Some n"
  by (simp_all add: printing_def result_of_def exit_zero_def)

section \<open>Open operations\<close>


section \<open>Stashes and tags\<close>

definition oid_line :: "byte list" where
  "oid_line = replicate 40 0x61 @ [10]"

lemma oid_line_read: "js_trim (first_line oid_line) = demo_oid" "asciiTrimmed oid_line = demo_oid"
  by code_simp+

theorem stash_is_the_selected_one_witness:
  "\<exists>h0 a. [(planStashResolve (str ''root'') (str ''stash''), printing Exited 0 oid_line)] = h0 @ [(planStashResolve (str ''root'') (str ''stash''), a)] \<and>
     exit_zero a \<and> js_trim (first_line (gr_stdout a)) = demo_oid"
proof -
  have facts: "ev_facts demo_env = Inr demo_facts" and cwd: "fx_cwdHandle demo_facts = str ''root''"
    by (simp_all add: demo_env_def demo_facts_def)
  have selected: "selected_stash (DropStash demo_oid (str ''stash'') True) = Some (demo_oid, str ''stash'')"
    by (simp del: str_simps)
  have run: "exec (scripted [printing Exited 0 oid_line, result_of Exited 0]) []
      (run_effect demo_env (StashTagOp (DropStash demo_oid (str ''stash'') True))) =
      ([(planStashResolve (str ''root'') (str ''stash''), printing Exited 0 oid_line)] @
       (planStashDrop (str ''root'') (str ''stash''), result_of Exited 0) # [],
       Inr (succeeded (str ''dropped stash'') [] (Some demo_oid)))"
    by (simp add: dropStashEffect_def at_locator_def orFail_def facts cwd checkStashLocator_def oid_line_read locatorProblem_def
        after_command_def dropStash_def runSpec_def runRequired_def head_oid_def del: str_simps)
       (simp add: demo_facts_def)
  show ?thesis
    using stash_is_the_selected_one [OF facts selected run] unfolding cwd by simp
qed

theorem tags_are_never_overwritten_witness:
  "\<exists>h0 b. [(planTagExists (str ''root'') (str ''v1''), result_of Exited 1)] = h0 @ [(planTagExists (str ''root'') (str ''v1''), b)] \<and>
     gr_termination b = Exited \<and> gr_exitCode b = Some 1"
proof -
  have facts: "ev_facts demo_env = Inr demo_facts" and cwd: "fx_cwdHandle demo_facts = str ''root''"
    by (simp_all add: demo_env_def demo_facts_def)
  have run: "exec (scripted [result_of Exited 1, result_of Exited 0]) []
      (run_effect demo_env (StashTagOp (CreateTag (str ''v1'') None None))) =
      ([(planTagExists (str ''root'') (str ''v1''), result_of Exited 1)] @
       (planTagCreateLightweight (str ''root'') (str ''v1'') None, result_of Exited 0) # [],
       Inr (succeeded (str ''created tag v1'') [tag_ref (str ''v1'')] (Some demo_oid)))"
    by (simp add: createTagEffect_def orFail_def facts cwd createTag_def runPlanned_def runSpec_def runRequired_def head_oid_def
        del: str_simps)
       (simp add: demo_facts_def)
  show ?thesis
    using tags_are_never_overwritten [OF facts run] unfolding cwd by simp
qed

section \<open>Remotes\<close>

lemma demo_find_url:
  "find_url push (str ''o'') [\<lparr>ru_name = str ''o'', ru_url = str ''https://h/r'', ru_push = False\<rparr>,
     \<lparr>ru_name = str ''o'', ru_url = str ''https://h/r'', ru_push = True\<rparr>] = Some (str ''https://h/r'')"
  by (cases push) (simp_all add: find_url_def del: str_simps)

lemma demo_fetch_parsed: "parseFetchPorcelain [] = Inr \<lparr>fs_refs = [], fs_diagnostics = []\<rparr>"
  by code_simp

theorem network_meets_a_safe_url_witness:
  "\<exists>h0 a records u. [(planRemotes (str ''root''), printing Exited 0 demo_remotes)] = h0 @ [(planRemotes (str ''root''), a)] \<and>
     exit_zero a \<and> parseRemoteList (gr_stdout a) = Inr records \<and> url_in_use (str ''o'') False records = Some u \<and>
     unsafeRemoteUrlReason u = None"
proof -
  have facts: "ev_facts demo_env = Inr demo_facts" and cwd: "fx_cwdHandle demo_facts = str ''root''"
    by (simp_all add: demo_env_def demo_facts_def)
  have contact: "contacted (RepositoryOp (Fetch (str ''o'') False True)) = Some (str ''o'', False)"
    by (simp del: str_simps)
  obtain x where run: "exec (scripted [printing Exited 0 demo_remotes, printing Exited 0 []]) []
      (run_effect demo_env (RepositoryOp (Fetch (str ''o'') False True))) =
      ([(planRemotes (str ''root''), printing Exited 0 demo_remotes)] @
       (planFetch (str ''root'') (str ''o'') False True, printing Exited 0 []) # [], x)"
    by (simp add: fetchEffect_def orFail_def facts cwd fetchRemote_def checkConfiguredRemote_def demo_remotes_parsed demo_find_url
        demo_url_safe demo_fetch_parsed del: str_simps)
  have network: "gc_deadlineClass (planFetch cwd r p t) = NetworkClass" for cwd r p t
    by (simp add: planFetch_def)
  show ?thesis
    using network_meets_a_safe_url [OF facts contact run network] unfolding cwd by simp
qed

definition upstream_line :: "byte list" where
  "upstream_line = asc ''o/main'' @ [10]"

lemma upstream_read: "first_line upstream_line = str ''o/main''" "hd (splitOn 0x2f (str ''o/main'')) = str ''o''"
  "takeWhile (\<lambda>d. d \<noteq> 0x2f) (str ''o/main'') = str ''o''"
  by code_simp+

theorem pull_only_fast_forwards_witness:
  "\<exists>a u. (planBranchUpstreamRef (str ''root'') (str ''main''), a) \<in>
       set [(planBranchUpstreamRef (str ''root'') (str ''main''), printing Exited 0 upstream_line),
            (planRemotes (str ''root''), printing Exited 0 demo_remotes),
            (planFetch (str ''root'') (str ''o'') False True, printing Exited 0 [])] \<and> exit_zero a \<and> u = first_line (gr_stdout a) \<and>
     takeWhile (\<lambda>d. d \<noteq> 0x2f) u = str ''o'' \<and>
     planFastForwardMerge (str ''root'') (str ''o/main'') = planFastForwardMerge (str ''root'') u"
proof -
  have facts: "ev_facts demo_env = Inr demo_facts" and cwd: "fx_cwdHandle demo_facts = str ''root''"
    and branch: "hf_branchName (fx_head demo_facts) = Some (str ''main'')"
    by (simp_all add: demo_env_def demo_facts_def)
  obtain x where run: "exec (scripted [printing Exited 0 upstream_line, printing Exited 0 demo_remotes, printing Exited 0 [], result_of Exited 1]) []
      (run_effect demo_env (RepositoryOp (Pull (str ''o'')))) =
      ([(planBranchUpstreamRef (str ''root'') (str ''main''), printing Exited 0 upstream_line),
        (planRemotes (str ''root''), printing Exited 0 demo_remotes),
        (planFetch (str ''root'') (str ''o'') False True, printing Exited 0 [])] @
       (planFastForwardMerge (str ''root'') (str ''o/main''), result_of Exited 1) # [], x)"
    by (simp add: pullEffect_def orFail_def facts cwd branch pullFastForward_def upstream_read fetchRemote_def checkConfiguredRemote_def
        demo_remotes_parsed demo_find_url demo_url_safe demo_fetch_parsed Let_def del: str_simps)
  have other: "planFastForwardMerge c u \<noteq> planFetch c' r p t" for c u c' r p t
    by (simp add: planFastForwardMerge_def planFetch_def plan_spec_def)
  show ?thesis
    using pull_only_fast_forwards [OF facts branch run] other unfolding cwd by (simp del: str_simps)
qed

section \<open>Drops and discards\<close>

definition drop_answers :: "git_result list" where
  "drop_answers = [result_of Exited 1, result_of Exited 1, result_of Exited 1, result_of Exited 1, result_of Exited 0, result_of Exited 1,
     printing Exited 0 oid_line, result_of TimedOut 0]"

definition drop_log :: git_log where
  "drop_log = [(planMergeInProgress (str ''root''), result_of Exited 1), (planRevertInProgress (str ''root''), result_of Exited 1),
     (planCherryPickInProgress (str ''root''), result_of Exited 1), (planRebaseInProgress (str ''root''), result_of Exited 1),
     (planDropCommitAncestry (str ''root'') demo_oid, result_of Exited 0),
     (planDropCommitSecondParent (str ''root'') demo_oid, result_of Exited 1),
     (planDropCommitParent (str ''root'') demo_oid, printing Exited 0 oid_line)]"


definition changed_file :: status_record where
  "changed_file = \<lparr>sr_kind = Ordinary, sr_indexStatus = str ''.'', sr_worktreeStatus = str ''M'', sr_submoduleField = str ''N...'',
     sr_modes = \<lparr>mode_head = None, mode_index = None, mode_worktree = Some (str ''100644'')\<rparr>,
     sr_oids = \<lparr>oid_head = None, oid_index = None\<rparr>, sr_path = asc ''f'', sr_originalPath = None, sr_score = None,
     sr_stages = [], sr_commitChanged = False, sr_modified = False, sr_untracked = False\<rparr>"

definition changed_env :: effect_env where
  "changed_env = demo_env\<lparr>ev_facts := Inr (demo_facts\<lparr>fx_records := [changed_file]\<rparr>), ev_bindings := (\<lambda>ids. Inr [asc ''f'']),
     ev_backUp := (\<lambda>paths. Inr (length paths))\<rparr>"

lemma changed_selected: "selectDiscardablePaths [changed_file] [asc ''f''] = None"
  by code_simp


end
