(* ===== verification/RunLength.thy ===== *)
theory RunLength
  imports RunRules
begin

text \<open>
  How long a run is: the commands of every operation are counted along the text of its workflow, over the
  whole log and whatever Git answers.
\<close>

section \<open>Facts\<close>

text \<open>A part that runs at most \<open>n\<close> commands, in the rest of a program.\<close>

definition within :: "nat \<Rightarrow> 'a prog \<Rightarrow> bool" where
  "within n p \<longleftrightarrow> (\<forall>h. every (\<lambda>h' x. length h' \<le> length h + n) h p)"

lemma every_conj: "every Q h p \<Longrightarrow> every R h p \<Longrightarrow> every (\<lambda>h' x. Q h' x \<and> R h' x) h p"
  by (induction p arbitrary: h) auto

lemma every_within: "within n p \<Longrightarrow> (\<And>h' x. length h' \<le> length h + n \<Longrightarrow> Q h' x) \<Longrightarrow> every Q h p"
  by (auto simp: within_def intro: every_mono)

lemma within_exec:
  assumes "within n p"
  shows "length (fst (exec g [] p)) \<le> n"
proof (cases "exec g [] p")
  case (Pair h x)
  have "every (\<lambda>h' x. length h' \<le> length ([] :: git_log) + n) [] p"
    using assms unfolding within_def ..
  from every_exec [OF this Pair] Pair show ?thesis by simp
qed

lemma every_decode [simp]:
  "every Q h (decodeAsciiText b f) \<longleftrightarrow> (if is_ascii b then Q h (Inr (latin1 b)) else Q h (Inl (WorkflowError
     \<lparr>we_code = ''GitOutputUnparsable'', we_exitCode = None, we_command = f, we_diagnostic = [],
      we_message = str (f @ '': unexpected non-ASCII byte in an ASCII field'')\<rparr>)))"
  by (simp add: decodeAsciiText_def del: str_simps)

lemma within_readHeadFacts: "within 2 (readHeadFacts cwd)"
  by (auto simp: within_def readHeadFacts_def Let_def runMeaningfulExit_def decode_oid_def simp del: str_simps
      split: option.split)

lemma within_head_or_none: "within 2 (head_or_none cwd)"
  unfolding head_or_none_def within_def
  by (auto intro!: every_within [OF within_readHeadFacts] split: sum.split)

lemma within_countConflictedPaths: "within 1 (countConflictedPaths cwd)"
  by (auto simp: within_def countConflictedPaths_def)

lemma within_checkStashLocator: "within 1 (checkStashLocator cwd l oid)"
  by (auto simp: within_def checkStashLocator_def Let_def)

lemma within_checkConfiguredRemote: "within 1 (checkConfiguredRemote cwd r push)"
  by (auto simp: within_def checkConfiguredRemote_def Let_def split: sum.split option.split)

lemma within_urls: "within 0 (assertSafeSubmoduleUrls cs command)"
  unfolding within_def by (induction cs command rule: assertSafeSubmoduleUrls.induct) (auto split: option.split)

lemma within_assertSafeSubmoduleConfig: "within 1 (assertSafeSubmoduleConfig cwd)"
  unfolding within_def assertSafeSubmoduleConfig_def runMeaningfulExit_def
  by (auto simp: parseFailure_def intro!: every_within [OF within_urls] split: option.split sum.split failure.split)

lemmas within_parts = every_within [OF within_readHeadFacts] every_within [OF within_head_or_none]
  every_within [OF within_countConflictedPaths] every_within [OF within_checkStashLocator]
  every_within [OF within_checkConfiguredRemote] every_within [OF within_assertSafeSubmoduleConfig]

section \<open>Workflows\<close>

lemma within_runSpec: "within 1 (runSpec c)"
  by (auto simp: within_def runSpec_def runRequired_def refuse_workflow_error_def)

lemma within_runPlanned: "within 1 (runPlanned plan)"
  unfolding within_def runPlanned_def
  by (auto intro!: every_within [OF within_runSpec] split: sum.split)

lemma within_sequencer:
  "within 11 (mergeSource cwd oid noFf m)" "within 11 (continueMerge cwd m)" "within 11 (abortMerge cwd)"
  "within 11 (revertCommit cwd oid)" "within 11 (resetBranch cwd oid soft)" "within 11 (cherryPick cwd oid)"
  unfolding within_def mergeSource_def continueMerge_def abortMerge_def revertCommit_def resetBranch_def cherryPick_def
    refuse_if_def refuse_unless_def probes in_progress_def stopped_def abort_with_def completed_def undo_stop_def
    conflicts_or_undo_def Let_def
  by (auto intro!: within_parts split: sum.split)

lemma within_replays:
  "within 11 (continueCherryPick cwd)" "within 11 (abortCherryPick cwd)" "within 11 (rebase cwd oid)"
  "within 11 (continueRebase cwd)" "within 11 (abortRebase cwd)" "within 11 (dropCommit cwd oid)"
  "within 11 (squashTopCommit cwd m')"
  unfolding within_def continueCherryPick_def abortCherryPick_def rebase_def continueRebase_def abortRebase_def dropCommit_def
    squashTopCommit_def no_open_operation_def rebase_with_def continue_with_probe_def refuse_if_def refuse_unless_def probes
    in_progress_def stopped_def abort_with_def completed_def undo_stop_def conflicts_or_undo_def Let_def
  by (auto intro!: within_parts split: sum.split simp del: str_simps)

lemma within_commitIndex: "within 5 (commitIndex cwd m amend)"
  unfolding within_def commitIndex_def by (auto intro!: within_parts split: sum.split)

lemma within_popStash: "within 2 (popStash cwd l oid i)"
  unfolding within_def popStash_def Let_def by (auto intro!: within_parts split: sum.split)

lemma within_createTag: "within 2 (createTag cwd t oid a)"
  unfolding within_def createTag_def by (auto intro!: every_within [OF within_runPlanned] split: sum.split)

lemma within_runChecked: "within 1 p \<Longrightarrow> within 2 (runChecked p c)" "within 1 (ret ())"
  unfolding runChecked_def by (auto simp: within_def runRequired_def intro!: every_within [of 1 p] split: sum.split failure.split)

lemma within_remotes:
  "within 3 (addRemote cwd r u p)" "within 3 (updateRemote cwd r n u' p)" "within 3 (removeRemote cwd r)"
  "within 3 (fetchRemote cwd r prune noTags)" "within 3 (pushRef cwd r s d up)"
  by (auto simp: within_def addRemote_def updateRemote_def removeRemote_def and_then_def runQuiet_def fetchRemote_def pushRef_def
        Let_def intro!: within_parts split: sum.split option.split command_outcome.split)

lemma within_pull: "within 5 (pullFastForward cwd r b)"
  unfolding within_def pullFastForward_def Let_def
  by (auto intro!: every_within [OF within_remotes(4)] split: sum.split network_outcome.split)

section \<open>Effects\<close>

lemma within_orFail: "(\<And>a. within n (k a)) \<Longrightarrow> within n (orFail m k)"
  by (auto simp: orFail_def within_def split: sum.split)

lemma within_bind: "within m p \<Longrightarrow> (\<And>a. within n (f a)) \<Longrightarrow> m + n \<le> l \<Longrightarrow> within l (bindP p f)"
proof -
  assume p: "within m p" and f: "\<And>a. within n (f a)" and l: "m + n \<le> l"
  have "every (\<lambda>h'' x. length h'' \<le> length h + l) h' (f a)" if "length h' \<le> length h + m" for h h' :: git_log and a
    using l that by (intro every_within [OF f]) simp
  then show ?thesis
    unfolding within_def using l by (auto intro!: every_within [OF p] split: sum.split)
qed

lemma within_answer: "within n p \<Longrightarrow> within n (bindP p (\<lambda>out. ret (f out)))"
  by (erule within_bind [where n = 0]) (simp_all add: within_def)

lemma within_mono: "within m p \<Longrightarrow> m \<le> n \<Longrightarrow> within n p"
  unfolding within_def by (fastforce intro: every_mono)

lemma within_done [simp]: "within n (Done x)"
  by (simp add: within_def)

lemma within_after_command: "within n p \<Longrightarrow> within n (after_command env p out)"
  unfolding after_command_def by (rule within_answer)

lemma within_runBranchCommand: "within 1 p \<Longrightarrow> within 3 (runBranchCommand env cwd p summary refs)"
  unfolding runBranchCommand_def
  by (erule within_bind [where n = 2])
     (auto intro: within_answer [OF within_head_or_none] split: command_outcome.split)

lemma within_creation: "within 3 (bindP (runCreation c before observe) (finishCreation env what wk summary))"
proof (rule within_bind [where m = 1 and n = 2])
  show "within 1 (runCreation c before observe)"
    by (simp add: within_def runCreation_def Let_def)
  show "within 2 (finishCreation env what wk summary a)" for a
    by (auto simp: finishCreation_def Let_def intro: within_answer [OF within_head_or_none] split: creation_outcome.split option.split)
qed simp

lemma within_sequenced: "(\<And>cwd. within n (p cwd)) \<Longrightarrow> within n (sequenced env p f)"
  unfolding sequenced_def by (intro within_orFail within_answer)

lemma within_at_locator: "(\<And>facts. within n (k facts)) \<Longrightarrow> within (Suc n) (at_locator env oid l k)"
  unfolding at_locator_def
  by (intro within_orFail within_bind [OF within_checkStashLocator]) (auto split: option.split intro: within_mono)

lemma within_repository_effect: "within 11 (repository_effect env op')"
proof (cases op')
  case (Pull r)
  then show ?thesis
    unfolding Pull repository_effect.simps pullEffect_def
    by (intro within_orFail)
       (auto intro!: within_bind [OF within_pull, of 2] within_answer [OF within_head_or_none]
         split: option.split network_outcome.split)
qed (auto simp: repository_effects initRepository_def cloneRepository_def branch_workflows
      intro!: within_orFail within_mono [OF within_creation] within_mono [OF within_runBranchCommand] within_runSpec
        within_after_command within_mono [OF within_remotes(1)] within_mono [OF within_remotes(2)]
        within_mono [OF within_remotes(3)] within_answer [OF within_mono [OF within_remotes(2)]]
        within_answer [OF within_mono [OF within_remotes(4)]] within_answer [OF within_mono [OF within_remotes(5)]])

lemma within_specs:
  "within 11 (runSpec c)" "within 11 (runPlanned plan)" "within 11 (popStash cwd l oid i)" "within 11 (createTag cwd t target a)"
  "within 11 (commitIndex cwd m amend)" "within 11 (pushRef cwd r s d up)"
  by (auto intro: within_mono [OF within_runSpec] within_mono [OF within_runPlanned] within_mono [OF within_popStash]
      within_mono [OF within_createTag] within_mono [OF within_commitIndex] within_mono [OF within_remotes(5)])

lemma within_checked: "within 1 p \<Longrightarrow> within 11 (runChecked p c)"
  by (rule within_mono [OF within_runChecked(1)]) simp_all

lemma within_stash_tag_effect: "within 11 (stash_tag_effect env op')"
  by (cases op')
     (auto simp: stash_tag_effects createStash_def applyStash_def dropStash_def deleteTag_def
       intro!: within_orFail within_after_command within_answer within_specs
         within_mono [OF within_at_locator [of 2]] within_mono [OF within_runSpec] within_mono [OF within_popStash])

lemma within_worktree_effect: "within 11 (worktree_effect env op')"
  by (cases op')
     (auto simp: worktree_effects worktree_workflows
       intro!: within_orFail within_after_command within_checked within_runChecked(2) within_assertSafeSubmoduleConfig)

lemma within_sequencer_effect: "within 11 (sequencer_effect env op')"
  by (cases op') (auto simp: sequencer_effects intro!: within_sequenced within_sequencer within_replays)

lemma within_staging_effect: "within 11 (staging_effect env op')"
  by (cases op')
     (auto simp: staging_effects staging_workflows unless_stale_def intro!: within_orFail within_after_command within_specs
       within_answer within_sequenced within_sequencer within_replays split: option.split)


end
