(* ===== verification/Listings.thy ===== *)
theory Listings
  imports Reader GitFacts
begin

text \<open>
  The parsers of Git's listings, one section a file of \<^verbatim>\<open>packages/git-core/src/parse/\<close>: \<^verbatim>\<open>numstat.ts\<close> (the counts and
  the kinds of changed paths), \<^verbatim>\<open>refs.ts\<close> (\<^verbatim>\<open>for-each-ref\<close> and the reflog) and \<^verbatim>\<open>worktree.ts\<close>. Each listing has
  a printer the parser inverts. The texts of thrown errors leave out the values the source quotes in them.
\<close>

section \<open>Counts of changed lines\<close>

datatype change_kind = ChAdded | ChModified | ChDeleted | ChRenamed | ChCopied | ChTypeChanged | ChUnmerged

record numstat_entry =
  nu_insertions :: "jsnumber option"
  nu_deletions :: "jsnumber option"
  nu_path :: "byte list"
  nu_originalPath :: "byte list option"
  nu_binary :: bool

definition NUMSTAT_FORMAT :: string where "NUMSTAT_FORMAT = ''diff --numstat -z''"
definition NAME_STATUS_FORMAT :: string where "NAME_STATUS_FORMAT = ''diff --name-status -z''"

definition numstat_error :: "string \<Rightarrow> js_error" where
  "numstat_error m = GitOutputParseError NUMSTAT_FORMAT m None"

definition decodeAsciiField :: "byte list \<Rightarrow> js_error + jsstring" where
  "decodeAsciiField bytes =
     (if is_ascii bytes then Inr (latin1 bytes) else Inl (numstat_error ''unexpected non-ASCII byte in a count field''))"

definition parseCount :: "jsstring \<Rightarrow> js_error + jsnumber" where
  "parseCount field =
     (if list_all isDigit field then Inr (parseInt10 field) else Inl (numstat_error ''expected a line count''))"

definition count_unless :: "bool \<Rightarrow> jsstring \<Rightarrow> js_error + jsnumber option" where
  "count_unless binary field = (if binary then Inr None else bindE (parseCount field) (\<lambda>n. Inr (Some n)))"

text \<open>The counts and the path part of one frame.\<close>

definition numstat_counts :: "byte list \<Rightarrow> js_error + jsnumber option \<times> jsnumber option \<times> bool \<times> byte list" where
  "numstat_counts frame =
     bindE (takeUntil 0x09 (newReader frame NUMSTAT_FORMAT 0 (length frame))) (\<lambda>(b, r).
     bindE (decodeAsciiField b) (\<lambda>insertionsField.
     bindE (expectByte 0x09 ''a tab after the insertion count'' r) (\<lambda>(u, r).
     bindE (takeUntil 0x09 r) (\<lambda>(b, r).
     bindE (decodeAsciiField b) (\<lambda>deletionsField.
     bindE (expectByte 0x09 ''a tab after the deletion count'' r) (\<lambda>(u, r).
     bindE (takeRest r) (\<lambda>(pathPart, r).
     let binary = (insertionsField = str ''-'' \<and> deletionsField = str ''-'') in
     bindE (count_unless binary insertionsField) (\<lambda>insertions.
     bindE (count_unless binary deletionsField) (\<lambda>deletions.
     Inr (insertions, deletions, binary, pathPart))))))))))"

fun numstat_loop :: "nat \<Rightarrow> byte list list \<Rightarrow> numstat_entry list \<Rightarrow> js_error + numstat_entry list" where
  "numstat_loop maxEntries [] entries = Inr entries"
| "numstat_loop maxEntries (frame # frames) entries =
     (if frame = [] then numstat_loop maxEntries frames entries
      else if maxEntries \<le> length entries then Inl (numstat_error ''numstat exceeded the limit of entries'')
      else bindE (numstat_counts frame) (\<lambda>(insertions, deletions, binary, pathPart).
        if pathPart = [] then
          (case frames of
             originalPath # newPath # frames' \<Rightarrow>
               if originalPath = [] \<or> newPath = [] then Inl (numstat_error ''rename entry has an empty path'')
               else numstat_loop maxEntries frames' (entries @ [\<lparr>nu_insertions = insertions, nu_deletions = deletions,
                      nu_path = newPath, nu_originalPath = Some originalPath, nu_binary = binary\<rparr>])
           | _ \<Rightarrow> Inl (GitOutputParseError NUMSTAT_FORMAT ''rename entry was not followed by its two path frames'' (Some (length frame))))
        else numstat_loop maxEntries frames (entries @ [\<lparr>nu_insertions = insertions, nu_deletions = deletions,
               nu_path = pathPart, nu_originalPath = None, nu_binary = binary\<rparr>])))"

definition parseNumstat :: "nat \<Rightarrow> byte list \<Rightarrow> js_error + numstat_entry list" where
  "parseNumstat maxEntries bytes =
     bindE (splitNulFrames bytes NUMSTAT_FORMAT True) (\<lambda>frames. numstat_loop maxEntries frames [])"

section \<open>Kinds of change\<close>

record name_status_entry =
  ns_changeKind :: change_kind
  ns_path :: "byte list"
  ns_originalPath :: "byte list option"
  ns_score :: "jsnumber option"
  ns_rawStatus :: jsstring

definition name_status_error :: "string \<Rightarrow> js_error" where
  "name_status_error m = GitOutputParseError NAME_STATUS_FORMAT m None"

definition changeKindFromLetter :: "jsstring \<Rightarrow> js_error + change_kind" where
  "changeKindFromLetter letter =
     (if letter = str ''A'' then Inr ChAdded
      else if letter = str ''M'' then Inr ChModified
      else if letter = str ''D'' then Inr ChDeleted
      else if letter = str ''R'' then Inr ChRenamed
      else if letter = str ''C'' then Inr ChCopied
      else if letter = str ''T'' then Inr ChTypeChanged
      else if letter = str ''U'' then Inr ChUnmerged
      else Inl (GitOutputParseError NAME_STATUS_FORMAT ''unknown change status'' (Some 0)))"

definition decodeAsciiFrame :: "byte list \<Rightarrow> js_error + jsstring" where
  "decodeAsciiFrame frame =
     (if is_ascii frame then Inr (latin1 frame) else Inl (name_status_error ''status token contains a non-ASCII byte''))"

definition has_second :: "jsstring \<Rightarrow> bool" where
  "has_second letter \<longleftrightarrow> letter = str ''R'' \<or> letter = str ''C''"

text \<open>The kind of a status token, and its score when two paths follow.\<close>

definition status_token :: "byte list \<Rightarrow> js_error + jsstring \<times> change_kind \<times> jsnumber option" where
  "status_token frame =
     bindE (decodeAsciiFrame frame) (\<lambda>status.
     let letter = take 1 status in
     bindE (changeKindFromLetter letter) (\<lambda>changeKind.
     if has_second letter then
       (let scoreText = drop 1 status
        in if scoreText = [] \<or> \<not> list_all isDigit scoreText then Inl (name_status_error ''rename/copy status has no score'')
           else Inr (status, changeKind, Some (parseInt10 scoreText)))
     else if length status \<noteq> 1 then Inl (name_status_error ''unexpected status token'')
     else Inr (status, changeKind, None)))"

fun name_status_loop :: "nat \<Rightarrow> byte list list \<Rightarrow> name_status_entry list \<Rightarrow> js_error + name_status_entry list" where
  "name_status_loop maxEntries [] entries = Inr entries"
| "name_status_loop maxEntries (frame # frames) entries =
     (if frame = [] then name_status_loop maxEntries frames entries
      else if maxEntries \<le> length entries then Inl (name_status_error ''name-status exceeded the limit of entries'')
      else bindE (status_token frame) (\<lambda>(status, changeKind, score).
        if score \<noteq> None then
          (case frames of
             originalPath # newPath # frames' \<Rightarrow>
               if originalPath = [] \<or> newPath = [] then Inl (name_status_error ''rename/copy entry has an empty path'')
               else name_status_loop maxEntries frames' (entries @ [\<lparr>ns_changeKind = changeKind, ns_path = newPath,
                      ns_originalPath = Some originalPath, ns_score = score, ns_rawStatus = status\<rparr>])
           | _ \<Rightarrow> Inl (name_status_error ''rename/copy entry was not followed by its two path frames''))
        else
          (case frames of
             [] \<Rightarrow> Inl (name_status_error ''status entry was not followed by a path frame'')
           | path # frames' \<Rightarrow>
               if path = [] then Inl (name_status_error ''status entry has an empty path'')
               else name_status_loop maxEntries frames' (entries @ [\<lparr>ns_changeKind = changeKind, ns_path = path,
                      ns_originalPath = None, ns_score = None, ns_rawStatus = status\<rparr>]))))"

definition parseNameStatus :: "nat \<Rightarrow> byte list \<Rightarrow> js_error + name_status_entry list" where
  "parseNameStatus maxEntries bytes =
     bindE (splitNulFrames bytes NAME_STATUS_FORMAT True) (\<lambda>frames. name_status_loop maxEntries frames [])"

section \<open>Refs\<close>

datatype ref_object_type = RefCommit | RefTag | RefTree | RefBlob | RefUnknown

record upstream_track =
  ut_ahead :: jsnumber
  ut_behind :: jsnumber
  ut_gone :: bool

record ref_record =
  rr_refName :: jsstring
  rr_oid :: jsstring
  rr_objectType :: ref_object_type
  rr_symref :: "jsstring option"
  rr_upstream :: "jsstring option"
  rr_upstreamTrack :: "upstream_track option"
  rr_isHead :: bool
  rr_peeledOid :: "jsstring option"

definition FOR_EACH_REF_FORMAT :: string where "FOR_EACH_REF_FORMAT = ''for-each-ref''"
definition REFLOG_FORMAT :: string where "REFLOG_FORMAT = ''reflog''"
definition stashListMaxEntries :: nat where "stashListMaxEntries = 1000"

definition decode_ascii_line :: "string \<Rightarrow> byte list \<Rightarrow> js_error + jsstring" where
  "decode_ascii_line fmt bytes =
     (if is_ascii bytes then Inr (latin1 bytes)
      else Inl (GitOutputParseError fmt ''unexpected non-ASCII byte in an ASCII field'' None))"

definition splitLines :: "string \<Rightarrow> byte list \<Rightarrow> js_error + byte list list" where
  "splitLines fmt bytes =
     (let (lines, tail) = split_loop 0x0a [] bytes
      in if tail \<noteq> [] then Inl (GitOutputParseError fmt ''output ended without a newline'' None) else Inr lines)"

definition endsWithNul :: "byte list \<Rightarrow> bool" where
  "endsWithNul bytes \<longleftrightarrow> bytes \<noteq> [] \<and> last bytes = 0"

definition parseObjectType :: "jsstring \<Rightarrow> ref_object_type" where
  "parseObjectType text =
     (if text = str ''commit'' then RefCommit else if text = str ''tag'' then RefTag
      else if text = str ''tree'' then RefTree else if text = str ''blob'' then RefBlob else RefUnknown)"

definition emptyToNull :: "jsstring \<Rightarrow> jsstring option" where
  "emptyToNull text = (if text = [] then None else Some text)"

definition ref_error :: "string \<Rightarrow> js_error" where
  "ref_error m = GitOutputParseError FOR_EACH_REF_FORMAT m None"

text \<open>A group \<^verbatim>\<open>(?:word (\d+))?\<close> of the expression of \<^verbatim>\<open>parseUpstreamTrack\<close>, and what follows it.\<close>

definition track_group :: "string \<Rightarrow> jsstring \<Rightarrow> jsnumber \<times> jsstring" where
  "track_group word text =
     (let digits = takeWhile isDigit (drop (length word) text)
      in if startsWith text (str word) \<and> digits \<noteq> [] then (parseInt10 digits, dropWhile isDigit (drop (length word) text))
         else (Fin 0, text))"

definition parseUpstreamTrack :: "jsstring option \<Rightarrow> js_error + upstream_track option" where
  "parseUpstreamTrack text' =
     (case text' of
        None \<Rightarrow> Inr None
      | Some text \<Rightarrow>
          if text = str ''[gone]'' then Inr (Some \<lparr>ut_ahead = Fin 0, ut_behind = Fin 0, ut_gone = True\<rparr>)
          else
            (let (ahead, t) = track_group ''ahead '' (drop 1 text);
                 t = (if startsWith t (str '', '') then drop 2 t else t);
                 (behind, t) = track_group ''behind '' t
             in if startsWith text (str ''['') \<and> t = str '']''
                then Inr (Some \<lparr>ut_ahead = ahead, ut_behind = behind, ut_gone = False\<rparr>)
                else Inl (ref_error ''unexpected upstream track value'')))"

text \<open>\<^verbatim>\<open>fields[n] ?? new Uint8Array(0)\<close>.\<close>

definition field_at :: "byte list list \<Rightarrow> nat \<Rightarrow> byte list" where
  "field_at pieces n = (if n < length pieces then pieces ! n else [])"

definition parse_ref_line :: "byte list \<Rightarrow> js_error + ref_record" where
  "parse_ref_line line =
     (let pieces = splitOnByte 0 line; field = (\<lambda>n. decode_ascii_line FOR_EACH_REF_FORMAT (field_at pieces n))
      in if \<not> (length pieces = 8 \<or> (length pieces = 7 \<and> endsWithNul line)) then Inl (ref_error ''expected 8 fields per ref'')
         else if field_at pieces 0 = [] then Inl (ref_error ''ref record has no refname'')
         else
           bindE (field 1) (\<lambda>oidText.
           if oidText \<noteq> [] \<and> \<not> isObjectName oidText then Inl (ref_error ''unexpected object name'')
           else
             bindE (field 0) (\<lambda>refName.
             bindE (field 2) (\<lambda>objectType.
             bindE (field 3) (\<lambda>symref.
             bindE (field 4) (\<lambda>upstream.
             bindE (field 5) (\<lambda>trackText.
             bindE (parseUpstreamTrack (emptyToNull trackText)) (\<lambda>track.
             bindE (field 6) (\<lambda>headMarker.
             bindE (field 7) (\<lambda>peeled.
             Inr \<lparr>rr_refName = refName, rr_oid = oidText, rr_objectType = parseObjectType objectType,
                  rr_symref = emptyToNull symref, rr_upstream = emptyToNull upstream, rr_upstreamTrack = track,
                  rr_isHead = (headMarker = str ''*''), rr_peeledOid = emptyToNull peeled\<rparr>))))))))))"

fun line_loop :: "js_error \<Rightarrow> (byte list \<Rightarrow> js_error + 'a) \<Rightarrow> nat \<Rightarrow> byte list list \<Rightarrow> 'a list \<Rightarrow> js_error + 'a list" where
  "line_loop e parse maxEntries [] records = Inr records"
| "line_loop e parse maxEntries (line # lines) records =
     (if line = [] then line_loop e parse maxEntries lines records
      else if maxEntries \<le> length records then Inl e
      else bindE (parse line) (\<lambda>r. line_loop e parse maxEntries lines (records @ [r])))"

definition parseForEachRef :: "nat \<Rightarrow> byte list \<Rightarrow> js_error + ref_record list" where
  "parseForEachRef maxEntries bytes =
     bindE (splitLines FOR_EACH_REF_FORMAT bytes) (\<lambda>lines.
       line_loop (ref_error ''ref list exceeded the limit of entries'') parse_ref_line maxEntries lines [])"

section \<open>The reflog\<close>

record reflog_record =
  rg_locator :: jsstring
  rg_oid :: jsstring
  rg_subjectBytes :: "byte list"
  rg_timestamp :: jsnumber

definition reflog_error :: "string \<Rightarrow> js_error" where
  "reflog_error m = GitOutputParseError REFLOG_FORMAT m None"

definition parse_reflog_line :: "byte list \<Rightarrow> js_error + reflog_record" where
  "parse_reflog_line line =
     (let pieces = splitOnByte 0 line
      in if length pieces \<noteq> 4 then Inl (reflog_error ''expected 4 fields per reflog entry'')
         else if pieces ! 0 = [] then Inl (reflog_error ''reflog entry has no locator'')
         else
           bindE (decode_ascii_line REFLOG_FORMAT (pieces ! 3)) (\<lambda>timestampText.
           if timestampText = [] \<or> \<not> list_all isDigit timestampText then Inl (reflog_error ''unexpected timestamp'')
           else
             bindE (decode_ascii_line REFLOG_FORMAT (pieces ! 0)) (\<lambda>locator.
             bindE (decode_ascii_line REFLOG_FORMAT (pieces ! 1)) (\<lambda>oid.
             Inr \<lparr>rg_locator = locator, rg_oid = oid, rg_subjectBytes = pieces ! 2,
                  rg_timestamp = parseInt10 timestampText\<rparr>))))"

definition parseReflog :: "nat \<Rightarrow> byte list \<Rightarrow> js_error + reflog_record list" where
  "parseReflog maxEntries bytes =
     bindE (splitLines REFLOG_FORMAT bytes) (\<lambda>lines.
       line_loop (reflog_error ''reflog exceeded the limit of entries'') parse_reflog_line maxEntries lines [])"

section \<open>Worktrees\<close>

record listed_worktree =
  wr_pathBytes :: "byte list"
  wr_headOid :: "jsstring option"
  wr_branchRef :: "jsstring option"
  wr_bare :: bool
  wr_detached :: bool
  wr_locked :: bool
  wr_lockReasonBytes :: "byte list option"
  wr_prunable :: bool
  wr_pruneReasonBytes :: "byte list option"

definition WORKTREE_FORMAT :: string where "WORKTREE_FORMAT = ''worktree list --porcelain -z''"

definition worktree_error :: "string \<Rightarrow> js_error" where
  "worktree_error m = GitOutputParseError WORKTREE_FORMAT m None"

text \<open>The block being read: its path when one was seen, and the rest with the defaults of \<^verbatim>\<open>flush\<close>.\<close>

type_synonym worktree_block = "byte list option \<times> listed_worktree"

definition empty_block :: worktree_block where
  "empty_block = (None, \<lparr>wr_pathBytes = [], wr_headOid = None, wr_branchRef = None, wr_bare = False, wr_detached = False,
     wr_locked = False, wr_lockReasonBytes = None, wr_prunable = False, wr_pruneReasonBytes = None\<rparr>)"

definition flush :: "worktree_block option \<Rightarrow> listed_worktree list \<Rightarrow> js_error + listed_worktree list" where
  "flush current worktrees =
     (case current of
        None \<Rightarrow> Inr worktrees
      | Some (None, w) \<Rightarrow> Inl (worktree_error ''worktree block has no `worktree` attribute'')
      | Some (Some path, w) \<Rightarrow> Inr (worktrees @ [w\<lparr>wr_pathBytes := path\<rparr>]))"

definition decode_attribute :: "byte list \<Rightarrow> js_error + jsstring" where
  "decode_attribute bytes =
     (if is_ascii bytes then Inr (latin1 bytes) else Inl (worktree_error ''unexpected non-ASCII byte in an ASCII attribute''))"

definition split_attribute :: "byte list \<Rightarrow> byte list \<times> byte list option" where
  "split_attribute frame =
     (case indexOf frame 0x20 of None \<Rightarrow> (frame, None) | Some i \<Rightarrow> (take i frame, Some (drop (i + 1) frame)))"

definition worktree_attribute :: "byte list \<Rightarrow> worktree_block \<Rightarrow> js_error + worktree_block" where
  "worktree_attribute frame current =
     (let (keywordBytes, value) = split_attribute frame; (path, w) = current in
      bindE (decode_attribute keywordBytes) (\<lambda>keyword.
      if keyword = str ''worktree'' then
        (case value of
           None \<Rightarrow> Inl (worktree_error ''worktree attribute has no path'')
         | Some v \<Rightarrow> if v = [] then Inl (worktree_error ''worktree attribute has no path'') else Inr (Some v, w))
      else if keyword = str ''HEAD'' then
        (case value of
           None \<Rightarrow> Inl (worktree_error ''HEAD attribute has no object name'')
         | Some v \<Rightarrow> bindE (decode_attribute v) (\<lambda>oid.
             if isObjectName oid then Inr (path, w\<lparr>wr_headOid := Some oid\<rparr>)
             else Inl (worktree_error ''unexpected HEAD object name'')))
      else if keyword = str ''branch'' then
        (case value of
           None \<Rightarrow> Inl (worktree_error ''branch attribute has no ref'')
         | Some v \<Rightarrow> bindE (decode_attribute v) (\<lambda>ref. Inr (path, w\<lparr>wr_branchRef := Some ref\<rparr>)))
      else if keyword = str ''bare'' then Inr (path, w\<lparr>wr_bare := True\<rparr>)
      else if keyword = str ''detached'' then Inr (path, w\<lparr>wr_detached := True\<rparr>)
      else if keyword = str ''locked'' then Inr (path, w\<lparr>wr_locked := True, wr_lockReasonBytes := value\<rparr>)
      else if keyword = str ''prunable'' then Inr (path, w\<lparr>wr_prunable := True, wr_pruneReasonBytes := value\<rparr>)
      else Inr (path, w)))"

fun worktree_loop :: "byte list list \<Rightarrow> worktree_block option \<Rightarrow> listed_worktree list \<Rightarrow> js_error + listed_worktree list" where
  "worktree_loop [] current worktrees = flush current worktrees"
| "worktree_loop (frame # frames) current worktrees =
     (if frame = [] then bindE (flush current worktrees) (worktree_loop frames None)
      else bindE (worktree_attribute frame (case current of None \<Rightarrow> empty_block | Some c \<Rightarrow> c))
             (\<lambda>c. worktree_loop frames (Some c) worktrees))"

definition parseWorktreeList :: "byte list \<Rightarrow> js_error + listed_worktree list" where
  "parseWorktreeList bytes =
     bindE (splitNulFrames bytes WORKTREE_FORMAT True) (\<lambda>frames. worktree_loop frames None [])"

end
