(* ===== verification/ListingRules.thy ===== *)
theory ListingRules
  imports Listings NameRules AuthLife
begin

text \<open>
  The listings of \<open>Listings\<close> read back what Git's formats print, and what they refuse.
\<close>

section \<open>Counts\<close>

text \<open>A line of a numstat as Git writes it: two counts or two dashes, the path, and its origin.\<close>

record printed_count =
  pc_counts :: "(nat \<times> nat) option"
  pc_path :: "byte list"
  pc_origin :: "byte list option"

definition count_bytes :: "(nat \<times> nat) option \<Rightarrow> byte list" where
  "count_bytes counts = (case counts of
     None \<Rightarrow> asc ''-'' @ [0x09] @ asc ''-'' @ [0x09]
   | Some (i, d) \<Rightarrow> decimal_bytes i @ [0x09] @ decimal_bytes d @ [0x09])"

definition count_frames :: "printed_count \<Rightarrow> byte list list" where
  "count_frames p = (case pc_origin p of
     None \<Rightarrow> [count_bytes (pc_counts p) @ pc_path p]
   | Some origin \<Rightarrow> [count_bytes (pc_counts p), origin, pc_path p])"

definition count_entry :: "printed_count \<Rightarrow> numstat_entry" where
  "count_entry p = \<lparr>nu_insertions = map_option (Fin \<circ> int \<circ> fst) (pc_counts p), nu_deletions = map_option (Fin \<circ> int \<circ> snd) (pc_counts p),
     nu_path = pc_path p, nu_originalPath = pc_origin p, nu_binary = (pc_counts p = None)\<rparr>"

definition path_ok :: "byte list \<Rightarrow> bool" where
  "path_ok p \<longleftrightarrow> p \<noteq> [] \<and> 0 \<notin> set p"

definition count_ok :: "printed_count \<Rightarrow> bool" where
  "count_ok p \<longleftrightarrow> path_ok (pc_path p) \<and> pred_option path_ok (pc_origin p) \<and>
     pred_option (\<lambda>(i, d). i < 2 ^ 53 \<and> d < 2 ^ 53) (pc_counts p)"

definition nul_frames :: "byte list list \<Rightarrow> byte list" where
  "nul_frames frames = concat (map (\<lambda>f. f @ [0]) frames)"

lemma splitNulFrames_printed: "list_all (\<lambda>f. 0 \<notin> set f) frames \<Longrightarrow> splitNulFrames (nul_frames frames) fmt True = Inr frames"
  by (simp add: splitNulFrames_Inr_iff nul_frames_def list_all_iff)

lemma decimal_bytes_no_tab: "0x09 \<notin> set (decimal_bytes n)"
  using decimal_bytes_digits [of n] by (auto simp: list_all_iff isDigit_def)

lemma takeWhile_tab:
  "0x09 \<notin> set xs \<Longrightarrow> takeWhile (\<lambda>b. b \<noteq> 0x09) (xs @ 0x09 # ys) = xs \<and> dropWhile (\<lambda>b. b \<noteq> 0x09) (xs @ 0x09 # ys) = 0x09 # ys"
  by (auto simp: takeWhile_append dropWhile_append)

lemma decimal_not_dash: "decimal n \<noteq> str ''-''"
  using decimal_all_digits [of n] by (auto simp: all_digits_def isDigit_def)

lemma parseCount_decimal: "n < 2 ^ 53 \<Longrightarrow> parseCount (decimal n) = Inr (Fin (int n))"
  using decimal_all_digits [of n] by (simp add: parseCount_def all_digits_def parseInt10_decimal toNumber_exact)

lemmas numstat_counts_at = numstat_counts_def [unfolded newReader_at]

lemma numstat_counts_printed:
  assumes "pred_option (\<lambda>(i, d). i < 2 ^ 53 \<and> d < 2 ^ 53) counts"
  shows "numstat_counts (count_bytes counts @ path) =
    Inr (map_option (Fin \<circ> int \<circ> fst) counts, map_option (Fin \<circ> int \<circ> snd) counts, counts = None, path)"
proof (cases counts)
  case None
  have "fromCharCode (0x2d :: byte) = 0x2d"
    by (simp add: fromCharCode_def)
  then show ?thesis
    using None
    by (simp add: numstat_counts_at count_bytes_def reader_simps decodeAsciiField_def is_ascii_def count_unless_def Let_def)
next
  case (Some c)
  then obtain i d where c: "counts = Some (i, d)" "i < 2 ^ 53" "d < 2 ^ 53"
    using assms by (cases c) auto
  then show ?thesis
    by (simp add: numstat_counts_at count_bytes_def reader_simps takeWhile_tab decimal_bytes_no_tab decodeAsciiField_def
        decimal_bytes_field count_unless_def decimal_not_dash parseCount_decimal Let_def del: str_simps)
qed

lemma count_bytes_frame: "count_bytes counts \<noteq> []" "0 \<notin> set (count_bytes counts)"
  using decimal_bytes_field by (auto simp: count_bytes_def split: option.splits)

lemma numstat_loop_printed:
  "list_all count_ok ps \<Longrightarrow> length entries + length ps \<le> maxEntries \<Longrightarrow>
   numstat_loop maxEntries (concat (map count_frames ps)) entries = Inr (entries @ map count_entry ps)"
proof (induction ps arbitrary: entries)
  case (Cons p ps)
  have counts: "pred_option (\<lambda>(i, d). i < 2 ^ 53 \<and> d < 2 ^ 53) (pc_counts p)"
    using Cons.prems by (simp add: count_ok_def)
  show ?case
  proof (cases "pc_origin p")
    case None
    then show ?thesis
      using Cons numstat_counts_printed [OF counts, of "pc_path p"]
      by (simp add: count_frames_def count_ok_def path_ok_def count_entry_def)
  next
    case (Some origin)
    then show ?thesis
      using Cons numstat_counts_printed [OF counts, of "[]"]
      by (simp add: count_frames_def count_ok_def path_ok_def count_entry_def count_bytes_frame)
  qed
qed simp

text \<open>
  Counts are read back. A numstat of at most the limit of entries, with paths of any bytes but NUL, renames
  and binary files included, is parsed into exactly its entries.
\<close>

theorem numstat_roundtrip:
  assumes "list_all count_ok ps" and "length ps \<le> maxEntries"
  shows "parseNumstat maxEntries (nul_frames (concat (map count_frames ps))) = Inr (map count_entry ps)"
proof -
  have "list_all (\<lambda>f. 0 \<notin> set f) (concat (map count_frames ps))"
    using assms(1) count_bytes_frame(2)
    by (fastforce simp: list_all_iff count_frames_def count_ok_def path_ok_def split: option.splits)
  then show ?thesis
    using numstat_loop_printed [of ps "[]" maxEntries] assms by (simp add: parseNumstat_def splitNulFrames_printed)
qed

text \<open>
  An empty count is taken. A line with no digits before its tab is not refused: its count is not a number.
\<close>

theorem empty_count_is_no_number:
  "parseNumstat maxEntries ([0x09] @ decimal_bytes d @ [0x09] @ asc ''f'' @ [0]) =
     (if maxEntries = 0 then Inl (numstat_error ''numstat exceeded the limit of entries'')
      else Inr [\<lparr>nu_insertions = Some NaN, nu_deletions = Some (toNumber (int d)), nu_path = asc ''f'', nu_originalPath = None, nu_binary = False\<rparr>])"
proof -
  have frames: "splitNulFrames ([0x09] @ decimal_bytes d @ [0x09] @ asc ''f'' @ [0]) NUMSTAT_FORMAT True =
      Inr [[0x09] @ decimal_bytes d @ [0x09] @ asc ''f'']"
    using decimal_bytes_field [of d] by (subst splitNulFrames_Inr_iff) auto
  have "parseCount (decimal d) = Inr (toNumber (int d))"
    using decimal_all_digits [of d] by (simp add: parseCount_def all_digits_def parseInt10_decimal)
  moreover have "parseCount [] = Inr NaN"
    by (simp add: parseCount_def parseInt10_def)
  ultimately show ?thesis
    unfolding parseNumstat_def frames
    by (simp add: numstat_counts_at reader_simps takeWhile_tab decimal_bytes_no_tab decodeAsciiField_def
        decimal_bytes_field count_unless_def decimal_not_dash Let_def del: str_simps)
qed

section \<open>Kinds of change\<close>

datatype printed_change =
    Changed string "byte list"
  | Moved string nat "byte list" "byte list"

definition plain_letters :: "(string \<times> change_kind) list" where
  "plain_letters = [(''A'', ChAdded), (''M'', ChModified), (''D'', ChDeleted), (''T'', ChTypeChanged), (''U'', ChUnmerged)]"

definition moving_letters :: "(string \<times> change_kind) list" where
  "moving_letters = [(''R'', ChRenamed), (''C'', ChCopied)]"

fun change_frames :: "printed_change \<Rightarrow> byte list list" where
  "change_frames (Changed letter path) = [asc letter, path]"
| "change_frames (Moved letter score origin path) = [asc letter @ decimal_bytes score, origin, path]"

fun change_entry :: "printed_change \<Rightarrow> name_status_entry" where
  "change_entry (Changed letter path) = \<lparr>ns_changeKind = the (map_of plain_letters letter), ns_path = path, ns_originalPath = None,
     ns_score = None, ns_rawStatus = str letter\<rparr>"
| "change_entry (Moved letter score origin path) = \<lparr>ns_changeKind = the (map_of moving_letters letter), ns_path = path,
     ns_originalPath = Some origin, ns_score = Some (Fin (int score)), ns_rawStatus = str letter @ decimal score\<rparr>"

fun change_ok :: "printed_change \<Rightarrow> bool" where
  "change_ok (Changed letter path) \<longleftrightarrow> letter \<in> set (map fst plain_letters) \<and> path_ok path"
| "change_ok (Moved letter score origin path) \<longleftrightarrow>
     letter \<in> set (map fst moving_letters) \<and> score < 2 ^ 53 \<and> path_ok origin \<and> path_ok path"

lemma ascii_asc_letters: "is_ascii (asc [c])" if "c \<in> set ''AMDTURC''"
  using that by (auto simp: is_ascii_def)

lemma status_token_plain:
  "letter \<in> set (map fst plain_letters) \<Longrightarrow>
   status_token (asc letter) = Inr (str letter, the (map_of plain_letters letter), None)"
  by (auto simp: plain_letters_def status_token_def decodeAsciiFrame_def latin1_asc changeKindFromLetter_def has_second_def
      ascii_asc_letters Let_def str_inj take_map str_def simp del: str_simps asc_simps latin1_simps)

lemma status_token_moved:
  assumes "letter \<in> set (map fst moving_letters)" "score < 2 ^ 53"
  shows "status_token (asc letter @ decimal_bytes score) =
    Inr (str letter @ decimal score, the (map_of moving_letters letter), Some (Fin (int score)))"
proof -
  obtain c where c: "letter = [c]" "c = CHR ''R'' \<or> c = CHR ''C''"
    using assms(1) by (auto simp: moving_letters_def)
  have ascii: "is_ascii (asc letter @ decimal_bytes score)"
    using c decimal_bytes_field [of score] by auto
  have decoded: "latin1 (asc letter @ decimal_bytes score) = str letter @ decimal score"
    by (simp add: latin1_asc del: asc_simps)
  have parts: "take 1 (str letter @ decimal score) = str letter" "drop 1 (str letter @ decimal score) = decimal score"
    using c by auto
  have kind: "changeKindFromLetter (str letter) = Inr (the (map_of moving_letters letter))" "has_second (str letter)"
    using c by (auto simp: changeKindFromLetter_def has_second_def str_inj moving_letters_def simp del: str_simps)
  have digits: "decimal score \<noteq> []" "list_all isDigit (decimal score)"
    using decimal_all_digits [of score] by (auto simp: all_digits_def)
  show ?thesis
    unfolding status_token_def decodeAsciiFrame_def if_P [OF ascii] decoded bindE.simps Let_def parts kind
    using assms(2) digits by (simp add: kind parseInt10_decimal toNumber_exact del: str_simps)
qed

lemma name_status_loop_printed:
  "list_all change_ok ps \<Longrightarrow> length entries + length ps \<le> maxEntries \<Longrightarrow>
   name_status_loop maxEntries (concat (map change_frames ps)) entries = Inr (entries @ map change_entry ps)"
proof (induction ps arbitrary: entries)
  case (Cons p ps)
  show ?case
  proof (cases p)
    case (Changed letter path)
    then have "asc letter \<noteq> []"
      using Cons.prems by (auto simp: plain_letters_def)
    then show ?thesis
      using Cons Changed by (simp add: status_token_plain path_ok_def del: asc_simps set_map)
  next
    case (Moved letter score origin path)
    then have "asc letter \<noteq> []"
      using Cons.prems by (auto simp: moving_letters_def)
    then show ?thesis
      using Cons Moved by (simp add: status_token_moved path_ok_def del: asc_simps set_map)
  qed
qed simp

text \<open>
  Kinds of change are read back. A name-status listing of at most the limit of entries, renames and copies with
  their scores included, is parsed into exactly its entries.
\<close>

theorem name_status_roundtrip:
  assumes "list_all change_ok ps" and "length ps \<le> maxEntries"
  shows "parseNameStatus maxEntries (nul_frames (concat (map change_frames ps))) = Inr (map change_entry ps)"
proof -
  have "list_all (\<lambda>f. 0 \<notin> set f) (change_frames p)" if "change_ok p" for p
    using that decimal_bytes_field
    by (cases p) (auto simp: path_ok_def plain_letters_def moving_letters_def)
  then have "list_all (\<lambda>f. 0 \<notin> set f) (concat (map change_frames ps))"
    using assms(1) by (fastforce simp: list_all_iff)
  then show ?thesis
    using name_status_loop_printed [of ps "[]" maxEntries] assms by (simp add: parseNameStatus_def splitNulFrames_printed)
qed

section \<open>Refs\<close>

lemma splitLines_Inr: "splitLines fmt bytes = Inr lines \<Longrightarrow> bytes = concat (map (\<lambda>l. l @ [0x0a]) lines) \<and> list_all (\<lambda>l. 0x0a \<notin> set l) lines"
  using split_loop_sound [of "0x0a" "[]" bytes] by (auto simp: splitLines_def list_all_iff split: prod.splits if_splits)

lemma splitLines_printed:
  "list_all (\<lambda>l. 0x0a \<notin> set l) lines \<Longrightarrow> splitLines fmt (concat (map (\<lambda>l. l @ [0x0a]) lines)) = Inr lines"
  using split_loop_complete [of lines "0x0a" "[]"] by (simp add: splitLines_def list_all_iff)

lemma splitOnByte_bytes: "set bytes \<subseteq> {sep} \<union> (\<Union>p \<in> set (splitOnByte sep bytes). set p)"
proof -
  obtain ps t where split: "split_loop sep [] bytes = (ps, t)"
    by fastforce
  have "set bytes = (\<Union>p \<in> set ps. set p \<union> {sep}) \<union> set t"
    using split_loop_sound [OF split] by simp
  moreover have "set ps \<union> (if t = [] then {} else {t}) = set (splitOnByte sep bytes)"
    by (simp add: splitOnByte_def split)
  ultimately show ?thesis
    by (auto split: if_splits)
qed

lemma line_loop_all:
  "line_loop e parse m lines records = Inr rs \<Longrightarrow> l \<in> set lines \<Longrightarrow> l \<noteq> [] \<Longrightarrow> \<exists>r. parse l = Inr r"
  by (induction lines arbitrary: records) (auto split: if_splits)

lemma decode_ascii_line_Inr: "decode_ascii_line fmt b = Inr t \<longleftrightarrow> is_ascii b \<and> t = latin1 b"
  by (auto simp: decode_ascii_line_def)

lemma okE_decode: "(is_ascii b \<Longrightarrow> okE (k (latin1 b)) P) \<Longrightarrow> okE (bindE (decode_ascii_line fmt b) k) P"
  by (simp add: decode_ascii_line_def okE_Inl)

lemma okE_any: "(\<And>x. okE (f x) P) \<Longrightarrow> okE (bindE m f) P"
  by (cases m) (simp_all add: okE_Inl)

lemma okE_guard: "(\<not> b \<Longrightarrow> okE m P) \<Longrightarrow> okE (if b then Inl e else m) P"
  by (simp add: okE_Inl)

lemma parse_ref_line_ascii:
  assumes "parse_ref_line line = Inr r"
  shows "is_ascii line"
proof -
  let ?p = "splitOnByte 0 line"
  have len: "length ?p \<le> 8"
    using assms by (auto simp: parse_ref_line_def Let_def split: if_splits)
  have "okE (parse_ref_line line) (\<lambda>_. is_ascii (field_at ?p 0) \<and> is_ascii (field_at ?p 1) \<and> is_ascii (field_at ?p 2) \<and>
      is_ascii (field_at ?p 3) \<and> is_ascii (field_at ?p 4) \<and> is_ascii (field_at ?p 5) \<and> is_ascii (field_at ?p 6) \<and>
      is_ascii (field_at ?p 7))"
    unfolding parse_ref_line_def Let_def
    by (intro okE_guard okE_decode okE_any okE_Inr conjI)
  with assms have "is_ascii (field_at ?p 0) \<and> is_ascii (field_at ?p 1) \<and> is_ascii (field_at ?p 2) \<and> is_ascii (field_at ?p 3) \<and>
      is_ascii (field_at ?p 4) \<and> is_ascii (field_at ?p 5) \<and> is_ascii (field_at ?p 6) \<and> is_ascii (field_at ?p 7)"
    by (rule okED [rotated])
  moreover have "n = 0 \<or> n = 1 \<or> n = 2 \<or> n = 3 \<or> n = 4 \<or> n = 5 \<or> n = 6 \<or> n = 7" if "n < 8" for n :: nat
    using that by arith
  ultimately have field: "is_ascii (field_at ?p n)" if "n < 8" for n
    using that by metis
  have "is_ascii p" if "p \<in> set ?p" for p
  proof -
    from that obtain n where n: "n < length ?p" "p = ?p ! n"
      by (auto simp: in_set_conv_nth)
    then have "is_ascii (field_at ?p n)"
      using field len by simp
    then show ?thesis
      using n by (simp add: field_at_def)
  qed
  then show ?thesis
    using splitOnByte_bytes [of line 0] by (fastforce simp: is_ascii_def list_all_iff)
qed

lemma high_byte_not_ascii: "bit b 7 \<Longrightarrow> \<not> (b :: byte) \<le> 0x7f"
proof
  assume "bit b 7" "b \<le> 0x7f"
  then have "unat b < 2 ^ 7" "bit (unat b) 7"
    by (simp_all add: word_le_nat_alt bit_unsigned_iff)
  then show False
    by (simp add: bit_iff_odd)
qed

lemma utf8_not_ascii: "list_ex (\<lambda>c. \<not> c < 0x80) s \<Longrightarrow> \<not> is_ascii (utf8_bytes s)"
proof (induction s)
  case (Cons c s)
  show ?case
  proof (cases "c < 0x80")
    case True
    then show ?thesis
      using Cons utf8_ascii [OF True, of s] by (simp del: utf8_bytes.simps(2))
  next
    case False
    then obtain b bs where "utf8_bytes (c # s) = b # bs" "bit b 7"
      using utf8_high by blast
    then show ?thesis
      using high_byte_not_ascii by (simp del: utf8_bytes.simps(2))
  qed
qed simp

lemma ref_list_is_ascii_or_nothing:
  assumes "\<not> is_ascii bytes"
  shows "\<exists>e. parseForEachRef maxEntries bytes = Inl e"
proof (rule ccontr)
  assume "\<nexists>e. parseForEachRef maxEntries bytes = Inl e"
  then obtain rs lines where lines: "splitLines FOR_EACH_REF_FORMAT bytes = Inr lines"
    and loop: "line_loop (ref_error ''ref list exceeded the limit of entries'') parse_ref_line maxEntries lines [] = Inr rs"
    by (cases "parseForEachRef maxEntries bytes") (auto simp: parseForEachRef_def)
  have "is_ascii l" if "l \<in> set lines" for l
    using line_loop_all [OF loop that] parse_ref_line_ascii by (cases "l = []") auto
  then have "is_ascii (concat (map (\<lambda>l. l @ [0x0a]) lines))"
    by (auto simp: is_ascii_def list_all_iff)
  then show False
    using splitLines_Inr [OF lines] assms by simp
qed

text \<open>
  One branch name outside ASCII hides every ref. As soon as the output of \<^verbatim>\<open>for-each-ref\<close> holds the encoding of a
  name with a character beyond ASCII, wherever it stands, the whole listing is refused; branch names with such
  characters are accepted when the branch is created.
\<close>

theorem unicode_branch_hides_every_ref:
  assumes "list_ex (\<lambda>c. \<not> c < 0x80) name"
  shows "\<exists>e. parseForEachRef maxEntries (before @ utf8_bytes name @ after') = Inl e"
  using ref_list_is_ascii_or_nothing utf8_not_ascii [OF assms] by simp

lemma unicode_branch_hides_every_ref_witness:
  "(\<exists>e. parseForEachRef 5000 (asc ''refs/heads/'' @ utf8_bytes (str ''caf'' @ [0xe9]) @ [0]) = Inl e) \<and>
   validateBranchName (\<lambda>s v. [v]) (str ''caf'' @ [0xe9]) [] = []"
proof
  show "\<exists>e. parseForEachRef 5000 (asc ''refs/heads/'' @ utf8_bytes (str ''caf'' @ [0xe9]) @ [0]) = Inl e"
    by (rule unicode_branch_hides_every_ref) simp
  show "validateBranchName (\<lambda>s v. [v]) (str ''caf'' @ [0xe9]) [] = []"
    by code_simp
qed

section \<open>Printed refs\<close>

text \<open>A field as bytes: no NUL, no newline, ASCII.\<close>

definition field_ok :: "byte list \<Rightarrow> bool" where
  "field_ok b \<longleftrightarrow> is_ascii b \<and> 0 \<notin> set b \<and> 0x0a \<notin> set b"

datatype printed_track = NoTrack | Gone | Apart nat nat

definition group_bytes :: "string \<Rightarrow> nat \<Rightarrow> byte list" where
  "group_bytes word n = (if n = 0 then [] else asc word @ decimal_bytes n)"

fun track_bytes :: "printed_track \<Rightarrow> byte list" where
  "track_bytes NoTrack = []"
| "track_bytes Gone = asc ''[gone]''"
| "track_bytes (Apart a b) = asc ''['' @ group_bytes ''ahead '' a @ (if 0 < a \<and> 0 < b then asc '', '' else []) @
     group_bytes ''behind '' b @ asc '']''"

fun track_value :: "printed_track \<Rightarrow> upstream_track option" where
  "track_value NoTrack = None"
| "track_value Gone = Some \<lparr>ut_ahead = Fin 0, ut_behind = Fin 0, ut_gone = True\<rparr>"
| "track_value (Apart a b) = Some \<lparr>ut_ahead = Fin (int a), ut_behind = Fin (int b), ut_gone = False\<rparr>"

fun track_ok :: "printed_track \<Rightarrow> bool" where
  "track_ok (Apart a b) \<longleftrightarrow> (0 < a \<or> 0 < b) \<and> a < 2 ^ 53 \<and> b < 2 ^ 53"
| "track_ok t \<longleftrightarrow> True"

lemma takeWhile_digits:
  "w = [] \<or> \<not> isDigit (hd w) \<Longrightarrow> takeWhile isDigit (decimal n @ w) = decimal n \<and> dropWhile isDigit (decimal n @ w) = w"
  using decimal_all_digits [of n] by (cases w) (auto simp: all_digits_def list_all_iff takeWhile_append dropWhile_append)

lemma track_group_hit:
  assumes "n < 2 ^ 53" "w = [] \<or> \<not> isDigit (hd w)"
  shows "track_group word (str word @ decimal n @ w) = (Fin (int n), w)"
  using takeWhile_digits [OF assms(2), of n] decimal_all_digits [of n] assms(1)
  by (simp add: track_group_def all_digits_def parseInt10_decimal toNumber_exact startsWith_append)

lemma track_group_miss: "\<not> startsWith w (str word) \<Longrightarrow> track_group word w = (Fin 0, w)"
  by (simp add: track_group_def Let_def)

lemma no_digit_words: "\<not> isDigit (0x5d :: code_unit)" "\<not> isDigit (0x2c :: code_unit)"
  by (simp_all add: isDigit_def)

lemma parseUpstreamTrack_printed:
  assumes "track_ok t"
  shows "parseUpstreamTrack (emptyToNull (latin1 (track_bytes t))) = Inr (track_value t)"
proof (cases t)
  case NoTrack
  then show ?thesis by (simp add: parseUpstreamTrack_def emptyToNull_def)
next
  case Gone
  have "latin1 (asc ''[gone]'') = str ''[gone]''"
    by (rule latin1_asc)
  then show ?thesis
    using Gone by (simp add: parseUpstreamTrack_def emptyToNull_def del: str_simps asc_simps latin1_simps)
next
  case (Apart a b)
  let ?b = "(if b = 0 then [] else str ''behind '' @ decimal b) @ str '']''"
  let ?c = "(if 0 < a \<and> 0 < b then str '', '' else []) @ ?b"
  let ?t = "str ''['' @ (if a = 0 then [] else str ''ahead '' @ decimal a) @ ?c"
  have printed: "latin1 (track_bytes t) = ?t"
    using Apart by (auto simp: group_bytes_def latin1_asc simp del: asc_simps str_simps)
  have fits: "a < 2 ^ 53" "b < 2 ^ 53" "0 < a \<or> 0 < b"
    using assms Apart by auto
  have stops: "str '']'' = [] \<or> \<not> isDigit (hd (str '']''))" "?c = [] \<or> \<not> isDigit (hd ?c)" if "0 < a"
    using that by (auto simp: no_digit_words str_def)
  have close: "\<not> isDigit (hd (str '']''))"
    by (simp add: no_digit_words)
  have starts: "\<not> startsWith ?b (str '', '')" "\<not> startsWith ?b (str ''ahead '')" "\<not> startsWith (str '']'') (str ''behind '')"
    by (simp_all add: startsWith_def)
  have behind: "track_group ''behind '' ?b = (Fin (int b), str '']'')"
  proof (cases "b = 0")
    case True
    then show ?thesis using track_group_miss [OF starts(3)] by (simp del: str_simps)
  next
    case False
    then show ?thesis
      using track_group_hit [OF fits(2), of "str '']''" "''behind ''"] close by (simp del: str_simps)
  qed
  have comma: "(if startsWith ?c (str '', '') then drop 2 ?c else ?c) = ?b"
  proof (cases "0 < a \<and> 0 < b")
    case True
    have "startsWith (str '', '' @ w) (str '', '')" "drop 2 (str '', '' @ w) = w" for w
      by (simp_all add: startsWith_def)
    then show ?thesis using True by (simp del: str_simps)
  next
    case False
    then have "?c = ?b" by (simp only: if_False append_Nil)
    then show ?thesis using starts(1) by (simp only: if_False)
  qed
  have ahead: "track_group ''ahead '' (drop 1 ?t) = (Fin (int a), ?c)"
  proof (cases "a = 0")
    case True
    then have "drop 1 ?t = ?b" "?c = ?b"
      by simp_all
    then show ?thesis
      using track_group_miss [OF starts(2)] True by (simp only:) simp
  next
    case False
    then have "drop 1 ?t = str ''ahead '' @ decimal a @ ?c"
      by simp
    then show ?thesis
      using track_group_hit [OF fits(1) stops(2), of "''ahead ''"] False by (simp only:) simp
  qed
  have open': "startsWith ?t (str ''['')" "?t \<noteq> []" "?t \<noteq> str ''[gone]''"
    using fits(3) by (auto simp: startsWith_def)
  show ?thesis
    unfolding printed parseUpstreamTrack_def emptyToNull_def using open'
    by (simp only: if_False option.case Let_def ahead behind comma prod.case if_True simp_thms track_value.simps Apart)
qed

record printed_ref =
  px_name :: "byte list"
  px_oid :: "byte list"
  px_type :: string
  px_symref :: "byte list"
  px_upstream :: "byte list"
  px_track :: printed_track
  px_head :: bool
  px_peeled :: "byte list"

definition ref_types :: "(string \<times> ref_object_type) list" where
  "ref_types = [(''commit'', RefCommit), (''tag'', RefTag), (''tree'', RefTree), (''blob'', RefBlob)]"

definition ref_fields :: "printed_ref \<Rightarrow> byte list list" where
  "ref_fields p = [px_name p, px_oid p, asc (px_type p), px_symref p, px_upstream p, track_bytes (px_track p),
     asc (if px_head p then ''*'' else '' '')]"

definition ref_line :: "printed_ref \<Rightarrow> byte list" where
  "ref_line p = concat (map (\<lambda>f. f @ [0]) (ref_fields p)) @ px_peeled p"

definition ref_entry :: "printed_ref \<Rightarrow> ref_record" where
  "ref_entry p = \<lparr>rr_refName = latin1 (px_name p), rr_oid = latin1 (px_oid p), rr_objectType = the (map_of ref_types (px_type p)),
     rr_symref = emptyToNull (latin1 (px_symref p)), rr_upstream = emptyToNull (latin1 (px_upstream p)),
     rr_upstreamTrack = track_value (px_track p), rr_isHead = px_head p, rr_peeledOid = emptyToNull (latin1 (px_peeled p))\<rparr>"

definition ref_ok :: "printed_ref \<Rightarrow> bool" where
  "ref_ok p \<longleftrightarrow> field_ok (px_name p) \<and> px_name p \<noteq> [] \<and> oid_bytes (px_oid p) \<and> px_type p \<in> set (map fst ref_types) \<and>
     field_ok (px_symref p) \<and> field_ok (px_upstream p) \<and> track_ok (px_track p) \<and> field_ok (px_peeled p)"

lemma split_fields:
  "list_all (\<lambda>f. 0 \<notin> set f) fs \<Longrightarrow> 0 \<notin> set t \<Longrightarrow>
   splitOnByte 0 (concat (map (\<lambda>f. f @ [0]) fs) @ t) = fs @ (if t = [] then [] else [t])"
  using split_loop_complete [of fs 0 t] by (simp add: splitOnByte_def list_all_iff)

lemma track_field: "field_ok (track_bytes t)"
  using decimal_bytes_field by (cases t) (auto simp: field_ok_def group_bytes_def)

lemma oid_field: "oid_bytes b \<Longrightarrow> field_ok b \<and> b \<noteq> []"
  using oid_bytes_field [of b] by (auto simp: field_ok_def oid_bytes_def list_all_iff dest: isHexDigit_ascii)

lemma type_field: "t \<in> set (map fst ref_types) \<Longrightarrow> field_ok (asc t) \<and> parseObjectType (latin1 (asc t)) = the (map_of ref_types t)"
  by (auto simp: ref_types_def field_ok_def latin1_asc parseObjectType_def str_inj simp del: str_simps latin1_simps)

lemma ref_fields_ok: "ref_ok p \<Longrightarrow> list_all field_ok (ref_fields p)"
  using track_field oid_field type_field by (auto simp: ref_fields_def ref_ok_def field_ok_def)

lemma parse_ref_line_printed:
  assumes "ref_ok p"
  shows "parse_ref_line (ref_line p) = Inr (ref_entry p)"
proof -
  have pieces: "splitOnByte 0 (ref_line p) = ref_fields p @ (if px_peeled p = [] then [] else [px_peeled p])"
    unfolding ref_line_def using assms ref_fields_ok [OF assms]
    by (intro split_fields) (auto simp: ref_ok_def field_ok_def list_all_iff)
  have nul: "px_peeled p = [] \<Longrightarrow> endsWithNul (ref_line p)"
    by (simp add: endsWithNul_def ref_line_def ref_fields_def)
  have ok: "list_all field_ok (ref_fields p)" "field_ok (px_peeled p)" "px_name p \<noteq> []" "isObjectName (latin1 (px_oid p))"
    using assms ref_fields_ok by (auto simp: ref_ok_def)
  have decode: "decode_ascii_line FOR_EACH_REF_FORMAT f = Inr (latin1 f)" if "field_ok f" for f
    using that by (simp add: decode_ascii_line_def field_ok_def)
  have head: "latin1 (asc (if px_head p then ''*'' else '' '')) = str ''*'' \<longleftrightarrow> px_head p"
    by (simp add: latin1_asc str_inj del: str_simps latin1_simps asc_simps)
  have type': "parseObjectType (latin1 (asc (px_type p))) = the (map_of ref_types (px_type p))"
    using assms type_field by (simp add: ref_ok_def)
  have track: "parseUpstreamTrack (emptyToNull (latin1 (track_bytes (px_track p)))) = Inr (track_value (px_track p))"
    using assms by (intro parseUpstreamTrack_printed) (simp add: ref_ok_def)
  show ?thesis
    using ok nul
    by (cases "px_peeled p = []")
       (simp_all add: parse_ref_line_def pieces ref_fields_def field_at_def decode head type' track ref_entry_def Let_def
         del: str_simps latin1_simps asc_simps isObjectName_latin1)
qed

lemma line_loop_printed:
  "list_all (\<lambda>p. g p \<noteq> [] \<and> parse (g p) = Inr (h p)) ps \<Longrightarrow> length records + length ps \<le> m \<Longrightarrow>
   line_loop e parse m (map g ps) records = Inr (records @ map h ps)"
  by (induction ps arbitrary: records) auto

lemma ref_line_shape: "ref_ok p \<Longrightarrow> ref_line p \<noteq> [] \<and> 0x0a \<notin> set (ref_line p)"
  using ref_fields_ok [of p]
  by (auto simp: ref_line_def ref_ok_def field_ok_def list_all_iff) (auto simp: ref_fields_def)

text \<open>
  C36. Refs are read back. The listing of at most the limit of refs with ASCII names, whatever their types,
  targets, upstreams and distances, is parsed into exactly these refs.
\<close>

theorem for_each_ref_roundtrip:
  assumes "list_all ref_ok ps" and "length ps \<le> maxEntries"
  shows "parseForEachRef maxEntries (concat (map (\<lambda>p. ref_line p @ [0x0a]) ps)) = Inr (map ref_entry ps)"
proof -
  have "splitLines FOR_EACH_REF_FORMAT (concat (map (\<lambda>l. l @ [0x0a]) (map ref_line ps))) = Inr (map ref_line ps)"
    using assms(1) ref_line_shape by (intro splitLines_printed) (auto simp: list_all_iff)
  moreover have "list_all (\<lambda>p. ref_line p \<noteq> [] \<and> parse_ref_line (ref_line p) = Inr (ref_entry p)) ps"
    using assms(1) ref_line_shape parse_ref_line_printed by (auto simp: list_all_iff)
  ultimately show ?thesis
    using assms(2) by (simp add: parseForEachRef_def line_loop_printed comp_def)
qed

section \<open>The reflog\<close>

record printed_entry =
  py_locator :: "byte list"
  py_oid :: "byte list"
  py_subject :: "byte list"
  py_timestamp :: nat

definition reflog_line :: "printed_entry \<Rightarrow> byte list" where
  "reflog_line p = concat (map (\<lambda>f. f @ [0]) [py_locator p, py_oid p, py_subject p]) @ decimal_bytes (py_timestamp p)"

definition reflog_entry :: "printed_entry \<Rightarrow> reflog_record" where
  "reflog_entry p = \<lparr>rg_locator = latin1 (py_locator p), rg_oid = latin1 (py_oid p), rg_subjectBytes = py_subject p,
     rg_timestamp = Fin (int (py_timestamp p))\<rparr>"

text \<open>The subject may hold any byte but NUL and newline.\<close>

definition entry_ok :: "printed_entry \<Rightarrow> bool" where
  "entry_ok p \<longleftrightarrow> field_ok (py_locator p) \<and> py_locator p \<noteq> [] \<and> field_ok (py_oid p) \<and> 0 \<notin> set (py_subject p) \<and>
     0x0a \<notin> set (py_subject p) \<and> py_timestamp p < 2 ^ 53"

lemma parse_reflog_line_printed:
  assumes "entry_ok p"
  shows "parse_reflog_line (reflog_line p) = Inr (reflog_entry p)"
proof -
  have pieces: "splitOnByte 0 (reflog_line p) = [py_locator p, py_oid p, py_subject p, decimal_bytes (py_timestamp p)]"
    unfolding reflog_line_def using assms decimal_bytes_field [of "py_timestamp p"]
    by (subst split_fields) (auto simp: entry_ok_def field_ok_def)
  have "decimal (py_timestamp p) \<noteq> []" "list_all isDigit (decimal (py_timestamp p))"
    using decimal_all_digits [of "py_timestamp p"] by (auto simp: all_digits_def)
  then show ?thesis
    using assms decimal_bytes_field [of "py_timestamp p"]
    by (simp add: parse_reflog_line_def pieces decode_ascii_line_def entry_ok_def field_ok_def reflog_entry_def
        parseInt10_decimal toNumber_exact Let_def)
qed

lemma reflog_roundtrip:
  assumes "list_all entry_ok ps" and "length ps \<le> maxEntries"
  shows "parseReflog maxEntries (concat (map (\<lambda>p. reflog_line p @ [0x0a]) ps)) = Inr (map reflog_entry ps)"
proof -
  have shape: "reflog_line p \<noteq> [] \<and> 0x0a \<notin> set (reflog_line p)" if "entry_ok p" for p
    using that decimal_bytes_field [of "py_timestamp p"] by (auto simp: reflog_line_def entry_ok_def field_ok_def)
  have "splitLines REFLOG_FORMAT (concat (map (\<lambda>l. l @ [0x0a]) (map reflog_line ps))) = Inr (map reflog_line ps)"
    using assms(1) shape by (intro splitLines_printed) (auto simp: list_all_iff)
  moreover have "list_all (\<lambda>p. reflog_line p \<noteq> [] \<and> parse_reflog_line (reflog_line p) = Inr (reflog_entry p)) ps"
    using assms(1) shape parse_reflog_line_printed by (auto simp: list_all_iff)
  ultimately show ?thesis
    using assms(2) by (simp add: parseReflog_def line_loop_printed comp_def)
qed

section \<open>Worktrees\<close>

text \<open>What Git prints of a worktree: a head on a branch or detached, or none, and a reason with its lock.\<close>

record printed_worktree =
  pw_path :: "byte list"
  pw_head :: "byte list option"
  pw_branch :: "byte list option"
  pw_bare :: bool
  pw_detached :: bool
  pw_locked :: "byte list option option"
  pw_prunable :: "byte list option option"

definition worded :: "string \<Rightarrow> byte list \<Rightarrow> byte list" where
  "worded word v = asc word @ [0x20] @ v"

definition flagged :: "string \<Rightarrow> byte list option option \<Rightarrow> byte list list" where
  "flagged word v = (case v of None \<Rightarrow> [] | Some None \<Rightarrow> [asc word] | Some (Some reason) \<Rightarrow> [worded word reason])"

definition worktree_frames :: "printed_worktree \<Rightarrow> byte list list" where
  "worktree_frames p =
     [worded ''worktree'' (pw_path p)] @ (case pw_head p of None \<Rightarrow> [] | Some o' \<Rightarrow> [worded ''HEAD'' o']) @
     (case pw_branch p of None \<Rightarrow> [] | Some b \<Rightarrow> [worded ''branch'' b]) @
     (if pw_bare p then [asc ''bare''] else []) @ (if pw_detached p then [asc ''detached''] else []) @
     flagged ''locked'' (pw_locked p) @ flagged ''prunable'' (pw_prunable p) @ [[]]"

definition worktree_entry :: "printed_worktree \<Rightarrow> listed_worktree" where
  "worktree_entry p = \<lparr>wr_pathBytes = pw_path p, wr_headOid = map_option latin1 (pw_head p), wr_branchRef = map_option latin1 (pw_branch p),
     wr_bare = pw_bare p, wr_detached = pw_detached p, wr_locked = (pw_locked p \<noteq> None),
     wr_lockReasonBytes = (case pw_locked p of Some v \<Rightarrow> v | None \<Rightarrow> None), wr_prunable = (pw_prunable p \<noteq> None),
     wr_pruneReasonBytes = (case pw_prunable p of Some v \<Rightarrow> v | None \<Rightarrow> None)\<rparr>"

definition worktree_ok :: "printed_worktree \<Rightarrow> bool" where
  "worktree_ok p \<longleftrightarrow> path_ok (pw_path p) \<and> pred_option oid_bytes (pw_head p) \<and> pred_option field_ok (pw_branch p) \<and>
     pred_option (pred_option (\<lambda>r. 0 \<notin> set r)) (pw_locked p) \<and> pred_option (pred_option (\<lambda>r. 0 \<notin> set r)) (pw_prunable p)"

lemma of_char_space: "(of_char c :: byte) = 0x20 \<longleftrightarrow> c = CHR '' ''"
  using of_char_word_inj [of c "CHR '' ''"] by simp

lemma split_worded:
  assumes "CHR '' '' \<notin> set word"
  shows "split_attribute (worded word v) = (asc word, Some v)" "split_attribute (asc word) = (asc word, None)"
proof -
  have free: "0x20 \<notin> set (asc word)"
    using assms by (auto simp: asc_def of_char_space)
  then show "split_attribute (worded word v) = (asc word, Some v)"
    by (simp add: split_attribute_def worded_def del: asc_simps)
  show "split_attribute (asc word) = (asc word, None)"
    using free indexOf_None [of "asc word" "0x20"] by (simp add: split_attribute_def del: asc_simps indexOf_None)
qed

lemma attribute_words:
  "v \<noteq> [] \<Longrightarrow> worktree_attribute (worded ''worktree'' v) (path, w) = Inr (Some v, w)"
  "oid_bytes v \<Longrightarrow> worktree_attribute (worded ''HEAD'' v) (path, w) = Inr (path, w\<lparr>wr_headOid := Some (latin1 v)\<rparr>)"
  "field_ok v \<Longrightarrow> worktree_attribute (worded ''branch'' v) (path, w) = Inr (path, w\<lparr>wr_branchRef := Some (latin1 v)\<rparr>)"
  "worktree_attribute (asc ''bare'') (path, w) = Inr (path, w\<lparr>wr_bare := True\<rparr>)"
  "worktree_attribute (asc ''detached'') (path, w) = Inr (path, w\<lparr>wr_detached := True\<rparr>)"
  "worktree_attribute (worded ''locked'' v) (path, w) = Inr (path, w\<lparr>wr_locked := True, wr_lockReasonBytes := Some v\<rparr>)"
  "worktree_attribute (asc ''locked'') (path, w) = Inr (path, w\<lparr>wr_locked := True, wr_lockReasonBytes := None\<rparr>)"
  "worktree_attribute (worded ''prunable'' v) (path, w) = Inr (path, w\<lparr>wr_prunable := True, wr_pruneReasonBytes := Some v\<rparr>)"
  "worktree_attribute (asc ''prunable'') (path, w) = Inr (path, w\<lparr>wr_prunable := True, wr_pruneReasonBytes := None\<rparr>)"
  using oid_field [of v]
  by (simp_all add: worktree_attribute_def split_worded decode_attribute_def latin1_asc str_inj field_ok_def
      del: str_simps latin1_simps asc_simps)
     (simp_all add: is_ascii_def)

lemma worded_not_Nil [simp]: "worded word v \<noteq> []"
  by (simp add: worded_def)

lemma loop_words:
  "wr_headOid w = None \<Longrightarrow> pred_option oid_bytes h \<Longrightarrow>
   worktree_loop ((case h of None \<Rightarrow> [] | Some v \<Rightarrow> [worded ''HEAD'' v]) @ fs) (Some (path, w)) ws =
     worktree_loop fs (Some (path, w\<lparr>wr_headOid := map_option latin1 h\<rparr>)) ws"
  "wr_branchRef w = None \<Longrightarrow> pred_option field_ok b \<Longrightarrow>
   worktree_loop ((case b of None \<Rightarrow> [] | Some v \<Rightarrow> [worded ''branch'' v]) @ fs) (Some (path, w)) ws =
     worktree_loop fs (Some (path, w\<lparr>wr_branchRef := map_option latin1 b\<rparr>)) ws"
  "\<not> wr_bare w \<Longrightarrow> worktree_loop ((if bare then [asc ''bare''] else []) @ fs) (Some (path, w)) ws =
     worktree_loop fs (Some (path, w\<lparr>wr_bare := bare\<rparr>)) ws"
  "\<not> wr_detached w \<Longrightarrow> worktree_loop ((if detached then [asc ''detached''] else []) @ fs) (Some (path, w)) ws =
     worktree_loop fs (Some (path, w\<lparr>wr_detached := detached\<rparr>)) ws"
  "\<not> wr_locked w \<Longrightarrow> wr_lockReasonBytes w = None \<Longrightarrow> worktree_loop (flagged ''locked'' l @ fs) (Some (path, w)) ws =
     worktree_loop fs (Some (path, w\<lparr>wr_locked := (l \<noteq> None), wr_lockReasonBytes := (case l of Some v \<Rightarrow> v | None \<Rightarrow> None)\<rparr>)) ws"
  "\<not> wr_prunable w \<Longrightarrow> wr_pruneReasonBytes w = None \<Longrightarrow> worktree_loop (flagged ''prunable'' l @ fs) (Some (path, w)) ws =
     worktree_loop fs (Some (path, w\<lparr>wr_prunable := (l \<noteq> None), wr_pruneReasonBytes := (case l of Some v \<Rightarrow> v | None \<Rightarrow> None)\<rparr>)) ws"
  by (cases w; auto simp: attribute_words flagged_def simp del: asc_simps split: option.split)+

lemma worktree_loop_printed:
  assumes "worktree_ok p"
  shows "worktree_loop (worktree_frames p @ fs) None ws = worktree_loop fs None (ws @ [worktree_entry p])"
proof -
  have path: "pw_path p \<noteq> []" "pred_option oid_bytes (pw_head p)" "pred_option field_ok (pw_branch p)"
    using assms by (auto simp: worktree_ok_def path_ok_def)
  have "worktree_loop (worktree_frames p @ fs) None ws =
      worktree_loop ([[]] @ fs) (Some (Some (pw_path p), (worktree_entry p)\<lparr>wr_pathBytes := []\<rparr>)) ws"
    using path
    by (simp add: worktree_frames_def attribute_words empty_block_def loop_words worktree_entry_def
        del: asc_simps)
  also have "\<dots> = worktree_loop fs None (ws @ [worktree_entry p])"
    by (simp add: flush_def worktree_entry_def)
  finally show ?thesis .
qed

lemma optional_frames:
  "list_all P (case h of None \<Rightarrow> [] | Some v \<Rightarrow> [f v]) \<longleftrightarrow> pred_option (\<lambda>v. P (f v)) h"
  by (cases h) simp_all

lemma flagged_nul:
  "0 \<notin> set (asc word) \<Longrightarrow> list_all (\<lambda>f. 0 \<notin> set f) (flagged word l) \<longleftrightarrow> pred_option (pred_option (\<lambda>r. 0 \<notin> set r)) l"
  by (auto simp: flagged_def worded_def split: option.split)

lemma worktree_frames_nul:
  assumes "worktree_ok p"
  shows "list_all (\<lambda>f. 0 \<notin> set f) (worktree_frames p)"
proof -
  have "pred_option (\<lambda>v. 0 \<notin> set v) (pw_head p)" "pred_option (\<lambda>v. 0 \<notin> set v) (pw_branch p)"
    using assms oid_field by (auto simp: worktree_ok_def field_ok_def option.pred_set)
  moreover have "list_all (\<lambda>f. 0 \<notin> set f) (if b then [f] else [])" if "0 \<notin> set f" for b and f :: "byte list"
    using that by simp
  moreover have "0 \<notin> set (asc ''worktree'')" "0 \<notin> set (asc ''HEAD'')" "0 \<notin> set (asc ''branch'')" "0 \<notin> set (asc ''bare'')"
    "0 \<notin> set (asc ''detached'')" "0 \<notin> set (asc ''locked'')" "0 \<notin> set (asc ''prunable'')"
    by simp_all
  ultimately show ?thesis
    using assms
    by (simp add: worktree_frames_def optional_frames flagged_nul worded_def worktree_ok_def path_ok_def del: asc_simps)
qed

text \<open>
  Worktrees are read back. The listing of any worktrees, with paths and reasons of any bytes but NUL, is parsed
  into exactly these worktrees; a lock or prune reason may hold newlines and spaces.
\<close>

theorem worktree_roundtrip:
  assumes "list_all worktree_ok ps"
  shows "parseWorktreeList (nul_frames (concat (map worktree_frames ps))) = Inr (map worktree_entry ps)"
proof -
  have loop: "worktree_loop (concat (map worktree_frames ps)) None ws = Inr (ws @ map worktree_entry ps)" for ws
    using assms
  proof (induction ps arbitrary: ws)
    case (Cons p ps)
    then show ?case
      using worktree_loop_printed [of p "concat (map worktree_frames ps)" ws] by simp
  qed (simp add: flush_def)
  have "list_all (\<lambda>f. 0 \<notin> set f) (worktree_frames p)" if "worktree_ok p" for p
    using that worktree_frames_nul by blast
  then have "list_all (\<lambda>f. 0 \<notin> set f) (concat (map worktree_frames ps))"
    using assms by (fastforce simp: list_all_iff)
  then show ?thesis
    using loop [of "[]"] by (simp add: parseWorktreeList_def splitNulFrames_printed)
qed

section \<open>Concrete listings\<close>

theorem numstat_roundtrip_witness:
  "parseNumstat 2 (nul_frames (concat (map count_frames
     [\<lparr>pc_counts = Some (3, 1), pc_path = asc ''b'', pc_origin = Some (asc ''a'')\<rparr>, \<lparr>pc_counts = None, pc_path = asc ''c'', pc_origin = None\<rparr>]))) =
   Inr (map count_entry [\<lparr>pc_counts = Some (3, 1), pc_path = asc ''b'', pc_origin = Some (asc ''a'')\<rparr>, \<lparr>pc_counts = None, pc_path = asc ''c'', pc_origin = None\<rparr>])"
  by (rule numstat_roundtrip) (simp_all add: count_ok_def path_ok_def)

theorem name_status_roundtrip_witness:
  "parseNameStatus 2 (nul_frames (concat (map change_frames [Changed ''M'' (asc ''a''), Moved ''R'' 90 (asc ''b'') (asc ''c'')]))) =
   Inr (map change_entry [Changed ''M'' (asc ''a''), Moved ''R'' 90 (asc ''b'') (asc ''c'')])"
  by (rule name_status_roundtrip) (simp_all add: plain_letters_def moving_letters_def path_ok_def)

definition sample_ref :: printed_ref where
  "sample_ref = \<lparr>px_name = asc ''refs/heads/m'', px_oid = replicate 40 0x61, px_type = ''commit'', px_symref = [], px_upstream = asc ''refs/remotes/o/m'',
     px_track = Apart 1 2, px_head = True, px_peeled = []\<rparr>"

theorem for_each_ref_roundtrip_witness:
  "parseForEachRef 1 (concat (map (\<lambda>p. ref_line p @ [0x0a]) [sample_ref])) = Inr (map ref_entry [sample_ref])"
  by (rule for_each_ref_roundtrip)
     (simp_all add: ref_ok_def sample_ref_def field_ok_def ref_types_def oid_bytes_def isHexDigit_def is_ascii_def list_all_iff)

theorem worktree_roundtrip_witness:
  "parseWorktreeList (nul_frames (concat (map worktree_frames [\<lparr>pw_path = asc ''/w'', pw_head = None, pw_branch = Some (asc ''refs/heads/m''),
     pw_bare = False, pw_detached = False, pw_locked = Some (Some [0x0a]), pw_prunable = None\<rparr>]))) =
   Inr (map worktree_entry [\<lparr>pw_path = asc ''/w'', pw_head = None, pw_branch = Some (asc ''refs/heads/m''),
     pw_bare = False, pw_detached = False, pw_locked = Some (Some [0x0a]), pw_prunable = None\<rparr>])"
  by (rule worktree_roundtrip) (simp add: worktree_ok_def path_ok_def field_ok_def is_ascii_def)

end
