(* ===== verification/Patch.thy ===== *)
theory Patch
  imports NetworkOutput
begin

text \<open>
  The parser of unified diffs: \<^verbatim>\<open>packages/git-core/src/parse/patch.ts\<close>. The state of the loop over lines is a
  record of the variables the closures \<^verbatim>\<open>flushHunk\<close> and \<^verbatim>\<open>flushFile\<close> share. The texts of thrown errors leave
  out the line the source quotes in them.
\<close>

unbundle bit_operations_syntax

section \<open>The parsed patch\<close>

datatype patch_line_kind = LineContext | LineAdd | LineRemove

record patch_line =
  pl_kind :: patch_line_kind
  pl_text :: jsstring
  pl_noNewline :: bool

record patch_hunk =
  ph_header :: jsstring
  ph_oldStart :: jsnumber
  ph_oldLines :: jsnumber
  ph_newStart :: jsnumber
  ph_newLines :: jsnumber
  ph_lines :: "patch_line list"

datatype file_patch_body =
    TextBody "patch_hunk list"
  | BinaryBody
  | SubmoduleBody "jsstring option" "jsstring option"
  | ModeOnlyBody "jsstring option" "jsstring option"
  | UnavailableBody jsstring

record file_header =
  fh_old :: "jsstring option"
  fh_new :: "jsstring option"
  fh_oldMode :: "jsstring option"
  fh_newMode :: "jsstring option"
  fh_isNew :: bool
  fh_isDeleted :: bool
  fh_isRename :: bool
  fh_similarity :: "jsnumber option"

record parsed_file = file_header +
  pf_body :: file_patch_body

record mutable_file = file_header +
  mf_hunks :: "patch_hunk list"
  mf_binary :: bool
  mf_submodule :: bool
  mf_recordedOid :: "jsstring option"
  mf_indexOid :: "jsstring option"
  mf_unavailableReason :: "jsstring option"

definition newFile :: mutable_file where
  "newFile = \<lparr>fh_old = None, fh_new = None, fh_oldMode = None, fh_newMode = None, fh_isNew = False, fh_isDeleted = False,
     fh_isRename = False, fh_similarity = None, mf_hunks = [], mf_binary = False, mf_submodule = False,
     mf_recordedOid = None, mf_indexOid = None, mf_unavailableReason = None\<rparr>"

definition patchMaxBytesPerFile :: nat where "patchMaxBytesPerFile = 2097152"
definition patchMaxLinesPerFile :: nat where "patchMaxLinesPerFile = 20000"

definition patch_error :: "string \<Rightarrow> js_error" where
  "patch_error m = GitOutputParseError ''diff patch'' m None"

section \<open>Decoding a line\<close>

text \<open>
  \<^verbatim>\<open>ByteDecoder.decode\<close>: a byte that leads nothing and a sequence that breaks off inside the line become U+FFFD, and
  a sequence the line ends in ends the decoding.
\<close>

function decodeLine :: "byte list \<Rightarrow> js_error + jsstring" where
  "decodeLine [] = Inr []"
| "decodeLine (b # bs) =
     (if b < 0x80 then bindE (decodeLine bs) (\<lambda>t. Inr (fromCharCode b # t))
      else (case lead b of
          None \<Rightarrow> bindE (decodeLine bs) (\<lambda>t. Inr (0xfffd # t))
        | Some (needed, cp) \<Rightarrow>
            if length bs < needed then Inr [0xfffd]
            else if \<not> list_all (\<lambda>c. c AND 0xc0 = 0x80) (take needed bs)
              then bindE (decodeLine bs) (\<lambda>t. Inr (0xfffd # t))
            else bindE (fromCodePoint (continue_with cp (take needed bs))) (\<lambda>u.
                 bindE (decodeLine (drop needed bs)) (\<lambda>t. Inr (u @ t)))))"
  by pat_completeness auto
termination
  by (relation "measure length") auto

section \<open>Header lines\<close>

text \<open>\<^verbatim>\<open>/^index ([0-9a-f]+)\.\.([0-9a-f]+)(?: (\d+))?$/\<close>: its third group.\<close>

definition index_mode :: "jsstring \<Rightarrow> jsstring option" where
  "index_mode line =
     (let s = drop 6 line; a = takeWhile isHexDigit s; s = dropWhile isHexDigit s;
          t = drop 2 s; b = takeWhile isHexDigit t; t = dropWhile isHexDigit t; m = drop 1 t
      in if startsWith line (str ''index '') \<and> a \<noteq> [] \<and> startsWith s (str ''..'') \<and> b \<noteq> [] \<and>
            startsWith t (str '' '') \<and> all_digits m
         then Some m else None)"

text \<open>\<^verbatim>\<open>(\d+)(?:,(\d+))?\<close>: the range of one side and what follows it.\<close>

definition hunk_range :: "jsstring \<Rightarrow> (jsnumber \<times> jsnumber \<times> jsstring) option" where
  "hunk_range s =
     (let a = takeWhile isDigit s; s = dropWhile isDigit s; b = takeWhile isDigit (drop 1 s)
      in if a = [] then None
         else if startsWith s (str '','') \<and> b \<noteq> [] then Some (parseInt10 a, parseInt10 b, dropWhile isDigit (drop 1 s))
         else Some (parseInt10 a, Fin 1, s))"

text \<open>A dot of the expression language matches anything but these.\<close>

definition is_line_terminator :: "code_unit \<Rightarrow> bool" where
  "is_line_terminator c \<longleftrightarrow> c = 0x0a \<or> c = 0x0d \<or> c = 0x2028 \<or> c = 0x2029"

text \<open>\<^verbatim>\<open>HUNK_HEADER\<close>, and the hunk it opens.\<close>

definition hunk_header :: "jsstring \<Rightarrow> patch_hunk option" where
  "hunk_header line =
     (if startsWith line (str ''@@ -'') then
        (case hunk_range (drop 4 line) of
           None \<Rightarrow> None
         | Some (oldStart, oldLines, s) \<Rightarrow>
             if startsWith s (str '' +'') then
               (case hunk_range (drop 2 s) of
                  None \<Rightarrow> None
                | Some (newStart, newLines, t) \<Rightarrow>
                    if startsWith t (str '' @@'') \<and> list_all (\<lambda>c. \<not> is_line_terminator c) (drop 3 t)
                    then Some \<lparr>ph_header = line, ph_oldStart = oldStart, ph_oldLines = oldLines,
                                ph_newStart = newStart, ph_newLines = newLines, ph_lines = []\<rparr>
                    else None)
             else None)
      else None)"

definition stripPathPrefix :: "jsstring \<Rightarrow> jsstring" where
  "stripPathPrefix value =
     (if value = str ''/dev/null'' then value
      else let w = (if startsWith value (str ''a/'') \<or> startsWith value (str ''b/'') then drop 2 value else value)
           in if startsWith w [0x22] \<and> endsWith w [0x22] \<and> 1 < length w then butlast (drop 1 w) else w)"

text \<open>\<^verbatim>\<open>text.replace("%", "")\<close>.\<close>

definition without_percent :: "jsstring \<Rightarrow> jsstring" where
  "without_percent s = remove1 0x25 s"

definition similarity_of :: "jsstring \<Rightarrow> jsnumber option" where
  "similarity_of text' = (case parseInt10 (without_percent text') of NaN \<Rightarrow> None | n \<Rightarrow> Some n)"

text \<open>\<^verbatim>\<open>x ??= y\<close>.\<close>

definition or_else :: "'a option \<Rightarrow> 'a \<Rightarrow> 'a option" where
  "or_else x y = (case x of None \<Rightarrow> Some y | Some z \<Rightarrow> Some z)"

text \<open>The tests of the loop on the headers of a file, in their order; \<open>None\<close> when the line is none of them.\<close>

definition file_line :: "jsstring \<Rightarrow> mutable_file \<Rightarrow> mutable_file option" where
  "file_line line f =
     (if startsWith line (str ''index '') then
        Some (case index_mode line of None \<Rightarrow> f
              | Some m \<Rightarrow> f\<lparr>fh_oldMode := or_else (fh_oldMode f) m, fh_newMode := or_else (fh_newMode f) m\<rparr>)
      else if startsWith line (str ''old mode '') then Some (f\<lparr>fh_oldMode := Some (js_trim (drop 9 line))\<rparr>)
      else if startsWith line (str ''new mode '') then Some (f\<lparr>fh_newMode := Some (js_trim (drop 9 line))\<rparr>)
      else if startsWith line (str ''new file mode '') then
        Some (f\<lparr>fh_isNew := True, fh_newMode := Some (js_trim (drop 14 line))\<rparr>)
      else if startsWith line (str ''deleted file mode '') then
        Some (f\<lparr>fh_isDeleted := True, fh_oldMode := Some (js_trim (drop 18 line))\<rparr>)
      else if startsWith line (str ''similarity index '') then
        Some (f\<lparr>fh_similarity := similarity_of (drop 17 line), fh_isRename := True\<rparr>)
      else if startsWith line (str ''rename from '') then Some (f\<lparr>fh_isRename := True, fh_old := Some (drop 12 line)\<rparr>)
      else if startsWith line (str ''rename to '') then Some (f\<lparr>fh_isRename := True, fh_new := Some (drop 10 line)\<rparr>)
      else if startsWith line (str ''--- '') then Some (f\<lparr>fh_old := Some (stripPathPrefix (drop 4 line))\<rparr>)
      else if startsWith line (str ''+++ '') then Some (f\<lparr>fh_new := Some (stripPathPrefix (drop 4 line))\<rparr>)
      else if startsWith line (str ''Binary files '') \<or> startsWith line (str ''GIT binary patch'') then
        Some (f\<lparr>mf_binary := True\<rparr>)
      else if startsWith line (str ''Subproject commit '') then
        (let f = f\<lparr>mf_submodule := True\<rparr>; oid = js_trim (drop 18 line)
         in Some (if \<not> isObjectName oid then f
                  else if mf_recordedOid f = None then f\<lparr>mf_recordedOid := Some oid\<rparr>
                  else f\<lparr>mf_indexOid := Some oid\<rparr>))
      else None)"

section \<open>Hunk lines\<close>

definition no_newline_marker :: jsstring where
  "no_newline_marker = 0x5c # str '' No newline at end of file''"

text \<open>A line inside a hunk: the hunk with it, or \<open>None\<close> when the line ends the hunk.\<close>

definition hunk_line :: "jsstring \<Rightarrow> patch_hunk \<Rightarrow> js_error + patch_hunk option" where
  "hunk_line line h =
     (let add = (\<lambda>kind. Inr (Some (h\<lparr>ph_lines := ph_lines h @ [\<lparr>pl_kind = kind, pl_text = drop 1 line, pl_noNewline = False\<rparr>]\<rparr>)))
      in if line = no_newline_marker then
           (if ph_lines h = [] then Inl (patch_error ''no newline marker with no preceding line'')
            else Inr (Some (h\<lparr>ph_lines := butlast (ph_lines h) @ [(last (ph_lines h))\<lparr>pl_noNewline := True\<rparr>]\<rparr>)))
         else if startsWith line (str ''+'') then add LineAdd
         else if startsWith line (str ''-'') then add LineRemove
         else if startsWith line (str '' '') \<or> line = [] then add LineContext
         else Inr None)"

section \<open>The body of a file\<close>

definition subproject_oid :: "jsstring \<Rightarrow> jsstring option" where
  "subproject_oid text' =
     (if startsWith text' (str ''Subproject commit '') \<and> isObjectName (drop 18 text') then Some (drop 18 text') else None)"

definition submodule_line :: "patch_line \<Rightarrow> jsstring option \<times> jsstring option \<Rightarrow> jsstring option \<times> jsstring option" where
  "submodule_line line oids =
     (case subproject_oid (pl_text line) of
        None \<Rightarrow> oids
      | Some oid \<Rightarrow>
          (case pl_kind line of
             LineRemove \<Rightarrow> (or_else (fst oids) oid, snd oids)
           | LineAdd \<Rightarrow> (fst oids, or_else (snd oids) oid)
           | LineContext \<Rightarrow> oids))"

definition is_gitlink :: "mutable_file \<Rightarrow> bool" where
  "is_gitlink f \<longleftrightarrow> mf_submodule f \<or> fh_oldMode f = Some (str ''160000'') \<or> fh_newMode f = Some (str ''160000'')"

definition bodyOf :: "mutable_file \<Rightarrow> file_patch_body" where
  "bodyOf f =
     (if mf_binary f then BinaryBody
      else if is_gitlink f then
        (let (oldOid, newOid) = fold submodule_line (concat (map ph_lines (mf_hunks f))) (mf_recordedOid f, mf_indexOid f)
         in SubmoduleBody oldOid newOid)
      else (case mf_unavailableReason f of
          Some reason \<Rightarrow> UnavailableBody reason
        | None \<Rightarrow> if mf_hunks f = [] then ModeOnlyBody (fh_oldMode f) (fh_newMode f) else TextBody (mf_hunks f)))"

section \<open>The loop\<close>

record patch_state =
  pt_current :: "mutable_file option"
  pt_hunk :: "patch_hunk option"
  pt_files :: "parsed_file list"

definition flushHunk :: "patch_state \<Rightarrow> patch_state" where
  "flushHunk s = s\<lparr>pt_hunk := None,
     pt_current := (case (pt_current s, pt_hunk s) of
        (Some f, Some h) \<Rightarrow> Some (f\<lparr>mf_hunks := mf_hunks f @ [h]\<rparr>)
      | _ \<Rightarrow> pt_current s)\<rparr>"

definition parsed_of :: "mutable_file \<Rightarrow> parsed_file" where
  "parsed_of f = \<lparr>fh_old = fh_old f, fh_new = fh_new f, fh_oldMode = fh_oldMode f, fh_newMode = fh_newMode f,
     fh_isNew = fh_isNew f, fh_isDeleted = fh_isDeleted f, fh_isRename = fh_isRename f,
     fh_similarity = fh_similarity f, pf_body = bodyOf f\<rparr>"

definition flushFile :: "patch_state \<Rightarrow> patch_state" where
  "flushFile s = (case pt_current s of None \<Rightarrow> s
     | Some f \<Rightarrow> s\<lparr>pt_files := pt_files s @ [parsed_of f], pt_current := None\<rparr>)"

definition patch_step :: "jsstring \<Rightarrow> patch_state \<Rightarrow> js_error + patch_state" where
  "patch_step line s =
     (if startsWith line (str ''diff --git '') then Inr ((flushFile (flushHunk s))\<lparr>pt_current := Some newFile\<rparr>)
      else (case pt_current s of
          None \<Rightarrow> Inr s
        | Some f \<Rightarrow>
            (case file_line line f of
               Some f \<Rightarrow> Inr (s\<lparr>pt_current := Some f\<rparr>)
             | None \<Rightarrow>
                 if startsWith line (str ''@@'') then
                   (case hunk_header line of
                      None \<Rightarrow> Inl (patch_error ''unrecognised hunk header'')
                    | Some h \<Rightarrow> Inr ((flushHunk s)\<lparr>pt_hunk := Some h\<rparr>))
                 else
                   (case pt_hunk s of
                      None \<Rightarrow> Inr s
                    | Some h \<Rightarrow> bindE (hunk_line line h) (\<lambda>h'.
                        Inr (case h' of None \<Rightarrow> flushHunk s | Some h \<Rightarrow> s\<lparr>pt_hunk := Some h\<rparr>))))))"

fun patch_loop :: "nat \<Rightarrow> nat \<Rightarrow> nat \<Rightarrow> byte list list \<Rightarrow> patch_state \<Rightarrow> js_error + patch_state \<times> bool" where
  "patch_loop maxBytes maxLines lineCount [] s = Inr (s, False)"
| "patch_loop maxBytes maxLines lineCount (l # ls) s =
     (if maxLines < lineCount + 1 \<or> maxBytes < length l then Inr (s, True)
      else bindE (decodeLine l) (\<lambda>line.
           bindE (patch_step line s) (patch_loop maxBytes maxLines (lineCount + 1) ls)))"

record patch_result =
  pr_files :: "parsed_file list"
  pr_truncated :: bool

definition parsePatch :: "nat \<Rightarrow> nat \<Rightarrow> byte list \<Rightarrow> js_error + patch_result" where
  "parsePatch maxBytes maxLines bytes =
     bindE (patch_loop maxBytes maxLines 0 (splitOnByte 0x0a bytes) \<lparr>pt_current = None, pt_hunk = None, pt_files = []\<rparr>)
       (\<lambda>(s, truncated). Inr \<lparr>pr_files = pt_files (flushFile (flushHunk s)), pr_truncated = truncated\<rparr>)"

end
