(* ===== verification/PatchRules.thy ===== *)
theory PatchRules
  imports Patch NameRules Reader
begin

text \<open>
  The patch parser of \<open>Patch\<close>: it reads back the text patches Git prints, line by line, except for the lines of a
  hunk that look like the headers of a file; what it keeps of a patch that runs past a bound; what its decoder loses.
\<close>

section \<open>Decoding\<close>

lemma le_7f: "(b :: byte) \<le> 0x7f \<longleftrightarrow> b < 0x80"
  by unat_arith

lemma bindE_return: "bindE m Inr = m"
  by (cases m) simp_all

lemma decodeLine_ascii_append:
  "is_ascii a \<Longrightarrow> decodeLine (a @ l) = bindE (decodeLine l) (\<lambda>t. Inr (latin1 a @ t))"
  by (induction a) (simp_all add: is_ascii_def le_7f bindE_assoc bindE_return latin1_def)

lemma decodeLine_ascii: "is_ascii a \<Longrightarrow> decodeLine a = Inr (latin1 a)"
  using decodeLine_ascii_append [of a "[]"] by simp

section \<open>The loop without bounds\<close>

fun patch_lines :: "byte list list \<Rightarrow> patch_state \<Rightarrow> js_error + patch_state" where
  "patch_lines [] s = Inr s"
| "patch_lines (l # ls) s = bindE (decodeLine l) (\<lambda>line. bindE (patch_step line s) (patch_lines ls))"

lemma patch_lines_append: "patch_lines (ks @ ls) = (\<lambda>s. bindE (patch_lines ks s) (patch_lines ls))"
proof (induction ks)
  case (Cons k ks)
  show ?case by (rule ext) (simp add: Cons.IH bindE_assoc)
qed simp

lemma patch_loop_within:
  "list_all (\<lambda>l. length l \<le> maxBytes) ls \<Longrightarrow>
   patch_loop maxBytes maxLines n ls s =
     bindE (patch_lines (take (maxLines - n) ls) s) (\<lambda>s. Inr (s, maxLines < n + length ls \<and> ls \<noteq> []))"
proof (induction ls arbitrary: n s)
  case (Cons l ls)
  show ?case
  proof (cases "maxLines < n + 1")
    case False
    then have "maxLines - n = Suc (maxLines - (n + 1))" by simp
    then show ?thesis
      using Cons False by (auto simp: bindE_assoc intro!: bindE_cong)
  qed simp
qed simp

lemma splitOnByte_lines:
  "list_all (\<lambda>l. c \<notin> set l) ls \<Longrightarrow> splitOnByte c (concat (map (\<lambda>l. l @ [c]) ls)) = ls"
  using split_loop_complete [of ls c "[]"] by (simp add: splitOnByte_def list_all_iff)

section \<open>Patches as Git prints them\<close>

record printed_line =
  ql_kind :: patch_line_kind
  ql_bytes :: "byte list"
  ql_noNewline :: bool

record printed_hunk =
  qh_oldStart :: nat
  qh_oldLines :: "nat option"
  qh_newStart :: nat
  qh_newLines :: "nat option"
  qh_section :: "byte list"
  qh_lines :: "printed_line list"

fun line_marker :: "patch_line_kind \<Rightarrow> byte" where
  "line_marker LineContext = 0x20"
| "line_marker LineAdd = 0x2b"
| "line_marker LineRemove = 0x2d"

definition marker_frame :: "byte list" where
  "marker_frame = 0x5c # asc '' No newline at end of file''"

definition line_frames :: "printed_line \<Rightarrow> byte list list" where
  "line_frames l = (line_marker (ql_kind l) # ql_bytes l) # (if ql_noNewline l then [marker_frame] else [])"

definition range_frame :: "nat \<Rightarrow> nat option \<Rightarrow> byte list" where
  "range_frame start n' = decimal_bytes start @ (case n' of None \<Rightarrow> [] | Some n \<Rightarrow> asc '','' @ decimal_bytes n)"

definition header_frame :: "printed_hunk \<Rightarrow> byte list" where
  "header_frame h = asc ''@@ -'' @ range_frame (qh_oldStart h) (qh_oldLines h) @ asc '' +'' @
     range_frame (qh_newStart h) (qh_newLines h) @ asc '' @@'' @ qh_section h"

definition hunk_frames :: "printed_hunk \<Rightarrow> byte list list" where
  "hunk_frames h = header_frame h # concat (map line_frames (qh_lines h))"

text \<open>What is displayed of bytes.\<close>

definition shown :: "byte list \<Rightarrow> jsstring" where
  "shown bs = (case decodeLine bs of Inl e \<Rightarrow> [] | Inr t \<Rightarrow> t)"

definition shown_line :: "printed_line \<Rightarrow> patch_line" where
  "shown_line l = \<lparr>pl_kind = ql_kind l, pl_text = shown (ql_bytes l), pl_noNewline = ql_noNewline l\<rparr>"

definition shown_count :: "nat option \<Rightarrow> jsnumber" where
  "shown_count n' = (case n' of None \<Rightarrow> Fin 1 | Some n \<Rightarrow> toNumber (int n))"

definition shown_hunk :: "printed_hunk \<Rightarrow> patch_hunk" where
  "shown_hunk h = \<lparr>ph_header = shown (header_frame h), ph_oldStart = toNumber (int (qh_oldStart h)),
     ph_oldLines = shown_count (qh_oldLines h), ph_newStart = toNumber (int (qh_newStart h)),
     ph_newLines = shown_count (qh_newLines h), ph_lines = map shown_line (qh_lines h)\<rparr>"

text \<open>Lines that can be displayed and do not look like the headers of a file.\<close>

definition decodable :: "byte list \<Rightarrow> bool" where
  "decodable bs \<longleftrightarrow> (case decodeLine bs of Inl e \<Rightarrow> False | Inr t \<Rightarrow> True)"

definition like_header :: "printed_line \<Rightarrow> bool" where
  "like_header l \<longleftrightarrow> (ql_kind l = LineRemove \<and> startsWith (shown (ql_bytes l)) (str ''-- '')) \<or>
     (ql_kind l = LineAdd \<and> startsWith (shown (ql_bytes l)) (str ''++ ''))"

definition line_ok :: "printed_line \<Rightarrow> bool" where
  "line_ok l \<longleftrightarrow> decodable (ql_bytes l) \<and> \<not> like_header l"

definition hunk_ok :: "printed_hunk \<Rightarrow> bool" where
  "hunk_ok h \<longleftrightarrow> decodable (qh_section h) \<and> list_all (\<lambda>c. \<not> is_line_terminator c) (shown (qh_section h)) \<and>
     list_all line_ok (qh_lines h)"

lemma decodable_iff: "decodable bs \<longleftrightarrow> decodeLine bs = Inr (shown bs)"
  by (auto simp: decodable_def shown_def split: sum.splits)

lemma marker_text: "decodeLine marker_frame = Inr no_newline_marker"
proof -
  have "is_ascii marker_frame" by (simp add: marker_frame_def)
  moreover have "latin1 marker_frame = no_newline_marker"
    by (simp add: marker_frame_def no_newline_marker_def latin1_asc fromCharCode_def del: asc_simps str_simps)
  ultimately show ?thesis by (simp add: decodeLine_ascii)
qed

lemma startsWith_rec:
  "startsWith s []" "startsWith (x # xs) (y # ys) \<longleftrightarrow> x = y \<and> startsWith xs ys" "\<not> startsWith [] (y # ys)"
  by (auto simp: startsWith_def)

lemma patch_step_hunk:
  assumes "pt_current s = Some f" and "pt_hunk s = Some h"
    and "c \<in> {0x20, 0x2b, 0x2d, 0x5c}" and "\<not> startsWith (c # t) (str ''--- '')" and "\<not> startsWith (c # t) (str ''+++ '')"
  shows "patch_step (c # t) s =
    bindE (hunk_line (c # t) h) (\<lambda>h'. Inr (case h' of None \<Rightarrow> flushHunk s | Some h \<Rightarrow> s\<lparr>pt_hunk := Some h\<rparr>))"
proof -
  have c: "c \<noteq> 0x69" "c \<noteq> 0x6f" "c \<noteq> 0x6e" "c \<noteq> 0x64" "c \<noteq> 0x73" "c \<noteq> 0x72" "c \<noteq> 0x42" "c \<noteq> 0x47" "c \<noteq> 0x53" "c \<noteq> 0x40"
    using assms(3) by auto
  then have "file_line (c # t) f = None"
    using assms(4,5) by (simp add: file_line_def startsWith_rec)
  then show ?thesis
    using assms(1,2) c by (simp add: patch_step_def startsWith_rec)
qed

lemma patch_line_shown:
  assumes "pt_current s = Some f" and "pt_hunk s = Some h" and "line_ok l"
  shows "patch_lines (line_frames l) s = Inr (s\<lparr>pt_hunk := Some (h\<lparr>ph_lines := ph_lines h @ [shown_line l]\<rparr>)\<rparr>)"
proof -
  let ?c = "fromCharCode (line_marker (ql_kind l))"
  have read: "decodeLine (line_marker (ql_kind l) # ql_bytes l) = Inr (?c # shown (ql_bytes l))"
    using assms(3) by (cases "ql_kind l") (auto simp: line_ok_def decodable_iff)
  have c: "?c \<in> {0x20, 0x2b, 0x2d, 0x5c}"
    by (cases "ql_kind l") (auto simp: fromCharCode_def)
  have no: "\<not> startsWith (?c # shown (ql_bytes l)) (str ''--- '')" "\<not> startsWith (?c # shown (ql_bytes l)) (str ''+++ '')"
    using assms(3) by (cases "ql_kind l"; simp add: line_ok_def like_header_def startsWith_rec fromCharCode_def)+
  have "hunk_line (?c # shown (ql_bytes l)) h = Inr (Some (h\<lparr>ph_lines := ph_lines h @
      [\<lparr>pl_kind = ql_kind l, pl_text = shown (ql_bytes l), pl_noNewline = False\<rparr>]\<rparr>))"
    by (cases "ql_kind l") (simp_all add: hunk_line_def no_newline_marker_def startsWith_rec fromCharCode_def Let_def)
  note step = patch_step_hunk [OF assms(1,2) c no] this
  show ?thesis
  proof (cases "ql_noNewline l")
    case False
    then show ?thesis
      by (simp add: line_frames_def read step shown_line_def del: decodeLine.simps)
  next
    case True
    let ?h = "h\<lparr>ph_lines := ph_lines h @ [\<lparr>pl_kind = ql_kind l, pl_text = shown (ql_bytes l), pl_noNewline = False\<rparr>]\<rparr>"
    have "patch_step no_newline_marker (s\<lparr>pt_hunk := Some ?h\<rparr>) =
        Inr (s\<lparr>pt_hunk := Some (h\<lparr>ph_lines := ph_lines h @ [shown_line l]\<rparr>)\<rparr>)"
      using True assms(1) unfolding no_newline_marker_def
      by (subst patch_step_hunk [of _ f ?h]) (simp_all add: startsWith_rec hunk_line_def no_newline_marker_def shown_line_def)
    with True show ?thesis
      by (simp add: line_frames_def read step marker_text del: decodeLine.simps)
  qed
qed

lemma patch_lines_shown:
  "pt_current s = Some f \<Longrightarrow> pt_hunk s = Some h \<Longrightarrow> list_all line_ok ls \<Longrightarrow>
   patch_lines (concat (map line_frames ls)) s = Inr (s\<lparr>pt_hunk := Some (h\<lparr>ph_lines := ph_lines h @ map shown_line ls\<rparr>)\<rparr>)"
proof (induction ls arbitrary: s h)
  case (Cons l ls)
  then show ?case
    by (simp add: patch_lines_append patch_line_shown)
qed simp

section \<open>Headers of hunks\<close>

lemma decodable_append: "is_ascii a \<Longrightarrow> decodable (a @ b) = decodable b \<and> (decodable b \<longrightarrow> shown (a @ b) = latin1 a @ shown b)"
  by (auto simp: decodable_def shown_def decodeLine_ascii_append split: sum.splits)

definition range_text :: "nat \<Rightarrow> nat option \<Rightarrow> jsstring" where
  "range_text start n' = decimal start @ (case n' of None \<Rightarrow> [] | Some n \<Rightarrow> str '','' @ decimal n)"

lemma digits_end: "decimal n @ t \<noteq> []" "takeWhile isDigit (decimal n @ t) = decimal n @ takeWhile isDigit t"
  "dropWhile isDigit (decimal n @ t) = dropWhile isDigit t" "decimal n \<noteq> []"
  using decimal_all_digits [of n] by (auto simp: all_digits_def list_all_iff)

lemma hunk_range_text:
  assumes "t = [] \<or> (\<not> isDigit (hd t) \<and> hd t \<noteq> 0x2c)"
  shows "hunk_range (range_text start n' @ t) = Some (toNumber (int start), shown_count n', t)"
proof -
  have t: "takeWhile isDigit t = []" "dropWhile isDigit t = t" "\<not> startsWith t (str '','')"
    using assms by (cases t; simp add: startsWith_rec)+
  have comma: "\<not> isDigit (0x2c :: code_unit)" by (simp add: isDigit_def)
  show ?thesis
  proof (cases n')
    case None
    then show ?thesis
      by (simp add: hunk_range_def range_text_def digits_end t shown_count_def parseInt10_decimal Let_def del: str_simps)
  next
    case (Some a)
    then show ?thesis
      by (simp add: hunk_range_def range_text_def digits_end t comma shown_count_def parseInt10_decimal Let_def startsWith_rec)
  qed
qed

lemma range_frame_text: "is_ascii (range_frame start n')" "latin1 (range_frame start n') = range_text start n'"
  using decimal_bytes_digits(2) [of start] decimal_bytes_digits(2) [of "the n'"] isDigit_ascii
  by (auto simp: range_frame_def range_text_def is_ascii_def list_all_iff fromCharCode_def split: option.splits)

lemma header_frame_text:
  assumes "decodable (qh_section h)"
  shows "decodeLine (header_frame h) = Inr (shown (header_frame h))"
    and "shown (header_frame h) = str ''@@ -'' @ range_text (qh_oldStart h) (qh_oldLines h) @ str '' +'' @
      range_text (qh_newStart h) (qh_newLines h) @ str '' @@'' @ shown (qh_section h)"
proof -
  let ?a = "asc ''@@ -'' @ range_frame (qh_oldStart h) (qh_oldLines h) @ asc '' +'' @
      range_frame (qh_newStart h) (qh_newLines h) @ asc '' @@''"
  have a: "is_ascii ?a" "header_frame h = ?a @ qh_section h"
    by (simp_all add: range_frame_text header_frame_def)
  have lat: "latin1 ?a = str ''@@ -'' @ range_text (qh_oldStart h) (qh_oldLines h) @ str '' +'' @
      range_text (qh_newStart h) (qh_newLines h) @ str '' @@''"
    by (simp add: range_frame_text latin1_asc del: asc_simps str_simps)
  have "decodable (header_frame h)" "shown (header_frame h) = latin1 ?a @ shown (qh_section h)"
    using decodable_append [OF a(1), of "qh_section h"] assms unfolding a(2) by blast+
  then show "decodeLine (header_frame h) = Inr (shown (header_frame h))"
    and "shown (header_frame h) = str ''@@ -'' @ range_text (qh_oldStart h) (qh_oldLines h) @ str '' +'' @
      range_text (qh_newStart h) (qh_newLines h) @ str '' @@'' @ shown (qh_section h)"
    unfolding lat by (simp_all only: decodable_iff append_assoc)
qed

lemma hunk_header_shown:
  assumes "hunk_ok h"
  shows "hunk_header (shown (header_frame h)) = Some ((shown_hunk h)\<lparr>ph_lines := []\<rparr>)"
proof -
  have d: "decodable (qh_section h)" "list_all (\<lambda>c. \<not> is_line_terminator c) (shown (qh_section h))"
    using assms by (simp_all add: hunk_ok_def)
  let ?s = "str '' @@'' @ shown (qh_section h)" and ?n = "range_text (qh_newStart h) (qh_newLines h)"
  have "hunk_range (range_text (qh_oldStart h) (qh_oldLines h) @ str '' +'' @ ?n @ ?s) =
      Some (toNumber (int (qh_oldStart h)), shown_count (qh_oldLines h), str '' +'' @ ?n @ ?s)"
    by (rule hunk_range_text) (simp add: isDigit_def)
  moreover have "hunk_range (?n @ ?s) = Some (toNumber (int (qh_newStart h)), shown_count (qh_newLines h), ?s)"
    by (rule hunk_range_text) (simp add: isDigit_def)
  ultimately show ?thesis
    using d(2) by (simp add: hunk_header_def header_frame_text(2) [OF d(1)] shown_hunk_def startsWith_rec)
qed

lemma patch_lines_hunk:
  assumes "pt_current s = Some f" and "hunk_ok h"
  shows "patch_lines (hunk_frames h) s = Inr ((flushHunk s)\<lparr>pt_hunk := Some (shown_hunk h)\<rparr>)"
proof -
  have d: "decodable (qh_section h)" "list_all line_ok (qh_lines h)"
    using assms(2) by (simp_all add: hunk_ok_def)
  have "file_line (shown (header_frame h)) f = None" "startsWith (shown (header_frame h)) (str ''@@'')"
    "\<not> startsWith (shown (header_frame h)) (str ''diff --git '')"
    by (simp_all add: header_frame_text(2) [OF d(1)] file_line_def startsWith_rec)
  then have step: "patch_step (shown (header_frame h)) s = Inr ((flushHunk s)\<lparr>pt_hunk := Some ((shown_hunk h)\<lparr>ph_lines := []\<rparr>)\<rparr>)"
    using assms(1) hunk_header_shown [OF assms(2)] by (simp add: patch_step_def)
  obtain f' where "pt_current (flushHunk s) = Some f'"
    using assms(1) by (cases "pt_hunk s") (auto simp: flushHunk_def)
  then show ?thesis
    using d(2) patch_lines_shown [of "(flushHunk s)\<lparr>pt_hunk := Some ((shown_hunk h)\<lparr>ph_lines := []\<rparr>)\<rparr>" f' "(shown_hunk h)\<lparr>ph_lines := []\<rparr>" "qh_lines h"]
    by (simp add: hunk_frames_def header_frame_text(1) [OF d(1)] step shown_hunk_def)
qed

text \<open>The hunks of a file: all but the last are flushed into it.\<close>

definition with_hunks :: "mutable_file \<Rightarrow> patch_hunk option \<Rightarrow> patch_hunk list \<Rightarrow> patch_state \<Rightarrow> patch_state" where
  "with_hunks f h hs s =
     (let all = (case h of None \<Rightarrow> [] | Some h \<Rightarrow> [h]) @ hs
      in s\<lparr>pt_current := Some (f\<lparr>mf_hunks := mf_hunks f @ butlast all\<rparr>), pt_hunk := (if all = [] then None else Some (last all))\<rparr>)"

lemma patch_lines_hunks:
  "pt_current s = Some f \<Longrightarrow> pt_hunk s = h \<Longrightarrow> list_all hunk_ok hs \<Longrightarrow>
   patch_lines (concat (map hunk_frames hs)) s = Inr (with_hunks f h (map shown_hunk hs) s)"
proof (induction hs arbitrary: s f h)
  case Nil
  then show ?case by (cases h) (simp_all add: with_hunks_def)
next
  case (Cons k hs)
  have "pt_current (flushHunk s) = Some (f\<lparr>mf_hunks := mf_hunks f @ (case h of None \<Rightarrow> [] | Some h \<Rightarrow> [h])\<rparr>)"
    using Cons.prems by (simp add: flushHunk_def split: option.splits)
  then show ?case
    using Cons.prems patch_lines_hunk [of s f k]
      Cons.IH [of "(flushHunk s)\<lparr>pt_hunk := Some (shown_hunk k)\<rparr>" "f\<lparr>mf_hunks := mf_hunks f @ (case h of None \<Rightarrow> [] | Some h \<Rightarrow> [h])\<rparr>" "Some (shown_hunk k)"]
    by (simp add: patch_lines_append with_hunks_def flushHunk_def split: option.splits)
qed

section \<open>Whole files\<close>

datatype file_change = Modified | Created | Removed

record printed_file =
  qf_change :: file_change
  qf_path :: "byte list"
  qf_from :: "byte list"
  qf_to :: "byte list"
  qf_mode :: "byte list"
  qf_hunks :: "printed_hunk list"

definition old_name :: "printed_file \<Rightarrow> byte list" where
  "old_name p = (if qf_change p = Created then asc ''/dev/null'' else asc ''a/'' @ qf_path p)"

definition new_name :: "printed_file \<Rightarrow> byte list" where
  "new_name p = (if qf_change p = Removed then asc ''/dev/null'' else asc ''b/'' @ qf_path p)"

definition mode_frames :: "printed_file \<Rightarrow> byte list list" where
  "mode_frames p = (case qf_change p of
     Modified \<Rightarrow> [asc ''index '' @ qf_from p @ asc ''..'' @ qf_to p @ asc '' '' @ qf_mode p]
   | Created \<Rightarrow> [asc ''new file mode '' @ qf_mode p, asc ''index '' @ qf_from p @ asc ''..'' @ qf_to p]
   | Removed \<Rightarrow> [asc ''deleted file mode '' @ qf_mode p, asc ''index '' @ qf_from p @ asc ''..'' @ qf_to p])"

definition top_frames :: "printed_file \<Rightarrow> byte list list" where
  "top_frames p = (asc ''diff --git a/'' @ qf_path p @ asc '' b/'' @ qf_path p) # mode_frames p @
     [asc ''--- '' @ old_name p, asc ''+++ '' @ new_name p]"

definition file_frames :: "printed_file \<Rightarrow> byte list list" where
  "file_frames p = top_frames p @ concat (map hunk_frames (qf_hunks p))"

definition shown_name :: "byte list \<Rightarrow> byte list \<Rightarrow> jsstring option" where
  "shown_name name path = Some (if name = asc ''/dev/null'' then str ''/dev/null'' else latin1 path)"

definition top_file :: "printed_file \<Rightarrow> mutable_file" where
  "top_file p = newFile\<lparr>fh_old := shown_name (old_name p) (qf_path p), fh_new := shown_name (new_name p) (qf_path p),
     fh_oldMode := (if qf_change p = Created then None else Some (latin1 (qf_mode p))),
     fh_newMode := (if qf_change p = Removed then None else Some (latin1 (qf_mode p))),
     fh_isNew := (qf_change p = Created), fh_isDeleted := (qf_change p = Removed)\<rparr>"

definition shown_file :: "printed_file \<Rightarrow> parsed_file" where
  "shown_file p = parsed_of (top_file p\<lparr>mf_hunks := map shown_hunk (qf_hunks p)\<rparr>)"

definition oid_like :: "byte list \<Rightarrow> bool" where
  "oid_like bs \<longleftrightarrow> bs \<noteq> [] \<and> list_all isHexDigit bs"

definition plain_path :: "byte list \<Rightarrow> bool" where
  "plain_path p \<longleftrightarrow> is_ascii p \<and> \<not> startsWith p [0x22]"

definition file_ok :: "printed_file \<Rightarrow> bool" where
  "file_ok p \<longleftrightarrow> plain_path (qf_path p) \<and> oid_like (qf_from p) \<and> oid_like (qf_to p) \<and>
     qf_mode p \<noteq> [] \<and> list_all isDigit (qf_mode p) \<and> list_all hunk_ok (qf_hunks p)"

lemma hex_end:
  assumes "list_all isHexDigit a" and "t = [] \<or> \<not> isHexDigit (hd t)"
  shows "takeWhile isHexDigit (a @ t) = a" "dropWhile isHexDigit (a @ t) = t"
  using assms by (cases t; auto simp: list_all_iff takeWhile_append dropWhile_append)+

lemma index_mode_some:
  assumes "a \<noteq> []" "list_all isHexDigit a" "b \<noteq> []" "list_all isHexDigit b" "all_digits m"
  shows "index_mode (str ''index '' @ a @ str ''..'' @ b @ str '' '' @ m) = Some m"
  using assms by (simp add: index_mode_def hex_end isHexDigit_def isDigit_def startsWith_rec)

lemma index_mode_none:
  assumes "list_all isHexDigit a" "list_all isHexDigit b"
  shows "index_mode (str ''index '' @ a @ str ''..'' @ b) = None"
proof -
  have "dropWhile isHexDigit b = []" and dot: "\<not> isHexDigit (0x2e :: code_unit)"
    using assms(2) by (auto simp: list_all_iff isHexDigit_def isDigit_def)
  then have "\<not> startsWith (dropWhile isHexDigit b) [0x20]"
    by (simp only: startsWith_rec simp_thms)
  then show ?thesis
    using assms dot by (simp add: index_mode_def hex_end startsWith_rec Let_def)
qed

lemma stripPathPrefix_name:
  assumes "plain_path p"
  shows "stripPathPrefix (str ''a/'' @ latin1 p) = latin1 p" "stripPathPrefix (str ''b/'' @ latin1 p) = latin1 p"
    "stripPathPrefix (str ''/dev/null'') = str ''/dev/null''"
proof -
  have "\<not> startsWith (latin1 p) [0x22]"
  proof (cases p)
    case (Cons c cs)
    then show ?thesis
      using assms fromCharCode_inj [of c "0x22"] by (auto simp: plain_path_def startsWith_rec fromCharCode_def)
  qed (simp add: startsWith_rec)
  then show "stripPathPrefix (str ''a/'' @ latin1 p) = latin1 p" "stripPathPrefix (str ''b/'' @ latin1 p) = latin1 p"
    "stripPathPrefix (str ''/dev/null'') = str ''/dev/null''"
    by (simp_all add: stripPathPrefix_def startsWith_rec)
qed

text \<open>A header of printable ASCII read in a file.\<close>

lemma patch_lines_header:
  assumes "is_ascii (asc p)" and "is_ascii t" and "pt_current s = Some f"
    and "file_line (str p @ latin1 t) f = Some f'" and "\<not> startsWith (str p @ latin1 t) (str ''diff --git '')"
  shows "patch_lines ((asc p @ t) # ls) s = patch_lines ls (s\<lparr>pt_current := Some f'\<rparr>)"
proof -
  have "decodeLine (asc p @ t) = Inr (str p @ latin1 t)"
    using assms(1,2) decodeLine_ascii [of "asc p @ t"] by (simp add: latin1_asc)
  then show ?thesis
    using assms(3-5) by (simp add: patch_step_def)
qed

lemma latin1_digits: "list_all isDigit bs \<Longrightarrow> list_all isDigit (latin1 bs)"
  by (simp add: list_all_latin1)

lemma js_trim_digits:
  assumes "list_all isDigit ds"
  shows "js_trim ds = ds"
proof -
  have no: "\<forall>x\<in>set ds. \<not> is_js_space x"
    using assms isDigit_not_space by (auto simp: list_all_iff)
  have same: "dropWhile is_js_space xs = xs" if "\<forall>x\<in>set xs. \<not> is_js_space x" for xs
    using that by (cases xs) auto
  show ?thesis
    using same [of ds] same [of "rev ds"] no by (simp add: js_trim_def)
qed

lemma header_lines_shown:
  assumes "file_ok p"
  shows "file_line (str ''--- '' @ latin1 (old_name p)) f = Some (f\<lparr>fh_old := shown_name (old_name p) (qf_path p)\<rparr>)"
    and "file_line (str ''+++ '' @ latin1 (new_name p)) f = Some (f\<lparr>fh_new := shown_name (new_name p) (qf_path p)\<rparr>)"
    and "file_line (str ''new file mode '' @ latin1 (qf_mode p)) f = Some (f\<lparr>fh_isNew := True, fh_newMode := Some (latin1 (qf_mode p))\<rparr>)"
    and "file_line (str ''deleted file mode '' @ latin1 (qf_mode p)) f = Some (f\<lparr>fh_isDeleted := True, fh_oldMode := Some (latin1 (qf_mode p))\<rparr>)"
proof -
  have m: "js_trim (latin1 (qf_mode p)) = latin1 (qf_mode p)"
    using assms by (simp add: file_ok_def js_trim_digits latin1_digits)
  have path: "plain_path (qf_path p)" using assms by (simp add: file_ok_def)
  have ab: "asc ''a/'' @ x \<noteq> asc ''/dev/null''" "asc ''b/'' @ x \<noteq> asc ''/dev/null''" for x
    by simp_all
  have name: "stripPathPrefix (latin1 (old_name p)) = the (shown_name (old_name p) (qf_path p))"
    "stripPathPrefix (latin1 (new_name p)) = the (shown_name (new_name p) (qf_path p))"
    using ab by (simp_all add: old_name_def new_name_def shown_name_def latin1_asc stripPathPrefix_name [OF path] del: asc_simps str_simps)
  have d: "drop 4 (str ''--- '' @ x) = x" "drop 4 (str ''+++ '' @ x) = x" "drop 14 (str ''new file mode '' @ x) = x"
    "drop 18 (str ''deleted file mode '' @ x) = x" for x
    by simp_all
  have 1: "file_line (str ''--- '' @ x) f = Some (f\<lparr>fh_old := Some (stripPathPrefix x)\<rparr>)"
    and 2: "file_line (str ''+++ '' @ x) f = Some (f\<lparr>fh_new := Some (stripPathPrefix x)\<rparr>)"
    and 3: "file_line (str ''new file mode '' @ x) f = Some (f\<lparr>fh_isNew := True, fh_newMode := Some (js_trim x)\<rparr>)"
    and 4: "file_line (str ''deleted file mode '' @ x) f = Some (f\<lparr>fh_isDeleted := True, fh_oldMode := Some (js_trim x)\<rparr>)" for x
    by (simp_all add: file_line_def startsWith_rec)
  show "file_line (str ''--- '' @ latin1 (old_name p)) f = Some (f\<lparr>fh_old := shown_name (old_name p) (qf_path p)\<rparr>)"
    and "file_line (str ''+++ '' @ latin1 (new_name p)) f = Some (f\<lparr>fh_new := shown_name (new_name p) (qf_path p)\<rparr>)"
    and "file_line (str ''new file mode '' @ latin1 (qf_mode p)) f = Some (f\<lparr>fh_isNew := True, fh_newMode := Some (latin1 (qf_mode p))\<rparr>)"
    and "file_line (str ''deleted file mode '' @ latin1 (qf_mode p)) f = Some (f\<lparr>fh_isDeleted := True, fh_oldMode := Some (latin1 (qf_mode p))\<rparr>)"
    unfolding 1 2 3 4 name m by (simp_all add: shown_name_def)
qed

lemma index_lines_shown:
  assumes "file_ok p"
  shows "file_line (str ''index '' @ latin1 (qf_from p @ asc ''..'' @ qf_to p @ asc '' '' @ qf_mode p)) f =
      Some (f\<lparr>fh_oldMode := or_else (fh_oldMode f) (latin1 (qf_mode p)), fh_newMode := or_else (fh_newMode f) (latin1 (qf_mode p))\<rparr>)"
    and "file_line (str ''index '' @ latin1 (qf_from p @ asc ''..'' @ qf_to p)) f = Some f"
proof -
  have hex: "latin1 (qf_from p) \<noteq> []" "list_all isHexDigit (latin1 (qf_from p))"
    "latin1 (qf_to p) \<noteq> []" "list_all isHexDigit (latin1 (qf_to p))" "all_digits (latin1 (qf_mode p))"
    using assms by (auto simp: file_ok_def oid_like_def list_all_latin1 all_digits_def latin1_digits)
  have i: "startsWith (str ''index '' @ x) (str ''index '')" for x
    by (rule startsWith_append)
  show "file_line (str ''index '' @ latin1 (qf_from p @ asc ''..'' @ qf_to p @ asc '' '' @ qf_mode p)) f =
      Some (f\<lparr>fh_oldMode := or_else (fh_oldMode f) (latin1 (qf_mode p)), fh_newMode := or_else (fh_newMode f) (latin1 (qf_mode p))\<rparr>)"
    using index_mode_some [OF hex] i by (simp add: file_line_def latin1_asc del: asc_simps str_simps)
  show "file_line (str ''index '' @ latin1 (qf_from p @ asc ''..'' @ qf_to p)) f = Some f"
    using index_mode_none [OF hex(2,4)] i by (simp add: file_line_def latin1_asc del: asc_simps str_simps)
qed

lemma file_ascii:
  assumes "file_ok p"
  shows "is_ascii (qf_path p)" "is_ascii (qf_from p)" "is_ascii (qf_to p)" "is_ascii (qf_mode p)"
    "is_ascii (old_name p)" "is_ascii (new_name p)"
  using assms isHexDigit_ascii isDigit_ascii
  by (auto simp: file_ok_def plain_path_def oid_like_def is_ascii_def list_all_iff old_name_def new_name_def)

lemma patch_lines_top:
  assumes "file_ok p"
  shows "patch_lines (top_frames p @ ls) s = patch_lines ls ((flushFile (flushHunk s))\<lparr>pt_current := Some (top_file p)\<rparr>)"
proof -
  note a = file_ascii [OF assms]
  have diff: "patch_lines ((asc ''diff --git a/'' @ t) # ls) s = patch_lines ls ((flushFile (flushHunk s))\<lparr>pt_current := Some newFile\<rparr>)"
    if "is_ascii t" for t ls
  proof -
    have "decodeLine (asc ''diff --git a/'' @ t) = Inr (str ''diff --git '' @ str ''a/'' @ latin1 t)"
      using that decodeLine_ascii [of "asc ''diff --git a/'' @ t"] by (simp add: fromCharCode_def)
    then show ?thesis
      by (simp only: patch_lines.simps bindE.simps patch_step_def startsWith_append if_True)
  qed
  have no: "\<not> startsWith (str q @ t) (str ''diff --git '')"
    if "q \<in> {''index '', ''new file mode '', ''deleted file mode '', ''--- '', ''+++ ''}" for q t
    using that by (auto simp: startsWith_rec)
  have asc: "is_ascii (asc q)" if "q \<in> {''index '', ''new file mode '', ''deleted file mode '', ''--- '', ''+++ '', ''..'', '' '', '' b/''}" for q
    using that by auto
  note head = patch_lines_header [OF asc _ _ _ no] and shown' = header_lines_shown [OF assms] index_lines_shown [OF assms]
  show ?thesis
    using a
    by (cases "qf_change p")
      (simp_all add: top_frames_def mode_frames_def diff asc head shown' top_file_def newFile_def or_else_def
        del: asc_simps str_simps patch_lines.simps latin1_simps)
qed

lemma flushFile_hunk: "pt_hunk (flushFile s) = pt_hunk s" "pt_hunk (flushHunk s) = None"
  by (simp_all add: flushFile_def flushHunk_def split: option.splits)

lemma patch_lines_file:
  assumes "file_ok p"
  shows "patch_lines (file_frames p) s = Inr (with_hunks (top_file p) None (map shown_hunk (qf_hunks p))
    ((flushFile (flushHunk s))\<lparr>pt_current := Some (top_file p)\<rparr>))"
proof -
  let ?t = "(flushFile (flushHunk s))\<lparr>pt_current := Some (top_file p)\<rparr>"
  have "pt_hunk ?t = None" by (simp add: flushFile_hunk)
  then show ?thesis
    using patch_lines_hunks [of ?t "top_file p" None "qf_hunks p"] assms
    by (simp add: file_frames_def patch_lines_top file_ok_def)
qed

lemma flush_with_hunks:
  "pt_files (flushFile (flushHunk (with_hunks f None hs s))) = pt_files s @ [parsed_of (f\<lparr>mf_hunks := mf_hunks f @ hs\<rparr>)]"
  by (cases hs rule: rev_cases) (simp_all add: with_hunks_def flushHunk_def flushFile_def)

lemma top_file_hunks: "mf_hunks (top_file p) = []"
  by (simp add: top_file_def newFile_def)

lemma patch_lines_files:
  "list_all file_ok ps \<Longrightarrow> \<exists>t. patch_lines (concat (map file_frames ps)) s = Inr t \<and>
     pt_files (flushFile (flushHunk t)) = pt_files (flushFile (flushHunk s)) @ map shown_file ps"
proof (induction ps arbitrary: s)
  case (Cons p ps)
  let ?t = "with_hunks (top_file p) None (map shown_hunk (qf_hunks p)) ((flushFile (flushHunk s))\<lparr>pt_current := Some (top_file p)\<rparr>)"
  have "patch_lines (file_frames p) s = Inr ?t"
    using Cons.prems by (simp add: patch_lines_file)
  then show ?case
    using Cons.IH [of ?t] Cons.prems by (simp add: patch_lines_append flush_with_hunks shown_file_def top_file_hunks)
qed simp

definition patch_text :: "byte list list \<Rightarrow> byte list" where
  "patch_text ls = concat (map (\<lambda>l. l @ [0x0a]) ls)"

definition printable :: "nat \<Rightarrow> byte list list \<Rightarrow> bool" where
  "printable maxBytes ls \<longleftrightarrow> list_all (\<lambda>l. 0x0a \<notin> set l \<and> length l \<le> maxBytes) ls"

definition start_state :: patch_state where
  "start_state = \<lparr>pt_current = None, pt_hunk = None, pt_files = []\<rparr>"

lemma parsePatch_within:
  assumes "printable maxBytes ls" and "patch_lines (take maxLines ls) start_state = Inr t"
  shows "parsePatch maxBytes maxLines (patch_text ls) =
    Inr \<lparr>pr_files = pt_files (flushFile (flushHunk t)), pr_truncated = (maxLines < length ls)\<rparr>"
proof -
  have "list_all (\<lambda>l. 0x0a \<notin> set l) ls" and len: "list_all (\<lambda>l. length l \<le> maxBytes) ls"
    using assms(1) by (simp_all add: printable_def list_all_iff)
  then have "splitOnByte 0x0a (patch_text ls) = ls"
    by (simp add: patch_text_def splitOnByte_lines)
  then show ?thesis
    using assms(2) patch_loop_within [OF len, of maxLines 0 start_state] by (auto simp: parsePatch_def start_state_def)
qed


text \<open>
  A cut hunk is kept. When the bound on lines falls inside a hunk the patch is reported as truncated, and its last
  hunk holds the lines before the cut under the counts of the whole hunk.
\<close>

theorem cut_hunk_is_kept:
  assumes "file_ok p" and "qf_hunks p = [h]" and "list_all (\<lambda>l. \<not> ql_noNewline l) (qh_lines h)"
    and "n < length (qh_lines h)" and "printable maxBytes (file_frames p)"
  shows "parsePatch maxBytes (length (top_frames p) + 1 + n) (patch_text (file_frames p)) =
    Inr \<lparr>pr_files = [shown_file (p\<lparr>qf_hunks := [h\<lparr>qh_lines := take n (qh_lines h)\<rparr>]\<rparr>)], pr_truncated = True\<rparr>"
proof -
  let ?h = "h\<lparr>qh_lines := take n (qh_lines h)\<rparr>" and ?p = "p\<lparr>qf_hunks := [h\<lparr>qh_lines := take n (qh_lines h)\<rparr>]\<rparr>"
  have one: "concat (map line_frames ls) = map (\<lambda>l. line_marker (ql_kind l) # ql_bytes l) ls"
    if "list_all (\<lambda>l. \<not> ql_noNewline l) ls" for ls
    using that by (induction ls) (simp_all add: line_frames_def)
  have some: "list_all (\<lambda>l. \<not> ql_noNewline l) (take n (qh_lines h))"
    using assms(3) by (auto simp: list_all_iff dest: in_set_takeD)
  have same: "header_frame ?h = header_frame h" "top_frames ?p = top_frames p"
    by (simp_all add: header_frame_def top_frames_def mode_frames_def old_name_def new_name_def cong: file_change.case_cong)
  have cut: "take (length (top_frames p) + 1 + n) (file_frames p) = file_frames ?p"
    "length (top_frames p) + 1 + n < length (file_frames p)"
    using assms(2,4) same by (simp_all add: file_frames_def hunk_frames_def one [OF assms(3)] one [OF some] take_map)
  have "file_ok ?p"
    using assms(1,2) by (auto simp: file_ok_def hunk_ok_def list_all_iff dest: in_set_takeD)
  then obtain t where t: "patch_lines (file_frames ?p) start_state = Inr t"
    "pt_files (flushFile (flushHunk t)) = pt_files (flushFile (flushHunk start_state)) @ [shown_file ?p]"
    using patch_lines_files [of "[?p]" start_state] by auto
  moreover have "pt_files (flushFile (flushHunk start_state)) = []"
    by (simp add: start_state_def flushHunk_def flushFile_def)
  ultimately show ?thesis
    using parsePatch_within [OF assms(5), of "length (top_frames p) + 1 + n" t] cut by simp
qed

definition dash_line :: "byte list \<Rightarrow> printed_line" where
  "dash_line x = \<lparr>ql_kind = LineRemove, ql_bytes = asc ''-- '' @ x, ql_noNewline = False\<rparr>"

text \<open>
  A removed line that starts with two dashes is lost. Git prints it with three dashes and a space, which is taken
  for a header: the hunk is parsed as if the line were not there, and its text becomes the old path of the file.
\<close>

theorem dashed_line_is_lost:
  assumes "file_ok (p\<lparr>qf_hunks := [h\<lparr>qh_lines := before @ later\<rparr>]\<rparr>)" and "is_ascii x"
    and "f = file_frames (p\<lparr>qf_hunks := [h\<lparr>qh_lines := before @ dash_line x # later\<rparr>]\<rparr>)"
    and "printable maxBytes f" and "length f \<le> maxLines"
  shows "parsePatch maxBytes maxLines (patch_text f) =
    Inr \<lparr>pr_files = [(shown_file (p\<lparr>qf_hunks := [h\<lparr>qh_lines := before @ later\<rparr>]\<rparr>))\<lparr>fh_old := Some (stripPathPrefix (latin1 x))\<rparr>],
         pr_truncated = False\<rparr>"
proof -
  let ?p = "p\<lparr>qf_hunks := [h\<lparr>qh_lines := before @ later\<rparr>]\<rparr>" and ?h = "h\<lparr>qh_lines := before\<rparr>"
  let ?t = "(flushFile (flushHunk start_state))\<lparr>pt_current := Some (top_file ?p)\<rparr>"
  let ?g = "(top_file ?p)\<lparr>fh_old := Some (stripPathPrefix (latin1 x))\<rparr>" and ?k = "(shown_hunk ?h)\<lparr>ph_lines := map shown_line (before @ later)\<rparr>"
  have ok: "hunk_ok ?h" "list_all line_ok later"
    using assms(1) by (simp_all add: file_ok_def hunk_ok_def)
  have frames: "f = top_frames ?p @ hunk_frames ?h @ (asc ''--- '' @ x) # concat (map line_frames later)"
    unfolding assms(3) by (simp add: file_frames_def hunk_frames_def dash_line_def line_frames_def header_frame_def
        top_frames_def mode_frames_def old_name_def new_name_def cong: file_change.case_cong)
  have flat: "flushHunk ?t = ?t"
    by (simp add: flushHunk_def flushFile_def start_state_def)
  have 1: "patch_lines (hunk_frames ?h) ?t = Inr (?t\<lparr>pt_hunk := Some (shown_hunk ?h)\<rparr>)"
    using patch_lines_hunk [OF _ ok(1), of ?t] by (simp add: flat)
  have 2: "patch_lines ((asc ''--- '' @ x) # ls) (?t\<lparr>pt_hunk := Some (shown_hunk ?h)\<rparr>) =
      patch_lines ls (?t\<lparr>pt_hunk := Some (shown_hunk ?h), pt_current := Some ?g\<rparr>)" for ls
    using patch_lines_header [of "''--- ''" x "?t\<lparr>pt_hunk := Some (shown_hunk ?h)\<rparr>" "top_file ?p" ?g ls] assms(2)
    by (simp add: file_line_def startsWith_rec)
  have 3: "patch_lines (concat (map line_frames later)) (?t\<lparr>pt_hunk := Some (shown_hunk ?h), pt_current := Some ?g\<rparr>) =
      Inr (?t\<lparr>pt_current := Some ?g, pt_hunk := Some ?k\<rparr>)"
    using patch_lines_shown [OF _ _ ok(2), of "?t\<lparr>pt_hunk := Some (shown_hunk ?h), pt_current := Some ?g\<rparr>" ?g "shown_hunk ?h"]
    by (simp add: shown_hunk_def)
  have run: "patch_lines f start_state = Inr (?t\<lparr>pt_current := Some ?g, pt_hunk := Some ?k\<rparr>)"
    unfolding frames patch_lines_top [OF assms(1)] patch_lines_append [of "hunk_frames ?h"] 1 bindE.simps 2 3 ..
  have "shown_hunk (h\<lparr>qh_lines := before @ later\<rparr>) = ?k"
    by (simp add: shown_hunk_def header_frame_def)
  then have "pt_files (flushFile (flushHunk (?t\<lparr>pt_current := Some ?g, pt_hunk := Some ?k\<rparr>))) =
      [(shown_file ?p)\<lparr>fh_old := Some (stripPathPrefix (latin1 x))\<rparr>]"
    by (simp add: flushHunk_def flushFile_def start_state_def shown_file_def parsed_of_def top_file_hunks bodyOf_def is_gitlink_def cong: option.case_cong)
  then show ?thesis
    using parsePatch_within [OF assms(4), of maxLines] run assms(5) by simp
qed

text \<open>
  The end of a line that is not UTF-8 is lost. A byte that would lead a sequence longer than what is left of the
  line, such as an accented letter of Latin-1 before its last character, ends the decoding.
\<close>

theorem latin1_tail_is_lost:
  assumes "is_ascii a" and "length xs < 2"
  shows "decodeLine (a @ 0xe9 # xs) = Inr (latin1 a @ [0xfffd])"
  using assms by (simp add: decodeLine_ascii_append lead_def)

text \<open>
  A sequence beyond the last code point is thrown on. A line of well-placed continuation bytes that encodes
  more than U+10FFFF does not become U+FFFD: the whole patch fails with a \<^verbatim>\<open>RangeError\<close>.
\<close>

theorem large_sequence_throws:
  assumes "is_ascii a"
  shows "decodeLine (a @ [0xf4, 0x90, 0x80, 0x80] @ xs) = Inl RangeError"
  using assms by (simp add: decodeLine_ascii_append lead_def continue_with_def fromCodePoint_def)

text \<open>
  A carriage return in the section of a hunk header refuses the patch: the expression of the header ends at it.
\<close>

theorem section_with_return_is_refused:
  assumes "pt_current s = Some f"
  shows "patch_step (str ''@@ -1 +1 @@ '' @ a @ [0x0d] @ b) s = Inl (patch_error ''unrecognised hunk header'')"
proof -
  have "hunk_header (str ''@@ -1 +1 @@ '' @ a @ [0x0d] @ b) = None"
    by (simp add: hunk_header_def hunk_range_def isDigit_def startsWith_rec is_line_terminator_def Let_def)
  then show ?thesis
    using assms by (simp add: patch_step_def file_line_def startsWith_rec)
qed

section \<open>Examples\<close>

definition example_hunk :: printed_hunk where
  "example_hunk = \<lparr>qh_oldStart = 1, qh_oldLines = Some 2, qh_newStart = 1, qh_newLines = None, qh_section = asc ''q'',
     qh_lines = [\<lparr>ql_kind = LineContext, ql_bytes = [0xc3, 0xa9], ql_noNewline = False\<rparr>,
       \<lparr>ql_kind = LineAdd, ql_bytes = asc ''x'', ql_noNewline = False\<rparr>]\<rparr>"

definition example_file :: printed_file where
  "example_file = \<lparr>qf_change = Modified, qf_path = asc ''f'', qf_from = asc ''1a'', qf_to = asc ''2b'', qf_mode = asc ''100644'',
     qf_hunks = [example_hunk]\<rparr>"


lemma cut_hunk_is_kept_witness:
  "parsePatch 80 (length (top_frames example_file) + 1 + 1) (patch_text (file_frames example_file)) =
    Inr \<lparr>pr_files = [shown_file (example_file\<lparr>qf_hunks := [example_hunk\<lparr>qh_lines := take 1 (qh_lines example_hunk)\<rparr>]\<rparr>)], pr_truncated = True\<rparr>"
  by (rule cut_hunk_is_kept) code_simp+

lemma dashed_line_is_lost_witness:
  "parsePatch 80 20 (patch_text (file_frames (example_file\<lparr>qf_hunks := [example_hunk\<lparr>qh_lines := [] @ dash_line (asc ''b'') # []\<rparr>]\<rparr>))) =
    Inr \<lparr>pr_files = [(shown_file (example_file\<lparr>qf_hunks := [example_hunk\<lparr>qh_lines := [] @ []\<rparr>]\<rparr>))\<lparr>fh_old := Some (stripPathPrefix (latin1 (asc ''b'')))\<rparr>],
      pr_truncated = False\<rparr>"
  by (rule dashed_line_is_lost [OF _ _ refl]) code_simp+

lemma latin1_tail_is_lost_witness: "decodeLine (asc ''caf'' @ 0xe9 # [0x0d]) = Inr (latin1 (asc ''caf'') @ [0xfffd])"
  by (rule latin1_tail_is_lost) simp_all

lemma large_sequence_throws_witness: "decodeLine (asc ''x'' @ [0xf4, 0x90, 0x80, 0x80] @ []) = Inl RangeError"
  by (rule large_sequence_throws) simp

lemma section_with_return_is_refused_witness:
  "patch_step (str ''@@ -1 +1 @@ '' @ str ''a'' @ [0x0d] @ str ''b'') (start_state\<lparr>pt_current := Some newFile\<rparr>) =
    Inl (patch_error ''unrecognised hunk header'')"
  by (rule section_with_return_is_refused [of _ newFile]) simp

end
