(* ===== verification/ReadFlows.thy ===== *)
theory ReadFlows
  imports Listings Patch CatFile Submit
begin

text \<open>
  The reading workflows of \<^verbatim>\<open>packages/git-core/src/workflows/\<close>: \<^verbatim>\<open>status.ts\<close>, \<^verbatim>\<open>history.ts\<close>,
  \<^verbatim>\<open>diff.ts\<close> and the reads of \<^verbatim>\<open>repository.ts\<close>, with the parsers of \<^verbatim>\<open>parse/meta.ts\<close> they use.
  As in \<open>GitRun\<close>, a workflow is a program over what Git answers.
\<close>

section \<open>Running a read\<close>

text \<open>
  \<^verbatim>\<open>try { return parse(await runRequired(engine, spec)) }\<close> with its \<^verbatim>\<open>catch\<close>: a failure of Git is thrown
  unchanged, one of the parser is wrapped.
\<close>

definition wrap_failure :: "git_command \<Rightarrow> failure \<Rightarrow> 'a prog" where
  "wrap_failure c e = throwP (case e of WorkflowError w \<Rightarrow> e | OtherError j \<Rightarrow> parseFailure (gc_description c) e)"

definition parsed_run :: "git_command \<Rightarrow> (byte list \<Rightarrow> js_error + 'a) \<Rightarrow> 'a prog" where
  "parsed_run c parse = catchP (bindP (runRequired c) (\<lambda>bytes. liftE (parse bytes))) (wrap_failure c)"

definition workflow_failure :: "string \<Rightarrow> string \<Rightarrow> jsstring \<Rightarrow> failure" where
  "workflow_failure code command message = WorkflowError
     \<lparr>we_code = code, we_exitCode = None, we_command = command, we_diagnostic = [], we_message = message\<rparr>"

text \<open>\<^verbatim>\<open>[...new Set(xs)]\<close>.\<close>

definition unique :: "'a list \<Rightarrow> 'a list" where
  "unique xs = fold (\<lambda>x acc. if x \<in> set acc then acc else acc @ [x]) xs []"

section \<open>Layout\<close>

record layout_facts =
  lf_gitDir :: jsstring
  lf_commonDir :: jsstring
  lf_topLevel :: "jsstring option"
  lf_bare :: bool
  lf_shallow :: bool
  lf_objectFormat :: object_format

definition parseLayoutOutput :: "byte list \<Rightarrow> bool \<Rightarrow> layout_facts prog" where
  "parseLayoutOutput bytes topLevelRequested =
     bindP (decodeAsciiText bytes ''rev-parse layout'') (\<lambda>text.
     let lines = filter (\<lambda>l. l \<noteq> []) (splitOn 0x0a text); expected = (if topLevelRequested then 6 else 5) in
     if length lines \<noteq> expected then
       throwP (workflow_failure ''GitOutputIncomplete'' ''rev-parse layout''
         (str ''expected '' @ decimal expected @ str '' layout lines but found '' @ decimal (length lines)))
     else let k = (if topLevelRequested then 3 else 2) in
       ret \<lparr>lf_gitDir = lines ! 0, lf_commonDir = lines ! 1,
            lf_topLevel = (if topLevelRequested then Some (lines ! 2) else None), lf_bare = (lines ! k = str ''true''),
            lf_shallow = (lines ! (k + 2) = str ''true''),
            lf_objectFormat = (if lines ! (k + 1) = str ''sha256'' then Sha256 else Sha1)\<rparr>)"

definition readLayout :: "jsstring \<Rightarrow> layout_facts prog" where
  "readLayout cwd =
     catchP (bindP (runRequired (planRepositoryLayout cwd False)) (\<lambda>b. parseLayoutOutput b True))
       (\<lambda>e. case e of
          WorkflowError w \<Rightarrow>
            if we_code w \<noteq> ''GitCommandFailed'' then throwP e
            else bindP (runRequired (planRepositoryLayout cwd True)) (\<lambda>bytes.
                 bindP (parseLayoutOutput bytes False) (\<lambda>layout.
                 if lf_bare layout then ret layout else throwP e))
        | OtherError j \<Rightarrow> throwP e)"

section \<open>Status\<close>

definition headFromStatusBranch :: "status_branch \<Rightarrow> head_facts" where
  "headFromStatusBranch b =
     (if br_initial b then \<lparr>hf_born = False, hf_branchName = br_head b, hf_oid = None, hf_detached = False\<rparr>
      else \<lparr>hf_born = True, hf_branchName = (if br_detached b then None else br_head b), hf_oid = br_oid b,
            hf_detached = br_detached b\<rparr>)"

record worktree_status =
  ws_layout :: layout_facts
  ws_head :: head_facts
  ws_upstream :: "(jsstring \<times> jsnumber \<times> jsnumber) option"
  ws_operationInProgress :: "jsstring option"
  ws_records :: "status_record list"
  ws_stashCount :: "jsnumber option"

definition readStatusFacts :: "jsstring \<Rightarrow> layout_facts \<Rightarrow> jsstring list \<Rightarrow> bool \<Rightarrow> worktree_status prog" where
  "readStatusFacts cwd layout operationMarkers includeIgnored =
     (let c = planStatus cwd includeIgnored False in
      bindP (parsed_run c (\<lambda>b. parseStatus b None)) (\<lambda>parsed.
      if \<not> br_seen (ss_branch parsed) then
        throwP (workflow_failure ''GitOutputIncomplete'' (gc_description c) (str ''status output carried no branch headers''))
      else ret \<lparr>ws_layout = layout, ws_head = headFromStatusBranch (ss_branch parsed),
             ws_upstream = (case (ss_upstream parsed, ss_aheadBehind parsed) of
                (Some u, Some (a, b)) \<Rightarrow> Some (u, a, b) | _ \<Rightarrow> None),
             ws_operationInProgress = operationFromMarkers operationMarkers,
             ws_records = ss_records parsed, ws_stashCount = ss_stashCount parsed\<rparr>))"

section \<open>Refs, worktrees, submodules and stashes\<close>

record remote_facts =
  rm_name :: jsstring
  rm_fetchUrl :: jsstring
  rm_pushUrl :: "jsstring option"

definition add_remote :: "remote_url \<Rightarrow> (jsstring \<times> remote_facts) list \<Rightarrow> (jsstring \<times> remote_facts) list" where
  "add_remote r byName =
     (let existing = map_of byName (ru_name r)
      in AList.update (ru_name r)
           (if \<not> ru_push r
            then \<lparr>rm_name = ru_name r, rm_fetchUrl = ru_url r, rm_pushUrl = Option.bind existing rm_pushUrl\<rparr>
            else \<lparr>rm_name = ru_name r, rm_fetchUrl = (case existing of None \<Rightarrow> ru_url r | Some e \<Rightarrow> rm_fetchUrl e),
                  rm_pushUrl = Some (ru_url r)\<rparr>) byName)"

definition readRefFacts :: "jsstring \<Rightarrow> nat option \<Rightarrow> (ref_record list \<times> remote_facts list) prog" where
  "readRefFacts cwd maxEntries =
     bindP (parsed_run (planForEachRef cwd) (parseForEachRef (case maxEntries of None \<Rightarrow> refListMaxEntries | Some n \<Rightarrow> n))) (\<lambda>refs.
     bindP (runRequired (planRemotes cwd)) (\<lambda>remoteBytes.
     bindP (catchP (liftE (parseRemoteList remoteBytes)) (\<lambda>e. throwP (parseFailure (gc_description (planRemotes cwd)) e))) (\<lambda>records.
     ret (refs, map snd (fold add_remote records [])))))"

definition peeled :: "ref_record \<Rightarrow> jsstring" where
  "peeled r = (case rr_peeledOid r of None \<Rightarrow> rr_oid r | Some p \<Rightarrow> p)"

definition refs_under :: "string \<Rightarrow> ref_record list \<Rightarrow> ref_record list" where
  "refs_under space refs = filter (\<lambda>r. startsWith (rr_refName r) (str space)) refs"

fun tip_loop :: "nat \<Rightarrow> jsstring list \<Rightarrow> jsstring list \<Rightarrow> jsstring list" where
  "tip_loop limit [] result = result"
| "tip_loop limit (oid # oids) result =
     (if oid \<in> set result then tip_loop limit oids result
      else if limit \<le> length (result @ [oid]) then result @ [oid]
      else tip_loop limit oids (result @ [oid]))"

definition tipOids :: "ref_record list \<Rightarrow> nat \<Rightarrow> jsstring list" where
  "tipOids refs limit =
     tip_loop limit (map peeled (sort_key rr_refName (refs_under ''refs/heads/'' refs @ refs_under ''refs/remotes/'' refs))) []"

definition readWorktreeFacts :: "jsstring \<Rightarrow> listed_worktree list prog" where
  "readWorktreeFacts cwd = parsed_run (planWorktreeList cwd) parseWorktreeList"

record submodule_facts =
  sm_configured :: "submodule_config list"
  sm_gitlinks :: "index_line list"

definition readSubmoduleFacts :: "jsstring \<Rightarrow> bool \<Rightarrow> submodule_facts prog" where
  "readSubmoduleFacts cwd hasGitmodulesFile =
     (let c = planSubmoduleConfig cwd in
      bindP (if \<not> hasGitmodulesFile then ret []
             else bindP (runMeaningfulExit c [1]) (\<lambda>bytes. case bytes of
                 None \<Rightarrow> ret []
               | Some b \<Rightarrow> catchP
                   (bindP (liftE (parseConfigEntries b)) (\<lambda>es. let configured = submodulesFromConfig es in
                    bindP (assertSafeSubmoduleUrls configured (gc_description c)) (\<lambda>_. ret configured)))
                   (\<lambda>e. throwP (parseFailure (gc_description c) e)))) (\<lambda>configured.
      bindP (parsed_run (planLsFilesStage cwd) parseLsFilesStage) (\<lambda>entries.
      ret \<lparr>sm_configured = configured, sm_gitlinks = filter ix_gitlink entries\<rparr>)))"

record tree_entry =
  te_mode :: jsstring
  te_objectType :: jsstring
  te_oid :: jsstring
  te_pathBytes :: "byte list"

definition parse_tree_line :: "byte list \<Rightarrow> js_error + tree_entry" where
  "parse_tree_line frame =
     (case indexOf frame 0x09 of
        Some (Suc i) \<Rightarrow> bindE (decode_ascii_or ''ls-tree -z'' (take (Suc i) frame)) (\<lambda>header.
          case splitOn 0x20 header of
            [mode, objectType, oid] \<Rightarrow>
              Inr \<lparr>te_mode = mode, te_objectType = objectType, te_oid = oid, te_pathBytes = drop (Suc (Suc i)) frame\<rparr>
          | _ \<Rightarrow> Inl (GitOutputParseError ''ls-tree -z'' ''expected exactly three space-separated header fields'' None))
      | _ \<Rightarrow> Inl (GitOutputParseError ''ls-tree -z'' ''expected <mode> <type> <oid> and <path> per record'' None))"

definition parseLsTree :: "byte list \<Rightarrow> js_error + tree_entry list" where
  "parseLsTree bytes =
     bindE (splitNulFrames bytes ''ls-tree -z'' True) (\<lambda>frames. mapE parse_tree_line (filter (\<lambda>f. f \<noteq> []) frames))"

definition readRecordedGitlinkOid :: "jsstring \<Rightarrow> jsstring \<Rightarrow> jsstring \<Rightarrow> jsstring option prog" where
  "readRecordedGitlinkOid cwd revision path =
     (let c = planLsTreeEntry cwd revision path in
      bindP (runRequired c) (\<lambda>bytes.
      bindP (catchP (liftE (parseLsTree bytes)) (\<lambda>e. throwP (parseFailure (gc_description c) e))) (\<lambda>entries.
      case entries of
        [] \<Rightarrow> ret None
      | e # _ \<Rightarrow>
          if te_objectType e \<noteq> str ''commit'' \<or> te_mode e \<noteq> str ''160000'' then
            throwP (workflow_failure ''ObjectMissing'' (gc_description c)
              (path @ str '' is a '' @ te_objectType e @ str '' (mode '' @ te_mode e @ str ''), not a gitlink''))
          else ret (Some (te_oid e)))))"

definition matchAsciiPrefix :: "byte list \<Rightarrow> string list \<Rightarrow> nat option" where
  "matchAsciiPrefix bytes candidates = map_option length (find (\<lambda>c. startsWith bytes (asc c)) candidates)"

definition indexOfAscii :: "byte list \<Rightarrow> string \<Rightarrow> nat \<Rightarrow> nat option" where
  "indexOfAscii bytes needle start =
     find (\<lambda>i. i + length needle \<le> length bytes \<and> startsWith (drop i bytes) (asc needle)) [start..<length bytes]"

definition splitStashSubject :: "byte list \<Rightarrow> byte list option \<times> byte list" where
  "splitStashSubject subject =
     (case matchAsciiPrefix subject [''On '', ''WIP on ''] of
        None \<Rightarrow> (None, subject)
      | Some n \<Rightarrow>
          (case indexOfAscii subject '': '' n of
             None \<Rightarrow> (None, subject)
           | Some colon \<Rightarrow> (Some (subarray subject n colon), drop (colon + 2) subject)))"

record stash_facts =
  st_locator :: jsstring
  st_oid :: jsstring
  st_messageBytes :: "byte list"
  st_branchBytes :: "byte list option"
  st_createdAtSeconds :: jsnumber

definition stash_of :: "reflog_record \<Rightarrow> stash_facts" where
  "stash_of r = (let (branch, message) = splitStashSubject (rg_subjectBytes r)
     in \<lparr>st_locator = rg_locator r, st_oid = rg_oid r, st_messageBytes = message, st_branchBytes = branch,
         st_createdAtSeconds = rg_timestamp r\<rparr>)"

definition readStashFacts :: "jsstring \<Rightarrow> nat option \<Rightarrow> stash_facts list prog" where
  "readStashFacts cwd maxEntries =
     (let c = planStashList cwd in
      bindP (runMeaningfulExit c [1, 128]) (\<lambda>bytes. case bytes of
        None \<Rightarrow> ret []
      | Some b \<Rightarrow>
          if b = [] then ret []
          else bindP (catchP (liftE (parseReflog (case maxEntries of None \<Rightarrow> stashListMaxEntries | Some n \<Rightarrow> n) b))
                 (\<lambda>e. throwP (parseFailure (gc_description c) e)))
               (\<lambda>records. ret (map stash_of records))))"

end
