(* ===== verification/HistoryFlows.thy ===== *)
theory HistoryFlows
  imports ReadFlows
begin

text \<open>
  \<^verbatim>\<open>packages/git-core/src/workflows/history.ts\<close> and \<^verbatim>\<open>diff.ts\<close>, with the parsers of the topology and of object
  checks of \<^verbatim>\<open>parse/meta.ts\<close>.
\<close>

section \<open>Topology and object checks\<close>

definition TOPOLOGY_FORMAT :: string where "TOPOLOGY_FORMAT = ''rev-list --topo-order --parents''"

record topology_row =
  tr_oid :: jsstring
  tr_parents :: "jsstring list"
  tr_boundary :: bool

definition topology_error :: "string \<Rightarrow> js_error" where
  "topology_error m = GitOutputParseError TOPOLOGY_FORMAT m None"

definition parse_topology_line :: "byte list \<Rightarrow> js_error + topology_row" where
  "parse_topology_line line =
     bindE (decode_ascii_or TOPOLOGY_FORMAT line) (\<lambda>text.
     let boundary = startsWith text (str ''-''); pieces = splitOn 0x20 (if boundary then drop 1 text else text) in
     if hd pieces = [] then Inl (topology_error ''a row had no object name'')
     else if list_ex (\<lambda>p. p = []) (tl pieces) then Inl (topology_error ''a row contained an empty parent field'')
     else Inr \<lparr>tr_oid = hd pieces, tr_parents = tl pieces, tr_boundary = boundary\<rparr>)"

definition nonempty_lines :: "byte list \<Rightarrow> byte list list" where
  "nonempty_lines bytes = filter (\<lambda>l. l \<noteq> []) (splitOnByte 0x0a bytes)"

definition parseRevListTopology :: "byte list \<Rightarrow> js_error + topology_row list" where
  "parseRevListTopology bytes = mapE parse_topology_line (nonempty_lines bytes)"

text \<open>One line of \<^verbatim>\<open>--batch-check\<close>: the name, and whether it is missing.\<close>

definition presence_line :: "byte list \<Rightarrow> js_error + jsstring \<times> bool" where
  "presence_line line =
     bindE (decode_ascii_or ''cat-file --batch-check'' line) (\<lambda>text.
     Inr (if endsWith text (str '' missing'') then (take (length text - 8) text, True) else (hd (splitOn 0x20 text), False)))"

record object_presence =
  op_present :: "jsstring list"
  op_missing :: "jsstring list"

definition parseObjectPresence :: "byte list \<Rightarrow> js_error + object_presence" where
  "parseObjectPresence bytes =
     bindE (mapE presence_line (nonempty_lines bytes)) (\<lambda>ls.
     Inr \<lparr>op_present = map fst (filter (\<lambda>l. \<not> snd l) ls), op_missing = map fst (filter snd ls)\<rparr>)"

definition disambiguation_error :: "string \<Rightarrow> js_error" where
  "disambiguation_error m = GitOutputParseError ''object disambiguation'' m None"

fun disambiguation_loop :: "nat \<Rightarrow> byte list list \<Rightarrow> jsstring list \<Rightarrow> js_error + jsstring list" where
  "disambiguation_loop maxEntries [] oids = Inr (unique oids)"
| "disambiguation_loop maxEntries (line # lines) oids =
     (if line = [] then disambiguation_loop maxEntries lines oids
      else bindE (decode_ascii_or ''object disambiguation'' line) (\<lambda>oid.
        if \<not> isObjectName oid then Inl (disambiguation_error ''invalid full object ID'')
        else if maxEntries \<le> length oids then Inl (disambiguation_error ''candidate count exceeds bound'')
        else disambiguation_loop maxEntries lines (oids @ [oid])))"

definition parseDisambiguatedOids :: "byte list \<Rightarrow> nat \<Rightarrow> js_error + jsstring list" where
  "parseDisambiguatedOids bytes maxEntries = disambiguation_loop maxEntries (splitOnByte 0x0a bytes) []"

definition candidate_error :: "string \<Rightarrow> js_error" where
  "candidate_error m = GitOutputParseError ''candidate object types'' m None"

definition candidate_line :: "byte list \<times> jsstring \<Rightarrow> js_error + jsstring list" where
  "candidate_line lr =
     bindE (decode_ascii_or ''candidate object types'' (fst lr)) (\<lambda>text.
     case splitOn 0x20 text of
       [oid, ty] \<Rightarrow>
         if oid \<noteq> snd lr \<or> ty \<notin> set [str ''commit'', str ''tree'', str ''blob'', str ''tag''] then Inl (candidate_error ''invalid object type response'')
         else Inr (if ty = str ''commit'' then [oid] else [])
     | _ \<Rightarrow> Inl (candidate_error ''invalid object type response''))"

definition parseCommitCandidates :: "byte list \<Rightarrow> jsstring list \<Rightarrow> js_error + jsstring list" where
  "parseCommitCandidates bytes requested =
     (let lines = nonempty_lines bytes
      in if length lines \<noteq> length requested then Inl (candidate_error ''incomplete object type response'')
         else bindE (mapE candidate_line (zip lines requested)) (\<lambda>cs. Inr (concat cs)))"

section \<open>Commit bodies\<close>

record commit_body =
  cb_parents :: "jsstring list"
  cb_treeOid :: jsstring
  cb_subjectBytes :: "byte list"
  cb_messageBytes :: "byte list"
  cb_author :: commit_identity
  cb_committer :: commit_identity
  cb_encoding :: "jsstring option"
  cb_signed :: bool

definition firstLineBytes :: "byte list \<Rightarrow> byte list" where
  "firstLineBytes bytes = takeWhile (\<lambda>b. b \<noteq> 0x0a) bytes"

definition commitBodyFacts :: "byte list \<Rightarrow> js_error + commit_body" where
  "commitBodyFacts body =
     bindE (parseCommitObject body) (\<lambda>parsed.
     Inr \<lparr>cb_parents = co_parentOids parsed, cb_treeOid = co_treeOid parsed,
          cb_subjectBytes = firstLineBytes (co_messageBytes parsed), cb_messageBytes = co_messageBytes parsed,
          cb_author = co_author parsed, cb_committer = co_committer parsed, cb_encoding = co_encoding parsed,
          cb_signed = co_signed parsed\<rparr>)"

fun type_name :: "object_type \<Rightarrow> string" where
  "type_name CommitType = ''commit''"
| "type_name TreeType = ''tree''"
| "type_name BlobType = ''blob''"
| "type_name TagType = ''tag''"

fun body_loop :: "string \<Rightarrow> cat_entry list \<Rightarrow> commit_body list \<Rightarrow> jsstring list \<Rightarrow> (commit_body list \<times> jsstring list) prog" where
  "body_loop command [] bodies missing = ret (bodies, missing)"
| "body_loop command (CatFileMissing name # es) bodies missing = body_loop command es bodies (missing @ [name])"
| "body_loop command (CatFileObject oid ty body # es) bodies missing =
     (if ty \<noteq> CommitType then
        throwP (workflow_failure ''ObjectMissing'' command (oid @ str '' is a '' @ str (type_name ty) @ str '', not a commit''))
      else bindP (liftE (commitBodyFacts body)) (\<lambda>b. body_loop command es (bodies @ [b]) missing))"

text \<open>One push of the whole output, then \<^verbatim>\<open>finish\<close>.\<close>

definition decode_objects :: "byte list \<Rightarrow> js_error + cat_entry list" where
  "decode_objects bytes =
     bindE (cat_push newCatFileDecoder bytes) (\<lambda>(s, es). bindE (cat_finish s) (\<lambda>_. Inr es))"

definition readCommitBodies :: "jsstring \<Rightarrow> jsstring list \<Rightarrow> (commit_body list \<times> jsstring list) prog" where
  "readCommitBodies cwd oids =
     (if oids = [] then ret ([], [])
      else bindP (liftE (planCatFileBatch cwd oids)) (\<lambda>c.
           bindP (parsed_run c decode_objects) (\<lambda>entries. body_loop (gc_description c) entries [] [])))"

section \<open>One page\<close>

definition readTopologyPage :: "jsstring \<Rightarrow> rev_list_options \<Rightarrow> topology_row list prog" where
  "readTopologyPage cwd options =
     bindP (liftE (planRevList cwd options)) (\<lambda>c. parsed_run c parseRevListTopology)"

definition unconfirmed :: "jsstring list \<Rightarrow> object_presence \<Rightarrow> jsstring list" where
  "unconfirmed bounded p =
     filter (\<lambda>oid. oid \<notin> set (op_present p @ op_missing p) \<or> oid \<in> set (op_missing p)) bounded"

definition findMissingObjects :: "jsstring \<Rightarrow> jsstring list \<Rightarrow> jsstring list prog" where
  "findMissingObjects cwd oids =
     (if unique oids = [] then ret []
      else let bounded = take refListMaxEntries (unique oids) in
        bindP (liftE (planCatFileExists cwd bounded)) (\<lambda>c.
        bindP (runRequired c) (\<lambda>bytes.
        catchP (bindP (liftE (parseObjectPresence bytes)) (\<lambda>p. ret (unconfirmed bounded p))) (wrap_failure c))))"

definition add_decoration :: "ref_record \<Rightarrow> (jsstring \<times> jsstring list) list \<Rightarrow> (jsstring \<times> jsstring list) list" where
  "add_decoration r m =
     AList.update (peeled r) ((case map_of m (peeled r) of None \<Rightarrow> [] | Some names \<Rightarrow> names) @ [rr_refName r]) m"

definition decorationMap :: "ref_record list \<Rightarrow> (jsstring \<times> jsstring list) list" where
  "decorationMap refs = fold add_decoration refs []"

record commit_facts =
  cm_body :: commit_body
  cm_oid :: jsstring
  cm_parents :: "jsstring list"
  cm_boundary :: bool
  cm_missingParents :: "jsstring list"
  cm_refNames :: "jsstring list"

record history_page =
  hp_rows :: "topology_row list"
  hp_commits :: "commit_facts list"
  hp_missingObjects :: "jsstring list"
  hp_tips :: "jsstring list"

text \<open>\<^verbatim>\<open>new Map(rows.map((row, index) => [row.oid, bodies[index]]))\<close>: a body may be undefined.\<close>

definition body_map :: "topology_row list \<Rightarrow> commit_body list \<Rightarrow> (jsstring \<times> commit_body option) list" where
  "body_map rows bodies = fold (\<lambda>(i, row). AList.update (tr_oid row) (at bodies i)) (zip [0..<length rows] rows) []"

definition body_of_row :: "(jsstring \<times> commit_body option) list \<Rightarrow> topology_row \<Rightarrow> commit_body option" where
  "body_of_row byOid row = Option.bind (map_of byOid (tr_oid row)) id"

definition parents_of :: "(jsstring \<times> commit_body option) list \<Rightarrow> topology_row \<Rightarrow> jsstring list" where
  "parents_of byOid row = (case body_of_row byOid row of Some b \<Rightarrow> cb_parents b | None \<Rightarrow> tr_parents row)"

definition commit_of_row ::
  "(jsstring \<times> commit_body option) list \<Rightarrow> jsstring list \<Rightarrow> (jsstring \<times> jsstring list) list \<Rightarrow> topology_row \<Rightarrow> failure + commit_facts" where
  "commit_of_row byOid absent decoration row =
     (case body_of_row byOid row of
        None \<Rightarrow> Inl (workflow_failure ''ObjectMissing'' ''cat-file --batch''
          (str ''the page named '' @ tr_oid row @ str '' but no body came back for it''))
      | Some body \<Rightarrow>
          (let parents = parents_of byOid row; gone = filter (\<lambda>p. p \<in> set absent) parents
           in Inr \<lparr>cm_body = body, cm_oid = tr_oid row, cm_parents = parents,
                cm_boundary = (tr_boundary row \<or> gone \<noteq> []), cm_missingParents = gone,
                cm_refNames = (case map_of decoration (tr_oid row) of None \<Rightarrow> [] | Some names \<Rightarrow> names)\<rparr>))"

definition outside_parents :: "(jsstring \<times> commit_body option) list \<Rightarrow> topology_row list \<Rightarrow> jsstring list" where
  "outside_parents byOid rows = filter (\<lambda>p. p \<notin> set (map tr_oid rows)) (concat (map (parents_of byOid) rows))"

definition readHistoryPage :: "jsstring \<Rightarrow> rev_list_options \<Rightarrow> (jsstring \<times> jsstring list) list \<Rightarrow> history_page prog" where
  "readHistoryPage cwd options decoration =
     bindP (readTopologyPage cwd options) (\<lambda>rows.
     bindP (readCommitBodies cwd (map tr_oid rows)) (\<lambda>(bodies, missingObjects).
     let byOid = body_map rows bodies; outside = outside_parents byOid rows in
     bindP (if outside = [] then ret [] else findMissingObjects cwd outside) (\<lambda>absent.
     bindP (Done (mapE (commit_of_row byOid absent decoration) rows)) (\<lambda>commits.
     ret \<lparr>hp_rows = rows, hp_commits = commits, hp_missingObjects = missingObjects, hp_tips = rl_tips options\<rparr>))))"

section \<open>Locating a commit\<close>

datatype located = NoCommit | OneCommit jsstring | AmbiguousCommit

definition located_of :: "jsstring list \<Rightarrow> located" where
  "located_of commits = (case commits of [] \<Rightarrow> NoCommit | [oid] \<Rightarrow> OneCommit oid | _ \<Rightarrow> AmbiguousCommit)"

definition resolveCommitPrefix :: "jsstring \<Rightarrow> jsstring \<Rightarrow> located prog" where
  "resolveCommitPrefix cwd abbrev =
     bindP (liftE (planDisambiguateCommitPrefix cwd abbrev)) (\<lambda>c.
     catchP
       (bindP (runRequired c) (\<lambda>bytes.
        bindP (liftE (parseDisambiguatedOids bytes refListMaxEntries)) (\<lambda>candidates.
        if candidates = [] then ret NoCommit
        else bindP (liftE (planCatFileObjectTypes cwd candidates)) (\<lambda>check.
             bindP (runRequired check) (\<lambda>answer.
             bindP (liftE (parseCommitCandidates answer candidates)) (\<lambda>commits. ret (located_of commits)))))))
       (wrap_failure c))"

definition isCommitReachableFrom :: "jsstring \<Rightarrow> jsstring \<Rightarrow> jsstring \<Rightarrow> bool prog" where
  "isCommitReachableFrom cwd ancestorOid descendantOid =
     bindP (liftE (planIsCommitAncestor cwd ancestorOid descendantOid)) (\<lambda>c.
     bindP (runMeaningfulExit c [1]) (\<lambda>r. ret (r \<noteq> None)))"

section \<open>Diffs\<close>

datatype diff_kind = DiffUnstaged | DiffStaged | DiffUntracked | DiffCommit | DiffRange

record diff_scope =
  ds_kind :: diff_kind
  ds_oid :: "jsstring option"
  ds_from :: "jsstring option"
  ds_to :: "jsstring option"

record diff_args =
  da_cached :: bool
  da_from :: "jsstring option"
  da_to :: "jsstring option"

definition diffArguments :: "diff_scope \<Rightarrow> failure + diff_args" where
  "diffArguments scope =
     (case ds_kind scope of
        DiffStaged \<Rightarrow> Inr \<lparr>da_cached = True, da_from = None, da_to = None\<rparr>
      | DiffCommit \<Rightarrow>
          (case ds_oid scope of
             None \<Rightarrow> Inl (workflow_failure ''NoRevisionFound'' ''diff'' (str ''a commit diff requires an object name''))
           | Some oid \<Rightarrow> Inr \<lparr>da_cached = False, da_from = Some (oid @ str ''^!''), da_to = None\<rparr>)
      | DiffRange \<Rightarrow>
          (case (ds_from scope, ds_to scope) of
             (Some a, Some b) \<Rightarrow> Inr \<lparr>da_cached = False, da_from = Some a, da_to = Some b\<rparr>
           | _ \<Rightarrow> Inl (workflow_failure ''NoRevisionFound'' ''diff'' (str ''a range diff requires both endpoints'')))
      | DiffUnstaged \<Rightarrow> Inr \<lparr>da_cached = False, da_from = None, da_to = None\<rparr>
      | DiffUntracked \<Rightarrow> Inr \<lparr>da_cached = False, da_from = None, da_to = None\<rparr>)"

record diff_file =
  df_pathBytes :: "byte list"
  df_oldPathBytes :: "byte list option"
  df_changeKind :: change_kind
  df_isBinary :: bool
  df_isSubmodule :: bool
  df_insertions :: "jsnumber option"
  df_deletions :: "jsnumber option"
  df_modes :: "(jsstring option \<times> jsstring option) option"
  df_patch :: "parsed_file option"

record diff_facts =
  dx_files :: "diff_file list"
  dx_truncated :: bool
  dx_limitations :: "jsstring list"

record diff_input =
  di_cwd :: jsstring
  di_scope :: diff_scope
  di_patchPaths :: "jsstring list option"
  di_maxBytesPerPatch :: "nat option"
  di_includePatch :: "bool option"

type_synonym patch_table = "(jsstring \<times> parsed_file) list \<times> jsstring list"

fun patch_reads :: "diff_input \<Rightarrow> diff_args \<Rightarrow> jsstring list \<Rightarrow> patch_table \<Rightarrow> patch_table prog" where
  "patch_reads i args [] t = ret t"
| "patch_reads i args (path # paths) (patches, limitations) =
     (let c = planDiffPatchForPath (di_cwd i) path (da_cached args) (da_from args) (da_to args) in
      bindP (runRequired c) (\<lambda>bytes.
      bindP (catchP (liftE (parsePatch (case di_maxBytesPerPatch i of None \<Rightarrow> patchMaxBytesPerFile | Some n \<Rightarrow> n) patchMaxLinesPerFile bytes))
               (\<lambda>e. throwP (parseFailure (gc_description c) e))) (\<lambda>parsed.
      patch_reads i args paths
        ((case pr_files parsed of [] \<Rightarrow> patches | f # _ \<Rightarrow> AList.update path f patches),
         (if pr_truncated parsed then limitations @ [str ''the patch for '' @ path @ str '' was truncated by the size bound'']
          else limitations)))))"

definition is_submodule_body :: "file_patch_body \<Rightarrow> bool" where
  "is_submodule_body b = (case b of SubmoduleBody _ _ \<Rightarrow> True | _ \<Rightarrow> False)"

definition diff_file_of :: "numstat_entry list \<Rightarrow> (jsstring \<times> parsed_file) list \<Rightarrow> name_status_entry \<Rightarrow> diff_file" where
  "diff_file_of stats patches change =
     (let statsByPath = fold (\<lambda>s. AList.update (pathKey (nu_path s)) s) stats [];
          stat = map_of statsByPath (pathKey (ns_path change)); patch = map_of patches (latin1 (ns_path change))
      in \<lparr>df_pathBytes = ns_path change, df_oldPathBytes = ns_originalPath change, df_changeKind = ns_changeKind change,
          df_isBinary = (case stat of None \<Rightarrow> False | Some s \<Rightarrow> nu_binary s),
          df_isSubmodule = (case patch of None \<Rightarrow> False | Some p \<Rightarrow> is_submodule_body (pf_body p)),
          df_insertions = Option.bind stat nu_insertions, df_deletions = Option.bind stat nu_deletions,
          df_modes = map_option (\<lambda>p. (fh_oldMode p, fh_newMode p)) patch, df_patch = patch\<rparr>)"

definition readDiffFacts :: "diff_input \<Rightarrow> diff_facts prog" where
  "readDiffFacts i =
     bindP (Done (diffArguments (di_scope i))) (\<lambda>args.
     bindP (parsed_run (planDiffNameStatus (di_cwd i) (da_cached args) (da_from args) (da_to args)) (parseNameStatus refListMaxEntries)) (\<lambda>changes.
     bindP (parsed_run (planDiffNumstat (di_cwd i) (da_cached args) (da_from args) (da_to args)) (parseNumstat refListMaxEntries)) (\<lambda>stats.
     bindP (case di_patchPaths i of
              None \<Rightarrow> ret ([], [])
            | Some paths \<Rightarrow> if di_includePatch i = Some False then ret ([], []) else patch_reads i args paths ([], [])) (\<lambda>(patches, limitations).
     ret \<lparr>dx_files = map (diff_file_of stats patches) changes, dx_truncated = (limitations \<noteq> []), dx_limitations = limitations\<rparr>))))"

end
