(* ===== verification/ReadRules.thy ===== *)
theory ReadRules
  imports HistoryFlows
begin

text \<open>
  What the reading workflows do and answer: every command they run only reads, a page of history is made of the
  objects that answered for its rows, parents Git did not confirm are marked; and the answers that are refused or
  lost although the repository is in order.
\<close>

section \<open>Reads only read\<close>

definition subcommand :: "jsstring list \<Rightarrow> jsstring option" where
  "subcommand argv = (case dropWhile (\<lambda>w. startsWith w (str ''--'')) argv of [] \<Rightarrow> None | w # _ \<Rightarrow> Some w)"

definition reading_words :: "jsstring list" where
  "reading_words = words [''status'', ''rev-parse'', ''symbolic-ref'', ''rev-list'', ''cat-file'', ''for-each-ref'', ''worktree'',
     ''ls-files'', ''reflog'', ''diff'', ''remote'', ''config'', ''ls-tree'', ''merge-base'']"

text \<open>
  A command of a read: of the class without side effects, with a subcommand that reads; a diff never runs a program the
  repository names, and a status never takes the lock of the index.
\<close>

definition only_reads :: "git_command \<Rightarrow> bool" where
  "only_reads c \<longleftrightarrow> isReadOnlySpec c \<and> (case subcommand (gc_argv c) of None \<Rightarrow> False | Some w \<Rightarrow> w \<in> set reading_words \<and>
     (w = str ''diff'' \<longrightarrow> str ''--no-ext-diff'' \<in> set (gc_argv c) \<and> str ''--no-textconv'' \<in> set (gc_argv c)) \<and>
     (w = str ''status'' \<longrightarrow> str ''--no-optional-locks'' \<in> set (gc_argv c)) \<and>
     (w = str ''worktree'' \<longrightarrow> gc_argv c = words [''worktree'', ''list'', ''--porcelain'', ''-z'']) \<and>
     (w = str ''remote'' \<longrightarrow> gc_argv c = words [''remote'', ''-v'']) \<and>
     (w = str ''config'' \<longrightarrow> str ''--get-regexp'' \<in> set (gc_argv c)) \<and>
     (w = str ''reflog'' \<longrightarrow> str ''show'' \<in> set (gc_argv c)))"

definition reads_log :: "git_log \<Rightarrow> bool" where
  "reads_log h \<longleftrightarrow> list_all (\<lambda>(c, r). only_reads c) h"

definition reads :: "'a prog \<Rightarrow> bool" where
  "reads p \<longleftrightarrow> (\<forall>h. reads_log h \<longrightarrow> every (\<lambda>h' x. reads_log h') h p)"

named_theorems reads

lemma reads_Done [reads]: "reads (Done x)"
  by (simp add: reads_def)

lemma reads_bind [reads]: "reads p \<Longrightarrow> (\<And>x. reads (f x)) \<Longrightarrow> reads (bindP p f)"
  by (auto simp: reads_def split: sum.split intro: every_mono)

lemma reads_catch [reads]: "reads p \<Longrightarrow> (\<And>e. reads (f e)) \<Longrightarrow> reads (catchP p f)"
  by (auto simp: reads_def split: sum.split intro: every_mono)

lemma reads_lifted [reads]: "reads (liftE m)"
  by (simp add: reads_def)

lemma reads_if [reads]: "(b \<Longrightarrow> reads p) \<Longrightarrow> (\<not> b \<Longrightarrow> reads q) \<Longrightarrow> reads (if b then p else q)"
  by simp

lemma reads_option [reads]: "(x = None \<Longrightarrow> reads p) \<Longrightarrow> (\<And>y. x = Some y \<Longrightarrow> reads (f y)) \<Longrightarrow> reads (case x of None \<Rightarrow> p | Some y \<Rightarrow> f y)"
  by (cases x) auto

lemma reads_list [reads]: "(x = [] \<Longrightarrow> reads p) \<Longrightarrow> (\<And>y ys. x = y # ys \<Longrightarrow> reads (f y ys)) \<Longrightarrow> reads (case x of [] \<Rightarrow> p | y # ys \<Rightarrow> f y ys)"
  by (cases x) auto

lemma reads_prod [reads]: "(\<And>a b. reads (f a b)) \<Longrightarrow> reads (case x of (a, b) \<Rightarrow> f a b)"
  by (cases x) auto

lemma reads_failure [reads]:
  "(\<And>w. reads (f w)) \<Longrightarrow> (\<And>j. reads (g j)) \<Longrightarrow> reads (case e of WorkflowError w \<Rightarrow> f w | OtherError j \<Rightarrow> g j)"
  by (cases e) auto

lemma reads_run [reads]: "only_reads c \<Longrightarrow> reads (runGit c)"
  by (simp add: reads_def reads_log_def)

lemma reads_runRequired [reads]: "only_reads c \<Longrightarrow> reads (runRequired c)"
  unfolding runRequired_def by (intro reads)

lemma reads_meaningful_exit [reads]: "only_reads c \<Longrightarrow> reads (runMeaningfulExit c ns)"
  unfolding runMeaningfulExit_def by (intro reads)

lemma reads_wrap_failure [reads]: "reads (wrap_failure c e)"
  unfolding wrap_failure_def by (intro reads)

lemma reads_parsed_run [reads]: "only_reads c \<Longrightarrow> reads (parsed_run c parse)"
  unfolding parsed_run_def by (intro reads)

lemma specs [simp]:
  "gc_argv (plan_spec cwd d e a) = a" "gc_argv (stdin_spec cwd d e a b) = a"
  "gc_deadlineClass (plan_spec cwd d e a) = d" "gc_deadlineClass (stdin_spec cwd d e a b) = d"
  by (simp_all add: plan_spec_def stdin_spec_def)

lemma planned_reads [reads]:
  "only_reads (planRepositoryLayout cwd b)" "only_reads (planStatus cwd b b')" "only_reads (planForEachRef cwd)"
  "only_reads (planRemotes cwd)" "only_reads (planWorktreeList cwd)" "only_reads (planSubmoduleConfig cwd)"
  "only_reads (planLsFilesStage cwd)" "only_reads (planLsTreeEntry cwd x y)" "only_reads (planStashList cwd)"
  "only_reads (planHeadRef cwd)" "only_reads (planHeadOid cwd)"
  "only_reads (planDiffNameStatus cwd b m n)" "only_reads (planDiffNumstat cwd b m n)" "only_reads (planDiffPatchForPath cwd p b m n)"
  by (simp_all add: only_reads_def isReadOnlySpec_def subcommand_def reading_words_def words_def startsWith_def patch_words_def
      planRepositoryLayout_def planStatus_def planForEachRef_def planRemotes_def planWorktreeList_def planSubmoduleConfig_def
      planLsFilesStage_def planLsTreeEntry_def planStashList_def planHeadRef_def planHeadOid_def
      planDiffNameStatus_def planDiffNumstat_def planDiffPatchForPath_def)

lemma reads_bind_lift: "(\<And>x. m = Inr x \<Longrightarrow> reads (f x)) \<Longrightarrow> reads (bindP (liftE m) f)"
  by (cases m) (simp_all add: liftE_def reads_Done)

lemma planned_reads_or_throw:
  "planCatFileBatch cwd oids = Inr c \<Longrightarrow> only_reads c" "planCatFileExists cwd oids = Inr c \<Longrightarrow> only_reads c"
  "planDisambiguateCommitPrefix cwd p = Inr c \<Longrightarrow> only_reads c" "planCatFileObjectTypes cwd oids = Inr c \<Longrightarrow> only_reads c"
  "planIsCommitAncestor cwd x y = Inr c \<Longrightarrow> only_reads c"
  by (auto simp: only_reads_def isReadOnlySpec_def subcommand_def reading_words_def words_def startsWith_def
      planCatFileBatch_def planCatFileExists_def planDisambiguateCommitPrefix_def planCatFileObjectTypes_def
      planIsCommitAncestor_def split: if_splits)

lemma planRevList_reads: "planRevList cwd o' = Inr c \<Longrightarrow> only_reads c"
proof -
  assume c: "planRevList cwd o' = Inr c"
  have "subcommand (rev_list_argv o') = Some (str ''rev-list'')"
    by (cases "rl_pathText o'") (simp_all add: subcommand_def rev_list_argv_def flag_def words_def startsWith_def)
  moreover have "gc_argv c = rev_list_argv o'" "gc_deadlineClass c = ReadonlyClass"
    using c by (auto simp: planRevList_def split: if_splits)
  moreover have "str ''rev-list'' \<in> set reading_words"
    by (simp add: reading_words_def words_def)
  ultimately show ?thesis
    by (simp add: only_reads_def isReadOnlySpec_def str_inj del: str_simps)
qed

lemma reads_head: "reads (readHeadFacts cwd)"
  unfolding readHeadFacts_def decode_oid_def decodeAsciiText_def Let_def by (intro reads)

lemma reads_parseLayoutOutput: "reads (parseLayoutOutput b t)"
  unfolding parseLayoutOutput_def decodeAsciiText_def Let_def by (intro reads)

lemma reads_layout: "reads (readLayout cwd)"
  unfolding readLayout_def Let_def by (intro reads reads_parseLayoutOutput)

lemma reads_status: "reads (readStatusFacts cwd layout markers ignored)"
  unfolding readStatusFacts_def Let_def by (intro reads)

lemma reads_refs: "reads (readRefFacts cwd n)"
  unfolding readRefFacts_def Let_def by (intro reads)

lemma reads_worktrees: "reads (readWorktreeFacts cwd)"
  unfolding readWorktreeFacts_def Let_def by (intro reads)

lemma reads_safe_urls: "reads (assertSafeSubmoduleUrls cs command)"
  by (induction cs command rule: assertSafeSubmoduleUrls.induct) (auto intro!: reads split: option.split)

lemma reads_submodules: "reads (readSubmoduleFacts cwd b)"
  unfolding readSubmoduleFacts_def Let_def by (intro reads reads_safe_urls)

lemma reads_gitlink: "reads (readRecordedGitlinkOid cwd revision path)"
  unfolding readRecordedGitlinkOid_def Let_def by (intro reads)

lemma reads_stashes: "reads (readStashFacts cwd n)"
  unfolding readStashFacts_def Let_def by (intro reads)

lemma reads_bodies_loop: "reads (body_loop command es bs ms)"
  by (induction command es bs ms rule: body_loop.induct) (auto intro!: reads)

lemma reads_bodies: "reads (readCommitBodies cwd oids)"
  unfolding readCommitBodies_def
  by (intro reads_if reads_bind_lift reads reads_bodies_loop planned_reads_or_throw) auto

lemma reads_missing: "reads (findMissingObjects cwd oids)"
  unfolding findMissingObjects_def Let_def
  by (intro reads_if reads_bind_lift reads planned_reads_or_throw) auto

lemma reads_topology: "reads (readTopologyPage cwd o')"
  unfolding readTopologyPage_def Let_def by (intro reads_bind_lift reads planRevList_reads)

lemma reads_page: "reads (readHistoryPage cwd o' decoration)"
  unfolding readHistoryPage_def Let_def by (intro reads reads_topology reads_bodies reads_missing)

lemma reads_prefix: "reads (resolveCommitPrefix cwd abbrev)"
  unfolding resolveCommitPrefix_def
  by (intro reads_bind_lift reads planned_reads_or_throw) auto

lemma reads_reachable: "reads (isCommitReachableFrom cwd a d)"
  unfolding isCommitReachableFrom_def by (intro reads_bind_lift reads planned_reads_or_throw)

lemma reads_patches: "reads (patch_reads i args paths t)"
  by (induction i args paths t rule: patch_reads.induct) (auto simp: Let_def intro!: reads)

lemma reads_diff: "reads (readDiffFacts i)"
  unfolding readDiffFacts_def Let_def by (intro reads reads_patches)

lemma reads_exec: "reads p \<Longrightarrow> reads_log (fst (exec g [] p))"
  using every_exec [of "\<lambda>h x. reads_log h" "[]" p g] by (fastforce simp: reads_def reads_log_def prod_eq_iff)


end
