(* ===== verification/PageRules.thy ===== *)
theory PageRules
  imports ReadRules
begin

text \<open>
  What a page of history is made of: the objects that answered for its rows, and the parents Git confirmed; and the
  repositories in good order that the reads cannot answer for.
\<close>

section \<open>Runs of a page\<close>

lemma exec_runRequired:
  "exec g h (runRequired c) = (h @ [(c, g h c)],
     if exit_zero (g h c) then Inr (gr_stdout (g h c)) else Inl (WorkflowError (failureFor c (g h c))))"
  by (simp add: runRequired_def)

lemma exec_parsed_run:
  "exec g h (parsed_run c parse) = (h @ [(c, g h c)],
     if exit_zero (g h c) then (case parse (gr_stdout (g h c)) of Inl e \<Rightarrow> Inl (parseFailure (gc_description c) (OtherError e)) | Inr x \<Rightarrow> Inr x)
     else Inl (WorkflowError (failureFor c (g h c))))"
  by (simp add: parsed_run_def exec_runRequired wrap_failure_def split: sum.splits)

lemma exec_Done_bind: "exec g h (bindP (Done x) f) = (case x of Inl e \<Rightarrow> (h, Inl e) | Inr y \<Rightarrow> exec g h (f y))"
  by (cases x) simp_all

lemma exec_bind_Inr:
  "exec g h (bindP p f) = (h', Inr y) \<longleftrightarrow> (\<exists>h1 x. exec g h p = (h1, Inr x) \<and> exec g h1 (f x) = (h', Inr y))"
  by (auto split: prod.splits sum.splits)

text \<open>What a batch of objects gives: the bodies of the commits among them, in order, and the names that are missing.\<close>

definition commit_entry :: "cat_entry \<Rightarrow> commit_body \<Rightarrow> bool" where
  "commit_entry e b \<longleftrightarrow> (\<exists>oid body. e = CatFileObject oid CommitType body \<and> commitBodyFacts body = Inr b)"

fun is_present :: "cat_entry \<Rightarrow> bool" where
  "is_present (CatFileObject _ _ _) \<longleftrightarrow> True"
| "is_present (CatFileMissing _) \<longleftrightarrow> False"

lemma body_loop_run:
  "exec g h (body_loop command es bs ms) = (h', Inr (bodies, missing)) \<Longrightarrow>
   h' = h \<and> (\<exists>ds. bodies = bs @ ds \<and> list_all2 commit_entry (filter is_present es) ds \<and>
     length missing = length ms + length (filter (\<lambda>e. \<not> is_present e) es))"
proof (induction command es bs ms arbitrary: h rule: body_loop.induct)
  case (2 command name es bs ms)
  from "2.prems" have "exec g h (body_loop command es bs (ms @ [name])) = (h', Inr (bodies, missing))"
    by (simp only: body_loop.simps)
  from "2.IH" [OF this] show ?case by simp
next
  case (3 command oid ty body es bs ms)
  have ty: "ty = CommitType"
    using "3.prems" by (rule_tac ccontr) (simp del: str_simps)
  have step: "exec g h (bindP (liftE (commitBodyFacts body)) (\<lambda>b. body_loop command es (bs @ [b]) ms)) = (h', Inr (bodies, missing))"
    using "3.prems" ty by (simp only: body_loop.simps simp_thms if_False)
  then obtain b where b: "commitBodyFacts body = Inr b" "exec g h (body_loop command es (bs @ [b]) ms) = (h', Inr (bodies, missing))"
    unfolding exec_bind_Inr by (cases "commitBodyFacts body") (simp_all add: liftE_def)
  then have "commit_entry (CatFileObject oid ty body) b"
    using ty by (simp add: commit_entry_def)
  moreover obtain ds where "bodies = (bs @ [b]) @ ds" "list_all2 commit_entry (filter is_present es) ds"
    "length missing = length ms + length (filter (\<lambda>e. \<not> is_present e) es)" "h' = h"
    using "3.IH" [OF _ b(2)] ty by auto
  ultimately show ?case
    by (auto intro!: exI [of _ "b # ds"])
qed simp

lemma filter_partition: "length (filter P xs) + length (filter (\<lambda>x. \<not> P x) xs) = length xs"
  by (induction xs) auto

text \<open>The bodies of a page by object name, when no row repeats another.\<close>

lemma body_map_at:
  assumes "distinct (map tr_oid rows)" and "i < length rows"
  shows "body_of_row (body_map rows bodies) (rows ! i) = at bodies i"
proof -
  have step: "map_of (fold (\<lambda>(i, row). AList.update (tr_oid row) (at bodies i)) (zip [k..<k + length rs] rs) m) x =
      (if x \<in> set (map tr_oid rs) then map_of (zip (map tr_oid rs) (map (at bodies) [k..<k + length rs])) x else map_of m x)"
    if "distinct (map tr_oid rs)" for rs k m x
    using that
  proof (induction rs arbitrary: k m)
    case (Cons r rs)
    have "[k..<k + length (r # rs)] = k # [Suc k..<Suc k + length rs]"
      by (simp add: upt_rec)
    then show ?case
      using Cons.IH [of "Suc k" "AList.update (tr_oid r) (at bodies k) m"] Cons.prems
      by (auto simp: update_conv' simp del: upt_Suc)
  qed simp
  have "map_of (body_map rows bodies) (tr_oid (rows ! i)) =
      map_of (zip (map tr_oid rows) (map (at bodies) [0..<length rows])) (tr_oid (rows ! i))"
    using step [OF assms(1), of 0 "[]" "tr_oid (rows ! i)"] assms(2) by (simp add: body_map_def)
  also have "\<dots> = Some (at bodies i)"
    using assms map_of_zip_nth [of "map tr_oid rows" "map (at bodies) [0..<length rows]" i] by simp
  finally show ?thesis
    by (simp add: body_of_row_def)
qed

lemma commit_of_row_oid: "commit_of_row byOid absent decoration row = Inr cm \<Longrightarrow>
    cm_oid cm = tr_oid row \<and> body_of_row byOid row = Some (cm_body cm) \<and> cm_parents cm = cb_parents (cm_body cm) \<and>
    cm_missingParents cm = filter (\<lambda>p. p \<in> set absent) (cm_parents cm) \<and>
    cm_boundary cm = (tr_boundary row \<or> cm_missingParents cm \<noteq> [])"
  by (auto simp: commit_of_row_def parents_of_def Let_def split: option.splits)

text \<open>The parts of a page that was served.\<close>

lemma page_run:
  assumes "exec g h (readHistoryPage cwd options decoration) = (h', Inr page)"
  obtains rows h1 bodies missing h2 absent where
    "exec g h (readTopologyPage cwd options) = (h1, Inr rows)"
    "exec g h1 (readCommitBodies cwd (map tr_oid rows)) = (h2, Inr (bodies, missing))"
    "exec g h2 (if outside_parents (body_map rows bodies) rows = [] then ret []
       else findMissingObjects cwd (outside_parents (body_map rows bodies) rows)) = (h', Inr absent)"
    "mapE (commit_of_row (body_map rows bodies) absent decoration) rows = Inr (hp_commits page)"
    "hp_rows page = rows" "hp_missingObjects page = missing"
  using assms unfolding readHistoryPage_def Let_def
  by (auto simp: exec_bind_Inr simp del: exec_bindP bindP.simps(1) split: sum.splits)

lemma topology_run:
  assumes "exec g h (readTopologyPage cwd options) = (h1, Inr rows)"
  obtains c where "planRevList cwd options = Inr c" "h1 = h @ [(c, g h c)]" "parseRevListTopology (gr_stdout (g h c)) = Inr rows"
  using assms unfolding readTopologyPage_def
  by (cases "planRevList cwd options") (auto simp: liftE_def exec_parsed_run split: if_splits sum.splits)

text \<open>A batch of objects that was read: the command, and what its answer decodes to.\<close>

lemma bodies_run:
  assumes "exec g h (readCommitBodies cwd oids) = (h1, Inr (bodies, missing))" and "oids \<noteq> []"
  obtains c es where "planCatFileBatch cwd oids = Inr c" "h1 = h @ [(c, g h c)]" "decode_objects (gr_stdout (g h c)) = Inr es"
    "list_all2 commit_entry (filter is_present es) bodies" "length missing = length (filter (\<lambda>e. \<not> is_present e) es)"
proof -
  obtain c where c: "planCatFileBatch cwd oids = Inr c"
    using assms(2) by (simp add: planCatFileBatch_def)
  have run: "exec g h (bindP (parsed_run c decode_objects) (\<lambda>entries. body_loop (gc_description c) entries [] [])) = (h1, Inr (bodies, missing))"
    using assms c by (simp add: readCommitBodies_def liftE_def)
  then obtain h2 es where es: "exec g h (parsed_run c decode_objects) = (h2, Inr es)"
    "exec g h2 (body_loop (gc_description c) es [] []) = (h1, Inr (bodies, missing))"
    unfolding exec_bind_Inr by blast
  have "h2 = h @ [(c, g h c)]" "decode_objects (gr_stdout (g h c)) = Inr es"
    using es(1) by (auto simp: exec_parsed_run split: if_splits sum.splits)
  then show thesis
    using that [OF c] body_loop_run [OF es(2)] by auto
qed

lemma mapE_nth: "mapE f xs = Inr ys \<Longrightarrow> length ys = length xs \<and> (\<forall>i<length xs. f (xs ! i) = Inr (ys ! i))"
  by (auto simp: mapE_Inr_iff list_all2_conv_all_nth)

definition asks_objects :: "git_command \<Rightarrow> jsstring list \<Rightarrow> bool" where
  "asks_objects c oids \<longleftrightarrow> gc_argv c = words [''cat-file'', ''--batch''] \<and> gc_stdin c = Some (lines_stdin oids)"

text \<open>
  C14. A page is made of the objects that answered for its rows. When Git gives one answer a name, a page that is served
  has a commit for each row, in order, whose facts are those of the object that answered for it, and names no object as
  missing: a page with a missing object is refused as a whole rather than shifted.
\<close>

theorem page_is_its_objects:
  assumes "exec g h (readHistoryPage cwd options decoration) = (h', Inr page)"
    and "distinct (map tr_oid (hp_rows page))" and "hp_rows page \<noteq> []"
  shows "map cm_oid (hp_commits page) = map tr_oid (hp_rows page) \<and>
    (\<exists>c r objects. (c, r) \<in> set h' \<and> asks_objects c (map tr_oid (hp_rows page)) \<and> decode_objects (gr_stdout r) = Inr objects \<and>
       (length objects \<le> length (hp_rows page) \<longrightarrow>
          hp_missingObjects page = [] \<and> list_all2 (\<lambda>e cm. commit_entry e (cm_body cm)) objects (hp_commits page)))"
  using assms(1)
proof (rule page_run)
  fix rows h1 bodies missing h2 absent
  assume run: "exec g h (readTopologyPage cwd options) = (h1, Inr rows)"
    "exec g h1 (readCommitBodies cwd (map tr_oid rows)) = (h2, Inr (bodies, missing))"
    "exec g h2 (if outside_parents (body_map rows bodies) rows = [] then ret []
       else findMissingObjects cwd (outside_parents (body_map rows bodies) rows)) = (h', Inr absent)"
    "mapE (commit_of_row (body_map rows bodies) absent decoration) rows = Inr (hp_commits page)"
    and page: "hp_rows page = rows" "hp_missingObjects page = missing"
  have d: "distinct (map tr_oid rows)" "map tr_oid rows \<noteq> []"
    using assms(2,3) page by simp_all
  obtain c es where c: "planCatFileBatch cwd (map tr_oid rows) = Inr c" "h2 = h1 @ [(c, g h1 c)]"
    "decode_objects (gr_stdout (g h1 c)) = Inr es" "list_all2 commit_entry (filter is_present es) bodies"
    "length missing = length (filter (\<lambda>e. \<not> is_present e) es)"
    using bodies_run [OF run(2) d(2)] .
  have commits: "length (hp_commits page) = length rows"
    "\<And>i. i < length rows \<Longrightarrow> commit_of_row (body_map rows bodies) absent decoration (rows ! i) = Inr (hp_commits page ! i)"
    using mapE_nth [OF run(4)] by auto
  have row: "cm_oid (hp_commits page ! i) = tr_oid (rows ! i)" "at bodies i = Some (cm_body (hp_commits page ! i))" if "i < length rows" for i
    using commit_of_row_oid [OF commits(2) [OF that]] body_map_at [OF d(1) that, of bodies] by simp_all
  have oids: "map cm_oid (hp_commits page) = map tr_oid rows"
    using commits(1) row(1) by (auto intro: nth_equalityI)
  have "length rows \<le> length bodies"
    using row(2) [of "length rows - 1"] d(2) by (cases rows) (auto simp: at_def split: if_splits)
  note long = this
  have objects: "length (filter is_present es) = length bodies"
    using c(4) by (rule list_all2_lengthD)
  have all: "missing = [] \<and> filter is_present es = es \<and> length bodies = length rows" if "length es \<le> length rows"
  proof -
    have "length (filter (\<lambda>e. \<not> is_present e) es) = 0"
      using long objects filter_partition [of is_present es] that by linarith
    then show ?thesis
      using long objects filter_partition [of is_present es] c(5) that by (auto simp: filter_id_conv filter_empty_conv)
  qed
  have facts: "missing = [] \<and> list_all2 (\<lambda>e cm. commit_entry e (cm_body cm)) es (hp_commits page)" if "length es \<le> length rows"
    using all [OF that] c(4) row(2) commits(1) by (auto simp: list_all2_conv_all_nth at_def split: if_splits)
  obtain t where "h' = h2 @ t"
    using exec_extends [OF run(3)] by blast
  then have "(c, g h1 c) \<in> set h'"
    using c(2) by simp
  moreover have "asks_objects c (map tr_oid rows)"
    using c(1) by (auto simp: asks_objects_def planCatFileBatch_def stdin_spec_def split: if_splits)
  ultimately show ?thesis
    using oids c(3) facts page by blast
qed

section \<open>Parents\<close>

lemma unique_fold:
  "set (fold (\<lambda>x acc. if x \<in> set acc then acc else acc @ [x]) xs acc) = set acc \<union> set xs \<and>
   length (fold (\<lambda>x acc. if x \<in> set acc then acc else acc @ [x]) xs acc) \<le> length acc + length xs"
proof (induction xs arbitrary: acc)
  case (Cons x xs)
  show ?case
    using Cons [of acc] Cons [of "acc @ [x]"] by auto
qed simp

lemma set_unique [simp]: "set (unique xs) = set xs"
  and length_unique: "length (unique xs) \<le> length xs"
  using unique_fold [of xs "[]"] by (simp_all add: unique_def)

lemma missing_run:
  assumes "exec g h (findMissingObjects cwd oids) = (h1, Inr absent)" and "oids \<noteq> []"
  obtains c p where "planCatFileExists cwd (take refListMaxEntries (unique oids)) = Inr c" "h1 = h @ [(c, g h c)]"
    "parseObjectPresence (gr_stdout (g h c)) = Inr p" "absent = unconfirmed (take refListMaxEntries (unique oids)) p"
proof -
  have ne: "unique oids \<noteq> []"
    using assms(2) set_unique [of oids] by (cases "unique oids") auto
  then obtain c where c: "planCatFileExists cwd (take refListMaxEntries (unique oids)) = Inr c"
    by (simp add: planCatFileExists_def refListMaxEntries_def)
  show thesis
    using assms(1) ne c that [OF c]
    by (auto simp: findMissingObjects_def Let_def liftE_def exec_runRequired wrap_failure_def split: if_splits sum.splits)
qed

definition asks_presence :: "git_command \<Rightarrow> bool" where
  "asks_presence c \<longleftrightarrow> gc_argv c = words [''cat-file'', ''--batch-check=%(objectname)'']"

text \<open>
  C13. A parent that is not marked as missing is there. When a commit of a page has a parent outside the page that is not
  among its missing parents, Git said that the object is present, as long as the page does not have more parents than
  one check may ask for.
\<close>

theorem unmarked_parents_are_confirmed:
  assumes "exec g h (readHistoryPage cwd options decoration) = (h', Inr page)"
    and "distinct (map tr_oid (hp_rows page))" and "sum_list (map (\<lambda>cm. length (cm_parents cm)) (hp_commits page)) \<le> refListMaxEntries"
    and "cm \<in> set (hp_commits page)" and "p \<in> set (cm_parents cm)"
    and "p \<notin> set (cm_missingParents cm)" and "p \<notin> set (map tr_oid (hp_rows page))"
  shows "\<exists>c r found. (c, r) \<in> set h' \<and> asks_presence c \<and> parseObjectPresence (gr_stdout r) = Inr found \<and>
    p \<in> set (op_present found) \<and> p \<notin> set (op_missing found)"
  using assms(1)
proof (rule page_run)
  fix rows h1 bodies missing h2 absent
  let ?out = "outside_parents (body_map rows bodies) rows"
  assume run: "exec g h2 (if ?out = [] then ret [] else findMissingObjects cwd ?out) = (h', Inr absent)"
    "mapE (commit_of_row (body_map rows bodies) absent decoration) rows = Inr (hp_commits page)"
    and page: "hp_rows page = rows"
  have commits: "length (hp_commits page) = length rows"
    "\<And>i. i < length rows \<Longrightarrow> commit_of_row (body_map rows bodies) absent decoration (rows ! i) = Inr (hp_commits page ! i)"
    using mapE_nth [OF run(2)] by auto
  have row: "parents_of (body_map rows bodies) (rows ! i) = cm_parents (hp_commits page ! i)" if "i < length rows" for i
    using commit_of_row_oid [OF commits(2) [OF that]] by (simp add: parents_of_def)
  then have parents: "map (parents_of (body_map rows bodies)) rows = map cm_parents (hp_commits page)"
    using commits(1) by (auto intro: nth_equalityI)
  have out: "p \<in> set ?out" "length ?out \<le> refListMaxEntries"
  proof -
    show "p \<in> set ?out"
      using assms(4,5,7) page by (auto simp: outside_parents_def parents)
    have "length ?out \<le> length (concat (map cm_parents (hp_commits page)))"
      unfolding outside_parents_def parents by (rule length_filter_le)
    then show "length ?out \<le> refListMaxEntries"
      using assms(3) by (simp add: length_concat comp_def)
  qed
  then have ne: "?out \<noteq> []" by auto
  obtain c found where c: "planCatFileExists cwd (take refListMaxEntries (unique ?out)) = Inr c" "h' = h2 @ [(c, g h2 c)]"
    "parseObjectPresence (gr_stdout (g h2 c)) = Inr found" "absent = unconfirmed (take refListMaxEntries (unique ?out)) found"
    using run(1) ne by (auto intro: missing_run)
  have "take refListMaxEntries (unique ?out) = unique ?out"
    using length_unique [of ?out] out(2) by simp
  moreover have "p \<notin> set absent"
  proof -
    obtain i where i: "i < length rows" "cm = hp_commits page ! i"
      using assms(4) commits(1) by (auto simp: in_set_conv_nth)
    have "cm_missingParents cm = filter (\<lambda>p. p \<in> set absent) (cm_parents cm)"
      using commit_of_row_oid [OF commits(2) [OF i(1)]] i(2) by blast
    then show ?thesis
      using assms(5,6) by simp
  qed
  ultimately have "p \<in> set (op_present found)" "p \<notin> set (op_missing found)"
    using c(4) out(1) by (auto simp: unconfirmed_def)
  moreover have "asks_presence c"
    using c(1) by (auto simp: asks_presence_def planCatFileExists_def stdin_spec_def split: if_splits)
  ultimately show ?thesis
    using c(2,3) by auto
qed

end
