(* ===== verification/PageWitness.thy ===== *)
theory PageWitness
  imports PageRules RunGaps
begin

text \<open>One page of history, of one merge, read against a Git that gives a fixed list of answers.\<close>

definition paged_oid :: "byte list" where "paged_oid = replicate 40 0x64"

definition paged_parents :: "byte list list" where
  "paged_parents = [replicate 40 0x62, replicate 40 0x63]"

definition paged_topology :: "byte list" where
  "paged_topology = paged_oid @ [0x20] @ replicate 40 0x62 @ [0x20] @ replicate 40 0x63 @ [0x0a]"

definition paged_presence :: "byte list" where
  "paged_presence = replicate 40 0x62 @ [0x0a] @ replicate 40 0x63 @ [0x0a]"

definition paged_commit :: git_commit where
  "paged_commit = (let i = \<lparr>gi_name = asc ''A'', gi_email = asc ''a'', gi_time = 1, gi_zone = asc ''+0000''\<rparr>
     in \<lparr>gc_tree = replicate 40 0x61, gc_parents = paged_parents, gc_author = i, gc_committer = i, gc_encoding = None,
         gc_gpgsig = None, gc_message = asc ''m''\<rparr>)"

definition paged_objects :: "git_object list" where
  "paged_objects = [GObject paged_oid CommitType (commit_bytes paged_commit)]"

definition paged_answers :: git where
  "paged_answers = scripted [printing Exited 0 paged_topology, printing Exited 0 (concat (map object_bytes paged_objects)),
     printing Exited 0 paged_presence]"

definition paged_options :: rev_list_options where
  "paged_options = \<lparr>rl_tips = [latin1 paged_oid], rl_maxCount = 1, rl_skip = 0, rl_firstParentOnly = False, rl_onlyOid = None,
     rl_message = None, rl_author = None, rl_committedAfter = None, rl_committedBefore = None, rl_pathText = None\<rparr>"

lemma paged_commit_ok: "commit_ok paged_commit"
  by (simp add: commit_ok_def paged_commit_def paged_parents_def oid_bytes_replicate isHexDigit_def isDigit_def identity_ok_def Let_def
      encoding_ok_def gpgsig_ok_def asc_def)

lemma paged_rows: "parseRevListTopology paged_topology =
    Inr [\<lparr>tr_oid = latin1 paged_oid, tr_parents = map latin1 paged_parents, tr_boundary = False\<rparr>]"
  by code_simp

lemma paged_present: "parseObjectPresence paged_presence = Inr \<lparr>op_present = map latin1 paged_parents, op_missing = []\<rparr>"
  by code_simp

lemma paged_objects_ok: "list_all object_ok paged_objects"
proof -
  have "length (commit_bytes paged_commit) \<le> 1000"
    by code_simp
  then show ?thesis
    by (simp add: paged_objects_def paged_oid_def name_ok_def objectMaxBytes_def is_ascii_def list_all_iff)
qed

lemma paged_decoded: "decode_objects (concat (map object_bytes paged_objects)) =
    Inr [CatFileObject (latin1 paged_oid) CommitType (commit_bytes paged_commit)]"
  using cat_push_objects [OF paged_objects_ok]
  by (simp add: decode_objects_def) (simp add: cat_finish_def newCatFileDecoder_def paged_objects_def)

definition paged_facts :: commit_body where
  "paged_facts = (case commitBodyFacts (commit_bytes paged_commit) of Inr b \<Rightarrow> b)"

lemma paged_commit_facts:
  "commitBodyFacts (commit_bytes paged_commit) = Inr paged_facts" "cb_parents paged_facts = map latin1 paged_parents"
  by (simp_all add: paged_facts_def commitBodyFacts_def parse_printed_commit [OF paged_commit_ok])
     (simp add: commit_value_def paged_commit_def Let_def paged_parents_def)

section \<open>The page\<close>

definition paged_row :: topology_row where
  "paged_row = \<lparr>tr_oid = latin1 paged_oid, tr_parents = map latin1 paged_parents, tr_boundary = False\<rparr>"

definition paged_page :: history_page where
  "paged_page = \<lparr>hp_rows = [paged_row],
     hp_commits = [\<lparr>cm_body = paged_facts, cm_oid = latin1 paged_oid, cm_parents = map latin1 paged_parents, cm_boundary = False,
       cm_missingParents = [], cm_refNames = []\<rparr>],
     hp_missingObjects = [], hp_tips = [latin1 paged_oid]\<rparr>"

lemma paged_planned: "\<exists>c. planRevList cwd paged_options = Inr c" "\<exists>c. planCatFileBatch cwd [x] = Inr c"
  by (simp_all add: planRevList_def planCatFileBatch_def paged_options_def)

lemma answer_ok [simp]: "exit_zero (printing Exited 0 out)" "gr_stdout (printing Exited 0 out) = out"
  by (simp_all add: printing_def result_of_def exit_zero_def)

lemma paged_bodies: "body_map [paged_row] [paged_facts] = [(latin1 paged_oid, Some paged_facts)]"
  by (simp add: body_map_def paged_row_def at_def)

lemma paged_outside: "outside_parents [(latin1 paged_oid, Some paged_facts)] [paged_row] = map latin1 paged_parents"
proof -
  have "latin1 paged_oid \<notin> set (map latin1 paged_parents)"
    by code_simp
  then have "filter (\<lambda>p. p \<noteq> latin1 paged_oid) (map latin1 paged_parents) = map latin1 paged_parents"
    by (auto simp: filter_id_conv)
  then show ?thesis
    by (simp add: outside_parents_def parents_of_def body_of_row_def paged_row_def paged_commit_facts)
qed

lemma paged_unique: "unique (map latin1 paged_parents) = map latin1 paged_parents"
  by code_simp

lemma paged_unconfirmed: "unconfirmed (map latin1 paged_parents) \<lparr>op_present = map latin1 paged_parents, op_missing = []\<rparr> = []"
  by (simp add: unconfirmed_def filter_empty_conv)

text \<open>The three answers in turn.\<close>

lemma paged_topology: "\<exists>x. exec paged_answers [] (readTopologyPage cwd paged_options) = ([x], Inr [paged_row])"
proof -
  obtain c where "planRevList cwd paged_options = Inr c"
    using paged_planned(1) by blast
  then show ?thesis
    by (simp add: readTopologyPage_def liftE_def exec_parsed_run paged_answers_def paged_rows paged_row_def)
qed

lemma paged_commits: "\<exists>y. exec paged_answers [x] (readCommitBodies cwd [latin1 paged_oid]) = ([x, y], Inr ([paged_facts], []))"
proof -
  obtain c where "planCatFileBatch cwd [latin1 paged_oid] = Inr c"
    using paged_planned(2) by blast
  then show ?thesis
    using paged_decoded
    by (simp add: readCommitBodies_def liftE_def exec_parsed_run paged_answers_def paged_commit_facts)
qed

lemma paged_missing: "\<exists>z. exec paged_answers [x, y] (findMissingObjects cwd (map latin1 paged_parents)) = ([x, y, z], Inr [])"
proof -
  have u: "unique (map latin1 paged_parents) \<noteq> []" "take refListMaxEntries (unique (map latin1 paged_parents)) = map latin1 paged_parents"
    by (simp_all add: paged_unique) (simp_all add: paged_parents_def refListMaxEntries_def)
  then obtain c where "planCatFileExists cwd (map latin1 paged_parents) = Inr c"
    by (simp add: planCatFileExists_def paged_parents_def)
  then show ?thesis
    using u by (simp add: findMissingObjects_def Let_def liftE_def exec_runRequired paged_answers_def paged_present paged_unconfirmed)
qed

lemma paged_page_read:
  obtains h where "exec paged_answers [] (readHistoryPage cwd paged_options []) = (h, Inr paged_page)"
proof -
  obtain x where x: "exec paged_answers [] (readTopologyPage cwd paged_options) = ([x], Inr [paged_row])"
    using paged_topology by blast
  obtain y where y: "exec paged_answers [x] (readCommitBodies cwd [latin1 paged_oid]) = ([x, y], Inr ([paged_facts], []))"
    using paged_commits by blast
  obtain z where z: "exec paged_answers [x, y] (findMissingObjects cwd (map latin1 paged_parents)) = ([x, y, z], Inr [])"
    using paged_missing by blast
  have row: "map tr_oid [paged_row] = [latin1 paged_oid]" "rl_tips paged_options = [latin1 paged_oid]" "map latin1 paged_parents \<noteq> []"
    by (simp_all add: paged_row_def paged_options_def paged_parents_def)
  have commit: "mapE (commit_of_row [(latin1 paged_oid, Some paged_facts)] [] []) [paged_row] = Inr (hp_commits paged_page)"
    by (simp add: commit_of_row_def body_of_row_def parents_of_def paged_row_def paged_commit_facts paged_page_def)
  have "exec paged_answers [] (readHistoryPage cwd paged_options []) = ([x, y, z], Inr paged_page)"
    unfolding readHistoryPage_def Let_def
    by (simp only: exec_bindP x sum.case prod.case row y paged_bodies paged_outside if_False z commit exec.simps)
       (simp add: paged_page_def)
  then show thesis by (rule that)
qed

lemma page_is_its_objects_witness: "hp_missingObjects paged_page = [] \<and> map cm_oid (hp_commits paged_page) = [latin1 paged_oid]"
proof -
  obtain h where "exec paged_answers [] (readHistoryPage [] paged_options []) = (h, Inr paged_page)"
    using paged_page_read .
  moreover have "distinct (map tr_oid (hp_rows paged_page))" "hp_rows paged_page \<noteq> []"
    by (simp_all add: paged_page_def)
  ultimately have "map cm_oid (hp_commits paged_page) = map tr_oid (hp_rows paged_page)"
    by (rule conjunct1 [OF page_is_its_objects])
  then show ?thesis
    by (simp add: paged_page_def paged_row_def)
qed

lemma unmarked_parents_are_confirmed_witness:
  "\<exists>c (r :: git_result) found. asks_presence c \<and> parseObjectPresence (gr_stdout r) = Inr found \<and> replicate 40 0x62 \<in> set (op_present found)"
proof -
  obtain h where h: "exec paged_answers [] (readHistoryPage [] paged_options []) = (h, Inr paged_page)"
    using paged_page_read .
  obtain cm where cm: "hp_commits paged_page = [cm]" "cm_parents cm = map latin1 paged_parents" "cm_missingParents cm = []"
    by (simp add: paged_page_def)
  have p: "replicate 40 0x62 \<in> set (map latin1 paged_parents)" "replicate 40 0x62 \<notin> set [latin1 paged_oid]"
    by code_simp+
  have rows: "map tr_oid (hp_rows paged_page) = [latin1 paged_oid]"
    by (simp add: paged_page_def paged_row_def)
  have "distinct (map tr_oid (hp_rows paged_page))" "sum_list (map (\<lambda>cm. length (cm_parents cm)) (hp_commits paged_page)) \<le> refListMaxEntries"
    "cm \<in> set (hp_commits paged_page)" "replicate 40 0x62 \<in> set (cm_parents cm)" "replicate 40 0x62 \<notin> set (cm_missingParents cm)"
    "replicate 40 0x62 \<notin> set (map tr_oid (hp_rows paged_page))"
    unfolding rows cm using p by (simp_all add: paged_parents_def refListMaxEntries_def cm)
  from unmarked_parents_are_confirmed [OF h this] show ?thesis by blast
qed

end
