(* ===== verification/Codec.thy ===== *)
theory Codec
  imports Auth JsMap
begin

text \<open>
  Paths as bytes, as text and as identities: \<^verbatim>\<open>packages/host-node/src/filesystem/codec.ts\<close> and
  \<^verbatim>\<open>registry/paths.ts\<close>. \<^verbatim>\<open>TextDecoder\<close> and \<^verbatim>\<open>TextEncoder\<close> belong to the platform: the decoder is written
  out from the Encoding standard (\<open>utf8_next\<close> is one turn of its UTF-8 decoder, and a leading byte order mark
  is dropped), the encoder is \<open>utf8_bytes\<close> of \<open>Auth\<close>.
\<close>

unbundle bit_operations_syntax

section \<open>The decoder of the platform\<close>

text \<open>A lead byte: how many bytes follow, its share of the code point, and the range of the next byte.\<close>

definition utf8_lead :: "nat \<Rightarrow> (nat \<times> nat \<times> nat \<times> nat) option" where
  "utf8_lead b =
     (if 0xc2 \<le> b \<and> b \<le> 0xdf then Some (1, b - 0xc0, 0x80, 0xbf)
      else if 0xe0 \<le> b \<and> b \<le> 0xef
      then Some (2, b - 0xe0, if b = 0xe0 then 0xa0 else 0x80, if b = 0xed then 0x9f else 0xbf)
      else if 0xf0 \<le> b \<and> b \<le> 0xf4
      then Some (3, b - 0xf0, if b = 0xf0 then 0x90 else 0x80, if b = 0xf4 then 0x8f else 0xbf)
      else None)"

text \<open>The bytes that follow: a byte out of range ends the sequence and is read again.\<close>

fun utf8_more :: "nat \<Rightarrow> nat \<Rightarrow> nat \<Rightarrow> nat \<Rightarrow> byte list \<Rightarrow> nat option \<times> byte list" where
  "utf8_more 0 cp lo hi bs = (Some cp, bs)"
| "utf8_more (Suc n) cp lo hi [] = (None, [])"
| "utf8_more (Suc n) cp lo hi (c # cs) =
     (if lo \<le> unat c \<and> unat c \<le> hi then utf8_more n (cp * 64 + (unat c - 0x80)) 0x80 0xbf cs else (None, c # cs))"

definition utf8_next :: "byte \<Rightarrow> byte list \<Rightarrow> nat option \<times> byte list" where
  "utf8_next b bs =
     (if unat b < 0x80 then (Some (unat b), bs)
      else (case utf8_lead (unat b) of
          None \<Rightarrow> (None, bs)
        | Some (needed, cp, lo, hi) \<Rightarrow> utf8_more needed cp lo hi bs))"

definition code_point_units :: "nat \<Rightarrow> jsstring" where
  "code_point_units cp =
     (if cp < 0x10000 then [of_nat cp]
      else [of_nat (0xd800 + (cp - 0x10000) div 1024), of_nat (0xdc00 + (cp - 0x10000) mod 1024)])"

lemma utf8_more_length: "utf8_more n cp lo hi bs = (x, later) \<Longrightarrow> length later < Suc (length bs)"
  by (induction n cp lo hi bs rule: utf8_more.induct) (auto split: if_splits)

lemma utf8_next_length: "utf8_next b bs = (x, later) \<Longrightarrow> length later < Suc (length bs)"
  by (auto simp: utf8_next_def dest: utf8_more_length split: option.splits if_splits)

text \<open>\<^verbatim>\<open>fatal: true\<close> throws at the first error, \<^verbatim>\<open>fatal: false\<close> puts U+FFFD for each.\<close>

function utf8_strict :: "byte list \<Rightarrow> jsstring option" where
  "utf8_strict [] = Some []"
| "utf8_strict (b # bs) =
     (case utf8_next b bs of
        (None, _) \<Rightarrow> None
      | (Some cp, later) \<Rightarrow> map_option (\<lambda>t. code_point_units cp @ t) (utf8_strict later))"
  by pat_completeness auto
termination
  by (relation "measure length") (auto dest!: sym [of _ "utf8_next _ _"] utf8_next_length)

function utf8_lossy :: "byte list \<Rightarrow> jsstring" where
  "utf8_lossy [] = []"
| "utf8_lossy (b # bs) =
     (case utf8_next b bs of (cp, later) \<Rightarrow> (case cp of None \<Rightarrow> [0xfffd] | Some c \<Rightarrow> code_point_units c) @ utf8_lossy later)"
  by pat_completeness auto
termination
  by (relation "measure length") (auto dest!: sym [of _ "utf8_next _ _"] utf8_next_length)

section \<open>Display text\<close>

definition byte_order_mark :: "byte list" where
  "byte_order_mark = [0xef, 0xbb, 0xbf]"

definition without_mark :: "byte list \<Rightarrow> byte list" where
  "without_mark bytes = (if startsWith bytes byte_order_mark then drop 3 bytes else bytes)"

definition decode_fatal :: "byte list \<Rightarrow> jsstring option" where
  "decode_fatal bytes = utf8_strict (without_mark bytes)"

text \<open>\<^verbatim>\<open>[...text].length\<close>.\<close>

fun code_point_count :: "jsstring \<Rightarrow> nat" where
  "code_point_count [] = 0"
| "code_point_count [c] = 1"
| "code_point_count (c # d # cs) =
     (if 0xd800 \<le> c \<and> c \<le> 0xdbff \<and> 0xdc00 \<le> d \<and> d \<le> 0xdfff then 1 + code_point_count cs
      else 1 + code_point_count (d # cs))"

definition decodeUtf8Strict :: "byte list \<Rightarrow> jsstring option" where
  "decodeUtf8Strict bytes = (case decode_fatal bytes of None \<Rightarrow> None
     | Some decoded \<Rightarrow> if code_point_count decoded = 1 then Some decoded else None)"

definition escape_byte :: "byte \<Rightarrow> jsstring" where
  "escape_byte b = [0x5c, 0x78, hex_digit (unat b div 16), hex_digit (unat b mod 16)]"

definition sequence_length :: "byte \<Rightarrow> nat" where
  "sequence_length b = (if b AND 0xe0 = 0xc0 then 2 else if b AND 0xf0 = 0xe0 then 3 else if b AND 0xf8 = 0xf0 then 4 else 0)"

function escapeInvalidBytes :: "byte list \<Rightarrow> jsstring" where
  "escapeInvalidBytes [] = []"
| "escapeInvalidBytes (b # bs) =
     (if b < 0x80 then fromCharCode b # escapeInvalidBytes bs
      else let n = sequence_length b
           in (case if n = 0 then None else decodeUtf8Strict (take n (b # bs)) of
                 None \<Rightarrow> escape_byte b @ escapeInvalidBytes bs
               | Some decoded \<Rightarrow> decoded @ escapeInvalidBytes (drop (n - 1) bs)))"
  by pat_completeness auto
termination
  by (relation "measure length") auto

record display_path =
  dp_text :: jsstring
  dp_representable :: bool

definition toDisplayPath :: "byte list \<Rightarrow> display_path" where
  "toDisplayPath bytes =
     (case decode_fatal bytes of
        Some t \<Rightarrow> \<lparr>dp_text = t, dp_representable = True\<rparr>
      | None \<Rightarrow> \<lparr>dp_text = escapeInvalidBytes bytes, dp_representable = False\<rparr>)"

definition decodeText :: "byte list \<Rightarrow> jsstring" where
  "decodeText bytes = utf8_lossy (without_mark bytes)"

text \<open>\<^verbatim>\<open>/\\x[0-9a-fA-F]{2}/\<close> somewhere in the text.\<close>

definition is_hex_any :: "code_unit \<Rightarrow> bool" where
  "is_hex_any c \<longleftrightarrow> isDigit c \<or> (0x61 \<le> c \<and> c \<le> 0x66) \<or> (0x41 \<le> c \<and> c \<le> 0x46)"

fun has_escape :: "jsstring \<Rightarrow> bool" where
  "has_escape (a # b # c # d # cs) \<longleftrightarrow>
     (a = 0x5c \<and> b = 0x78 \<and> is_hex_any c \<and> is_hex_any d) \<or> has_escape (b # c # d # cs)"
| "has_escape cs \<longleftrightarrow> False"

definition encodeExecutionPath :: "jsstring \<Rightarrow> byte list option" where
  "encodeExecutionPath text' =
     (if 0 \<in> set text' then None
      else if has_escape text' then None
      else let bytes = utf8_bytes text' in if decode_fatal bytes = Some text' then Some bytes else None)"

section \<open>The registry of paths\<close>

datatype path_encoding = Utf8 | Unrepresentable

record path_binding =
  pb_pathId :: jsstring
  pb_repositoryId :: jsstring
  pb_worktreeId :: jsstring
  pb_bytes :: "byte list"
  pb_displayPath :: display_path
  pb_encoding :: path_encoding
  pb_executionText :: "jsstring option"
  pb_executionBytes :: "byte list option"
  pb_mintedAtMs :: int

record path_registry =
  pg_byId :: "(jsstring, path_binding) jsmap"
  pg_byKey :: "(jsstring, jsstring) jsmap"

definition PATH_MAX_ENTRIES :: nat where "PATH_MAX_ENTRIES = 200000"

definition createPathRegistry :: path_registry where
  "createPathRegistry = \<lparr>pg_byId = [], pg_byKey = []\<rparr>"

definition hexText :: "byte list \<Rightarrow> jsstring" where
  "hexText bytes = concat (map (\<lambda>b. [hex_digit (unat b div 16), hex_digit (unat b mod 16)]) bytes)"

definition keyFor :: "jsstring \<Rightarrow> jsstring \<Rightarrow> byte list \<Rightarrow> jsstring" where
  "keyFor repo worktree bytes = repo @ [0] @ worktree @ [0] @ hexText bytes"

definition binding_key :: "path_binding \<Rightarrow> jsstring" where
  "binding_key b = keyFor (pb_repositoryId b) (pb_worktreeId b) (pb_bytes b)"

definition forget_bindings :: "(jsstring \<times> path_binding) list \<Rightarrow> path_registry \<Rightarrow> path_registry" where
  "forget_bindings gone r = \<lparr>pg_byId = delete_keys (map fst gone) (pg_byId r),
     pg_byKey = delete_keys (map (binding_key \<circ> snd) gone) (pg_byKey r)\<rparr>"

definition evictIfNeeded :: "nat \<Rightarrow> path_registry \<Rightarrow> path_registry" where
  "evictIfNeeded maxEntries r = forget_bindings (take (length (pg_byId r) - maxEntries) (pg_byId r)) r"

definition new_binding :: "jsstring \<Rightarrow> int \<Rightarrow> jsstring \<Rightarrow> jsstring \<Rightarrow> byte list \<Rightarrow> path_binding" where
  "new_binding pathId current repo worktree bytes =
     (let display = toDisplayPath bytes; exe = encodeExecutionPath (dp_text display)
      in \<lparr>pb_pathId = pathId, pb_repositoryId = repo, pb_worktreeId = worktree, pb_bytes = bytes, pb_displayPath = display,
          pb_encoding = (if exe = None then Unrepresentable else Utf8),
          pb_executionText = (if exe = None then None else Some (dp_text display)), pb_executionBytes = exe,
          pb_mintedAtMs = current\<rparr>)"

definition existing_binding :: "jsstring \<Rightarrow> path_registry \<Rightarrow> path_binding option" where
  "existing_binding key r = Option.bind (map_of (pg_byKey r) key) (map_of (pg_byId r))"

definition bindPath ::
  "nat \<Rightarrow> jsstring \<Rightarrow> int \<Rightarrow> jsstring \<Rightarrow> jsstring \<Rightarrow> byte list \<Rightarrow> path_registry \<Rightarrow> path_registry \<times> path_binding" where
  "bindPath maxEntries pathId current repo worktree bytes r =
     (let key = keyFor repo worktree bytes
      in case existing_binding key r of
           Some b \<Rightarrow> (r, b)
         | None \<Rightarrow>
             (let b = new_binding pathId current repo worktree bytes
              in (evictIfNeeded maxEntries \<lparr>pg_byId = AList.update pathId b (pg_byId r), pg_byKey = AList.update key pathId (pg_byKey r)\<rparr>, b)))"

definition getPath :: "jsstring \<Rightarrow> path_registry \<Rightarrow> path_binding option" where
  "getPath pathId r = map_of (pg_byId r) pathId"

definition getForWorktree :: "jsstring \<Rightarrow> jsstring \<Rightarrow> jsstring \<Rightarrow> path_registry \<Rightarrow> path_binding option" where
  "getForWorktree pathId repo worktree r =
     (case map_of (pg_byId r) pathId of
        None \<Rightarrow> None
      | Some b \<Rightarrow> if pb_repositoryId b \<noteq> repo \<or> pb_worktreeId b \<noteq> worktree then None else Some b)"

definition clearWorktree :: "jsstring \<Rightarrow> path_registry \<Rightarrow> path_registry" where
  "clearWorktree worktree r = forget_bindings (filter (\<lambda>(i, b). pb_worktreeId b = worktree) (pg_byId r)) r"

definition registry_size :: "path_registry \<Rightarrow> nat" where
  "registry_size r = length (pg_byId r)"

end
