(* ===== verification/CodecRules.thy ===== *)
theory CodecRules
  imports Codec
begin

text \<open>
  A path id names the bytes it was minted for: the strict decoder of the platform is inverted by its encoder, so the
  bytes handed to Git are those of the path, up to a leading byte order mark, which the decoder drops.
\<close>

section \<open>Encoding inverts decoding\<close>

lemma nat_or_add:
  assumes "m < 2 ^ k"
  shows "(n * 2 ^ k) OR m = n * 2 ^ k + (m :: nat)"
proof -
  have "(push_bit k n) AND (take_bit k m) = 0"
    by (rule bit_eqI) (auto simp: bit_simps)
  then have "push_bit k n + take_bit k m = push_bit k n OR take_bit k m"
    by (rule disjunctive_add_eq_or)
  then show ?thesis
    using assms by (simp add: push_bit_eq_mult take_bit_nat_eq_self)
qed

lemma or_of_nat: "m < 2 ^ k \<Longrightarrow> (of_nat (n * 2 ^ k) OR of_nat m :: 'a::len word) = of_nat (n * 2 ^ k + m)"
  by (simp only: of_nat_or_eq [symmetric] nat_or_add)

lemma ucast_of_nat: "(ucast (c :: 'a::len word) :: 'b::len word) = of_nat (unat c)"
  by (simp add: of_nat_unat)

lemma and_63: "(x :: nat) AND 0x3f = x mod 64"
  using take_bit_eq_mask [of 6 x] take_bit_eq_mod [of 6 x] by (simp add: mask_eq_exp_minus_1)

lemma unat_drop: "unat (drop_bit n (c :: 'a::len word)) = unat c div 2 ^ n"
  by (simp only: unat_drop_bit_eq drop_bit_eq_div [where 'a = nat])

lemma low6:
  "(ucast (drop_bit n c AND 0x3f) :: 8 word) = of_nat (unat (c :: 16 word) div 2 ^ n mod 64)"
  "(ucast (drop_bit n d AND 0x3f) :: 8 word) = of_nat (unat (d :: 32 word) div 2 ^ n mod 64)"
  unfolding ucast_of_nat unsigned_and_eq unat_drop by (simp_all add: and_63)

lemma tail6:
  "(0x80 OR ucast (drop_bit n c AND 0x3f) :: 8 word) = of_nat (128 + unat (c :: 16 word) div 2 ^ n mod 64)"
  "(0x80 OR ucast (drop_bit n d AND 0x3f) :: 8 word) = of_nat (128 + unat (d :: 32 word) div 2 ^ n mod 64)"
  using or_of_nat [of "unat c div 2 ^ n mod 64" 7 1, where 'a = 8] or_of_nat [of "unat d div 2 ^ n mod 64" 7 1, where 'a = 8]
  by (simp_all add: low6)

lemma head_of: "unat (c :: 'a::len word) div 2 ^ n < 2 ^ k \<Longrightarrow>
    (of_nat (m * 2 ^ k) OR ucast (drop_bit n c) :: 8 word) = of_nat (m * 2 ^ k + unat c div 2 ^ n)"
proof -
  assume "unat c div 2 ^ n < 2 ^ k"
  moreover have "(ucast (drop_bit n c) :: 8 word) = of_nat (unat c div 2 ^ n)"
    by (simp only: ucast_of_nat unat_drop)
  ultimately show ?thesis by (simp only: or_of_nat)
qed

text \<open>The bytes of a code point, by its size.\<close>

definition utf8_of :: "nat \<Rightarrow> byte list" where
  "utf8_of v =
     (if v < 0x80 then [of_nat v]
      else if v < 0x800 then [of_nat (192 + v div 64), of_nat (128 + v mod 64)]
      else if v < 0x10000 then [of_nat (224 + v div 4096), of_nat (128 + v div 64 mod 64), of_nat (128 + v mod 64)]
      else [of_nat (240 + v div 262144), of_nat (128 + v div 4096 mod 64), of_nat (128 + v div 64 mod 64), of_nat (128 + v mod 64)])"

definition scalar :: "nat \<Rightarrow> bool" where
  "scalar v \<longleftrightarrow> v < 0xd800 \<or> (0xdfff < v \<and> v \<le> 0x10ffff)"

lemma unat_of_nat16: "v < 0x10000 \<Longrightarrow> unat (of_nat v :: 16 word) = v"
  by (simp add: unsigned_of_nat take_bit_nat_eq_self)

lemma code_unit_less: "v < 0x10000 \<Longrightarrow> w < 0x10000 \<Longrightarrow> (of_nat v :: 16 word) < of_nat w \<longleftrightarrow> v < w"
  by (simp add: word_less_nat_alt unat_of_nat16)

lemma code_unit_le: "v < 0x10000 \<Longrightarrow> w < 0x10000 \<Longrightarrow> (of_nat v :: 16 word) \<le> of_nat w \<longleftrightarrow> v \<le> w"
  by (simp add: word_le_nat_alt unat_of_nat16)

lemma utf8_bytes_small:
  assumes "scalar v" and "v < 0x10000"
  shows "utf8_bytes (of_nat v # cs) = utf8_of v @ utf8_bytes cs"
proof -
  have v: "unat (of_nat v :: 16 word) = v"
    using assms(2) by (rule unat_of_nat16)
  have tests: "(of_nat v :: 16 word) < 0x80 \<longleftrightarrow> v < 0x80" "(of_nat v :: 16 word) < 0x800 \<longleftrightarrow> v < 0x800"
    using assms(2) code_unit_less [where v = v and w = "0x80"] code_unit_less [where v = v and w = "0x800"] by simp_all
  have no: "\<not> (0xd800 \<le> (of_nat v :: 16 word) \<and> (of_nat v :: 16 word) \<le> 0xdbff)" "\<not> is_surrogate (of_nat v :: 16 word)"
    using assms code_unit_le [where v = "0xd800" and w = v] code_unit_le [where v = v and w = "0xdbff"] code_unit_le [where v = v and w = "0xdfff"]
    by (auto simp: is_surrogate_def scalar_def)
  show ?thesis
  proof (cases "v < 0x80")
    case True
    then show ?thesis
      by (simp only: utf8_bytes.simps Let_def tests if_True utf8_of_def ucast_of_nat v append_Cons append_Nil)
  next
    case F1: False
    show ?thesis
    proof (cases "v < 0x800")
      case True
      have "(0xc0 OR ucast (drop_bit 6 (of_nat v :: 16 word)) :: 8 word) = of_nat (192 + v div 64)"
        using head_of [of "of_nat v :: 16 word" 6 5 6] True by (simp add: v)
      then show ?thesis
        using F1 True tail6(1) [of 0 "of_nat v"]
        by (simp only: utf8_bytes.simps Let_def tests if_True if_False utf8_of_def v append_Cons append_Nil power_0 div_by_1)
    next
      case F2: False
      have "(0xe0 OR ucast (drop_bit 12 (of_nat v :: 16 word)) :: 8 word) = of_nat (224 + v div 4096)"
        using head_of [of "of_nat v :: 16 word" 12 4 14] assms(2) by (simp add: v)
      then show ?thesis
        using F1 F2 assms(2) tail6(1) [of 0 "of_nat v"] tail6(1) [of 6 "of_nat v"]
        by (simp only: utf8_bytes.simps Let_def tests no if_True if_False utf8_of_def v append_Cons append_Nil power_0 div_by_1) simp
    qed
  qed
qed

lemma utf8_bytes_large:
  assumes "0x10000 \<le> v" and "v \<le> 0x10ffff"
  shows "utf8_bytes (code_point_units v @ cs) = utf8_of v @ utf8_bytes cs"
proof -
  define hi lo where "hi = 0xd800 + (v - 0x10000) div 1024" and "lo = 0xdc00 + (v - 0x10000) mod 1024"
  have range: "0xd800 \<le> hi" "hi \<le> 0xdbff" "0xdc00 \<le> lo" "lo \<le> 0xdfff"
    using assms by (simp_all add: hi_def lo_def)
  have units: "code_point_units v = [of_nat hi, of_nat lo]"
    using assms by (simp add: code_point_units_def hi_def lo_def)
  have tests: "\<not> (of_nat hi :: 16 word) < 0x80" "\<not> (of_nat hi :: 16 word) < 0x800"
    "0xd800 \<le> (of_nat hi :: 16 word) \<and> (of_nat hi :: 16 word) \<le> 0xdbff"
    "0xdc00 \<le> (of_nat lo :: 16 word) \<and> (of_nat lo :: 16 word) \<le> 0xdfff"
    using range code_unit_less [where v = hi and w = "0x80"] code_unit_less [where v = hi and w = "0x800"]
      code_unit_le [where v = "0xd800" and w = hi] code_unit_le [where v = hi and w = "0xdbff"]
      code_unit_le [where v = "0xdc00" and w = lo] code_unit_le [where v = lo and w = "0xdfff"] by simp_all
  have diff: "(of_nat hi - 0xd800 :: 16 word) = of_nat (hi - 0xd800)" "(of_nat lo - 0xdc00 :: 16 word) = of_nat (lo - 0xdc00)"
    using range by (simp_all add: of_nat_diff)
  define q where "q = (0x10000 + push_bit 10 (ucast (of_nat hi - 0xd800 :: 16 word)) + ucast (of_nat lo - 0xdc00 :: 16 word) :: 32 word)"
  have parts: "unat (of_nat (hi - 0xd800) :: 16 word) = hi - 0xd800" "unat (of_nat (lo - 0xdc00) :: 16 word) = lo - 0xdc00"
    using range by (intro unat_of_nat16; simp)+
  have "q = of_nat (0x10000 + (hi - 0xd800) * 1024 + (lo - 0xdc00))"
    unfolding q_def diff ucast_of_nat parts by (simp add: push_bit_eq_mult)
  also have "0x10000 + (hi - 0xd800) * 1024 + (lo - 0xdc00) = v"
    using assms by (simp add: hi_def lo_def)
  finally have "q = of_nat v" .
  then have q: "unat q = v"
    using assms by (simp add: unsigned_of_nat take_bit_nat_eq_self)
  have head: "(0xf0 OR ucast (drop_bit 18 q) :: 8 word) = of_nat (240 + v div 262144)"
    using head_of [of q 18 3 30] assms by (simp add: q)
  show ?thesis
    unfolding units append_Cons append_Nil utf8_bytes.simps(2) [of "of_nat hi"] Let_def list.case q_def [symmetric]
    using assms tests head tail6(2) [of 12 q] tail6(2) [of 6 q] tail6(2) [of 0 q]
    by (simp only: if_True if_False) (simp add: utf8_of_def q)
qed

lemma utf8_bytes_units: "scalar v \<Longrightarrow> utf8_bytes (code_point_units v @ cs) = utf8_of v @ utf8_bytes cs"
  using utf8_bytes_small [of v cs] utf8_bytes_large [of v cs]
  by (cases "v < 0x10000") (auto simp: code_point_units_def scalar_def)

text \<open>One turn of the decoder consumes the encoding of its code point.\<close>

lemma utf8_more_Suc:
  assumes "utf8_more (Suc n) cp lo hi bs = (Some v, later)"
  obtains c cs where "bs = c # cs" "lo \<le> unat c" "unat c \<le> hi" "utf8_more n (cp * 64 + (unat c - 0x80)) 0x80 0xbf cs = (Some v, later)"
  using assms by (cases bs) (auto split: if_splits)

lemma of_nat_unat_8: "of_nat (unat (b :: 8 word)) = b"
  by simp

lemma div_part: "(c :: nat) < k \<Longrightarrow> (a * k + c) div k = a"
  by simp

lemma two_bytes:
  assumes "0xc2 \<le> B" "B \<le> 0xdf" "0x80 \<le> C" "C \<le> (0xbf :: nat)" and v: "v = (B - 0xc0) * 64 + (C - 0x80)"
  shows "scalar v \<and> utf8_of v = [of_nat B, of_nat C]"
proof -
  define b c where "b = B - 0xc0" and "c = C - 0x80"
  have B: "B = 192 + b" "C = 128 + c"
    using assms by (simp_all add: b_def c_def)
  have bounds: "2 \<le> b" "b < 32" "c < 64"
    using assms(1,2,4) unfolding B by linarith+
  have v': "v = b * 64 + c"
    by (simp add: v b_def c_def)
  have "v div 64 = b" "v mod 64 = c" "0x80 \<le> v" "v < 0x800"
    unfolding v' using bounds by (simp_all add: div_part)
  then show ?thesis by (simp add: utf8_of_def scalar_def B)
qed

lemma split_64:
  assumes "(d :: nat) < 64" and "v = u * 64 + d"
  shows "v mod 64 = d" "v div 64 = u" "v div 4096 = u div 64" "v div 262144 = u div 4096"
proof -
  show v: "v div 64 = u"
    using assms by (simp add: div_part)
  show "v mod 64 = d"
    using assms by simp
  show "v div 4096 = u div 64" "v div 262144 = u div 4096"
    using v div_mult2_eq [of v 64 64] div_mult2_eq [of v 64 4096] by simp_all
qed

lemma three_bytes:
  assumes "0xe0 \<le> B" "B \<le> 0xef" "if B = 0xe0 then 0xa0 \<le> C else 0x80 \<le> C" "if B = 0xed then C \<le> 0x9f else C \<le> (0xbf :: nat)"
    and "0x80 \<le> D" "D \<le> 0xbf" and v: "v = ((B - 0xe0) * 64 + (C - 0x80)) * 64 + (D - 0x80)"
  shows "scalar v \<and> utf8_of v = [of_nat B, of_nat C, of_nat D]"
proof -
  define b c d where "b = B - 0xe0" and "c = C - 0x80" and "d = D - 0x80"
  have B: "B = 224 + b" "C = 128 + c" "D = 128 + d"
    using assms by (auto simp: b_def c_def d_def split: if_splits)
  have bounds: "b < 16" "c < 64" "d < 64" "b = 0 \<longrightarrow> 32 \<le> c" "b = 13 \<longrightarrow> c < 32"
    using assms by (auto simp: b_def c_def d_def split: if_splits)
  define u where "u = b * 64 + c"
  have v': "v = u * 64 + d"
    using v by (simp add: u_def b_def c_def d_def)
  have parts: "v div 4096 = b" "v div 64 mod 64 = c" "v mod 64 = d"
    by (simp_all add: split_64 [OF bounds(3) v'] split_64 [OF bounds(2) u_def])
  have size: "0x800 \<le> v" "v < 0x10000"
    using bounds unfolding v' u_def by (cases "b = 0"; simp)+
  have "v < 0xd800 \<or> 0xdfff < v"
    using bounds unfolding v' u_def by (cases "b \<le> 12"; cases "b = 13"; simp)
  note size = size this
  from parts size show ?thesis
    by (simp add: utf8_of_def scalar_def B)
qed

lemma four_bytes:
  assumes "0xf0 \<le> B" "B \<le> 0xf4" "if B = 0xf0 then 0x90 \<le> C else 0x80 \<le> C" "if B = 0xf4 then C \<le> 0x8f else C \<le> (0xbf :: nat)"
    and "0x80 \<le> D" "D \<le> 0xbf" "0x80 \<le> E" "E \<le> 0xbf"
    and v: "v = (((B - 0xf0) * 64 + (C - 0x80)) * 64 + (D - 0x80)) * 64 + (E - 0x80)"
  shows "scalar v \<and> utf8_of v = [of_nat B, of_nat C, of_nat D, of_nat E]"
proof -
  define b c d e where "b = B - 0xf0" and "c = C - 0x80" and "d = D - 0x80" and "e = E - 0x80"
  have B: "B = 240 + b" "C = 128 + c" "D = 128 + d" "E = 128 + e"
    using assms by (auto simp: b_def c_def d_def e_def split: if_splits)
  have bounds: "b < 5" "c < 64" "d < 64" "e < 64" "b = 0 \<longrightarrow> 16 \<le> c" "b = 4 \<longrightarrow> c < 16"
    using assms by (auto simp: b_def c_def d_def e_def split: if_splits)
  define w where "w = b * 64 + c"
  define u where "u = w * 64 + d"
  have v': "v = u * 64 + e"
    using v by (simp add: u_def w_def b_def c_def d_def e_def)
  have parts: "v div 262144 = b" "v div 4096 mod 64 = c" "v div 64 mod 64 = d" "v mod 64 = e"
    by (simp_all add: split_64 [OF bounds(4) v'] split_64 [OF bounds(3) u_def] split_64 [OF bounds(2) w_def])
  have size: "0x10000 \<le> v" "v \<le> 0x10ffff"
    using bounds unfolding v' u_def w_def by (cases "b = 0"; cases "b = 4"; simp)+
  from parts size show ?thesis
    by (simp add: utf8_of_def scalar_def B)
qed

lemma utf8_next_sound:
  assumes "utf8_next b bs = (Some v, later)"
  shows "scalar v \<and> b # bs = utf8_of v @ later"
proof (cases "unat b < 0x80")
  case True
  then show ?thesis
    using assms by (auto simp: utf8_next_def utf8_of_def scalar_def)
next
  case False
  then obtain needed cp lo hi where lead: "utf8_lead (unat b) = Some (needed, cp, lo, hi)"
    and more': "utf8_more needed cp lo hi bs = (Some v, later)"
    using assms by (auto simp: utf8_next_def split: option.splits)
  consider (two) "0xc2 \<le> unat b" "unat b \<le> 0xdf" "needed = Suc 0" "cp = unat b - 0xc0" "lo = 0x80" "hi = 0xbf"
    | (three) "0xe0 \<le> unat b" "unat b \<le> 0xef" "needed = Suc (Suc 0)" "cp = unat b - 0xe0"
        "lo = (if unat b = 0xe0 then 0xa0 else 0x80)" "hi = (if unat b = 0xed then 0x9f else 0xbf)"
    | (four) "0xf0 \<le> unat b" "unat b \<le> 0xf4" "needed = Suc (Suc (Suc 0))" "cp = unat b - 0xf0"
        "lo = (if unat b = 0xf0 then 0x90 else 0x80)" "hi = (if unat b = 0xf4 then 0x8f else 0xbf)"
    using lead unfolding utf8_lead_def by (auto split: if_splits simp: eval_nat_numeral)
  then show ?thesis
  proof cases
    case two
    obtain c cs where c: "bs = c # cs" "lo \<le> unat c" "unat c \<le> hi" "v = cp * 64 + (unat c - 0x80)" "later = cs"
      using more' unfolding two(3) by (elim utf8_more_Suc) simp
    then show ?thesis
      using two_bytes [OF two(1,2), of "unat c" v] two(4-) by simp
  next
    case three
    obtain c d cs where c: "bs = c # d # cs" "lo \<le> unat c" "unat c \<le> hi" "0x80 \<le> unat d" "unat d \<le> 0xbf"
      "v = (cp * 64 + (unat c - 0x80)) * 64 + (unat d - 0x80)" "later = cs"
      using more' unfolding three(3) by (elim utf8_more_Suc) simp
    then show ?thesis
      using three_bytes [OF three(1,2), of "unat c" "unat d" v] three(4-) by (simp split: if_split_asm)
  next
    case four
    obtain c d e cs where c: "bs = c # d # e # cs" "lo \<le> unat c" "unat c \<le> hi" "0x80 \<le> unat d" "unat d \<le> 0xbf"
      "0x80 \<le> unat e" "unat e \<le> 0xbf"
      "v = ((cp * 64 + (unat c - 0x80)) * 64 + (unat d - 0x80)) * 64 + (unat e - 0x80)" "later = cs"
      using more' unfolding four(3) by (elim utf8_more_Suc) simp
    then show ?thesis
      using four_bytes [OF four(1,2), of "unat c" "unat d" "unat e" v] four(4-) by (simp split: if_split_asm)
  qed
qed

lemma utf8_strict_append: "utf8_strict bs = Some t \<Longrightarrow> utf8_bytes (t @ cs) = bs @ utf8_bytes cs"
proof (induction bs arbitrary: t rule: utf8_strict.induct)
  case (2 b bs)
  from "2.prems" obtain v later t' where next': "utf8_next b bs = (Some v, later)" "utf8_strict later = Some t'"
    "t = code_point_units v @ t'"
    by (auto split: prod.splits option.splits)
  then show ?case
    using utf8_next_sound [OF next'(1)] "2.IH" [OF next'(1) [symmetric] refl next'(2)] by (simp add: utf8_bytes_units)
qed simp

lemma utf8_strict_inverse: "utf8_strict bs = Some t \<Longrightarrow> utf8_bytes t = bs"
  using utf8_strict_append [of bs t "[]"] by simp

section \<open>The text of a path and its bytes\<close>

lemma decode_fatal_inverse: "decode_fatal bytes = Some t \<Longrightarrow> utf8_bytes t = without_mark bytes"
  by (simp add: decode_fatal_def utf8_strict_inverse)

lemma has_escape_append: "has_escape ys \<Longrightarrow> has_escape (xs @ ys)"
proof (induction xs)
  case (Cons x xs)
  then have "has_escape (xs @ ys)" by simp
  then obtain a b c cs where "xs @ ys = a # b # c # cs"
    by (cases "xs @ ys" rule: has_escape.cases) auto
  with \<open>has_escape (xs @ ys)\<close> show ?case by simp
qed simp

lemma hex_digit_any: "n < 16 \<Longrightarrow> is_hex_any (hex_digit n)"
proof -
  assume "n < 16"
  moreover have "list_all (\<lambda>n. is_hex_any (hex_digit n)) [0..<16]"
    by (simp add: hex_digit_def is_hex_any_def isDigit_def upt_rec)
  ultimately show ?thesis by (simp add: list_all_iff)
qed

text \<open>A byte that decodes to nothing is written as an escape, and no text with an escape names a file.\<close>

lemma escape_byte_seen: "has_escape (escape_byte b @ cs)"
proof -
  have "unat b < 256"
    using unsigned_less [of b, where 'a = nat] by simp
  then have "is_hex_any (hex_digit (unat b div 16))" "is_hex_any (hex_digit (unat b mod 16))"
    by (intro hex_digit_any; linarith | simp)+
  then show ?thesis
    by (cases cs) (simp_all add: escape_byte_def)
qed

lemma one_character:
  assumes "decodeUtf8Strict (take (sequence_length b) (b # bs)) = Some t"
  shows "utf8_bytes (t @ cs) = take (sequence_length b) (b # bs) @ utf8_bytes cs"
proof -
  let ?slice = "take (sequence_length b) (b # bs)"
  have t: "utf8_strict (without_mark ?slice) = Some t" "code_point_count t = 1"
    using assms by (auto simp: decodeUtf8Strict_def decode_fatal_def split: option.splits if_splits)
  have "\<not> startsWith ?slice byte_order_mark"
  proof
    assume mark: "startsWith ?slice byte_order_mark"
    then have "b = 0xef"
      by (cases "sequence_length b") (auto simp: startsWith_def byte_order_mark_def)
    then have "length ?slice \<le> 3"
      by (simp add: sequence_length_def)
    then have "without_mark ?slice = []"
      using mark by (simp add: without_mark_def)
    then show False using t by simp
  qed
  then show ?thesis
    using utf8_strict_append [OF t(1)] by (simp add: without_mark_def)
qed

lemma ascii_unit: "(b :: byte) < 0x80 \<Longrightarrow> utf8_bytes (fromCharCode b # cs) = b # utf8_bytes cs"
proof -
  assume b: "b < 0x80"
  then have n: "unat b < 128" by (simp add: word_less_nat_alt)
  moreover have "fromCharCode b = of_nat (unat b)"
    by (simp add: fromCharCode_def of_nat_unat)
  ultimately show ?thesis
    using utf8_bytes_small [of "unat b" cs] by (simp add: scalar_def utf8_of_def)
qed

lemma escaped_inverse: "\<not> has_escape (escapeInvalidBytes bytes) \<Longrightarrow> utf8_bytes (escapeInvalidBytes bytes) = bytes"
proof (induction bytes rule: escapeInvalidBytes.induct)
  case (2 b bs)
  show ?case
  proof (cases "b < 0x80")
    case True
    then have "\<not> has_escape (escapeInvalidBytes bs)"
      using 2(4) has_escape_append [of "escapeInvalidBytes bs" "[fromCharCode b]"] by auto
    then show ?thesis
      using 2(1) True by (simp add: ascii_unit del: utf8_bytes.simps)
  next
    case False
    let ?n = "sequence_length b"
    let ?d = "if ?n = 0 then None else decodeUtf8Strict (take ?n (b # bs))"
    have e: "escapeInvalidBytes (b # bs) = (case ?d of None \<Rightarrow> escape_byte b @ escapeInvalidBytes bs
       | Some decoded \<Rightarrow> decoded @ escapeInvalidBytes (drop (?n - 1) bs))"
      using False by (simp add: Let_def)
    then obtain d where d: "?d = Some d"
      using 2(4) escape_byte_seen by (cases ?d) auto
    then have n: "?n \<noteq> 0" and t: "decodeUtf8Strict (take ?n (b # bs)) = Some d"
      by (auto split: if_splits)
    have "\<not> has_escape (escapeInvalidBytes (drop (?n - 1) bs))"
      using 2(4) has_escape_append [of "escapeInvalidBytes (drop (?n - 1) bs)" d] unfolding e d option.case by blast
    then have "utf8_bytes (escapeInvalidBytes (drop (?n - 1) bs)) = drop (?n - 1) bs"
      using 2(3) [OF False refl d] by simp
    then show ?thesis
      using one_character [OF t, of "escapeInvalidBytes (drop (?n - 1) bs)"] n
      unfolding e d option.case by (cases "sequence_length b"; simp)
  qed
qed simp

text \<open>What Git is given for a path: its bytes without a leading byte order mark, or nothing.\<close>

lemma execution_bytes:
  assumes "encodeExecutionPath (dp_text (toDisplayPath bytes)) = Some e"
  shows "e = without_mark bytes" and "dp_representable (toDisplayPath bytes)"
proof -
  let ?t = "dp_text (toDisplayPath bytes)"
  have t: "\<not> has_escape ?t" "e = utf8_bytes ?t" "decode_fatal e = Some ?t"
    using assms by (auto simp: encodeExecutionPath_def Let_def split: if_splits)
  show rep: "dp_representable (toDisplayPath bytes)"
  proof (rule ccontr)
    assume "\<not> ?thesis"
    then have none: "decode_fatal bytes = None"
      by (auto simp: toDisplayPath_def split: option.splits)
    then have "?t = escapeInvalidBytes bytes"
      by (simp add: toDisplayPath_def)
    then have "e = bytes"
      using t by (simp add: escaped_inverse)
    then show False using t none by simp
  qed
  then have "decode_fatal bytes = Some ?t"
    by (auto simp: toDisplayPath_def split: option.splits)
  then show "e = without_mark bytes"
    using t by (simp add: decode_fatal_inverse)
qed

end
