(* ===== verification/PathIds.thy ===== *)
theory PathIds
  imports CodecRules
begin

text \<open>
  What the registry of paths promises: an id names one path of one worktree, the path handed to Git is the path the id
  was minted for, the registry stays within its bound. \<open>registry_reachable\<close> are the registries a run of the
  service can hold: ids of repositories and worktrees have no NUL, and the id of a new binding is one that is not in use.
\<close>

inductive registry_reachable :: "nat \<Rightarrow> path_registry \<Rightarrow> bool" for maxEntries where
  fresh: "registry_reachable maxEntries createPathRegistry"
| bound: "registry_reachable maxEntries r \<Longrightarrow> getPath pathId r = None \<Longrightarrow> 0 \<notin> set repo \<Longrightarrow> 0 \<notin> set worktree \<Longrightarrow>
    registry_reachable maxEntries (fst (bindPath maxEntries pathId current repo worktree bytes r))"
| cleared: "registry_reachable maxEntries r \<Longrightarrow> registry_reachable maxEntries (clearWorktree worktree r)"

section \<open>Keys\<close>

lemma hex_digit_range: "n < 16 \<Longrightarrow> unat (hex_digit n) = (if n < 10 then 48 + n else 87 + n)"
proof -
  assume n: "n < 16"
  have "unat (of_nat (48 + n) :: code_unit) = 48 + n" "unat (of_nat (87 + n) :: code_unit) = 87 + n"
    using n by (intro unat_of_nat16; linarith)+
  then show ?thesis
    unfolding hex_digit_def by (cases "n < 10") (simp_all only: if_True if_False)
qed

lemma nibble_inj: "n < 16 \<Longrightarrow> m < 16 \<Longrightarrow> hex_digit n = hex_digit m \<Longrightarrow> n = m"
proof -
  assume n: "n < 16" "m < 16" and eq: "hex_digit n = hex_digit m"
  have "(if n < 10 then 48 + n else 87 + n) = (if m < 10 then 48 + m else 87 + m)"
    using arg_cong [OF eq, of unat] unfolding hex_digit_range [OF n(1)] hex_digit_range [OF n(2)] .
  then show ?thesis
    using n by (simp split: if_split_asm)
qed

lemma byte_nibbles: "unat (b :: byte) div 16 < 16" "unat b mod 16 < 16"
  using unsigned_less [of b, where 'a = nat] by (simp_all add: less_mult_imp_div_less)

lemma hexText_inj: "hexText bs = hexText cs \<Longrightarrow> bs = cs"
proof (induction bs arbitrary: cs)
  case Nil
  then show ?case by (cases cs) (simp_all add: hexText_def)
next
  case (Cons b bs)
  then obtain c cs' where cs: "cs = c # cs'"
    by (cases cs) (simp_all add: hexText_def)
  have eqs: "unat b div 16 = unat c div 16" "unat b mod 16 = unat c mod 16" "hexText bs = hexText cs'"
    using Cons.prems by (auto simp: cs hexText_def byte_nibbles intro!: nibble_inj)
  then have "unat b = unat c"
    by (metis mult_div_mod_eq)
  then have "b = c"
    by (rule unsigned_word_eqI)
  then show ?case
    using Cons.IH [OF eqs(3)] by (simp add: cs)
qed

lemma until_zero_unique: "0 \<notin> set xs \<Longrightarrow> 0 \<notin> set ys \<Longrightarrow> xs @ 0 # us = ys @ 0 # vs \<longleftrightarrow> xs = ys \<and> us = vs" for us vs :: jsstring
proof (induction xs arbitrary: ys)
  case Nil
  then show ?case by (cases ys) auto
next
  case (Cons x xs)
  then show ?case by (cases ys) auto
qed

definition plain_ids :: "path_binding \<Rightarrow> bool" where
  "plain_ids b \<longleftrightarrow> 0 \<notin> set (pb_repositoryId b) \<and> 0 \<notin> set (pb_worktreeId b)"

lemma keyFor_inj:
  "0 \<notin> set p \<Longrightarrow> 0 \<notin> set q \<Longrightarrow> 0 \<notin> set p' \<Longrightarrow> 0 \<notin> set q' \<Longrightarrow> keyFor p q bs = keyFor p' q' cs \<longleftrightarrow> p = p' \<and> q = q' \<and> bs = cs"
  by (auto simp: keyFor_def until_zero_unique dest: hexText_inj)

section \<open>The two maps\<close>

text \<open>
  Every binding is as it was minted, and the keys lead to the bindings that have them: \<open>pg_byKey\<close> is the
  inverse of \<open>binding_key\<close> on the registry.
\<close>

definition as_minted :: "jsstring \<Rightarrow> path_binding \<Rightarrow> bool" where
  "as_minted i b \<longleftrightarrow> plain_ids b \<and>
     b = new_binding i (pb_mintedAtMs b) (pb_repositoryId b) (pb_worktreeId b) (pb_bytes b)"

definition registry_ok :: "path_registry \<Rightarrow> bool" where
  "registry_ok r \<longleftrightarrow> keys_distinct (pg_byId r) \<and> keys_distinct (pg_byKey r) \<and>
     (\<forall>i b. map_of (pg_byId r) i = Some b \<longrightarrow> as_minted i b \<and> map_of (pg_byKey r) (binding_key b) = Some i) \<and>
     (\<forall>k i. map_of (pg_byKey r) k = Some i \<longrightarrow> (\<exists>b. map_of (pg_byId r) i = Some b \<and> binding_key b = k))"

lemma registry_okD:
  assumes "registry_ok r"
  shows "map_of (pg_byId r) i = Some b \<Longrightarrow> as_minted i b"
    and "map_of (pg_byId r) i = Some b \<Longrightarrow> map_of (pg_byKey r) (binding_key b) = Some i"
    and "map_of (pg_byKey r) k = Some i \<Longrightarrow> \<exists>b. map_of (pg_byId r) i = Some b \<and> binding_key b = k"
    and "keys_distinct (pg_byId r)" and "keys_distinct (pg_byKey r)"
  using assms by (auto simp: registry_ok_def)

lemma map_of_delete_keys: "map_of (delete_keys ks m) k = (if k \<in> set ks then None else map_of m k)"
  unfolding delete_keys_filter by (induction m) auto

lemma keys_distinct_delete_keys: "keys_distinct m \<Longrightarrow> keys_distinct (delete_keys ks m)"
  by (simp add: delete_keys_filter)

text \<open>Bindings of the registry are forgotten with their keys, and no other key goes.\<close>

lemma forget_lookup:
  assumes "registry_ok r" and "set gone \<subseteq> set (pg_byId r)"
  shows "map_of (pg_byId (forget_bindings gone r)) i = (if i \<in> fst ` set gone then None else map_of (pg_byId r) i)"
    and "map_of (pg_byKey (forget_bindings gone r)) k =
      (case map_of (pg_byKey r) k of None \<Rightarrow> None | Some i \<Rightarrow> if i \<in> fst ` set gone then None else Some i)"
proof -
  show "map_of (pg_byId (forget_bindings gone r)) i = (if i \<in> fst ` set gone then None else map_of (pg_byId r) i)"
    by (simp add: forget_bindings_def map_of_delete_keys)
  have found: "map_of (pg_byId r) j = Some b" if "(j, b) \<in> set gone" for j b
    using that assms by (auto simp: map_of_iff registry_okD(4))
  have "k \<in> (binding_key \<circ> snd) ` set gone \<longleftrightarrow> i \<in> fst ` set gone" if k: "map_of (pg_byKey r) k = Some i" for i
  proof
    assume "k \<in> (binding_key \<circ> snd) ` set gone"
    then obtain j b where b: "(j, b) \<in> set gone" "k = binding_key b" by auto
    then have "i = j"
      using registry_okD(2) [OF assms(1) found [OF b(1)]] k by simp
    then show "i \<in> fst ` set gone" using b by force
  next
    assume "i \<in> fst ` set gone"
    then obtain b where b: "(i, b) \<in> set gone" by force
    then have "binding_key b = k"
      using registry_okD(3) [OF assms(1) k] found [OF b] by simp
    then show "k \<in> (binding_key \<circ> snd) ` set gone" using b by force
  qed
  then show "map_of (pg_byKey (forget_bindings gone r)) k =
      (case map_of (pg_byKey r) k of None \<Rightarrow> None | Some i \<Rightarrow> if i \<in> fst ` set gone then None else Some i)"
    by (auto simp: forget_bindings_def map_of_delete_keys split: option.splits)
qed

lemma forget_ok:
  assumes "registry_ok r" and "set gone \<subseteq> set (pg_byId r)"
  shows "registry_ok (forget_bindings gone r)"
proof -
  note lookup = forget_lookup [OF assms]
  have "keys_distinct (pg_byId (forget_bindings gone r))" "keys_distinct (pg_byKey (forget_bindings gone r))"
    using registry_okD(4,5) [OF assms(1)] by (simp_all add: forget_bindings_def keys_distinct_delete_keys)
  then show ?thesis
    using registry_okD(1-3) [OF assms(1)] unfolding registry_ok_def lookup by (auto split: option.splits if_splits)
qed

lemma bind_ok:
  assumes "registry_ok r" and "getPath pathId r = None" and "0 \<notin> set repo" and "0 \<notin> set worktree"
    and "existing_binding (keyFor repo worktree bytes) r = None"
  shows "registry_ok \<lparr>pg_byId = AList.update pathId (new_binding pathId current repo worktree bytes) (pg_byId r),
    pg_byKey = AList.update (keyFor repo worktree bytes) pathId (pg_byKey r)\<rparr>"
proof -
  let ?b = "new_binding pathId current repo worktree bytes"
  have key: "binding_key ?b = keyFor repo worktree bytes"
    by (simp add: binding_key_def new_binding_def Let_def)
  have new': "map_of (pg_byKey r) (keyFor repo worktree bytes) = None"
    using assms(5) registry_okD(3) [OF assms(1)]
    by (cases "map_of (pg_byKey r) (keyFor repo worktree bytes)") (fastforce simp: existing_binding_def)+
  have minted: "as_minted pathId ?b"
    using assms(3,4) by (simp add: as_minted_def plain_ids_def new_binding_def Let_def)
  have other: "binding_key b \<noteq> keyFor repo worktree bytes" if "map_of (pg_byId r) i = Some b" for i b
    using registry_okD(2) [OF assms(1) that] new' by auto
  have old: "i \<noteq> pathId" if "map_of (pg_byId r) i = Some b" for i b
    using that assms(2) by (auto simp: getPath_def)
  have unused: "map_of (pg_byKey r) k \<noteq> Some pathId" for k
    using registry_okD(3) [OF assms(1)] old by blast
  show ?thesis
    using registry_okD [OF assms(1)] minted key other old unused
    by (auto simp: registry_ok_def update_conv' split: if_splits)
qed

lemma evict_ok: "registry_ok r \<Longrightarrow> registry_ok (evictIfNeeded n r)"
  unfolding evictIfNeeded_def by (intro forget_ok set_take_subset)

lemma reachable_ok: "registry_reachable n r \<Longrightarrow> registry_ok r"
proof (induction rule: registry_reachable.induct)
  case fresh
  then show ?case by (simp add: registry_ok_def createPathRegistry_def)
next
  case (bound r pathId repo worktree current bytes)
  then show ?case
    using bind_ok [OF bound(5,2-4), of bytes current]
    by (auto simp: bindPath_def Let_def evict_ok split: option.splits)
next
  case (cleared r worktree)
  then show ?case by (auto simp: clearWorktree_def intro!: forget_ok)
qed

section \<open>Bounds\<close>

lemma evict_size:
  assumes "keys_distinct (pg_byId r)"
  shows "pg_byId (evictIfNeeded n r) = drop (length (pg_byId r) - n) (pg_byId r)"
proof -
  let ?d = "length (pg_byId r) - n" and ?m = "pg_byId r"
  let ?P = "\<lambda>(k, v). k \<notin> set (map fst (take ?d ?m))"
  have "distinct (map fst (take ?d ?m @ drop ?d ?m))"
    using assms by (simp only: append_take_drop_id keys_distinct_def)
  then have d: "distinct (map fst (take ?d ?m) @ map fst (drop ?d ?m))"
    by (simp only: map_append)
  have none: "filter ?P (take ?d ?m) = []" by (force simp: filter_empty_conv)
  have all: "filter ?P (drop ?d ?m) = drop ?d ?m" using d by (force simp: filter_id_conv)
  have "filter ?P ?m = filter ?P (take ?d ?m @ drop ?d ?m)" by (simp only: append_take_drop_id)
  also have "\<dots> = drop ?d ?m" by (simp only: filter_append none all append_Nil)
  finally show ?thesis
    by (simp add: evictIfNeeded_def forget_bindings_def delete_keys_filter)
qed

lemma reachable_size: "registry_reachable n r \<Longrightarrow> registry_size r \<le> n"
proof (induction rule: registry_reachable.induct)
  case fresh
  then show ?case by (simp add: registry_size_def createPathRegistry_def)
next
  case (bound r pathId repo worktree current bytes)
  have "keys_distinct (AList.update pathId b (pg_byId r))" for b
    using registry_okD(4) [OF reachable_ok [OF bound(1)]] by simp
  then show ?case
    using bound(5) by (auto simp: registry_size_def bindPath_def Let_def evict_size split: option.splits)
next
  case (cleared r worktree)
  have "length (delete_keys ks (pg_byId r)) \<le> length (pg_byId r)" for ks
    by (simp add: delete_keys_filter)
  then show ?case
    using cleared le_trans by (fastforce simp: clearWorktree_def forget_bindings_def registry_size_def)
qed

lemma existing_sound:
  assumes "registry_ok r" and "0 \<notin> set repo" and "0 \<notin> set worktree"
    and "existing_binding (keyFor repo worktree bytes) r = Some b"
  shows "getPath (pb_pathId b) r = Some b \<and> pb_repositoryId b = repo \<and> pb_worktreeId b = worktree \<and> pb_bytes b = bytes"
proof -
  obtain i where i: "map_of (pg_byKey r) (keyFor repo worktree bytes) = Some i" "map_of (pg_byId r) i = Some b"
    using assms(4) by (auto simp: existing_binding_def bind_eq_Some_conv)
  then have key: "binding_key b = keyFor repo worktree bytes"
    using registry_okD(3) [OF assms(1) i(1)] by auto
  have minted: "as_minted i b"
    using registry_okD(1) [OF assms(1) i(2)] .
  then have "pb_pathId b = i"
    by (metis as_minted_def new_binding_def path_binding.select_convs(1))
  then show ?thesis
    using key minted assms(2,3) i(2) by (simp add: binding_key_def keyFor_inj as_minted_def plain_ids_def getPath_def)
qed

lemma update_new: "map_of m k = None \<Longrightarrow> AList.update k v m = m @ [(k, v)]"
  by (induction m) (auto split: if_splits)

lemma last_of_drop: "0 < n \<Longrightarrow> x \<in> set (drop (length (m @ [x]) - n) (m @ [x]))"
  by (cases n) (auto simp: Suc_diff_le)

text \<open>A binding just made can be looked up: it is the newest, and the oldest go first.\<close>

lemma bind_sound:
  assumes "registry_reachable n r" and "0 < n" and "getPath pathId r = None" and "0 \<notin> set repo" and "0 \<notin> set worktree"
    and "bindPath n pathId current repo worktree bytes r = (r', b)"
  shows "getPath (pb_pathId b) r' = Some b \<and> pb_repositoryId b = repo \<and> pb_worktreeId b = worktree \<and> pb_bytes b = bytes"
proof -
  have ok: "registry_ok r"
    using assms(1) by (rule reachable_ok)
  show ?thesis
  proof (cases "existing_binding (keyFor repo worktree bytes) r")
    case (Some c)
    then show ?thesis
      using existing_sound [OF ok assms(4,5) Some] assms(6) by (simp add: bindPath_def Let_def)
  next
    case None
    let ?m = "pg_byId r @ [(pathId, b)]"
    let ?r = "\<lparr>pg_byId = ?m, pg_byKey = AList.update (keyFor repo worktree bytes) pathId (pg_byKey r)\<rparr>"
    have new': "map_of (pg_byId r) pathId = None"
      using assms(3) by (simp add: getPath_def)
    have b: "b = new_binding pathId current repo worktree bytes" and r': "r' = evictIfNeeded n ?r"
      using assms(6) None by (auto simp: bindPath_def Let_def update_new [OF new'])
    have d: "keys_distinct ?m"
      using registry_okD(4) [OF ok] new' by (auto simp: keys_distinct_def map_of_eq_None_iff)
    have kept: "pg_byId r' = drop (length ?m - n) ?m"
      unfolding r' using evict_size [of ?r n] d by simp
    then have "(pathId, b) \<in> set (pg_byId r')"
      using last_of_drop [OF assms(2)] by metis
    moreover have "keys_distinct (pg_byId r')"
      using d unfolding kept keys_distinct_def drop_map [symmetric] by (rule distinct_drop)
    ultimately show ?thesis
      by (simp add: b getPath_def map_of_iff new_binding_def Let_def)
  qed
qed

lemma minted_execution:
  assumes "as_minted i b" and "pb_executionBytes b = Some e"
  shows "e = without_mark (pb_bytes b)"
proof -
  obtain current repo worktree bytes where b: "b = new_binding i current repo worktree bytes" "pb_bytes b = bytes"
    using assms(1) by (simp add: as_minted_def) metis
  then have "encodeExecutionPath (dp_text (toDisplayPath bytes)) = Some e"
    using assms(2) by (simp add: new_binding_def Let_def)
  then show ?thesis
    using execution_bytes(1) b(2) by simp
qed

section \<open>Properties\<close>

text \<open>
  C5. Whatever a client sends as a path id, a command that is given the bytes of the binding works on the path the id
  was minted for: the binding found belongs to the repository and the worktree asked for, the bytes for Git are the bytes
  the listing named without a leading byte order mark, and no other id of the registry stands for the same path of the
  same worktree.
\<close>

theorem path_id_names_one_path:
  assumes "registry_reachable n r" and "getForWorktree pathId repo worktree r = Some b"
  shows "pb_repositoryId b = repo \<and> pb_worktreeId b = worktree \<and>
    (\<forall>e. pb_executionBytes b = Some e \<longrightarrow> e = without_mark (pb_bytes b)) \<and>
    (\<forall>i c. getPath i r = Some c \<and> pb_repositoryId c = repo \<and> pb_worktreeId c = worktree \<and> pb_bytes c = pb_bytes b \<longrightarrow> i = pathId)"
proof -
  have found: "map_of (pg_byId r) pathId = Some b" "pb_repositoryId b = repo" "pb_worktreeId b = worktree"
    using assms(2) by (auto simp: getForWorktree_def split: option.splits if_splits)
  note ok = registry_okD [OF reachable_ok [OF assms(1)]]
  have "i = pathId" if c: "map_of (pg_byId r) i = Some c" "binding_key c = binding_key b" for i c
    using ok(2) [OF found(1)] ok(2) [OF c(1)] c(2) by simp
  then have "\<forall>i c. getPath i r = Some c \<and> pb_repositoryId c = repo \<and> pb_worktreeId c = worktree \<and> pb_bytes c = pb_bytes b \<longrightarrow> i = pathId"
    unfolding getPath_def binding_key_def using found(2,3) by metis
  moreover have "\<forall>e. pb_executionBytes b = Some e \<longrightarrow> e = without_mark (pb_bytes b)"
    using minted_execution [OF ok(1) [OF found(1)]] by blast
  ultimately show ?thesis
    using found(2,3) by blast
qed

text \<open>
  C38. The registry never holds more paths than its bound, however many listings are served, and the eviction that keeps
  it there never takes the path just bound: its id, given out with this answer, leads back to the same bytes in the same
  worktree.
\<close>

theorem path_registry_bounded:
  assumes "registry_reachable n r" and "0 < n" and "getPath pathId r = None" and "0 \<notin> set repo" and "0 \<notin> set worktree"
    and "bindPath n pathId current repo worktree bytes r = (r', b)"
  shows "registry_size r' \<le> n \<and> pb_bytes b = bytes \<and> getForWorktree (pb_pathId b) repo worktree r' = Some b"
proof -
  have "registry_reachable n r'"
    using registry_reachable.bound [OF assms(1,3-5), of current bytes] assms(6) by simp
  then show ?thesis
    using reachable_size bind_sound [OF assms] by (auto simp: getForWorktree_def getPath_def)
qed

text \<open>
  A path that begins with the bytes of a byte order mark is not the path its id hands to Git: the decoder drops the
  mark, so the bytes bound for execution are those of the file without it, although the registry reports the path as
  representable.
\<close>

theorem marked_path_acts_on_another_file:
  assumes "encodeExecutionPath t = Some e" and "\<not> startsWith e byte_order_mark"
  shows "pb_executionBytes (new_binding pathId current repo worktree (byte_order_mark @ e)) = Some e \<and>
    pb_encoding (new_binding pathId current repo worktree (byte_order_mark @ e)) = Utf8 \<and>
    pb_executionBytes (new_binding pathId current repo worktree e) = Some e"
proof -
  have "decode_fatal e = Some t"
    using assms(1) by (auto simp: encodeExecutionPath_def Let_def split: if_splits)
  moreover from this have "decode_fatal (byte_order_mark @ e) = Some t"
    using assms(2) by (simp add: decode_fatal_def without_mark_def byte_order_mark_def startsWith_def)
  ultimately show ?thesis
    using assms(1) by (simp add: new_binding_def Let_def toDisplayPath_def)
qed

text \<open>\<^bold>\<open>Witnesses\<close>: a registry of one entry, bound for two paths in turn.\<close>

definition one_binding :: path_binding where
  "one_binding = new_binding (str ''p1'') 5 (str ''r'') (str ''w'') [0x61]"

definition one_path :: path_registry where
  "one_path = \<lparr>pg_byId = [(str ''p1'', one_binding)], pg_byKey = [(keyFor (str ''r'') (str ''w'') [0x61], str ''p1'')]\<rparr>"

lemma new_binding_fields:
  "pb_pathId (new_binding i t repo worktree bs) = i" "pb_repositoryId (new_binding i t repo worktree bs) = repo"
  "pb_worktreeId (new_binding i t repo worktree bs) = worktree" "pb_bytes (new_binding i t repo worktree bs) = bs"
  by (simp_all add: new_binding_def Let_def)

lemma one_path_is: "fst (bindPath 1 (str ''p1'') 5 (str ''r'') (str ''w'') [0x61] createPathRegistry) = one_path"
  by (simp add: one_path_def one_binding_def bindPath_def Let_def createPathRegistry_def existing_binding_def evictIfNeeded_def
      forget_bindings_def delete_keys_def del: str_simps)

lemma no_nul: "0 \<notin> set (str ''r'')" "0 \<notin> set (str ''w'')"
  by (simp_all add: str_simps)

lemma one_path_reachable: "registry_reachable 1 one_path"
proof -
  have "getPath (str ''p1'') createPathRegistry = None"
    by (simp add: createPathRegistry_def getPath_def)
  then show ?thesis
    using registry_reachable.bound [OF registry_reachable.fresh _ no_nul] one_path_is by metis
qed

lemma one_path_found: "getForWorktree (str ''p1'') (str ''r'') (str ''w'') one_path = Some one_binding"
  by (simp add: getForWorktree_def one_path_def one_binding_def new_binding_fields del: str_simps)

lemma path_id_names_one_path_witness: "pb_repositoryId one_binding = str ''r''"
  using path_id_names_one_path [OF one_path_reachable one_path_found] by (rule conjunct1)

lemma path_registry_bounded_witness:
  "registry_size (fst (bindPath 1 (str ''p2'') 6 (str ''r'') (str ''w'') [0x62] one_path)) \<le> 1"
proof -
  have new': "getPath (str ''p2'') one_path = None"
    by (simp add: getPath_def one_path_def str_simps)
  show ?thesis
    by (rule conjunct1 [OF path_registry_bounded [OF one_path_reachable zero_less_one new' no_nul surjective_pairing]])
qed

lemma marked_path_acts_on_another_file_witness:
  "pb_executionBytes (new_binding [] 0 [] [] (byte_order_mark @ [0x61])) = Some [0x61]"
proof -
  have a: "encodeExecutionPath [0x61] = Some [0x61]"
    by (simp add: encodeExecutionPath_def Let_def decode_fatal_def without_mark_def byte_order_mark_def startsWith_def
        utf8_next_def code_point_units_def)
  have "\<not> startsWith [0x61] byte_order_mark"
    by (simp add: byte_order_mark_def startsWith_def)
  then show ?thesis
    by (rule conjunct1 [OF marked_path_acts_on_another_file [OF a]])
qed

end
