(* ===== verification/ReadGaps.thy ===== *)
theory ReadGaps
  imports PageRules RunGaps PathIds ListingRules
begin

text \<open>
  Repositories in good order that the reads cannot answer for, or answer wrongly; and one page of history read against a
  Git that gives a fixed list of answers.
\<close>

section \<open>Layout\<close>

text \<open>
  A repository under a path that is not ASCII cannot be read. The layout is decoded as ASCII, so when Git names the
  directories with any other byte the read fails as unparsable output, before anything else is asked.
\<close>

theorem unicode_path_is_no_repository:
  assumes "exit_zero (g [] (planRepositoryLayout cwd False))" and "\<not> is_ascii (gr_stdout (g [] (planRepositoryLayout cwd False)))"
  shows "\<exists>m. exec g [] (readLayout cwd) = ([(planRepositoryLayout cwd False, g [] (planRepositoryLayout cwd False))],
    Inl (workflow_failure ''GitOutputUnparsable'' ''rev-parse layout'' m))"
  using assms by (simp add: readLayout_def exec_runRequired parseLayoutOutput_def decodeAsciiText_def workflow_failure_def del: str_simps)

definition accented :: "byte list" where
  "accented = asc ''/h/'' @ [0xc3, 0xa9] @ asc ''/.git'' @ [0x0a]"

lemma unicode_path_is_no_repository_witness:
  "\<exists>m. snd (exec (scripted [printing Exited 0 accented]) [] (readLayout (str ''/h''))) =
     Inl (workflow_failure ''GitOutputUnparsable'' ''rev-parse layout'' m)"
proof -
  have "exit_zero (printing Exited 0 accented)" "\<not> is_ascii (gr_stdout (printing Exited 0 accented))"
    by (simp_all add: printing_def result_of_def exit_zero_def accented_def is_ascii_def asc_def)
  then show ?thesis
    using unicode_path_is_no_repository [of "scripted [printing Exited 0 accented]" "str ''/h''"] by (auto simp del: str_simps)
qed

section \<open>Stashes\<close>

text \<open>
  A stash list that Git refused to read is reported as empty. Git exits with 128 when the directory is no repository,
  or one it does not trust, and the read answers that there are no stashes.
\<close>

theorem refused_stash_list_reads_empty:
  assumes "gr_termination (g [] (planStashList cwd)) = Exited" and "gr_exitCode (g [] (planStashList cwd)) = Some 128"
  shows "snd (exec g [] (readStashFacts cwd n)) = Inr []"
  using assms by (simp add: readStashFacts_def Let_def runMeaningfulExit_def exit_zero_def isAcceptedExit_def)

lemma refused_stash_list_reads_empty_witness:
  "snd (exec (scripted [printing Exited 128 []]) [] (readStashFacts (str ''/h'') None)) = Inr []"
  using refused_stash_list_reads_empty [of "scripted [printing Exited 128 []]" "str ''/h''"]
  by (simp add: printing_def result_of_def)

section \<open>Submodules\<close>

lemma ls_loop_over: "maxEntries < length (filter (\<lambda>f. f \<noteq> []) frames) + length es \<Longrightarrow> length es \<le> maxEntries \<Longrightarrow>
    \<exists>e. ls_loop maxEntries frames es = Inl e"
proof (induction frames arbitrary: es)
  case (Cons f frames)
  show ?case
  proof (cases "f = [] \<or> maxEntries \<le> length es")
    case False
    then show ?thesis
      using Cons.prems Cons.IH [of "es @ [e]" for e] by (cases "parse_index_line f") auto
  qed (use Cons in auto)
qed simp

text \<open>
  A repository with more than 5000 files in its index has no submodules to show: the listing of the index is bounded
  by the number of refs a listing may have, and the whole read is refused, with or without gitlinks among the entries.
\<close>

theorem large_index_hides_submodules:
  assumes "exit_zero (g [] (planLsFilesStage cwd))" and "gr_stdout (g [] (planLsFilesStage cwd)) = nul_frames frames"
    and "list_all (\<lambda>f. 0 \<notin> set f \<and> f \<noteq> []) frames" and "5000 < length frames"
  shows "\<exists>e. exec g [] (readSubmoduleFacts cwd False) = ([(planLsFilesStage cwd, g [] (planLsFilesStage cwd))],
    Inl (parseFailure (gc_description (planLsFilesStage cwd)) e))"
proof -
  have all: "filter (\<lambda>f. f \<noteq> []) frames = frames" "list_all (\<lambda>f. 0 \<notin> set f) frames"
    using assms(3) by (auto simp: list_all_iff filter_id_conv)
  then obtain e where "ls_loop refListMaxEntries frames [] = Inl e"
    using ls_loop_over [of refListMaxEntries frames "[]"] assms(4) by (auto simp: refListMaxEntries_def)
  then have "parseLsFilesStage (nul_frames frames) = Inl e"
    using all by (simp add: parseLsFilesStage_def splitNulFrames_printed)
  then show ?thesis
    using assms(1,2) by (auto simp: readSubmoduleFacts_def Let_def exec_parsed_run)
qed

lemma large_index_hides_submodules_witness:
  "\<exists>e. snd (exec (scripted [printing Exited 0 (nul_frames (replicate 5001 (asc ''x'')))]) [] (readSubmoduleFacts (str ''/h'') False)) =
     Inl (parseFailure (gc_description (planLsFilesStage (str ''/h''))) e)"
proof -
  let ?g = "scripted [printing Exited 0 (nul_frames (replicate 5001 (asc ''x'')))]"
  have "exit_zero (?g [] (planLsFilesStage (str ''/h'')))"
    "gr_stdout (?g [] (planLsFilesStage (str ''/h''))) = nul_frames (replicate 5001 (asc ''x''))"
    "list_all (\<lambda>f. 0 \<notin> set f \<and> f \<noteq> []) (replicate 5001 (asc ''x''))" "5000 < length (replicate 5001 (asc ''x''))"
    by (simp_all add: printing_def result_of_def exit_zero_def list_all_iff asc_def)
  note run = large_index_hides_submodules [of ?g, OF this]
  show ?thesis
    using run by (elim exE) (simp only: snd_conv, blast)
qed

section \<open>Diffs\<close>

text \<open>The text of a path whose bytes are not ASCII is not the text of its bytes one by one.\<close>

lemma utf8_bytes_latin1: "length (utf8_bytes (latin1 bs)) = length bs + length (filter (\<lambda>b. \<not> unat b < 0x80) bs)"
proof (induction bs)
  case (Cons b bs)
  have b: "unat b < 256"
    using unsigned_less [of b, where 'a = nat] by simp
  have "latin1 (b # bs) = of_nat (unat b) # latin1 bs"
    by (simp add: latin1_def fromCharCode_def of_nat_unat)
  moreover have "scalar (unat b)" "unat b < 0x10000"
    using b by (simp_all add: scalar_def)
  ultimately have "utf8_bytes (latin1 (b # bs)) = utf8_of (unat b) @ utf8_bytes (latin1 bs)"
    using utf8_bytes_small by metis
  then show ?case
    using Cons b by (simp add: utf8_of_def)
qed (simp add: latin1_def)

lemma other_text:
  assumes "utf8_bytes t = without_mark bs" and "\<not> is_ascii bs"
  shows "t \<noteq> latin1 bs"
proof
  assume "t = latin1 bs"
  then have "length (without_mark bs) = length bs + length (filter (\<lambda>b. \<not> unat b < 0x80) bs)"
    using assms(1) utf8_bytes_latin1 by metis
  moreover have "length (without_mark bs) \<le> length bs"
    by (simp add: without_mark_def)
  ultimately have "filter (\<lambda>b. \<not> unat b < 0x80) bs = []" by simp
  then show False
    using assms(2) by (fastforce simp: is_ascii_def list_all_iff filter_empty_conv word_le_nat_alt)
qed

text \<open>
  The patch of a file whose name is not ASCII is read and then dropped. A patch is kept under the text of its path
  and looked up by the bytes of the path as single characters, so the patch Git printed for such a file is not found; a
  patch that is found belongs to another file, the one whose name is those characters.
\<close>

theorem unicode_file_has_no_patch:
  assumes "decode_fatal (ns_path change) = Some t" and "\<not> is_ascii (ns_path change)"
  shows "df_patch (diff_file_of stats [(t, p)] change) = None \<and> latin1 (ns_path change) \<noteq> t \<and>
    df_patch (diff_file_of stats [(t, p), (latin1 (ns_path change), p')] change) = Some p'"
  using other_text [OF decode_fatal_inverse [OF assms(1)] assms(2)] by (simp add: diff_file_of_def Let_def)

definition accented_change :: name_status_entry where
  "accented_change = \<lparr>ns_changeKind = ChModified, ns_path = [0xc3, 0xa9], ns_originalPath = None, ns_score = None, ns_rawStatus = str ''M''\<rparr>"

lemma unicode_file_has_no_patch_witness: "\<forall>p. df_patch (diff_file_of [] [([0xe9], p)] accented_change) = None"
proof
  fix p
  have "decode_fatal (ns_path accented_change) = Some [0xe9]" "\<not> is_ascii (ns_path accented_change)"
    by (simp_all add: decode_fatal_def without_mark_def byte_order_mark_def startsWith_def utf8_next_def utf8_lead_def
        code_point_units_def accented_change_def is_ascii_def)
  then show "df_patch (diff_file_of [] [([0xe9], p)] accented_change) = None"
    by (rule conjunct1 [OF unicode_file_has_no_patch])
qed

section \<open>Merges\<close>

definition merge_scope :: diff_scope where
  "merge_scope = \<lparr>ds_kind = DiffCommit, ds_oid = Some (replicate 40 0x61), ds_from = None, ds_to = None\<rparr>"

definition merge_diff :: diff_input where
  "merge_diff = \<lparr>di_cwd = str ''/h'', di_scope = merge_scope, di_patchPaths = None, di_maxBytesPerPatch = None, di_includePatch = None\<rparr>"

definition combined_status :: "byte list" where
  "combined_status = asc ''MM'' @ [0] @ asc ''f'' @ [0]"

lemma combined_refused: "parseNameStatus 5000 combined_status = Inl (name_status_error ''unexpected status token'')"
  by code_simp

text \<open>
  The changes of a merge with a conflict resolved by hand cannot be shown. For a merge Git compares with every parent
  and prints one letter a parent; the parser knows no such status and the read fails.
\<close>

theorem merge_commit_has_no_diff:
  "snd (exec (scripted [printing Exited 0 combined_status]) [] (readDiffFacts merge_diff)) =
     Inl (parseFailure ''diff --name-status -z'' (OtherError (name_status_error ''unexpected status token'')))"
  using combined_refused
  by (simp add: readDiffFacts_def merge_diff_def merge_scope_def diffArguments_def exec_Done_bind exec_parsed_run refListMaxEntries_def
      printing_def result_of_def exit_zero_def planDiffNameStatus_def plan_spec_def del: str_simps)

end
