(* ===== verification/HostPaths.thy ===== *)
theory HostPaths
  imports Problem "HOL-Library.Sublist"
begin

text \<open>
  Paths of a POSIX host: \<^verbatim>\<open>node:path\<close> as the registry uses it, and the containment tests of
  \<^verbatim>\<open>packages/host-node/src/filesystem/handles.ts\<close>. \<open>cwd\<close> is the working directory of the process.
\<close>

section \<open>The path module of the platform\<close>

definition dot :: jsstring where "dot = [0x2e]"
definition dotdot :: jsstring where "dotdot = [0x2e, 0x2e]"

definition isAbsolute :: "jsstring \<Rightarrow> bool" where
  "isAbsolute p \<longleftrightarrow> startsWith p [0x2f]"

text \<open>One segment: \<^verbatim>\<open>..\<close> takes the last one back, and stays at the front of a relative path.\<close>

definition push_segment :: "bool \<Rightarrow> jsstring list \<Rightarrow> jsstring \<Rightarrow> jsstring list" where
  "push_segment absolute acc s =
     (if s = [] \<or> s = dot then acc
      else if s = dotdot then
        (if acc \<noteq> [] \<and> last acc \<noteq> dotdot then butlast acc else if absolute then acc else acc @ [dotdot])
      else acc @ [s])"

definition path_segments :: "jsstring \<Rightarrow> jsstring list" where
  "path_segments p = foldl (push_segment (isAbsolute p)) [] (splitOn 0x2f p)"

definition normalize :: "jsstring \<Rightarrow> jsstring" where
  "normalize p =
     (if p = [] then dot
      else let body = joinWith [0x2f] (path_segments p); trailing = (last p = 0x2f)
           in if body = [] then (if isAbsolute p then [0x2f] else if trailing then dot @ [0x2f] else dot)
              else (if isAbsolute p then [0x2f] else []) @ body @ (if trailing then [0x2f] else []))"

definition join_path :: "jsstring list \<Rightarrow> jsstring" where
  "join_path parts = (let used = filter (\<lambda>p. p \<noteq> []) parts in if used = [] then dot else normalize (joinWith [0x2f] used))"

text \<open>\<^verbatim>\<open>resolve(p)\<close>, as the segments of an absolute path.\<close>

definition resolved :: "jsstring \<Rightarrow> jsstring \<Rightarrow> jsstring list" where
  "resolved cwd p = path_segments (if isAbsolute p then p else cwd @ [0x2f] @ p)"

definition absolute_path :: "jsstring list \<Rightarrow> jsstring" where
  "absolute_path segments = 0x2f # joinWith [0x2f] segments"

definition resolve_path :: "jsstring \<Rightarrow> jsstring \<Rightarrow> jsstring" where
  "resolve_path cwd p = absolute_path (resolved cwd p)"

fun common_segments :: "jsstring list \<Rightarrow> jsstring list \<Rightarrow> nat" where
  "common_segments (x # xs) (y # ys) = (if x = y then Suc (common_segments xs ys) else 0)"
| "common_segments _ _ = 0"

definition relative_segments :: "jsstring list \<Rightarrow> jsstring list \<Rightarrow> jsstring list" where
  "relative_segments source target =
     (let n = common_segments source target in replicate (length source - n) dotdot @ drop n target)"

definition relative_path :: "jsstring \<Rightarrow> jsstring \<Rightarrow> jsstring \<Rightarrow> jsstring" where
  "relative_path cwd source target = joinWith [0x2f] (relative_segments (resolved cwd source) (resolved cwd target))"

definition base_name :: "jsstring \<Rightarrow> jsstring" where
  "base_name p = (case rev (filter (\<lambda>s. s \<noteq> []) (splitOn 0x2f p)) of [] \<Rightarrow> [] | s # _ \<Rightarrow> s)"

definition dir_name :: "jsstring list \<Rightarrow> jsstring" where
  "dir_name segments = absolute_path (butlast segments)"

section \<open>Containment\<close>

definition isInsideOrEqual :: "jsstring \<Rightarrow> jsstring \<Rightarrow> jsstring \<Rightarrow> bool" where
  "isInsideOrEqual cwd parent candidate =
     (if resolve_path cwd parent = resolve_path cwd candidate then True
      else let r = relative_path cwd parent candidate in r \<noteq> [] \<and> \<not> startsWith r (dotdot @ [0x2f]) \<and> r \<noteq> dotdot)"

definition isSafeRelativePath :: "jsstring \<Rightarrow> bool" where
  "isSafeRelativePath p \<longleftrightarrow> p \<noteq> [] \<and> \<not> isAbsolute p \<and> 0 \<notin> set p \<and>
     list_all (\<lambda>s. s \<noteq> [] \<and> s \<noteq> dot \<and> s \<noteq> dotdot) (splitOn 0x2f p)"

section \<open>Segments\<close>

definition segment :: "jsstring \<Rightarrow> bool" where
  "segment s \<longleftrightarrow> s \<noteq> [] \<and> s \<noteq> dot \<and> s \<noteq> dotdot \<and> 0x2f \<notin> set s"

lemma push_segments: "list_all segment acc \<Longrightarrow> list_all (\<lambda>s. 0x2f \<notin> set s) ss \<Longrightarrow> list_all segment (foldl (push_segment True) acc ss)"
proof (induction ss arbitrary: acc)
  case (Cons s ss)
  have "list_all segment (push_segment True acc s)"
    using Cons.prems by (cases acc rule: rev_cases) (auto simp: push_segment_def segment_def list_all_iff)
  then show ?case
    using Cons by simp
qed simp

lemma segments_absolute: "isAbsolute p \<Longrightarrow> list_all segment (path_segments p)"
proof -
  assume "isAbsolute p"
  moreover have "list_all (\<lambda>s. 0x2f \<notin> set s) (splitOn 0x2f p)"
    using splitOn_pieces by (fastforce simp: list_all_iff)
  ultimately show ?thesis
    using push_segments [of "[]" "splitOn 0x2f p"] by (simp add: path_segments_def)
qed

lemma resolved_segments: "isAbsolute cwd \<Longrightarrow> list_all segment (resolved cwd p)"
proof -
  assume "isAbsolute cwd"
  then have "isAbsolute (cwd @ [0x2f] @ p)"
    by (cases cwd) (auto simp: isAbsolute_def startsWith_def)
  then show ?thesis
    unfolding resolved_def by (auto intro: segments_absolute)
qed

lemma joinWith_segments_inj:
  "list_all segment xs \<Longrightarrow> list_all segment ys \<Longrightarrow> joinWith [0x2f] xs = joinWith [0x2f] ys \<longleftrightarrow> xs = ys"
proof
  assume segs: "list_all segment xs" "list_all segment ys" and eq: "joinWith [0x2f] xs = joinWith [0x2f] ys"
  have plain: "list_all (\<lambda>t. 0x2f \<notin> set t \<and> t \<noteq> []) zs" if "list_all segment zs" for zs :: "jsstring list"
    using that by (simp add: segment_def list_all_iff)
  show "xs = ys"
    using joinWith_inj [OF plain [OF segs(1)] plain [OF segs(2)] eq] .
qed simp

lemma common_prefix: "common_segments xs ys = length xs \<longleftrightarrow> prefix xs ys"
  by (induction xs ys rule: common_segments.induct) auto

lemma common_segments_le: "common_segments xs ys \<le> length xs"
  by (induction xs ys rule: common_segments.induct) auto

lemma relative_within: "prefix xs ys \<Longrightarrow> relative_segments xs ys = drop (length xs) ys"
  by (simp add: relative_segments_def Let_def flip: common_prefix)

lemma relative_without: "\<not> prefix xs ys \<Longrightarrow> \<exists>zs. relative_segments xs ys = dotdot # zs"
proof -
  assume "\<not> prefix xs ys"
  then have "common_segments xs ys < length xs"
    using common_segments_le [of xs ys] common_prefix [of xs ys] by simp
  then obtain n where "length xs - common_segments xs ys = Suc n"
    by (metis Suc_diff_Suc)
  then show ?thesis
    by (simp add: relative_segments_def Let_def)
qed

lemma absolute_path_inj:
  "list_all segment xs \<Longrightarrow> list_all segment ys \<Longrightarrow> absolute_path xs = absolute_path ys \<longleftrightarrow> xs = ys"
  by (simp add: absolute_path_def joinWith_segments_inj)

lemma joinWith_Cons: "ss \<noteq> [] \<Longrightarrow> joinWith sep (s # ss) = s @ sep @ joinWith sep ss"
  by (cases ss) simp_all

lemma climbs: "\<exists>r. joinWith [0x2f] (dotdot # ss) = dotdot @ r \<and> (r = [] \<or> startsWith r [0x2f])"
  by (cases ss) (auto simp: startsWith_def)

lemma descends:
  assumes "segment s" and "joinWith [0x2f] (s # ss) = dotdot @ r"
  shows "r \<noteq> [] \<and> \<not> startsWith r [0x2f]"
proof -
  obtain t where t: "joinWith [0x2f] (s # ss) = s @ t" "t = [] \<or> hd t = 0x2f"
    by (cases ss) auto
  have s: "s \<noteq> []" "s \<noteq> dot" "s \<noteq> dotdot" "0x2f \<notin> set s"
    using assms(1) by (simp_all add: segment_def)
  have eq: "s @ t = dotdot @ r"
    using t(1) assms(2) by simp
  obtain u where u: "s = dotdot @ u" "u \<noteq> []"
  proof (cases s)
    case (Cons a s')
    note s1 = Cons
    then show thesis
    proof (cases s')
      case Nil
      then show thesis
        using eq s1 t(2) s(2) by (auto simp: dotdot_def dot_def)
    next
      case (Cons b s'')
      then have "s = dotdot @ s''" "s'' \<noteq> []"
        using eq s1 s(3) by (auto simp: dotdot_def)
      then show thesis by (rule that)
    qed
  qed (use s in simp)
  then have "r = u @ t"
    using eq by simp
  then show ?thesis
    using u s(4) by (cases u) (auto simp: startsWith_def)
qed

text \<open>Containment is a prefix of segments, whatever the segments are called.\<close>

lemma inside_prefix:
  assumes "isAbsolute cwd"
  shows "isInsideOrEqual cwd parent candidate \<longleftrightarrow> prefix (resolved cwd parent) (resolved cwd candidate)"
proof -
  let ?p = "resolved cwd parent" and ?c = "resolved cwd candidate"
  have segs: "list_all segment ?p" "list_all segment ?c"
    using resolved_segments [OF assms] by blast+
  have same: "resolve_path cwd parent = resolve_path cwd candidate \<longleftrightarrow> ?p = ?c"
    unfolding resolve_path_def using segs by (rule absolute_path_inj)
  show ?thesis
  proof (cases "prefix ?p ?c")
    case True
    then obtain zs where zs: "?c = ?p @ zs"
      by (auto simp: prefix_def)
    have rel: "relative_path cwd parent candidate = joinWith [0x2f] zs"
      using True by (simp add: relative_path_def relative_within zs)
    show ?thesis
    proof (cases zs)
      case Nil
      then show ?thesis
        using True same zs by (simp add: isInsideOrEqual_def)
    next
      case (Cons z zs')
      have z: "segment z"
        using segs(2) zs Cons by simp
      have "joinWith [0x2f] zs \<noteq> []"
        using z Cons by (cases zs') (auto simp: segment_def)
      moreover have "joinWith [0x2f] zs \<noteq> dotdot" "\<not> startsWith (joinWith [0x2f] zs) (dotdot @ [0x2f])"
        using descends [OF z, of zs'] Cons by (auto simp: startsWith_iff)
      ultimately show ?thesis
        using True by (simp add: isInsideOrEqual_def rel)
    qed
  next
    case False
    then obtain zs where "relative_segments ?p ?c = dotdot # zs"
      using relative_without by blast
    then obtain r where "relative_path cwd parent candidate = dotdot @ r" "r = [] \<or> startsWith r [0x2f]"
      using climbs [of zs] by (auto simp: relative_path_def)
    then show ?thesis
      using False same by (auto simp: isInsideOrEqual_def startsWith_iff)
  qed
qed

section \<open>Joining\<close>

lemma split_append: "splitOn c (p @ c # q) = splitOn c p @ splitOn c q"
  by (induction p) (auto split: list.splits)

lemma push_safe: "list_all segment ss \<Longrightarrow> foldl (push_segment a) acc ss = acc @ ss"
proof (induction ss arbitrary: acc)
  case (Cons s ss)
  then have "push_segment a acc s = acc @ [s]"
    by (simp add: push_segment_def segment_def)
  then show ?case
    using Cons by simp
qed simp

lemma isAbsolute_append: "isAbsolute p \<Longrightarrow> isAbsolute (p @ q)"
  by (cases p) (auto simp: isAbsolute_def startsWith_def)

lemma segments_append: "isAbsolute p \<Longrightarrow> path_segments (p @ 0x2f # q) = foldl (push_segment True) (path_segments p) (splitOn 0x2f q)"
  by (simp add: path_segments_def split_append isAbsolute_append)

lemma segments_of_absolute: "list_all segment ss \<Longrightarrow> path_segments (absolute_path ss) = ss"
proof -
  assume ss: "list_all segment ss"
  have "splitOn 0x2f (absolute_path ss) = [] # splitOn 0x2f (joinWith [0x2f] ss)"
    by (simp add: absolute_path_def)
  moreover have "isAbsolute (absolute_path ss)"
    by (simp add: absolute_path_def isAbsolute_def startsWith_def)
  moreover have "foldl (push_segment True) [] (splitOn 0x2f (joinWith [0x2f] ss)) = ss"
  proof (cases "ss = []")
    case False
    then show ?thesis
      using ss push_safe [OF ss, of True "[]"] splitOn_joinWith [of ss "0x2f"] by (simp add: segment_def list_all_iff)
  qed (simp add: push_segment_def)
  ultimately show ?thesis
    by (simp add: path_segments_def push_segment_def)
qed

lemma safe_segments: "isSafeRelativePath p \<Longrightarrow> list_all segment (splitOn 0x2f p)"
  by (auto simp: isSafeRelativePath_def list_all_iff segment_def dest: splitOn_pieces)

lemma safe_append: "isAbsolute root \<Longrightarrow> isSafeRelativePath p \<Longrightarrow> path_segments (root @ 0x2f # p) = path_segments root @ splitOn 0x2f p"
  by (simp add: segments_append push_safe safe_segments)

lemma joined_nonempty: "list_all segment ss \<Longrightarrow> joinWith [0x2f] ss = [] \<longleftrightarrow> ss = []"
  by (cases ss rule: remdups_adj.cases) (auto simp: segment_def)

text \<open>Joining a safe path to a root gives a path below it, segment by segment.\<close>

lemma join_safe:
  assumes "isAbsolute root" and "isSafeRelativePath p"
  shows "join_path [root, p] = absolute_path (path_segments root @ splitOn 0x2f p)"
proof -
  let ?ss = "path_segments root @ splitOn 0x2f p"
  have ss: "list_all segment ?ss"
    using segments_absolute [OF assms(1)] safe_segments [OF assms(2)] by simp
  have used: "root \<noteq> []" "p \<noteq> []"
    using assms by (auto simp: isAbsolute_def startsWith_def isSafeRelativePath_def)
  have last_p: "last p \<noteq> 0x2f"
  proof
    assume "last p = 0x2f"
    then obtain q where "p = q @ [0x2f]"
      using used(2) by (metis append_butlast_last_id)
    then have "[] \<in> set (splitOn 0x2f p)"
      using split_append [of "0x2f" q "[]"] by simp
    then show False
      using assms(2) by (auto simp: isSafeRelativePath_def list_all_iff)
  qed
  have "path_segments (root @ 0x2f # p) = ?ss" "isAbsolute (root @ 0x2f # p)"
    using assms by (simp_all add: safe_append isAbsolute_append)
  moreover have "joinWith [0x2f] ?ss \<noteq> []"
    using joined_nonempty [OF ss] by simp
  ultimately show ?thesis
    using used last_p by (simp add: join_path_def normalize_def absolute_path_def)
qed

lemma resolved_absolute: "list_all segment ss \<Longrightarrow> resolved cwd (absolute_path ss) = ss"
  by (simp add: resolved_def segments_of_absolute) (simp add: isAbsolute_def absolute_path_def startsWith_def)

lemma safe_join_inside:
  assumes "isAbsolute cwd" and "isAbsolute root" and "isSafeRelativePath p"
  shows "isInsideOrEqual cwd root (join_path [root, p])" and "isInsideOrEqual cwd root (absolute_path (resolved root p))"
proof -
  have ss: "list_all segment (path_segments root @ splitOn 0x2f p)"
    using segments_absolute [OF assms(2)] safe_segments [OF assms(3)] by simp
  have r: "resolved cwd root = path_segments root"
    using assms(2) by (simp add: resolved_def)
  show "isInsideOrEqual cwd root (join_path [root, p])"
    by (simp add: inside_prefix [OF assms(1)] join_safe [OF assms(2,3)] resolved_absolute [OF ss] r)
  have "\<not> isAbsolute p"
    using assms(3) by (simp add: isSafeRelativePath_def)
  then have "resolved root p = path_segments root @ splitOn 0x2f p"
    using assms(2,3) by (simp add: resolved_def safe_append)
  then show "isInsideOrEqual cwd root (absolute_path (resolved root p))"
    by (simp add: inside_prefix [OF assms(1)] resolved_absolute [OF ss] r)
qed

text \<open>The path from a root to a path below it is empty or safe.\<close>

lemma relative_safe:
  assumes "isAbsolute cwd" and "isInsideOrEqual cwd root p" and "relative_path cwd root p \<noteq> []"
    and "list_all (\<lambda>s. 0 \<notin> set s) (resolved cwd p)"
  shows "isSafeRelativePath (relative_path cwd root p)"
proof -
  obtain zs where zs: "resolved cwd p = resolved cwd root @ zs"
    using assms(1,2) by (auto simp: inside_prefix prefix_def)
  then have rel: "relative_path cwd root p = joinWith [0x2f] zs"
    by (simp add: relative_path_def relative_within)
  have segs: "list_all segment zs"
    using resolved_segments [OF assms(1), of p] zs by simp
  have ne: "zs \<noteq> []"
    using assms(3) rel by auto
  have split: "splitOn 0x2f (joinWith [0x2f] zs) = zs"
    using segs by (intro splitOn_joinWith [OF ne]) (simp add: segment_def list_all_iff)
  have "\<not> isAbsolute (joinWith [0x2f] zs)"
    using segs ne by (cases zs rule: remdups_adj.cases) (auto simp: segment_def isAbsolute_def startsWith_def Cons_eq_append_conv neq_Nil_conv)
  moreover have "0 \<notin> set (joinWith [0x2f] zs)"
  proof -
    have "set (joinWith [0x2f] zs) \<subseteq> {0x2f} \<union> (\<Union>z \<in> set zs. set z)"
      by (induction "[0x2f :: code_unit]" zs rule: joinWith.induct) auto
    then show ?thesis
      using assms(4) zs by (auto simp: list_all_iff)
  qed
  ultimately show ?thesis
    using assms(3) segs by (simp add: rel isSafeRelativePath_def split) (auto simp: list_all_iff segment_def)
qed

end
