(* ===== verification/Registry.thy ===== *)
theory Registry
  imports HostPaths Codec ReadFlows Graph
begin

text \<open>
  Approved directories: \<^verbatim>\<open>packages/host-node/src/filesystem/handles.ts\<close>, \<^verbatim>\<open>registry/identity.ts\<close>,
  \<^verbatim>\<open>roots.ts\<close>, \<^verbatim>\<open>worktrees.ts\<close>, \<^verbatim>\<open>repositories.ts\<close> and \<^verbatim>\<open>managed.ts\<close>. The record
  \<open>registry\<close> holds the maps of the six modules, \<open>host\<close> what the operating system answers while one operation
  runs. An \<open>act\<close> is an asynchronous function: it may ask the host, run Git, change the maps and throw.
\<close>

section \<open>The host and the actions\<close>

record file_stat =
  fst_directory :: bool
  fst_file :: bool
  fst_size :: nat
  fst_dev :: nat
  fst_ino :: nat

text \<open>\<^verbatim>\<open>ho_ids\<close> stands for the random ids, in the order they are asked for.\<close>

record host =
  ho_realpath :: "jsstring \<Rightarrow> jsstring + jsstring"
  ho_stat :: "jsstring \<Rightarrow> jsstring + file_stat"
  ho_open :: "jsstring \<Rightarrow> nat option"
  ho_links :: "nat \<Rightarrow> nat option"
  ho_windows :: bool
  ho_cwd :: jsstring
  ho_home :: jsstring
  ho_now :: int
  ho_ids :: "nat \<Rightarrow> jsstring"
  ho_accessLog :: "jsstring option"

datatype handle_code = HandleForbidden | HandleNotFound | HandleUnsupported

datatype host_error = HandleFailed handle_code jsstring | NativeFailed jsstring | GitFailed failure | ProblemFailed problem

type_synonym ('s, 'a) act = "host \<Rightarrow> git \<Rightarrow> git_log \<Rightarrow> 's \<Rightarrow> git_log \<times> 's \<times> (host_error + 'a)"

definition retA :: "'a \<Rightarrow> ('s, 'a) act" where "retA x = (\<lambda>ho g h s. (h, s, Inr x))"
definition throwA :: "host_error \<Rightarrow> ('s, 'a) act" where "throwA e = (\<lambda>ho g h s. (h, s, Inl e))"

definition bindA :: "('s, 'a) act \<Rightarrow> ('a \<Rightarrow> ('s, 'b) act) \<Rightarrow> ('s, 'b) act" where
  "bindA m f = (\<lambda>ho g h s. case m ho g h s of
     (h', s', Inl e) \<Rightarrow> (h', s', Inl e) | (h', s', Inr x) \<Rightarrow> f x ho g h' s')"

definition catchA :: "('s, 'a) act \<Rightarrow> (host_error \<Rightarrow> ('s, 'a) act) \<Rightarrow> ('s, 'a) act" where
  "catchA m f = (\<lambda>ho g h s. case m ho g h s of
     (h', s', Inl e) \<Rightarrow> f e ho g h' s' | (h', s', Inr x) \<Rightarrow> (h', s', Inr x))"

definition gitA :: "'a prog \<Rightarrow> ('s, 'a) act" where
  "gitA p = (\<lambda>ho g h s. case exec g h p of (h', x) \<Rightarrow> (h', s, map_sum GitFailed id x))"

definition hostA :: "(host \<Rightarrow> host_error + 'a) \<Rightarrow> ('s, 'a) act" where "hostA f = (\<lambda>ho g h s. (h, s, f ho))"
definition getA :: "('s \<Rightarrow> 'a) \<Rightarrow> ('s, 'a) act" where "getA f = (\<lambda>ho g h s. (h, s, Inr (f s)))"
definition modifyA :: "('s \<Rightarrow> 's) \<Rightarrow> ('s, unit) act" where "modifyA f = (\<lambda>ho g h s. (h, f s, Inr ()))"

definition askA :: "(host \<Rightarrow> 'a) \<Rightarrow> ('s, 'a) act" where "askA f = hostA (\<lambda>ho. Inr (f ho))"

definition nativeA :: "(host \<Rightarrow> jsstring + 'a) \<Rightarrow> ('s, 'a) act" where
  "nativeA f = hostA (\<lambda>ho. map_sum NativeFailed id (f ho))"

section \<open>State\<close>

record approved_root =
  ar_allowedRootId :: jsstring
  ar_path :: jsstring
  ar_parentRootId :: "jsstring option"

record handle_record =
  hr_rootId :: jsstring
  hr_relativePath :: jsstring

record resolved_handle =
  rh_handle :: jsstring
  rh_absolutePath :: jsstring
  rh_root :: approved_root
  rh_relativePath :: jsstring

record directory_pin =
  pi_path :: jsstring
  pi_dev :: nat
  pi_ino :: nat
  pi_descriptor :: "nat option"

record root_record =
  ro_allowedRootId :: jsstring
  ro_path :: jsstring
  ro_displayPath :: display_path
  ro_executionTrusted :: bool
  ro_repositoryIds :: "jsstring list"
  ro_identity :: "nat \<times> nat"
  ro_approvedAtMs :: int

record host_worktree =
  hw_worktreeId :: jsstring
  hw_repositoryId :: jsstring
  hw_path :: jsstring
  hw_displayPath :: display_path
  hw_handle :: "jsstring option"
  hw_isMain :: bool
  hw_isBare :: bool
  hw_headOid :: "jsstring option"
  hw_branchRef :: "jsstring option"
  hw_detached :: bool
  hw_locked :: bool
  hw_lockReason :: "display_path option"
  hw_prunable :: bool

record repository_entry =
  rp_repositoryId :: jsstring
  rp_allowedRootId :: jsstring
  rp_displayPath :: display_path
  rp_displayName :: jsstring
  rp_commonDir :: jsstring
  rp_gitDir :: jsstring
  rp_objectFormat :: object_format
  rp_bare :: bool
  rp_shallow :: bool
  rp_identity :: "nat \<times> nat"
  rp_registeredAtMs :: int
  rp_primaryWorktreeId :: jsstring
  rp_worktreeIds :: "jsstring list"

record access_entry =
  ae_action :: string
  ae_path :: jsstring
  ae_allowedRootId :: jsstring
  ae_repositoryId :: jsstring
  ae_actor :: jsstring
  ae_atMs :: int

record registry =
  rg_roots :: "(jsstring, approved_root) jsmap"
  rg_handles :: "(jsstring, handle_record) jsmap"
  rg_rootPins :: nat
  rg_approvals :: "(jsstring, root_record \<times> directory_pin) jsmap"
  rg_worktrees :: "(jsstring, host_worktree) jsmap"
  rg_idByPath :: "(jsstring, jsstring) jsmap"
  rg_repositoryPins :: nat
  rg_records :: "(jsstring, repository_entry \<times> directory_pin) jsmap"
  rg_byCommonDir :: "(jsstring, jsstring) jsmap"
  rg_minted :: nat
  rg_accessLog :: "access_entry list"

definition empty_registry :: registry where
  "empty_registry = \<lparr>rg_roots = [], rg_handles = [], rg_rootPins = 0, rg_approvals = [], rg_worktrees = [], rg_idByPath = [],
     rg_repositoryPins = 0, rg_records = [], rg_byCommonDir = [], rg_minted = 0, rg_accessLog = []\<rparr>"

definition mint_id :: "('z registry_scheme, jsstring) act" where
  "mint_id = bindA (getA rg_minted) (\<lambda>n. bindA (modifyA (rg_minted_update Suc)) (\<lambda>_. askA (\<lambda>ho. ho_ids ho n)))"

section \<open>Handles\<close>

definition path_hash :: "jsstring \<Rightarrow> int" where
  "path_hash s = foldl (\<lambda>accumulator c. to_int32 (accumulator * 31 + uint c)) 0 s"

text \<open>\<^verbatim>\<open>toString(36)\<close>.\<close>

definition digit36 :: "nat \<Rightarrow> code_unit" where
  "digit36 n = (if n < 10 then of_nat (0x30 + n) else of_nat (0x57 + n))"

fun base36 :: "nat \<Rightarrow> jsstring" where
  "base36 n = (if n < 36 then [digit36 n] else base36 (n div 36) @ [digit36 (n mod 36)])"

declare base36.simps [simp del]

definition handle_name :: "nat \<Rightarrow> jsstring \<Rightarrow> jsstring \<Rightarrow> jsstring" where
  "handle_name n rootId p =
     str ''dir_'' @ base36 (n + 1) @ base36 (nat \<bar>path_hash (rootId @ [0x2f] @ p)\<bar>)"

definition mintHandle :: "jsstring \<Rightarrow> jsstring \<Rightarrow> ('z registry_scheme, jsstring) act" where
  "mintHandle rootId p =
     bindA (getA (\<lambda>s. handle_name (length (rg_handles s)) rootId p)) (\<lambda>handle.
     bindA (modifyA (rg_handles_update (AList.update handle \<lparr>hr_rootId = rootId, hr_relativePath = p\<rparr>))) (\<lambda>_.
     retA handle))"

text \<open>Why a declared parent does not hold the root, if it does not.\<close>

definition parent_refusal :: "jsstring \<Rightarrow> jsstring \<Rightarrow> (jsstring, approved_root) jsmap \<Rightarrow> jsstring option \<Rightarrow> jsstring option" where
  "parent_refusal cwd r roots parentRootId =
     (case parentRootId of
        None \<Rightarrow> None
      | Some i \<Rightarrow>
          (case map_of roots i of
             None \<Rightarrow> Some (str ''root '' @ r @ str '' is not inside its declared parent '' @ i)
           | Some parent \<Rightarrow>
               if isInsideOrEqual cwd (ar_path parent) r then None
               else Some (str ''root '' @ r @ str '' is not inside its declared parent '' @ ar_path parent)))"

definition approveRoot :: "jsstring \<Rightarrow> jsstring \<Rightarrow> jsstring option \<Rightarrow> ('z registry_scheme, approved_root) act" where
  "approveRoot rootId p parentRootId =
     (if \<not> isAbsolute p then throwA (HandleFailed HandleForbidden (str ''approved root must be an absolute path: '' @ p))
      else bindA (nativeA (\<lambda>ho. ho_realpath ho p)) (\<lambda>r.
           bindA (nativeA (\<lambda>ho. ho_stat ho r)) (\<lambda>info.
           if \<not> fst_directory info then throwA (HandleFailed HandleForbidden (str ''approved root is not a directory: '' @ r))
           else bindA (askA ho_cwd) (\<lambda>cwd. bindA (getA (\<lambda>s. parent_refusal cwd r (rg_roots s) parentRootId)) (\<lambda>refusal.
             case refusal of
               Some m \<Rightarrow> throwA (HandleFailed HandleForbidden m)
             | None \<Rightarrow>
                 (let root = \<lparr>ar_allowedRootId = rootId, ar_path = r, ar_parentRootId = parentRootId\<rparr>
                  in bindA (modifyA (rg_roots_update (AList.update rootId root))) (\<lambda>_. retA root)))))))"

definition root_of :: "jsstring \<Rightarrow> ('z registry_scheme, approved_root) act" where
  "root_of rootId = bindA (getA (\<lambda>s. map_of (rg_roots s) rootId)) (\<lambda>found. case found of
       None \<Rightarrow> throwA (HandleFailed HandleForbidden (str ''unknown approved root '' @ rootId))
     | Some root \<Rightarrow> retA root)"

definition handleFor :: "jsstring \<Rightarrow> jsstring \<Rightarrow> ('z registry_scheme, jsstring) act" where
  "handleFor rootId p =
     bindA (root_of rootId) (\<lambda>_.
     if p \<noteq> [] \<and> \<not> isSafeRelativePath p then throwA (HandleFailed HandleForbidden (str ''unsafe relative path: '' @ p))
     else mintHandle rootId p)"

definition resolveHandle :: "jsstring \<Rightarrow> ('z registry_scheme, resolved_handle) act" where
  "resolveHandle handle =
     bindA (getA (\<lambda>s. map_of (rg_handles s) handle)) (\<lambda>found. case found of
       None \<Rightarrow> throwA (HandleFailed HandleNotFound (str ''unknown directory handle '' @ handle))
     | Some rec \<Rightarrow>
         bindA (getA (\<lambda>s. map_of (rg_roots s) (hr_rootId rec))) (\<lambda>root. case root of
           None \<Rightarrow> throwA (HandleFailed HandleForbidden (str ''handle '' @ handle @ str '' refers to a root that is no longer approved''))
         | Some root \<Rightarrow>
             bindA (nativeA (\<lambda>ho. ho_realpath ho
               (if hr_relativePath rec = [] then ar_path root else join_path [ar_path root, hr_relativePath rec]))) (\<lambda>r.
             bindA (askA ho_cwd) (\<lambda>cwd.
             if \<not> isInsideOrEqual cwd (ar_path root) r
             then throwA (HandleFailed HandleForbidden (str ''directory '' @ r @ str '' escapes its approved root''))
             else bindA (nativeA (\<lambda>ho. ho_stat ho r)) (\<lambda>info.
               if \<not> fst_directory info
               then throwA (HandleFailed HandleNotFound (str ''handle '' @ handle @ str '' no longer names a directory''))
               else retA \<lparr>rh_handle = handle, rh_absolutePath = r, rh_root = root, rh_relativePath = hr_relativePath rec\<rparr>)))))"

definition resolveDestination :: "jsstring \<Rightarrow> jsstring \<Rightarrow> ('z registry_scheme, resolved_handle) act" where
  "resolveDestination rootId p =
     bindA (root_of rootId) (\<lambda>root.
     if \<not> isSafeRelativePath p then throwA (HandleFailed HandleForbidden (str ''unsafe destination: '' @ p))
     else bindA (askA ho_cwd) (\<lambda>cwd.
       let candidate = absolute_path (resolved (ar_path root) p) in
       if \<not> isInsideOrEqual cwd (ar_path root) candidate
       then throwA (HandleFailed HandleForbidden (str ''destination '' @ candidate @ str '' escapes its approved root''))
       else bindA (mintHandle rootId p) (\<lambda>handle.
         retA \<lparr>rh_handle = handle, rh_absolutePath = candidate, rh_root = root, rh_relativePath = p\<rparr>)))"

section \<open>Pinned identities\<close>

definition DEFAULT_PIN_BUDGET :: nat where "DEFAULT_PIN_BUDGET = 128"

datatype directory_state = Intact | Missing | Replaced

text \<open>\<^verbatim>\<open>hold\<close> and \<^verbatim>\<open>pin\<close>: the pin, and whether a descriptor was taken from the budget.\<close>

definition pin_directory :: "nat \<Rightarrow> jsstring \<Rightarrow> file_stat \<Rightarrow> host \<Rightarrow> directory_pin" where
  "pin_directory held p info ho = \<lparr>pi_path = p, pi_dev = fst_dev info, pi_ino = fst_ino info,
     pi_descriptor = (if DEFAULT_PIN_BUDGET \<le> held \<or> ho_windows ho then None else ho_open ho p)\<rparr>"

definition pin_cost :: "directory_pin \<Rightarrow> nat" where
  "pin_cost p = (if pi_descriptor p = None then 0 else 1)"

definition pin_check :: "directory_pin \<Rightarrow> host \<Rightarrow> directory_state" where
  "pin_check p ho =
     (case ho_stat ho (pi_path p) of
        Inl _ \<Rightarrow> Missing
      | Inr current \<Rightarrow>
          if \<not> fst_directory current then Replaced
          else if fst_dev current \<noteq> pi_dev p \<or> fst_ino current \<noteq> pi_ino p then Replaced
          else (case pi_descriptor p of
                  None \<Rightarrow> Intact
                | Some d \<Rightarrow> if ho_links ho d = Some 0 then Replaced else Intact))"

section \<open>Roots\<close>

definition approve :: "jsstring \<Rightarrow> bool \<Rightarrow> ('z registry_scheme, root_record) act" where
  "approve p executionTrusted =
     (if encodeExecutionPath p = None
      then throwA (HandleFailed HandleUnsupported (str ''the root path cannot be represented exactly; register a parent directory with a representable path''))
      else bindA (nativeA (\<lambda>ho. ho_realpath ho p)) (\<lambda>r.
           bindA (nativeA (\<lambda>ho. ho_stat ho r)) (\<lambda>info.
           if \<not> fst_directory info then throwA (HandleFailed HandleForbidden (str ''root is not a directory: '' @ r))
           else bindA mint_id (\<lambda>rootId.
                bindA (approveRoot rootId r None) (\<lambda>_.
                bindA (getA rg_rootPins) (\<lambda>held.
                bindA (askA (pin_directory held r info)) (\<lambda>pin.
                bindA (askA ho_now) (\<lambda>current.
                let rec = \<lparr>ro_allowedRootId = rootId, ro_path = r, ro_displayPath = toDisplayPath (utf8_bytes r),
                      ro_executionTrusted = executionTrusted, ro_repositoryIds = [], ro_identity = (pi_dev pin, pi_ino pin),
                      ro_approvedAtMs = current\<rparr>
                in bindA (modifyA (\<lambda>s. s\<lparr>rg_rootPins := rg_rootPins s + pin_cost pin,
                     rg_approvals := AList.update rootId (rec, pin) (rg_approvals s)\<rparr>)) (\<lambda>_. retA rec))))))))) "

definition root_list :: "'z registry_scheme \<Rightarrow> root_record list" where
  "root_list s = map (fst \<circ> snd) (rg_approvals s)"

definition requireIntact :: "jsstring \<Rightarrow> ('z registry_scheme, root_record) act" where
  "requireIntact rootId =
     bindA (getA (\<lambda>s. map_of (rg_approvals s) rootId)) (\<lambda>found. case found of
       None \<Rightarrow> throwA (HandleFailed HandleForbidden (str ''unknown approved root '' @ rootId))
     | Some (rec, pin) \<Rightarrow>
         bindA (askA (pin_check pin)) (\<lambda>state.
         case state of
           Missing \<Rightarrow> throwA (HandleFailed HandleNotFound (str ''the approved root '' @ ro_path rec @ str '' no longer exists''))
         | Replaced \<Rightarrow> throwA (HandleFailed HandleForbidden
             (str ''the approved root '' @ ro_path rec @ str '' was replaced; approve the directory again''))
         | Intact \<Rightarrow> retA rec))"

definition map_root_repositories :: "jsstring \<Rightarrow> (jsstring list \<Rightarrow> jsstring list) \<Rightarrow> 'z registry_scheme \<Rightarrow> 'z registry_scheme" where
  "map_root_repositories rootId f s =
     (case map_of (rg_approvals s) rootId of
        None \<Rightarrow> s
      | Some (rec, pin) \<Rightarrow> s\<lparr>rg_approvals := AList.update rootId (ro_repositoryIds_update f rec, pin) (rg_approvals s)\<rparr>)"

definition attachRepository :: "jsstring \<Rightarrow> jsstring \<Rightarrow> 'z registry_scheme \<Rightarrow> 'z registry_scheme" where
  "attachRepository rootId repo =
     map_root_repositories rootId (\<lambda>ids. if repo \<in> set ids then ids else ids @ [repo])"

definition detachRepository :: "jsstring \<Rightarrow> jsstring \<Rightarrow> 'z registry_scheme \<Rightarrow> 'z registry_scheme" where
  "detachRepository rootId repo = map_root_repositories rootId (filter (\<lambda>i. i \<noteq> repo))"

section \<open>Worktrees\<close>

text \<open>Where Git says a worktree is: its real path, or the path as shown when there is none.\<close>

definition worktree_path :: "display_path \<Rightarrow> host \<Rightarrow> jsstring" where
  "worktree_path d ho =
     (if dp_representable d then (case ho_realpath ho (dp_text d) of Inr r \<Rightarrow> r | Inl _ \<Rightarrow> dp_text d) else dp_text d)"

definition worktree_id :: "jsstring \<Rightarrow> ('z registry_scheme, jsstring) act" where
  "worktree_id p =
     bindA (getA (\<lambda>s. map_of (rg_idByPath s) p)) (\<lambda>known. case known of
       Some i \<Rightarrow> retA i
     | None \<Rightarrow> bindA mint_id (\<lambda>i. bindA (modifyA (rg_idByPath_update (AList.update p i))) (\<lambda>_. retA i)))"

definition worktree_handle :: "approved_root \<Rightarrow> display_path \<Rightarrow> jsstring \<Rightarrow> ('z registry_scheme, jsstring option) act" where
  "worktree_handle root d r =
     bindA (askA ho_cwd) (\<lambda>cwd.
     if dp_representable d \<and> isInsideOrEqual cwd (ar_path root) r
     then catchA (bindA (handleFor (ar_allowedRootId root) (relative_path cwd (ar_path root) r)) (\<lambda>i. retA (Some i))) (\<lambda>_. retA None)
     else retA None)"

definition reconcile_one ::
  "jsstring \<Rightarrow> approved_root \<Rightarrow> jsstring option \<Rightarrow> listed_worktree \<Rightarrow> ('z registry_scheme, host_worktree) act" where
  "reconcile_one repo root primaryPath listed =
     (let d = toDisplayPath (wr_pathBytes listed) in
      bindA (askA (worktree_path d)) (\<lambda>r.
      bindA (worktree_id r) (\<lambda>i.
      bindA (worktree_handle root d r) (\<lambda>handle.
      let w = \<lparr>hw_worktreeId = i, hw_repositoryId = repo, hw_path = r, hw_displayPath = d, hw_handle = handle,
            hw_isMain = (primaryPath = Some r), hw_isBare = wr_bare listed, hw_headOid = listed_worktree.wr_headOid listed,
            hw_branchRef = wr_branchRef listed, hw_detached = wr_detached listed, hw_locked = wr_locked listed,
            hw_lockReason = map_option toDisplayPath (wr_lockReasonBytes listed), hw_prunable = wr_prunable listed\<rparr>
      in bindA (modifyA (rg_worktrees_update (AList.update i w))) (\<lambda>_. retA w)))))"

fun reconcile_loop ::
  "jsstring \<Rightarrow> approved_root \<Rightarrow> jsstring option \<Rightarrow> listed_worktree list \<Rightarrow> host_worktree list \<Rightarrow> ('z registry_scheme, host_worktree list) act" where
  "reconcile_loop repo root primaryPath [] ws = retA ws"
| "reconcile_loop repo root primaryPath (l # ls) ws =
     bindA (reconcile_one repo root primaryPath l) (\<lambda>w. reconcile_loop repo root primaryPath ls (ws @ [w]))"

text \<open>Worktrees of the repository that were not listed are forgotten.\<close>

definition gone_worktrees :: "jsstring \<Rightarrow> jsstring list \<Rightarrow> (jsstring, host_worktree) jsmap \<Rightarrow> (jsstring, host_worktree) jsmap" where
  "gone_worktrees repo seen m = filter (\<lambda>(i, w). hw_repositoryId w = repo \<and> i \<notin> set seen) m"

definition forget_worktrees :: "(jsstring, host_worktree) jsmap \<Rightarrow> 'z registry_scheme \<Rightarrow> 'z registry_scheme" where
  "forget_worktrees gone s = s\<lparr>rg_worktrees := delete_keys (map fst gone) (rg_worktrees s),
     rg_idByPath := delete_keys (map (hw_path \<circ> snd) gone) (rg_idByPath s)\<rparr>"

definition reconcile ::
  "jsstring \<Rightarrow> jsstring \<Rightarrow> listed_worktree list \<Rightarrow> jsstring option \<Rightarrow> ('z registry_scheme, host_worktree list \<times> jsstring list) act" where
  "reconcile repo rootId listed primaryPath =
     bindA (root_of rootId) (\<lambda>root.
     bindA (reconcile_loop repo root primaryPath listed []) (\<lambda>ws.
     bindA (getA (\<lambda>s. gone_worktrees repo (map hw_worktreeId ws) (rg_worktrees s))) (\<lambda>gone.
     bindA (modifyA (forget_worktrees gone)) (\<lambda>_. retA (ws, map fst gone)))))"

definition worktree_list :: "jsstring \<Rightarrow> 'z registry_scheme \<Rightarrow> host_worktree list" where
  "worktree_list repo s = filter (\<lambda>w. hw_repositoryId w = repo) (map snd (rg_worktrees s))"

text \<open>\<^verbatim>\<open>worktrees.find((w) => w.isMain) ?? worktrees[0]\<close>.\<close>

definition main_or_first :: "host_worktree list \<Rightarrow> host_worktree option" where
  "main_or_first ws = (case find hw_isMain ws of Some w \<Rightarrow> Some w | None \<Rightarrow> (case ws of [] \<Rightarrow> None | w # _ \<Rightarrow> Some w))"

definition requireWorktree :: "jsstring \<Rightarrow> jsstring option \<Rightarrow> ('z registry_scheme, host_worktree) act" where
  "requireWorktree repo wanted =
     (case wanted of
        None \<Rightarrow> bindA (getA (\<lambda>s. main_or_first (worktree_list repo s))) (\<lambda>primary. case primary of
            None \<Rightarrow> throwA (HandleFailed HandleNotFound (str ''repository '' @ repo @ str '' has no worktrees registered''))
          | Some w \<Rightarrow> retA w)
      | Some i \<Rightarrow> bindA (getA (\<lambda>s. map_of (rg_worktrees s) i)) (\<lambda>found.
          let w = Option.bind found (\<lambda>w. if hw_repositoryId w = repo then Some w else None) in
          case w of
            None \<Rightarrow> throwA (HandleFailed HandleNotFound (str ''worktree '' @ i @ str '' is not part of repository '' @ repo))
          | Some w \<Rightarrow> retA w))"

section \<open>Repositories\<close>

definition entryOf :: "jsstring \<Rightarrow> ('z registry_scheme, repository_entry \<times> directory_pin) act" where
  "entryOf repo = bindA (getA (\<lambda>s. map_of (rg_records s) repo)) (\<lambda>found. case found of
       None \<Rightarrow> throwA (HandleFailed HandleNotFound (str ''unknown repository '' @ repo))
     | Some e \<Rightarrow> retA e)"

definition readWorktreeList :: "host_worktree \<Rightarrow> ('z registry_scheme, listed_worktree list) act" where
  "readWorktreeList w =
     (case hw_handle w of
        None \<Rightarrow> throwA (HandleFailed HandleForbidden (dp_text (hw_displayPath w) @
          str '' is outside every approved root; approve it before reading this repository''))
      | Some handle \<Rightarrow> gitA (readWorktreeFacts handle))"

definition reconcileWorktrees :: "repository_entry \<Rightarrow> ('z registry_scheme, host_worktree list) act" where
  "reconcileWorktrees rec =
     bindA (requireWorktree (rp_repositoryId rec) (Some (rp_primaryWorktreeId rec))) (\<lambda>primary.
     bindA (readWorktreeList primary) (\<lambda>listed.
     bindA (reconcile (rp_repositoryId rec) (rp_allowedRootId rec) listed
       (if rp_bare rec then None else Some (dp_text (rp_displayPath rec)))) (\<lambda>(ws, removed). retA ws)))"

definition release_repository_pin :: "directory_pin \<Rightarrow> 'z registry_scheme \<Rightarrow> 'z registry_scheme" where
  "release_repository_pin pin s = s\<lparr>rg_repositoryPins := rg_repositoryPins s - pin_cost pin\<rparr>"

definition drop_record :: "jsstring \<Rightarrow> jsstring \<Rightarrow> directory_pin \<Rightarrow> 'z registry_scheme \<Rightarrow> 'z registry_scheme" where
  "drop_record repo commonDir pin s =
     release_repository_pin pin (s\<lparr>rg_records := AList.delete repo (rg_records s), rg_byCommonDir := AList.delete commonDir (rg_byCommonDir s)\<rparr>)"

text \<open>The second half of \<^verbatim>\<open>register\<close>: the worktrees of a record that is in the maps already.\<close>

definition complete_registration ::
  "jsstring \<Rightarrow> resolved_handle \<Rightarrow> repository_entry \<Rightarrow> directory_pin \<Rightarrow> ('z registry_scheme, repository_entry) act" where
  "complete_registration handle r rec pin =
     bindA (gitA (readWorktreeFacts handle)) (\<lambda>listed.
     bindA (reconcile (rp_repositoryId rec) (rp_allowedRootId rec) listed (if rp_bare rec then None else Some (rh_absolutePath r))) (\<lambda>(ws, removed).
     case (case find hw_isMain ws of Some w \<Rightarrow> Some w | None \<Rightarrow>
             (case find (\<lambda>w. hw_path w = rh_absolutePath r) ws of Some w \<Rightarrow> Some w | None \<Rightarrow> (case ws of [] \<Rightarrow> None | w # _ \<Rightarrow> Some w))) of
       None \<Rightarrow> throwA (HandleFailed HandleNotFound (rh_absolutePath r @ str '' is not a Git worktree''))
     | Some primary \<Rightarrow>
         (let registered = rec\<lparr>rp_primaryWorktreeId := hw_worktreeId primary, rp_worktreeIds := map hw_worktreeId ws\<rparr>
          in bindA (modifyA (\<lambda>s. attachRepository (rp_allowedRootId rec) (rp_repositoryId rec)
               (s\<lparr>rg_records := AList.update (rp_repositoryId rec) (registered, pin) (rg_records s)\<rparr>))) (\<lambda>_. retA registered))))"

definition new_entry :: "jsstring \<Rightarrow> jsstring \<Rightarrow> resolved_handle \<Rightarrow> layout_facts \<Rightarrow> directory_pin \<Rightarrow> int \<Rightarrow> repository_entry" where
  "new_entry repo rootId r layout pin current =
     \<lparr>rp_repositoryId = repo, rp_allowedRootId = rootId, rp_displayPath = toDisplayPath (utf8_bytes (rh_absolutePath r)),
      rp_displayName = (let name = base_name (rh_absolutePath r) in if name \<noteq> [] then name else [0x2f]),
      rp_commonDir = lf_commonDir layout, rp_gitDir = lf_gitDir layout, rp_objectFormat = lf_objectFormat layout,
      rp_bare = lf_bare layout, rp_shallow = lf_shallow layout, rp_identity = (pi_dev pin, pi_ino pin),
      rp_registeredAtMs = current, rp_primaryWorktreeId = [], rp_worktreeIds = []\<rparr>"

definition new_registration ::
  "jsstring \<Rightarrow> jsstring \<Rightarrow> resolved_handle \<Rightarrow> layout_facts \<Rightarrow> file_stat \<Rightarrow> ('z registry_scheme, repository_entry) act" where
  "new_registration rootId handle r layout info =
     bindA mint_id (\<lambda>repo.
     bindA (getA rg_repositoryPins) (\<lambda>held.
     bindA (askA (pin_directory held (lf_commonDir layout) info)) (\<lambda>pin.
     bindA (askA ho_now) (\<lambda>current.
     let rec = new_entry repo rootId r layout pin current in
     bindA (modifyA (\<lambda>s. s\<lparr>rg_repositoryPins := rg_repositoryPins s + pin_cost pin,
          rg_records := AList.update repo (rec, pin) (rg_records s),
          rg_byCommonDir := AList.update (lf_commonDir layout) repo (rg_byCommonDir s)\<rparr>)) (\<lambda>_.
     catchA (complete_registration handle r rec pin)
       (\<lambda>e. bindA (modifyA (drop_record repo (lf_commonDir layout) pin)) (\<lambda>_. throwA e)))))))"

text \<open>The repository of a common directory: the one that is registered, or a new one.\<close>

definition register_layout ::
  "jsstring \<Rightarrow> jsstring \<Rightarrow> resolved_handle \<Rightarrow> layout_facts \<Rightarrow> file_stat \<Rightarrow> ('z registry_scheme, repository_entry) act" where
  "register_layout rootId handle r layout info =
     bindA (getA (\<lambda>s. Option.bind (map_of (rg_byCommonDir s) (lf_commonDir layout)) (map_of (rg_records s)))) (\<lambda>existing.
     case existing of
       Some (rec, pin) \<Rightarrow> bindA (reconcileWorktrees rec) (\<lambda>_. retA rec)
     | None \<Rightarrow> new_registration rootId handle r layout info)"

definition register_handle :: "jsstring \<Rightarrow> jsstring \<Rightarrow> ('z registry_scheme, repository_entry) act" where
  "register_handle rootId handle =
     bindA (resolveHandle handle) (\<lambda>r.
     bindA (gitA (readLayout handle)) (\<lambda>layout.
     bindA (hostA (\<lambda>ho. case ho_stat ho (lf_commonDir layout) of
          Inl _ \<Rightarrow> Inl (HandleFailed HandleNotFound (str ''the Git common directory '' @ lf_commonDir layout @ str '' could not be read''))
        | Inr info \<Rightarrow> Inr info)) (register_layout rootId handle r layout)))"

definition registerRepository :: "jsstring \<Rightarrow> jsstring \<Rightarrow> ('z registry_scheme, repository_entry) act" where
  "registerRepository rootId p =
     bindA (requireIntact rootId) (\<lambda>_. bindA (handleFor rootId p) (register_handle rootId))"

definition requireRepository :: "jsstring \<Rightarrow> ('z registry_scheme, repository_entry) act" where
  "requireRepository repo =
     bindA (entryOf repo) (\<lambda>(rec, pin).
     bindA (requireIntact (rp_allowedRootId rec)) (\<lambda>_.
     bindA (askA (pin_check pin)) (\<lambda>state.
     case state of
       Missing \<Rightarrow> throwA (HandleFailed HandleNotFound (str ''the Git directory of '' @ rp_displayName rec @ str '' is gone; register it again''))
     | Replaced \<Rightarrow> throwA (HandleFailed HandleForbidden (rp_displayName rec @ str '' was replaced since it was registered; register it again''))
     | Intact \<Rightarrow> retA rec)))"

definition repository_list :: "'z registry_scheme \<Rightarrow> repository_entry list" where
  "repository_list s = map (fst \<circ> snd) (rg_records s)"

definition worktreesOf :: "jsstring \<Rightarrow> ('z registry_scheme, host_worktree list) act" where
  "worktreesOf repo =
     bindA (entryOf repo) (\<lambda>(_, pin).
     bindA (requireRepository repo) (\<lambda>rec.
     bindA (reconcileWorktrees rec) (\<lambda>ws.
     bindA (modifyA (rg_records_update (AList.update repo (rec\<lparr>rp_worktreeIds := map hw_worktreeId ws\<rparr>, pin)))) (\<lambda>_.
     retA ws))))"

definition repositoryWorktree :: "jsstring \<Rightarrow> jsstring option \<Rightarrow> ('z registry_scheme, host_worktree) act" where
  "repositoryWorktree repo wanted =
     bindA (requireRepository repo) (\<lambda>rec.
     case wanted of
       Some i \<Rightarrow> requireWorktree repo (Some i)
     | None \<Rightarrow>
         bindA (getA (\<lambda>s. map_of (rg_worktrees s) (rp_primaryWorktreeId rec))) (\<lambda>existing. case existing of
           Some w \<Rightarrow> retA w
         | None \<Rightarrow> bindA (reconcileWorktrees rec) (\<lambda>ws. case main_or_first ws of
             None \<Rightarrow> throwA (HandleFailed HandleNotFound (str ''repository '' @ repo @ str '' has no worktrees''))
           | Some w \<Rightarrow> retA w)))"

definition unregister :: "jsstring \<Rightarrow> 'z registry_scheme \<Rightarrow> 'z registry_scheme" where
  "unregister repo s =
     (case map_of (rg_records s) repo of
        None \<Rightarrow> s
      | Some (rec, pin) \<Rightarrow> detachRepository (rp_allowedRootId rec) repo (drop_record repo (rp_commonDir rec) pin s))"

section \<open>Approval by a person\<close>

datatype approval_result = RegistrationDone jsstring jsstring jsstring | RegistrationRefused string jsstring

datatype revocation_result = RevocationDone jsstring jsstring bool | RevocationRefused string jsstring

definition expandUserPath :: "jsstring \<Rightarrow> jsstring \<Rightarrow> jsstring" where
  "expandUserPath home input =
     (let t = js_trim input
      in if t = str ''~'' then home
         else if startsWith t (str ''~/'') then join_path [home, drop 2 t]
         else t)"

definition longer_first :: "root_record list \<Rightarrow> root_record list" where
  "longer_first rs = sort_key (\<lambda>r. - int (length (ro_path r))) rs"

definition containingRoot :: "jsstring \<Rightarrow> jsstring \<Rightarrow> root_record list \<Rightarrow> root_record option" where
  "containingRoot cwd p roots =
     (case longer_first (filter (\<lambda>r. isInsideOrEqual cwd (ro_path r) p) roots) of [] \<Rightarrow> None | r # _ \<Rightarrow> Some r)"

definition lower_ascii :: "code_unit \<Rightarrow> code_unit" where
  "lower_ascii c = (if 0x41 \<le> c \<and> c \<le> 0x5a then c + 0x20 else c)"

definition containsGitDirectory :: "jsstring \<Rightarrow> bool" where
  "containsGitDirectory p \<longleftrightarrow>
     list_ex (\<lambda>s. map lower_ascii s = str ''.git'') (concat (map (splitOn 0x5c) (splitOn 0x2f p)))"

definition handle_code_name :: "handle_code \<Rightarrow> string" where
  "handle_code_name c = (case c of HandleForbidden \<Rightarrow> ''Forbidden'' | HandleNotFound \<Rightarrow> ''NotFound'' | HandleUnsupported \<Rightarrow> ''UnsupportedPathEncoding'')"

definition registrationProblem :: "host_error \<Rightarrow> jsstring \<Rightarrow> approval_result" where
  "registrationProblem e p =
     (case e of
        HandleFailed c m \<Rightarrow> RegistrationRefused (handle_code_name c) m
      | NativeFailed m \<Rightarrow> RegistrationRefused ''NotFound'' (p @ str '' is not a readable Git repository: '' @ m)
      | ProblemFailed q \<Rightarrow> RegistrationRefused ''NotFound'' (p @ str '' is not a readable Git repository: '' @ pr_message q)
      | GitFailed f \<Rightarrow> RegistrationRefused ''NotFound'' (p @ str '' is not a readable Git repository: '' @
          (case f of WorkflowError w \<Rightarrow> we_message w | OtherError j \<Rightarrow> error_message j)))"

text \<open>\<^verbatim>\<open>try { ... } catch (error) { return ... }\<close>: a result that stops, or a value to go on with.\<close>

definition orRefuse :: "('s, 'a) act \<Rightarrow> (host_error \<Rightarrow> 'r) \<Rightarrow> ('a \<Rightarrow> ('s, 'r) act) \<Rightarrow> ('s, 'r) act" where
  "orRefuse m onError k = (\<lambda>ho g h s. case m ho g h s of
     (h', s', Inl e) \<Rightarrow> (h', s', Inr (onError e)) | (h', s', Inr x) \<Rightarrow> k x ho g h' s')"

definition append_access :: "access_entry \<Rightarrow> ('z registry_scheme, jsstring option) act" where
  "append_access e = bindA (askA ho_accessLog) (\<lambda>failed. case failed of
     Some m \<Rightarrow> retA (Some m) | None \<Rightarrow> bindA (modifyA (rg_accessLog_update (\<lambda>l. l @ [e]))) (\<lambda>_. retA None))"

definition find_registered :: "jsstring \<Rightarrow> 'z registry_scheme \<Rightarrow> repository_entry option" where
  "find_registered p s = find (\<lambda>rec. dp_text (rp_displayPath rec) = p) (repository_list s)"

text \<open>The registration of a path that stands under an approved root.\<close>

definition register_under :: "jsstring \<Rightarrow> jsstring \<Rightarrow> root_record \<Rightarrow> ('z registry_scheme, approval_result) act" where
  "register_under actor p root =
     bindA (askA ho_cwd) (\<lambda>cwd.
     bindA (getA (\<lambda>s. map rp_repositoryId (repository_list s))) (\<lambda>before.
     orRefuse (registerRepository (ro_allowedRootId root) (relative_path cwd (ro_path root) p)) (\<lambda>e. registrationProblem e p) (\<lambda>rec.
     if rp_repositoryId rec \<in> set before
     then retA (RegistrationRefused ''Conflict'' (str ''that repository is already registered as '' @ rp_repositoryId rec))
     else bindA (askA ho_now) (\<lambda>current.
          bindA (append_access \<lparr>ae_action = ''register'', ae_path = p, ae_allowedRootId = ro_allowedRootId root,
               ae_repositoryId = rp_repositoryId rec, ae_actor = actor, ae_atMs = current\<rparr>) (\<lambda>failed. case failed of
            Some m \<Rightarrow> bindA (modifyA (unregister (rp_repositoryId rec))) (\<lambda>_.
              retA (RegistrationRefused ''Unavailable''
                (str ''the repository was not approved because its access record could not be written: '' @ m)))
          | None \<Rightarrow> retA (RegistrationDone (rp_repositoryId rec) (ro_allowedRootId root) p))))))"

definition approveRepository :: "jsstring \<Rightarrow> jsstring \<Rightarrow> ('z registry_scheme, approval_result) act" where
  "approveRepository input actor =
     bindA (askA (\<lambda>ho. (expandUserPath (ho_home ho) input, ho_cwd ho))) (\<lambda>(requested, cwd).
     if \<not> isAbsolute requested
     then retA (RegistrationRefused ''InvalidRequest''
       (str ''repository path must be absolute; the host will not resolve a browser path against its own cwd''))
     else orRefuse (nativeA (\<lambda>ho. ho_realpath ho requested))
       (\<lambda>_. RegistrationRefused ''NotFound'' (str ''the selected repository path does not exist: '' @ input)) (\<lambda>p.
     if containsGitDirectory p
     then retA (RegistrationRefused ''Forbidden'' (str ''a path inside .git is not a repository registration target''))
     else bindA (getA root_list) (\<lambda>roots.
     if (case containingRoot cwd requested roots of None \<Rightarrow> False | Some r \<Rightarrow> \<not> isInsideOrEqual cwd (ro_path r) p)
     then retA (RegistrationRefused ''Forbidden'' (str ''the selected path resolves outside its approved root''))
     else bindA (getA (find_registered p)) (\<lambda>existing. case existing of
       Some rec \<Rightarrow> retA (RegistrationRefused ''Conflict'' (str ''that repository is already registered as '' @ rp_repositoryId rec))
     | None \<Rightarrow>
         orRefuse (case containingRoot cwd p roots of None \<Rightarrow> approve p True | Some r \<Rightarrow> retA r) (\<lambda>e. registrationProblem e p)
           (register_under actor p)))))"

definition revokeRegistration :: "jsstring \<Rightarrow> jsstring \<Rightarrow> ('z registry_scheme, revocation_result) act" where
  "revokeRegistration repo actor =
     bindA (getA (\<lambda>s. map_option fst (map_of (rg_records s) repo))) (\<lambda>found. case found of
       None \<Rightarrow> retA (RevocationRefused ''NotFound'' (str ''no registered repository '' @ repo))
     | Some rec \<Rightarrow>
         bindA (getA (\<lambda>s. list_ex (\<lambda>c. rp_repositoryId c \<noteq> rp_repositoryId rec \<and> rp_allowedRootId c = rp_allowedRootId rec) (repository_list s))) (\<lambda>remaining.
         bindA (askA ho_now) (\<lambda>current.
         bindA (append_access \<lparr>ae_action = ''revoke'', ae_path = dp_text (rp_displayPath rec), ae_allowedRootId = rp_allowedRootId rec,
              ae_repositoryId = rp_repositoryId rec, ae_actor = actor, ae_atMs = current\<rparr>) (\<lambda>failed. case failed of
           Some m \<Rightarrow> retA (RevocationRefused ''Unavailable''
             (str ''the repository was not revoked because its access record could not be written: '' @ m))
         | None \<Rightarrow> bindA (modifyA (unregister (rp_repositoryId rec))) (\<lambda>_.
             retA (RevocationDone (rp_repositoryId rec) (rp_allowedRootId rec) remaining))))))"

end
