(* ===== verification/RegistryRules.thy ===== *)
theory RegistryRules
  imports Registry
begin

text \<open>
  What the registry promises: the maps of roots and repositories stay in step, a grant is bound to the directory it was
  given for, descriptors are counted, and a command only ever runs below an approved root; and the approvals that are
  left behind or lost. \<open>registry_reachable\<close> are the states a run of the service can reach.
\<close>

section \<open>Parts of the state an action leaves alone\<close>

definition final :: "git_log \<times> 's \<times> 'r \<Rightarrow> 's" where "final r = fst (snd r)"
definition outcome :: "git_log \<times> 's \<times> 'r \<Rightarrow> 'r" where "outcome r = snd (snd r)"

lemma final_outcome [simp]: "final (h, s, x) = s" "outcome (h, s, x) = x"
  by (simp_all add: final_def outcome_def)

text \<open>Grants are left as they were; ids, handles and worktrees may come and go.\<close>

definition same_grants :: "'z registry_scheme \<Rightarrow> 'z registry_scheme \<Rightarrow> bool" where
  "same_grants s t \<longleftrightarrow> rg_roots t = rg_roots s \<and> rg_rootPins t = rg_rootPins s \<and> rg_approvals t = rg_approvals s \<and>
     rg_repositoryPins t = rg_repositoryPins s \<and> rg_records t = rg_records s \<and> rg_byCommonDir t = rg_byCommonDir s \<and>
     rg_accessLog t = rg_accessLog s \<and> rg_minted s \<le> rg_minted t"

definition frames :: "('z registry_scheme, 'a) act \<Rightarrow> bool" where
  "frames m \<longleftrightarrow> (\<forall>ho g h s. same_grants s (final (m ho g h s)))"

named_theorems frames

lemma same_grants_refl [simp]: "same_grants s s"
  by (simp add: same_grants_def)

lemma same_grants_trans: "same_grants s t \<Longrightarrow> same_grants t u \<Longrightarrow> same_grants s u"
  by (simp add: same_grants_def)

lemma frames_basic [frames]:
  "frames (retA x)" "frames (throwA e)" "frames (gitA p)" "frames (hostA f)" "frames (getA f')" "frames (askA f'')" "frames (nativeA f''')"
  by (simp_all add: frames_def retA_def throwA_def gitA_def hostA_def getA_def askA_def nativeA_def split: prod.split)

lemma frames_modify [frames]: "(\<And>s. same_grants s (f s)) \<Longrightarrow> frames (modifyA f)"
  by (simp add: frames_def modifyA_def)

lemma frames_bind [frames]: "frames m \<Longrightarrow> (\<And>x. frames (f x)) \<Longrightarrow> frames (bindA m f)"
  unfolding frames_def bindA_def
proof (intro allI)
  fix ho g h s
  assume m: "\<forall>ho g h s. same_grants s (final (m ho g h s))" and f: "\<And>x. \<forall>ho g h s. same_grants s (final (f x ho g h s))"
  obtain h1 s1 r where r: "m ho g h s = (h1, s1, r)" by (cases "m ho g h s")
  then have "same_grants s s1"
    using m by (metis final_outcome(1))
  then show "same_grants s (final (case m ho g h s of (h', s', Inl e) \<Rightarrow> (h', s', Inl e) | (h', s', Inr x) \<Rightarrow> f x ho g h' s'))"
    using same_grants_trans [OF \<open>same_grants s s1\<close>] f by (cases r) (simp_all add: r)
qed

lemma frames_catch [frames]: "frames m \<Longrightarrow> (\<And>e. frames (f e)) \<Longrightarrow> frames (catchA m f)"
  unfolding frames_def catchA_def
proof (intro allI)
  fix ho g h s
  assume m: "\<forall>ho g h s. same_grants s (final (m ho g h s))" and f: "\<And>x. \<forall>ho g h s. same_grants s (final (f x ho g h s))"
  obtain h1 s1 r where r: "m ho g h s = (h1, s1, r)" by (cases "m ho g h s")
  then have "same_grants s s1"
    using m by (metis final_outcome(1))
  then show "same_grants s (final (case m ho g h s of (h', s', Inl e) \<Rightarrow> f e ho g h' s' | (h', s', Inr x) \<Rightarrow> (h', s', Inr x)))"
    using same_grants_trans [OF \<open>same_grants s s1\<close>] f by (cases r) (simp_all add: r)
qed

lemma frames_cases [frames]:
  "(b \<Longrightarrow> frames p) \<Longrightarrow> (\<not> b \<Longrightarrow> frames q) \<Longrightarrow> frames (if b then p else q)"
  "(x = None \<Longrightarrow> frames p) \<Longrightarrow> (\<And>y. x = Some y \<Longrightarrow> frames (f y)) \<Longrightarrow> frames (case x of None \<Rightarrow> p | Some y \<Rightarrow> f y)"
  "(\<And>a b. frames (k a b)) \<Longrightarrow> frames (case ab of (a, b) \<Rightarrow> k a b)"
  "frames p \<Longrightarrow> frames q \<Longrightarrow> frames r \<Longrightarrow> frames (case d of Intact \<Rightarrow> p | Missing \<Rightarrow> q | Replaced \<Rightarrow> r)"
  by (simp_all split: option.split prod.split directory_state.split)

lemma frames_handles [frames]: "frames mint_id" "frames (mintHandle i p)" "frames (root_of i)"
  unfolding mint_id_def mintHandle_def root_of_def by (intro frames; simp add: same_grants_def)+

lemma frames_handles2 [frames]:
  "frames (handleFor i p)" "frames (resolveHandle handle)" "frames (resolveDestination i p)" "frames (requireIntact i)"
  unfolding handleFor_def resolveHandle_def resolveDestination_def requireIntact_def Let_def by (intro frames)+

lemma frames_worktrees [frames]: "frames (worktree_id p)" "frames (worktree_handle root d r)" "frames (requireWorktree repo wanted)"
  "frames (entryOf repo)" "frames (readWorktreeList w)"
  unfolding worktree_id_def worktree_handle_def requireWorktree_def entryOf_def readWorktreeList_def Let_def
  by (intro frames; simp add: same_grants_def)+

lemma frames_reconcile [frames]: "frames (reconcile repo rootId listed p)" "frames (reconcileWorktrees rec)"
proof -
  have one: "frames (reconcile_one repo root p l)" for root l p repo
    unfolding reconcile_one_def Let_def by (intro frames) (simp add: same_grants_def)
  have loop: "frames (reconcile_loop repo root p ls ws)" for root ls ws p repo
    by (induction repo root p ls ws rule: reconcile_loop.induct) (auto intro!: frames one)
  show rec: "frames (reconcile repo rootId listed p)" for repo rootId listed p
    unfolding reconcile_def by (intro frames loop) (simp add: same_grants_def forget_worktrees_def)
  show "frames (reconcileWorktrees rec)"
    unfolding reconcileWorktrees_def by (intro frames rec)
qed

section \<open>Runs by their effect\<close>

text \<open>What holds after a run: of the log, the state and the outcome.\<close>

definition ending :: "('s, 'a) act \<Rightarrow> host \<Rightarrow> git \<Rightarrow> git_log \<Rightarrow> 's \<Rightarrow> (git_log \<Rightarrow> 's \<Rightarrow> host_error + 'a \<Rightarrow> bool) \<Rightarrow> bool" where
  "ending m ho g h s Q \<longleftrightarrow> (case m ho g h s of (h', s', x) \<Rightarrow> Q h' s' x)"

lemma ending_basic [simp]:
  "ending (retA x) ho g h s Q \<longleftrightarrow> Q h s (Inr x)" "ending (throwA e) ho g h s Q \<longleftrightarrow> Q h s (Inl e)"
  "ending (getA f) ho g h s Q' \<longleftrightarrow> Q' h s (Inr (f s))" "ending (askA f') ho g h s Q'' \<longleftrightarrow> Q'' h s (Inr (f' ho))"
  "ending (modifyA k) ho g h s Q3 \<longleftrightarrow> Q3 h (k s) (Inr ())"
  by (simp_all add: ending_def retA_def throwA_def getA_def askA_def hostA_def modifyA_def)

lemma ending_bind [simp]: "ending (bindA m f) ho g h s Q \<longleftrightarrow>
    ending m ho g h s (\<lambda>h' s' x. case x of Inl e \<Rightarrow> Q h' s' (Inl e) | Inr y \<Rightarrow> ending (f y) ho g h' s' Q)"
  by (simp add: ending_def bindA_def split: prod.split sum.split)

lemma ending_catch [simp]: "ending (catchA m f) ho g h s Q \<longleftrightarrow>
    ending m ho g h s (\<lambda>h' s' x. case x of Inl e \<Rightarrow> ending (f e) ho g h' s' Q | Inr y \<Rightarrow> Q h' s' (Inr y))"
  by (simp add: ending_def catchA_def split: prod.split sum.split)

lemma ending_orRefuse [simp]: "ending (orRefuse m onError k) ho g h s Q \<longleftrightarrow>
    ending m ho g h s (\<lambda>h' s' x. case x of Inl e \<Rightarrow> Q h' s' (Inr (onError e)) | Inr y \<Rightarrow> ending (k y) ho g h' s' Q)"
  by (simp add: ending_def orRefuse_def split: prod.split sum.split)

lemma ending_native [simp]: "ending (nativeA f) ho g h s Q \<longleftrightarrow>
    (case f ho of Inl e \<Rightarrow> Q h s (Inl (NativeFailed e)) | Inr y \<Rightarrow> Q h s (Inr y))"
  "ending (hostA f') ho g h s Q \<longleftrightarrow> Q h s (f' ho)"
  by (simp_all add: ending_def nativeA_def hostA_def split: sum.split)

lemma ending_mono: "ending m ho g h s P \<Longrightarrow> (\<And>h' s' x. P h' s' x \<Longrightarrow> Q h' s' x) \<Longrightarrow> ending m ho g h s Q"
  by (simp add: ending_def split: prod.splits)

lemma ending_frames: "frames m \<Longrightarrow> (\<And>h' s' x. same_grants s s' \<Longrightarrow> Q h' s' x) \<Longrightarrow> ending m ho g h s Q"
proof -
  assume m: "frames m" and Q: "\<And>h' s' x. same_grants s s' \<Longrightarrow> Q h' s' x"
  obtain h' s' x where "m ho g h s = (h', s', x)" by (cases "m ho g h s")
  moreover from this have "same_grants s s'"
    using m unfolding frames_def by (metis final_outcome(1))
  ultimately show ?thesis
    using Q by (simp add: ending_def)
qed

lemma ending_final: "ending m ho g h s (\<lambda>h' s' x. P s') \<longleftrightarrow> P (final (m ho g h s))"
  by (simp add: ending_def final_def split: prod.split)

section \<open>The invariant\<close>

definition root_ok :: "(nat \<Rightarrow> jsstring) \<Rightarrow> 'z registry_scheme \<Rightarrow> jsstring \<Rightarrow> root_record \<Rightarrow> directory_pin \<Rightarrow> bool" where
  "root_ok ids s i rec pin \<longleftrightarrow> ro_allowedRootId rec = i \<and> pi_path pin = ro_path rec \<and> ro_identity rec = (pi_dev pin, pi_ino pin) \<and>
     (\<exists>n < rg_minted s. i = ids n) \<and> (\<exists>root. map_of (rg_roots s) i = Some root \<and> ar_path root = ro_path rec)"

definition grant_entry_ok :: "(nat \<Rightarrow> jsstring) \<Rightarrow> 'z registry_scheme \<Rightarrow> jsstring \<Rightarrow> repository_entry \<Rightarrow> directory_pin \<Rightarrow> bool" where
  "grant_entry_ok ids s i rec pin \<longleftrightarrow> rp_repositoryId rec = i \<and> pi_path pin = rp_commonDir rec \<and> rp_identity rec = (pi_dev pin, pi_ino pin) \<and>
     (\<exists>n < rg_minted s. i = ids n) \<and> map_of (rg_byCommonDir s) (rp_commonDir rec) = Some i \<and>
     map_of (rg_approvals s) (rp_allowedRootId rec) \<noteq> None"

definition pins_of :: "('k, 'a \<times> directory_pin) jsmap \<Rightarrow> nat" where
  "pins_of m = sum_list (map (pin_cost \<circ> snd \<circ> snd) m)"

definition grants_ok :: "(nat \<Rightarrow> jsstring) \<Rightarrow> 'z registry_scheme \<Rightarrow> bool" where
  "grants_ok ids s \<longleftrightarrow> keys_distinct (rg_approvals s) \<and> keys_distinct (rg_records s) \<and>
     (\<forall>i rec pin. map_of (rg_approvals s) i = Some (rec, pin) \<longrightarrow> root_ok ids s i rec pin) \<and>
     (\<forall>i rec pin. map_of (rg_records s) i = Some (rec, pin) \<longrightarrow> grant_entry_ok ids s i rec pin) \<and>
     (\<forall>c i. map_of (rg_byCommonDir s) c = Some i \<longrightarrow> (\<exists>rec pin. map_of (rg_records s) i = Some (rec, pin) \<and> rp_commonDir rec = c)) \<and>
     rg_rootPins s = pins_of (rg_approvals s) \<and> rg_rootPins s \<le> DEFAULT_PIN_BUDGET \<and>
     rg_repositoryPins s = pins_of (rg_records s) \<and> rg_repositoryPins s \<le> DEFAULT_PIN_BUDGET"

lemma grants_okD:
  assumes "grants_ok ids s"
  shows "keys_distinct (rg_approvals s)" "keys_distinct (rg_records s)"
    and "map_of (rg_approvals s) i = Some (rec, pin) \<Longrightarrow> root_ok ids s i rec pin"
    and "map_of (rg_records s) j = Some (entry, pin') \<Longrightarrow> grant_entry_ok ids s j entry pin'"
    and "map_of (rg_byCommonDir s) c = Some k \<Longrightarrow> \<exists>rec pin. map_of (rg_records s) k = Some (rec, pin) \<and> rp_commonDir rec = c"
    and "rg_rootPins s = pins_of (rg_approvals s)" "rg_rootPins s \<le> DEFAULT_PIN_BUDGET"
    and "rg_repositoryPins s = pins_of (rg_records s)" "rg_repositoryPins s \<le> DEFAULT_PIN_BUDGET"
  using assms unfolding grants_ok_def by blast+

lemma same_grants_ok: "same_grants s t \<Longrightarrow> grants_ok ids s \<Longrightarrow> grants_ok ids t"
proof -
  assume t: "same_grants s t" and s: "grants_ok ids s"
  have grow: "\<exists>n < rg_minted t. i = ids n" if n: "\<exists>n < rg_minted s. i = ids n" for i
  proof -
    obtain n where "n < rg_minted s" "i = ids n" using n by blast
    moreover have "rg_minted s \<le> rg_minted t" using t by (simp add: same_grants_def)
    ultimately show ?thesis by (intro exI [of _ n]) simp
  qed
  have "root_ok ids t i rec pin" if "root_ok ids s i rec pin" for i rec pin
    using that t grow [of i] unfolding root_ok_def same_grants_def by simp
  moreover have "grant_entry_ok ids t i rec pin" if "grant_entry_ok ids s i rec pin" for i rec pin
    using that t grow by (simp add: grant_entry_ok_def same_grants_def)
  ultimately show ?thesis
    using s t unfolding grants_ok_def same_grants_def by simp
qed

lemma pins_of_simps [simp]: "pins_of [] = 0" "pins_of ((k, v) # m) = pin_cost (snd v) + pins_of m" "pins_of (m @ n) = pins_of m + pins_of n"
  by (simp_all add: pins_of_def)

lemma update_fresh: "map_of m k = None \<Longrightarrow> AList.update k v m = m @ [(k, v)]"
  by (induction m) (auto split: if_splits)

lemma pins_of_update: "map_of m k = Some (r, p) \<Longrightarrow> pins_of (AList.update k (r', p) m) = pins_of m"
  by (induction m) (auto split: if_splits)

lemma pins_of_delete: "keys_distinct m \<Longrightarrow> map_of m k = Some (r, p) \<Longrightarrow> pins_of (AList.delete k m) + pin_cost p = pins_of m"
proof (induction m)
  case (Cons e m)
  obtain j v where e: "e = (j, v)" by (cases e)
  show ?case
  proof (cases "j = k")
    case True
    then have "k \<notin> fst ` set m"
      using Cons.prems(1) by (simp add: e keys_distinct_def)
    then show ?thesis
      using Cons.prems True by (simp add: e delete_notin_dom [simplified])
  next
    case False
    then show ?thesis
      using Cons by (simp add: e keys_distinct_def)
  qed
qed simp

lemma pin_cost_held: "pin_cost (pin_directory held p info ho) + held \<le> max held DEFAULT_PIN_BUDGET"
  by (simp add: pin_cost_def pin_directory_def)

lemma pin_directory_fields [simp]: "pi_path (pin_directory held p info ho) = p"
  by (simp add: pin_directory_def)

section \<open>Every operation keeps the invariant\<close>

text \<open>What the operations rely on: ids do not repeat, and a real path is its own real path.\<close>

definition host_ok :: "(nat \<Rightarrow> jsstring) \<Rightarrow> host \<Rightarrow> bool" where
  "host_ok ids ho \<longleftrightarrow> inj ids \<and> ho_ids ho = ids \<and> (\<forall>p r. ho_realpath ho p = Inr r \<longrightarrow> ho_realpath ho r = Inr r)"

lemma fresh_id: "host_ok ids ho \<Longrightarrow> (\<exists>n < m. i = ids n) \<Longrightarrow> i \<noteq> ids m"
  by (auto simp: host_ok_def dest: injD)

definition keeps_ok :: "(nat \<Rightarrow> jsstring) \<Rightarrow> ('z registry_scheme, 'a) act \<Rightarrow> bool" where
  "keeps_ok ids m \<longleftrightarrow> (\<forall>ho g h s. host_ok ids ho \<longrightarrow> grants_ok ids s \<longrightarrow> ending m ho g h s (\<lambda>h' s' x. grants_ok ids s'))"

lemma frames_keeps: "frames m \<Longrightarrow> keeps_ok ids m"
  unfolding keeps_ok_def using same_grants_ok by (blast intro: ending_frames)

text \<open>A new root, whose id is the last one minted.\<close>

lemma add_root_ok:
  assumes s: "grants_ok ids s" and i: "i = ids m" "m < rg_minted s" "map_of (rg_approvals s) i = None"
    and rec: "ro_allowedRootId rec = i" "pi_path pin = ro_path rec" "ro_identity rec = (pi_dev pin, pi_ino pin)"
    and root: "map_of (rg_roots s) i = Some root" "ar_path root = ro_path rec"
    and cost: "rg_rootPins s + pin_cost pin \<le> DEFAULT_PIN_BUDGET"
  shows "grants_ok ids (s\<lparr>rg_rootPins := rg_rootPins s + pin_cost pin, rg_approvals := AList.update i (rec, pin) (rg_approvals s)\<rparr>)"
proof -
  note ok = grants_okD [OF s]
  have "root_ok ids s i rec pin"
    using i rec root by (auto simp: root_ok_def)
  moreover have "keys_distinct (rg_approvals s @ [(i, rec, pin)])"
    using keys_distinct_update [OF ok(1), of i "(rec, pin)"] by (simp add: update_fresh [OF i(3)])
  ultimately show ?thesis
    using ok cost i unfolding grants_ok_def update_fresh [OF i(3)]
    by (auto simp: root_ok_def grant_entry_ok_def map_add_Some_iff split: if_splits)
qed

lemma add_entry_ok:
  assumes s: "grants_ok ids s" and i: "i = ids m" "m < rg_minted s" "map_of (rg_records s) i = None"
    and rec: "rp_repositoryId rec = i" "pi_path pin = rp_commonDir rec" "rp_identity rec = (pi_dev pin, pi_ino pin)"
    and root: "map_of (rg_approvals s) (rp_allowedRootId rec) \<noteq> None"
    and dir: "map_of (rg_byCommonDir s) (rp_commonDir rec) = None"
    and cost: "rg_repositoryPins s + pin_cost pin \<le> DEFAULT_PIN_BUDGET"
  shows "grants_ok ids (s\<lparr>rg_repositoryPins := rg_repositoryPins s + pin_cost pin, rg_records := AList.update i (rec, pin) (rg_records s),
    rg_byCommonDir := AList.update (rp_commonDir rec) i (rg_byCommonDir s)\<rparr>)"
proof -
  note ok = grants_okD [OF s]
  let ?t = "s\<lparr>rg_repositoryPins := rg_repositoryPins s + pin_cost pin, rg_records := rg_records s @ [(i, rec, pin)],
    rg_byCommonDir := AList.update (rp_commonDir rec) i (rg_byCommonDir s)\<rparr>"
  have lookup: "map_of (rg_records ?t) j = (if j = i then Some (rec, pin) else map_of (rg_records s) j)" for j
    using i(3) by (cases "map_of (rg_records s) j") (auto simp: map_add_Some_iff)
  have entries: "grant_entry_ok ids ?t j r p" if "map_of (rg_records ?t) j = Some (r, p)" for j r p
  proof (cases "j = i")
    case True
    then show ?thesis
      using that lookup i rec root by (auto simp: grant_entry_ok_def update_conv')
  next
    case False
    then have old: "grant_entry_ok ids s j r p"
      using that lookup ok(4) by auto
    then have "rp_commonDir r \<noteq> rp_commonDir rec"
      using dir by (auto simp: grant_entry_ok_def)
    then show ?thesis
      using old by (simp add: grant_entry_ok_def update_conv')
  qed
  have dirs: "\<exists>r p. map_of (rg_records ?t) k = Some (r, p) \<and> rp_commonDir r = c" if "map_of (rg_byCommonDir ?t) c = Some k" for c k
  proof (cases "c = rp_commonDir rec")
    case True
    then show ?thesis
      using that lookup by (simp add: update_conv')
  next
    case False
    then have "map_of (rg_byCommonDir s) c = Some k"
      using that by (simp add: update_conv')
    then show ?thesis
      using ok(5) [of c k] lookup i(3) by auto
  qed
  have "keys_distinct (rg_records s @ [(i, rec, pin)])"
    using keys_distinct_update [OF ok(2), of i "(rec, pin)"] by (simp add: update_fresh [OF i(3)])
  moreover have "root_ok ids ?t j r p" if "map_of (rg_approvals s) j = Some (r, p)" for j r p
    using ok(3) [OF that] by (simp add: root_ok_def)
  ultimately have "grants_ok ids ?t"
    unfolding grants_ok_def using entries dirs ok(1,6,7,8) cost by simp
  then show ?thesis
    by (simp add: update_fresh [OF i(3)])
qed

text \<open>A record is replaced by one of the same directory and pin.\<close>

lemma replace_entry_ok:
  assumes s: "grants_ok ids s" and old: "map_of (rg_records s) i = Some (rec, pin)"
    and same: "rp_repositoryId rec' = rp_repositoryId rec" "rp_commonDir rec' = rp_commonDir rec" "rp_identity rec' = rp_identity rec"
      "rp_allowedRootId rec' = rp_allowedRootId rec"
  shows "grants_ok ids (s\<lparr>rg_records := AList.update i (rec', pin) (rg_records s)\<rparr>)"
proof -
  note ok = grants_okD [OF s]
  have "grant_entry_ok ids s i rec' pin"
    using ok(4) [OF old] same by (simp add: grant_entry_ok_def)
  moreover have "\<exists>r p. (if k = i then Some (rec', pin) else map_of (rg_records s) k) = Some (r, p) \<and> rp_commonDir r = c"
    if "map_of (rg_byCommonDir s) c = Some k" for c k
    using ok(5) [OF that] old same by auto
  ultimately show ?thesis
    using ok pins_of_update [OF old, of rec'] unfolding grants_ok_def
    by (auto simp: root_ok_def grant_entry_ok_def update_conv' split: if_splits)
qed

lemma map_root_repositories_ok:
  assumes s: "grants_ok ids s"
  shows "grants_ok ids (map_root_repositories i f s)"
proof (cases "map_of (rg_approvals s) i")
  case None
  then show ?thesis using s by (simp add: map_root_repositories_def)
next
  case (Some a)
  obtain rec pin where a: "a = (rec, pin)" by (cases a)
  note ok = grants_okD [OF s]
  have "root_ok ids s i (ro_repositoryIds_update f rec) pin"
    using ok(3) [of i rec pin] Some by (simp add: root_ok_def a)
  then show ?thesis
    using ok pins_of_update [of "rg_approvals s" i rec pin "ro_repositoryIds_update f rec"] Some
    unfolding grants_ok_def map_root_repositories_def
    by (auto simp: a root_ok_def grant_entry_ok_def update_conv' split: if_splits)
qed

lemma drop_record_ok:
  assumes s: "grants_ok ids s" and old: "map_of (rg_records s) i = Some (rec, pin)"
  shows "grants_ok ids (drop_record i (rp_commonDir rec) pin s)"
proof -
  note ok = grants_okD [OF s]
  have pins: "pins_of (AList.delete i (rg_records s)) = rg_repositoryPins s - pin_cost pin"
    using pins_of_delete [OF ok(2) old] ok(8) by simp
  have "rp_commonDir r \<noteq> rp_commonDir rec" if "map_of (rg_records s) j = Some (r, p)" "j \<noteq> i" for j r p
    using ok(4) [OF that(1)] ok(4) [OF old] that(2) by (auto simp: grant_entry_ok_def)
  moreover have "k \<noteq> i" if "map_of (rg_byCommonDir s) c = Some k" "c \<noteq> rp_commonDir rec" for c k
    using ok(5) [OF that(1)] old that(2) by auto
  ultimately show ?thesis
    using ok pins unfolding grants_ok_def drop_record_def release_repository_pin_def
    by (auto simp: root_ok_def grant_entry_ok_def delete_conv' split: if_splits)
qed

lemma unregister_ok: "grants_ok ids s \<Longrightarrow> grants_ok ids (unregister i s)"
proof (cases "map_of (rg_records s) i")
  case (Some e)
  assume s: "grants_ok ids s"
  obtain rec pin where e: "e = (rec, pin)" by (cases e)
  then show ?thesis
    using drop_record_ok [OF s Some [unfolded e]] Some
    by (simp add: unregister_def detachRepository_def map_root_repositories_ok)
qed (simp add: unregister_def)

lemma minted_ok: "grants_ok ids s \<Longrightarrow> grants_ok ids (rg_minted_update Suc s)"
  by (rule same_grants_ok) (simp_all add: same_grants_def)

lemma unused_id:
  assumes "host_ok ids ho" and "grants_ok ids s"
  shows "map_of (rg_approvals s) (ids (rg_minted s)) = None" "map_of (rg_records s) (ids (rg_minted s)) = None"
proof -
  show "map_of (rg_approvals s) (ids (rg_minted s)) = None"
    using grants_okD(3) [OF assms(2)] fresh_id [OF assms(1)]
    by (cases "map_of (rg_approvals s) (ids (rg_minted s))") (fastforce simp: root_ok_def)+
  show "map_of (rg_records s) (ids (rg_minted s)) = None"
    using grants_okD(4) [OF assms(2)] fresh_id [OF assms(1)]
    by (cases "map_of (rg_records s) (ids (rg_minted s))") (fastforce simp: grant_entry_ok_def)+
qed

lemma new_root_ok:
  assumes "grants_ok ids s" and "map_of (rg_approvals s) i = None"
  shows "grants_ok ids (s\<lparr>rg_roots := AList.update i root (rg_roots s)\<rparr>)"
  using assms unfolding grants_ok_def by (auto simp: root_ok_def grant_entry_ok_def update_conv')

text \<open>The state after \<^verbatim>\<open>approve\<close>.\<close>

definition approved_state :: "jsstring \<Rightarrow> bool \<Rightarrow> file_stat \<Rightarrow> host \<Rightarrow> 'z registry_scheme \<Rightarrow> 'z registry_scheme" where
  "approved_state r trusted info ho s =
     (let i = ho_ids ho (rg_minted s); pin = pin_directory (rg_rootPins s) r info ho;
          rec = \<lparr>ro_allowedRootId = i, ro_path = r, ro_displayPath = toDisplayPath (utf8_bytes r), ro_executionTrusted = trusted,
            ro_repositoryIds = [], ro_identity = (pi_dev pin, pi_ino pin), ro_approvedAtMs = ho_now ho\<rparr>
      in (rg_minted_update Suc s)\<lparr>rg_roots := AList.update i \<lparr>ar_allowedRootId = i, ar_path = r, ar_parentRootId = None\<rparr> (rg_roots s),
           rg_rootPins := rg_rootPins s + pin_cost pin, rg_approvals := AList.update i (rec, pin) (rg_approvals s)\<rparr>)"

lemma approved_state_ok:
  assumes "host_ok ids ho" and "grants_ok ids s"
  shows "grants_ok ids (approved_state r trusted info ho s)"
proof -
  let ?i = "ids (rg_minted s)" and ?pin = "pin_directory (rg_rootPins s) r info ho"
  let ?root = "\<lparr>ar_allowedRootId = ?i, ar_path = r, ar_parentRootId = None\<rparr>"
  let ?s = "(rg_minted_update Suc s)\<lparr>rg_roots := AList.update ?i ?root (rg_roots s)\<rparr>"
  have s: "grants_ok ids ?s"
    using new_root_ok [OF minted_ok [OF assms(2)], of ?i ?root] unused_id(1) [OF assms] by simp
  have ids: "ho_ids ho = ids"
    using assms(1) by (simp add: host_ok_def)
  have cost: "rg_rootPins ?s + pin_cost ?pin \<le> DEFAULT_PIN_BUDGET"
    using pin_cost_held [of "rg_rootPins s" r info ho] grants_okD(7) [OF assms(2)] by simp
  let ?rec = "\<lparr>ro_allowedRootId = ?i, ro_path = r, ro_displayPath = toDisplayPath (utf8_bytes r), ro_executionTrusted = trusted,
            ro_repositoryIds = [], ro_identity = (pi_dev ?pin, pi_ino ?pin), ro_approvedAtMs = ho_now ho\<rparr>"
  have "grants_ok ids (?s\<lparr>rg_rootPins := rg_rootPins ?s + pin_cost ?pin, rg_approvals := AList.update ?i (?rec, ?pin) (rg_approvals ?s)\<rparr>)"
    using unused_id(1) [OF assms] by (intro add_root_ok [OF s refl _ _ _ _ _ _ _ cost, where root = ?root]) (simp_all add: update_conv')
  then show ?thesis
    by (simp add: approved_state_def ids Let_def)
qed

text \<open>Either nothing that grants is changed, or the root is added.\<close>

lemma approve_cases:
  assumes "host_ok ids ho"
  shows "ending (approve p trusted) ho g h s (\<lambda>h' s' x. h' = h \<and>
    (case x of
       Inl e \<Rightarrow> same_grants s s'
     | Inr rec \<Rightarrow> \<exists>r info. ho_realpath ho p = Inr r \<and> ho_stat ho r = Inr info \<and> fst_directory info \<and>
         s' = approved_state r trusted info ho s \<and> map_of (rg_approvals s') (ro_allowedRootId rec) = Some (rec, pin_directory (rg_rootPins s) r info ho)))"
proof -
  have again: "ho_realpath ho r = Inr r" if "ho_realpath ho p = Inr r" for r
    using assms that by (simp add: host_ok_def)
  have fine: "same_grants s (rg_minted_update Suc s)"
    by (simp add: same_grants_def)
  show ?thesis
    using again fine
    by (auto simp: approve_def approveRoot_def mint_id_def parent_refusal_def Let_def approved_state_def update_conv' simp del: str_simps split: sum.split)
qed

lemma approve_keeps: "keeps_ok ids (approve p trusted)"
  unfolding keeps_ok_def
proof (intro allI impI)
  fix ho g h s assume "host_ok ids ho" "grants_ok ids s"
  then show "ending (approve p trusted) ho g h s (\<lambda>h' s' x. grants_ok ids s')"
    by (intro ending_mono [OF approve_cases]) (auto split: sum.splits dest: same_grants_ok intro: approved_state_ok)
qed

lemma ending_bind_frames:
  "frames m \<Longrightarrow> (\<And>h' s' y. same_grants s s' \<Longrightarrow> ending (f y) ho g h' s' (\<lambda>h s x. Q s x)) \<Longrightarrow>
   (\<And>s' e. same_grants s s' \<Longrightarrow> Q s' (Inl e)) \<Longrightarrow> ending (bindA m f) ho g h s (\<lambda>h s x. Q s x)"
  unfolding ending_bind by (rule ending_frames) (auto split: sum.split)

lemma ending_seq:
  assumes "frames m" and "\<And>t u. P t \<Longrightarrow> same_grants t u \<Longrightarrow> P u" and "P s"
    and "\<And>h' s' y. P s' \<Longrightarrow> ending (f y) ho g h' s' Q" and "\<And>h' s' e. P s' \<Longrightarrow> Q h' s' (Inl e)"
  shows "ending (bindA m f) ho g h s Q"
  unfolding ending_bind
proof (rule ending_frames [OF assms(1)])
  fix h' s' x assume "same_grants s s'"
  then have "P s'" using assms(2,3) by blast
  then show "case x of Inl e \<Rightarrow> Q h' s' (Inl e) | Inr y \<Rightarrow> ending (f y) ho g h' s' Q"
    using assms(4,5) by (cases x) auto
qed

text \<open>A failed registration leaves its own record at most, a successful one completes it.\<close>

lemma complete_registration_ok:
  assumes s: "grants_ok ids s" and rec: "map_of (rg_records s) (rp_repositoryId rec) = Some (rec, pin)"
  shows "ending (complete_registration handle r rec pin) ho g h s
    (\<lambda>h' s' x. case x of Inl e \<Rightarrow> same_grants s s' | Inr e \<Rightarrow> grants_ok ids s')"
proof -
  have finished: "grants_ok ids (attachRepository (rp_allowedRootId rec) (rp_repositoryId rec)
      (t\<lparr>rg_records := AList.update (rp_repositoryId rec) (rec\<lparr>rp_primaryWorktreeId := i, rp_worktreeIds := is\<rparr>, pin) (rg_records t)\<rparr>))"
    if t: "same_grants s t" for t i "is"
  proof -
    have "map_of (rg_records t) (rp_repositoryId rec) = Some (rec, pin)"
      using t rec by (simp add: same_grants_def)
    then have "grants_ok ids (t\<lparr>rg_records := AList.update (rp_repositoryId rec) (rec\<lparr>rp_primaryWorktreeId := i, rp_worktreeIds := is\<rparr>, pin) (rg_records t)\<rparr>)"
      using same_grants_ok [OF t s] by (intro replace_entry_ok) simp_all
    then show ?thesis
      unfolding attachRepository_def by (rule map_root_repositories_ok)
  qed
  show ?thesis
    unfolding complete_registration_def Let_def
  proof (rule ending_bind_frames, goal_cases)
    case (2 h1 s1 listed)
    show ?case
    proof (rule ending_bind_frames, goal_cases)
      case (2 h2 s2 y)
      then have t: "same_grants s s2"
        using \<open>same_grants s s1\<close> same_grants_trans by blast
      show ?case
        using finished [OF t] t by (auto split: prod.split option.split)
    next
      case (3 s2 e)
      then show ?case
        using \<open>same_grants s s1\<close> same_grants_trans by auto
    qed (intro frames)
  qed (auto intro: frames)
qed

lemma new_registration_ok:
  assumes host: "host_ok ids ho" and s: "grants_ok ids s" and root: "map_of (rg_approvals s) rootId \<noteq> None"
    and new': "map_of (rg_byCommonDir s) (lf_commonDir layout) = None"
  shows "ending (new_registration rootId handle r layout info) ho g h s (\<lambda>h' s' x. grants_ok ids s')"
proof -
  let ?i = "ids (rg_minted s)" and ?pin = "pin_directory (rg_repositoryPins s) (lf_commonDir layout) info ho"
  let ?rec = "new_entry ?i rootId r layout ?pin (ho_now ho)"
  let ?s = "rg_minted_update Suc s"
  let ?t = "?s\<lparr>rg_repositoryPins := rg_repositoryPins ?s + pin_cost ?pin, rg_records := AList.update ?i (?rec, ?pin) (rg_records ?s),
    rg_byCommonDir := AList.update (lf_commonDir layout) ?i (rg_byCommonDir ?s)\<rparr>"
  have ids: "ho_ids ho = ids"
    using host by (simp add: host_ok_def)
  have dir: "rp_commonDir ?rec = lf_commonDir layout"
    by (simp add: new_entry_def)
  have "grants_ok ids (?s\<lparr>rg_repositoryPins := rg_repositoryPins ?s + pin_cost ?pin, rg_records := AList.update ?i (?rec, ?pin) (rg_records ?s),
    rg_byCommonDir := AList.update (rp_commonDir ?rec) ?i (rg_byCommonDir ?s)\<rparr>)"
  proof (rule add_entry_ok [OF minted_ok [OF s] refl])
    show "rg_repositoryPins ?s + pin_cost ?pin \<le> DEFAULT_PIN_BUDGET"
      using pin_cost_held [of "rg_repositoryPins s" "lf_commonDir layout" info ho] grants_okD(9) [OF s] by simp
  qed (use unused_id(2) [OF host s] root new' in \<open>simp_all add: new_entry_def\<close>)
  then have t: "grants_ok ids ?t"
    by (simp only: dir)
  have mine: "map_of (rg_records ?t) (rp_repositoryId ?rec) = Some (?rec, ?pin)"
    by (simp add: update_conv' new_entry_def)
  have failed: "grants_ok ids (drop_record ?i (lf_commonDir layout) ?pin u)" if u: "same_grants ?t u" for u
  proof -
    have "map_of (rg_records u) ?i = Some (?rec, ?pin)"
      using u mine by (simp add: same_grants_def new_entry_def)
    then have "grants_ok ids (drop_record ?i (rp_commonDir ?rec) ?pin u)"
      by (rule drop_record_ok [OF same_grants_ok [OF u t]])
    then show ?thesis
      by (simp only: dir)
  qed
  have rest': "ending (complete_registration handle r ?rec ?pin) ho g h ?t (\<lambda>h' s' x. case x of
      Inl e \<Rightarrow> grants_ok ids (drop_record ?i (lf_commonDir layout) ?pin s') | Inr y \<Rightarrow> grants_ok ids s')"
    using complete_registration_ok [OF t mine] by (rule ending_mono) (auto split: sum.splits intro: failed)
  show ?thesis
    using rest' by (simp add: new_registration_def mint_id_def Let_def ids)
qed

lemma requireIntact_after: "ending (requireIntact rootId) ho g h s
    (\<lambda>h' s' x. s' = s \<and> h' = h \<and> (case x of Inl e \<Rightarrow> True | Inr rec \<Rightarrow> \<exists>pin. map_of (rg_approvals s) rootId = Some (rec, pin) \<and> pin_check pin ho = Intact))"
  by (auto simp: requireIntact_def simp del: str_simps split: option.split prod.split directory_state.split)

definition rooted :: "(nat \<Rightarrow> jsstring) \<Rightarrow> jsstring \<Rightarrow> 'z registry_scheme \<Rightarrow> bool" where
  "rooted ids rootId s \<longleftrightarrow> grants_ok ids s \<and> map_of (rg_approvals s) rootId \<noteq> None"

lemma rooted_frames: "rooted ids rootId s \<Longrightarrow> same_grants s t \<Longrightarrow> rooted ids rootId t"
  using same_grants_ok by (auto simp: rooted_def same_grants_def)

lemma rooted_ok: "rooted ids rootId s \<Longrightarrow> grants_ok ids s"
  by (simp add: rooted_def)

lemma register_layout_ok:
  assumes "host_ok ids ho" and "rooted ids rootId s"
  shows "ending (register_layout rootId handle r layout info) ho g h s (\<lambda>h' s' x. grants_ok ids s')"
proof (cases "map_of (rg_byCommonDir s) (lf_commonDir layout)")
  case None
  then show ?thesis
    using new_registration_ok [OF assms(1), of s rootId] assms(2) by (simp add: register_layout_def rooted_def)
next
  case (Some i)
  then obtain rec pin where "map_of (rg_records s) i = Some (rec, pin)"
    using grants_okD(5) assms(2) unfolding rooted_def by blast
  then show ?thesis
    using Some assms(2) by (auto simp: register_layout_def rooted_def intro!: ending_frames frames dest: same_grants_ok split: sum.split)
qed

lemma register_handle_ok:
  assumes "host_ok ids ho" and "rooted ids rootId s"
  shows "ending (register_handle rootId handle) ho g h s (\<lambda>h' s' x. grants_ok ids s')"
  unfolding register_handle_def
  using assms
  by (intro ending_seq [where P = "rooted ids rootId"] frames register_layout_ok) (auto intro: rooted_frames rooted_ok)

lemma register_keeps: "keeps_ok ids (registerRepository rootId p)"
  unfolding keeps_ok_def
proof (intro allI impI)
  fix ho g h s assume host: "host_ok ids ho" and s: "grants_ok ids s"
  show "ending (registerRepository rootId p) ho g h s (\<lambda>h' s' x. grants_ok ids s')"
    unfolding registerRepository_def ending_bind [of "requireIntact rootId"]
  proof (rule ending_mono [OF requireIntact_after], goal_cases)
    case (1 h1 s1 x)
    show ?case
    proof (cases x)
      case (Inr rec)
      with 1 s have "rooted ids rootId s1" by (auto simp: rooted_def)
      then show ?thesis
        unfolding Inr sum.case
        by (intro ending_seq [where P = "rooted ids rootId"] frames register_handle_ok [OF host]) (auto intro: rooted_frames rooted_ok)
    qed (use 1 s in simp)
  qed
qed

lemma requireRepository_after: "ending (requireRepository repo) ho g h s (\<lambda>h' s' x. s' = s \<and> h' = h \<and> (case x of
      Inl e \<Rightarrow> True
    | Inr rec \<Rightarrow> \<exists>pin root rpin. map_of (rg_records s) repo = Some (rec, pin) \<and> pin_check pin ho = Intact \<and>
        map_of (rg_approvals s) (rp_allowedRootId rec) = Some (root, rpin) \<and> pin_check rpin ho = Intact))"
  unfolding requireRepository_def entryOf_def ending_bind
  by (auto simp del: str_simps split: option.split prod.split directory_state.split sum.split
      intro!: ending_mono [OF requireIntact_after])

lemma worktreesOf_keeps: "keeps_ok ids (worktreesOf repo)"
  unfolding keeps_ok_def
proof (intro allI impI)
  fix ho g h s assume s: "grants_ok ids s"
  show "ending (worktreesOf repo) ho g h s (\<lambda>h' s' x. grants_ok ids s')"
  proof (cases "map_of (rg_records s) repo")
    case None
    then show ?thesis
      using s by (simp add: worktreesOf_def entryOf_def del: str_simps)
  next
    case (Some e)
    obtain rec pin where e: "e = (rec, pin)" by (cases e)
    have moved: "grants_ok ids (rg_records_update (AList.update repo (rec\<lparr>rp_worktreeIds := is\<rparr>, pin)) t)" "grants_ok ids t"
      if t: "same_grants s t" for t "is"
    proof -
      have "map_of (rg_records t) repo = Some (rec, pin)"
        using t Some e by (simp add: same_grants_def)
      then have "grants_ok ids (t\<lparr>rg_records := AList.update repo (rec\<lparr>rp_worktreeIds := is\<rparr>, pin) (rg_records t)\<rparr>)"
        using same_grants_ok [OF t s] by (intro replace_entry_ok) simp_all
      then show "grants_ok ids (rg_records_update (AList.update repo (rec\<lparr>rp_worktreeIds := is\<rparr>, pin)) t)"
        by (cases t) simp
      show "grants_ok ids t"
        using t s by (rule same_grants_ok)
    qed
    have "ending (requireRepository repo) ho g h s (\<lambda>h' s' x. case x of Inl e \<Rightarrow> grants_ok ids s'
      | Inr y \<Rightarrow> ending (bindA (reconcileWorktrees y) (\<lambda>ws. bindA (modifyA (rg_records_update (AList.update repo (y\<lparr>rp_worktreeIds := map hw_worktreeId ws\<rparr>, pin))))
          (\<lambda>_. retA ws))) ho g h' s' (\<lambda>h' s' x. grants_ok ids s'))"
    proof (rule ending_mono [OF requireRepository_after], goal_cases)
      case (1 h1 s1 x)
      then show ?case
        using Some e s moved by (auto split: sum.splits intro!: ending_frames frames)
    qed
    then show ?thesis
      using Some e by (simp add: worktreesOf_def entryOf_def)
  qed
qed

lemma repositoryWorktree_frames [frames]: "frames (requireRepository repo)" "frames (repositoryWorktree repo wanted)"
proof -
  show require: "frames (requireRepository repo)"
    unfolding requireRepository_def by (intro frames)
  show "frames (repositoryWorktree repo wanted)"
    unfolding repositoryWorktree_def by (intro frames require)
qed

lemma keeps_bind: "keeps_ok ids m \<Longrightarrow> (\<And>x. keeps_ok ids (f x)) \<Longrightarrow> keeps_ok ids (bindA m f)"
  unfolding keeps_ok_def ending_bind by (intro allI impI, rule ending_mono, blast) (auto split: sum.split)

lemma keeps_orRefuse: "keeps_ok ids m \<Longrightarrow> (\<And>x. keeps_ok ids (f x)) \<Longrightarrow> keeps_ok ids (orRefuse m onError f)"
  unfolding keeps_ok_def ending_orRefuse by (intro allI impI, rule ending_mono, blast) (auto split: sum.split)

lemma keeps_modify: "(\<And>s. grants_ok ids s \<Longrightarrow> grants_ok ids (f s)) \<Longrightarrow> keeps_ok ids (modifyA f)"
  by (simp add: keeps_ok_def)

lemma keeps_cases:
  "(b \<Longrightarrow> keeps_ok ids p) \<Longrightarrow> (\<not> b \<Longrightarrow> keeps_ok ids q) \<Longrightarrow> keeps_ok ids (if b then p else q)"
  "(x = None \<Longrightarrow> keeps_ok ids p) \<Longrightarrow> (\<And>y. x = Some y \<Longrightarrow> keeps_ok ids (f y)) \<Longrightarrow> keeps_ok ids (case x of None \<Rightarrow> p | Some y \<Rightarrow> f y)"
  "(\<And>a b. keeps_ok ids (k a b)) \<Longrightarrow> keeps_ok ids (case ab of (a, b) \<Rightarrow> k a b)"
  by (simp_all split: option.split prod.split)

lemmas keeps_basic = frames_basic [THEN frames_keeps]

lemma append_access_keeps: "keeps_ok ids (append_access e)"
  unfolding append_access_def
  by (intro keeps_bind keeps_cases keeps_modify keeps_basic) (simp_all add: grants_ok_def root_ok_def grant_entry_ok_def)

lemma approveRepository_keeps: "keeps_ok ids (approveRepository input actor)"
  unfolding approveRepository_def register_under_def
  by (intro keeps_bind keeps_cases keeps_orRefuse keeps_modify keeps_basic approve_keeps register_keeps append_access_keeps unregister_ok)

lemma revokeRegistration_keeps: "keeps_ok ids (revokeRegistration repo actor)"
  unfolding revokeRegistration_def
  by (intro keeps_bind keeps_cases keeps_modify keeps_basic append_access_keeps unregister_ok)

section \<open>Reachable registries\<close>

inductive grants_reachable :: "(nat \<Rightarrow> jsstring) \<Rightarrow> registry \<Rightarrow> bool" for ids where
  nothing: "grants_reachable ids empty_registry"
| root: "grants_reachable ids s \<Longrightarrow> host_ok ids ho \<Longrightarrow> grants_reachable ids (final (approve p trusted ho g h s))"
| registered: "grants_reachable ids s \<Longrightarrow> host_ok ids ho \<Longrightarrow> grants_reachable ids (final (registerRepository rootId p ho g h s))"
| approved: "grants_reachable ids s \<Longrightarrow> host_ok ids ho \<Longrightarrow> grants_reachable ids (final (approveRepository input actor ho g h s))"
| revoked: "grants_reachable ids s \<Longrightarrow> host_ok ids ho \<Longrightarrow> grants_reachable ids (final (revokeRegistration repo actor ho g h s))"
| listed: "grants_reachable ids s \<Longrightarrow> host_ok ids ho \<Longrightarrow> grants_reachable ids (final (worktreesOf repo ho g h s))"
| opened: "grants_reachable ids s \<Longrightarrow> host_ok ids ho \<Longrightarrow> grants_reachable ids (final (repositoryWorktree repo wanted ho g h s))"
| handled: "grants_reachable ids s \<Longrightarrow> host_ok ids ho \<Longrightarrow> grants_reachable ids (final (handleFor rootId p ho g h s))"
| placed: "grants_reachable ids s \<Longrightarrow> host_ok ids ho \<Longrightarrow> grants_reachable ids (final (resolveDestination rootId p ho g h s))"

lemma keepsD: "keeps_ok ids m \<Longrightarrow> host_ok ids ho \<Longrightarrow> grants_ok ids s \<Longrightarrow> grants_ok ids (final (m ho g h s))"
  unfolding keeps_ok_def ending_final by blast

lemma reachable_grants_ok: "grants_reachable ids s \<Longrightarrow> grants_ok ids s"
proof (induction rule: grants_reachable.induct)
  case nothing
  show ?case by (simp add: grants_ok_def empty_registry_def)
qed (blast intro: keepsD approve_keeps register_keeps approveRepository_keeps revokeRegistration_keeps worktreesOf_keeps
    frames_keeps frames)+

end
