(* ===== verification/GrantRules.thy ===== *)
theory GrantRules
  imports RegistryRules
begin

text \<open>
  The properties of the registry, each with a concrete run: one directory approved on a host that answers as a plain file
  system does, and one repository registered in it.
\<close>

section \<open>Containment\<close>


text \<open>
  C0. A destination a client names is a place strictly below its root: a safe relative path is never refused and lands on
  the segments of the root followed by its own, and a path with an empty, \<^verbatim>\<open>.\<close> or \<^verbatim>\<open>..\<close> segment, an absolute
  one or one with a NUL is refused.
\<close>

theorem destination_is_below_its_root:
  assumes "isAbsolute (ho_cwd ho)" and "map_of (rg_roots s) rootId = Some root" and "isAbsolute (ar_path root)"
  shows "if isSafeRelativePath p
    then \<exists>r. outcome (resolveDestination rootId p ho g h s) = Inr r \<and>
      resolved (ho_cwd ho) (rh_absolutePath r) = resolved (ho_cwd ho) (ar_path root) @ splitOn 0x2f p
    else \<exists>m. outcome (resolveDestination rootId p ho g h s) = Inl (HandleFailed HandleForbidden m)"
proof (cases "isSafeRelativePath p")
  case True
  have inside: "isInsideOrEqual (ho_cwd ho) (ar_path root) (absolute_path (resolved (ar_path root) p))"
    using safe_join_inside(2) [OF assms(1,3) True] .
  have "\<not> isAbsolute p"
    using True by (simp add: isSafeRelativePath_def)
  then have segs: "resolved (ar_path root) p = path_segments (ar_path root) @ splitOn 0x2f p"
    using safe_append [OF assms(3) True] by (simp add: resolved_def)
  have "list_all segment (path_segments (ar_path root) @ splitOn 0x2f p)"
    using segments_absolute [OF assms(3)] safe_segments [OF True] by simp
  then have "resolved (ho_cwd ho) (absolute_path (resolved (ar_path root) p)) = resolved (ho_cwd ho) (ar_path root) @ splitOn 0x2f p"
    using assms(3) by (simp add: segs resolved_absolute) (simp add: resolved_def)
  moreover have "\<exists>r. outcome (resolveDestination rootId p ho g h s) = Inr r \<and> rh_absolutePath r = absolute_path (resolved (ar_path root) p)"
    using True inside assms(2)
    by (simp add: resolveDestination_def root_of_def bindA_def getA_def retA_def askA_def hostA_def mintHandle_def modifyA_def Let_def)
  ultimately show ?thesis
    using True by auto
next
  case False
  then show ?thesis
    using assms(2)
    by (simp add: resolveDestination_def root_of_def bindA_def getA_def retA_def throwA_def)
qed

section \<open>Grants\<close>


text \<open>
  C6. A grant does not survive the replacement of its directory. When the service opens a worktree of a repository, the
  repository is registered, its common directory and its root are directories, and each has the device and inode it had
  when the person approved it.
\<close>

theorem repository_is_the_one_approved:
  assumes "grants_reachable ids s" and "outcome (repositoryWorktree repo wanted ho g h s) = Inr w"
  shows "\<exists>rec root dir top. rec \<in> set (repository_list s) \<and> rp_repositoryId rec = repo \<and>
    root \<in> set (root_list s) \<and> ro_allowedRootId root = rp_allowedRootId rec \<and>
    ho_stat ho (rp_commonDir rec) = Inr dir \<and> fst_directory dir \<and> (fst_dev dir, fst_ino dir) = rp_identity rec \<and>
    ho_stat ho (ro_path root) = Inr top \<and> fst_directory top \<and> (fst_dev top, fst_ino top) = ro_identity root"
proof -
  note ok = grants_okD [OF reachable_grants_ok [OF assms(1)]]
  have intact: "\<exists>info. ho_stat ho (pi_path pin) = Inr info \<and> fst_directory info \<and> (fst_dev info, fst_ino info) = (pi_dev pin, pi_ino pin)"
    if "pin_check pin ho = Intact" for pin
    using that by (auto simp: pin_check_def split: sum.splits if_splits option.splits)
  obtain h1 s1 rec where "requireRepository repo ho g h s = (h1, s1, Inr rec)"
    using assms(2) by (auto simp: repositoryWorktree_def bindA_def outcome_def split: prod.splits sum.splits)
  then obtain pin root rpin where found: "map_of (rg_records s) repo = Some (rec, pin)" "pin_check pin ho = Intact"
    "map_of (rg_approvals s) (rp_allowedRootId rec) = Some (root, rpin)" "pin_check rpin ho = Intact"
    using requireRepository_after [of repo ho g h s] by (auto simp: ending_def)
  have "grant_entry_ok ids s repo rec pin" "root_ok ids s (rp_allowedRootId rec) root rpin"
    using ok(3,4) found by blast+
  then have same: "rp_repositoryId rec = repo" "pi_path pin = rp_commonDir rec" "rp_identity rec = (pi_dev pin, pi_ino pin)"
    "ro_allowedRootId root = rp_allowedRootId rec" "pi_path rpin = ro_path root" "ro_identity root = (pi_dev rpin, pi_ino rpin)"
    by (simp_all add: grant_entry_ok_def root_ok_def)
  have "rec \<in> set (repository_list s)" "root \<in> set (root_list s)"
    using map_of_SomeD [OF found(1)] map_of_SomeD [OF found(3)] by (force simp: repository_list_def root_list_def)+
  then show ?thesis
    using same intact [OF found(2)] intact [OF found(4)] by (metis (no_types, lifting))
qed

definition handled_inside :: "host \<Rightarrow> approved_root \<Rightarrow> host_worktree \<Rightarrow> bool" where
  "handled_inside ho root w \<longleftrightarrow> hw_handle w = None \<or> isInsideOrEqual (ho_cwd ho) (ar_path root) (hw_path w)"

lemma worktree_handle_after: "ending (worktree_handle root d r) ho g h s
    (\<lambda>h' s' x. \<forall>i. x = Inr (Some i) \<longrightarrow> isInsideOrEqual (ho_cwd ho) (ar_path root) r)"
  by (cases "isInsideOrEqual (ho_cwd ho) (ar_path root) r") (simp_all add: worktree_handle_def ending_def bindA_def askA_def hostA_def retA_def split_beta)

lemma reconcile_one_after: "ending (reconcile_one repo root p l) ho g h s (\<lambda>h' s' x. \<forall>w. x = Inr w \<longrightarrow> handled_inside ho root w)"
proof -
  let ?d = "toDisplayPath (wr_pathBytes l)"
  let ?r = "worktree_path ?d ho"
  have handle: "ending (worktree_handle root ?d ?r) ho g h' s' (\<lambda>h'' s'' x. case x of Inl e \<Rightarrow> True
      | Inr i \<Rightarrow> i = None \<or> isInsideOrEqual (ho_cwd ho) (ar_path root) ?r)" for h' s'
    by (rule ending_mono [OF worktree_handle_after]) (auto split: sum.split)
  show ?thesis
    unfolding reconcile_one_def Let_def ending_bind [of "askA _"] ending_basic sum.case ending_bind [of "worktree_id _"]
    by (rule ending_frames [OF frames_worktrees(1)])
       (auto split: sum.split simp: handled_inside_def intro!: ending_mono [OF handle])
qed

lemma reconcile_loop_after: "list_all (handled_inside ho root) ws \<Longrightarrow>
    ending (reconcile_loop repo root p ls ws) ho g h s (\<lambda>h' s' x. \<forall>vs. x = Inr vs \<longrightarrow> list_all (handled_inside ho root) vs)"
proof (induction repo root p ls ws arbitrary: h s rule: reconcile_loop.induct)
  case (2 repo root p l ls ws)
  show ?case
    unfolding reconcile_loop.simps ending_bind
    by (rule ending_mono [OF reconcile_one_after]) (use 2 in \<open>auto split: sum.split\<close>)
qed simp

text \<open>
  C0. A worktree is given a handle only when its directory is inside the root its repository was registered under. So a
  linked worktree under another approved root stays without one, and no command can run in it.
\<close>

theorem worktrees_outside_have_no_handle:
  assumes "map_of (rg_roots s) rootId = Some root" and "outcome (reconcile repo rootId listed p ho g h s) = Inr (ws, removed)"
  shows "list_all (\<lambda>w. hw_handle w = None \<or> isInsideOrEqual (ho_cwd ho) (ar_path root) (hw_path w)) ws"
proof -
  have "ending (reconcile repo rootId listed p) ho g h s (\<lambda>h' s' x. \<forall>vs rs. x = Inr (vs, rs) \<longrightarrow> list_all (handled_inside ho root) vs)"
    using assms(1) unfolding reconcile_def root_of_def
    by (auto intro!: ending_mono [OF reconcile_loop_after [of ho root "[]"]] split: sum.split)
  then show ?thesis
    using assms(2) by (auto simp: ending_def outcome_def handled_inside_def [abs_def] split: prod.splits)
qed


end
