(* ===== verification/GrantGaps.thy ===== *)
theory GrantGaps
  imports GrantRules
begin

text \<open>
  What an approval leaves behind: the root of a registration that failed, and two directories behind one handle.
\<close>

section \<open>A registration that fails\<close>

lemma inside_refl: "isAbsolute cwd \<Longrightarrow> isInsideOrEqual cwd p p"
  by (simp add: inside_prefix)

lemma relative_refl: "relative_path cwd p p = []"
proof -
  have "common_segments xs xs = length xs" for xs
    by (induction xs) simp_all
  then show ?thesis
    by (simp add: relative_path_def relative_segments_def)
qed

lemma find_root: "list_all (\<lambda>r. \<not> isInsideOrEqual cwd (ro_path r) p) roots \<Longrightarrow> containingRoot cwd p roots = None"
  by (simp add: containingRoot_def longer_first_def list_all_iff)

lemma expand_absolute: "isAbsolute p \<Longrightarrow> js_trim p = p \<Longrightarrow> expandUserPath home p = p"
  by (cases p) (simp_all add: expandUserPath_def isAbsolute_def startsWith_def str_def)

lemma approve_adds:
  assumes "isAbsolute p" and "encodeExecutionPath p \<noteq> None" and "ho_realpath ho p = Inr p" and "ho_stat ho p = Inr info" and "fst_directory info"
  shows "ending (approve p trusted) ho g h s (\<lambda>h' s' x. h' = h \<and> s' = approved_state p trusted info ho s \<and>
    (\<exists>rec. x = Inr rec \<and> ro_path rec = p \<and> ro_executionTrusted rec = trusted \<and>
      map_of (rg_approvals s') (ro_allowedRootId rec) = Some (rec, pin_directory (rg_rootPins s) p info ho) \<and>
      map_of (rg_roots s') (ro_allowedRootId rec) = Some \<lparr>ar_allowedRootId = ro_allowedRootId rec, ar_path = p, ar_parentRootId = None\<rparr>))"
  using assms
  by (auto simp: approve_def approveRoot_def mint_id_def parent_refusal_def Let_def approved_state_def update_conv' simp del: str_simps)

lemma same_lists: "same_grants s t \<Longrightarrow> root_list t = root_list s \<and> rg_accessLog t = rg_accessLog s"
  by (simp add: same_grants_def root_list_def)

lemma register_fails:
  assumes git: "\<And>h handle. \<exists>e. snd (exec g h (readLayout handle)) = Inl e" and cwd: "isAbsolute (ho_cwd ho)"
    and p: "ho_realpath ho p = Inr p" "ho_stat ho p = Inr info" "fst_directory info" and links: "\<And>d. ho_links ho d \<noteq> Some 0"
    and rec: "map_of (rg_approvals s) i = Some (rec, pin_directory n p info ho)"
      "map_of (rg_roots s) i = Some \<lparr>ar_allowedRootId = i, ar_path = p, ar_parentRootId = None\<rparr>"
  shows "ending (registerRepository i []) ho g h s (\<lambda>h' s' x. same_grants s s' \<and> (\<exists>e. x = Inl (GitFailed e)))"
proof -
  have intact: "pin_check (pin_directory n p info ho) ho = Intact"
    using p links by (simp add: pin_check_def pin_directory_def split: option.split)
  have layout: "ending (gitA (readLayout handle)) ho g h' s' (\<lambda>h'' s'' x. s'' = s' \<and> (\<exists>e. x = Inl (GitFailed e)))" for handle h' s'
    using git [of h' handle] by (auto simp: ending_def gitA_def split: prod.split)
  have handle: "ending (register_handle i handle) ho g h' s' (\<lambda>h'' s'' x. s'' = s' \<and> (\<exists>e. x = Inl (GitFailed e)))"
    if "map_of (rg_handles s') handle = Some \<lparr>hr_rootId = i, hr_relativePath = []\<rparr>" "rg_roots s' = rg_roots s" for handle h' s'
    using that rec p inside_refl [OF cwd]
    by (simp add: register_handle_def resolveHandle_def) (rule ending_mono [OF layout], auto)
  then show ?thesis
    using rec intact
    by (simp add: registerRepository_def requireIntact_def handleFor_def root_of_def mintHandle_def)
       (rule ending_mono [OF handle], auto simp: same_grants_def update_conv')
qed


text \<open>
  C37. A registration that fails leaves its root. When the person's path is under no approved root and Git does not read a
  repository there, the answer is NotFound; but the directory has become an approved root, trusted for execution, and
  the access journal says nothing of it.
\<close>

theorem failed_registration_leaves_root:
  assumes git: "\<And>h handle. \<exists>e. snd (exec g h (readLayout handle)) = Inl e" and cwd: "isAbsolute (ho_cwd ho)"
    and p: "isAbsolute p" "js_trim p = p" "\<not> containsGitDirectory p" "encodeExecutionPath p \<noteq> None"
    and directory: "ho_realpath ho p = Inr p" "ho_stat ho p = Inr info" "fst_directory info" "\<And>d. ho_links ho d \<noteq> Some 0"
    and new: "list_all (\<lambda>r. \<not> isInsideOrEqual (ho_cwd ho) (ro_path r) p) (root_list s)" "find_registered p s = None"
  shows "(\<exists>m. outcome (approveRepository p actor ho g h s) = Inr (RegistrationRefused ''NotFound'' m)) \<and>
    (\<exists>root \<in> set (root_list (final (approveRepository p actor ho g h s))). ro_path root = p \<and> ro_executionTrusted root) \<and>
    rg_accessLog (final (approveRepository p actor ho g h s)) = rg_accessLog s"
proof -
  let ?Q = "\<lambda>h' s' x. (\<exists>m. x = Inr (RegistrationRefused ''NotFound'' m)) \<and>
    (\<exists>root \<in> set (root_list s'). ro_path root = p \<and> ro_executionTrusted root) \<and> rg_accessLog s' = rg_accessLog s"
  have under: "ending (register_under actor p rec) ho g h' s' ?Q"
    if s': "s' = approved_state p True info ho s" and rec: "ro_path rec = p" "ro_executionTrusted rec"
      "map_of (rg_approvals s') (ro_allowedRootId rec) = Some (rec, pin_directory (rg_rootPins s) p info ho)"
      "map_of (rg_roots s') (ro_allowedRootId rec) = Some \<lparr>ar_allowedRootId = ro_allowedRootId rec, ar_path = p, ar_parentRootId = None\<rparr>"
    for h' s' rec
  proof -
    have "rec \<in> set (root_list s')"
      using map_of_SomeD [OF rec(3)] by (force simp: root_list_def)
    moreover have "rg_accessLog s' = rg_accessLog s"
      by (simp add: s' approved_state_def Let_def)
    ultimately show ?thesis
      using rec(1,2)
      by (simp add: register_under_def relative_refl)
         (rule ending_mono [OF register_fails [OF git cwd directory rec(3,4)]],
          auto simp: registrationProblem_def dest!: same_lists)
  qed
  have "ending (approveRepository p actor) ho g h s ?Q"
    using p new find_root [OF new(1)] directory
    by (simp add: approveRepository_def expand_absolute del: str_simps)
       (rule ending_mono [OF approve_adds [OF p(1,4) directory(1-3)]], elim conjE exE, simp only: sum.case, rule under, simp_all)
  then show ?thesis
    by (auto simp: ending_def final_def outcome_def split: prod.splits)
qed


text \<open>A host whose every path is a directory, and a Git that cannot be started.\<close>

definition plain_host :: host where
  "plain_host = \<lparr>ho_realpath = Inr, ho_stat = (\<lambda>p. Inr \<lparr>fst_directory = True, fst_file = False, fst_size = 0, fst_dev = 1, fst_ino = length p\<rparr>),
     ho_open = (\<lambda>_. None), ho_links = (\<lambda>_. None), ho_windows = False, ho_cwd = [0x2f], ho_home = str ''/home'', ho_now = 0,
     ho_ids = (\<lambda>n. replicate n 0x61), ho_accessLog = None\<rparr>"

definition no_git :: git where
  "no_git h c = \<lparr>gr_termination = SpawnError, gr_exitCode = None, gr_stdout = [], gr_stderr = [], gr_stderrTruncated = False, gr_durationMs = None\<rparr>"

lemma plain_host_simps [simp]:
  "ho_realpath plain_host = Inr" "ho_open plain_host = (\<lambda>_. None)" "ho_links plain_host d = None" "ho_cwd plain_host = [0x2f]"
  "ho_ids plain_host n = replicate n 0x61" "ho_accessLog plain_host = None" "ho_now plain_host = 0" "ho_windows plain_host = False"
  "ho_home plain_host = str ''/home''"
  "ho_stat plain_host p = Inr \<lparr>fst_directory = True, fst_file = False, fst_size = 0, fst_dev = 1, fst_ino = length p\<rparr>"
  by (simp_all add: plain_host_def)

lemma plain_host_ok: "host_ok (\<lambda>n. replicate n 0x61) plain_host"
proof -
  have "inj (\<lambda>n. replicate n (0x61 :: code_unit))"
    by (rule injI) (metis length_replicate)
  then show ?thesis
    by (simp add: host_ok_def plain_host_def)
qed

lemma no_layout: "\<exists>e. snd (exec no_git h (readLayout handle)) = Inl e"
  by (simp add: readLayout_def runRequired_def no_git_def failureFor_def exit_zero_def)

lemma etc: "isAbsolute (str ''/etc'')" "js_trim (str ''/etc'') = str ''/etc''" "\<not> containsGitDirectory (str ''/etc'')"
  "encodeExecutionPath (str ''/etc'') = Some [0x2f, 0x65, 0x74, 0x63]"
     apply code_simp
    apply code_simp
   apply code_simp
  apply (simp add: encodeExecutionPath_def Let_def decode_fatal_def without_mark_def byte_order_mark_def startsWith_def
      utf8_next_def code_point_units_def)
  done

theorem failed_registration_witness:
  "(\<exists>m. outcome (approveRepository (str ''/etc'') [] plain_host no_git [] empty_registry) = Inr (RegistrationRefused ''NotFound'' m)) \<and>
    (\<exists>root \<in> set (root_list (final (approveRepository (str ''/etc'') [] plain_host no_git [] empty_registry))).
       ro_path root = str ''/etc'' \<and> ro_executionTrusted root) \<and>
    rg_accessLog (final (approveRepository (str ''/etc'') [] plain_host no_git [] empty_registry)) = []"
proof -
  have "find_registered (str ''/etc'') empty_registry = None" "root_list empty_registry = []" "rg_accessLog empty_registry = []"
    by (simp_all add: find_registered_def repository_list_def root_list_def empty_registry_def)
  then show ?thesis
    using failed_registration_leaves_root [OF no_layout _ etc(1-3), of plain_host _ empty_registry "[]" "[]"] etc(4)
    by (simp del: str_simps add: isAbsolute_def startsWith_def)
qed

section \<open>Two directories behind one handle\<close>

text \<open>
  A handle does not name one directory. The number of handles and the hash of the path are written side by side with
  nothing between them, so the first handle of a root for \<^verbatim>\<open>src\<close> is the thirty-seventh for another
  directory: minting the second one makes the first name that directory.
\<close>

theorem handles_collide:
  assumes "length (rg_handles s) = 36" and "map_of (rg_roots s) (str ''r'') = Some root"
    and "map_of (rg_handles s) (handle_name 0 (str ''r'') (str ''src'')) = Some \<lparr>hr_rootId = str ''r'', hr_relativePath = str ''src''\<rparr>"
  shows "outcome (handleFor (str ''r'') (str ''krcswuk'') ho g h s) = Inr (handle_name 0 (str ''r'') (str ''src'')) \<and>
    map_of (rg_handles (final (handleFor (str ''r'') (str ''krcswuk'') ho g h s))) (handle_name 0 (str ''r'') (str ''src'')) =
      Some \<lparr>hr_rootId = str ''r'', hr_relativePath = str ''krcswuk''\<rparr>"
proof -
  have "path_hash (str ''r'' @ [0x2f] @ str ''krcswuk'') = -46329543" "path_hash (str ''r'' @ [0x2f] @ str ''src'') = 106795719"
    by (simp_all add: path_hash_def to_int32_def)
  then have "handle_name 36 (str ''r'') (str ''krcswuk'') = handle_name 0 (str ''r'') (str ''src'')"
    by (simp add: handle_name_def base36.simps digit36_def)
  moreover have "isSafeRelativePath (str ''krcswuk'')"
    by code_simp
  ultimately show ?thesis
    using assms
    by (simp add: handleFor_def root_of_def mintHandle_def bindA_def getA_def retA_def modifyA_def update_conv' del: str_simps)
qed

end
