(* ===== verification/GrantWitness.thy ===== *)
theory GrantWitness
  imports GrantGaps PageWitness
begin

text \<open>A concrete run of the registry: a directory approved on a plain host, a repository registered in it and opened.\<close>

section \<open>A repository at /a\<close>

definition place :: jsstring where "place = str ''/a''"

definition layout_output :: "byte list" where
  "layout_output = asc ''/a/.git'' @ [0x0a] @ asc ''/a/.git'' @ [0x0a] @ asc ''/a'' @ [0x0a] @ asc ''false'' @ [0x0a] @ asc ''sha1'' @ [0x0a] @ asc ''false'' @ [0x0a]"

definition worktree_output :: "byte list" where
  "worktree_output = asc ''worktree /a'' @ [0, 0]"

definition place_git :: git where
  "place_git h c = printing Exited 0 (if gc_description c = ''rev-parse layout'' then layout_output else worktree_output)"

definition place_layout :: layout_facts where
  "place_layout = \<lparr>lf_gitDir = str ''/a/.git'', lf_commonDir = str ''/a/.git'', lf_topLevel = Some place, lf_bare = False,
     lf_shallow = False, lf_objectFormat = Sha1\<rparr>"

definition place_listed :: listed_worktree where
  "place_listed = \<lparr>wr_pathBytes = asc ''/a'', wr_headOid = None, wr_branchRef = None, wr_bare = False, wr_detached = False,
     wr_locked = False, wr_lockReasonBytes = None, wr_prunable = False, wr_pruneReasonBytes = None\<rparr>"

lemma place_parsed: "exec g h (parseLayoutOutput layout_output True) = (h, Inr place_layout)"
proof -
  have "is_ascii layout_output" "filter (\<lambda>l. l \<noteq> []) (splitOn 0x0a (latin1 layout_output)) =
      [str ''/a/.git'', str ''/a/.git'', str ''/a'', str ''false'', str ''sha1'', str ''false'']"
    by code_simp+
  then show ?thesis
    by (simp add: parseLayoutOutput_def decodeAsciiText_def place_layout_def place_def)
qed

lemma place_read: "exec place_git h (readLayout handle) = (h @ [(planRepositoryLayout handle False, printing Exited 0 layout_output)], Inr place_layout)"
  by (simp add: readLayout_def exec_runRequired place_git_def planRepositoryLayout_def plan_spec_def place_parsed)

lemma place_listing: "parseWorktreeList worktree_output = Inr [place_listed]"
  by code_simp

lemma place_facts: "exec place_git h (readWorktreeFacts handle) = (h @ [(planWorktreeList handle, printing Exited 0 worktree_output)], Inr [place_listed])"
  by (simp add: readWorktreeFacts_def exec_parsed_run place_git_def planWorktreeList_def plan_spec_def place_listing)

lemma place_display: "toDisplayPath (asc ''/a'') = \<lparr>dp_text = place, dp_representable = True\<rparr>"
  by (simp add: toDisplayPath_def place_def decode_fatal_def without_mark_def byte_order_mark_def startsWith_def utf8_next_def code_point_units_def)


lemma place_path: "isAbsolute place" "encodeExecutionPath place \<noteq> None" "place \<noteq> []"
  by (simp_all add: place_def isAbsolute_def encodeExecutionPath_def Let_def decode_fatal_def without_mark_def byte_order_mark_def
      startsWith_def utf8_next_def code_point_units_def)

section \<open>The run\<close>

abbreviation plain_ids :: "nat \<Rightarrow> jsstring" where "plain_ids \<equiv> \<lambda>n. replicate n 0x61"

definition place_info :: file_stat where
  "place_info = \<lparr>fst_directory = True, fst_file = False, fst_size = 0, fst_dev = 1, fst_ino = length place\<rparr>"

definition place_approved :: registry where
  "place_approved = approved_state place True place_info plain_host empty_registry"

lemma place_info_stat: "ho_stat plain_host place = Inr place_info" "fst_directory place_info"
  by (simp_all add: place_info_def)

lemma place_approves: "ending (approve place True) plain_host no_git [] empty_registry (\<lambda>h' s' x. s' = place_approved)"
  by (rule ending_mono [OF approve_adds [OF place_path(1,2) _ place_info_stat]]) (simp_all add: place_approved_def)

lemma place_approved_reachable: "grants_reachable plain_ids place_approved"
  using grants_reachable.root [OF grants_reachable.nothing plain_host_ok, of place True no_git "[]"] place_approves
  by (simp add: ending_final)

definition place_registered :: registry where
  "place_registered = final (registerRepository [] [] plain_host place_git [] place_approved)"

lemma place_registered_reachable: "grants_reachable plain_ids place_registered"
  unfolding place_registered_def by (rule grants_reachable.registered [OF place_approved_reachable plain_host_ok])

lemma cwd_absolute: "isAbsolute (ho_cwd plain_host)"
  by (simp add: isAbsolute_def startsWith_def)

lemma place_git_runs: "gitA (readLayout handle) ho place_git h s = (h @ [(planRepositoryLayout handle False, printing Exited 0 layout_output)], s, Inr place_layout)"
  "gitA (readWorktreeFacts handle) ho place_git h s = (h @ [(planWorktreeList handle, printing Exited 0 worktree_output)], s, Inr [place_listed])"
  by (simp_all add: gitA_def place_read place_facts)

lemma ending_place:
  "ending (gitA (readLayout handle)) ho place_git h s Q \<longleftrightarrow> Q (h @ [(planRepositoryLayout handle False, printing Exited 0 layout_output)]) s (Inr place_layout)"
  "ending (gitA (readWorktreeFacts handle)) ho place_git h s Q' \<longleftrightarrow> Q' (h @ [(planWorktreeList handle, printing Exited 0 worktree_output)]) s (Inr [place_listed])"
  by (simp_all add: ending_def place_git_runs)

lemma place_inside: "isInsideOrEqual [0x2f] place place" "relative_path [0x2f] place place = []"
  using inside_refl [OF cwd_absolute, of place] by (simp_all add: relative_refl)

lemma place_state:
  "rg_roots place_approved = [([], \<lparr>ar_allowedRootId = [], ar_path = place, ar_parentRootId = None\<rparr>)]"
  "rg_handles place_approved = []" "rg_worktrees place_approved = []" "rg_idByPath place_approved = []" "rg_repositoryPins place_approved = 0"
  "rg_records place_approved = []" "rg_byCommonDir place_approved = []" "rg_minted place_approved = 1"
  "\<exists>rec. ro_path rec = place \<and> rg_approvals place_approved = [([], rec, pin_directory 0 place place_info plain_host)]"
  by (simp_all add: place_approved_def approved_state_def empty_registry_def Let_def)

lemma place_intact: "pin_check (pin_directory n place place_info plain_host) plain_host = Intact"
  by (simp add: pin_check_def pin_directory_def place_info_def)

lemma place_display': "toDisplayPath [0x2f, 0x61] = \<lparr>dp_text = place, dp_representable = True\<rparr>"
  using place_display by simp

lemma attach_keeps [simp]: "rg_records (attachRepository i r s) = rg_records s" "rg_worktrees (attachRepository i r s) = rg_worktrees s"
  by (simp_all add: attachRepository_def map_root_repositories_def split: option.split)

lemma attach_pin: "(\<exists>root. map_of (rg_approvals (attachRepository i r s)) i = Some (root, pin)) \<longleftrightarrow> (\<exists>root. map_of (rg_approvals s) i = Some (root, pin))"
  by (auto simp: attachRepository_def map_root_repositories_def update_conv' split: option.split)

lemma place_stays: "gone_worktrees repo [i] [(i, w)] = []" "rg_records (forget_worktrees [] s) = rg_records s"
  "rg_worktrees (forget_worktrees [] s) = rg_worktrees s" "rg_approvals (forget_worktrees [] s) = rg_approvals s"
  by (simp_all add: gone_worktrees_def forget_worktrees_def delete_keys_def)

lemma place_new: "ending (new_registration [] handle r place_layout info) plain_host place_git h s (\<lambda>h s x. \<exists>rec w.
    map_of (rg_records s) [0x61] = Some (rec, pin_directory 0 (str ''/a/.git'') info plain_host) \<and> rp_repositoryId rec = [0x61] \<and>
    rp_allowedRootId rec = [] \<and> rp_primaryWorktreeId rec = [0x61, 0x61] \<and> map_of (rg_worktrees s) [0x61, 0x61] = Some w \<and>
    (\<exists>root. map_of (rg_approvals s) [] = Some (root, rpin)))"
  if "map_of (rg_approvals s) [] = Some (root, rpin)" "rg_minted s = 1" "rg_repositoryPins s = 0" "map_of (rg_roots s) [] = Some \<lparr>ar_allowedRootId = [], ar_path = place, ar_parentRootId = None\<rparr>"
    "rg_idByPath s = []" "rg_worktrees s = []" "rh_absolutePath r = place"
  using that
  by (simp add: new_registration_def mint_id_def complete_registration_def ending_place reconcile_def root_of_def
      reconcile_one_def worktree_path_def worktree_id_def worktree_handle_def place_listed_def place_display' place_stays
      handleFor_def mintHandle_def place_inside Let_def new_entry_def place_layout_def update_conv' attach_pin del: str_simps)


lemma place_git_intact:
  "pin_check (pin_directory n (str ''/a/.git'') \<lparr>fst_directory = True, fst_file = False, fst_size = 0, fst_dev = 1, fst_ino = length (str ''/a/.git'')\<rparr> plain_host)
     plain_host = Intact"
  by (simp add: pin_check_def pin_directory_def)

lemma place_registers: "ending (registerRepository [] []) plain_host place_git [] place_approved (\<lambda>h s x. \<exists>rec w pin.
    map_of (rg_records s) [0x61] = Some (rec, pin) \<and> pin_check pin plain_host = Intact \<and> rp_repositoryId rec = [0x61] \<and>
    rp_allowedRootId rec = [] \<and> rp_primaryWorktreeId rec = [0x61, 0x61] \<and> map_of (rg_worktrees s) [0x61, 0x61] = Some w \<and>
    (\<exists>root rpin. map_of (rg_approvals s) [] = Some (root, rpin) \<and> pin_check rpin plain_host = Intact))"
proof -
  obtain rec where rec: "ro_path rec = place" "rg_approvals place_approved = [([], rec, pin_directory 0 place place_info plain_host)]"
    using place_state(9) by blast
  show ?thesis
    using rec
    by (simp add: registerRepository_def requireIntact_def place_state place_intact handleFor_def root_of_def mintHandle_def register_handle_def
          resolveHandle_def place_inside ending_place register_layout_def update_conv' place_layout_def [symmetric] del: str_simps)
       (rule ending_mono [OF place_new], auto simp: place_state place_layout_def place_git_intact [simplified] place_intact)
qed


lemma place_opens: "\<exists>w. outcome (repositoryWorktree [0x61] None plain_host place_git [] place_registered) = Inr w"
proof -
  obtain rec w pin root rpin where run:
    "map_of (rg_records place_registered) [0x61] = Some (rec, pin)" "pin_check pin plain_host = Intact" "rp_repositoryId rec = [0x61]"
    "rp_allowedRootId rec = []" "rp_primaryWorktreeId rec = [0x61, 0x61]" "map_of (rg_worktrees place_registered) [0x61, 0x61] = Some w"
    "map_of (rg_approvals place_registered) [] = Some (root, rpin)" "pin_check rpin plain_host = Intact"
    using place_registers unfolding ending_final place_registered_def by blast
  have "ending (repositoryWorktree [0x61] None) plain_host place_git [] place_registered (\<lambda>h s x. x = Inr w)"
    using run by (simp add: repositoryWorktree_def requireRepository_def entryOf_def requireIntact_def)
  then show ?thesis
    by (auto simp: ending_def outcome_def split: prod.splits)
qed


section \<open>The properties on the run\<close>


theorem repository_is_the_one_approved_witness:
  "\<exists>rec root dir. rec \<in> set (repository_list place_registered) \<and> rp_repositoryId rec = [0x61] \<and>
    root \<in> set (root_list place_registered) \<and> ho_stat plain_host (rp_commonDir rec) = Inr dir \<and> (fst_dev dir, fst_ino dir) = rp_identity rec"
proof -
  obtain w where "outcome (repositoryWorktree [0x61] None plain_host place_git [] place_registered) = Inr w"
    using place_opens by blast
  then show ?thesis
    using repository_is_the_one_approved [OF place_registered_reachable] by blast
qed


definition handled_state :: registry where
  "handled_state = empty_registry\<lparr>rg_roots := [(str ''r'', \<lparr>ar_allowedRootId = str ''r'', ar_path = place, ar_parentRootId = None\<rparr>)],
     rg_handles := (handle_name 0 (str ''r'') (str ''src''), \<lparr>hr_rootId = str ''r'', hr_relativePath = str ''src''\<rparr>) #
       replicate 35 ([], \<lparr>hr_rootId = str ''r'', hr_relativePath = []\<rparr>)\<rparr>"

lemma handled_simps: "rg_roots handled_state = [(str ''r'', \<lparr>ar_allowedRootId = str ''r'', ar_path = place, ar_parentRootId = None\<rparr>)]"
  "length (rg_handles handled_state) = 36"
  "map_of (rg_handles handled_state) (handle_name 0 (str ''r'') (str ''src'')) = Some \<lparr>hr_rootId = str ''r'', hr_relativePath = str ''src''\<rparr>"
  "map_of (rg_roots handled_state) (str ''r'') = Some \<lparr>ar_allowedRootId = str ''r'', ar_path = place, ar_parentRootId = None\<rparr>"
  by (simp_all add: handled_state_def)

theorem handles_collide_witness:
  "outcome (handleFor (str ''r'') (str ''krcswuk'') plain_host no_git [] handled_state) = Inr (handle_name 0 (str ''r'') (str ''src'')) \<and>
    map_of (rg_handles (final (handleFor (str ''r'') (str ''krcswuk'') plain_host no_git [] handled_state))) (handle_name 0 (str ''r'') (str ''src'')) =
      Some \<lparr>hr_rootId = str ''r'', hr_relativePath = str ''krcswuk''\<rparr>"
  by (rule handles_collide [OF handled_simps(2,4,3)])

theorem destination_witness:
  "\<exists>r. outcome (resolveDestination (str ''r'') (str ''new'') plain_host no_git [] handled_state) = Inr r \<and>
    resolved [0x2f] (rh_absolutePath r) = resolved [0x2f] place @ [str ''new'']"
proof -
  have "isSafeRelativePath (str ''new'')" "splitOn 0x2f (str ''new'') = [str ''new'']"
    by code_simp+
  then show ?thesis
    using destination_is_below_its_root [OF cwd_absolute handled_simps(4), where p = "str ''new''" and g = no_git and h = "[]"] place_path(1)
    by (simp del: str_simps)
qed

lemma src_resolves: "\<exists>r. outcome (resolveHandle (handle_name 0 (str ''r'') (str ''src'')) plain_host no_git [] handled_state) = Inr r \<and> rh_absolutePath r = str ''/a/src''"
proof -
  have "join_path [place, str ''src''] = str ''/a/src''" "isInsideOrEqual [0x2f] place (str ''/a/src'')" "str ''src'' \<noteq> []"
    by code_simp+
  then have "ending (resolveHandle (handle_name 0 (str ''r'') (str ''src''))) plain_host no_git [] handled_state
     (\<lambda>h s x. \<exists>r. x = Inr r \<and> rh_absolutePath r = str ''/a/src'')"
    by (simp add: resolveHandle_def handled_simps del: str_simps)
  then show ?thesis
    by (auto simp: ending_def outcome_def split: prod.splits)
qed


end
