(* ===== verification/PreviewRules.thy ===== *)
theory PreviewRules
  imports Previews
begin

text \<open>
  What a preview token is good for: one use, before it expires, on the path and the content it was issued for; a batch is
  spent whole or not at all; the store is bounded. And the content nobody read.
\<close>

section \<open>Entries only leave or become used\<close>

text \<open>What was issued, by token, and the tokens that were spent.\<close>

type_synonym issued_history = "(jsstring \<times> preview_claim \<times> int) list"

definition backed :: "issued_history \<Rightarrow> jsstring set \<Rightarrow> preview_store \<Rightarrow> bool" where
  "backed h spent entries \<longleftrightarrow> keys_distinct entries \<and> spent \<subseteq> fst ` set h \<and>
     (\<forall>t e. map_of entries t = Some e \<longrightarrow> (t, preview_claim.truncate e, pv_expiresAtMs e) \<in> set h \<and> (t \<in> spent \<longrightarrow> pv_used e))"

lemma backedD: "backed h spent entries \<Longrightarrow> map_of entries t = Some e \<Longrightarrow>
    (t, preview_claim.truncate e, pv_expiresAtMs e) \<in> set h \<and> (t \<in> spent \<longrightarrow> pv_used e)"
  by (simp add: backed_def)

lemma backed_sub: "backed h spent entries \<Longrightarrow> keys_distinct m \<Longrightarrow> (\<And>t e. map_of m t = Some e \<Longrightarrow> map_of entries t = Some e) \<Longrightarrow> backed h spent m"
  unfolding backed_def by blast

lemma prune_lookup:
  assumes "keys_distinct entries" and "map_of (preview_prune n t entries) k = Some e"
  shows "map_of entries k = Some e"
proof (cases "length entries \<le> n")
  case False
  let ?m = "keep (\<lambda>e. \<not> (pv_used e \<or> pv_expiresAtMs e \<le> t)) entries"
  have "map_of ?m k = Some e"
    using False assms trim.evict_lookup [of ?m pv_expiresAtMs n k e] by (simp add: preview_prune_def)
  then show ?thesis
    using assms(1) by (simp add: map_of_keep split: option.splits if_splits)
qed (use assms in \<open>simp add: preview_prune_def\<close>)

lemma prune_distinct [simp]: "keys_distinct entries \<Longrightarrow> keys_distinct (preview_prune n t entries)"
  by (simp add: preview_prune_def)

lemma prune_backed: "backed h spent entries \<Longrightarrow> backed h spent (preview_prune n t entries)"
  by (rule backed_sub) (auto simp: backed_def dest: prune_lookup)

lemma mark_lookup: "map_of (mark_used t entries) k = (if k = t then map_option (pv_used_update (\<lambda>_. True)) (map_of entries k) else map_of entries k)"
  by (auto simp: mark_used_def update_conv' split: option.split)

lemma marks_lookup: "map_of (fold (mark_used \<circ> pq_previewToken) rs entries) k =
    (if k \<in> pq_previewToken ` set rs then map_option (pv_used_update (\<lambda>_. True)) (map_of entries k) else map_of entries k)"
  by (induction rs arbitrary: entries) (auto simp: mark_lookup option.map_comp comp_def)

lemma mark_distinct [simp]: "keys_distinct entries \<Longrightarrow> keys_distinct (mark_used t entries)"
  by (simp add: mark_used_def split: option.split)

lemma known_update_length: "map_of m k = Some e \<Longrightarrow> length (AList.update k v m) = length m"
  by (induction m) (auto split: if_splits)

lemma marks_distinct: "keys_distinct entries \<Longrightarrow> keys_distinct (fold (mark_used \<circ> pq_previewToken) rs entries)"
  by (induction rs arbitrary: entries) simp_all

lemma marks_backed: "backed h spent entries \<Longrightarrow> pq_previewToken ` set rs \<subseteq> fst ` set h \<Longrightarrow>
    backed h (spent \<union> pq_previewToken ` set rs) (fold (mark_used \<circ> pq_previewToken) rs entries)"
  by (auto simp: backed_def marks_distinct marks_lookup preview_claim.defs split: if_splits)

lemma issue_backed:
  assumes "backed h spent entries" and "str ''pt_'' @ random \<notin> fst ` set h"
  shows "backed (h @ [(str ''pt_'' @ random, claim, t2 + po_ttlSeconds opts * 1000)]) spent (fst (preview_issue opts t1 t2 random claim entries))"
proof -
  note p = prune_backed [OF assms(1), of "po_maxEntries opts" t1]
  have "str ''pt_'' @ random \<notin> spent"
    using assms by (auto simp: backed_def)
  then show ?thesis
    using p by (auto simp: backed_def preview_issue_def Let_def update_conv' preview_claim.defs split: if_splits)
qed

section \<open>Checks\<close>

lemma checks_pass: "check_requests entries clock n rs = None \<Longrightarrow> i < length rs \<Longrightarrow> check_preview (clock (n + i)) entries (rs ! i) = None"
proof (induction entries clock n rs arbitrary: i rule: check_requests.induct)
  case (2 entries clock n r rs)
  then show ?case by (cases i) (auto split: option.splits)
qed simp

lemma check_passes: "check_preview t entries r = None \<longleftrightarrow>
    (\<exists>e. map_of entries (pq_previewToken r) = Some e \<and> \<not> pv_used e \<and> t < pv_expiresAtMs e \<and> pv_pathId e = pq_pathId r \<and>
      pv_fingerprintHex e = pq_fingerprintHex r)"
  by (auto simp: check_preview_def split: option.splits if_splits)

section \<open>Reachable stores\<close>

inductive preview_reachable :: "preview_options \<Rightarrow> issued_history \<Rightarrow> jsstring set \<Rightarrow> preview_store \<Rightarrow> bool" for opts where
  start: "preview_reachable opts [] {} []"
| issue: "preview_reachable opts h spent st \<Longrightarrow> str ''pt_'' @ random \<notin> fst ` set h \<Longrightarrow>
    preview_reachable opts (h @ [(str ''pt_'' @ random, claim, t2 + po_ttlSeconds opts * 1000)]) spent (fst (preview_issue opts t1 t2 random claim st))"
| verify: "preview_reachable opts h spent st \<Longrightarrow> preview_reachable opts h spent (fst (preview_verify opts t clock rs st))"
| refused: "preview_reachable opts h spent st \<Longrightarrow> preview_redeem opts t clock rs st = (st', Some r) \<Longrightarrow> preview_reachable opts h spent st'"
| redeem: "preview_reachable opts h spent st \<Longrightarrow> preview_redeem opts t clock rs st = (st', None) \<Longrightarrow>
    preview_reachable opts h (spent \<union> pq_previewToken ` set rs) st'"
| clear: "preview_reachable opts h spent st \<Longrightarrow> preview_reachable opts h spent []"

lemma redeem_cases:
  assumes "preview_redeem opts t clock rs st = (st', x)"
  shows "case x of
      Some r \<Rightarrow> st' = preview_prune (po_maxEntries opts) t st
    | None \<Rightarrow> st' = fold (mark_used \<circ> pq_previewToken) rs (preview_prune (po_maxEntries opts) t st) \<and>
        (\<forall>i < length rs. check_preview (clock i) (preview_prune (po_maxEntries opts) t st) (rs ! i) = None)"
  using assms checks_pass [of "preview_prune (po_maxEntries opts) t st" clock 0 rs]
  by (auto simp: preview_redeem_def Let_def split: option.splits)

lemma accepted_tokens:
  assumes "backed h spent st" and "preview_redeem opts t clock rs st = (st', None)" and "i < length rs"
  shows "\<exists>claim expiry. (pq_previewToken (rs ! i), claim, expiry) \<in> set h \<and> pq_previewToken (rs ! i) \<notin> spent \<and>
    clock i < expiry \<and> pv_pathId claim = pq_pathId (rs ! i) \<and> pv_fingerprintHex claim = pq_fingerprintHex (rs ! i)"
proof -
  let ?p = "preview_prune (po_maxEntries opts) t st"
  obtain e where e: "map_of ?p (pq_previewToken (rs ! i)) = Some e" "\<not> pv_used e" "clock i < pv_expiresAtMs e"
    "pv_pathId e = pq_pathId (rs ! i)" "pv_fingerprintHex e = pq_fingerprintHex (rs ! i)"
    using redeem_cases [OF assms(2)] assms(3) by (auto simp: check_passes)
  then show ?thesis
    using backedD [OF prune_backed [OF assms(1)] e(1)] by (fastforce simp: preview_claim.defs)
qed

lemma reachable_backed: "preview_reachable opts h spent st \<Longrightarrow> backed h spent st"
proof (induction rule: preview_reachable.induct)
  case (issue h spent st random claim t2 t1)
  then show ?case by (intro issue_backed)
next
  case (verify h spent st t clock rs)
  then show ?case by (simp add: preview_verify_def Let_def prune_backed)
next
  case (refused h spent st t clock rs st' r)
  then show ?case using redeem_cases [OF refused.hyps(2)] by (simp add: prune_backed)
next
  case (redeem h spent st t clock rs st')
  have "pq_previewToken ` set rs \<subseteq> fst ` set h"
    using accepted_tokens [OF redeem.IH redeem.hyps(2)] by (force simp: in_set_conv_nth)
  then show ?case
    using marks_backed [OF prune_backed [OF redeem.IH]] redeem_cases [OF redeem.hyps(2)] by simp
qed (auto simp: backed_def keys_distinct_def)

text \<open>
  C9. A preview token is good once, for what was shown. When a batch is accepted, every token in it was issued by this
  store for the path that is named and the content that was found, has not expired, and was not spent before; and after
  that no batch that names it is ever accepted again.
\<close>

theorem preview_spent_once:
  assumes "preview_reachable opts h spent st" and "preview_redeem opts t clock rs st = (st', None)" and "i < length rs"
  shows "(\<exists>claim expiry. (pq_previewToken (rs ! i), claim, expiry) \<in> set h \<and> clock i < expiry \<and>
      pv_pathId claim = pq_pathId (rs ! i) \<and> pv_fingerprintHex claim = pq_fingerprintHex (rs ! i)) \<and>
    pq_previewToken (rs ! i) \<notin> spent \<and> preview_reachable opts h (spent \<union> pq_previewToken ` set rs) st'"
  using accepted_tokens [OF reachable_backed [OF assms(1)] assms(2,3)] preview_reachable.redeem [OF assms(1,2)] by blast

text \<open>
  A batch of previews is spent whole or not at all, and the store is bounded. A refusal leaves every entry that
  remains as it was; whatever happens, the store holds at most one token more than its cap, because room is made before a
  token is added.
\<close>

theorem preview_batch_whole_and_bounded:
  assumes "preview_reachable opts h spent st"
  shows "length st \<le> po_maxEntries opts + 1 \<and>
    (case preview_redeem opts t clock rs st of
       (st', Some r) \<Rightarrow> set st' \<subseteq> set st
     | (st', None) \<Rightarrow> list_all (\<lambda>r. case map_of st' (pq_previewToken r) of None \<Rightarrow> False | Some e \<Rightarrow> pv_used e) rs)"
proof -
  have prune_length: "length (preview_prune n t' m) \<le> n" if "keys_distinct m" for n t' and m :: preview_store
    using that by (simp add: preview_prune_def trim.evict_length)
  have marks_length: "length (fold (mark_used \<circ> pq_previewToken) rs m) = length m" for rs and m :: preview_store
  proof (induction rs arbitrary: m)
    case (Cons r rs)
    have "length (mark_used x m) = length m" for x
      by (auto simp: mark_used_def known_update_length split: option.split)
    then show ?case using Cons by simp
  qed simp
  have "length st \<le> po_maxEntries opts + 1"
    using assms
  proof (induction rule: preview_reachable.induct)
    case (issue h spent st random claim t2 t1)
    have "keys_distinct st" using reachable_backed [OF issue.hyps(1)] by (simp add: backed_def)
    from prune_length [OF this] show ?case
      by (auto simp: preview_issue_def Let_def intro: le_trans [OF length_update_le])
  next
    case (verify h spent st t clock rs)
    have "keys_distinct st" using reachable_backed [OF verify.hyps(1)] by (simp add: backed_def)
    from prune_length [OF this, of "po_maxEntries opts" t] show ?case
      by (simp add: preview_verify_def Let_def)
  next
    case (refused h spent st t clock rs st' r)
    have "keys_distinct st" using reachable_backed [OF refused.hyps(1)] by (simp add: backed_def)
    from prune_length [OF this, of "po_maxEntries opts" t] show ?case
      using redeem_cases [OF refused.hyps(2)] by simp
  next
    case (redeem h spent st t clock rs st')
    have "keys_distinct st" using reachable_backed [OF redeem.hyps(1)] by (simp add: backed_def)
    from prune_length [OF this, of "po_maxEntries opts" t] show ?case
      using redeem_cases [OF redeem.hyps(2)] by (simp add: marks_length)
  qed simp_all
  moreover have keys: "keys_distinct st"
    using reachable_backed [OF assms] by (simp add: backed_def)
  have sub: "set (preview_prune n t st) \<subseteq> set st" for n
    using prune_lookup [OF keys] prune_distinct [OF keys] keys by (auto simp: map_of_iff)
  obtain st' x where run: "preview_redeem opts t clock rs st = (st', x)" by (cases "preview_redeem opts t clock rs st")
  have "case x of Some r \<Rightarrow> set st' \<subseteq> set st
      | None \<Rightarrow> list_all (\<lambda>r. case map_of st' (pq_previewToken r) of None \<Rightarrow> False | Some e \<Rightarrow> pv_used e) rs"
  proof (cases x)
    case None
    let ?p = "preview_prune (po_maxEntries opts) t st"
    have "\<exists>e. map_of ?p (pq_previewToken r) = Some e" if "r \<in> set rs" for r
      using redeem_cases [OF run] None that by (auto simp: in_set_conv_nth check_passes)
    then show ?thesis
      using redeem_cases [OF run] None by (fastforce simp: list_all_iff marks_lookup)
  next
    case (Some r)
    then show ?thesis using redeem_cases [OF run] sub by simp
  qed
  ultimately show ?thesis
    by (simp add: run split: option.splits)
qed

section \<open>Content nobody read\<close>

text \<open>
  C40. A preview of a file that could not be read is accepted for a file that cannot be read. Its fingerprint is empty, and
  so is the one that is taken when the token is spent, so the token of a file whose content was never shown opens the
  operation on it.
\<close>

theorem unread_file_is_accepted:
  assumes "getForWorktree pathId repo worktree paths = Some b" and "pb_executionText b = Some p" and "content p = None"
    and "length st < po_maxEntries opts" and "clock 0 < t2 + po_ttlSeconds opts * 1000"
  shows "case preview_issue opts t1 t2 random (claim_for sha256 repo worktree pathId None) st of
      (st', issued) \<Rightarrow> snd (consumePreviews opts t clock sha256 content repo worktree paths [pathId] [is_previewToken issued] st') = None"
proof -
  let ?token = "str ''pt_'' @ random" and ?claim = "claim_for sha256 repo worktree pathId None"
  let ?e = "preview_claim.extend ?claim \<lparr>pv_expiresAtMs = t2 + po_ttlSeconds opts * 1000, pv_used = False\<rparr>"
  have "length (AList.update ?token ?e st) \<le> po_maxEntries opts"
    using assms(4) length_update_le [of ?token ?e st] by simp
  moreover have "spend_request sha256 content repo worktree paths [?token] (0, pathId) = \<lparr>pq_previewToken = ?token, pq_pathId = pathId, pq_fingerprintHex = []\<rparr>"
    using assms(1-3) by (simp add: spend_request_def at_def)
  ultimately show ?thesis
    using assms(4,5)
    by (simp add: preview_issue_def consumePreviews_def preview_redeem_def preview_prune_def check_preview_def update_conv' claim_for_def
        preview_claim.defs Let_def del: str_simps)
qed

section \<open>A store with one token\<close>

definition shown_claim :: preview_claim where
  "shown_claim = \<lparr>pv_repositoryId = [], pv_worktreeId = [], pv_pathId = [0x61], pv_fingerprintHex = [0x62], pv_sizeBytes = Some 1,
     pv_contentKind = TextContent\<rparr>"

definition shown_options :: preview_options where "shown_options = previewOptions None None"

definition shown_store :: preview_store where "shown_store = fst (preview_issue shown_options 0 0 [] shown_claim [])"

definition shown_request :: preview_request where
  "shown_request = \<lparr>pq_previewToken = str ''pt_'', pq_pathId = [0x61], pq_fingerprintHex = [0x62]\<rparr>"

lemma shown_reachable: "preview_reachable shown_options [(str ''pt_'', shown_claim, 300000)] {} shown_store"
  using preview_reachable.issue [OF preview_reachable.start, where random = "[]" and claim = shown_claim and opts = shown_options and ?t1.0 = 0 and ?t2.0 = 0]
  by (simp add: shown_store_def shown_options_def previewOptions_def previewTokenTtlSeconds_def del: str_simps)

lemma shown_entry: "shown_store = [(str ''pt_'', preview_claim.extend shown_claim \<lparr>pv_expiresAtMs = 300000, pv_used = False\<rparr>)]"
  by (simp add: shown_store_def preview_issue_def Let_def preview_prune_def shown_options_def previewOptions_def
      previewTokenTtlSeconds_def del: str_simps)

lemma shown_redeemed: "\<exists>st. preview_redeem shown_options 0 (\<lambda>_. 5) [shown_request] shown_store = (st, None)"
  by (simp add: preview_redeem_def preview_prune_def shown_entry shown_options_def previewOptions_def check_preview_def shown_request_def
      shown_claim_def preview_claim.defs Let_def del: str_simps)

theorem preview_spent_once_witness:
  "\<exists>st. preview_redeem shown_options 0 (\<lambda>_. 5) [shown_request] shown_store = (st, None) \<and>
     preview_reachable shown_options [(str ''pt_'', shown_claim, 300000)] {str ''pt_''} st"
proof -
  obtain st where st: "preview_redeem shown_options 0 (\<lambda>_. 5) [shown_request] shown_store = (st, None)"
    using shown_redeemed by blast
  then show ?thesis
    using preview_spent_once [OF shown_reachable st, of 0] by (simp add: shown_request_def del: str_simps)
qed

theorem preview_batch_witness:
  "length shown_store \<le> 10001 \<and> (\<exists>st. preview_redeem shown_options 0 (\<lambda>_. 5) [shown_request] shown_store = (st, None) \<and>
     list_all (\<lambda>r. case map_of st (pq_previewToken r) of None \<Rightarrow> False | Some e \<Rightarrow> pv_used e) [shown_request])"
proof -
  obtain st where st: "preview_redeem shown_options 0 (\<lambda>_. 5) [shown_request] shown_store = (st, None)"
    using shown_redeemed by blast
  have "po_maxEntries shown_options + 1 = 10001"
    by (simp add: shown_options_def previewOptions_def)
  then show ?thesis
    using preview_batch_whole_and_bounded [OF shown_reachable, where t = 0 and clock = "\<lambda>_. 5" and rs = "[shown_request]"] st by auto
qed

definition unread_binding :: path_binding where
  "unread_binding = \<lparr>pb_pathId = [0x70], pb_repositoryId = [], pb_worktreeId = [], pb_bytes = [0x66], pb_displayPath = \<lparr>dp_text = [0x66], dp_representable = True\<rparr>,
     pb_encoding = Utf8, pb_executionText = Some [0x66], pb_executionBytes = Some [0x66], pb_mintedAtMs = 0\<rparr>"

theorem unread_file_witness:
  "case preview_issue shown_options 0 0 [] (claim_for (\<lambda>_. []) [] [] [0x70] None) [] of
      (st', issued) \<Rightarrow> snd (consumePreviews shown_options 0 (\<lambda>_. 5) (\<lambda>_. []) (\<lambda>_. None) [] [] \<lparr>pg_byId = [([0x70], unread_binding)], pg_byKey = []\<rparr>
        [[0x70]] [is_previewToken issued] st') = None"
  by (rule unread_file_is_accepted [where b = unread_binding and p = "[0x66]"]) (simp_all add: getForWorktree_def unread_binding_def shown_options_def previewOptions_def previewTokenTtlSeconds_def)

end
