(* ===== verification/Backups.thy ===== *)
theory Backups
  imports Previews HostPaths
begin

text \<open>
  File metadata and the private recovery area: \<^verbatim>\<open>packages/host-node/src/filesystem/metadata.ts\<close>. A
  \<open>file_area\<close> is the files by path and what the index of the area holds: \<open>None\<close> when it is missing, cannot be read or is no
  JSON list. Files may be changed by others while a backup runs, so what the two reads of the original see are arguments.
\<close>

section \<open>Metadata\<close>

datatype path_kind = RegularFile | DirectoryKind | SymlinkKind | SubmoduleGitlink | OtherKind

record disk_node =
  dn_kind :: path_kind
  dn_bytes :: "byte list"
  dn_mode :: nat

record path_metadata =
  pm_path :: jsstring
  pm_kind :: path_kind
  pm_sizeBytes :: nat
  pm_mode :: nat
  pm_executable :: bool

record backup_record =
  bk_backupPath :: jsstring
  bk_originalPath :: jsstring
  bk_fingerprint :: content_fingerprint
  bk_createdAtMs :: int
  bk_mode :: nat

record file_area =
  dk_files :: "(jsstring, disk_node) jsmap"
  dk_index :: "backup_record list option"

record recovery_budget =
  rb_maxTotalBytes :: nat
  rb_maxAgeMs :: int

definition DEFAULT_RECOVERY_BUDGET :: recovery_budget where
  "DEFAULT_RECOVERY_BUDGET = \<lparr>rb_maxTotalBytes = 256 * 1024 * 1024, rb_maxAgeMs = 7 * 24 * 60 * 60 * 1000\<rparr>"

datatype backup_outcome = BackupVerified backup_record | BackupRefused jsstring

text \<open>\<^verbatim>\<open>null\<close> stands for the refusal that a path does not exist.\<close>

definition readPathMetadata :: "file_area \<Rightarrow> jsstring \<Rightarrow> path_metadata option" where
  "readPathMetadata d p = map_option (\<lambda>n. \<lparr>pm_path = p, pm_kind = dn_kind n, pm_sizeBytes = length (dn_bytes n),
     pm_mode = dn_mode n mod 512, pm_executable = (dn_mode n div 64 mod 2 = 1 \<or> dn_mode n div 8 mod 2 = 1 \<or> dn_mode n mod 2 = 1)\<rparr>)
     (map_of (dk_files d) p)"

definition isDiscardableKind :: "path_kind \<Rightarrow> bool" where "isDiscardableKind k \<longleftrightarrow> k = RegularFile"

fun kind_text :: "path_kind \<Rightarrow> string" where
  "kind_text RegularFile = ''regularFile''"
| "kind_text DirectoryKind = ''directory''"
| "kind_text SymlinkKind = ''symlink''"
| "kind_text SubmoduleGitlink = ''submoduleGitlink''"
| "kind_text OtherKind = ''other''"

section \<open>The recovery area\<close>

definition readIndex :: "file_area \<Rightarrow> backup_record list" where
  "readIndex d = (case dk_index d of None \<Rightarrow> [] | Some rs \<Rightarrow> rs)"

definition writeIndex :: "backup_record list \<Rightarrow> file_area \<Rightarrow> file_area" where
  "writeIndex rs d = d\<lparr>dk_index := Some rs\<rparr>"

definition live_bytes :: "backup_record list \<Rightarrow> nat" where
  "live_bytes rs = sum_list (map (fp_sizeBytes \<circ> bk_fingerprint) rs)"

definition parent_dir :: "jsstring \<Rightarrow> jsstring" where "parent_dir p = dir_name (path_segments p)"

text \<open>\<^verbatim>\<open>rm(path, { recursive: true, force: true })\<close>.\<close>

definition below :: "jsstring \<Rightarrow> jsstring \<Rightarrow> bool" where
  "below dir p \<longleftrightarrow> prefix (path_segments dir) (path_segments p)"

definition rm_tree :: "jsstring \<Rightarrow> file_area \<Rightarrow> file_area" where
  "rm_tree dir d = d\<lparr>dk_files := filter (\<lambda>(p, n). \<not> below dir p) (dk_files d)\<rparr>"

definition write_file :: "jsstring \<Rightarrow> byte list \<Rightarrow> nat \<Rightarrow> file_area \<Rightarrow> file_area" where
  "write_file p bytes mode d = d\<lparr>dk_files := AList.update p
     (case map_of (dk_files d) p of
        None \<Rightarrow> \<lparr>dn_kind = RegularFile, dn_bytes = bytes, dn_mode = mode\<rparr>
      | Some n \<Rightarrow> n\<lparr>dn_bytes := bytes\<rparr>) (dk_files d)\<rparr>"

definition backup_path :: "jsstring \<Rightarrow> jsstring \<Rightarrow> jsstring \<Rightarrow> jsstring \<Rightarrow> jsstring \<Rightarrow> jsstring \<Rightarrow> jsstring" where
  "backup_path cwd root operationId stamp contentRoot originalPath =
     join_path [root, operationId, stamp, relative_path cwd contentRoot originalPath]"

text \<open>
  \<open>seen\<close> is what \<^verbatim>\<open>readFile\<close> reads of the original, \<open>later\<close> what its fingerprint is taken of; \<open>None\<close> as the outcome
  is the refusal of \<open>readPathMetadata\<close>.
\<close>

definition backUp ::
  "(byte list \<Rightarrow> jsstring) \<Rightarrow> jsstring \<Rightarrow> jsstring \<Rightarrow> recovery_budget \<Rightarrow> jsstring \<Rightarrow> int \<Rightarrow> byte list \<Rightarrow> byte list \<Rightarrow>
     jsstring \<Rightarrow> jsstring \<Rightarrow> jsstring \<Rightarrow> file_area \<Rightarrow> file_area \<times> backup_outcome option" where
  "backUp sha256 cwd root budget stamp current seen later originalPath contentRoot operationId d =
     (case readPathMetadata d originalPath of
        None \<Rightarrow> (d, None)
      | Some metadata \<Rightarrow>
          if pm_kind metadata \<noteq> RegularFile then
            (d, Some (BackupRefused (str (''only regular files are backed up, this is a '' @ kind_text (pm_kind metadata)))))
          else let existing = readIndex d in
            if live_bytes existing + pm_sizeBytes metadata > rb_maxTotalBytes budget then
              (d, Some (BackupRefused (str ''recovery area holds '' @ decimal (live_bytes existing) @ str '' bytes of '' @
                 decimal (rb_maxTotalBytes budget) @ str ''; prune or restore first'')))
            else let backupPath = backup_path cwd root operationId stamp contentRoot originalPath;
                     d = write_file backupPath seen 438 d
              in if fp_hex (fingerprintBytes sha256 later) \<noteq> fp_hex (fingerprintBytes sha256 seen) then
                   (rm_tree (parent_dir backupPath) d, Some (BackupRefused (str ''backup copy did not match the original bytes'')))
                 else let r = \<lparr>bk_backupPath = backupPath, bk_originalPath = originalPath, bk_fingerprint = fingerprintBytes sha256 seen,
                             bk_createdAtMs = current, bk_mode = pm_mode metadata\<rparr>
                   in (writeIndex (existing @ [r]) d, Some (BackupVerified r)))"

definition backup_list :: "file_area \<Rightarrow> backup_record list" where "backup_list d = readIndex d"

definition usageBytes :: "file_area \<Rightarrow> nat" where "usageBytes d = live_bytes (readIndex d)"

definition expired_backups :: "recovery_budget \<Rightarrow> int \<Rightarrow> backup_record list \<Rightarrow> backup_record list" where
  "expired_backups budget current rs = filter (\<lambda>r. bk_createdAtMs r < current - rb_maxAgeMs budget) rs"

definition prune_backups :: "recovery_budget \<Rightarrow> int \<Rightarrow> file_area \<Rightarrow> file_area \<times> nat" where
  "prune_backups budget current d =
     (let gone = expired_backups budget current (readIndex d);
          kept = filter (\<lambda>r. \<not> bk_createdAtMs r < current - rb_maxAgeMs budget) (readIndex d);
          swept = fold (\<lambda>r. rm_tree (parent_dir (parent_dir (bk_backupPath r)))) gone d
      in (if gone \<noteq> [] then writeIndex kept swept else swept, length gone))"

text \<open>\<^verbatim>\<open>restore\<close>: \<open>None\<close> when the copy cannot be read. The mode is used for a file that is created.\<close>

definition restore :: "backup_record \<Rightarrow> file_area \<Rightarrow> file_area option" where
  "restore r d = map_option (\<lambda>n. write_file (bk_originalPath r) (dn_bytes n) (bk_mode r) d) (map_of (dk_files d) (bk_backupPath r))"

definition directorySize :: "jsstring \<Rightarrow> file_area \<Rightarrow> nat" where
  "directorySize root d = sum_list (map (\<lambda>(p, n). length (dn_bytes n)) (filter (\<lambda>(p, n). below root p \<and> dn_kind n = RegularFile) (dk_files d)))"

end
