(* ===== verification/BackupRules.thy ===== *)
theory BackupRules
  imports Backups
begin

text \<open>
  What a backup is worth: a verified one can be restored, stays within the budget and leaves the others; and the two ways
  a backup that the area still owes is lost.
\<close>

lemma write_lookup: "map_of (dk_files (write_file p bytes mode d)) q =
    (if q = p then Some (case map_of (dk_files d) p of None \<Rightarrow> \<lparr>dn_kind = RegularFile, dn_bytes = bytes, dn_mode = mode\<rparr> | Some n \<Rightarrow> n\<lparr>dn_bytes := bytes\<rparr>)
     else map_of (dk_files d) q)"
  by (simp add: write_file_def update_conv' split: option.split)

lemma write_index [simp]: "dk_index (write_file p bytes mode d) = dk_index d" "dk_index (writeIndex rs d) = Some rs"
  "dk_files (writeIndex rs d) = dk_files d"
  by (simp_all add: write_file_def writeIndex_def)

lemma backup_verified:
  assumes "backUp sha256 cwd root budget stamp current seen later original contentRoot operationId d = (d', Some (BackupVerified r))"
  shows "d' = writeIndex (readIndex d @ [r]) (write_file (bk_backupPath r) seen 438 d)" and "bk_originalPath r = original"
    and "bk_fingerprint r = fingerprintBytes sha256 seen" and "sha256 later = sha256 seen"
    and "\<exists>n. map_of (dk_files d) original = Some n \<and> dn_kind n = RegularFile \<and> live_bytes (readIndex d) + length (dn_bytes n) \<le> rb_maxTotalBytes budget"
  using assms
  by (auto simp: backUp_def readPathMetadata_def Let_def fingerprintBytes_def split: option.splits if_splits)


text \<open>
  The recovery area stays within its budget: a backup that is verified of a file that did not grow meanwhile keeps the
  sum of the recorded sizes at or below the bound.
\<close>

theorem backups_within_budget:
  assumes "backUp sha256 cwd root budget stamp current seen later original contentRoot operationId d = (d', Some (BackupVerified r))"
    and "map_of (dk_files d) original = Some n" and "length seen \<le> length (dn_bytes n)"
  shows "usageBytes d' \<le> rb_maxTotalBytes budget"
  using backup_verified(5) [OF assms(1)] assms(2,3)
  by (simp add: usageBytes_def backup_verified(1) [OF assms(1)] readIndex_def live_bytes_def backup_verified(3) [OF assms(1)] fingerprintBytes_def
      split: option.splits)

text \<open>
  An index that cannot be read is replaced. The next backup writes an index that holds that backup alone: the copies
  of the earlier ones are still on the disk, but no record leads to them and the budget does not count them.
\<close>

theorem unreadable_index_is_replaced:
  assumes "backUp sha256 cwd root budget stamp current seen later original contentRoot operationId d = (d', Some (BackupVerified r))"
    and "dk_index d = None"
  shows "backup_list d' = [r] \<and> usageBytes d' = length seen \<and> (\<forall>p. p \<noteq> bk_backupPath r \<longrightarrow> map_of (dk_files d') p = map_of (dk_files d) p)"
  using assms(2)
  by (simp add: backup_verified(1) [OF assms(1)] backup_list_def readIndex_def usageBytes_def live_bytes_def backup_verified(3) [OF assms(1)]
      fingerprintBytes_def write_lookup)

section \<open>Pruning\<close>

lemma rm_lookup: "map_of (dk_files (rm_tree dir d)) p = (if below dir p then None else map_of (dk_files d) p)"
proof -
  have "map_of (filter (\<lambda>(p, n). \<not> below dir p) m) p = (if below dir p then None else map_of m p)" for m :: "(jsstring \<times> disk_node) list"
    by (induction m) auto
  then show ?thesis by (simp add: rm_tree_def)
qed

lemma rm_index [simp]: "dk_index (rm_tree dir d) = dk_index d"
  by (simp add: rm_tree_def)

lemma sweep_index [simp]: "dk_index (fold (\<lambda>r. rm_tree (f r)) rs d) = dk_index d"
  by (induction rs arbitrary: d) simp_all

lemma sweep_lookup: "map_of (dk_files (fold (\<lambda>r. rm_tree (f r)) rs d)) p = (if list_ex (\<lambda>r. below (f r) p) rs then None else map_of (dk_files d) p)"
  by (induction rs arbitrary: d) (simp_all add: rm_lookup)

text \<open>
  C39. Pruning can delete a backup it keeps. For an expired backup the directory two levels above its copy is removed,
  which for a file at the top of the worktree is the directory of the whole operation: a younger backup of the same
  operation loses its copy, while its record stays in the index.
\<close>

theorem pruning_takes_a_kept_backup:
  assumes "r \<in> set (backup_list d)" and "bk_createdAtMs r < current - rb_maxAgeMs budget"
    and "q \<in> set (backup_list d)" and "current - rb_maxAgeMs budget \<le> bk_createdAtMs q"
    and "below (parent_dir (parent_dir (bk_backupPath r))) (bk_backupPath q)"
  shows "q \<in> set (backup_list (fst (prune_backups budget current d))) \<and> restore q (fst (prune_backups budget current d)) = None"
proof -
  have gone: "r \<in> set (expired_backups budget current (readIndex d))"
    using assms(1,2) by (simp add: expired_backups_def backup_list_def)
  then have "list_ex (\<lambda>r. below (parent_dir (parent_dir (bk_backupPath r))) (bk_backupPath q)) (expired_backups budget current (readIndex d))"
    using assms(5) by (auto simp: list_ex_iff)
  moreover have "expired_backups budget current (readIndex d) \<noteq> []"
    using gone by auto
  ultimately show ?thesis
    using assms(3,4) by (simp add: prune_backups_def Let_def backup_list_def readIndex_def [of "writeIndex _ _"] restore_def sweep_lookup)
qed

section \<open>An area with files\<close>

definition area_disk :: file_area where
  "area_disk = \<lparr>dk_files = [(str ''/w/a'', \<lparr>dn_kind = RegularFile, dn_bytes = [1, 2], dn_mode = 420\<rparr>)], dk_index = None\<rparr>"

definition area_backup :: "file_area \<times> backup_outcome option" where
  "area_backup = backUp (\<lambda>b. map (\<lambda>x. ucast x) b) [0x2f] (str ''/s'') DEFAULT_RECOVERY_BUDGET (str ''t'') 7 [1, 2] [1, 2] (str ''/w/a'') (str ''/w'') (str ''op'') area_disk"

definition area_record :: backup_record where
  "area_record = \<lparr>bk_backupPath = str ''/s/op/t/a'', bk_originalPath = str ''/w/a'',
     bk_fingerprint = \<lparr>fp_hex = [1, 2], fp_sizeBytes = 2, fp_contentKind = TextContent\<rparr>, bk_createdAtMs = 7, bk_mode = 420\<rparr>"

lemma area_path: "backup_path [0x2f] (str ''/s'') (str ''op'') (str ''t'') (str ''/w'') (str ''/w/a'') = str ''/s/op/t/a''"
  by code_simp

lemma area_text: "sniffContentKind [1, 2] = TextContent"
  by (simp add: sniffContentKind_def decode_fatal_def without_mark_def byte_order_mark_def startsWith_def utf8_next_def code_point_units_def)

lemma area_verified: "\<exists>d. area_backup = (d, Some (BackupVerified area_record))"
  by (simp add: area_backup_def backUp_def area_disk_def readPathMetadata_def readIndex_def live_bytes_def DEFAULT_RECOVERY_BUDGET_def
      area_path fingerprintBytes_def TEXT_SNIFF_BYTES_def area_text area_record_def Let_def del: str_simps)


theorem within_budget_witness:
  "\<exists>d. area_backup = (d, Some (BackupVerified area_record)) \<and> usageBytes d \<le> 256 * 1024 * 1024"
proof -
  obtain d where d: "area_backup = (d, Some (BackupVerified area_record))"
    using area_verified by blast
  have "map_of (dk_files area_disk) (str ''/w/a'') = Some \<lparr>dn_kind = RegularFile, dn_bytes = [1, 2], dn_mode = 420\<rparr>"
    by (simp add: area_disk_def del: str_simps)
  then show ?thesis
    using backups_within_budget [OF d [unfolded area_backup_def]] d by (auto simp: DEFAULT_RECOVERY_BUDGET_def)
qed

theorem unreadable_index_witness: "\<exists>d. area_backup = (d, Some (BackupVerified area_record)) \<and> backup_list d = [area_record]"
proof -
  obtain d where d: "area_backup = (d, Some (BackupVerified area_record))"
    using area_verified by blast
  have "dk_index area_disk = None" by (simp add: area_disk_def)
  then show ?thesis
    using unreadable_index_is_replaced [OF d [unfolded area_backup_def]] d by blast
qed

definition young_record :: backup_record where
  "young_record = area_record\<lparr>bk_backupPath := str ''/s/op/u/b'', bk_createdAtMs := 8\<rparr>"

definition full_disk :: file_area where
  "full_disk = \<lparr>dk_files = [(str ''/s/op/t/a'', \<lparr>dn_kind = RegularFile, dn_bytes = [1, 2], dn_mode = 420\<rparr>),
     (str ''/s/op/u/b'', \<lparr>dn_kind = RegularFile, dn_bytes = [1, 2], dn_mode = 420\<rparr>)], dk_index = Some [area_record, young_record]\<rparr>"

theorem pruning_witness:
  "young_record \<in> set (backup_list (fst (prune_backups \<lparr>rb_maxTotalBytes = 9, rb_maxAgeMs = 92\<rparr> 100 full_disk))) \<and>
   restore young_record full_disk \<noteq> None \<and> restore young_record (fst (prune_backups \<lparr>rb_maxTotalBytes = 9, rb_maxAgeMs = 92\<rparr> 100 full_disk)) = None"
proof -
  have paths: "bk_backupPath area_record = str ''/s/op/t/a''" "bk_backupPath young_record = str ''/s/op/u/b''"
    "bk_createdAtMs area_record = 7" "bk_createdAtMs young_record = 8" "backup_list full_disk = [area_record, young_record]"
    by (simp_all add: young_record_def area_record_def full_disk_def backup_list_def readIndex_def del: str_simps)
  have "below (parent_dir (parent_dir (str ''/s/op/t/a''))) (str ''/s/op/u/b'')"
    by code_simp
  moreover have "restore young_record full_disk \<noteq> None"
    by (simp add: restore_def paths(2)) (simp add: full_disk_def)
  ultimately show ?thesis
    using pruning_takes_a_kept_backup [of area_record full_disk 100 "\<lparr>rb_maxTotalBytes = 9, rb_maxAgeMs = 92\<rparr>" young_record]
    by (simp add: paths del: str_simps)
qed

end
