(* ===== verification/Spec2Isabelle.thy ===== *)
theory Spec2Isabelle
  imports Status CatFile Graph Queue Recovery Submit JobWitness AccessWitness GuardWitness RunLength ListingRules PatchRules PageWitness ReadGaps GrantWitness PreviewRules BackupRules
begin

text \<open>
  A model of the refyard service in Isabelle/HOL: what a local Git workbench reads from Git, what it
  lets a paired browser do, and how it runs one operation at a time and survives a crash. The source
  is the TypeScript of the repository; paths are under \<^verbatim>\<open>src/\<close>.

  \<^bold>\<open>How the parts interact.\<close> A browser holds a session of the pairing store (\<open>Auth\<close>). Its request passes
  the middleware and the checks before a route's handler (\<open>Access\<close>). A read runs Git and parses what
  Git prints (\<open>Status\<close>, \<open>CatFile\<close>, both over the scanner of \<open>Bytes\<close> and \<open>Reader\<close>), lays the history out
  in lanes (\<open>Graph\<close>) and keeps the answer as a snapshot with cursors (\<open>Snapshots\<close>). A mutation is
  validated (\<open>Names\<close>, \<open>Operations\<close>), checked against the repository as it is now (\<open>Submit\<close>, \<open>Preconditions\<close>, with
  refusals of \<open>Problem\<close>), recorded in the journal (\<open>Journal\<close>), queued (\<open>Queue\<close>) and run by the job engine (\<open>Jobs\<close>):
  its effect (\<open>Effects\<close>) runs a workflow (\<open>Workflows\<close>), a few planned Git commands (\<open>Plans\<close>, run by \<open>GitRun\<close>) whose
  output is read back (\<open>GitFacts\<close>, \<open>NetworkOutput\<close>). After a
  restart the journal tells which operations were under way, and their repositories stay closed to
  writes until somebody resolves them (\<open>Recovery\<close>).

  \<^bold>\<open>Values.\<close> \<open>Prelude\<close> fixes how the language's values are read: a byte is an \<open>8 word\<close>, a string is a
  list of 16-bit code units (\<open>str\<close> turns a literal into one), an index is a \<open>nat\<close>, a thrown error
  or a refusal is an \<open>Inl\<close>. A \<^verbatim>\<open>Map\<close> or \<^verbatim>\<open>Set\<close> whose order matters is an association list in insertion
  order (\<open>JsMap\<close>); time, random ids and the answers of Git are arguments. A closure's variables are a
  record, and each of its functions is a definition that takes and returns the record. Asynchronous
  code is cut at its awaits: the job engine, the journal and the pairing store are step relations or
  lists of calls, in any interleaving the source allows.

  \<^bold>\<open>Theories and sources.\<close>
  \<^item> \<open>Bytes\<close>, \<open>Reader\<close>: \<^verbatim>\<open>packages/git-core/src/bytes/nul-framing.ts\<close> and \<^verbatim>\<open>limits.ts\<close>. \<open>reader\<close> is \<^verbatim>\<open>FrameReader\<close>,
    \<open>framer\<close> the incremental framer; the lemmas give what every reading function returns and that
    feeding chunks is feeding their concatenation.
  \<^item> \<open>Status\<close>: \<^verbatim>\<open>packages/git-core/src/parse/status.ts\<close>. One definition per function; soundness, a printer
    the parser inverts, and the records it refuses.
  \<^item> \<open>CatFile\<close>: \<^verbatim>\<open>packages/git-core/src/parse/cat-file.ts\<close>, the decoder as a record \<open>cat_state\<close> fed chunk
    by chunk, and the commit and tag parsers; round trips against printers of the two formats.
  \<^item> \<open>Graph\<close>: \<^verbatim>\<open>packages/git-graph/src/layout.ts\<close> and \<^verbatim>\<open>pages.ts\<close>; laying out pages one after another is
    laying out the whole history, no two lines collide and none is cut.
  \<^item> \<open>Queue\<close>: \<^verbatim>\<open>packages/host-node/src/coordinator/queue.ts\<close>; its limits, that a writer excludes everything
    on its key, that it always makes progress.
  \<^item> \<open>Json\<close>, \<open>Journal\<close>, \<open>Recovery\<close>: \<^verbatim>\<open>packages/host-node/src/journal/store.ts\<close>, \<^verbatim>\<open>retention.ts\<close>,
    \<^verbatim>\<open>recovery.ts\<close>. The file is text; a crash leaves any prefix of the last line. What survives, what
    compaction drops, what recovery closes.
  \<^item> \<open>Problem\<close>, \<open>Preconditions\<close>, \<open>JsMap\<close>, \<open>Snapshots\<close>, \<open>Submit\<close>: \<^verbatim>\<open>packages/git-contract/src/errors.ts\<close> and
    \<^verbatim>\<open>coordinator/preconditions.ts\<close>, \<^verbatim>\<open>snapshots.ts\<close>, \<^verbatim>\<open>submit.ts\<close>, \<^verbatim>\<open>failures.ts\<close> of
    \<^verbatim>\<open>packages/host-node/src\<close>: which writes are admitted.
  \<^item> \<open>Jobs\<close>, \<open>JobLife\<close>, \<open>JobWitness\<close>: \<^verbatim>\<open>coordinator/jobs.ts\<close>. \<open>engine\<close> holds its maps, \<open>job_step\<close> its steps
    between two awaits. \<open>JobLife\<close> proves an invariant of the reachable engines, that each operation
    lives the life of a status the locale \<open>operation_log\<close> states (a first status, allowed successors, final statuses that stay), mutual exclusion per
    repository, cancellation and idempotency, and what goes wrong when submissions overlap.
  \<^item> \<open>Auth\<close>, \<open>AuthLife\<close>: \<^verbatim>\<open>packages/host-node/src/http/auth.ts\<close>; tickets, sessions and grants over any history
    of calls. \<open>Access\<close>, \<open>AccessRules\<close>, \<open>AccessWitness\<close>: \<^verbatim>\<open>origins.ts\<close>, \<^verbatim>\<open>scope-policy.ts\<close>, \<^verbatim>\<open>errors.ts\<close>,
    \<^verbatim>\<open>router.ts\<close> and the checks of \<^verbatim>\<open>hono-app.ts\<close> and \<^verbatim>\<open>server.ts\<close>: who reaches a handler.

  \<^item> \<open>Names\<close>, \<open>NameRules\<close>: the rules of \<^verbatim>\<open>packages/git-contract/src/names.ts\<close> and \<^verbatim>\<open>validate.ts\<close> on names, URLs and messages, and
    \<^verbatim>\<open>remote-url.ts\<close> of the core; which branch names pass, that the two URL rules agree, the exact byte count.
  \<^item> \<open>Operations\<close>: \<^verbatim>\<open>packages/git-contract/src/operations.ts\<close>, the union of operations, their schemas, targets and rules;
    \<open>accepted\<close> is what passes.
  \<^item> \<open>GitRun\<close>: \<^verbatim>\<open>packages/git-core/src/workflows/engine.ts\<close>. A workflow is a \<open>prog\<close>: a tree of commands, each with a
    continuation on Git's result; \<open>exec\<close> runs it against any answers of Git and keeps the log.
  \<^item> \<open>Plans\<close>: the argument vectors of \<^verbatim>\<open>packages/git-core/src/plan/\<close>. \<open>GitFacts\<close>, \<open>NetworkOutput\<close>: the heads, index lines,
    remotes, configuration and porcelain lines of \<^verbatim>\<open>workflows/status.ts\<close>, \<^verbatim>\<open>parse/ls-files.ts\<close>, \<^verbatim>\<open>meta.ts\<close>, \<^verbatim>\<open>network.ts\<close>.
  \<^item> \<open>Workflows\<close>: the writing workflows of \<^verbatim>\<open>packages/git-core/src/workflows/\<close>. \<open>Effects\<close>: the \<^verbatim>\<open>run\<close> of every kind of operation in
    \<^verbatim>\<open>packages/host-node/src/coordinator/*-effects.ts\<close> and \<^verbatim>\<open>previews.ts\<close>, from the operation to its recorded outcome.
  \<^item> \<open>RunRules\<close>, \<open>OptionRules\<close>, \<open>GuardRules\<close>, \<open>PathRules\<close>, \<open>RunLength\<close>: what holds of every run of every accepted operation,
    whatever Git answers: success is Git's success, what was cut short stays open, nothing runs twice, client text
    is never an option, each write rests on answers just read, a discard is backed up, and every run is short.
    \<open>RunGaps\<close> has runs whose record says something else than what Git did; \<open>RunWitness\<close>, \<open>GuardWitness\<close> are concrete runs.

  \<^bold>\<open>Interfaces.\<close> A locale states what one part promises another, and is interpreted on the model where
  the part is defined: \<open>reader_op\<close>, a reading function never leaves its frame and only moves forward
  (every function of \<open>Reader\<close>); \<open>stream_decoder\<close>, feeding chunks is feeding their concatenation (the
  framer and the object decoder); \<open>eviction\<close>, a bounded map drops its oldest entries (the snapshots,
  the tickets and the sessions); \<open>operation_log\<close>, a log of operations whose statuses only move forward
  (the journal, used by the job engine and by recovery); \<open>transition_system\<close>, what holds at the start
  and is kept by every step holds in every reachable state (the queue, the journal, the snapshots,
  the job engine, the pairing store).

  \<^bold>\<open>Bounds and fuel.\<close> No definition takes fuel: loops over input recurse on the input or on a measure of
  what is left (the unread bytes, the waiting entries, the map's size). Indices and clock readings are
  mathematical integers; the source's are exact up to \<open>2 ^ 53\<close>, which no input reaches since every
  reader is bounded. Bytes and code units keep their width.

  \<^bold>\<open>Not modelled.\<close> Code that starts processes, opens files and sockets, or speaks to a hosting service;
  the schemas of the \<^verbatim>\<open>zod\<close> package and everything that only validates with them; the reading workflows and
  the parsers only they use; the registries of roots, repositories and paths; the user
  interface, the command line, the desktop shells and the Rust port. Where modelled code calls them,
  they are arguments: what Git answers, what the registries and the file system say to an effect (\<open>effect_env\<close>),
  the reads of Git a precondition compares, the digest
  of a payload, the parsing of a query or body, \<^verbatim>\<open>JSON.parse\<close> and the conversion of dates.
\<close>

end
